(* ===== verification/Pulse_Prelude.thy ===== *)
theory Pulse_Prelude
  imports Complex_Main "HOL-Library.Word" "HOL-Library.Sublist"
begin

text \<open>
  What the components share: the names of Go's machine types, the parts of Go's standard
  library the source calls (rounding, string cutting, integer parsing, slices), and the two
  generic contracts the components interpret: a state machine whose every step keeps an
  invariant, and a normaliser whose results are valid and which leaves valid values alone.

  Conventions used by every theory of the development:
  \<^item> \<open>float64\<close> is \<open>real\<close>: arithmetic is exact, there is no rounding to 53 bits and no NaN or
    infinity. Where the source tests for NaN or infinity that test is always passed.
  \<^item> \<open>uint64\<close>, \<open>uint32\<close> and \<open>uint8\<close> are words, with Go's wrap-around.
  \<^item> \<open>int\<close> and \<open>int64\<close> are \<open>int\<close>; the values the code keeps in them stay far below \<open>2 ^ 63\<close>.
  \<^item> \<open>time.Time\<close> and \<open>time.Duration\<close> are \<open>int\<close>, in nanoseconds, with the Unix epoch at 0.
  \<^item> a Go string is a \<open>string\<close>, one \<open>char\<close> per byte, so \<open>len\<close> is \<open>length\<close>.
\<close>

section \<open>Machine types\<close>

type_synonym u8 = "8 word"
type_synonym u32 = "32 word"
type_synonym u64 = "64 word"
type_synonym time = int
type_synonym duration = int

abbreviation (input) Microsecond :: duration where "Microsecond \<equiv> 1000"
abbreviation (input) Millisecond :: duration where "Millisecond \<equiv> 1000000"
abbreviation (input) Second :: duration where "Second \<equiv> 1000000000"
abbreviation (input) Minute :: duration where "Minute \<equiv> 60000000000"
abbreviation (input) Hour :: duration where "Hour \<equiv> 3600000000000"

text \<open>
  Go's zero \<open>time.Time\<close> is midnight of 1 January of year 1, a whole number of minutes before
  the Unix epoch. \<open>Truncate\<close> counts from there, \<open>Unix\<close> from the epoch.
\<close>

definition zero_time :: time where
  "zero_time = - 62135596800 * Second"

definition IsZero :: "time \<Rightarrow> bool" where
  "IsZero t \<longleftrightarrow> t = zero_time"

definition Unix :: "time \<Rightarrow> int" where
  "Unix t = t div Second"

definition unix_time :: "int \<Rightarrow> time" where
  "unix_time s = s * Second"

definition truncate_minute :: "time \<Rightarrow> time" where
  "truncate_minute t = t - (t - zero_time) mod Minute"

lemma truncate_minute_floor: "truncate_minute t = (t div Minute) * Minute"
proof -
  have "t - zero_time = t + 1035593280 * Minute"
    by (simp add: zero_time_def)
  then have "(t - zero_time) mod Minute = t mod Minute"
    by (simp only: mod_mult_self1)
  then show ?thesis
    unfolding truncate_minute_def by (simp add: minus_mod_eq_div_mult)
qed

lemma Unix_unix_time [simp]: "Unix (unix_time s) = s"
  by (simp add: Unix_def unix_time_def)

lemma Unix_mono: "a \<le> b \<Longrightarrow> Unix a \<le> Unix b"
  by (simp add: Unix_def zdiv_mono1)

lemma truncate_minute_mono: "a \<le> b \<Longrightarrow> truncate_minute a \<le> truncate_minute b"
  by (simp add: truncate_minute_floor zdiv_mono1)

section \<open>Numbers\<close>

definition pow10 :: "nat \<Rightarrow> real" where
  "pow10 n = 10 ^ n"

text \<open>\<open>math.Round\<close> rounds half away from zero.\<close>

definition math_Round :: "real \<Rightarrow> real" where
  "math_Round x = (if x < 0 then - of_int \<lfloor>- x + 1 / 2\<rfloor> else of_int \<lfloor>x + 1 / 2\<rfloor>)"


lemma math_Round_mono: "x \<le> y \<Longrightarrow> math_Round x \<le> math_Round y"
proof -
  assume le: "x \<le> y"
  consider "y < 0" | "x < 0" "0 \<le> y" | "0 \<le> x" using le by linarith
  then show ?thesis
  proof cases
    case 1
    then have "\<lfloor>- y + 1 / 2\<rfloor> \<le> \<lfloor>- x + 1 / 2\<rfloor>" using le by (intro floor_mono) simp
    with 1 le show ?thesis by (simp add: math_Round_def)
  next
    case 2
    then have "(0::real) \<le> of_int \<lfloor>- x + 1 / 2\<rfloor>" and "(0::real) \<le> of_int \<lfloor>y + 1 / 2\<rfloor>"
      by simp_all
    moreover have "math_Round x = - of_int \<lfloor>- x + 1 / 2\<rfloor>" "math_Round y = of_int \<lfloor>y + 1 / 2\<rfloor>"
      using 2 by (simp_all add: math_Round_def)
    ultimately show ?thesis by linarith
  next
    case 3
    then have "\<lfloor>x + 1 / 2\<rfloor> \<le> \<lfloor>y + 1 / 2\<rfloor>" using le by (intro floor_mono) simp
    with 3 le show ?thesis by (simp add: math_Round_def)
  qed
qed

lemma math_Round_of_int [simp]: "math_Round (of_int n) = of_int n"
proof -
  have "\<lfloor>(of_int k :: real) + 1 / 2\<rfloor> = k" for k :: int by linarith
  from this[of n] this[of "- n"] show ?thesis by (simp add: math_Round_def)
qed

lemma math_Round_numeral [simp]: "math_Round (numeral n) = numeral n"
  using math_Round_of_int[of "numeral n"] by simp

lemma math_Round_0 [simp]: "math_Round 0 = 0"
  using math_Round_of_int[of 0] by simp

text \<open>Converting a non-negative \<open>float64\<close> to \<open>uint64\<close> drops the fraction.\<close>

definition go_uint64 :: "real \<Rightarrow> u64" where
  "go_uint64 x = word_of_int \<lfloor>x\<rfloor>"

lemma unat_u64_less: "unat (x :: u64) < 2 ^ 64"
  using unsigned_less[of x, where ?'a = nat] by simp

lemma real_unat_less: "real (unat (x :: u64)) < 2 ^ 64"
  by (metis unat_u64_less of_nat_less_iff of_nat_numeral of_nat_power)

lemma unat_add_u64: "unat a + unat b < 2 ^ 64 \<Longrightarrow> unat (a + b) = unat a + unat b" for a b :: u64
  by (simp add: unat_word_ariths)

lemma unat_diff_u64: "b \<le> a \<Longrightarrow> unat (a - b) = unat a - unat b" for a b :: u64
  by (simp add: unat_sub)

lemma word_of_int_mono: "0 \<le> i \<Longrightarrow> i \<le> j \<Longrightarrow> j < 2 ^ 64 \<Longrightarrow> (word_of_int i :: u64) \<le> word_of_int j"
  by (simp add: word_le_def uint_word_of_int)

lemma go_uint64_mono:
  assumes "0 \<le> x" "x \<le> y" "y < 2 ^ 64"
  shows "go_uint64 x \<le> go_uint64 y"
  unfolding go_uint64_def
  by (rule word_of_int_mono) (use assms in \<open>simp_all add: floor_mono floor_less_iff\<close>)

definition clampInt :: "int \<Rightarrow> int \<Rightarrow> int \<Rightarrow> int" where
  "clampInt v low high = min (max v low) high"

lemma clampInt_range: "low \<le> high \<Longrightarrow> low \<le> clampInt v low high \<and> clampInt v low high \<le> high"
  by (simp add: clampInt_def)

lemma clampInt_id [simp]: "low \<le> v \<Longrightarrow> v \<le> high \<Longrightarrow> clampInt v low high = v"
  by (simp add: clampInt_def)

section \<open>Strings\<close>

text \<open>\<open>strings.Cut\<close>: the text before and after the first separator byte.\<close>

fun cut :: "char \<Rightarrow> string \<Rightarrow> (string \<times> string) option" where
  "cut c [] = None"
| "cut c (x # xs) =
     (if x = c then Some ([], xs)
      else map_option (\<lambda>(a, b). (x # a, b)) (cut c xs))"

text \<open>\<open>strings.Split\<close> at one byte: the fields, at least one.\<close>

fun split_at :: "char \<Rightarrow> string \<Rightarrow> string list" where
  "split_at c [] = [[]]"
| "split_at c (x # xs) =
     (if x = c then [] # split_at c xs
      else (case split_at c xs of [] \<Rightarrow> [[x]] | y # ys \<Rightarrow> (x # y) # ys))"

definition has_prefix :: "string \<Rightarrow> string \<Rightarrow> bool" where
  "has_prefix s p \<longleftrightarrow> take (length p) s = p"

definition has_suffix :: "string \<Rightarrow> string \<Rightarrow> bool" where
  "has_suffix s p \<longleftrightarrow> has_prefix (rev s) (rev p)"

definition cut_prefix :: "string \<Rightarrow> string \<Rightarrow> string option" where
  "cut_prefix s p = (if has_prefix s p then Some (drop (length p) s) else None)"

definition trim_suffix :: "string \<Rightarrow> string \<Rightarrow> string" where
  "trim_suffix s p = (if has_suffix s p then take (length s - length p) s else s)"

fun contains_str :: "string \<Rightarrow> string \<Rightarrow> bool" where
  "contains_str [] p = (p = [])"
| "contains_str (x # xs) p = (has_prefix (x # xs) p \<or> contains_str xs p)"

definition is_space :: "char \<Rightarrow> bool" where
  "is_space c \<longleftrightarrow> c \<in> {CHR '' '', CHR 0x09, CHR 0x0A, CHR 0x0B, CHR 0x0C, CHR 0x0D}"

definition trim_space :: "string \<Rightarrow> string" where
  "trim_space s = rev (dropWhile is_space (rev (dropWhile is_space s)))"

text \<open>\<open>strings.TrimRight(s, "/")\<close>.\<close>

definition trim_slashes :: "string \<Rightarrow> string" where
  "trim_slashes s = rev (dropWhile (\<lambda>c. c = CHR ''/'') (rev s))"

text \<open>\<open>filepath.Base\<close> with \<open>/\<close> as the separator.\<close>

definition base_name :: "string \<Rightarrow> string" where
  "base_name p =
     (if p = '''' then ''.''
      else if trim_slashes p = '''' then ''/''
      else rev (takeWhile (\<lambda>c. c \<noteq> CHR ''/'') (rev (trim_slashes p))))"

definition lower_char :: "char \<Rightarrow> char" where
  "lower_char c = (if of_char c \<ge> (65::nat) \<and> of_char c \<le> (90::nat)
     then char_of (of_char c + (32::nat)) else c)"

definition to_lower :: "string \<Rightarrow> string" where
  "to_lower s = map lower_char s"

definition is_digit :: "char \<Rightarrow> bool" where
  "is_digit c \<longleftrightarrow> (48::nat) \<le> of_char c \<and> of_char c \<le> (57::nat)"

fun digits_val :: "int \<Rightarrow> string \<Rightarrow> int" where
  "digits_val a [] = a"
| "digits_val a (c # cs) = digits_val (a * 10 + (int (of_char c) - 48)) cs"

definition parse_digits :: "string \<Rightarrow> int option" where
  "parse_digits s = (if s \<noteq> [] \<and> list_all is_digit s then Some (digits_val 0 s) else None)"

text \<open>\<open>strconv.Atoi\<close>: an optional sign, then decimal digits, in the range of \<open>int64\<close>.\<close>

definition atoi :: "string \<Rightarrow> int option" where
  "atoi s =
     (let (neg, body) = (case s of
            [] \<Rightarrow> (False, [])
          | c # cs \<Rightarrow> if c = CHR ''-'' then (True, cs)
                      else if c = CHR ''+'' then (False, cs) else (False, s))
      in case parse_digits body of
           None \<Rightarrow> None
         | Some n \<Rightarrow> let v = (if neg then - n else n)
                     in if - (2 ^ 63) \<le> v \<and> v < 2 ^ 63 then Some v else None)"

definition truncate :: "string \<Rightarrow> nat \<Rightarrow> string" where
  "truncate value maximum = (if length value \<le> maximum then value else take maximum value)"

lemma length_truncate: "length (truncate s n) \<le> n"
  by (simp add: truncate_def)

text \<open>\<open>strconv.Itoa\<close> and the \<open>%d\<close> verb.\<close>

fun nat_digits :: "nat \<Rightarrow> string" where
  "nat_digits n = (if n < 10 then [char_of (48 + n)]
     else nat_digits (n div 10) @ [char_of (48 + n mod 10)])"

declare nat_digits.simps [simp del]

definition itoa :: "int \<Rightarrow> string" where
  "itoa n = (if n < 0 then CHR ''-'' # nat_digits (nat (- n)) else nat_digits (nat n))"

section \<open>Slices and maps\<close>

definition append_unique :: "'a list \<Rightarrow> 'a \<Rightarrow> 'a list" where
  "append_unique xs x = (if x \<in> set xs then xs else xs @ [x])"

lemma distinct_append_unique [intro]: "distinct xs \<Longrightarrow> distinct (append_unique xs x)"
  by (simp add: append_unique_def)

lemma set_append_unique [simp]: "set (append_unique xs x) = insert x (set xs)"
  by (auto simp: append_unique_def)

text \<open>What a sublist keeps of its list.\<close>

lemma subseq_set: "subseq xs ys \<Longrightarrow> set xs \<subseteq> set ys"
  by (induction rule: list_emb.induct) auto

lemma subseq_sorted_wrt: "subseq xs ys \<Longrightarrow> sorted_wrt R ys \<Longrightarrow> sorted_wrt R xs"
  by (induction rule: list_emb.induct) (auto dest: subseq_set)

lemma subseq_distinct: "subseq xs ys \<Longrightarrow> distinct ys \<Longrightarrow> distinct xs"
  by (induction rule: list_emb.induct) (auto dest: subseq_set)

lemma subseq_drop [simp]: "subseq (drop n xs) xs"
  by (metis append_take_drop_id subseq_drop_many subseq_order.order_refl)

section \<open>Shared contracts\<close>

text \<open>
  A component whose operations are the events of a machine: every step keeps the invariant,
  so every run from a good state ends in a good state.
\<close>

locale machine =
  fixes step :: "'s \<Rightarrow> 'e \<Rightarrow> 's"
    and inv :: "'s \<Rightarrow> bool"
  assumes step_inv: "inv s \<Longrightarrow> inv (step s e)"
begin

lemma run_inv: "inv s \<Longrightarrow> inv (foldl step s es)"
  by (induction es arbitrary: s) (auto simp: step_inv)

lemma run_prefix_inv: "inv s \<Longrightarrow> inv (foldl step s (take n es))"
  by (rule run_inv)

end

text \<open>A machine with a quantity no step lowers.\<close>

locale monotone_machine = machine +
  fixes meas :: "'s \<Rightarrow> int"
  assumes step_mono: "inv s \<Longrightarrow> meas s \<le> meas (step s e)"
begin

lemma run_mono: "inv s \<Longrightarrow> meas s \<le> meas (foldl step s es)"
proof (induction es arbitrary: s)
  case Nil
  then show ?case by simp
next
  case (Cons e es)
  then have "meas s \<le> meas (step s e)" and "inv (step s e)"
    by (auto simp: step_mono step_inv)
  with Cons.IH show ?case by fastforce
qed

end

text \<open>
  A normaliser turns any value into a valid one and leaves a valid one alone; it is then
  idempotent, and its fixed points are exactly the valid values.
\<close>

locale normaliser =
  fixes norm :: "'a \<Rightarrow> 'a"
    and valid :: "'a \<Rightarrow> bool"
  assumes norm_valid: "valid (norm x)"
    and norm_id: "valid x \<Longrightarrow> norm x = x"
begin

lemma norm_idem: "norm (norm x) = norm x"
  by (rule norm_id) (rule norm_valid)

lemma norm_fixed_iff: "norm x = x \<longleftrightarrow> valid x"
  using norm_valid[of x] norm_id[of x] by auto

end

end
