(* ===== verification/Quality_Score.thy ===== *)
theory Quality_Score
  imports Pulse_Prelude
begin

text \<open>
  The controller-independent quality policy of \<open>quality/quality.go\<close>: throughput buckets and
  the stability detector, the application scores, and the confidence grade. The records are
  the structs of that file, one field per field; each function below is the Go function of the
  same name, on exact reals.
\<close>

section \<open>Data\<close>

type_synonym Rating = string

abbreviation RatingGood :: Rating where "RatingGood \<equiv> ''good''"
abbreviation RatingAverage :: Rating where "RatingAverage \<equiv> ''average''"
abbreviation RatingBad :: Rating where "RatingBad \<equiv> ''bad''"
abbreviation RatingUnavailable :: Rating where "RatingUnavailable \<equiv> ''unavailable''"

abbreviation MinimumBaselineSamples :: int where "MinimumBaselineSamples \<equiv> 20"
abbreviation MinimumLoadedSamples :: int where "MinimumLoadedSamples \<equiv> 5"

record Budget =
  bg_RequestedDownloadBytes :: u64
  bg_RequestedUploadBytes :: u64
  bg_EffectiveDownloadBytes :: u64
  bg_EffectiveUploadBytes :: u64
  bg_MaxDurationSeconds :: int
  bg_MaxConcurrentRequests :: int
  bg_PredictedBytes :: u64
  bg_UsedBytes :: u64
  bg_CapHit :: bool

record Bucket =
  bk_Index :: int
  bk_StartMS :: int
  bk_DurationMS :: int
  bk_Bytes :: u64
  bk_Samples :: int
  bk_StreamCount :: int
  bk_Complete :: bool
  bk_ThroughputMbps :: real

record StabilityPolicy =
  sp_MinimumBucketDurationMS :: int
  sp_MinimumSamples :: int
  sp_RequiredBuckets :: int
  sp_MaxCoefficientVariation :: real
  sp_MaxMADRatio :: real

record StableRegion =
  sr_StartBucket :: int
  sr_EndBucket :: int
  sr_BucketCount :: int
  sr_Stable :: bool
  sr_ThroughputMbps :: real
  sr_CoefficientVariation :: real
  sr_MADRatio :: real
  sr_Reason :: string

definition empty_region :: StableRegion where
  "empty_region = \<lparr>sr_StartBucket = 0, sr_EndBucket = 0, sr_BucketCount = 0, sr_Stable = False,
     sr_ThroughputMbps = 0, sr_CoefficientVariation = 0, sr_MADRatio = 0, sr_Reason = ''''\<rparr>"

record PhaseMetrics =
  pm_P95LatencyMS :: real
  pm_LossPct :: real
  pm_LatencySamples :: int
  pm_LossAvailable :: bool

definition empty_phase :: PhaseMetrics where
  "empty_phase = \<lparr>pm_P95LatencyMS = 0, pm_LossPct = 0, pm_LatencySamples = 0, pm_LossAvailable = False\<rparr>"

record ApplicationInput =
  ai_Baseline :: PhaseMetrics
  ai_Download :: PhaseMetrics
  ai_Upload :: PhaseMetrics
  ai_Bidirectional :: PhaseMetrics
  ai_DownloadP75Mbps :: real
  ai_UploadP75Mbps :: real
  ai_DownloadAvailable :: bool
  ai_UploadAvailable :: bool

record ApplicationScore =
  as_Available :: bool
  as_Name :: string
  as_Score :: real
  as_Rating :: Rating
  as_LatencyScore :: real
  as_LossScore :: real
  as_ThroughputScore :: real
  as_MeasuredLatencyMS :: real
  as_MeasuredLossPct :: real
  as_DownloadMbps :: real
  as_UploadMbps :: real
  as_Explanation :: string
  as_UnavailableReasons :: "string list"

text \<open>A Go map from string to score is an association list in insertion order.\<close>

record Experience =
  ex_Available :: bool
  ex_OverallScore :: real
  ex_Rating :: Rating
  ex_Home :: "(string \<times> ApplicationScore) list"
  ex_Additional :: "(string \<times> ApplicationScore) list"

record appProfile =
  ap_key :: string
  ap_name :: string
  ap_phase :: string
  ap_explanation :: string
  ap_latencyGood :: real
  ap_latencyBad :: real
  ap_lossGood :: real
  ap_lossBad :: real
  ap_downloadGood :: real
  ap_downloadMin :: real
  ap_uploadGood :: real
  ap_uploadMin :: real
  ap_latencyWeight :: real
  ap_lossWeight :: real
  ap_throughputWeight :: real
  ap_floorInfluence :: real

record ConfidenceInput =
  ci_BaselineSamples :: int
  ci_PhaseSamples :: "string \<Rightarrow> int"
  ci_StablePhases :: "string \<Rightarrow> bool"
  ci_ProbeSuccessRatio :: real
  ci_FreshPathSuccessRatio :: real
  ci_AgentCPUBusyPct :: real
  ci_EndpointCV :: real
  ci_SourceDisagreementPct :: real
  ci_NetworkChanged :: bool
  ci_IPFamilyChanged :: bool

record Confidence =
  cf_Level :: string
  cf_Reasons :: "string list"

section \<open>Arithmetic helpers\<close>

definition clamp :: "real \<Rightarrow> real \<Rightarrow> real \<Rightarrow> real" where
  "clamp v low high = min (max v low) high"

definition clamp01 :: "real \<Rightarrow> real" where
  "clamp01 v = clamp v 0 1"

definition round_places :: "real \<Rightarrow> nat \<Rightarrow> real" where
  "round_places v places = math_Round (v * pow10 places) / pow10 places"

definition finitePositive :: "real \<Rightarrow> bool" where
  "finitePositive v \<longleftrightarrow> v > 0"

definition median :: "real list \<Rightarrow> real" where
  "median values =
     (if values = [] then 0
      else let ordered = sort values; middle = length ordered div 2
           in if even (length ordered) then (ordered ! (middle - 1) + ordered ! middle) / 2
              else ordered ! middle)"

definition medianAbsoluteDeviation :: "real list \<Rightarrow> real" where
  "medianAbsoluteDeviation values =
     (let center = median values in median (map (\<lambda>v. \<bar>v - center\<bar>) values))"

text \<open>Coefficient of variation, median absolute deviation over median, and median.\<close>

definition robustSpread :: "real list \<Rightarrow> real \<times> real \<times> real" where
  "robustSpread values =
     (if values = [] then (0, 0, 0)
      else let center = median values;
               mean = foldl (+) 0 values / real (length values);
               variance = foldl (\<lambda>a v. a + (v - mean) * (v - mean)) 0 values / real (length values);
               cv = (if mean > 0 then sqrt variance / mean else 0);
               madRatio = (if center > 0 then medianAbsoluteDeviation values / center else 0)
           in (cv, madRatio, center))"

definition bucketMbps :: "Bucket \<Rightarrow> real" where
  "bucketMbps b = (if bk_DurationMS b \<le> 0 then 0
     else real (unat (bk_Bytes b)) * 8 / of_int (bk_DurationMS b) / 1000)"

definition bucketValues :: "Bucket list \<Rightarrow> real list" where
  "bucketValues bs = map bk_ThroughputMbps bs"

fun consecutiveWithSameStreams :: "Bucket list \<Rightarrow> bool" where
  "consecutiveWithSameStreams (a # b # bs) =
     (if bk_Index b \<noteq> bk_Index a + 1 \<or> bk_StreamCount b \<noteq> bk_StreamCount a then False
      else consecutiveWithSameStreams (b # bs))"
| "consecutiveWithSameStreams _ = True"

section \<open>Stability\<close>

definition DefaultStabilityPolicy :: StabilityPolicy where
  "DefaultStabilityPolicy = \<lparr>sp_MinimumBucketDurationMS = 900, sp_MinimumSamples = 1,
     sp_RequiredBuckets = 3, sp_MaxCoefficientVariation = 0.10, sp_MaxMADRatio = 0.08\<rparr>"

definition normalizeStabilityPolicy :: "StabilityPolicy \<Rightarrow> StabilityPolicy" where
  "normalizeStabilityPolicy p =
     (let d = DefaultStabilityPolicy in
      \<lparr>sp_MinimumBucketDurationMS =
         (if sp_MinimumBucketDurationMS p \<le> 0 then sp_MinimumBucketDurationMS d
          else sp_MinimumBucketDurationMS p),
       sp_MinimumSamples =
         (if sp_MinimumSamples p \<le> 0 then sp_MinimumSamples d else sp_MinimumSamples p),
       sp_RequiredBuckets =
         (if sp_RequiredBuckets p < 2 then sp_RequiredBuckets d else sp_RequiredBuckets p),
       sp_MaxCoefficientVariation =
         (if sp_MaxCoefficientVariation p \<le> 0 \<or> sp_MaxCoefficientVariation p > 1
          then sp_MaxCoefficientVariation d else sp_MaxCoefficientVariation p),
       sp_MaxMADRatio =
         (if sp_MaxMADRatio p \<le> 0 \<or> sp_MaxMADRatio p > 1
          then sp_MaxMADRatio d else sp_MaxMADRatio p)\<rparr>)"

text \<open>The buckets a region may be built from, with their rate filled in.\<close>

definition usable_buckets :: "StabilityPolicy \<Rightarrow> Bucket list \<Rightarrow> Bucket list" where
  "usable_buckets policy buckets =
     filter (\<lambda>b. finitePositive (bk_ThroughputMbps b))
       (map (\<lambda>b. b\<lparr>bk_ThroughputMbps := bucketMbps b\<rparr>)
         (filter (\<lambda>b. \<not> (\<not> bk_Complete b \<or> bk_DurationMS b < sp_MinimumBucketDurationMS policy
                      \<or> bk_Samples b < sp_MinimumSamples policy \<or> bk_Bytes b = 0)) buckets))"

text \<open>
  The inner loop of the detector: the values so far, the last bucket taken and the buckets
  after it. It returns the values and the last bucket of the region.
\<close>

fun extend_region :: "real \<Rightarrow> real list \<Rightarrow> Bucket \<Rightarrow> Bucket list \<Rightarrow> real list \<times> Bucket" where
  "extend_region center values previous [] = (values, previous)"
| "extend_region center values previous (candidate # rest) =
     (if bk_Index candidate \<noteq> bk_Index previous + 1
         \<or> bk_StreamCount candidate \<noteq> bk_StreamCount previous then (values, previous)
      else let allowed = max (0.15 * center) (2 * medianAbsoluteDeviation values) in
           if \<bar>bk_ThroughputMbps candidate - center\<bar> > allowed then (values, previous)
           else extend_region center (values @ [bk_ThroughputMbps candidate]) candidate rest)"

text \<open>The outer loop: the start position moves along the usable buckets.\<close>

fun find_region :: "StabilityPolicy \<Rightarrow> nat \<Rightarrow> Bucket list \<Rightarrow> StableRegion option" where
  "find_region policy need [] = None"
| "find_region policy need (first # rest) =
     (let us = first # rest in
      if length us < need then None
      else let window = take need us in
        if \<not> consecutiveWithSameStreams window then find_region policy need rest
        else let values = bucketValues window; (cv, madRatio, center) = robustSpread values in
          if cv > sp_MaxCoefficientVariation policy \<or> madRatio > sp_MaxMADRatio policy
          then find_region policy need rest
          else let (values', final) = extend_region center values (last window) (drop need us);
                   (cv', mad', center') = robustSpread values'
               in Some \<lparr>sr_StartBucket = bk_Index first, sr_EndBucket = bk_Index final,
                    sr_BucketCount = int (length values'), sr_Stable = True,
                    sr_ThroughputMbps = round_places center' 3,
                    sr_CoefficientVariation = round_places cv' 4,
                    sr_MADRatio = round_places mad' 4, sr_Reason = ''''\<rparr>)"

definition DetectStableRegion :: "Bucket list \<Rightarrow> StabilityPolicy \<Rightarrow> StableRegion" where
  "DetectStableRegion buckets policy0 =
     (let policy = normalizeStabilityPolicy policy0;
          usable = usable_buckets policy buckets;
          need = nat (sp_RequiredBuckets policy)
      in if length usable < need
         then empty_region\<lparr>sr_Reason := ''insufficient_complete_buckets'',
                sr_BucketCount := int (length usable)\<rparr>
         else case find_region policy need usable of
           Some r \<Rightarrow> r
         | None \<Rightarrow>
             let (cv, madRatio, center) = robustSpread (bucketValues usable)
             in \<lparr>sr_StartBucket = bk_Index (hd usable), sr_EndBucket = bk_Index (last usable),
                 sr_BucketCount = int (length usable), sr_Stable = False,
                 sr_ThroughputMbps = round_places center 3,
                 sr_CoefficientVariation = round_places cv 4,
                 sr_MADRatio = round_places madRatio 4,
                 sr_Reason = ''throughput_did_not_stabilize''\<rparr>)"

definition DetectBidirectionalStableRegion ::
    "Bucket list \<Rightarrow> Bucket list \<Rightarrow> StabilityPolicy \<Rightarrow> StableRegion" where
  "DetectBidirectionalStableRegion download upload policy0 =
     (let policy = normalizeStabilityPolicy policy0;
          down = DetectStableRegion download policy;
          up = DetectStableRegion upload policy;
          region = empty_region\<lparr>sr_ThroughputMbps :=
            round_places (sr_ThroughputMbps down + sr_ThroughputMbps up) 3\<rparr>
      in if \<not> sr_Stable down \<and> \<not> sr_Stable up then
           region\<lparr>sr_Reason :=
               (if sr_Reason down = ''insufficient_complete_buckets''
                   \<or> sr_Reason up = ''insufficient_complete_buckets''
                then ''insufficient_complete_buckets'' else ''neither_direction_stable''),
             sr_BucketCount := min (sr_BucketCount down) (sr_BucketCount up)\<rparr>
         else if \<not> sr_Stable down then
           region\<lparr>sr_Reason :=
               (if sr_Reason down = ''insufficient_complete_buckets'' then sr_Reason down
                else ''download_not_stable''),
             sr_BucketCount := sr_BucketCount down\<rparr>
         else if \<not> sr_Stable up then
           region\<lparr>sr_Reason :=
               (if sr_Reason up = ''insufficient_complete_buckets'' then sr_Reason up
                else ''upload_not_stable''),
             sr_BucketCount := sr_BucketCount up\<rparr>
         else
           let start = max (sr_StartBucket down) (sr_StartBucket up);
               end' = min (sr_EndBucket down) (sr_EndBucket up);
               overlap = end' - start + 1
           in if overlap < sp_RequiredBuckets policy then
                region\<lparr>sr_Reason := ''directions_not_overlapping'', sr_BucketCount := max overlap 0\<rparr>
              else region\<lparr>sr_Stable := True, sr_StartBucket := start, sr_EndBucket := end',
                sr_BucketCount := overlap,
                sr_CoefficientVariation :=
                  round_places (max (sr_CoefficientVariation down) (sr_CoefficientVariation up)) 4,
                sr_MADRatio := round_places (max (sr_MADRatio down) (sr_MADRatio up)) 4\<rparr>)"

section \<open>Application scores\<close>

definition lowerIsBetter :: "real \<Rightarrow> real \<Rightarrow> real \<Rightarrow> real" where
  "lowerIsBetter measured good bad =
     (if bad \<le> good then 0 else clamp (100 * (1 - (measured - good) / (bad - good))) 0 100)"

definition higherIsBetter :: "real \<Rightarrow> real \<Rightarrow> real \<Rightarrow> real" where
  "higherIsBetter measured minimum good =
     (if good \<le> minimum then 0 else clamp (100 * (measured - minimum) / (good - minimum)) 0 100)"

definition rating :: "real \<Rightarrow> Rating" where
  "rating score = (if score \<ge> 80 then RatingGood else if score \<ge> 60 then RatingAverage else RatingBad)"

definition applicationProfiles :: "appProfile list" where
  "applicationProfiles =
    [\<lparr>ap_key = ''browsing'', ap_name = ''Browsing'', ap_phase = ''baseline'',
      ap_explanation = ''Starting pages and requests should feel responsive.'',
      ap_latencyGood = 60, ap_latencyBad = 180, ap_lossGood = 0.5, ap_lossBad = 2.5,
      ap_downloadGood = 20, ap_downloadMin = 2, ap_uploadGood = 3, ap_uploadMin = 0.5,
      ap_latencyWeight = 0.55, ap_lossWeight = 0.20, ap_throughputWeight = 0.25,
      ap_floorInfluence = 0.20\<rparr>,
     \<lparr>ap_key = ''streaming'', ap_name = ''Streaming'', ap_phase = ''download'',
      ap_explanation = ''Sustained video should have enough headroom without stalls.'',
      ap_latencyGood = 90, ap_latencyBad = 260, ap_lossGood = 1, ap_lossBad = 4,
      ap_downloadGood = 25, ap_downloadMin = 5, ap_uploadGood = 1.5, ap_uploadMin = 0.3,
      ap_latencyWeight = 0.15, ap_lossWeight = 0.10, ap_throughputWeight = 0.75,
      ap_floorInfluence = 0.15\<rparr>,
     \<lparr>ap_key = ''video_calls'', ap_name = ''Video calls'', ap_phase = ''bidirectional'',
      ap_explanation = ''Conversation should stay clear while sending and receiving together.'',
      ap_latencyGood = 70, ap_latencyBad = 200, ap_lossGood = 0.8, ap_lossBad = 3,
      ap_downloadGood = 4, ap_downloadMin = 1.5, ap_uploadGood = 4, ap_uploadMin = 1.5,
      ap_latencyWeight = 0.45, ap_lossWeight = 0.35, ap_throughputWeight = 0.20,
      ap_floorInfluence = 0.35\<rparr>,
     \<lparr>ap_key = ''gaming'', ap_name = ''Gaming'', ap_phase = ''bidirectional'',
      ap_explanation = ''Controls should remain responsive while the connection is busy.'',
      ap_latencyGood = 55, ap_latencyBad = 140, ap_lossGood = 0.5, ap_lossBad = 2,
      ap_downloadGood = 8, ap_downloadMin = 1.5, ap_uploadGood = 3, ap_uploadMin = 0.5,
      ap_latencyWeight = 0.60, ap_lossWeight = 0.30, ap_throughputWeight = 0.10,
      ap_floorInfluence = 0.35\<rparr>,
     \<lparr>ap_key = ''audio_calls'', ap_name = ''Audio calls'', ap_phase = ''bidirectional'',
      ap_explanation = ''Voice needs little bandwidth but is sensitive to delay and loss.'',
      ap_latencyGood = 90, ap_latencyBad = 250, ap_lossGood = 1, ap_lossBad = 4,
      ap_downloadGood = 0.5, ap_downloadMin = 0.1, ap_uploadGood = 0.5, ap_uploadMin = 0.1,
      ap_latencyWeight = 0.50, ap_lossWeight = 0.35, ap_throughputWeight = 0.15,
      ap_floorInfluence = 0.25\<rparr>,
     \<lparr>ap_key = ''backup'', ap_name = ''Backup'', ap_phase = ''upload'',
      ap_explanation = ''Large uploads depend mainly on sustained upstream throughput.'',
      ap_latencyGood = 180, ap_latencyBad = 400, ap_lossGood = 2, ap_lossBad = 6,
      ap_downloadGood = 2, ap_downloadMin = 0.5, ap_uploadGood = 15, ap_uploadMin = 2,
      ap_latencyWeight = 0.10, ap_lossWeight = 0.10, ap_throughputWeight = 0.80,
      ap_floorInfluence = 0.20\<rparr>]"

text \<open>The phase a profile is judged on, before and after the evidence check.\<close>

definition profile_phase :: "ApplicationInput \<Rightarrow> appProfile \<Rightarrow> PhaseMetrics" where
  "profile_phase input profile =
     (if ap_phase profile = ''download'' then ai_Download input
      else if ap_phase profile = ''upload'' then ai_Upload input
      else if ap_phase profile = ''bidirectional'' then ai_Bidirectional input
      else ai_Baseline input)"

definition starved_reason :: "appProfile \<Rightarrow> PhaseMetrics \<Rightarrow> string" where
  "starved_reason profile phase =
     (if ap_phase profile \<noteq> ''baseline'' \<and> pm_LatencySamples phase < MinimumLoadedSamples
      then ''insufficient_load_samples''
      else if ap_phase profile = ''baseline'' \<and> pm_LatencySamples phase < MinimumBaselineSamples
      then ''insufficient_baseline_samples'' else '''')"

definition scored_phase :: "ApplicationInput \<Rightarrow> appProfile \<Rightarrow> PhaseMetrics" where
  "scored_phase input profile =
     (let phase = profile_phase input profile
      in if starved_reason profile phase \<noteq> '''' then empty_phase else phase)"

text \<open>The three component scores of a phase, each 0 where its evidence is missing.\<close>

definition latency_score :: "ApplicationInput \<Rightarrow> appProfile \<Rightarrow> real" where
  "latency_score input profile =
     (let phase = scored_phase input profile in
      if pm_LatencySamples phase > 0
      then round_places (lowerIsBetter (pm_P95LatencyMS phase) (ap_latencyGood profile) (ap_latencyBad profile)) 1
      else 0)"

definition loss_score :: "ApplicationInput \<Rightarrow> appProfile \<Rightarrow> real" where
  "loss_score input profile =
     (let phase = scored_phase input profile in
      if pm_LossAvailable phase
      then round_places (lowerIsBetter (pm_LossPct phase) (ap_lossGood profile) (ap_lossBad profile)) 1
      else 0)"

definition throughput_available :: "ApplicationInput \<Rightarrow> bool" where
  "throughput_available input \<longleftrightarrow> ai_DownloadAvailable input \<and> ai_UploadAvailable input"

definition throughput_score :: "ApplicationInput \<Rightarrow> appProfile \<Rightarrow> real" where
  "throughput_score input profile =
     (if throughput_available input
      then let down = higherIsBetter (ai_DownloadP75Mbps input) (ap_downloadMin profile) (ap_downloadGood profile);
               up = higherIsBetter (ai_UploadP75Mbps input) (ap_uploadMin profile) (ap_uploadGood profile)
           in round_places (min down up) 1
      else 0)"

definition weighted_score :: "ApplicationInput \<Rightarrow> appProfile \<Rightarrow> real" where
  "weighted_score input profile =
     (if pm_LatencySamples (scored_phase input profile) > 0
      then ap_latencyWeight profile * latency_score input profile else 0)
     + (if pm_LossAvailable (scored_phase input profile)
        then ap_lossWeight profile * loss_score input profile else 0)
     + (if throughput_available input
        then ap_throughputWeight profile * throughput_score input profile else 0)"

definition available_weight :: "ApplicationInput \<Rightarrow> appProfile \<Rightarrow> real" where
  "available_weight input profile =
     (if pm_LatencySamples (scored_phase input profile) > 0 then ap_latencyWeight profile else 0)
     + (if pm_LossAvailable (scored_phase input profile) then ap_lossWeight profile else 0)
     + (if throughput_available input then ap_throughputWeight profile else 0)"

text \<open>The multiplier for links slower than the activity's minimum.\<close>

definition floor_factor :: "ApplicationInput \<Rightarrow> appProfile \<Rightarrow> real" where
  "floor_factor input profile =
     (let ratio = min (clamp01 (ai_DownloadP75Mbps input / ap_downloadMin profile))
                      (clamp01 (ai_UploadP75Mbps input / ap_uploadMin profile))
      in 1 - ap_floorInfluence profile + ap_floorInfluence profile * ratio)"

text \<open>The three early returns that leave an outcome unavailable.\<close>

definition outcome_unavailable :: "ApplicationInput \<Rightarrow> appProfile \<Rightarrow> bool" where
  "outcome_unavailable input profile \<longleftrightarrow>
     (ap_throughputWeight profile > 0 \<and> \<not> throughput_available input)
     \<or> (pm_LatencySamples (scored_phase input profile) = 0
        \<and> \<not> pm_LossAvailable (scored_phase input profile))
     \<or> available_weight input profile = 0"

definition unavailable_reasons :: "ApplicationInput \<Rightarrow> appProfile \<Rightarrow> string list" where
  "unavailable_reasons input profile =
     (let starved = starved_reason profile (profile_phase input profile);
          phase = scored_phase input profile
      in (if starved \<noteq> '''' then [starved] else [])
         @ (if pm_LatencySamples phase > 0 then [] else [''latency_unavailable''])
         @ (if pm_LossAvailable phase then [] else [''loss_unavailable''])
         @ (if throughput_available input then [] else [''throughput_unavailable'']))"

definition scoreApplication :: "ApplicationInput \<Rightarrow> appProfile \<Rightarrow> ApplicationScore" where
  "scoreApplication input profile =
     (let phase = scored_phase input profile;
          result = \<lparr>as_Available = False, as_Name = ap_name profile, as_Score = 0,
            as_Rating = RatingUnavailable, as_LatencyScore = latency_score input profile,
            as_LossScore = loss_score input profile,
            as_ThroughputScore = throughput_score input profile,
            as_MeasuredLatencyMS = round_places (pm_P95LatencyMS phase) 1,
            as_MeasuredLossPct = round_places (pm_LossPct phase) 2,
            as_DownloadMbps = round_places (ai_DownloadP75Mbps input) 1,
            as_UploadMbps = round_places (ai_UploadP75Mbps input) 1,
            as_Explanation = ap_explanation profile,
            as_UnavailableReasons = unavailable_reasons input profile\<rparr>
      in if outcome_unavailable input profile then result
         else let base = weighted_score input profile / available_weight input profile;
                  base' = base * floor_factor input profile;
                  final = round_places (clamp base' 0 100) 1
              in result\<lparr>as_Available := True, as_Score := final, as_Rating := rating final\<rparr>)"

definition is_additional :: "string \<Rightarrow> bool" where
  "is_additional k \<longleftrightarrow> k = ''audio_calls'' \<or> k = ''backup''"

definition ScoreApplications :: "ApplicationInput \<Rightarrow> Experience" where
  "ScoreApplications input =
     (let scored = map (\<lambda>p. (ap_key p, scoreApplication input p)) applicationProfiles;
          additional = filter (\<lambda>(k, _). is_additional k) scored;
          home = filter (\<lambda>(k, _). \<not> is_additional k) scored;
          avail = filter as_Available (map snd home);
          homeTotal = foldl (\<lambda>t s. t + as_Score s) 0 avail
      in if avail = []
         then \<lparr>ex_Available = False, ex_OverallScore = 0, ex_Rating = RatingUnavailable,
                ex_Home = home, ex_Additional = additional\<rparr>
         else let overall = round_places (homeTotal / real (length avail)) 1
              in \<lparr>ex_Available = True, ex_OverallScore = overall, ex_Rating = rating overall,
                  ex_Home = home, ex_Additional = additional\<rparr>)"

section \<open>Confidence\<close>

text \<open>The closure \<open>add\<close>: a reason counts once, and its level raises the severity.\<close>

definition add_reason :: "bool \<Rightarrow> string \<Rightarrow> int \<Rightarrow> string list \<times> int \<Rightarrow> string list \<times> int" where
  "add_reason cond reason level st =
     (if \<not> cond \<or> reason = '''' \<or> reason \<in> set (fst st) then st
      else (fst st @ [reason], max (snd st) level))"

definition phase_reasons :: "ConfidenceInput \<Rightarrow> string \<Rightarrow> string list \<times> int \<Rightarrow> string list \<times> int" where
  "phase_reasons input phase st =
     add_reason (\<not> ci_StablePhases input phase) (phase @ ''_did_not_stabilize'') 1
       (add_reason (ci_PhaseSamples input phase < 10) (phase @ ''_insufficient_samples'') 1 st)"

definition confidence_reasons :: "ConfidenceInput \<Rightarrow> string list \<times> int" where
  "confidence_reasons input =
     (let s0 = add_reason (ci_BaselineSamples input < MinimumBaselineSamples)
                 ''baseline_insufficient_samples'' 1 ([], 0);
          s1 = foldl (\<lambda>st phase. phase_reasons input phase st) s0
                 [''download'', ''upload'', ''bidirectional''];
          s2 = (if ci_ProbeSuccessRatio input < 0.7
                then add_reason True ''too_few_latency_probes'' 2 s1
                else add_reason (ci_ProbeSuccessRatio input < 0.9) ''some_latency_probes_missing'' 1 s1);
          s3 = add_reason (ci_FreshPathSuccessRatio input > 0 \<and> ci_FreshPathSuccessRatio input < 0.7)
                 ''fresh_path_probes_unreliable'' 1 s2;
          s4 = add_reason (ci_AgentCPUBusyPct input \<ge> 85) ''agent_cpu_busy_high'' 2 s3;
          s5 = add_reason (ci_EndpointCV input > 0.25) ''traffic_endpoints_inconsistent'' 1 s4;
          s6 = add_reason (ci_SourceDisagreementPct input > 25) ''measurement_sources_disagree'' 1 s5;
          s7 = add_reason (ci_NetworkChanged input) ''network_changed_during_test'' 2 s6
      in add_reason (ci_IPFamilyChanged input) ''ip_family_changed_during_test'' 2 s7)"

definition severity_level :: "int \<Rightarrow> string" where
  "severity_level severity =
     (if severity = 1 then ''medium'' else if severity \<ge> 2 then ''low'' else ''high'')"

definition GradeConfidence :: "ConfidenceInput \<Rightarrow> Confidence" where
  "GradeConfidence input =
     (let (reasons, severity) = confidence_reasons input
      in \<lparr>cf_Level = severity_level severity, cf_Reasons = reasons\<rparr>)"

section \<open>Arithmetic lemmas\<close>

lemma clamp_bounds: "low \<le> high \<Longrightarrow> low \<le> clamp v low high \<and> clamp v low high \<le> high"
  by (simp add: clamp_def)

lemma clamp_mono: "a \<le> b \<Longrightarrow> clamp a low high \<le> clamp b low high"
  by (simp add: clamp_def min_def max_def)

lemma clamp01_range: "0 \<le> clamp01 v" "clamp01 v \<le> 1"
  by (simp_all add: clamp01_def clamp_def)

lemma pow10_pos [simp]: "0 < pow10 n"
  by (simp add: pow10_def)

lemma round_places_mono: "a \<le> b \<Longrightarrow> round_places a n \<le> round_places b n"
  unfolding round_places_def by (intro divide_right_mono math_Round_mono mult_right_mono) (simp_all add: less_imp_le)

lemma round_places_nat: "round_places (real k) n = real k"
proof -
  have "math_Round (real k * pow10 n) = real k * pow10 n"
    using math_Round_of_int[of "int k * 10 ^ n"] by (simp add: pow10_def)
  moreover have "pow10 n \<noteq> 0" using pow10_pos[of n] by linarith
  ultimately show ?thesis by (simp add: round_places_def)
qed

lemma round_places_0 [simp]: "round_places 0 n = 0"
  using round_places_nat[of 0 n] by simp

lemma round_places_bounds:
  "real k \<le> v \<Longrightarrow> v \<le> real m \<Longrightarrow> real k \<le> round_places v n \<and> round_places v n \<le> real m"
  using round_places_mono[of "real k" v n] round_places_mono[of v "real m" n]
  by (simp add: round_places_nat)

lemma round_places_0_100: "0 \<le> v \<Longrightarrow> v \<le> 100 \<Longrightarrow> 0 \<le> round_places v n \<and> round_places v n \<le> 100"
  using round_places_bounds[of 0 v 100 n] by simp

lemma lowerIsBetter_range: "0 \<le> lowerIsBetter m g b" "lowerIsBetter m g b \<le> 100"
  by (simp_all add: lowerIsBetter_def clamp_def)

lemma higherIsBetter_range: "0 \<le> higherIsBetter m l g" "higherIsBetter m l g \<le> 100"
  by (simp_all add: higherIsBetter_def clamp_def)

lemma lowerIsBetter_antimono: "m \<le> m' \<Longrightarrow> lowerIsBetter m' g b \<le> lowerIsBetter m g b"
  unfolding lowerIsBetter_def
  by (auto intro!: clamp_mono divide_right_mono)

lemma higherIsBetter_mono: "m \<le> m' \<Longrightarrow> higherIsBetter m l g \<le> higherIsBetter m' l g"
  unfolding higherIsBetter_def
  by (auto intro!: clamp_mono divide_right_mono)

section \<open>The stability detector\<close>

definition within_policy :: "StabilityPolicy \<Rightarrow> real list \<Rightarrow> bool" where
  "within_policy policy values \<longleftrightarrow>
     (case robustSpread values of (cv, mad, _) \<Rightarrow>
        cv \<le> sp_MaxCoefficientVariation policy \<and> mad \<le> sp_MaxMADRatio policy)"

text \<open>A window the detector may report: the right length, unbroken, and quiet enough.\<close>

definition stable_window :: "StabilityPolicy \<Rightarrow> nat \<Rightarrow> Bucket list \<Rightarrow> bool" where
  "stable_window policy need w \<longleftrightarrow>
     length w = need \<and> consecutiveWithSameStreams w \<and> within_policy policy (bucketValues w)"

lemma normalized_required: "2 \<le> sp_RequiredBuckets (normalizeStabilityPolicy p)"
  by (simp add: normalizeStabilityPolicy_def DefaultStabilityPolicy_def Let_def)

lemma consecutive_append:
  "xs \<noteq> [] \<Longrightarrow> consecutiveWithSameStreams xs \<Longrightarrow> consecutiveWithSameStreams (last xs # ys) \<Longrightarrow>
   consecutiveWithSameStreams (xs @ ys)"
proof (induction xs rule: consecutiveWithSameStreams.induct)
  case (1 a b bs)
  then show ?case by (simp split: if_splits)
qed simp_all

lemma consecutive_index:
  "consecutiveWithSameStreams (x # xs) \<Longrightarrow>
   bk_Index (last (x # xs)) = bk_Index x + int (length xs)"
  by (induction xs arbitrary: x) (auto split: if_splits)

lemma extend_region_spec:
  "extend_region center values previous rest = (values', final) \<Longrightarrow>
   \<exists>taken post. rest = taken @ post \<and> values' = values @ bucketValues taken \<and>
     final = last (previous # taken) \<and> consecutiveWithSameStreams (previous # taken)"
proof (induction center "values" previous rest rule: extend_region.induct)
  case (1 center "values" previous)
  then show ?case by (auto simp: bucketValues_def)
next
  case (2 center "values" previous candidate rest)
  show ?case
  proof (cases "bk_Index candidate \<noteq> bk_Index previous + 1 \<or> bk_StreamCount candidate \<noteq> bk_StreamCount previous
      \<or> \<bar>bk_ThroughputMbps candidate - center\<bar> > max (0.15 * center) (2 * medianAbsoluteDeviation values)")
    case True
    with "2.prems" have "values' = values \<and> final = previous"
      by (auto simp: Let_def split: if_splits)
    then show ?thesis by (auto simp: bucketValues_def)
  next
    case False
    with "2.prems" have "extend_region center (values @ [bk_ThroughputMbps candidate]) candidate rest = (values', final)"
      by (auto simp: Let_def)
    with "2.IH" False obtain taken post where "rest = taken @ post"
      "values' = (values @ [bk_ThroughputMbps candidate]) @ bucketValues taken"
      "final = last (candidate # taken)" "consecutiveWithSameStreams (candidate # taken)"
      by (auto simp: Let_def)
    with False show ?thesis
      by (intro exI[of _ "candidate # taken"] exI[of _ post]) (auto simp: bucketValues_def)
  qed
qed

text \<open>What the detector reports for a stretch of usable buckets.\<close>

definition report_region :: "Bucket list \<Rightarrow> StableRegion" where
  "report_region run =
     (case robustSpread (bucketValues run) of (cv, mad, center) \<Rightarrow>
        \<lparr>sr_StartBucket = bk_Index (hd run), sr_EndBucket = bk_Index (last run),
         sr_BucketCount = int (length run), sr_Stable = True,
         sr_ThroughputMbps = round_places center 3,
         sr_CoefficientVariation = round_places cv 4, sr_MADRatio = round_places mad 4,
         sr_Reason = ''''\<rparr>)"

declare find_region.simps(2) [simp del]

lemma find_region_short: "length us < need \<Longrightarrow> find_region policy need us = None"
  by (cases us) (simp_all add: find_region.simps(2))

lemma find_region_skip:
  assumes "0 < need" "\<not> stable_window policy need (take need (b # bs))" "need \<le> length (b # bs)"
  shows "find_region policy need (b # bs) = find_region policy need bs"
  using assms
  by (auto simp: find_region.simps(2) stable_window_def within_policy_def Let_def min_def
      split: prod.splits if_splits)

lemma find_region_hit:
  assumes "0 < need" "stable_window policy need (take need (b # bs))"
  shows "\<exists>ext post. drop need (b # bs) = ext @ post \<and>
           consecutiveWithSameStreams (take need (b # bs) @ ext) \<and>
           find_region policy need (b # bs) = Some (report_region (take need (b # bs) @ ext))"
proof -
  let ?w = "take need (b # bs)"
  have len: "need \<le> length (b # bs)" and cons: "consecutiveWithSameStreams ?w"
    and ok: "within_policy policy (bucketValues ?w)"
    using assms by (auto simp: stable_window_def)
  have ne: "?w \<noteq> []" using assms(1) by auto
  obtain cv mad c where sp: "robustSpread (bucketValues ?w) = (cv, mad, c)" by (cases "robustSpread (bucketValues ?w)") auto
  obtain vs fin where ex: "extend_region c (bucketValues ?w) (last ?w) (drop need (b # bs)) = (vs, fin)"
    by fastforce
  from extend_region_spec[OF ex] obtain ext post where e: "drop need (b # bs) = ext @ post"
    "vs = bucketValues ?w @ bucketValues ext" "fin = last (last ?w # ext)"
    "consecutiveWithSameStreams (last ?w # ext)" by blast
  have run: "consecutiveWithSameStreams (?w @ ext)"
    by (rule consecutive_append[OF ne cons e(4)])
  have vs: "vs = bucketValues (?w @ ext)" using e(2) by (simp add: bucketValues_def)
  have fin: "fin = last (?w @ ext)" using e(3) ne by simp
  have hd: "hd (?w @ ext) = b" using assms(1) by (cases need) auto
  obtain cv' mad' c' where sp': "robustSpread vs = (cv', mad', c')" by (cases "robustSpread vs") auto
  have lv: "length vs = length (?w @ ext)" by (simp add: vs bucketValues_def)
  have "find_region policy need (b # bs) = Some \<lparr>sr_StartBucket = bk_Index b, sr_EndBucket = bk_Index fin,
     sr_BucketCount = int (length vs), sr_Stable = True, sr_ThroughputMbps = round_places c' 3,
     sr_CoefficientVariation = round_places cv' 4, sr_MADRatio = round_places mad' 4, sr_Reason = ''''\<rparr>"
    using len cons ok sp ex sp' by (simp add: find_region.simps(2) Let_def within_policy_def)
  also have "\<dots> = Some (report_region (?w @ ext))"
    using sp' vs fin hd lv by (simp add: report_region_def)
  finally show ?thesis using e(1) run by blast
qed

lemma find_region_None:
  "0 < need \<Longrightarrow> find_region policy need us = None \<Longrightarrow> us = pre @ w @ post \<Longrightarrow>
   \<not> stable_window policy need w"
proof (induction us arbitrary: pre)
  case Nil
  then show ?case by (auto simp: stable_window_def)
next
  case (Cons b bs)
  show ?case
  proof (cases "stable_window policy need (take need (b # bs))")
    case True
    from find_region_hit[OF Cons.prems(1) True] Cons.prems(2) show ?thesis by auto
  next
    case False
    show ?thesis
    proof (cases pre)
      case Nil
      with Cons.prems False show ?thesis by (auto simp: stable_window_def)
    next
      case (Cons x pre')
      show ?thesis
      proof (cases "need \<le> length (b # bs)")
        case True
        have "find_region policy need bs = None"
          using find_region_skip[OF Cons.prems(1) False True] Cons.prems(2) by simp
        with Cons.IH[of pre'] Cons.prems Cons show ?thesis by simp
      next
        case False
        with Cons.prems show ?thesis by (auto simp: stable_window_def)
      qed
    qed
  qed
qed

lemma find_region_Some:
  "0 < need \<Longrightarrow> find_region policy need us = Some r \<Longrightarrow>
   \<exists>pre w ext post. us = pre @ w @ ext @ post \<and> stable_window policy need w \<and>
     consecutiveWithSameStreams (w @ ext) \<and> r = report_region (w @ ext)"
proof (induction us)
  case Nil
  then show ?case by simp
next
  case (Cons b bs)
  have len: "need \<le> length (b # bs)"
    using Cons.prems(2) find_region_short[of "b # bs" need policy] by fastforce
  show ?case
  proof (cases "stable_window policy need (take need (b # bs))")
    case True
    from find_region_hit[OF Cons.prems(1) True] Cons.prems(2) obtain ext post
      where d: "drop need (b # bs) = ext @ post"
        and run: "consecutiveWithSameStreams (take need (b # bs) @ ext)"
          "r = report_region (take need (b # bs) @ ext)" by auto
    have "b # bs = [] @ take need (b # bs) @ ext @ post"
      using d append_take_drop_id[of need "b # bs"] by simp
    with True run show ?thesis by blast
  next
    case False
    with Cons.prems len have "find_region policy need bs = Some r"
      by (simp add: find_region_skip)
    with Cons.IH Cons.prems(1) obtain pre w ext post where "bs = pre @ w @ ext @ post"
      "stable_window policy need w" "consecutiveWithSameStreams (w @ ext)" "r = report_region (w @ ext)"
      by blast
    then show ?thesis
      by (intro exI[of _ "b # pre"] exI[of _ w] exI[of _ ext] exI[of _ post]) simp
  qed
qed

lemma report_region_stable [simp]: "sr_Stable (report_region run)"
  by (simp add: report_region_def split: prod.split)

lemma report_region_span:
  assumes "consecutiveWithSameStreams run" "run \<noteq> []"
  shows "sr_BucketCount (report_region run) = int (length run)"
    and "sr_EndBucket (report_region run) = sr_StartBucket (report_region run) + int (length run) - 1"
  using assms consecutive_index[of "hd run" "tl run"]
  by (cases run; auto simp: report_region_def split: prod.split)+

lemma detect_cases:
  fixes bs p
  defines "pol \<equiv> normalizeStabilityPolicy p"
  defines "us \<equiv> usable_buckets pol bs"
  defines "need \<equiv> nat (sp_RequiredBuckets pol)"
  shows "(\<not> sr_Stable (DetectStableRegion bs p) \<and>
            (length us < need \<or> find_region pol need us = None)) \<or>
         (\<exists>r. find_region pol need us = Some r \<and> DetectStableRegion bs p = r)"
proof (cases "length us < need")
  case True
  then show ?thesis by (simp add: DetectStableRegion_def Let_def pol_def us_def need_def empty_region_def)
next
  case False
  then show ?thesis
    by (cases "find_region pol need us")
       (simp_all add: DetectStableRegion_def Let_def pol_def us_def need_def split: prod.split)
qed

lemma required_pos: "0 < nat (sp_RequiredBuckets (normalizeStabilityPolicy p))"
  using normalized_required[of p] by simp

section \<open>Properties of the stability detector\<close>

text \<open>
  (C39) The detector reports a stable region exactly when some unbroken window of the required
  number of usable buckets, all with the same stream count, has a spread within the policy.
  No such window is overlooked and nothing else is called stable.
\<close>

theorem DetectStableRegion_stable_iff:
  "sr_Stable (DetectStableRegion bs p) \<longleftrightarrow>
     (\<exists>pre w post. usable_buckets (normalizeStabilityPolicy p) bs = pre @ w @ post \<and>
        stable_window (normalizeStabilityPolicy p) (nat (sp_RequiredBuckets (normalizeStabilityPolicy p))) w)"
    (is "?L = ?R")
proof
  assume ?L
  with detect_cases[of bs p] obtain r where
    "find_region (normalizeStabilityPolicy p) (nat (sp_RequiredBuckets (normalizeStabilityPolicy p)))
       (usable_buckets (normalizeStabilityPolicy p) bs) = Some r" by blast
  from find_region_Some[OF required_pos this] show ?R by blast
next
  assume ?R
  then obtain pre w post where us: "usable_buckets (normalizeStabilityPolicy p) bs = pre @ w @ post"
    and w: "stable_window (normalizeStabilityPolicy p) (nat (sp_RequiredBuckets (normalizeStabilityPolicy p))) w"
    by blast
  have "\<not> length (pre @ w @ post) < nat (sp_RequiredBuckets (normalizeStabilityPolicy p))"
    using w by (simp add: stable_window_def)
  moreover have "find_region (normalizeStabilityPolicy p) (nat (sp_RequiredBuckets (normalizeStabilityPolicy p)))
      (pre @ w @ post) \<noteq> None"
    using find_region_None[OF required_pos _ refl] w by blast
  ultimately obtain r where r: "find_region (normalizeStabilityPolicy p)
      (nat (sp_RequiredBuckets (normalizeStabilityPolicy p)))
      (usable_buckets (normalizeStabilityPolicy p) bs) = Some r"
    and d: "DetectStableRegion bs p = r"
    using detect_cases[of bs p] us by auto
  from find_region_Some[OF required_pos r] show ?L unfolding d by auto
qed

text \<open>
  What a stable report means: there is an unbroken, same-stream run of usable buckets that
  starts with a window within the policy, and every reported number is that run's: its first and
  last index (so the end is the start plus the count minus one), its length, and its rounded
  median throughput and spread. The run is never shorter than the policy asks.
\<close>

theorem DetectStableRegion_report:
  assumes "sr_Stable (DetectStableRegion bs p)"
  shows "\<exists>pre run post. usable_buckets (normalizeStabilityPolicy p) bs = pre @ run @ post
    \<and> consecutiveWithSameStreams run
    \<and> stable_window (normalizeStabilityPolicy p) (nat (sp_RequiredBuckets (normalizeStabilityPolicy p)))
        (take (nat (sp_RequiredBuckets (normalizeStabilityPolicy p))) run)
    \<and> DetectStableRegion bs p = report_region run
    \<and> sr_EndBucket (report_region run) = sr_StartBucket (report_region run) + int (length run) - 1
    \<and> sp_RequiredBuckets (normalizeStabilityPolicy p) \<le> sr_BucketCount (report_region run)"
proof -
  let ?pol = "normalizeStabilityPolicy p"
  let ?need = "nat (sp_RequiredBuckets ?pol)"
  from assms detect_cases[of bs p] obtain r where
    f: "find_region ?pol ?need (usable_buckets ?pol bs) = Some r"
    and r: "DetectStableRegion bs p = r" by blast
  from find_region_Some[OF required_pos f] obtain pre w ext post
    where us: "usable_buckets ?pol bs = pre @ (w @ ext) @ post"
      and w: "stable_window ?pol ?need w"
      and c: "consecutiveWithSameStreams (w @ ext)" and rr: "r = report_region (w @ ext)"
    by auto
  have len: "length w = ?need" using w by (simp add: stable_window_def)
  then have ne: "w @ ext \<noteq> []" using required_pos[of p] by (cases w) auto
  have "sp_RequiredBuckets ?pol \<le> int (length (w @ ext))"
    using len normalized_required[of p] by simp
  then have n: "sp_RequiredBuckets ?pol \<le> sr_BucketCount (report_region (w @ ext))"
    unfolding report_region_span(1)[OF c ne] .
  have "take ?need (w @ ext) = w" using len by simp
  with us w c rr r n report_region_span(2)[OF c ne] show ?thesis by metis
qed

text \<open>Concrete buckets: the given kilobytes in each whole second.\<close>

definition second_bucket :: "int \<Rightarrow> u64 \<Rightarrow> Bucket" where
  "second_bucket i bytes = \<lparr>bk_Index = i, bk_StartMS = 1000 * i, bk_DurationMS = 1000,
     bk_Bytes = bytes, bk_Samples = 4, bk_StreamCount = 2, bk_Complete = True, bk_ThroughputMbps = 0\<rparr>"

lemmas detector_eval = DetectStableRegion_def normalizeStabilityPolicy_def DefaultStabilityPolicy_def
  usable_buckets_def second_bucket_def bucketMbps_def finitePositive_def find_region.simps
  robustSpread_def median_def medianAbsoluteDeviation_def bucketValues_def Let_def

lemma four_buckets_stable:
  "sr_Stable (DetectStableRegion (map (\<lambda>i. second_bucket i 1000000) [0, 1, 2, 3]) DefaultStabilityPolicy)"
  by (simp add: detector_eval insort_key.simps sort_key_simps split: prod.split)

theorem DetectStableRegion_report_witness:
  "\<exists>pre run post. usable_buckets (normalizeStabilityPolicy DefaultStabilityPolicy)
       (map (\<lambda>i. second_bucket i 1000000) [0, 1, 2, 3]) = pre @ run @ post
     \<and> DetectStableRegion (map (\<lambda>i. second_bucket i 1000000) [0, 1, 2, 3]) DefaultStabilityPolicy
         = report_region run
     \<and> 3 \<le> sr_BucketCount (report_region run)"
proof -
  have "sp_RequiredBuckets (normalizeStabilityPolicy DefaultStabilityPolicy) = 3"
    by (simp add: normalizeStabilityPolicy_def DefaultStabilityPolicy_def Let_def)
  with DetectStableRegion_report[OF four_buckets_stable] show ?thesis by metis
qed

text \<open>
  The two directions of a simultaneous test count as stable together exactly when each is
  stable by itself and their regions share at least the required number of buckets; the region
  reported then is that overlap, it lies inside both, and its throughput is the rounded sum.
\<close>

theorem DetectBidirectionalStableRegion_iff:
  fixes download upload :: "Bucket list"
  shows "let d = DetectStableRegion download (normalizeStabilityPolicy p);
             u = DetectStableRegion upload (normalizeStabilityPolicy p);
             r = DetectBidirectionalStableRegion download upload p;
             s = max (sr_StartBucket d) (sr_StartBucket u);
             e = min (sr_EndBucket d) (sr_EndBucket u)
         in (sr_Stable r = (sr_Stable d \<and> sr_Stable u
               \<and> sp_RequiredBuckets (normalizeStabilityPolicy p) \<le> e - s + 1))
          \<and> (sr_Stable r = (sr_Reason r = ''''))
          \<and> (sr_StartBucket r, sr_EndBucket r) = (if sr_Stable r then (s, e) else (0, 0))
          \<and> sr_ThroughputMbps r = round_places (sr_ThroughputMbps d + sr_ThroughputMbps u) 3"
  by (auto simp: DetectBidirectionalStableRegion_def Let_def empty_region_def)

section \<open>Properties of the application scores\<close>

definition sound_profile :: "appProfile \<Rightarrow> bool" where
  "sound_profile p \<longleftrightarrow> 0 < ap_latencyWeight p \<and> 0 < ap_lossWeight p \<and> 0 < ap_throughputWeight p
     \<and> 0 \<le> ap_floorInfluence p \<and> ap_floorInfluence p \<le> 1
     \<and> 0 < ap_downloadMin p \<and> 0 < ap_uploadMin p"

lemma applicationProfiles_sound: "p \<in> set applicationProfiles \<Longrightarrow> sound_profile p"
  by (auto simp: applicationProfiles_def sound_profile_def)

lemma component_ranges:
  "0 \<le> latency_score i p" "latency_score i p \<le> 100"
  "0 \<le> loss_score i p" "loss_score i p \<le> 100"
  "0 \<le> throughput_score i p" "throughput_score i p \<le> 100"
  using round_places_0_100 lowerIsBetter_range higherIsBetter_range
  by (auto simp: latency_score_def loss_score_def throughput_score_def Let_def min_le_iff_disj)

lemma weight_bounds:
  fixes w s :: real
  assumes "0 < w" "0 \<le> s" "s \<le> 100"
  shows "0 \<le> w * s \<and> w * s \<le> 100 * w"
  using assms mult_left_mono[of s 100 w] by (simp add: mult.commute)

lemma weighted_score_bounds:
  assumes "sound_profile p"
  shows "0 \<le> weighted_score i p \<and> weighted_score i p \<le> 100 * available_weight i p"
proof -
  have w: "0 < ap_latencyWeight p" "0 < ap_lossWeight p" "0 < ap_throughputWeight p"
    using assms by (simp_all add: sound_profile_def)
  define x y z where "x = ap_latencyWeight p * latency_score i p"
    and "y = ap_lossWeight p * loss_score i p" and "z = ap_throughputWeight p * throughput_score i p"
  have "0 \<le> x \<and> x \<le> 100 * ap_latencyWeight p" "0 \<le> y \<and> y \<le> 100 * ap_lossWeight p"
    "0 \<le> z \<and> z \<le> 100 * ap_throughputWeight p"
    unfolding x_def y_def z_def by (intro weight_bounds w component_ranges)+
  then show ?thesis
    unfolding weighted_score_def available_weight_def x_def[symmetric] y_def[symmetric] z_def[symmetric]
    by auto
qed

lemma floor_factor_bounds:
  assumes "sound_profile p"
  shows "0 \<le> floor_factor i p" "floor_factor i p \<le> 1"
proof -
  let ?r = "min (clamp01 (ai_DownloadP75Mbps i / ap_downloadMin p)) (clamp01 (ai_UploadP75Mbps i / ap_uploadMin p))"
  have "0 \<le> ?r" "?r \<le> 1" using clamp01_range by (auto simp: min_le_iff_disj)
  then have "0 \<le> ap_floorInfluence p * ?r" "ap_floorInfluence p * ?r \<le> ap_floorInfluence p"
    using assms mult_left_mono[of ?r 1 "ap_floorInfluence p"] by (auto simp: sound_profile_def)
  with assms show "0 \<le> floor_factor i p" "floor_factor i p \<le> 1"
    unfolding floor_factor_def Let_def by (auto simp: sound_profile_def)
qed

lemma available_iff:
  assumes "sound_profile p"
  shows "outcome_unavailable i p \<longleftrightarrow>
     \<not> (throughput_available i \<and> (pm_LatencySamples (scored_phase i p) \<noteq> 0 \<or> pm_LossAvailable (scored_phase i p)))"
  using assms by (auto simp: outcome_unavailable_def available_weight_def sound_profile_def)

text \<open>The number an available activity ends with, before and after the floor.\<close>

definition base_score :: "ApplicationInput \<Rightarrow> appProfile \<Rightarrow> real" where
  "base_score i p = weighted_score i p / available_weight i p"

definition final_score :: "ApplicationInput \<Rightarrow> appProfile \<Rightarrow> real" where
  "final_score i p = round_places (clamp (base_score i p * floor_factor i p) 0 100) 1"

lemma scoreApplication_score:
  "\<not> outcome_unavailable i p \<Longrightarrow> as_Score (scoreApplication i p) = final_score i p"
  by (simp add: scoreApplication_def final_score_def base_score_def Let_def)

lemma available_weight_pos:
  "sound_profile p \<Longrightarrow> \<not> outcome_unavailable i p \<Longrightarrow> 0 < available_weight i p"
  by (auto simp: outcome_unavailable_def available_weight_def sound_profile_def)

lemma base_score_range:
  assumes "sound_profile p" "\<not> outcome_unavailable i p"
  shows "0 \<le> base_score i p \<and> base_score i p \<le> 100"
  using weighted_score_bounds[OF assms(1), of i] available_weight_pos[OF assms]
  by (simp add: base_score_def divide_le_eq)

lemma final_le_base:
  assumes "sound_profile p" "\<not> outcome_unavailable i p"
  shows "clamp (base_score i p * floor_factor i p) 0 100 \<le> base_score i p"
proof -
  have "base_score i p * floor_factor i p \<le> base_score i p * 1"
    using base_score_range[OF assms] floor_factor_bounds[OF assms(1), of i] by (intro mult_left_mono) auto
  with base_score_range[OF assms] show ?thesis by (simp add: clamp_def min_def max_def)
qed

text \<open>
  When an activity gets a score: exactly when both directions were measured and its phase
  has enough latency samples or, failing that, a loss measurement. An activity without a score
  carries the score 0, the rating \<open>unavailable\<close> and at least one reason. A score is between 0
  and 100 with the rating of that number, and never above the best the weighted evidence gives.
\<close>

theorem scoreApplication_available:
  assumes "p \<in> set applicationProfiles"
  shows "(as_Available (scoreApplication i p) \<longleftrightarrow> throughput_available i
           \<and> (pm_LatencySamples (scored_phase i p) \<noteq> 0 \<or> pm_LossAvailable (scored_phase i p)))
    \<and> (if as_Available (scoreApplication i p)
       then 0 \<le> as_Score (scoreApplication i p)
           \<and> as_Score (scoreApplication i p) \<le> round_places (weighted_score i p / available_weight i p) 1
           \<and> as_Score (scoreApplication i p) \<le> 100
           \<and> as_Rating (scoreApplication i p) = rating (as_Score (scoreApplication i p))
       else as_Score (scoreApplication i p) = 0 \<and> as_Rating (scoreApplication i p) = RatingUnavailable
           \<and> as_UnavailableReasons (scoreApplication i p) \<noteq> [])"
proof -
  have s: "sound_profile p" using assms by (rule applicationProfiles_sound)
  have "as_Available (scoreApplication i p) = (\<not> outcome_unavailable i p)"
    by (simp add: scoreApplication_def Let_def)
  moreover have "as_UnavailableReasons (scoreApplication i p) \<noteq> []" if "outcome_unavailable i p"
    using that s by (auto simp: scoreApplication_def Let_def unavailable_reasons_def available_iff)
  moreover have "as_Score (scoreApplication i p) \<le> round_places (weighted_score i p / available_weight i p) 1"
    if "\<not> outcome_unavailable i p"
    using scoreApplication_score[OF that] round_places_mono[OF final_le_base[OF s that], of 1]
    by (simp add: final_score_def base_score_def)
  ultimately show ?thesis
    using s available_iff[OF s, of i] clamp_bounds[of 0 100]
    by (auto simp: scoreApplication_score final_score_def scoreApplication_def Let_def round_places_0_100)
qed

theorem scoreApplication_available_witness:
  "as_Available (scoreApplication
     (\<lparr>ai_Baseline = empty_phase\<lparr>pm_LatencySamples := 25, pm_P95LatencyMS := 30\<rparr>, ai_Download = empty_phase,
       ai_Upload = empty_phase, ai_Bidirectional = empty_phase, ai_DownloadP75Mbps = 40,
       ai_UploadP75Mbps = 10, ai_DownloadAvailable = True, ai_UploadAvailable = True\<rparr>)
     (hd applicationProfiles))"
  using scoreApplication_available[of "hd applicationProfiles"]
  by (simp add: applicationProfiles_def scored_phase_def profile_phase_def starved_reason_def
      throughput_available_def empty_phase_def Let_def)

text \<open>
  One measurement is at least as good as another when, with the same evidence, no phase has more
  delay or loss and neither direction is slower.
\<close>

definition phase_no_worse :: "PhaseMetrics \<Rightarrow> PhaseMetrics \<Rightarrow> bool" where
  "phase_no_worse a b \<longleftrightarrow> pm_LatencySamples a = pm_LatencySamples b \<and> pm_LossAvailable a = pm_LossAvailable b
     \<and> pm_P95LatencyMS a \<le> pm_P95LatencyMS b \<and> pm_LossPct a \<le> pm_LossPct b"

definition input_no_worse :: "ApplicationInput \<Rightarrow> ApplicationInput \<Rightarrow> bool" where
  "input_no_worse a b \<longleftrightarrow>
     phase_no_worse (ai_Baseline a) (ai_Baseline b) \<and> phase_no_worse (ai_Download a) (ai_Download b)
     \<and> phase_no_worse (ai_Upload a) (ai_Upload b) \<and> phase_no_worse (ai_Bidirectional a) (ai_Bidirectional b)
     \<and> ai_DownloadAvailable a = ai_DownloadAvailable b \<and> ai_UploadAvailable a = ai_UploadAvailable b
     \<and> ai_DownloadP75Mbps b \<le> ai_DownloadP75Mbps a \<and> ai_UploadP75Mbps b \<le> ai_UploadP75Mbps a"

lemma scored_phase_no_worse:
  assumes "input_no_worse a b"
  shows "phase_no_worse (scored_phase a p) (scored_phase b p)"
proof -
  have "phase_no_worse (profile_phase a p) (profile_phase b p)"
    using assms by (simp add: input_no_worse_def profile_phase_def)
  then show ?thesis
    by (simp add: scored_phase_def starved_reason_def phase_no_worse_def Let_def)
qed

lemma component_mono:
  assumes "input_no_worse a b"
  shows "latency_score b p \<le> latency_score a p" "loss_score b p \<le> loss_score a p"
    "throughput_score b p \<le> throughput_score a p"
proof -
  show "latency_score b p \<le> latency_score a p" "loss_score b p \<le> loss_score a p"
    using scored_phase_no_worse[OF assms, of p]
    by (auto simp: latency_score_def loss_score_def Let_def phase_no_worse_def
        intro!: round_places_mono lowerIsBetter_antimono)
  have "higherIsBetter (ai_DownloadP75Mbps b) l g \<le> higherIsBetter (ai_DownloadP75Mbps a) l g"
       "higherIsBetter (ai_UploadP75Mbps b) l g \<le> higherIsBetter (ai_UploadP75Mbps a) l g" for l g
    using assms by (auto simp: input_no_worse_def intro!: higherIsBetter_mono)
  then show "throughput_score b p \<le> throughput_score a p"
    using assms
    by (auto simp: throughput_score_def throughput_available_def input_no_worse_def Let_def
        intro!: round_places_mono min.mono)
qed

lemma floor_factor_mono:
  assumes "input_no_worse a b" "sound_profile p"
  shows "floor_factor b p \<le> floor_factor a p"
proof -
  have "clamp01 (ai_DownloadP75Mbps b / ap_downloadMin p) \<le> clamp01 (ai_DownloadP75Mbps a / ap_downloadMin p)"
       "clamp01 (ai_UploadP75Mbps b / ap_uploadMin p) \<le> clamp01 (ai_UploadP75Mbps a / ap_uploadMin p)"
    using assms unfolding clamp01_def
    by (auto simp: input_no_worse_def sound_profile_def intro!: clamp_mono divide_right_mono)
  then show ?thesis
    unfolding floor_factor_def Let_def using assms(2)
    by (intro add_left_mono mult_left_mono min.mono) (simp_all add: sound_profile_def)
qed

lemma weighted_score_mono:
  assumes "input_no_worse a b" "sound_profile p"
  shows "weighted_score b p \<le> weighted_score a p" and "available_weight b p = available_weight a p"
    and "outcome_unavailable b p = outcome_unavailable a p"
proof -
  have eq: "pm_LatencySamples (scored_phase a p) = pm_LatencySamples (scored_phase b p)"
    "pm_LossAvailable (scored_phase a p) = pm_LossAvailable (scored_phase b p)"
    "throughput_available a = throughput_available b"
    using scored_phase_no_worse[OF assms(1), of p] assms(1)
    by (simp_all add: phase_no_worse_def throughput_available_def input_no_worse_def)
  then show "available_weight b p = available_weight a p" "outcome_unavailable b p = outcome_unavailable a p"
    by (simp_all add: available_weight_def outcome_unavailable_def)
  show "weighted_score b p \<le> weighted_score a p"
    unfolding weighted_score_def eq using component_mono[OF assms(1), of p] assms(2)
    by (intro add_mono) (auto simp: sound_profile_def intro!: mult_left_mono)
qed

text \<open>
  Scores are monotone: a link that is no worse in every measurement, on the same evidence,
  never gets a lower score for any activity, and is available for the same activities.
\<close>

theorem scoreApplication_mono:
  assumes "p \<in> set applicationProfiles" "input_no_worse a b"
  shows "as_Available (scoreApplication a p) = as_Available (scoreApplication b p)
    \<and> as_Score (scoreApplication b p) \<le> as_Score (scoreApplication a p)"
proof -
  have s: "sound_profile p" using assms(1) by (rule applicationProfiles_sound)
  note m = weighted_score_mono[OF assms(2) s]
  show ?thesis
  proof (cases "outcome_unavailable a p")
    case True
    then show ?thesis using m(3) by (simp add: scoreApplication_def Let_def)
  next
    case False
    have "base_score b p \<le> base_score a p"
      unfolding base_score_def m(2)
      by (intro divide_right_mono m(1) less_imp_le available_weight_pos[OF s False])
    moreover have "0 \<le> base_score b p"
      using base_score_range[OF s, of b] m(3) False by simp
    ultimately have "base_score b p * floor_factor b p \<le> base_score a p * floor_factor a p"
      using floor_factor_mono[OF assms(2) s] floor_factor_bounds(1)[OF s, of b] by (intro mult_mono) auto
    then have "final_score b p \<le> final_score a p"
      unfolding final_score_def by (intro round_places_mono clamp_mono)
    with False m(3) show ?thesis
      by (simp add: scoreApplication_score) (simp add: scoreApplication_def Let_def)
  qed
qed

theorem scoreApplication_mono_witness:
  "as_Score (scoreApplication \<lparr>ai_Baseline = empty_phase, ai_Download = empty_phase, ai_Upload = empty_phase,
       ai_Bidirectional = empty_phase\<lparr>pm_LatencySamples := 9, pm_P95LatencyMS := 120\<rparr>, ai_DownloadP75Mbps = 6,
       ai_UploadP75Mbps = 2, ai_DownloadAvailable = True, ai_UploadAvailable = True\<rparr> (applicationProfiles ! 3))
   \<le> as_Score (scoreApplication \<lparr>ai_Baseline = empty_phase, ai_Download = empty_phase, ai_Upload = empty_phase,
       ai_Bidirectional = empty_phase\<lparr>pm_LatencySamples := 9, pm_P95LatencyMS := 40\<rparr>, ai_DownloadP75Mbps = 60,
       ai_UploadP75Mbps = 20, ai_DownloadAvailable = True, ai_UploadAvailable = True\<rparr> (applicationProfiles ! 3))"
  by (rule scoreApplication_mono[THEN conjunct2])
     (simp_all add: applicationProfiles_def input_no_worse_def phase_no_worse_def empty_phase_def)

lemma math_Round_int: "\<exists>k. math_Round x = of_int k"
  unfolding math_Round_def by (metis of_int_minus)

lemma round_places_idem [simp]: "round_places (round_places v n) n = round_places v n"
proof -
  obtain k where "math_Round (v * pow10 n) = of_int k" using math_Round_int by blast
  moreover have "pow10 n \<noteq> 0" using pow10_pos[of n] by linarith
  ultimately show ?thesis by (simp add: round_places_def)
qed

lemma as_Score_rounded: "round_places (as_Score (scoreApplication i p)) 1 = as_Score (scoreApplication i p)"
  unfolding scoreApplication_def Let_def by simp

lemma mean_bounds:
  fixes f :: "'a \<Rightarrow> real"
  assumes "xs \<noteq> []" "\<And>x. x \<in> set xs \<Longrightarrow> lo \<le> f x \<and> f x \<le> hi"
  shows "lo \<le> foldl (\<lambda>t x. t + f x) 0 xs / real (length xs)
    \<and> foldl (\<lambda>t x. t + f x) 0 xs / real (length xs) \<le> hi"
proof -
  have "a + lo * real (length ys) \<le> foldl (\<lambda>t x. t + f x) a ys
      \<and> foldl (\<lambda>t x. t + f x) a ys \<le> a + hi * real (length ys)" if "set ys \<subseteq> set xs" for a ys
    using that
  proof (induction ys arbitrary: a)
    case (Cons y ys)
    with assms(2)[of y] Cons.IH[of "a + f y"] show ?case by (simp add: algebra_simps)
  qed simp
  from this[of xs 0] assms(1) show ?thesis by (simp add: field_simps)
qed

text \<open>
  The overall score exists exactly when some household activity was scored. It then lies
  between the lowest and the highest of those scores, carries its own rating, and the two
  additional activities never enter it. Every activity is scored once, under its own key.
\<close>

theorem ScoreApplications_overall:
  fixes i :: ApplicationInput
  defines "e \<equiv> ScoreApplications i"
  defines "S \<equiv> as_Score ` {s \<in> snd ` set (ex_Home e). as_Available s}"
  shows "ex_Available e = (S \<noteq> {})
    \<and> (if ex_Available e then Min S \<le> ex_OverallScore e \<and> ex_OverallScore e \<le> Max S
         \<and> ex_Rating e = rating (ex_OverallScore e)
       else ex_OverallScore e = 0 \<and> ex_Rating e = RatingUnavailable)
    \<and> map fst (ex_Home e) = [''browsing'', ''streaming'', ''video_calls'', ''gaming'']
    \<and> map fst (ex_Additional e) = [''audio_calls'', ''backup'']
    \<and> (\<forall>p\<in>set applicationProfiles.
         map_of (ex_Home e @ ex_Additional e) (ap_key p) = Some (scoreApplication i p))"
proof -
  define scored where "scored = map (\<lambda>p. (ap_key p, scoreApplication i p)) applicationProfiles"
  have home: "ex_Home e = filter (\<lambda>(k, _). \<not> is_additional k) scored"
    and add: "ex_Additional e = filter (\<lambda>(k, _). is_additional k) scored"
    by (simp_all add: e_def ScoreApplications_def Let_def scored_def)
  have keys: "map fst (ex_Home e) = [''browsing'', ''streaming'', ''video_calls'', ''gaming'']
    \<and> map fst (ex_Additional e) = [''audio_calls'', ''backup'']"
    by (simp add: home add scored_def applicationProfiles_def is_additional_def)
  have look: "\<forall>p\<in>set applicationProfiles.
      map_of (ex_Home e @ ex_Additional e) (ap_key p) = Some (scoreApplication i p)"
    unfolding home add scored_def applicationProfiles_def by (simp add: is_additional_def)
  let ?av = "filter as_Available (map snd (ex_Home e))"
  have S: "S = as_Score ` set ?av" by (auto simp: S_def)
  have fin: "finite S" by (simp add: S)
  have rnd: "round_places (as_Score s) 1 = as_Score s" if "s \<in> set ?av" for s
    using that by (auto simp: home scored_def as_Score_rounded[simplified])
  have avail: "ex_Available e = (?av \<noteq> [])"
    by (simp add: e_def ScoreApplications_def Let_def)
  have overall: "ex_OverallScore e = round_places (foldl (\<lambda>t s. t + as_Score s) 0 ?av / real (length ?av)) 1
     \<and> ex_Rating e = rating (ex_OverallScore e)" if "?av \<noteq> []"
    using that unfolding home scored_def by (simp add: e_def ScoreApplications_def Let_def)
  have "Min S \<le> ex_OverallScore e \<and> ex_OverallScore e \<le> Max S" if ne: "?av \<noteq> []"
  proof -
    have "S \<noteq> {}" unfolding S using ne by (auto simp: filter_empty_conv)
    then have "Min S \<in> S" "Max S \<in> S" using fin by auto
    then have r: "round_places (Min S) 1 = Min S" "round_places (Max S) 1 = Max S"
      using rnd unfolding S by (metis (no_types, lifting) imageE)+
    have "Min S \<le> foldl (\<lambda>t s. t + as_Score s) 0 ?av / real (length ?av)
        \<and> foldl (\<lambda>t s. t + as_Score s) 0 ?av / real (length ?av) \<le> Max S"
      using fin by (intro mean_bounds ne) (auto simp: S)
    then show ?thesis
      using round_places_mono[of "Min S" _ 1] round_places_mono[of _ "Max S" 1] r overall[OF ne] by metis
  qed
  moreover have "ex_OverallScore e = 0 \<and> ex_Rating e = RatingUnavailable" if "?av = []"
    using that unfolding home scored_def by (simp add: e_def ScoreApplications_def Let_def)
  ultimately show ?thesis using keys look avail overall S by (auto simp: filter_empty_conv)
qed

section \<open>Properties of the confidence grade\<close>

definition severe_reasons :: "string list" where
  "severe_reasons = [''too_few_latency_probes'', ''agent_cpu_busy_high'',
     ''network_changed_during_test'', ''ip_family_changed_during_test'']"

definition graded :: "string list \<times> int \<Rightarrow> bool" where
  "graded st \<longleftrightarrow> distinct (fst st) \<and> 0 \<le> snd st \<and> (snd st = 0 \<longleftrightarrow> fst st = [])
     \<and> (2 \<le> snd st \<longleftrightarrow> (\<exists>r\<in>set (fst st). r \<in> set severe_reasons))"

lemma add_reason_graded:
  "graded st \<Longrightarrow> l = (if r \<in> set severe_reasons then 2 else 1) \<Longrightarrow> graded (add_reason c r l st)"
  by (cases st) (auto simp: graded_def add_reason_def max_def)

lemma set_add_reason:
  "set (fst (add_reason c r l st)) = (if c \<and> r \<noteq> '''' then insert r (set (fst st)) else set (fst st))"
  by (auto simp: add_reason_def)

lemma confidence_graded: "graded (confidence_reasons i)"
proof -
  have "graded ([], 0)" by (simp add: graded_def)
  then show ?thesis
    unfolding confidence_reasons_def Let_def phase_reasons_def
    by (auto intro!: add_reason_graded simp: severe_reasons_def)
qed

lemma severe_iff:
  "(\<exists>r\<in>set (fst (confidence_reasons i)). r \<in> set severe_reasons) \<longleftrightarrow>
     ci_ProbeSuccessRatio i < 0.7 \<or> ci_AgentCPUBusyPct i \<ge> 85 \<or> ci_NetworkChanged i \<or> ci_IPFamilyChanged i"
  unfolding confidence_reasons_def Let_def phase_reasons_def
  by (auto simp: set_add_reason severe_reasons_def)

theorem ScoreApplications_overall_witness:
  "map fst (ex_Home (ScoreApplications
     (\<lparr>ai_Baseline = empty_phase\<lparr>pm_LatencySamples := 25, pm_P95LatencyMS := 30\<rparr>, ai_Download = empty_phase,
       ai_Upload = empty_phase, ai_Bidirectional = empty_phase, ai_DownloadP75Mbps = 40,
       ai_UploadP75Mbps = 10, ai_DownloadAvailable = True, ai_UploadAvailable = True\<rparr>)))
   = [''browsing'', ''streaming'', ''video_calls'', ''gaming'']"
  using ScoreApplications_overall by blast

text \<open>
  Confidence is \<open>low\<close> exactly when the probes mostly failed, the agent's processor was busy,
  or the network or the address family changed; \<open>high\<close> exactly when nothing was found wrong; and
  no reason is ever listed twice.
\<close>

theorem GradeConfidence_levels:
  "(cf_Level (GradeConfidence i) = ''low'' \<longleftrightarrow>
      ci_ProbeSuccessRatio i < 0.7 \<or> ci_AgentCPUBusyPct i \<ge> 85 \<or> ci_NetworkChanged i \<or> ci_IPFamilyChanged i)
   \<and> (cf_Level (GradeConfidence i) = ''high'' \<longleftrightarrow> cf_Reasons (GradeConfidence i) = [])
   \<and> cf_Level (GradeConfidence i) \<in> {''low'', ''medium'', ''high''}
   \<and> distinct (cf_Reasons (GradeConfidence i))"
  using confidence_graded[of i] severe_iff[of i]
  by (auto simp: GradeConfidence_def graded_def severity_level_def split: prod.splits)

end
