(* ===== verification/Household.thy ===== *)
theory Household
  imports Quality_Score
begin

text \<open>
  The household scenario of \<open>quality/household.go\<close>: the mix of activities and its
  normalisation, the catalog, the time and byte plan, the summary of one activity's samples and
  its score, and the verdict over all activities. Functions that fill in a result through a
  pointer return the updated record.
\<close>

section \<open>Constants\<close>

abbreviation (input) HouseholdScenarioVersion :: int where "HouseholdScenarioVersion \<equiv> 1"
abbreviation (input) HouseholdScorerVersion :: int where "HouseholdScorerVersion \<equiv> 2"
abbreviation (input) MaxHouseholdInstances :: int where "MaxHouseholdInstances \<equiv> 8"
abbreviation (input) maxHouseholdCount :: int where "maxHouseholdCount \<equiv> 4"
abbreviation (input) householdReferenceSegments :: int where "householdReferenceSegments \<equiv> 3"
abbreviation (input) HouseholdWarmupMS :: int where "HouseholdWarmupMS \<equiv> 2000"
abbreviation (input) HouseholdObserveMS :: int where "HouseholdObserveMS \<equiv> 12000"
abbreviation (input) HouseholdMinObserveMS :: int where "HouseholdMinObserveMS \<equiv> 8000"
abbreviation (input) HouseholdOverheadReserve :: real where "HouseholdOverheadReserve \<equiv> 0.10"

definition HouseholdDefaultDownloadCap :: u64 where "HouseholdDefaultDownloadCap = 225000000"
definition HouseholdDefaultUploadCap :: u64 where "HouseholdDefaultUploadCap = 75000000"

abbreviation "StopEnoughEvidence \<equiv> ''enough_evidence''"
abbreviation "StopInsufficientBytes \<equiv> ''insufficient_bytes''"
abbreviation "StopInsufficientTime \<equiv> ''insufficient_time''"
abbreviation "StopTransportFailure \<equiv> ''transport_failure''"
abbreviation "StopCancelled \<equiv> ''cancelled''"
abbreviation "PatternSegments \<equiv> ''segments''"
abbreviation "PatternFrames \<equiv> ''frames''"
abbreviation "PatternProbes \<equiv> ''probes''"
abbreviation "PatternBursts \<equiv> ''bursts''"
abbreviation "AppStreaming \<equiv> ''streaming''"
abbreviation "AppVideoCalls \<equiv> ''video_calls''"
abbreviation "AppGaming \<equiv> ''gaming''"
abbreviation "AppBrowsing \<equiv> ''browsing''"
abbreviation "HouseholdStatusPass \<equiv> ''pass''"
abbreviation "HouseholdStatusStruggle \<equiv> ''struggle''"
abbreviation "HouseholdStatusFail \<equiv> ''fail''"
abbreviation "HouseholdStatusInsufficient \<equiv> ''insufficient''"

section \<open>Data\<close>

record HouseholdMix =
  hm_UHDStreams :: int
  hm_FHDStreams :: int
  hm_HDStreams :: int
  hm_VideoCalls :: int
  hm_Gaming :: int
  hm_Browsing :: bool

record ActivityProfile =
  av_Key :: string
  av_App :: string
  av_Tier :: string
  av_Label :: string
  av_Pattern :: string
  av_DownMbps :: real
  av_UpMbps :: real
  av_IntervalMS :: int
  av_DeadlineMS :: int
  av_ColdBytes :: u64
  av_WarmBytes :: u64
  av_WarmObjects :: int
  av_InFlight :: int
  av_MinSamples :: int
  av_DelayGoodMS :: real
  av_DelayBadMS :: real
  av_JitterGoodMS :: real
  av_JitterBadMS :: real
  av_LossGoodPct :: real
  av_LossBadPct :: real
  av_LateGoodPct :: real
  av_LateBadPct :: real
  av_StartupGoodMS :: real
  av_StartupBadMS :: real
  av_ColdGoodMS :: real
  av_ColdBadMS :: real
  av_Estimate :: bool
  av_Source :: string

record ActivitySample =
  sa_ScheduledMS :: int
  sa_StartedMS :: int
  sa_CompletedMS :: int
  sa_FirstByteMS :: int
  sa_Bytes :: u64
  sa_Upload :: bool
  sa_Cold :: bool
  sa_Failed :: bool

record HouseholdActivity =
  ha_Key :: string
  ha_App :: string
  ha_Instance :: int
  ha_Tier :: string
  ha_Label :: string
  ha_Pattern :: string
  ha_DemandDownMbps :: real
  ha_DemandUpMbps :: real
  ha_AchievedDownMbps :: real
  ha_AchievedUpMbps :: real
  ha_Samples :: int
  ha_LateSamples :: int
  ha_Errors :: int
  ha_P50DelayMS :: real
  ha_P90DelayMS :: real
  ha_P95DelayMS :: real
  ha_JitterMS :: real
  ha_StartupMS :: real
  ha_ColdP95MS :: real
  ha_LatePct :: real
  ha_LossPct :: real
  ha_ObservedMS :: int
  ha_Score :: real
  ha_Rating :: Rating
  ha_Available :: bool
  ha_Estimate :: bool
  ha_Reasons :: "string list"

record HouseholdWindow =
  hw_StartMS :: int
  hw_EndMS :: int
  hw_WarmupMS :: int
  hw_ObservedMS :: int
  hw_PlannedMS :: int

record HouseholdLedger =
  hl_CapBytes :: u64
  hl_PlannedBytes :: u64
  hl_UsedBytes :: u64
  hl_DownloadBytes :: u64
  hl_UploadBytes :: u64
  hl_ProbeBytes :: u64

record HouseholdResult =
  hr_ScenarioVersion :: int
  hr_ScorerVersion :: int
  hr_Transport :: string
  hr_Mix :: HouseholdMix
  hr_MixSource :: string
  hr_MixRevision :: string
  hr_Status :: string
  hr_Weakest :: string
  hr_WeakestScore :: real
  hr_Summary :: string
  hr_Window :: HouseholdWindow
  hr_Ledger :: HouseholdLedger
  hr_StopReason :: string
  hr_Reference :: "HouseholdActivity option"
  hr_Activities :: "HouseholdActivity list"

record HouseholdPlan =
  pl_Reference :: bool
  pl_ReferenceMS :: int
  pl_WarmupMS :: int
  pl_ObserveMS :: int
  pl_ReferenceBytes :: u64
  pl_MixBytes :: u64
  pl_PlannedBytes :: u64
  pl_Sufficient :: bool
  pl_Reason :: string

record HouseholdConfidenceInput =
  hc_BaselineSamples :: int
  hc_LoadedSamples :: int
  hc_ProbeSuccessRatio :: real
  hc_FreshPathSuccessRatio :: real
  hc_ObservedMS :: int
  hc_PlannedMS :: int
  hc_StopReason :: string
  hc_UnavailableActivities :: int

section \<open>The mix\<close>

definition DefaultHouseholdMix :: HouseholdMix where
  "DefaultHouseholdMix = \<lparr>hm_UHDStreams = 2, hm_FHDStreams = 0, hm_HDStreams = 0,
     hm_VideoCalls = 1, hm_Gaming = 1, hm_Browsing = True\<rparr>"

definition Instances :: "HouseholdMix \<Rightarrow> int" where
  "Instances m = hm_UHDStreams m + hm_FHDStreams m + hm_HDStreams m + hm_VideoCalls m + hm_Gaming m
     + (if hm_Browsing m then 1 else 0)"

definition clamp_counts :: "HouseholdMix \<Rightarrow> HouseholdMix" where
  "clamp_counts mix = mix
     \<lparr>hm_UHDStreams := clampInt (hm_UHDStreams mix) 0 maxHouseholdCount,
      hm_FHDStreams := clampInt (hm_FHDStreams mix) 0 maxHouseholdCount,
      hm_HDStreams := clampInt (hm_HDStreams mix) 0 maxHouseholdCount,
      hm_VideoCalls := clampInt (hm_VideoCalls mix) 0 maxHouseholdCount,
      hm_Gaming := clampInt (hm_Gaming mix) 0 maxHouseholdCount\<rparr>"

definition NormalizeHouseholdMix :: "HouseholdMix \<Rightarrow> HouseholdMix" where
  "NormalizeHouseholdMix mix0 =
     (let mix = clamp_counts mix0
      in if Instances mix = 0 \<or> Instances mix > MaxHouseholdInstances
         then DefaultHouseholdMix else mix)"

definition Revision :: "HouseholdMix \<Rightarrow> string" where
  "Revision m = ''v'' @ itoa HouseholdScenarioVersion @ '':uhd'' @ itoa (hm_UHDStreams m)
     @ ''-fhd'' @ itoa (hm_FHDStreams m) @ ''-hd'' @ itoa (hm_HDStreams m)
     @ ''-call'' @ itoa (hm_VideoCalls m) @ ''-game'' @ itoa (hm_Gaming m)
     @ ''-web'' @ itoa (if hm_Browsing m then 1 else 0)"

section \<open>The activity catalog\<close>

definition empty_profile :: ActivityProfile where
  "empty_profile = \<lparr>av_Key = '''', av_App = '''', av_Tier = '''', av_Label = '''', av_Pattern = '''',
     av_DownMbps = 0, av_UpMbps = 0, av_IntervalMS = 0, av_DeadlineMS = 0, av_ColdBytes = 0,
     av_WarmBytes = 0, av_WarmObjects = 0, av_InFlight = 0, av_MinSamples = 0,
     av_DelayGoodMS = 0, av_DelayBadMS = 0, av_JitterGoodMS = 0, av_JitterBadMS = 0,
     av_LossGoodPct = 0, av_LossBadPct = 0, av_LateGoodPct = 0, av_LateBadPct = 0,
     av_StartupGoodMS = 0, av_StartupBadMS = 0, av_ColdGoodMS = 0, av_ColdBadMS = 0,
     av_Estimate = False, av_Source = ''''\<rparr>"

definition stream_profile :: "string \<Rightarrow> string \<Rightarrow> string \<Rightarrow> real \<Rightarrow> ActivityProfile" where
  "stream_profile key tier label mbps = empty_profile
     \<lparr>av_Key := key, av_App := AppStreaming, av_Tier := tier, av_Label := label,
      av_Pattern := PatternSegments, av_DownMbps := mbps, av_IntervalMS := 2000,
      av_DeadlineMS := 2000, av_InFlight := 1, av_MinSamples := 3,
      av_LateGoodPct := 0, av_LateBadPct := 20, av_StartupGoodMS := 1500, av_StartupBadMS := 5000,
      av_Source := ''https://help.netflix.com/en/node/306 (2026-09-09)''\<rparr>"

definition HouseholdCatalog :: "ActivityProfile list" where
  "HouseholdCatalog =
    [stream_profile ''stream_uhd'' ''uhd'' ''4K stream'' 15,
     stream_profile ''stream_fhd'' ''fhd'' ''Full HD stream'' 5,
     stream_profile ''stream_hd'' ''hd'' ''HD stream'' 3,
     empty_profile\<lparr>av_Key := ''video_call'', av_App := AppVideoCalls, av_Label := ''Video call'',
       av_Pattern := PatternFrames, av_DownMbps := 3.0, av_UpMbps := 3.8, av_IntervalMS := 100,
       av_DeadlineMS := 400, av_InFlight := 5, av_MinSamples := 50,
       av_DelayGoodMS := 150, av_DelayBadMS := 400, av_JitterGoodMS := 20, av_JitterBadMS := 80,
       av_LossGoodPct := 1, av_LossBadPct := 8,
       av_Source := ''https://support.zoom.com/hc/en/article?id=zm_kb&sysparm_article=KB0058323 (2026-09-09)''\<rparr>,
     empty_profile\<lparr>av_Key := ''game'', av_App := AppGaming, av_Label := ''Online game'',
       av_Pattern := PatternProbes, av_DownMbps := 0.1, av_UpMbps := 0.05, av_IntervalMS := 50,
       av_DeadlineMS := 500, av_InFlight := 11, av_MinSamples := 100,
       av_DelayGoodMS := 60, av_DelayBadMS := 150, av_JitterGoodMS := 10, av_JitterBadMS := 40,
       av_LossGoodPct := 1, av_LossBadPct := 6, av_Estimate := True,
       av_Source := ''synthetic; HTTPS request timing, calibration pending''\<rparr>,
     empty_profile\<lparr>av_Key := ''browsing'', av_App := AppBrowsing, av_Label := ''Browsing'',
       av_Pattern := PatternBursts, av_DownMbps := 0.75, av_IntervalMS := 3000,
       av_DeadlineMS := 1000, av_ColdBytes := 20 * 1024, av_WarmBytes := 50 * 1024,
       av_WarmObjects := 5, av_InFlight := 2, av_MinSamples := 6,
       av_DelayGoodMS := 150, av_DelayBadMS := 600, av_ColdGoodMS := 400, av_ColdBadMS := 1200,
       av_LossGoodPct := 0, av_LossBadPct := 5,
       av_Source := ''synthetic; small-object page bursts''\<rparr>]"

definition ActivityByKey :: "string \<Rightarrow> ActivityProfile option" where
  "ActivityByKey key = List.find (\<lambda>p. av_Key p = key) HouseholdCatalog"

definition add_activities :: "string \<Rightarrow> int \<Rightarrow> ActivityProfile list" where
  "add_activities key count =
     (case ActivityByKey key of Some profile \<Rightarrow> replicate (nat count) profile | None \<Rightarrow> [])"

definition Activities :: "HouseholdMix \<Rightarrow> ActivityProfile list" where
  "Activities m = add_activities ''stream_uhd'' (hm_UHDStreams m)
     @ add_activities ''stream_fhd'' (hm_FHDStreams m)
     @ add_activities ''stream_hd'' (hm_HDStreams m)
     @ add_activities ''video_call'' (hm_VideoCalls m)
     @ add_activities ''game'' (hm_Gaming m)
     @ (if hm_Browsing m then add_activities ''browsing'' 1 else [])"

definition DemandMbps :: "HouseholdMix \<Rightarrow> real \<times> real" where
  "DemandMbps m = foldl (\<lambda>(down, up) a. (down + av_DownMbps a, up + av_UpMbps a)) (0, 0) (Activities m)"

definition ReferenceActivity :: "HouseholdMix \<Rightarrow> ActivityProfile option" where
  "ReferenceActivity m =
     (if hm_UHDStreams m > 0 then ActivityByKey ''stream_uhd''
      else if hm_FHDStreams m > 0 then ActivityByKey ''stream_fhd''
      else if hm_HDStreams m > 0 then ActivityByKey ''stream_hd''
      else None)"

text \<open>\<open>StaggerOffsets\<close>: \<open>counts\<close> is complete before the second loop reads it.\<close>

definition stagger_counts :: "ActivityProfile list \<Rightarrow> string \<Rightarrow> int" where
  "stagger_counts activities =
     foldl (\<lambda>counts a. if av_Pattern a = PatternSegments
        then counts(av_Key a := counts (av_Key a) + 1) else counts) (\<lambda>_. 0) activities"

fun stagger_from :: "(string \<Rightarrow> int) \<Rightarrow> (string \<Rightarrow> int) \<Rightarrow> ActivityProfile list \<Rightarrow> int list" where
  "stagger_from counts seen [] = []"
| "stagger_from counts seen (a # as) =
     (if av_Pattern a \<noteq> PatternSegments \<or> counts (av_Key a) < 2
      then 0 # stagger_from counts seen as
      else (seen (av_Key a) * av_IntervalMS a) div counts (av_Key a)
           # stagger_from counts (seen(av_Key a := seen (av_Key a) + 1)) as)"

definition StaggerOffsets :: "ActivityProfile list \<Rightarrow> int list" where
  "StaggerOffsets activities = stagger_from (stagger_counts activities) (\<lambda>_. 0) activities"

section \<open>The plan\<close>

definition UnitBytes :: "ActivityProfile \<Rightarrow> bool \<Rightarrow> u64" where
  "UnitBytes p upload =
     (let rate = (if upload then av_UpMbps p else av_DownMbps p)
      in if av_Pattern p = PatternSegments \<or> av_Pattern p = PatternFrames
         then go_uint64 (rate * of_int (av_IntervalMS p) / 8 * 1000)
         else if av_Pattern p = PatternProbes then 0
         else if av_Pattern p = PatternBursts
         then av_ColdBytes p + av_WarmBytes p * word_of_int (av_WarmObjects p)
         else 0)"

definition PlannedBytes :: "ActivityProfile \<Rightarrow> int \<Rightarrow> u64" where
  "PlannedBytes p duration =
     (if duration \<le> 0 then 0
      else let seconds = of_int duration / 1000;
               bytes = (av_DownMbps p + av_UpMbps p) * seconds / 8 * 1000000;
               bytes' = (if av_Pattern p = PatternProbes
                         then of_int (duration div av_IntervalMS p) * 600 else bytes)
           in word_of_int \<lceil>bytes'\<rceil>)"

definition mix_bytes :: "ActivityProfile list \<Rightarrow> int \<Rightarrow> u64" where
  "mix_bytes activities duration = foldl (\<lambda>t a. t + PlannedBytes a duration) 0 activities"

text \<open>The closure \<open>fits\<close>: it fills in the plan's bytes and reports whether they fit.\<close>

definition plan_fits :: "ActivityProfile list \<Rightarrow> u64 \<Rightarrow> int \<Rightarrow> HouseholdPlan \<Rightarrow> HouseholdPlan \<times> bool" where
  "plan_fits activities usable availableMS plan =
     (let mb = mix_bytes activities (pl_WarmupMS plan + pl_ObserveMS plan);
          planned = (if pl_Reference plan then mb + pl_ReferenceBytes plan else mb);
          total = pl_WarmupMS plan + pl_ObserveMS plan + (if pl_Reference plan then pl_ReferenceMS plan else 0)
      in (plan\<lparr>pl_MixBytes := mb, pl_PlannedBytes := planned\<rparr>,
          planned \<le> usable \<and> total \<le> availableMS))"

text \<open>The window loop of the source, ending in the last attempt or the first that fits.\<close>

function shrink_window :: "ActivityProfile list \<Rightarrow> u64 \<Rightarrow> int \<Rightarrow> HouseholdPlan \<Rightarrow> HouseholdPlan \<times> bool" where
  "shrink_window activities usable availableMS plan =
     (if pl_ObserveMS plan > HouseholdMinObserveMS
      then let (plan', ok) = plan_fits activities usable availableMS
                 (plan\<lparr>pl_ObserveMS := pl_ObserveMS plan - 1000\<rparr>)
           in if ok then (plan', True) else shrink_window activities usable availableMS plan'
      else (plan, False))"
  by pat_completeness auto
termination
  by (relation "measure (\<lambda>(_, _, _, plan). nat (pl_ObserveMS plan))") (auto simp: plan_fits_def Let_def)

declare shrink_window.simps [simp del]

definition initial_plan :: "HouseholdMix \<Rightarrow> HouseholdPlan" where
  "initial_plan mix =
     (let plan = \<lparr>pl_Reference = False, pl_ReferenceMS = 0, pl_WarmupMS = HouseholdWarmupMS,
            pl_ObserveMS = HouseholdObserveMS, pl_ReferenceBytes = 0, pl_MixBytes = 0,
            pl_PlannedBytes = 0, pl_Sufficient = True, pl_Reason = ''''\<rparr>
      in case ReferenceActivity mix of
           Some r \<Rightarrow> plan\<lparr>
             pl_ReferenceMS := av_IntervalMS r * householdReferenceSegments + av_IntervalMS r div 2,
             pl_ReferenceBytes := UnitBytes r False * word_of_int (householdReferenceSegments + 1),
             pl_Reference := True\<rparr>
         | None \<Rightarrow> plan)"

definition usable_bytes :: "u64 \<Rightarrow> u64" where
  "usable_bytes capBytes = go_uint64 (real (unat capBytes) * (1 - HouseholdOverheadReserve))"

definition PlanHousehold :: "HouseholdMix \<Rightarrow> u64 \<Rightarrow> int \<Rightarrow> HouseholdPlan" where
  "PlanHousehold mix capBytes availableMS =
     (let usable = usable_bytes capBytes;
          acts = Activities mix;
          (plan, ok) = plan_fits acts usable availableMS (initial_plan mix)
      in if ok then plan
         else let (plan, ok) = plan_fits acts usable availableMS
                    (plan\<lparr>pl_Reference := False, pl_ReferenceBytes := 0, pl_ReferenceMS := 0\<rparr>)
              in if ok then plan
                 else let (plan, ok) = shrink_window acts usable availableMS plan
                      in if ok then plan
                         else let plan = fst (plan_fits acts usable availableMS plan)
                              in plan\<lparr>pl_Sufficient := False,
                                   pl_Reason := (if pl_PlannedBytes plan > usable
                                     then StopInsufficientBytes else StopInsufficientTime)\<rparr>)"
section \<open>One activity's samples\<close>

text \<open>\<open>percentile\<close> of a sorted list, by linear interpolation.\<close>

definition percentile :: "real list \<Rightarrow> real \<Rightarrow> real" where
  "percentile xs pct =
     (if xs = [] then 0
      else let rank = pct / 100 * real (length xs - 1);
               low = nat \<lfloor>rank\<rfloor>;
               high = min (low + 1) (length xs - 1)
           in xs ! low + (xs ! high - xs ! low) * (rank - real low))"

text \<open>The variables of the loop over the samples.\<close>

record sample_tally =
  ty_Samples :: int
  ty_Errors :: int
  ty_Late :: int
  ty_delays :: "real list"
  ty_colds :: "real list"
  ty_downBytes :: u64
  ty_upBytes :: u64
  ty_occupiedMS :: int
  ty_startup :: real

definition empty_tally :: sample_tally where
  "empty_tally = \<lparr>ty_Samples = 0, ty_Errors = 0, ty_Late = 0, ty_delays = [], ty_colds = [],
     ty_downBytes = 0, ty_upBytes = 0, ty_occupiedMS = 0, ty_startup = -1\<rparr>"

text \<open>A delivered sample whose delay counts (every one but the cold starts of a burst).\<close>

definition tally_delay :: "ActivityProfile \<Rightarrow> real \<Rightarrow> sample_tally \<Rightarrow> sample_tally" where
  "tally_delay profile delay0 t =
     (let delay = max delay0 0
      in t\<lparr>ty_occupiedMS := (if av_Pattern profile = PatternSegments
              then ty_occupiedMS t + max (av_IntervalMS profile) \<lfloor>delay\<rfloor> else ty_occupiedMS t),
           ty_Late := (if delay > of_int (av_DeadlineMS profile) then ty_Late t + 1 else ty_Late t),
           ty_delays := ty_delays t @ [delay]\<rparr>)"

definition tally_sample :: "ActivityProfile \<Rightarrow> int \<Rightarrow> int \<Rightarrow> sample_tally \<Rightarrow> ActivitySample \<Rightarrow> sample_tally" where
  "tally_sample profile windowStart windowEnd t sample =
     (if sa_ScheduledMS sample < windowStart \<or> sa_ScheduledMS sample \<ge> windowEnd then
        (if av_Pattern profile = PatternSegments \<and> ty_startup t < 0 \<and> \<not> sa_Failed sample
            \<and> sa_ScheduledMS sample < windowStart
         then t\<lparr>ty_startup := of_int (sa_CompletedMS sample - sa_ScheduledMS sample)\<rparr> else t)
      else let t = t\<lparr>ty_Samples := ty_Samples t + 1\<rparr> in
        if sa_Failed sample then t\<lparr>ty_Errors := ty_Errors t + 1\<rparr>
        else let t = (if sa_Upload sample then t\<lparr>ty_upBytes := ty_upBytes t + sa_Bytes sample\<rparr>
                      else t\<lparr>ty_downBytes := ty_downBytes t + sa_Bytes sample\<rparr>)
          in if av_Pattern profile = PatternBursts
             then if sa_Cold sample
                  then t\<lparr>ty_colds := ty_colds t @ [of_int (sa_CompletedMS sample - sa_ScheduledMS sample)]\<rparr>
                  else tally_delay profile (of_int (sa_FirstByteMS sample - sa_ScheduledMS sample)) t
             else tally_delay profile (of_int (sa_CompletedMS sample - sa_ScheduledMS sample)) t)"

definition tally :: "ActivityProfile \<Rightarrow> int \<Rightarrow> int \<Rightarrow> ActivitySample list \<Rightarrow> sample_tally" where
  "tally profile windowStart windowEnd samples =
     foldl (tally_sample profile windowStart windowEnd) empty_tally samples"

text \<open>Appending a reason when a component is below 80.\<close>

definition weak :: "real \<Rightarrow> string \<Rightarrow> string list" where
  "weak component reason = (if component < 80 then [reason] else [])"

definition score_segments :: "ActivityProfile \<Rightarrow> HouseholdActivity \<Rightarrow> real \<times> string list" where
  "score_segments profile activity =
     (let late = lowerIsBetter (ha_LatePct activity) (av_LateGoodPct profile) (av_LateBadPct profile);
          rate = higherIsBetter (ha_AchievedDownMbps activity) (av_DownMbps profile * 0.7) (av_DownMbps profile * 0.98);
          startup = (if ha_StartupMS activity > 0
             then lowerIsBetter (ha_StartupMS activity) (av_StartupGoodMS profile) (av_StartupBadMS profile)
             else 100);
          loss = lowerIsBetter (ha_LossPct activity) 0 10
      in (0.5 * late + 0.3 * rate + 0.1 * startup + 0.1 * loss,
          weak late ''segments_late'' @ weak rate ''throughput_below_demand''
          @ weak startup ''slow_startup'' @ weak loss ''segment_errors''))"

definition score_realtime :: "ActivityProfile \<Rightarrow> HouseholdActivity \<Rightarrow> real \<times> string list" where
  "score_realtime profile activity =
     (let delay = lowerIsBetter (ha_P90DelayMS activity) (av_DelayGoodMS profile) (av_DelayBadMS profile);
          jitter = lowerIsBetter (ha_JitterMS activity) (av_JitterGoodMS profile) (av_JitterBadMS profile);
          loss = lowerIsBetter (ha_LossPct activity + ha_LatePct activity) (av_LossGoodPct profile) (av_LossBadPct profile)
      in (if av_Pattern profile = PatternFrames
          then 0.4 * delay + 0.2 * jitter + 0.4 * loss
          else 0.5 * delay + 0.2 * jitter + 0.3 * loss,
          weak delay ''delivery_delay'' @ weak jitter ''jitter'' @ weak loss ''lost_or_late_frames''))"

definition score_bursts :: "ActivityProfile \<Rightarrow> HouseholdActivity \<Rightarrow> real \<times> string list" where
  "score_bursts profile activity =
     (let warm = lowerIsBetter (ha_P90DelayMS activity) (av_DelayGoodMS profile) (av_DelayBadMS profile);
          cold = (if ha_ColdP95MS activity > 0
             then lowerIsBetter (ha_ColdP95MS activity) (av_ColdGoodMS profile) (av_ColdBadMS profile)
             else 100);
          loss = lowerIsBetter (ha_LossPct activity) (av_LossGoodPct profile) (av_LossBadPct profile)
      in (0.5 * warm + 0.3 * cold + 0.2 * loss,
          weak warm ''slow_response_start'' @ weak cold ''slow_connection_setup''
          @ weak loss ''request_errors''))"

definition ScoreHouseholdActivity :: "ActivityProfile \<Rightarrow> HouseholdActivity \<Rightarrow> HouseholdActivity" where
  "ScoreHouseholdActivity profile activity =
     (if ha_Samples activity < av_MinSamples profile
      then activity\<lparr>ha_Available := False, ha_Rating := RatingUnavailable,
             ha_Reasons := append_unique (ha_Reasons activity) ''insufficient_samples''\<rparr>
      else let (score, reasons) =
                 (if av_Pattern profile = PatternSegments then score_segments profile activity
                  else if av_Pattern profile = PatternFrames \<or> av_Pattern profile = PatternProbes
                  then score_realtime profile activity
                  else if av_Pattern profile = PatternBursts then score_bursts profile activity
                  else (0, []));
               final = round_places (clamp score 0 100) 1
           in activity\<lparr>ha_Available := True, ha_Score := final, ha_Rating := rating final,
                ha_Reasons := reasons\<rparr>)"

definition fresh_activity :: "ActivityProfile \<Rightarrow> int \<Rightarrow> int \<Rightarrow> HouseholdActivity" where
  "fresh_activity profile instance_no observed =
     \<lparr>ha_Key = av_Key profile, ha_App = av_App profile, ha_Instance = instance_no,
      ha_Tier = av_Tier profile, ha_Label = av_Label profile, ha_Pattern = av_Pattern profile,
      ha_DemandDownMbps = av_DownMbps profile, ha_DemandUpMbps = av_UpMbps profile,
      ha_AchievedDownMbps = 0, ha_AchievedUpMbps = 0, ha_Samples = 0, ha_LateSamples = 0,
      ha_Errors = 0, ha_P50DelayMS = 0, ha_P90DelayMS = 0, ha_P95DelayMS = 0, ha_JitterMS = 0,
      ha_StartupMS = 0, ha_ColdP95MS = 0, ha_LatePct = 0, ha_LossPct = 0,
      ha_ObservedMS = observed, ha_Score = 0, ha_Rating = '''', ha_Available = False,
      ha_Estimate = av_Estimate profile, ha_Reasons = []\<rparr>"

text \<open>The activity's numbers, before it is scored.\<close>

definition measured_activity :: "ActivityProfile \<Rightarrow> sample_tally \<Rightarrow> HouseholdActivity \<Rightarrow> HouseholdActivity" where
  "measured_activity profile t activity =
     (let seconds0 = of_int (ha_ObservedMS activity) / 1000;
          seconds = (if av_Pattern profile = PatternSegments \<and> ty_occupiedMS t > 0
             then of_int (ty_occupiedMS t) / 1000 else seconds0);
          delays = sort (ty_delays t);
          colds = sort (ty_colds t);
          a1 = (if seconds > 0
             then activity\<lparr>ha_AchievedDownMbps := round_places (real (unat (ty_downBytes t)) * 8 / seconds / 1000000) 2,
                           ha_AchievedUpMbps := round_places (real (unat (ty_upBytes t)) * 8 / seconds / 1000000) 2\<rparr>
             else activity);
          a2 = (if delays \<noteq> []
             then a1\<lparr>ha_P50DelayMS := round_places (percentile delays 50) 1,
                     ha_P90DelayMS := round_places (percentile delays 90) 1,
                     ha_P95DelayMS := round_places (percentile delays 95) 1,
                     ha_JitterMS := round_places (medianAbsoluteDeviation delays) 1\<rparr>
             else a1);
          a3 = (if colds \<noteq> [] then a2\<lparr>ha_ColdP95MS := round_places (percentile colds 95) 1\<rparr> else a2);
          a4 = (if ty_startup t \<ge> 0 then a3\<lparr>ha_StartupMS := round_places (ty_startup t) 1\<rparr> else a3)
      in a4\<lparr>ha_LatePct := round_places (100 * of_int (ty_Late t) / of_int (ty_Samples t)) 2,
            ha_LossPct := round_places (100 * of_int (ty_Errors t) / of_int (ty_Samples t)) 2\<rparr>)"

definition SummarizeActivity ::
    "ActivityProfile \<Rightarrow> int \<Rightarrow> ActivitySample list \<Rightarrow> int \<Rightarrow> int \<Rightarrow> HouseholdActivity" where
  "SummarizeActivity profile instance_no samples windowStart windowEnd =
     (let t = tally profile windowStart windowEnd samples;
          activity = (fresh_activity profile instance_no (max (windowEnd - windowStart) 0))
            \<lparr>ha_Samples := ty_Samples t, ha_Errors := ty_Errors t, ha_LateSamples := ty_Late t\<rparr>
      in if ty_Samples t = 0
         then activity\<lparr>ha_Reasons := [''no_samples''], ha_Rating := RatingUnavailable\<rparr>
         else ScoreHouseholdActivity profile (measured_activity profile t activity))"

section \<open>The verdict\<close>

definition weaker :: "HouseholdActivity option \<Rightarrow> HouseholdActivity \<Rightarrow> HouseholdActivity option" where
  "weaker weakest activity =
     (if \<not> ha_Available activity then weakest
      else case weakest of None \<Rightarrow> Some activity
        | Some w \<Rightarrow> if ha_Score activity < ha_Score w then Some activity else weakest)"

definition weakest_activity :: "HouseholdActivity list \<Rightarrow> HouseholdActivity option" where
  "weakest_activity activities = foldl weaker None activities"

definition verdictVerb :: "Rating \<Rightarrow> string" where
  "verdictVerb r = (if r = RatingGood then ''passed''
     else if r = RatingAverage then ''struggled'' else ''failed'')"

definition reasonText :: "string \<Rightarrow> string" where
  "reasonText reason =
     (if reason = ''segments_late'' then ''late video segments''
      else if reason = ''throughput_below_demand'' then ''throughput below its demand''
      else if reason = ''slow_startup'' then ''a slow start''
      else if reason = ''delivery_delay'' then ''delayed delivery''
      else if reason = ''jitter'' then ''unsteady delivery timing''
      else if reason = ''lost_or_late_frames'' then ''lost or late frames''
      else if reason = ''slow_response_start'' then ''slow responses''
      else if reason = ''slow_connection_setup'' then ''slow connection setup''
      else reason)"

definition insufficient_summary :: "string \<Rightarrow> string" where
  "insufficient_summary stop =
     (if stop = StopInsufficientBytes
      then ''The test ran out of its data allowance before enough evidence was collected.''
      else if stop = StopInsufficientTime
      then ''The test ran out of time before enough evidence was collected.''
      else if stop = StopTransportFailure
      then ''The measurement endpoint could not be reached reliably.''
      else if stop = StopCancelled then ''The test was cancelled before it finished.''
      else ''Not enough evidence to judge this household mix.'')"

definition householdSummary :: "HouseholdResult \<Rightarrow> HouseholdActivity option \<Rightarrow> string" where
  "householdSummary r weakest =
     (if hr_Status r = HouseholdStatusInsufficient then insufficient_summary (hr_StopReason r)
      else let reference = (case hr_Reference r of
                 Some ref \<Rightarrow> if ha_Available ref
                   then ''One '' @ ha_Label ref @ '' alone '' @ verdictVerb (ha_Rating ref) @ ''. '' else ''''
               | None \<Rightarrow> '''')
           in case weakest of
                None \<Rightarrow> reference @ ''No activity could be scored.''
              | Some w \<Rightarrow>
                  if hr_Status r = HouseholdStatusPass
                  then reference @ ''The configured mix ran together without a weak activity.''
                  else let reason = (case ha_Reasons w of [] \<Rightarrow> ''no dominant cause'' | x # _ \<Rightarrow> reasonText x)
                       in reference @ ''The configured mix '' @ verdictVerb (ha_Rating w)
                          @ '' because the '' @ ha_Label w @ '' saw '' @ reason @ ''.'')"

definition household_status :: "HouseholdResult \<Rightarrow> HouseholdActivity option \<Rightarrow> string" where
  "household_status r weakest =
     (case weakest of
        None \<Rightarrow> HouseholdStatusInsufficient
      | Some w \<Rightarrow>
          if hr_StopReason r \<noteq> StopEnoughEvidence \<or> hw_ObservedMS (hr_Window r) < HouseholdMinObserveMS
          then HouseholdStatusInsufficient
          else if \<exists>a\<in>set (hr_Activities r). \<not> ha_Available a then HouseholdStatusInsufficient
          else if ha_Rating w = RatingGood then HouseholdStatusPass
          else if ha_Rating w = RatingAverage then HouseholdStatusStruggle
          else HouseholdStatusFail)"

definition SummarizeHousehold :: "HouseholdResult \<Rightarrow> HouseholdResult" where
  "SummarizeHousehold r0 =
     (let weakest = weakest_activity (hr_Activities r0);
          r = r0\<lparr>hr_ScenarioVersion := HouseholdScenarioVersion,
                 hr_ScorerVersion := HouseholdScorerVersion,
                 hr_MixRevision := Revision (hr_Mix r0),
                 hr_Status := household_status r0 weakest\<rparr>;
          r' = (case weakest of Some w \<Rightarrow> r\<lparr>hr_Weakest := ha_Key w, hr_WeakestScore := ha_Score w\<rparr>
                | None \<Rightarrow> r)
      in r'\<lparr>hr_Summary := householdSummary r' weakest\<rparr>)"

definition lowerIsBetterFor :: "HouseholdActivity \<Rightarrow> real" where
  "lowerIsBetterFor a =
     (case ActivityByKey (ha_Key a) of
        None \<Rightarrow> lowerIsBetter (ha_LatePct a) 0 20
      | Some p \<Rightarrow> if av_DelayBadMS p \<le> av_DelayGoodMS p then lowerIsBetter (ha_LatePct a) 0 20
                  else lowerIsBetter (ha_P95DelayMS a) (av_DelayGoodMS p) (av_DelayBadMS p))"

definition throughputScoreFor :: "HouseholdActivity \<Rightarrow> real" where
  "throughputScoreFor a =
     (let demand = ha_DemandDownMbps a + ha_DemandUpMbps a
      in if demand \<le> 0 then 100
         else higherIsBetter (ha_AchievedDownMbps a + ha_AchievedUpMbps a) (demand * 0.7) (demand * 0.98))"

text \<open>The activity a card shows: the first of the app, then any weaker available one.\<close>

definition choose_activity :: "string \<Rightarrow> HouseholdActivity option \<Rightarrow> HouseholdActivity \<Rightarrow> HouseholdActivity option" where
  "choose_activity app chosen a =
     (if ha_App a \<noteq> app then chosen
      else case chosen of None \<Rightarrow> Some a
        | Some c \<Rightarrow> if ha_Available a \<and> (\<not> ha_Available c \<or> ha_Score a < ha_Score c) then Some a else chosen)"

definition experience_card :: "HouseholdActivity list \<Rightarrow> string \<Rightarrow> string \<Rightarrow> string \<Rightarrow> ApplicationScore" where
  "experience_card activities app label explanation =
     (let card = \<lparr>as_Available = False, as_Name = label, as_Score = 0, as_Rating = RatingUnavailable,
            as_LatencyScore = 0, as_LossScore = 0, as_ThroughputScore = 0, as_MeasuredLatencyMS = 0,
            as_MeasuredLossPct = 0, as_DownloadMbps = 0, as_UploadMbps = 0,
            as_Explanation = explanation, as_UnavailableReasons = []\<rparr>
      in case foldl (choose_activity app) None activities of
           None \<Rightarrow> card\<lparr>as_UnavailableReasons := [''not_in_mix'']\<rparr>
         | Some c \<Rightarrow>
             if \<not> ha_Available c then card\<lparr>as_UnavailableReasons := ha_Reasons c\<rparr>
             else card\<lparr>as_Available := True, as_Score := ha_Score c, as_Rating := ha_Rating c,
               as_LatencyScore := round_places (lowerIsBetterFor c) 1,
               as_LossScore := round_places (lowerIsBetter (ha_LossPct c + ha_LatePct c) 0 5) 1,
               as_ThroughputScore := round_places (throughputScoreFor c) 1,
               as_MeasuredLatencyMS := ha_P95DelayMS c, as_MeasuredLossPct := ha_LossPct c,
               as_DownloadMbps := ha_AchievedDownMbps c, as_UploadMbps := ha_AchievedUpMbps c,
               as_Explanation := (case ha_Reasons c of [] \<Rightarrow> explanation
                 | x # _ \<Rightarrow> ''Weakest issue: '' @ reasonText x @ ''.'')\<rparr>)"

definition HouseholdExperience :: "HouseholdResult \<Rightarrow> Experience" where
  "HouseholdExperience r =
     (let home = map (\<lambda>(app, label, text). (app, experience_card (hr_Activities r) app label text))
            [(AppBrowsing, ''Browsing'', ''Pages and requests during the household mix.''),
             (AppStreaming, ''Streaming'', ''Weakest configured stream while the mix ran.''),
             (AppVideoCalls, ''Video calls'', ''Frame delivery both ways while the mix ran.''),
             (AppGaming, ''Gaming'', ''Round-trip timing under the household mix (HTTPS estimate).'')]
      in if hr_Weakest r \<noteq> '''' \<and> hr_Status r \<noteq> HouseholdStatusInsufficient
         then \<lparr>ex_Available = True, ex_OverallScore = hr_WeakestScore r,
                ex_Rating = rating (hr_WeakestScore r), ex_Home = home, ex_Additional = []\<rparr>
         else \<lparr>ex_Available = False, ex_OverallScore = 0, ex_Rating = RatingUnavailable,
                ex_Home = home, ex_Additional = []\<rparr>)"

section \<open>Confidence\<close>

text \<open>This file's closure \<open>add\<close> raises the severity even when the reason is already there.\<close>

definition add_household :: "bool \<Rightarrow> string \<Rightarrow> int \<Rightarrow> string list \<times> int \<Rightarrow> string list \<times> int" where
  "add_household cond reason level st =
     (if cond then (append_unique (fst st) reason, max (snd st) level) else st)"

definition household_reasons :: "HouseholdConfidenceInput \<Rightarrow> string list \<times> int" where
  "household_reasons i =
     (let s0 = add_household (hc_BaselineSamples i < MinimumBaselineSamples) ''baseline_insufficient_samples'' 1 ([], 0);
          s1 = add_household (hc_LoadedSamples i < 20) ''household_insufficient_latency_samples'' 1 s0;
          s2 = (if hc_ProbeSuccessRatio i < 0.7 then add_household True ''too_few_latency_probes'' 2 s1
                else add_household (hc_ProbeSuccessRatio i < 0.9) ''some_latency_probes_missing'' 1 s1);
          s3 = add_household (hc_FreshPathSuccessRatio i > 0 \<and> hc_FreshPathSuccessRatio i < 0.7)
                 ''fresh_path_probes_unreliable'' 1 s2;
          s4 = (if hc_ObservedMS i < HouseholdMinObserveMS then add_household True ''household_window_too_short'' 2 s3
                else add_household (hc_PlannedMS i > 0 \<and> hc_ObservedMS i < hc_PlannedMS i)
                       ''household_window_shortened'' 1 s3);
          s5 = (if hc_StopReason i = StopInsufficientBytes then add_household True ''household_budget_limited'' 1 s4
                else if hc_StopReason i = StopInsufficientTime then add_household True ''household_time_limited'' 1 s4
                else add_household (hc_StopReason i = StopTransportFailure \<or> hc_StopReason i = StopCancelled)
                       (''household_'' @ hc_StopReason i) 2 s4)
      in add_household (hc_UnavailableActivities i > 0) ''household_activities_unscored'' 1 s5)"

definition HouseholdConfidence :: "HouseholdConfidenceInput \<Rightarrow> Confidence" where
  "HouseholdConfidence i =
     (let (reasons, severity) = household_reasons i
      in \<lparr>cf_Level = severity_level severity, cf_Reasons = reasons\<rparr>)"
section \<open>Properties of the mix\<close>

definition valid_mix :: "HouseholdMix \<Rightarrow> bool" where
  "valid_mix m \<longleftrightarrow> (\<forall>n\<in>{hm_UHDStreams m, hm_FHDStreams m, hm_HDStreams m, hm_VideoCalls m, hm_Gaming m}.
       0 \<le> n \<and> n \<le> maxHouseholdCount)
     \<and> 1 \<le> Instances m \<and> Instances m \<le> MaxHouseholdInstances"

lemma DefaultHouseholdMix_valid: "valid_mix DefaultHouseholdMix"
  by (simp add: valid_mix_def DefaultHouseholdMix_def Instances_def)

lemma clamp_counts_range:
  "\<forall>n\<in>{hm_UHDStreams m, hm_FHDStreams m, hm_HDStreams m, hm_VideoCalls m, hm_Gaming m}. 0 \<le> n \<and> n \<le> maxHouseholdCount"
  if "m = clamp_counts m'"
  using that clampInt_range[of 0 4] by (auto simp: clamp_counts_def)

lemma clamp_counts_id: "valid_mix m \<Longrightarrow> clamp_counts m = m"
  by (cases m) (simp add: clamp_counts_def valid_mix_def)

lemma NormalizeHouseholdMix_valid: "valid_mix (NormalizeHouseholdMix m)"
proof -
  have "0 \<le> Instances (clamp_counts m)"
    using clamp_counts_range[OF refl, of m] by (auto simp: Instances_def)
  then show ?thesis
    using clamp_counts_range[OF refl, of m] DefaultHouseholdMix_valid
    by (auto simp: NormalizeHouseholdMix_def valid_mix_def Let_def)
qed

interpretation mix: normaliser NormalizeHouseholdMix valid_mix
proof unfold_locales
  fix m assume v: "valid_mix m"
  then show "NormalizeHouseholdMix m = m"
    unfolding NormalizeHouseholdMix_def clamp_counts_id[OF v] Let_def by (auto simp: valid_mix_def)
qed (rule NormalizeHouseholdMix_valid)

lemma catalog_lookup [simp]:
  "ActivityByKey ''stream_uhd'' = Some (HouseholdCatalog ! 0)"
  "ActivityByKey ''stream_fhd'' = Some (HouseholdCatalog ! 1)"
  "ActivityByKey ''stream_hd'' = Some (HouseholdCatalog ! 2)"
  "ActivityByKey ''video_call'' = Some (HouseholdCatalog ! 3)"
  "ActivityByKey ''game'' = Some (HouseholdCatalog ! 4)"
  "ActivityByKey ''browsing'' = Some (HouseholdCatalog ! 5)"
  by (simp_all add: ActivityByKey_def HouseholdCatalog_def stream_profile_def)

lemma length_Activities:
  assumes "valid_mix m"
  shows "int (length (Activities m)) = Instances m"
  using assms by (simp add: Activities_def add_activities_def Instances_def valid_mix_def)

lemma set_Activities: "set (Activities m) \<subseteq> set HouseholdCatalog"
  by (auto simp: Activities_def add_activities_def HouseholdCatalog_def split: if_splits)

text \<open>
  A normalised mix is always valid: every count is between 0 and 4 and between one and eight
  activities run. A valid mix is returned untouched (it is never trimmed), normalising twice
  changes nothing, and the mix then expands into exactly as many catalog activities as it counts.
\<close>

theorem NormalizeHouseholdMix_sound:
  "valid_mix (NormalizeHouseholdMix m)
   \<and> (NormalizeHouseholdMix m = m \<longleftrightarrow> valid_mix m)
   \<and> NormalizeHouseholdMix (NormalizeHouseholdMix m) = NormalizeHouseholdMix m
   \<and> int (length (Activities (NormalizeHouseholdMix m))) = Instances (NormalizeHouseholdMix m)
   \<and> set (Activities (NormalizeHouseholdMix m)) \<subseteq> set HouseholdCatalog"
  using mix.norm_valid mix.norm_fixed_iff mix.norm_idem length_Activities set_Activities by blast

section \<open>Properties of the plan\<close>

definition household_windows :: "int list" where
  "household_windows = [12000, 11000, 10000, 9000, 8000]"

text \<open>The mix alone fits a window, or the mix after the reference fits the full window.\<close>

definition window_fits :: "HouseholdMix \<Rightarrow> u64 \<Rightarrow> int \<Rightarrow> int \<Rightarrow> bool" where
  "window_fits mix cap availableMS w \<longleftrightarrow>
     mix_bytes (Activities mix) (HouseholdWarmupMS + w) \<le> usable_bytes cap \<and> HouseholdWarmupMS + w \<le> availableMS"

definition reference_fits :: "HouseholdMix \<Rightarrow> u64 \<Rightarrow> int \<Rightarrow> bool" where
  "reference_fits mix cap availableMS \<longleftrightarrow>
     pl_Reference (initial_plan mix)
     \<and> mix_bytes (Activities mix) (HouseholdWarmupMS + HouseholdObserveMS) + pl_ReferenceBytes (initial_plan mix) \<le> usable_bytes cap
     \<and> HouseholdWarmupMS + HouseholdObserveMS + pl_ReferenceMS (initial_plan mix) \<le> availableMS"

lemma initial_plan_fields [simp]:
  "pl_WarmupMS (initial_plan mix) = 2000" "pl_ObserveMS (initial_plan mix) = 12000"
  "pl_Sufficient (initial_plan mix)" "pl_Reason (initial_plan mix) = ''''"
  by (simp_all add: initial_plan_def Let_def split: option.split)

lemma plan_fits_eq:
  "plan_fits acts us av plan =
     (plan\<lparr>pl_MixBytes := mix_bytes acts (pl_WarmupMS plan + pl_ObserveMS plan),
        pl_PlannedBytes := mix_bytes acts (pl_WarmupMS plan + pl_ObserveMS plan)
          + (if pl_Reference plan then pl_ReferenceBytes plan else 0)\<rparr>,
      mix_bytes acts (pl_WarmupMS plan + pl_ObserveMS plan)
          + (if pl_Reference plan then pl_ReferenceBytes plan else 0) \<le> us
      \<and> pl_WarmupMS plan + pl_ObserveMS plan + (if pl_Reference plan then pl_ReferenceMS plan else 0) \<le> av)"
  by (simp add: plan_fits_def Let_def)

text \<open>
  (C38) What the plan decides. If the reference and the mix both fit the full window, both run. If
  not, the reference is dropped and the longest window that fits is taken, in whole seconds from
  12 down to 8. Only when not even eight seconds fit is the plan insufficient, and its reason then
  says whether bytes or only time were missing. A sufficient plan never exceeds the byte
  allowance less the overhead reserve, nor the time available.
\<close>

theorem PlanHousehold_longest_window:
  fixes mix :: HouseholdMix and cap :: u64 and availableMS :: int
  defines "p \<equiv> PlanHousehold mix cap availableMS"
  shows "(reference_fits mix cap availableMS \<longrightarrow>
            pl_Sufficient p \<and> pl_Reference p \<and> pl_ObserveMS p = HouseholdObserveMS)
    \<and> (\<not> reference_fits mix cap availableMS \<longrightarrow> \<not> pl_Reference p
         \<and> pl_Sufficient p = (\<exists>w\<in>set household_windows. window_fits mix cap availableMS w)
         \<and> (pl_Sufficient p \<longrightarrow> pl_ObserveMS p \<in> set household_windows
              \<and> window_fits mix cap availableMS (pl_ObserveMS p)
              \<and> (\<forall>w\<in>set household_windows. pl_ObserveMS p < w \<longrightarrow> \<not> window_fits mix cap availableMS w)))
    \<and> (\<not> pl_Sufficient p \<longrightarrow> pl_ObserveMS p = HouseholdMinObserveMS
         \<and> (pl_Reason p = StopInsufficientBytes) = (usable_bytes cap < pl_PlannedBytes p)
         \<and> (pl_Reason p = StopInsufficientTime) = (pl_PlannedBytes p \<le> usable_bytes cap))
    \<and> (pl_Sufficient p \<longrightarrow> pl_PlannedBytes p \<le> usable_bytes cap
         \<and> pl_WarmupMS p + pl_ObserveMS p + (if pl_Reference p then pl_ReferenceMS p else 0) \<le> availableMS)"
  unfolding p_def PlanHousehold_def Let_def plan_fits_eq reference_fits_def window_fits_def household_windows_def
  by (cases "pl_Reference (initial_plan mix)")
     (auto simp: shrink_window.simps plan_fits_eq linorder_not_less)

theorem PlanHousehold_longest_window_witness:
  "\<not> pl_Sufficient (PlanHousehold DefaultHouseholdMix 0 0)
   \<and> pl_ObserveMS (PlanHousehold DefaultHouseholdMix 0 0) = HouseholdMinObserveMS"
proof -
  have "0 \<le> pl_ReferenceMS (initial_plan DefaultHouseholdMix)"
    by (simp add: initial_plan_def ReferenceActivity_def HouseholdCatalog_def stream_profile_def empty_profile_def Let_def)
  then have "\<not> reference_fits DefaultHouseholdMix 0 0" by (simp add: reference_fits_def)
  moreover have "\<not> (\<exists>w\<in>set household_windows. window_fits DefaultHouseholdMix 0 0 w)"
    by (simp add: window_fits_def household_windows_def)
  ultimately show ?thesis using PlanHousehold_longest_window[of DefaultHouseholdMix 0 0] by blast
qed

lemma foldl_add_word:
  fixes f :: "'a \<Rightarrow> u64"
  assumes "\<And>x. x \<in> set xs \<Longrightarrow> unat (f x) \<le> b" "unat a + b * length xs < 2 ^ 64"
  shows "unat (foldl (\<lambda>t x. t + f x) a xs) = unat a + (\<Sum>x\<leftarrow>xs. unat (f x))"
  using assms
proof (induction xs arbitrary: a)
  case (Cons x xs)
  have fx: "unat (f x) \<le> b" using Cons.prems(1) by simp
  with Cons.prems(2) have "unat a + unat (f x) < 2 ^ LENGTH(64)" by simp
  then have s: "unat (a + f x) = unat a + unat (f x)" by (simp add: unat_word_ariths)
  then have "unat (a + f x) + b * length xs < 2 ^ 64" using Cons.prems(2) fx by simp
  with Cons.IH[of "a + f x"] Cons.prems(1) s show ?case by simp
qed simp

lemma sum_list_le: "(\<And>x. x \<in> set xs \<Longrightarrow> f x \<le> b) \<Longrightarrow> (\<Sum>x\<leftarrow>xs. f x) \<le> b * length xs" for b :: nat
  by (induction xs) fastforce+

lemma catalog_planned_bytes:
  "p \<in> set HouseholdCatalog \<Longrightarrow> unat (PlannedBytes p 14000) \<le> 26250000"
  by (auto simp: HouseholdCatalog_def stream_profile_def empty_profile_def PlannedBytes_def Let_def)

lemma mix_bytes_full_window:
  assumes "valid_mix m"
  shows "unat (mix_bytes (Activities m) 14000) = (\<Sum>a\<leftarrow>Activities m. unat (PlannedBytes a 14000))"
    and "unat (mix_bytes (Activities m) 14000) \<le> 210000000"
proof -
  have b: "unat (PlannedBytes a 14000) \<le> 26250000" if "a \<in> set (Activities m)" for a
    using that set_Activities catalog_planned_bytes by blast
  have len: "length (Activities m) \<le> 8"
    using length_Activities[OF assms] assms by (simp add: valid_mix_def)
  show eq: "unat (mix_bytes (Activities m) 14000) = (\<Sum>a\<leftarrow>Activities m. unat (PlannedBytes a 14000))"
    unfolding mix_bytes_def using foldl_add_word[of "Activities m" "\<lambda>a. PlannedBytes a 14000" 26250000 0] b len
    by simp
  show "unat (mix_bytes (Activities m) 14000) \<le> 210000000"
    unfolding eq using sum_list_le[of "Activities m" "\<lambda>a. unat (PlannedBytes a 14000)" 26250000] b len by simp
qed

lemma initial_reference_bounds:
  "unat (pl_ReferenceBytes (initial_plan m)) \<le> 15000000 \<and> pl_ReferenceMS (initial_plan m) \<le> 7000"
  by (simp add: initial_plan_def ReferenceActivity_def UnitBytes_def HouseholdCatalog_def stream_profile_def
      empty_profile_def go_uint64_def Let_def)

lemma cut_overhead: "1 - HouseholdOverheadReserve = (9 / 10 :: real)"
  by simp

lemma zero_le_nine_tenths: "0 \<le> (9 / 10 :: real)"
  by simp

lemma usable_bytes_mono: "a \<le> b \<Longrightarrow> usable_bytes a \<le> usable_bytes b"
proof -
  assume "a \<le> b"
  then have "real (unat a) \<le> real (unat b)" by (metis of_nat_le_iff word_le_nat_alt)
  then have "real (unat a) * (9 / 10) \<le> real (unat b) * (9 / 10)" by (rule mult_right_mono) simp
  moreover have "real (unat b) * (9 / 10) < 2 ^ 64"
    using real_unat_less[of b] mult_strict_right_mono[of "real (unat b)" "2 ^ 64" "9 / 10"] by linarith
  ultimately show ?thesis
    unfolding usable_bytes_def using go_uint64_mono[of "real (unat a) * (9 / 10)"]
    by (metis (no_types, opaque_lifting) cut_overhead of_nat_0_le_iff mult_nonneg_nonneg zero_le_nine_tenths)
qed

text \<open>
  The allowance the product promises is enough: with the 300 MB the two default caps add up
  to, and 21 seconds, every valid mix runs for the full twelve-second window, with its reference
  when it has a stream, and the planned bytes are the true sum of the parts (nothing wraps).
\<close>

theorem PlanHousehold_default_allowance:
  assumes "HouseholdDefaultDownloadCap + HouseholdDefaultUploadCap \<le> cap" "21000 \<le> availableMS" "valid_mix m"
  shows "pl_Sufficient (PlanHousehold m cap availableMS)
    \<and> pl_ObserveMS (PlanHousehold m cap availableMS) = HouseholdObserveMS
    \<and> pl_Reference (PlanHousehold m cap availableMS) = (ReferenceActivity m \<noteq> None)
    \<and> unat (pl_MixBytes (PlanHousehold m cap availableMS))
        = (\<Sum>a\<leftarrow>Activities m. unat (PlannedBytes a (HouseholdWarmupMS + HouseholdObserveMS)))"
proof -
  let ?mb = "mix_bytes (Activities m) 14000"
  let ?p = "initial_plan m"
  have u: "270000000 \<le> usable_bytes cap"
    using usable_bytes_mono[OF assms(1)]
    by (simp add: usable_bytes_def HouseholdDefaultDownloadCap_def HouseholdDefaultUploadCap_def go_uint64_def)
  have mb: "unat ?mb \<le> 210000000" by (rule mix_bytes_full_window[OF assms(3)])
  have rb: "unat (pl_ReferenceBytes ?p) \<le> 15000000" "pl_ReferenceMS ?p \<le> 7000"
    using initial_reference_bounds by auto
  have "unat (?mb + pl_ReferenceBytes ?p) \<le> 225000000"
    using mb rb(1) by (simp add: unat_word_ariths)
  then have f: "?mb + pl_ReferenceBytes ?p \<le> usable_bytes cap" "?mb \<le> usable_bytes cap"
    using u mb by (simp_all add: word_le_nat_alt)
  have ref: "pl_Reference ?p = (ReferenceActivity m \<noteq> None)"
    by (simp add: initial_plan_def Let_def split: option.split)
  have "PlanHousehold m cap availableMS = fst (plan_fits (Activities m) (usable_bytes cap) availableMS ?p)"
    using f rb(2) assms(2) by (simp add: PlanHousehold_def plan_fits_eq Let_def)
  then show ?thesis
    using ref mix_bytes_full_window(1)[OF assms(3)] by (simp add: plan_fits_eq)
qed

theorem PlanHousehold_default_allowance_witness:
  "pl_Sufficient (PlanHousehold DefaultHouseholdMix 300000000 24000)"
  using PlanHousehold_default_allowance[of 300000000 24000 DefaultHouseholdMix] DefaultHouseholdMix_valid
  by (simp add: HouseholdDefaultDownloadCap_def HouseholdDefaultUploadCap_def)

section \<open>Properties of one activity\<close>

definition in_window :: "int \<Rightarrow> int \<Rightarrow> ActivitySample \<Rightarrow> bool" where
  "in_window ws we s \<longleftrightarrow> ws \<le> sa_ScheduledMS s \<and> sa_ScheduledMS s < we"

lemma tally_delay_counts [simp]:
  "ty_Samples (tally_delay p d t) = ty_Samples t" "ty_Errors (tally_delay p d t) = ty_Errors t"
  "ty_Late (tally_delay p d t) = ty_Late t + (if max d 0 > of_int (av_DeadlineMS p) then 1 else 0)"
  by (simp_all add: tally_delay_def Let_def)

lemma tally_sample_counts:
  "ty_Samples (tally_sample p ws we t s) = ty_Samples t + (if in_window ws we s then 1 else 0)"
  "ty_Errors (tally_sample p ws we t s) = ty_Errors t + (if in_window ws we s \<and> sa_Failed s then 1 else 0)"
  "ty_Late t \<le> ty_Late (tally_sample p ws we t s)"
  "ty_Late (tally_sample p ws we t s) \<le> ty_Late t + (if in_window ws we s \<and> \<not> sa_Failed s then 1 else 0)"
  by (auto simp: tally_sample_def in_window_def Let_def)

lemma foldl_tally_counts:
  "ty_Samples (foldl (tally_sample p ws we) t ss) = ty_Samples t + int (length (filter (in_window ws we) ss))"
  "ty_Errors (foldl (tally_sample p ws we) t ss)
     = ty_Errors t + int (length (filter (\<lambda>s. in_window ws we s \<and> sa_Failed s) ss))"
  "ty_Late t \<le> ty_Late (foldl (tally_sample p ws we) t ss)
   \<and> ty_Late (foldl (tally_sample p ws we) t ss)
       \<le> ty_Late t + int (length (filter (\<lambda>s. in_window ws we s \<and> \<not> sa_Failed s) ss))"
proof (induction ss arbitrary: t)
  case (Cons s ss)
  { case 1 show ?case using Cons(1)[of "tally_sample p ws we t s"] by (simp add: tally_sample_counts) next
    case 2 show ?case using Cons(2)[of "tally_sample p ws we t s"] by (simp add: tally_sample_counts) next
    case 3 show ?case using Cons(3)[of "tally_sample p ws we t s"] tally_sample_counts(3,4)[where t = t and p = p and ws = ws and we = we and s = s]
      by (auto split: if_splits) }
qed simp_all

lemma measured_activity_fields [simp]:
  "ha_Samples (measured_activity p t a) = ha_Samples a" "ha_Errors (measured_activity p t a) = ha_Errors a"
  "ha_LateSamples (measured_activity p t a) = ha_LateSamples a" "ha_Score (measured_activity p t a) = ha_Score a"
  "ha_LatePct (measured_activity p t a) = round_places (100 * of_int (ty_Late t) / of_int (ty_Samples t)) 2"
  "ha_LossPct (measured_activity p t a) = round_places (100 * of_int (ty_Errors t) / of_int (ty_Samples t)) 2"
  by (simp_all add: measured_activity_def Let_def)

lemma ScoreHouseholdActivity_fields [simp]:
  "ha_Samples (ScoreHouseholdActivity p a) = ha_Samples a" "ha_Errors (ScoreHouseholdActivity p a) = ha_Errors a"
  "ha_LateSamples (ScoreHouseholdActivity p a) = ha_LateSamples a"
  "ha_LatePct (ScoreHouseholdActivity p a) = ha_LatePct a" "ha_LossPct (ScoreHouseholdActivity p a) = ha_LossPct a"
  "ha_Available (ScoreHouseholdActivity p a) = (av_MinSamples p \<le> ha_Samples a)"
  by (simp_all add: ScoreHouseholdActivity_def Let_def split: prod.split)

text \<open>What every scored activity looks like.\<close>

definition scored :: "HouseholdActivity \<Rightarrow> bool" where
  "scored a \<longleftrightarrow> 0 \<le> ha_Score a \<and> ha_Score a \<le> 100
     \<and> (ha_Available a \<longrightarrow> ha_Rating a = rating (ha_Score a))
     \<and> (\<not> ha_Available a \<longrightarrow> ha_Rating a = RatingUnavailable \<and> ha_Reasons a \<noteq> [])"

lemma ScoreHouseholdActivity_scored:
  "0 \<le> ha_Score a \<Longrightarrow> ha_Score a \<le> 100 \<Longrightarrow> scored (ScoreHouseholdActivity p a)"
  using round_places_0_100 clamp_bounds[of 0 100]
  by (auto simp: scored_def ScoreHouseholdActivity_def Let_def append_unique_def split: prod.split)

lemma percent_range:
  "0 \<le> k \<Longrightarrow> k \<le> n \<Longrightarrow> 0 < n \<Longrightarrow>
   0 \<le> round_places (100 * of_int k / of_int n) 2 \<and> round_places (100 * of_int k / of_int n) 2 \<le> 100"
  by (rule round_places_0_100) (simp_all add: divide_le_eq)

text \<open>
  What the summary of an activity reports: the samples scheduled in the window are counted
  once each, failed ones as errors; late and failed together never exceed them, so both shares
  are percentages; the activity is available exactly when it has at least one sample and the
  catalog's minimum, and it is then rated by a score between 0 and 100; otherwise it is rated
  unavailable, with a reason.
\<close>

theorem SummarizeActivity_counts:
  fixes samples :: "ActivitySample list" and ws we n :: int and p :: ActivityProfile
  defines "a \<equiv> SummarizeActivity p n samples ws we"
  defines "W \<equiv> filter (in_window ws we) samples"
  shows "ha_Samples a = int (length W) \<and> ha_Errors a = int (length (filter sa_Failed W))
    \<and> 0 \<le> ha_LateSamples a \<and> ha_LateSamples a + ha_Errors a \<le> ha_Samples a
    \<and> 0 \<le> ha_LatePct a \<and> ha_LatePct a \<le> 100 \<and> 0 \<le> ha_LossPct a \<and> ha_LossPct a \<le> 100
    \<and> (ha_Available a \<longleftrightarrow> W \<noteq> [] \<and> av_MinSamples p \<le> int (length W))
    \<and> scored a"
proof -
  define t where "t = tally p ws we samples"
  have W: "filter (\<lambda>s. in_window ws we s \<and> sa_Failed s) samples = filter sa_Failed W"
    "filter (\<lambda>s. in_window ws we s \<and> \<not> sa_Failed s) samples = filter (\<lambda>s. \<not> sa_Failed s) W"
    by (simp_all add: W_def conj_commute)
  have c: "ty_Samples t = int (length W)" "ty_Errors t = int (length (filter sa_Failed W))"
    "0 \<le> ty_Late t" "ty_Late t \<le> int (length (filter (\<lambda>s. \<not> sa_Failed s) W))"
    using foldl_tally_counts[where t = empty_tally and p = p and ws = ws and we = we and ss = samples]
    by (simp_all add: t_def tally_def empty_tally_def W W_def[symmetric])
  have sum: "length (filter sa_Failed W) + length (filter (\<lambda>s. \<not> sa_Failed s) W) = length W"
    by (rule sum_length_filter_compl)
  then have le: "ty_Late t + ty_Errors t \<le> ty_Samples t" using c by linarith
  show ?thesis
  proof (cases "ty_Samples t = 0")
    case True
    then show ?thesis
      using c le by (auto simp: a_def SummarizeActivity_def t_def[symmetric] Let_def fresh_activity_def scored_def)
  next
    case False
    then have pos: "0 < ty_Samples t" and e: "ty_Errors t \<le> ty_Samples t" "ty_Late t \<le> ty_Samples t" "0 \<le> ty_Errors t"
      using c le by auto
    let ?m = "measured_activity p t ((fresh_activity p n (max (we - ws) 0))
      \<lparr>ha_Samples := ty_Samples t, ha_Errors := ty_Errors t, ha_LateSamples := ty_Late t\<rparr>)"
    have a: "a = ScoreHouseholdActivity p ?m"
      using False by (simp add: a_def SummarizeActivity_def t_def[symmetric] Let_def)
    have "scored a" unfolding a by (rule ScoreHouseholdActivity_scored) (simp_all add: fresh_activity_def)
    then show ?thesis
      using percent_range[OF c(3) e(2) pos] percent_range[OF e(3,1) pos] le c pos by (auto simp: a)
  qed
qed

section \<open>Properties of a stream\<close>

text \<open>A segment delivered whole and before the next one is due, and a start without delay.\<close>

definition on_time :: "ActivityProfile \<Rightarrow> int \<Rightarrow> int \<Rightarrow> ActivitySample \<Rightarrow> bool" where
  "on_time p ws we s \<longleftrightarrow>
     (if in_window ws we s
      then \<not> sa_Failed s \<and> \<not> sa_Upload s \<and> sa_Bytes s = UnitBytes p False
        \<and> sa_CompletedMS s - sa_ScheduledMS s \<le> av_IntervalMS p
      else sa_CompletedMS s - sa_ScheduledMS s \<le> 1500)"

definition steady :: "ActivityProfile \<Rightarrow> nat \<Rightarrow> sample_tally \<Rightarrow> bool" where
  "steady p k t \<longleftrightarrow> ty_Samples t = int k \<and> ty_Errors t = 0 \<and> ty_Late t = 0
     \<and> ty_downBytes t = word_of_nat k * UnitBytes p False \<and> ty_occupiedMS t = int k * av_IntervalMS p
     \<and> ty_startup t \<le> 1500"

lemma tally_sample_steady:
  assumes "steady p k t" "on_time p ws we s" "p \<in> set (take 3 HouseholdCatalog)"
  shows "steady p (if in_window ws we s then Suc k else k) (tally_sample p ws we t s)"
proof -
  have p: "av_Pattern p = PatternSegments" "av_IntervalMS p = 2000" "av_DeadlineMS p = 2000"
    using assms(3) by (auto simp: HouseholdCatalog_def stream_profile_def)
  show ?thesis
  proof (cases "in_window ws we s")
    case True
    with assms(2) have s: "\<not> sa_Failed s" "\<not> sa_Upload s" "sa_Bytes s = UnitBytes p False"
      "sa_CompletedMS s - sa_ScheduledMS s \<le> 2000" by (auto simp: on_time_def p)
    from s(4) have late: "max (real_of_int (sa_CompletedMS s - sa_ScheduledMS s)) 0 \<le> 2000" by simp
    then have "max 2000 \<lfloor>max (real_of_int (sa_CompletedMS s - sa_ScheduledMS s)) 0\<rfloor> = 2000"
      by linarith
    with True s(1-3) late assms(1) show ?thesis
      by (simp add: tally_sample_def tally_delay_def steady_def in_window_def p Let_def algebra_simps)
  next
    case False
    with assms(1,2) show ?thesis
      by (auto simp: tally_sample_def steady_def in_window_def on_time_def p)
  qed
qed

lemma foldl_tally_steady:
  "p \<in> set (take 3 HouseholdCatalog) \<Longrightarrow> \<forall>s\<in>set ss. on_time p ws we s \<Longrightarrow> steady p k t \<Longrightarrow>
   steady p (k + length (filter (in_window ws we) ss)) (foldl (tally_sample p ws we) t ss)"
proof (induction ss arbitrary: k t)
  case (Cons s ss)
  from Cons.prems have "steady p (if in_window ws we s then Suc k else k) (tally_sample p ws we t s)"
    by (intro tally_sample_steady) auto
  with Cons.IH[OF Cons.prems(1) _ this] Cons.prems(2) show ?case by (auto split: if_splits)
qed simp

lemma stream_values:
  assumes "p \<in> set (take 3 HouseholdCatalog)"
  shows "unat (UnitBytes p False) \<le> 3750000" "real (unat (UnitBytes p False)) * 4 / 1000000 = av_DownMbps p"
    "round_places (av_DownMbps p) 2 = av_DownMbps p" "0 < av_DownMbps p"
    "av_Pattern p = PatternSegments" "av_IntervalMS p = 2000" "av_MinSamples p = 3"
    "av_LateGoodPct p = 0" "av_LateBadPct p = 20" "av_StartupGoodMS p = 1500" "av_StartupBadMS p = 5000"
  using assms round_places_nat[of 15 2] round_places_nat[of 5 2] round_places_nat[of 3 2]
  by (auto simp: HouseholdCatalog_def stream_profile_def empty_profile_def UnitBytes_def go_uint64_def Let_def)

lemma full_marks:
  "m \<le> g \<Longrightarrow> g < b \<Longrightarrow> lowerIsBetter m g b = 100"
  "l < g \<Longrightarrow> g \<le> m \<Longrightarrow> higherIsBetter m l g = 100"
  by (auto simp: lowerIsBetter_def higherIsBetter_def clamp_def min_def max_def field_simps)

lemma unat_of_nat_mult:
  assumes "k \<le> 1000000" "unat (u :: u64) \<le> 3750000"
  shows "unat (word_of_nat k * u) = k * unat u"
proof -
  have "k * unat u \<le> 1000000 * 3750000" by (rule mult_le_mono[OF assms])
  moreover have "unat (word_of_nat k :: u64) = k" using assms(1) by (simp add: unat_of_nat)
  ultimately show ?thesis by (simp add: unat_word_ariths)
qed

text \<open>
  A stream that keeps up scores 100 and is rated good, whatever the link could have done
  beyond that: when every segment due in the window arrives whole and within its interval, and the
  start took at most 1.5 seconds, the achieved rate is exactly the demand, and there is nothing to
  report.
\<close>

theorem SummarizeActivity_on_time_stream:
  assumes "p \<in> set (take 3 HouseholdCatalog)" "\<forall>s\<in>set samples. on_time p ws we s"
    "3 \<le> length (filter (in_window ws we) samples)" "length samples \<le> 1000000"
  shows "ha_Score (SummarizeActivity p n samples ws we) = 100
    \<and> ha_Rating (SummarizeActivity p n samples ws we) = RatingGood
    \<and> ha_AchievedDownMbps (SummarizeActivity p n samples ws we) = av_DownMbps p
    \<and> ha_Reasons (SummarizeActivity p n samples ws we) = []"
proof -
  note v = stream_values[OF assms(1)]
  define k where "k = length (filter (in_window ws we) samples)"
  define t where "t = tally p ws we samples"
  have k: "3 \<le> k" "k \<le> 1000000"
    unfolding k_def using assms(3) order_trans[OF length_filter_le assms(4)] by simp_all
  have "steady p 0 empty_tally" by (simp add: steady_def empty_tally_def)
  from foldl_tally_steady[OF assms(1,2) this] have st: "steady p k t"
    by (simp add: t_def tally_def k_def)
  have down: "unat (ty_downBytes t) = k * unat (UnitBytes p False)"
    using st unat_of_nat_mult[OF k(2) v(1)] by (simp add: steady_def)
  let ?m = "measured_activity p t ((fresh_activity p n (max (we - ws) 0))
      \<lparr>ha_Samples := ty_Samples t, ha_Errors := ty_Errors t, ha_LateSamples := ty_Late t\<rparr>)"
  have a: "SummarizeActivity p n samples ws we = ScoreHouseholdActivity p ?m"
    using st k by (simp add: SummarizeActivity_def t_def[symmetric] Let_def steady_def)
  have occ: "of_int (ty_occupiedMS t) / 1000 = real k * 2" "0 < ty_occupiedMS t"
    using st k by (simp_all add: steady_def v)
  have "real (unat (ty_downBytes t)) * 8 / (real k * 2) / 1000000 = real (unat (UnitBytes p False)) * 4 / 1000000"
    unfolding down using k(1) by (simp add: field_simps)
  then have rate: "real (unat (ty_downBytes t)) * 8 / (real k * 2) / 1000000 = av_DownMbps p" using v(2) by simp
  have ach: "ha_AchievedDownMbps ?m = av_DownMbps p"
    using occ k(1) rate v(3,5) by (simp add: measured_activity_def Let_def)
  have start: "ha_StartupMS ?m \<le> 1500"
    using st round_places_mono[of "ty_startup t" 1500 1] round_places_nat[of 1500 1]
    by (auto simp: measured_activity_def Let_def steady_def fresh_activity_def)
  have z: "ha_LatePct ?m = 0" "ha_LossPct ?m = 0" "ha_Samples ?m = int k" using st by (simp_all add: steady_def)
  have rt: "higherIsBetter (av_DownMbps p) (av_DownMbps p * 0.7) (av_DownMbps p * 0.98) = 100"
    using v(4) by (intro full_marks(2)) auto
  have "score_segments p ?m = (100, [])"
    unfolding score_segments_def Let_def ach z(1,2) v rt using start by (simp add: full_marks weak_def)
  then show ?thesis
    unfolding a using ach z(3) k(1) v(5,7) round_places_nat[of 100 1]
    by (simp add: ScoreHouseholdActivity_def clamp_def rating_def)
qed

definition good_segment :: "int \<Rightarrow> ActivitySample" where
  "good_segment due = \<lparr>sa_ScheduledMS = due, sa_StartedMS = due, sa_CompletedMS = due + 900, sa_FirstByteMS = due + 40,
     sa_Bytes = 3750000, sa_Upload = False, sa_Cold = False, sa_Failed = False\<rparr>"

theorem SummarizeActivity_on_time_stream_witness:
  "ha_Score (SummarizeActivity (hd HouseholdCatalog) 1 (map good_segment [0, 2000, 4000, 6000, 8000]) 2000 10000) = 100"
  by (rule SummarizeActivity_on_time_stream[THEN conjunct1])
     (simp_all add: good_segment_def on_time_def in_window_def HouseholdCatalog_def stream_profile_def
       empty_profile_def UnitBytes_def go_uint64_def Let_def)

section \<open>Properties of the verdict\<close>

lemma weakest_fold:
  "case foldl weaker w as of
     None \<Rightarrow> w = None \<and> (\<forall>a\<in>set as. \<not> ha_Available a)
   | Some m \<Rightarrow> (Some m = w \<or> (m \<in> set as \<and> ha_Available m))
       \<and> (\<forall>a\<in>set as. ha_Available a \<longrightarrow> ha_Score m \<le> ha_Score a)
       \<and> (\<forall>m'. w = Some m' \<longrightarrow> ha_Score m \<le> ha_Score m')"
proof (induction as arbitrary: w)
  case (Cons a as)
  from Cons.IH[of "weaker w a"] show ?case
    by (auto simp: weaker_def split: option.splits if_splits)
qed (auto split: option.split)

lemma weakest_activity_cases:
  obtains "weakest_activity as = None" "\<forall>a\<in>set as. \<not> ha_Available a"
  | m where "weakest_activity as = Some m" "m \<in> set as" "ha_Available m"
      "\<forall>a\<in>set as. ha_Available a \<longrightarrow> ha_Score m \<le> ha_Score a"
  using weakest_fold[of None as] by (auto simp: weakest_activity_def split: option.splits)

text \<open>Enough was observed of every requested activity.\<close>

definition conclusive :: "HouseholdResult \<Rightarrow> bool" where
  "conclusive r \<longleftrightarrow> hr_Activities r \<noteq> [] \<and> (\<forall>a\<in>set (hr_Activities r). ha_Available a)
     \<and> hr_StopReason r = StopEnoughEvidence \<and> HouseholdMinObserveMS \<le> hw_ObservedMS (hr_Window r)"

lemma SummarizeHousehold_status [simp]:
  "hr_Status (SummarizeHousehold r) = household_status r (weakest_activity (hr_Activities r))"
  by (simp add: SummarizeHousehold_def Let_def split: option.split)

text \<open>
  The weakest activity decides, never an average. With scored activities the mix passes
  exactly when the evidence is conclusive and every activity scores at least 80; it struggles when
  all reach 60 and one stays below 80; it fails when one stays below 60; and it is insufficient
  exactly when the evidence is not conclusive. The weakest score recorded is a lower bound of all.
\<close>

theorem SummarizeHousehold_verdict:
  assumes "\<forall>a\<in>set (hr_Activities r). scored a"
  shows "(hr_Status (SummarizeHousehold r) = HouseholdStatusPass \<longleftrightarrow>
            conclusive r \<and> (\<forall>a\<in>set (hr_Activities r). 80 \<le> ha_Score a))
    \<and> (hr_Status (SummarizeHousehold r) = HouseholdStatusStruggle \<longleftrightarrow>
            conclusive r \<and> (\<forall>a\<in>set (hr_Activities r). 60 \<le> ha_Score a) \<and> (\<exists>a\<in>set (hr_Activities r). ha_Score a < 80))
    \<and> (hr_Status (SummarizeHousehold r) = HouseholdStatusFail \<longleftrightarrow>
            conclusive r \<and> (\<exists>a\<in>set (hr_Activities r). ha_Score a < 60))
    \<and> (hr_Status (SummarizeHousehold r) = HouseholdStatusInsufficient \<longleftrightarrow> \<not> conclusive r)
    \<and> (conclusive r \<longrightarrow> (\<forall>a\<in>set (hr_Activities r). hr_WeakestScore (SummarizeHousehold r) \<le> ha_Score a))"
proof (rule weakest_activity_cases[of "hr_Activities r"])
  assume w: "weakest_activity (hr_Activities r) = None" and n: "\<forall>a\<in>set (hr_Activities r). \<not> ha_Available a"
  then have "\<not> conclusive r" by (auto simp: conclusive_def neq_Nil_conv)
  then show ?thesis using w by (simp add: household_status_def)
next
  fix m assume w: "weakest_activity (hr_Activities r) = Some m" and m: "m \<in> set (hr_Activities r)" "ha_Available m"
    and least: "\<forall>a\<in>set (hr_Activities r). ha_Available a \<longrightarrow> ha_Score m \<le> ha_Score a"
  have score: "hr_WeakestScore (SummarizeHousehold r) = ha_Score m"
    using w by (simp add: SummarizeHousehold_def Let_def)
  have rt: "ha_Rating m = rating (ha_Score m)" using assms m by (auto simp: scored_def)
  show ?thesis
  proof (cases "conclusive r")
    case False
    with w m show ?thesis by (auto simp: household_status_def conclusive_def)
  next
    case True
    then have all: "\<forall>a\<in>set (hr_Activities r). ha_Score m \<le> ha_Score a" using least by (auto simp: conclusive_def)
    have st: "household_status r (Some m) = (if 80 \<le> ha_Score m then HouseholdStatusPass
        else if 60 \<le> ha_Score m then HouseholdStatusStruggle else HouseholdStatusFail)"
      using True rt by (auto simp: household_status_def conclusive_def rating_def)
    have b: "(\<forall>a\<in>set (hr_Activities r). c \<le> ha_Score a) = (c \<le> ha_Score m)"
      "(\<exists>a\<in>set (hr_Activities r). ha_Score a < c) = (ha_Score m < c)" for c
      using all m(1) by force+
    show ?thesis using True all by (simp add: w score st b)
  qed
qed

definition sample_result :: "HouseholdActivity list \<Rightarrow> HouseholdResult" where
  "sample_result as = \<lparr>hr_ScenarioVersion = 0, hr_ScorerVersion = 0, hr_Transport = ''https'',
     hr_Mix = DefaultHouseholdMix, hr_MixSource = ''default'', hr_MixRevision = '''', hr_Status = '''',
     hr_Weakest = '''', hr_WeakestScore = 0, hr_Summary = '''',
     hr_Window = \<lparr>hw_StartMS = 0, hw_EndMS = 12000, hw_WarmupMS = 2000, hw_ObservedMS = 12000, hw_PlannedMS = 12000\<rparr>,
     hr_Ledger = \<lparr>hl_CapBytes = 0, hl_PlannedBytes = 0, hl_UsedBytes = 0, hl_DownloadBytes = 0, hl_UploadBytes = 0, hl_ProbeBytes = 0\<rparr>,
     hr_StopReason = StopEnoughEvidence, hr_Reference = None, hr_Activities = as\<rparr>"

theorem SummarizeHousehold_verdict_witness:
  "hr_Status (SummarizeHousehold (sample_result
     [(fresh_activity (hd HouseholdCatalog) 1 12000)\<lparr>ha_Available := True, ha_Score := 100, ha_Rating := RatingGood\<rparr>,
      (fresh_activity (HouseholdCatalog ! 4) 1 12000)\<lparr>ha_Available := True, ha_Score := 70, ha_Rating := RatingAverage\<rparr>]))
   = HouseholdStatusStruggle"
  by (subst SummarizeHousehold_verdict[THEN conjunct2, THEN conjunct1])
     (simp_all add: sample_result_def scored_def fresh_activity_def rating_def conclusive_def)

section \<open>Properties of the stagger\<close>

definition same_stream :: "string \<Rightarrow> ActivityProfile \<Rightarrow> bool" where
  "same_stream key a \<longleftrightarrow> av_Pattern a = PatternSegments \<and> av_Key a = key"

lemma stagger_counts_eq: "stagger_counts as key = int (length (filter (same_stream key) as))"
proof -
  have "foldl (\<lambda>counts a. if av_Pattern a = PatternSegments then counts(av_Key a := counts (av_Key a) + 1) else counts) c as key
      = c key + int (length (filter (same_stream key) as))" for c
    by (induction as arbitrary: c) (auto simp: same_stream_def)
  from this[of "\<lambda>_. 0"] show ?thesis by (simp add: stagger_counts_def)
qed

lemma length_stagger_from [simp]: "length (stagger_from c s as) = length as"
  by (induction as arbitrary: s) auto

lemma stagger_from_nth:
  "i < length as \<Longrightarrow> stagger_from c s as ! i =
     (if av_Pattern (as ! i) \<noteq> PatternSegments \<or> c (av_Key (as ! i)) < 2 then 0
      else (s (av_Key (as ! i)) + int (length (filter (same_stream (av_Key (as ! i))) (take i as))))
             * av_IntervalMS (as ! i) div c (av_Key (as ! i)))"
proof (induction as arbitrary: s i)
  case (Cons a as)
  show ?case
  proof (cases i)
    case 0
    then show ?thesis by simp
  next
    case (Suc j)
    define K where "K = av_Key (as ! j)"
    define s' where "s' = (if av_Pattern a \<noteq> PatternSegments \<or> c (av_Key a) < 2 then s
      else s(av_Key a := s (av_Key a) + 1))"
    define n where "n = int (length (filter (same_stream K) (take j as)))"
    have f: "int (length (filter (same_stream K) (take (Suc j) (a # as)))) = (if same_stream K a then 1 else 0) + n"
      by (simp add: n_def)
    have "stagger_from c s (a # as) ! i = stagger_from c s' as ! j" by (simp add: Suc s'_def)
    also have "\<dots> = (if av_Pattern (as ! j) \<noteq> PatternSegments \<or> c K < 2 then 0
        else (s' K + n) * av_IntervalMS (as ! j) div c K)"
      using Cons.IH[of j s'] Cons.prems Suc by (simp add: K_def n_def)
    also have "\<dots> = (if av_Pattern (as ! j) \<noteq> PatternSegments \<or> c K < 2 then 0
        else (s K + ((if same_stream K a then 1 else 0) + n)) * av_IntervalMS (as ! j) div c K)"
      by (auto simp: s'_def same_stream_def add.assoc)
    finally show ?thesis unfolding Suc nth_Cons_Suc K_def[symmetric] f .
  qed
qed simp

lemma earlier_streams:
  assumes "i < j" "j < length as" "same_stream key (as ! i)"
  shows "length (filter (same_stream key) (take i as)) < length (filter (same_stream key) (take j as))"
proof -
  have "take j as = take i as @ as ! i # drop (Suc i) (take j as)"
    using assms(1,2) id_take_nth_drop[of i "take j as"] by simp
  then have "filter (same_stream key) (take j as)
      = filter (same_stream key) (take i as) @ as ! i # filter (same_stream key) (drop (Suc i) (take j as))"
    using assms(3) by (metis (no_types) filter.simps(2) filter_append)
  then show ?thesis by simp
qed

lemma earlier_lt_count:
  assumes "i < length as" "same_stream key (as ! i)"
  shows "length (filter (same_stream key) (take i as)) < length (filter (same_stream key) as)"
proof -
  have "as = take i as @ as ! i # drop (Suc i) as" using assms(1) by (rule id_take_nth_drop)
  then have "filter (same_stream key) as
      = filter (same_stream key) (take i as) @ as ! i # filter (same_stream key) (drop (Suc i) as)"
    using assms(2) by (metis (no_types) filter.simps(2) filter_append)
  then show ?thesis by simp
qed

lemma spread_strict:
  fixes e e' I c :: int
  assumes "e < e'" "c \<le> I" "0 < c"
  shows "e * I div c < e' * I div c"
proof -
  have "e * I div c + 1 = (e * I + c) div c" using assms(3) by simp
  also have "\<dots> \<le> (e * I + I) div c" using assms by (intro zdiv_mono1) auto
  also have "\<dots> = (e + 1) * I div c" by (simp add: algebra_simps)
  also have "\<dots> \<le> e' * I div c" using assms by (intro zdiv_mono1 mult_right_mono) auto
  finally show ?thesis by simp
qed

text \<open>
  Streams of the same kind never fetch at the same instant: in any activity list, two
  segment streams with the same key and interval start at different offsets, in list order, and
  every offset lies inside the interval, as long as there are no more of them than the interval
  has milliseconds. Every other activity starts at once.
\<close>

theorem StaggerOffsets_spread:
  assumes "i < j" "j < length as" "same_stream key (as ! i)" "same_stream key (as ! j)"
    "av_IntervalMS (as ! i) = av_IntervalMS (as ! j)" "int (length as) \<le> av_IntervalMS (as ! j)"
  shows "0 \<le> StaggerOffsets as ! i \<and> StaggerOffsets as ! i < StaggerOffsets as ! j
    \<and> StaggerOffsets as ! j < av_IntervalMS (as ! j)
    \<and> length (StaggerOffsets as) = length as
    \<and> (\<forall>k<length as. av_Pattern (as ! k) \<noteq> PatternSegments \<longrightarrow> StaggerOffsets as ! k = 0)"
proof -
  let ?c = "int (length (filter (same_stream key) as))"
  let ?e = "\<lambda>k. int (length (filter (same_stream key) (take k as)))"
  let ?I = "av_IntervalMS (as ! j)"
  have lt: "?e i < ?e j" "?e j < ?c"
    using earlier_streams[OF assms(1-3)] earlier_lt_count[OF assms(2,4)] by simp_all
  then have c2: "2 \<le> ?c" by simp
  have cI: "?c \<le> ?I" using assms(6) length_filter_le[of "same_stream key" as] by linarith
  have k: "av_Pattern (as ! i) = PatternSegments" "av_Key (as ! i) = key"
    "av_Pattern (as ! j) = PatternSegments" "av_Key (as ! j) = key"
    using assms(3,4) by (auto simp: same_stream_def)
  have off: "StaggerOffsets as ! i = ?e i * ?I div ?c" "StaggerOffsets as ! j = ?e j * ?I div ?c"
    using assms(1,2) c2 by (simp_all add: StaggerOffsets_def stagger_from_nth stagger_counts_eq k assms(5))
  have "?e j * ?I div ?c < ?c * ?I div ?c" using lt(2) cI c2 by (intro spread_strict) auto
  moreover have "?c * ?I div ?c = ?I" using c2 by (intro nonzero_mult_div_cancel_left) auto
  ultimately have "?e j * ?I div ?c < ?I" by (simp only:)
  moreover have "?e i * ?I div ?c < ?e j * ?I div ?c" using lt(1) cI c2 by (intro spread_strict) auto
  moreover have "0 \<le> ?e i * ?I div ?c" using cI c2 by (intro div_int_pos_iff[THEN iffD2]) auto
  moreover have "\<forall>k<length as. av_Pattern (as ! k) \<noteq> PatternSegments \<longrightarrow> StaggerOffsets as ! k = 0"
    by (simp add: StaggerOffsets_def stagger_from_nth)
  ultimately show ?thesis unfolding off by (simp add: StaggerOffsets_def)
qed

theorem StaggerOffsets_spread_witness:
  "StaggerOffsets (replicate 2 (hd HouseholdCatalog)) ! 0 < StaggerOffsets (replicate 2 (hd HouseholdCatalog)) ! 1"
  using StaggerOffsets_spread[of 0 1 "replicate 2 (hd HouseholdCatalog)" "''stream_uhd''"]
  by (simp add: same_stream_def HouseholdCatalog_def stream_profile_def)

end
