(* ===== verification/Protocol_Types.thy ===== *)
theory Protocol_Types
  imports Household
begin

text \<open>
  The messages of the sensor protocol, \<open>internal/protocol/types.go\<close>: one record per struct, one
  field per field, in the source's order. A pointer field is an option, a slice a list, a
  \<open>map[string]T\<close> an association list, \<open>json.RawMessage\<close> the bytes of the text, and \<open>any\<close> a
  JSON value.
\<close>

datatype json = JNull | JBool bool | JNum real | JStr string | JArr "json list"
  | JObj "(string \<times> json) list"

type_synonym TargetClass = string
type_synonym ProbeMethod = string

abbreviation "TargetGateway \<equiv> ''gateway''"
abbreviation "TargetController \<equiv> ''controller''"
abbreviation "TargetPublicAnchor \<equiv> ''public_anchor''"
abbreviation "TargetCustom \<equiv> ''custom''"
abbreviation "ProbeICMP \<equiv> ''icmp''"
abbreviation "ProbeTCPConnect \<equiv> ''tcp_connect''"
abbreviation "ProbeHTTPS \<equiv> ''https''"
abbreviation "ProfileHousehold \<equiv> ''household''"
abbreviation "ProfileSaturation \<equiv> ''saturation''"
abbreviation "ProfileContent \<equiv> ''content''"
abbreviation "ProfileCapacity \<equiv> ''capacity''"
abbreviation (input) HouseholdContractVersion :: int where "HouseholdContractVersion \<equiv> 3"

section \<open>Messages\<close>

record EnrollmentRequest =
  er_Token :: string
  er_SensorUID :: string
  er_Hostname :: string
  er_OS :: string
  er_Arch :: string
  er_AppVersion :: string

record SpeedProfileConfig =
  pc_Name :: string
  pc_Enabled :: bool
  pc_Windows :: "string list"
  pc_CadenceMinutes :: int
  pc_MinDurationSeconds :: int
  pc_MaxDurationSeconds :: int
  pc_MaxDownloadBytes :: u64
  pc_MaxUploadBytes :: u64
  pc_MaxConcurrentRequests :: int
  pc_MinSpacingMinutes :: int
  pc_AllowMetered :: bool
  pc_AllowOnBattery :: bool
  pc_CountsTowardExperience :: bool

record SensorConfig =
  sc_ContractVersion :: int
  sc_ProbeIntervalSeconds :: int
  sc_UploadIntervalSeconds :: int
  sc_DNSIntervalSeconds :: int
  sc_HTTPIntervalSeconds :: int
  sc_HeartbeatIntervalSeconds :: int
  sc_ProbeTargets :: "string list"
  sc_DNSDomains :: "string list"
  sc_DNSResolvers :: "string list"
  sc_HTTPTargets :: "string list"
  sc_DailyDataBudgetMB :: int
  sc_MonthlyDataBudgetMB :: int
  sc_SpeedTestWindows :: "string list"
  sc_SpeedTestCrossTrafficMbps :: real
  sc_SpeedTestMinSpacingMinutes :: int
  sc_SendSSID :: bool
  sc_SendNetworkIdentity :: bool
  sc_Paused :: bool
  sc_SpeedProfiles :: "SpeedProfileConfig list"
  sc_HouseholdMix :: "HouseholdMix option"

record EnrollmentResponse =
  en_SensorID :: string
  en_SensorSecret :: string
  en_SiteID :: string
  en_Config :: SensorConfig
  en_ConfigVersion :: int
  en_IngestURL :: string

record RTTSummary =
  rt_P50 :: real
  rt_P95 :: real
  rt_Min :: real
  rt_Max :: real

record MinuteMetric =
  mm_Timestamp :: int
  mm_Target :: string
  mm_RTT :: RTTSummary
  mm_JitterMS :: real
  mm_LossPct :: real
  mm_Samples :: int
  mm_Fallback :: string
  mm_TargetClass :: TargetClass
  mm_ProbeMethod :: ProbeMethod

record DNSCheck =
  dc_Timestamp :: int
  dc_Resolver :: string
  dc_Domain :: string
  dc_ColdMS :: real
  dc_WarmMS :: real
  dc_Status :: string
  dc_Hijack :: bool
  dc_Error :: string

record HTTPCheck =
  hk_Timestamp :: int
  hk_Target :: string
  hk_DNSMS :: real
  hk_ConnectMS :: real
  hk_TLSMS :: real
  hk_TTFBMS :: real
  hk_TotalMS :: real
  hk_Status :: int
  hk_TLSValid :: bool
  hk_Captive :: bool
  hk_Error :: string
  hk_TargetClass :: TargetClass
  hk_ProbeMethod :: ProbeMethod

record LinkAvailability =
  la_Interface :: bool
  la_LinkRate :: bool
  la_RSSI :: bool
  la_Noise :: bool
  la_SNR :: bool
  la_Frequency :: bool
  la_Channel :: bool
  la_ChannelWidth :: bool
  la_PHY :: bool
  la_Security :: bool
  la_Power :: bool
  la_Metered :: bool
  la_Association :: bool
  la_NetworkIdentity :: bool
  la_FirstHop :: bool

record LinkContext =
  lc_Timestamp :: int
  lc_InterfaceType :: string
  lc_LinkMbps :: real
  lc_TXLinkMbps :: real
  lc_RXLinkMbps :: real
  lc_RSSIDBm :: real
  lc_NoiseDBm :: real
  lc_SNRDB :: real
  lc_FrequencyMHz :: int
  lc_Channel :: int
  lc_ChannelWidthMHz :: int
  lc_PHY :: string
  lc_Security :: string
  lc_SSID :: string
  lc_Metered :: bool
  lc_OnBattery :: bool
  lc_BatteryPct :: real
  lc_GatewayChanged :: bool
  lc_ContextAvailable :: bool
  lc_AssociationChanged :: bool
  lc_NetworkID :: string
  lc_FirstHopID :: string
  lc_Availability :: LinkAvailability
  lc_RawNetworkIdentity :: string
  lc_RawFirstHop :: string

record Event =
  ev_Timestamp :: int
  ev_Type :: string
  ev_Detail :: "(string \<times> json) list"

record ThroughputResult =
  tr_BytesTransferred :: u64
  tr_DurationMS :: real
  tr_ThroughputMbps :: real
  tr_P75Mbps :: real
  tr_CapHit :: bool
  tr_TTFBMS :: real
  tr_Error :: string

record LatencyResult =
  lr_MinMS :: real
  lr_AvgMS :: real
  lr_MaxMS :: real
  lr_JitterMS :: real
  lr_PacketLossPct :: real
  lr_PacketLossValid :: bool
  lr_ProbesSent :: u32
  lr_LoadedAvgMS :: real
  lr_Target :: string
  lr_Error :: string

record LatencySummary =
  ls_Count :: u32
  ls_Attempts :: u32
  ls_MinMS :: real
  ls_P5MS :: real
  ls_P50MS :: real
  ls_P90MS :: real
  ls_P95MS :: real
  ls_P99MS :: real
  ls_MaxMS :: real
  ls_JitterIQRMS :: real
  ls_JitterMeanDeltaMS :: real
  ls_PacketLossPct :: real
  ls_PacketLossValid :: bool
  ls_Error :: string

record Responsiveness =
  rs_Baseline :: LatencySummary
  rs_DownloadLoaded :: LatencySummary
  rs_UploadLoaded :: LatencySummary
  rs_BidirectionalLoaded :: "LatencySummary option"
  rs_Cooldown :: "LatencySummary option"
  rs_DownloadBloatP90MS :: real
  rs_UploadBloatP90MS :: real
  rs_BidirectionalBloatP90MS :: real
  rs_DownloadGrade :: string
  rs_UploadGrade :: string
  rs_BidirectionalGrade :: string
  rs_OverallGrade :: string
  rs_PrimaryDriver :: string
  rs_ConfidenceLevel :: string
  rs_ConfidenceReasons :: "string list"
  rs_Profile :: string
  rs_BidirectionalCountsTowardOverall :: bool
  rs_BidirectionalDownload :: "ThroughputResult option"
  rs_BidirectionalUpload :: "ThroughputResult option"
  rs_TotalDownloadBytes :: u64
  rs_TotalUploadBytes :: u64

record TrafficContext =
  tc_CrossTrafficMbps :: real
  tc_Contaminated :: bool
  tc_Metered :: bool
  tc_MeteredAvailable :: bool
  tc_OnBattery :: bool
  tc_PowerAvailable :: bool
  tc_BatteryPct :: real
  tc_Override :: bool

record PhaseEvidence =
  pe_MinDurationMS :: int
  pe_MaxDurationMS :: int
  pe_StartMS :: int
  pe_EndMS :: int
  pe_Buckets :: "Bucket list"
  pe_StableRegion :: StableRegion

record PathLatency =
  py_Samples :: int
  py_Successes :: int
  py_P50MS :: real
  py_P95MS :: real
  py_LossPct :: real

record PathResponsiveness =
  pr_Persistent :: PathLatency
  pr_Fresh :: PathLatency

record SpeedTest =
  st_MeasurementID :: string
  st_Profile :: string
  st_Timestamp :: int
  st_Download :: ThroughputResult
  st_Upload :: ThroughputResult
  st_Latency :: LatencyResult
  st_EndpointHost :: string
  st_CPUBusyPct :: real
  st_DurationMS :: real
  st_Responsiveness :: Responsiveness
  st_TrafficContext :: TrafficContext
  st_Budget :: Budget
  st_Phases :: "(string \<times> PhaseEvidence) list"
  st_Paths :: PathResponsiveness
  st_Experience :: Experience
  st_ExperienceEligible :: bool
  st_ExclusionReason :: string
  st_MeasurementConfidence :: Confidence
  st_Household :: "HouseholdResult option"

record Batch =
  bt_BatchID :: string
  bt_Sequence :: int
  bt_SensorClock :: int
  bt_AppVersion :: string
  bt_ConfigVersion :: int
  bt_MinuteMetrics :: "MinuteMetric list"
  bt_DNSChecks :: "DNSCheck list"
  bt_HTTPChecks :: "HTTPCheck list"
  bt_LinkContext :: "LinkContext list"
  bt_SpeedTests :: "string list"
  bt_Events :: "Event list"

record SpeedTestRequest =
  sq_Nonce :: string
  sq_Profile :: string
  sq_IssuedAt :: int
  sq_ExpiresAt :: int
  sq_Signature :: string

record IngestResponse =
  ir_ConfigVersion :: int
  ir_Duplicate :: bool
  ir_RejectedRecords :: int
  ir_BufferDepth :: int
  ir_SpeedTestRequest :: "SpeedTestRequest option"

record ConfigResponse =
  cr_Config :: SensorConfig
  cr_ConfigVersion :: int

record HeartbeatRequest =
  hq_AppVersion :: string
  hq_UptimeSeconds :: int
  hq_SpoolRecords :: int
  hq_SpoolBytes :: int

record HeartbeatResponse =
  hb_ConfigVersion :: int
  hb_SpeedTestRequest :: "SpeedTestRequest option"

record SpeedTestProgress =
  sg_MeasurementID :: string
  sg_Profile :: string
  sg_Phase :: string
  sg_ElapsedMS :: int
  sg_DownloadMbps :: real
  sg_UploadMbps :: real
  sg_DownloadBytes :: u64
  sg_UploadBytes :: u64
  sg_RTTMS :: real
  sg_BaselineP50MS :: real
  sg_Done :: bool

end
