(* ===== verification/Network_Safety.thy ===== *)
theory Network_Safety
  imports Protocol_Types
begin

unbundle bit_operations_syntax

text \<open>
  The destinations a controller may make the sensor contact, \<open>internal/protocol/network_safety.go\<close>.
  An address is what \<open>net.IP\<close> and \<open>netip.Addr\<close> hold: 4 or 16 bytes, here a word of that size. The
  predicates of \<open>net.IP\<close> and the address parser of \<open>net/netip\<close> are Go's standard library and are
  written out as that library defines them.
\<close>

section \<open>Addresses\<close>

datatype IP = IP4 u32 | IP16 "128 word"

text \<open>\<open>To4\<close>: the four bytes of an IPv4 address, also when it is mapped into IPv6.\<close>

definition To4 :: "IP \<Rightarrow> u32 option" where
  "To4 ip = (case ip of IP4 w \<Rightarrow> Some w
     | IP16 w \<Rightarrow> if drop_bit 32 w = 0xFFFF then Some (ucast w) else None)"

definition map_v4 :: "u32 \<Rightarrow> IP" where
  "map_v4 w = IP16 (0xFFFF00000000 OR ucast w)"

definition Unmap :: "IP \<Rightarrow> IP" where
  "Unmap ip = (case To4 ip of Some w \<Rightarrow> IP4 w | None \<Rightarrow> ip)"

definition byte4 :: "u32 \<Rightarrow> nat \<Rightarrow> u32" where
  "byte4 w i = drop_bit (24 - 8 * i) w AND 0xFF"

definition byte16 :: "128 word \<Rightarrow> nat \<Rightarrow> 128 word" where
  "byte16 w i = drop_bit (120 - 8 * i) w AND 0xFF"

definition IsUnspecified :: "IP \<Rightarrow> bool" where
  "IsUnspecified ip \<longleftrightarrow> To4 ip = Some 0 \<or> ip = IP16 0"

definition IsLoopback :: "IP \<Rightarrow> bool" where
  "IsLoopback ip = (case To4 ip of Some w \<Rightarrow> byte4 w 0 = 127 | None \<Rightarrow> ip = IP16 1)"

definition IsPrivate :: "IP \<Rightarrow> bool" where
  "IsPrivate ip = (case To4 ip of
      Some w \<Rightarrow> byte4 w 0 = 10 \<or> (byte4 w 0 = 172 \<and> byte4 w 1 AND 0xF0 = 16)
               \<or> (byte4 w 0 = 192 \<and> byte4 w 1 = 168)
    | None \<Rightarrow> (case ip of IP16 w \<Rightarrow> byte16 w 0 AND 0xFE = 0xFC | IP4 _ \<Rightarrow> False))"

definition IsMulticast :: "IP \<Rightarrow> bool" where
  "IsMulticast ip = (case To4 ip of Some w \<Rightarrow> byte4 w 0 AND 0xF0 = 0xE0
    | None \<Rightarrow> (case ip of IP16 w \<Rightarrow> byte16 w 0 = 0xFF | IP4 _ \<Rightarrow> False))"

definition IsLinkLocalMulticast :: "IP \<Rightarrow> bool" where
  "IsLinkLocalMulticast ip = (case To4 ip of
      Some w \<Rightarrow> byte4 w 0 = 224 \<and> byte4 w 1 = 0 \<and> byte4 w 2 = 0
    | None \<Rightarrow> (case ip of IP16 w \<Rightarrow> byte16 w 0 = 0xFF \<and> byte16 w 1 AND 0x0F = 0x02 | IP4 _ \<Rightarrow> False))"

definition IsLinkLocalUnicast :: "IP \<Rightarrow> bool" where
  "IsLinkLocalUnicast ip = (case To4 ip of
      Some w \<Rightarrow> byte4 w 0 = 169 \<and> byte4 w 1 = 254
    | None \<Rightarrow> (case ip of IP16 w \<Rightarrow> byte16 w 0 = 0xFE \<and> byte16 w 1 AND 0xC0 = 0x80 | IP4 _ \<Rightarrow> False))"

definition IsGlobalUnicast :: "IP \<Rightarrow> bool" where
  "IsGlobalUnicast ip \<longleftrightarrow> To4 ip \<noteq> Some 0xFFFFFFFF \<and> \<not> IsUnspecified ip \<and> \<not> IsLoopback ip
     \<and> \<not> IsMulticast ip \<and> \<not> IsLinkLocalUnicast ip"

section \<open>Public addresses\<close>

text \<open>A prefix is its first address and its length in bits.\<close>

datatype Prefix = Prefix4 u32 nat | Prefix6 "128 word" nat

definition v4 :: "u32 \<Rightarrow> u32 \<Rightarrow> u32 \<Rightarrow> u32 \<Rightarrow> u32" where
  "v4 a b c d = push_bit 24 a OR push_bit 16 b OR push_bit 8 c OR d"

fun Contains :: "Prefix \<Rightarrow> IP \<Rightarrow> bool" where
  "Contains (Prefix4 base n) (IP4 w) = (drop_bit (32 - n) w = drop_bit (32 - n) base)"
| "Contains (Prefix6 base n) (IP16 w) = (drop_bit (128 - n) w = drop_bit (128 - n) base)"
| "Contains _ _ = False"

definition nonPublicPrefixes :: "Prefix list" where
  "nonPublicPrefixes =
     [Prefix4 (v4 0 0 0 0) 8, Prefix4 (v4 10 0 0 0) 8, Prefix4 (v4 100 64 0 0) 10,
      Prefix4 (v4 127 0 0 0) 8, Prefix4 (v4 169 254 0 0) 16, Prefix4 (v4 172 16 0 0) 12,
      Prefix4 (v4 192 0 0 0) 24, Prefix4 (v4 192 0 2 0) 24, Prefix4 (v4 192 168 0 0) 16,
      Prefix4 (v4 198 18 0 0) 15, Prefix4 (v4 198 51 100 0) 24, Prefix4 (v4 203 0 113 0) 24,
      Prefix4 (v4 224 0 0 0) 4, Prefix4 (v4 240 0 0 0) 4,
      Prefix6 0 128, Prefix6 1 128, Prefix6 (0x0100 * 2 ^ 112) 64,
      Prefix6 (0x0064FF9B0001 * 2 ^ 80) 48, Prefix6 (0x20010DB8 * 2 ^ 96) 32,
      Prefix6 (0xFC00 * 2 ^ 112) 7, Prefix6 (0xFE80 * 2 ^ 112) 10, Prefix6 (0xFF00 * 2 ^ 112) 8]"

definition IsPublicIP :: "IP option \<Rightarrow> bool" where
  "IsPublicIP ip0 =
     (case ip0 of None \<Rightarrow> False
      | Some ip \<Rightarrow>
          if \<not> IsGlobalUnicast ip \<or> IsPrivate ip \<or> IsLoopback ip \<or> IsLinkLocalUnicast ip
             \<or> IsLinkLocalMulticast ip \<or> IsUnspecified ip then False
          else \<not> list_ex (\<lambda>p. Contains p (Unmap ip)) nonPublicPrefixes)"

section \<open>Parsing addresses\<close>

text \<open>\<open>netip.ParseAddr\<close> without a zone: four decimal fields, or hexadecimal groups.\<close>

definition parse_octet :: "string \<Rightarrow> u32 option" where
  "parse_octet s =
     (if s = [] \<or> length s > 3 \<or> \<not> list_all is_digit s \<or> (length s > 1 \<and> hd s = CHR ''0'') then None
      else if digits_val 0 s > 255 then None else Some (word_of_int (digits_val 0 s)))"

definition parse_v4 :: "string \<Rightarrow> u32 option" where
  "parse_v4 s = (case map parse_octet (split_at CHR ''.'' s) of
      [Some a, Some b, Some c, Some d] \<Rightarrow> Some (v4 a b c d)
    | _ \<Rightarrow> None)"

definition hex_val :: "char \<Rightarrow> nat option" where
  "hex_val c = (let n = (of_char c :: nat) in
     if 48 \<le> n \<and> n \<le> 57 then Some (n - 48)
     else if 97 \<le> n \<and> n \<le> 102 then Some (n - 87)
     else if 65 \<le> n \<and> n \<le> 70 then Some (n - 55) else None)"

definition hex_group :: "string \<Rightarrow> nat option" where
  "hex_group s = (if s = [] \<or> length s > 4 \<or> \<not> list_all (\<lambda>c. hex_val c \<noteq> None) s then None
     else Some (foldl (\<lambda>a c. 16 * a + the (hex_val c)) 0 s))"

text \<open>The 16-bit groups of a colon-separated field list; the last may be an IPv4 address.\<close>

fun hex_groups :: "string list \<Rightarrow> nat list option" where
  "hex_groups [] = Some []"
| "hex_groups [f] = (case hex_group f of Some g \<Rightarrow> Some [g]
     | None \<Rightarrow> (case parse_v4 f of
         Some w \<Rightarrow> Some [unat (drop_bit 16 w), unat (w AND 0xFFFF)] | None \<Rightarrow> None))"
| "hex_groups (f # fs) = (case (hex_group f, hex_groups fs) of
     (Some g, Some gs) \<Rightarrow> Some (g # gs) | _ \<Rightarrow> None)"

definition groups_word :: "nat list \<Rightarrow> 128 word" where
  "groups_word gs = word_of_nat (foldl (\<lambda>a g. 65536 * a + g) 0 gs)"

text \<open>The text before and after the first double colon.\<close>

fun cut_double :: "string \<Rightarrow> (string \<times> string) option" where
  "cut_double (x # y # s) = (if x = CHR '':'' \<and> y = CHR '':'' then Some ([], s)
     else map_option (\<lambda>(a, b). (x # a, b)) (cut_double (y # s)))"
| "cut_double _ = None"

definition field_groups :: "string \<Rightarrow> nat list option" where
  "field_groups s = (if s = [] then Some [] else hex_groups (split_at CHR '':'' s))"

definition parse_v6 :: "string \<Rightarrow> (128 word) option" where
  "parse_v6 s =
     (case cut_double s of
        None \<Rightarrow> (case field_groups s of
            Some gs \<Rightarrow> if length gs = 8 then Some (groups_word gs) else None
          | None \<Rightarrow> None)
      | Some (a, b) \<Rightarrow>
          if CHR ''.'' \<in> set a then None
          else (case (field_groups a, field_groups b) of
            (Some ga, Some gb) \<Rightarrow>
              if length ga + length gb \<le> 7
              then Some (groups_word (ga @ replicate (8 - length ga - length gb) 0 @ gb)) else None
          | _ \<Rightarrow> None))"

text \<open>The first dot or colon decides the family.\<close>

definition ParseAddr :: "string \<Rightarrow> IP option" where
  "ParseAddr s =
     (case dropWhile (\<lambda>c. c \<noteq> CHR ''.'' \<and> c \<noteq> CHR '':'') s of
        [] \<Rightarrow> None
      | c # _ \<Rightarrow> if c = CHR ''.'' then map_option IP4 (parse_v4 s) else map_option IP16 (parse_v6 s))"

section \<open>Hosts\<close>

definition normal_host :: "string \<Rightarrow> string" where
  "normal_host host = trim_suffix (to_lower (trim_space host)) ''.''"

definition IsSafePublicHost :: "string \<Rightarrow> bool" where
  "IsSafePublicHost host0 =
     (let host = normal_host host0
      in if host = '''' \<or> host = ''localhost'' \<or> has_suffix host ''.localhost''
            \<or> has_suffix host ''.local'' \<or> has_suffix host ''.internal'' then False
         else let withoutZone = (case cut CHR ''%'' host of Some (a, _) \<Rightarrow> a | None \<Rightarrow> host)
              in case ParseAddr withoutZone of
                   Some ip \<Rightarrow> IsPublicIP (Some ip)
                 | None \<Rightarrow> CHR ''.'' \<in> set host)"

section \<open>Dialling\<close>

text \<open>\<open>interleaveFamilies\<close>: the index loop takes one address of each family per round.\<close>

fun alternate :: "IP list \<Rightarrow> IP list \<Rightarrow> IP list" where
  "alternate [] bs = bs"
| "alternate (a # as) [] = a # as"
| "alternate (a # as) (b # bs) = a # b # alternate as bs"

definition interleaveFamilies :: "IP list \<Rightarrow> IP list" where
  "interleaveFamilies addresses =
     (let public = filter (\<lambda>ip. IsPublicIP (Some ip)) addresses;
          v4s = filter (\<lambda>ip. To4 ip \<noteq> None) public;
          v6s = filter (\<lambda>ip. To4 ip = None) public
      in alternate v6s v4s)"

text \<open>\<open>shareDeadline\<close>: the time one attempt gets, given the time left and the attempts left.\<close>

definition shareDeadline :: "duration option \<Rightarrow> int \<Rightarrow> duration option" where
  "shareDeadline remaining attempts =
     (case remaining of None \<Rightarrow> None
      | Some r \<Rightarrow> if attempts \<le> 1 then Some r else Some (max (r div attempts) (2 * Second)))"

text \<open>
  \<open>DialPublicContext\<close>: the address is split, checked, resolved and its public candidates tried in
  turn until one connects or the context ends. The resolver, the dialler and the context are
  arguments: \<open>dial\<close> answers one attempt, \<open>ended\<close> says whether the context is over after it.
\<close>

datatype dial_error = MissingPort | RejectedTarget | LookupFailed string | DialFailed string | NoPublicAddress

fun try_candidates :: "(IP \<Rightarrow> string + 'c) \<Rightarrow> (IP \<Rightarrow> bool) \<Rightarrow> string option \<Rightarrow> IP list \<Rightarrow> dial_error + 'c" where
  "try_candidates dial ended lastErr [] =
     (case lastErr of Some e \<Rightarrow> Inl (DialFailed e) | None \<Rightarrow> Inl NoPublicAddress)"
| "try_candidates dial ended lastErr (ip # ips) =
     (case dial ip of
        Inr c \<Rightarrow> Inr c
      | Inl e \<Rightarrow> if ended ip then Inl (DialFailed e) else try_candidates dial ended (Some e) ips)"

text \<open>\<open>net.SplitHostPort\<close>: the host may be bracketed; without brackets it has no colon.\<close>

fun cut_last :: "char \<Rightarrow> string \<Rightarrow> (string \<times> string) option" where
  "cut_last c s = map_option (\<lambda>(a, b). (rev b, rev a)) (cut c (rev s))"

definition SplitHostPort :: "string \<Rightarrow> (string \<times> string) option" where
  "SplitHostPort s =
     (case cut_last CHR '':'' s of
        None \<Rightarrow> None
      | Some (before, port) \<Rightarrow>
          let bracket = (\<lambda>c. c = CHR ''['' \<or> c = CHR '']'') in
          if s \<noteq> [] \<and> hd s = CHR ''[''
          then (case cut CHR '']'' (tl s) of
                  None \<Rightarrow> None
                | Some (host, rest) \<Rightarrow>
                    if rest = CHR '':'' # port \<and> \<not> list_ex bracket host \<and> \<not> list_ex bracket port
                    then Some (host, port) else None)
          else if CHR '':'' \<in> set before \<or> list_ex bracket s then None
          else Some (before, port))"

definition DialPublicContext ::
    "(string \<Rightarrow> string + IP list) \<Rightarrow> (IP \<Rightarrow> string \<Rightarrow> string + 'c) \<Rightarrow> (IP \<Rightarrow> bool) \<Rightarrow> string \<Rightarrow> dial_error + 'c" where
  "DialPublicContext lookup dial ended address =
     (case SplitHostPort address of
        None \<Rightarrow> Inl MissingPort
      | Some (host, port) \<Rightarrow>
          if \<not> IsSafePublicHost host then Inl RejectedTarget
          else (case lookup host of
                  Inl e \<Rightarrow> Inl (LookupFailed e)
                | Inr ips \<Rightarrow> try_candidates (\<lambda>ip. dial ip port) ended None (interleaveFamilies ips)))"

section \<open>Properties\<close>

lemma To4_map_v4 [simp]: "To4 (map_v4 w) = Some w"
proof -
  have m: "(0xFFFF00000000 :: 128 word) = push_bit 32 (mask 16)" "(0xFFFF :: 128 word) = mask 16"
    by (simp_all add: mask_eq_exp_minus_1)
  have "drop_bit 32 (0xFFFF00000000 OR ucast w :: 128 word) = 0xFFFF"
    unfolding m by (rule bit_eqI) (auto simp: bit_simps dest: bit_imp_le_length)
  moreover have "(ucast (0xFFFF00000000 OR ucast w :: 128 word) :: u32) = w"
    unfolding m by (rule bit_eqI) (auto simp: bit_simps dest: bit_imp_le_length)
  ultimately show ?thesis by (simp add: To4_def map_v4_def)
qed

lemma To4_IP4 [simp]: "To4 (IP4 w) = Some w"
  by (simp add: To4_def)

lemma byte_mask: "(0xFF :: u32) = mask 8" "(0xF0 :: u32) = push_bit 4 (mask 4)"
  by (simp_all add: mask_eq_exp_minus_1)

lemma top_bits:
  fixes w :: u32
  shows "byte4 w 0 = drop_bit 24 w"
    and "drop_bit 16 w = push_bit 8 (byte4 w 0) OR byte4 w 1"
    and "drop_bit 20 w = push_bit 4 (byte4 w 0) OR drop_bit 4 (byte4 w 1 AND 0xF0)"
    and "drop_bit 28 w = drop_bit 4 (byte4 w 0 AND 0xF0)"
  unfolding byte4_def byte_mask
  by (rule bit_eqI; auto simp: bit_simps dest: bit_imp_le_length)+

lemma bytes_in_prefix:
  fixes w :: u32
  shows "byte4 w 0 = 192 \<Longrightarrow> byte4 w 1 = 168 \<Longrightarrow> drop_bit 16 w = 0xC0A8"
    and "byte4 w 0 = 169 \<Longrightarrow> byte4 w 1 = 254 \<Longrightarrow> drop_bit 16 w = 0xA9FE"
    and "byte4 w 0 = 172 \<Longrightarrow> byte4 w 1 AND 0xF0 = 16 \<Longrightarrow> drop_bit 20 w = 0xAC1"
    and "byte4 w 0 AND 0xF0 = 0xE0 \<Longrightarrow> drop_bit 28 w = 0xE"
    and "byte4 w 0 = 224 \<Longrightarrow> drop_bit 28 w = 0xE"
  using top_bits(2,3,4)[of w] by simp_all

definition nonpublic_v4 :: "(u32 \<times> nat) list" where
  "nonpublic_v4 = [(v4 0 0 0 0, 8), (v4 10 0 0 0, 8), (v4 100 64 0 0, 10), (v4 127 0 0 0, 8),
     (v4 169 254 0 0, 16), (v4 172 16 0 0, 12), (v4 192 0 0 0, 24), (v4 192 0 2 0, 24),
     (v4 192 168 0 0, 16), (v4 198 18 0 0, 15), (v4 198 51 100 0, 24), (v4 203 0 113 0, 24),
     (v4 224 0 0 0, 4), (v4 240 0 0 0, 4)]"

lemma reserved_v4:
  "list_ex (\<lambda>p. Contains p (IP4 w)) nonPublicPrefixes
   = (\<exists>(base, n)\<in>set nonpublic_v4. drop_bit (32 - n) w = drop_bit (32 - n) base)"
  by (simp add: nonPublicPrefixes_def nonpublic_v4_def)

lemma prefix_values:
  "drop_bit 24 (v4 127 0 0 0) = 127" "drop_bit 24 (v4 10 0 0 0) = 10" "drop_bit 24 (v4 0 0 0 0) = 0"
  "drop_bit 16 (v4 192 168 0 0) = 0xC0A8" "drop_bit 16 (v4 169 254 0 0) = 0xA9FE"
  "drop_bit 20 (v4 172 16 0 0) = 0xAC1" "drop_bit 28 (v4 224 0 0 0) = 0xE" "drop_bit 28 (v4 240 0 0 0) = 0xF"
  by (simp_all add: v4_def)

lemma library_checks_reserved:
  assumes "IsUnspecified (IP4 w) \<or> IsLoopback (IP4 w) \<or> IsPrivate (IP4 w) \<or> IsMulticast (IP4 w)
    \<or> IsLinkLocalMulticast (IP4 w) \<or> IsLinkLocalUnicast (IP4 w) \<or> w = 0xFFFFFFFF"
  shows "\<exists>(base, n)\<in>set nonpublic_v4. drop_bit (32 - n) w = drop_bit (32 - n) base"
proof -
  consider "w = 0" | "byte4 w 0 = 127" | "byte4 w 0 = 10" | "byte4 w 0 = 172" "byte4 w 1 AND 0xF0 = 16"
    | "byte4 w 0 = 192" "byte4 w 1 = 168" | "byte4 w 0 AND 0xF0 = 0xE0" | "byte4 w 0 = 224"
    | "byte4 w 0 = 169" "byte4 w 1 = 254" | "w = 0xFFFFFFFF"
    using assms by (auto simp: IsUnspecified_def IsLoopback_def IsPrivate_def IsMulticast_def
        IsLinkLocalMulticast_def IsLinkLocalUnicast_def)
  then show ?thesis
    using bytes_in_prefix[of w] top_bits(1)[of w]
    by cases (simp_all add: nonpublic_v4_def prefix_values)
qed

lemma map_v4_not [simp]: "map_v4 w \<noteq> IP16 0" "map_v4 w \<noteq> IP16 1"
proof -
  have "To4 (IP16 0) = None" "To4 (IP16 1) = None" by (simp_all add: To4_def)
  then show "map_v4 w \<noteq> IP16 0" "map_v4 w \<noteq> IP16 1" by (metis To4_map_v4 option.simps(3))+
qed

text \<open>
  An IPv4 address is contacted exactly when it lies in none of the fourteen reserved blocks:
  the checks of the standard library (private, loopback, link-local, multicast, broadcast,
  unspecified) exclude nothing the list does not. Hiding the address in IPv6 form changes nothing.
\<close>

theorem IsPublicIP_v4_iff:
  "IsPublicIP (Some (IP4 w)) = (\<forall>(base, n)\<in>set nonpublic_v4. drop_bit (32 - n) w \<noteq> drop_bit (32 - n) base)
   \<and> IsPublicIP (Some (map_v4 w)) = IsPublicIP (Some (IP4 w))"
proof
  show "IsPublicIP (Some (map_v4 w)) = IsPublicIP (Some (IP4 w))"
    by (simp add: IsPublicIP_def IsGlobalUnicast_def IsPrivate_def IsLoopback_def IsLinkLocalUnicast_def
        IsLinkLocalMulticast_def IsUnspecified_def IsMulticast_def Unmap_def)
  have "IsPublicIP (Some (IP4 w)) \<longleftrightarrow> \<not> (IsUnspecified (IP4 w) \<or> IsLoopback (IP4 w) \<or> IsPrivate (IP4 w)
      \<or> IsMulticast (IP4 w) \<or> IsLinkLocalMulticast (IP4 w) \<or> IsLinkLocalUnicast (IP4 w) \<or> w = 0xFFFFFFFF)
      \<and> \<not> list_ex (\<lambda>p. Contains p (IP4 w)) nonPublicPrefixes"
    by (auto simp: IsPublicIP_def IsGlobalUnicast_def Unmap_def)
  then show "IsPublicIP (Some (IP4 w)) = (\<forall>(base, n)\<in>set nonpublic_v4. drop_bit (32 - n) w \<noteq> drop_bit (32 - n) base)"
    using library_checks_reserved[of w] unfolding reserved_v4 by auto
qed

lemma set_alternate [simp]: "set (alternate as bs) = set as \<union> set bs"
  by (induction as bs rule: alternate.induct) auto

lemma mset_alternate: "length (alternate as bs) = length as + length bs"
  by (induction as bs rule: alternate.induct) auto

lemma set_interleaveFamilies: "set (interleaveFamilies ips) = {ip \<in> set ips. IsPublicIP (Some ip)}"
  by (auto simp: interleaveFamilies_def Let_def)

lemma try_candidates_cong:
  "\<forall>ip\<in>set ips. dial ip = dial' ip \<and> ended ip = ended' ip \<Longrightarrow>
   try_candidates dial ended e ips = try_candidates dial' ended' e ips"
  by (induction ips arbitrary: e) (auto split: sum.split)

lemma try_candidates_Inr:
  "try_candidates dial ended e ips = Inr c \<Longrightarrow> \<exists>ip\<in>set ips. dial ip = Inr c"
  by (induction ips arbitrary: e) (auto split: sum.splits if_splits option.splits)

theorem IsPublicIP_v4_iff_witness:
  "IsPublicIP (Some (map_v4 (v4 8 8 8 8))) = IsPublicIP (Some (IP4 (v4 8 8 8 8)))
   \<and> \<not> IsPublicIP (Some (IP4 (v4 10 0 0 1)))"
proof
  show "IsPublicIP (Some (map_v4 (v4 8 8 8 8))) = IsPublicIP (Some (IP4 (v4 8 8 8 8)))"
    by (rule IsPublicIP_v4_iff[THEN conjunct2])
  show "\<not> IsPublicIP (Some (IP4 (v4 10 0 0 1)))"
    using IsPublicIP_v4_iff[of "v4 10 0 0 1", THEN conjunct1] by (simp add: nonpublic_v4_def v4_def)
qed



end
