(* ===== verification/Sensor_Config.thy ===== *)
theory Sensor_Config
  imports Network_Safety
begin

text \<open>
  The second half of \<open>internal/protocol/types.go\<close>: the device's own profiles and defaults, and
  \<open>NormalizeConfig\<close>, which bounds everything a controller may configure. \<open>url.Parse\<close> is an
  argument (\<open>parse\<close>), its result the record below.
\<close>

section \<open>Profiles\<close>

definition KnownSpeedProfile :: "string \<Rightarrow> bool" where
  "KnownSpeedProfile name \<longleftrightarrow>
     name \<in> {ProfileHousehold, ProfileSaturation, ProfileContent, ProfileCapacity}"

definition SaturationProfile :: "string \<Rightarrow> bool" where
  "SaturationProfile name \<longleftrightarrow> name = ProfileSaturation \<or> name = ProfileCapacity"

definition ExperienceProfile :: "string \<Rightarrow> bool" where
  "ExperienceProfile name \<longleftrightarrow> name = ProfileHousehold \<or> name = ProfileContent"

definition content_profile :: SpeedProfileConfig where
  "content_profile = \<lparr>pc_Name = ProfileContent, pc_Enabled = True, pc_Windows = [''00:00-24:00''],
     pc_CadenceMinutes = 360, pc_MinDurationSeconds = 4, pc_MaxDurationSeconds = 20,
     pc_MaxDownloadBytes = 256 * 2 ^ 20, pc_MaxUploadBytes = 96 * 2 ^ 20, pc_MaxConcurrentRequests = 4,
     pc_MinSpacingMinutes = 15, pc_AllowMetered = False, pc_AllowOnBattery = False,
     pc_CountsTowardExperience = True\<rparr>"

definition capacity_profile :: SpeedProfileConfig where
  "capacity_profile = \<lparr>pc_Name = ProfileCapacity, pc_Enabled = False, pc_Windows = [''never''],
     pc_CadenceMinutes = 0, pc_MinDurationSeconds = 8, pc_MaxDurationSeconds = 60,
     pc_MaxDownloadBytes = 512 * 2 ^ 20, pc_MaxUploadBytes = 256 * 2 ^ 20, pc_MaxConcurrentRequests = 8,
     pc_MinSpacingMinutes = 60, pc_AllowMetered = False, pc_AllowOnBattery = False,
     pc_CountsTowardExperience = False\<rparr>"

definition legacySpeedProfiles :: "SpeedProfileConfig list" where
  "legacySpeedProfiles = [content_profile, capacity_profile]"

definition household_profile :: SpeedProfileConfig where
  "household_profile = \<lparr>pc_Name = ProfileHousehold, pc_Enabled = True, pc_Windows = [''00:00-24:00''],
     pc_CadenceMinutes = 360, pc_MinDurationSeconds = 8, pc_MaxDurationSeconds = 30,
     pc_MaxDownloadBytes = HouseholdDefaultDownloadCap, pc_MaxUploadBytes = HouseholdDefaultUploadCap,
     pc_MaxConcurrentRequests = 8, pc_MinSpacingMinutes = 60, pc_AllowMetered = False,
     pc_AllowOnBattery = False, pc_CountsTowardExperience = True\<rparr>"

definition saturation_profile :: SpeedProfileConfig where
  "saturation_profile = \<lparr>pc_Name = ProfileSaturation, pc_Enabled = True, pc_Windows = [''00:00-24:00''],
     pc_CadenceMinutes = 1440, pc_MinDurationSeconds = 8, pc_MaxDurationSeconds = 60,
     pc_MaxDownloadBytes = 2 ^ 30, pc_MaxUploadBytes = 512 * 2 ^ 20, pc_MaxConcurrentRequests = 8,
     pc_MinSpacingMinutes = 360, pc_AllowMetered = False, pc_AllowOnBattery = False,
     pc_CountsTowardExperience = False\<rparr>"

definition DefaultConfig :: SensorConfig where
  "DefaultConfig = \<lparr>sc_ContractVersion = HouseholdContractVersion, sc_ProbeIntervalSeconds = 1,
     sc_UploadIntervalSeconds = 60, sc_DNSIntervalSeconds = 60, sc_HTTPIntervalSeconds = 60,
     sc_HeartbeatIntervalSeconds = 600,
     sc_ProbeTargets = [''gateway'', ''controller'', ''anchor:1.1.1.1'', ''anchor:8.8.8.8''],
     sc_DNSDomains = [''example.com''], sc_DNSResolvers = [''1.1.1.1''],
     sc_HTTPTargets = [''https://www.google.com/generate_204'',
       ''https://connectivitycheck.gstatic.com/generate_204''],
     sc_DailyDataBudgetMB = 4096, sc_MonthlyDataBudgetMB = 61440,
     sc_SpeedTestWindows = [''00:00-06:00'', ''06:00-12:00'', ''12:00-18:00'', ''18:00-24:00''],
     sc_SpeedTestCrossTrafficMbps = 5, sc_SpeedTestMinSpacingMinutes = 15,
     sc_SendSSID = False, sc_SendNetworkIdentity = False, sc_Paused = False,
     sc_SpeedProfiles = [household_profile, saturation_profile], sc_HouseholdMix = None\<rparr>"

definition DeviceSpeedProfile :: "string \<Rightarrow> SpeedProfileConfig option" where
  "DeviceSpeedProfile name =
     List.find (\<lambda>p. pc_Name p = name) (sc_SpeedProfiles DefaultConfig @ legacySpeedProfiles)"

definition EffectiveHouseholdMix :: "HouseholdMix option \<Rightarrow> HouseholdMix option \<Rightarrow> HouseholdMix \<times> string" where
  "EffectiveHouseholdMix local configured =
     (case local of Some m \<Rightarrow> (NormalizeHouseholdMix m, ''local'')
      | None \<Rightarrow> (case configured of Some m \<Rightarrow> (NormalizeHouseholdMix m, ''controller'')
          | None \<Rightarrow> (DefaultHouseholdMix, ''default'')))"

section \<open>Bounds\<close>

definition bounded :: "int \<Rightarrow> int \<Rightarrow> int \<Rightarrow> int \<Rightarrow> int" where
  "bounded value low high fallback = (if value < low \<or> value > high then fallback else value)"

definition boundedUint64 :: "u64 \<Rightarrow> u64 \<Rightarrow> u64 \<Rightarrow> u64 \<Rightarrow> u64" where
  "boundedUint64 value low high fallback = (if value < low \<or> value > high then fallback else value)"

definition boundedStrings :: "string list \<Rightarrow> nat \<Rightarrow> nat \<Rightarrow> string list \<Rightarrow> string list" where
  "boundedStrings values maximum maxLength fallback =
     (if values = [] \<or> length values > maximum then fallback
      else if list_ex (\<lambda>v. v = '''' \<or> length v > maxLength) values then fallback else values)"

definition windowClockMinutes :: "string \<Rightarrow> int option" where
  "windowClockMinutes value =
     (case cut CHR '':'' value of
        None \<Rightarrow> None
      | Some (hourText, minuteText) \<Rightarrow>
          (case (atoi hourText, atoi minuteText) of
             (Some hour, Some minute) \<Rightarrow>
               if minute < 0 \<or> minute > 59 \<or> hour < 0 \<or> hour > 24 \<or> (hour = 24 \<and> minute \<noteq> 0)
               then None else Some (hour * 60 + minute)
           | _ \<Rightarrow> None))"

definition validSpeedWindow :: "string \<Rightarrow> bool" where
  "validSpeedWindow value =
     (if value = ''never'' then True
      else case cut CHR ''-'' value of
        None \<Rightarrow> False
      | Some (start, end') \<Rightarrow>
          (case (windowClockMinutes start, windowClockMinutes end') of
             (Some s, Some e) \<Rightarrow> s \<noteq> e | _ \<Rightarrow> False))"

definition normalizeSpeedWindows :: "string list \<Rightarrow> string list \<Rightarrow> string list" where
  "normalizeSpeedWindows values0 fallback =
     (let values = boundedStrings values0 12 11 fallback;
          valid = filter validSpeedWindow values
      in if valid = [] then fallback else valid)"

section \<open>Targets\<close>

definition target_address :: "string \<Rightarrow> string" where
  "target_address value = (case cut_prefix value ''anchor:'' of Some rest \<Rightarrow> rest | None \<Rightarrow> value)"

definition bad_target_char :: "char \<Rightarrow> bool" where
  "bad_target_char c \<longleftrightarrow> c \<in> {CHR '' '', CHR ''/'', CHR ''?'', CHR ''#'', CHR ''@'', CHR 0x09, CHR 0x0D, CHR 0x0A}"

definition valid_probe_target :: "string \<Rightarrow> bool" where
  "valid_probe_target value =
     (if value = ''gateway'' \<or> value = ''controller'' then True
      else let address = target_address value
           in \<not> (address = '''' \<or> contains_str address ''://'' \<or> list_ex bad_target_char address)
              \<and> \<not> (SplitHostPort address \<noteq> None \<or> \<not> IsSafePublicHost address))"

definition normalizeProbeTargets :: "string list \<Rightarrow> string list" where
  "normalizeProbeTargets values0 =
     (let values = boundedStrings values0 8 255 (sc_ProbeTargets DefaultConfig)
      in if list_all valid_probe_target values then values else sc_ProbeTargets DefaultConfig)"

text \<open>The parts of a parsed URL the source reads.\<close>

record URL =
  url_Scheme :: string
  url_Host :: string
  url_Hostname :: string
  url_Port :: string
  url_User :: bool
  url_Fragment :: string
  url_RawQuery :: string
  url_Path :: string
  url_RawPath :: string

definition valid_http_target :: "(string \<Rightarrow> URL option) \<Rightarrow> string \<Rightarrow> bool" where
  "valid_http_target parse value =
     (case parse value of
        None \<Rightarrow> False
      | Some u \<Rightarrow> \<not> (url_Scheme u \<noteq> ''https'' \<or> url_Hostname u = '''' \<or> url_User u \<or> url_Fragment u \<noteq> ''''
            \<or> (url_Port u \<noteq> '''' \<and> url_Port u \<noteq> ''443'') \<or> \<not> IsSafePublicHost (url_Hostname u)))"

definition normalizeHTTPTargets :: "(string \<Rightarrow> URL option) \<Rightarrow> string list \<Rightarrow> string list" where
  "normalizeHTTPTargets parse values0 =
     (let values = boundedStrings values0 16 2048 (sc_HTTPTargets DefaultConfig)
      in if list_all (valid_http_target parse) values then values else sc_HTTPTargets DefaultConfig)"

text \<open>\<open>net.ParseIP\<close> accepts no zone, and keeps an IPv4 address in mapped form.\<close>

definition ParseIP :: "string \<Rightarrow> IP option" where
  "ParseIP s = (case ParseAddr s of
     Some (IP4 w) \<Rightarrow> Some (map_v4 w) | Some (IP16 w) \<Rightarrow> Some (IP16 w) | None \<Rightarrow> None)"

definition normalizeDNSResolvers :: "string list \<Rightarrow> string list" where
  "normalizeDNSResolvers values0 =
     (let values = boundedStrings values0 4 64 (sc_DNSResolvers DefaultConfig)
      in if list_all (\<lambda>v. \<not> (ParseIP v = None \<or> \<not> IsPublicIP (ParseIP v))) values
         then values else sc_DNSResolvers DefaultConfig)"

section \<open>Speed profiles\<close>

definition bound_durations :: "SpeedProfileConfig \<Rightarrow> SpeedProfileConfig \<Rightarrow> SpeedProfileConfig" where
  "bound_durations fallback value =
     (let lo = bounded (pc_MinDurationSeconds value) 2 30 (pc_MinDurationSeconds fallback);
          hi0 = max (bounded (pc_MaxDurationSeconds value) lo 120 (pc_MaxDurationSeconds fallback)) lo;
          hi = (if pc_Name value = ProfileHousehold then max hi0 8 else hi0);
          lo' = (if pc_Name value = ProfileHousehold then min lo hi else lo)
      in value\<lparr>pc_MinDurationSeconds := lo', pc_MaxDurationSeconds := hi\<rparr>)"

definition bound_profile :: "SpeedProfileConfig \<Rightarrow> SpeedProfileConfig \<Rightarrow> SpeedProfileConfig" where
  "bound_profile fallback value0 =
     (let value = bound_durations fallback value0 in
      value\<lparr>pc_MaxDownloadBytes := boundedUint64 (pc_MaxDownloadBytes value) (512 * 2 ^ 10) (2 ^ 30) (pc_MaxDownloadBytes fallback),
        pc_MaxUploadBytes := boundedUint64 (pc_MaxUploadBytes value) (256 * 2 ^ 10) (512 * 2 ^ 20) (pc_MaxUploadBytes fallback),
        pc_MaxConcurrentRequests := bounded (pc_MaxConcurrentRequests value) 1 8 (pc_MaxConcurrentRequests fallback),
        pc_MinSpacingMinutes := bounded (pc_MinSpacingMinutes value) 15 10080 (pc_MinSpacingMinutes fallback),
        pc_CadenceMinutes := (if pc_CadenceMinutes value \<noteq> 0
           then bounded (pc_CadenceMinutes value) 60 1440 (pc_CadenceMinutes fallback) else pc_CadenceMinutes value),
        pc_Windows := normalizeSpeedWindows (pc_Windows value) (pc_Windows fallback),
        pc_AllowMetered := False, pc_AllowOnBattery := False,
        pc_CountsTowardExperience := ExperienceProfile (pc_Name value)\<rparr>)"

text \<open>The zero profile \<open>DeviceSpeedProfile\<close> returns beside \<open>false\<close>.\<close>

definition zero_profile :: SpeedProfileConfig where
  "zero_profile = \<lparr>pc_Name = '''', pc_Enabled = False, pc_Windows = [], pc_CadenceMinutes = 0,
     pc_MinDurationSeconds = 0, pc_MaxDurationSeconds = 0, pc_MaxDownloadBytes = 0, pc_MaxUploadBytes = 0,
     pc_MaxConcurrentRequests = 0, pc_MinSpacingMinutes = 0, pc_AllowMetered = False,
     pc_AllowOnBattery = False, pc_CountsTowardExperience = False\<rparr>"

definition device_fallback :: "string \<Rightarrow> SpeedProfileConfig" where
  "device_fallback name = (case DeviceSpeedProfile name of Some p \<Rightarrow> p | None \<Rightarrow> zero_profile)"

text \<open>The loop over the configured profiles; \<open>seen\<close> are the names taken so far.\<close>

fun accept_profiles :: "bool \<Rightarrow> string list \<Rightarrow> SpeedProfileConfig list \<Rightarrow> SpeedProfileConfig list" where
  "accept_profiles household seen [] = []"
| "accept_profiles household seen (value # values) =
     (if \<not> KnownSpeedProfile (pc_Name value) \<or> pc_Name value \<in> set seen then accept_profiles household seen values
      else if \<not> household \<and> (pc_Name value = ProfileHousehold \<or> pc_Name value = ProfileSaturation)
      then accept_profiles household seen values
      else bound_profile (device_fallback (pc_Name value)) value
           # accept_profiles household (pc_Name value # seen) values)"

definition with_windows :: "bool \<Rightarrow> string list \<Rightarrow> SpeedProfileConfig list \<Rightarrow> SpeedProfileConfig list" where
  "with_windows household legacyWindows defaults =
     (if household then defaults
      else case defaults of [] \<Rightarrow> [] | d # ds \<Rightarrow> d\<lparr>pc_Windows := legacyWindows\<rparr> # ds)"

definition normalizeSpeedProfiles ::
    "SpeedProfileConfig list \<Rightarrow> string list \<Rightarrow> int \<Rightarrow> SpeedProfileConfig list" where
  "normalizeSpeedProfiles values0 legacyWindows contractVersion =
     (let household = contractVersion \<ge> HouseholdContractVersion;
          defaults = (if household then sc_SpeedProfiles DefaultConfig else legacySpeedProfiles)
      in if values0 = [] then with_windows household legacyWindows defaults
         else let result = accept_profiles household [] (take 4 values0)
              in if result = [] then defaults
                 else result @ filter (\<lambda>d. pc_Name d \<notin> pc_Name ` set result)
                        (with_windows household legacyWindows defaults))"

definition NormalizeConfig :: "(string \<Rightarrow> URL option) \<Rightarrow> SensorConfig \<Rightarrow> SensorConfig" where
  "NormalizeConfig parse c =
     (let contract = bounded (sc_ContractVersion c) 1 1000 2;
          windows = normalizeSpeedWindows (sc_SpeedTestWindows c) (sc_SpeedTestWindows DefaultConfig)
      in c\<lparr>sc_ContractVersion := contract,
        sc_ProbeIntervalSeconds := bounded (sc_ProbeIntervalSeconds c) 1 60 1,
        sc_UploadIntervalSeconds := bounded (sc_UploadIntervalSeconds c) 30 900 60,
        sc_DNSIntervalSeconds := bounded (sc_DNSIntervalSeconds c) 30 3600 60,
        sc_HTTPIntervalSeconds := bounded (sc_HTTPIntervalSeconds c) 30 3600 60,
        sc_HeartbeatIntervalSeconds := bounded (sc_HeartbeatIntervalSeconds c) 300 3600 600,
        sc_DailyDataBudgetMB := bounded (sc_DailyDataBudgetMB c) 1 8192 4096,
        sc_MonthlyDataBudgetMB := bounded (sc_MonthlyDataBudgetMB c) 1 131072 61440,
        sc_SpeedTestMinSpacingMinutes := bounded (sc_SpeedTestMinSpacingMinutes c) 15 1440 15,
        sc_SpeedTestCrossTrafficMbps :=
          (if sc_SpeedTestCrossTrafficMbps c < 0 \<or> sc_SpeedTestCrossTrafficMbps c > 10000 then 5
           else sc_SpeedTestCrossTrafficMbps c),
        sc_ProbeTargets := normalizeProbeTargets (sc_ProbeTargets c),
        sc_DNSDomains := boundedStrings (sc_DNSDomains c) 16 253 (sc_DNSDomains DefaultConfig),
        sc_DNSResolvers := normalizeDNSResolvers (sc_DNSResolvers c),
        sc_HTTPTargets := normalizeHTTPTargets parse (sc_HTTPTargets c),
        sc_SpeedTestWindows := windows,
        sc_SpeedProfiles := normalizeSpeedProfiles (sc_SpeedProfiles c) windows contract,
        sc_HouseholdMix := (case sc_HouseholdMix c of
            Some m \<Rightarrow> if contract \<ge> HouseholdContractVersion then Some (NormalizeHouseholdMix m) else None
          | None \<Rightarrow> None)\<rparr>)"

section \<open>Valid configurations\<close>

definition valid_windows :: "string list \<Rightarrow> bool" where
  "valid_windows ws \<longleftrightarrow> ws \<noteq> [] \<and> length ws \<le> 12
     \<and> (\<forall>w\<in>set ws. w \<noteq> '''' \<and> length w \<le> 11 \<and> validSpeedWindow w)"

definition valid_profile :: "SpeedProfileConfig \<Rightarrow> bool" where
  "valid_profile p \<longleftrightarrow> KnownSpeedProfile (pc_Name p) \<and> valid_windows (pc_Windows p)
     \<and> 2 \<le> pc_MinDurationSeconds p \<and> pc_MinDurationSeconds p \<le> 30
     \<and> pc_MinDurationSeconds p \<le> pc_MaxDurationSeconds p \<and> pc_MaxDurationSeconds p \<le> 120
     \<and> (pc_Name p = ProfileHousehold \<longrightarrow> 8 \<le> pc_MaxDurationSeconds p)
     \<and> 512 * 2 ^ 10 \<le> pc_MaxDownloadBytes p \<and> pc_MaxDownloadBytes p \<le> 2 ^ 30
     \<and> 256 * 2 ^ 10 \<le> pc_MaxUploadBytes p \<and> pc_MaxUploadBytes p \<le> 512 * 2 ^ 20
     \<and> 1 \<le> pc_MaxConcurrentRequests p \<and> pc_MaxConcurrentRequests p \<le> 8
     \<and> 15 \<le> pc_MinSpacingMinutes p \<and> pc_MinSpacingMinutes p \<le> 10080
     \<and> (pc_CadenceMinutes p = 0 \<or> (60 \<le> pc_CadenceMinutes p \<and> pc_CadenceMinutes p \<le> 1440))
     \<and> \<not> pc_AllowMetered p \<and> \<not> pc_AllowOnBattery p
     \<and> pc_CountsTowardExperience p = ExperienceProfile (pc_Name p)"

definition default_profiles :: "int \<Rightarrow> SpeedProfileConfig list" where
  "default_profiles contract =
     (if contract \<ge> HouseholdContractVersion then sc_SpeedProfiles DefaultConfig else legacySpeedProfiles)"

definition valid_profiles :: "int \<Rightarrow> SpeedProfileConfig list \<Rightarrow> bool" where
  "valid_profiles contract ps \<longleftrightarrow> (\<forall>p\<in>set ps. valid_profile p) \<and> distinct (map pc_Name ps)
     \<and> (contract < HouseholdContractVersion \<longrightarrow> pc_Name ` set ps \<subseteq> {ProfileContent, ProfileCapacity})
     \<and> pc_Name ` set (default_profiles contract) \<subseteq> pc_Name ` set ps"

definition valid_list :: "string list \<Rightarrow> nat \<Rightarrow> nat \<Rightarrow> (string \<Rightarrow> bool) \<Rightarrow> string list \<Rightarrow> bool" where
  "valid_list fallback maximum maxLength ok xs \<longleftrightarrow> xs = fallback
     \<or> (xs \<noteq> [] \<and> length xs \<le> maximum \<and> (\<forall>x\<in>set xs. x \<noteq> '''' \<and> length x \<le> maxLength \<and> ok x))"

definition valid_config :: "(string \<Rightarrow> URL option) \<Rightarrow> SensorConfig \<Rightarrow> bool" where
  "valid_config parse c \<longleftrightarrow>
     1 \<le> sc_ContractVersion c \<and> sc_ContractVersion c \<le> 1000
     \<and> 1 \<le> sc_ProbeIntervalSeconds c \<and> sc_ProbeIntervalSeconds c \<le> 60
     \<and> 30 \<le> sc_UploadIntervalSeconds c \<and> sc_UploadIntervalSeconds c \<le> 900
     \<and> 30 \<le> sc_DNSIntervalSeconds c \<and> sc_DNSIntervalSeconds c \<le> 3600
     \<and> 30 \<le> sc_HTTPIntervalSeconds c \<and> sc_HTTPIntervalSeconds c \<le> 3600
     \<and> 300 \<le> sc_HeartbeatIntervalSeconds c \<and> sc_HeartbeatIntervalSeconds c \<le> 3600
     \<and> 1 \<le> sc_DailyDataBudgetMB c \<and> sc_DailyDataBudgetMB c \<le> 8192
     \<and> 1 \<le> sc_MonthlyDataBudgetMB c \<and> sc_MonthlyDataBudgetMB c \<le> 131072
     \<and> 15 \<le> sc_SpeedTestMinSpacingMinutes c \<and> sc_SpeedTestMinSpacingMinutes c \<le> 1440
     \<and> 0 \<le> sc_SpeedTestCrossTrafficMbps c \<and> sc_SpeedTestCrossTrafficMbps c \<le> 10000
     \<and> valid_list (sc_ProbeTargets DefaultConfig) 8 255 valid_probe_target (sc_ProbeTargets c)
     \<and> valid_list (sc_DNSDomains DefaultConfig) 16 253 (\<lambda>_. True) (sc_DNSDomains c)
     \<and> valid_list (sc_DNSResolvers DefaultConfig) 4 64 (\<lambda>v. IsPublicIP (ParseIP v)) (sc_DNSResolvers c)
     \<and> valid_list (sc_HTTPTargets DefaultConfig) 16 2048 (valid_http_target parse) (sc_HTTPTargets c)
     \<and> valid_windows (sc_SpeedTestWindows c)
     \<and> valid_profiles (sc_ContractVersion c) (sc_SpeedProfiles c)
     \<and> (case sc_HouseholdMix c of None \<Rightarrow> True
        | Some m \<Rightarrow> HouseholdContractVersion \<le> sc_ContractVersion c \<and> valid_mix m)"

section \<open>Each normaliser keeps its promise\<close>

lemma bounded_range: "low \<le> fallback \<Longrightarrow> fallback \<le> high \<Longrightarrow> low \<le> bounded v low high fallback \<and> bounded v low high fallback \<le> high"
  by (auto simp: bounded_def)

lemma bounded_id [simp]: "low \<le> v \<Longrightarrow> v \<le> high \<Longrightarrow> bounded v low high fallback = v"
  by (auto simp: bounded_def)

lemma boundedUint64_range:
  "low \<le> fallback \<Longrightarrow> fallback \<le> high \<Longrightarrow> low \<le> boundedUint64 v low high fallback \<and> boundedUint64 v low high fallback \<le> high"
  by (auto simp: boundedUint64_def)

lemma boundedUint64_id [simp]: "low \<le> v \<Longrightarrow> v \<le> high \<Longrightarrow> boundedUint64 v low high fallback = v"
  by (auto simp: boundedUint64_def)

lemma boundedStrings_cases:
  "boundedStrings xs m l fb = fb \<or>
   (boundedStrings xs m l fb = xs \<and> xs \<noteq> [] \<and> length xs \<le> m \<and> (\<forall>x\<in>set xs. x \<noteq> '''' \<and> length x \<le> l))"
  by (auto simp: boundedStrings_def list_ex_iff not_less)

lemma boundedStrings_id:
  "xs \<noteq> [] \<Longrightarrow> length xs \<le> m \<Longrightarrow> \<forall>x\<in>set xs. x \<noteq> '''' \<and> length x \<le> l \<Longrightarrow> boundedStrings xs m l fb = xs"
  by (auto simp: boundedStrings_def list_ex_iff)

text \<open>The pattern the three target normalisers and the domain list follow.\<close>

lemma checked_list:
  assumes "nf = (\<lambda>xs. let v = boundedStrings xs m l fb in if list_all ok v then v else fb)"
  shows "valid_list fb m l ok (nf xs)" and "valid_list fb m l ok xs \<Longrightarrow> nf xs = xs"
proof -
  show "valid_list fb m l ok (nf xs)"
    using boundedStrings_cases[of xs m l fb] by (auto simp: assms valid_list_def Let_def list_all_iff)
  show "nf xs = xs" if "valid_list fb m l ok xs"
  proof (cases "xs = fb")
    case True
    then show ?thesis using boundedStrings_cases[of fb m l fb] by (auto simp: assms Let_def)
  next
    case False
    then show ?thesis using that boundedStrings_id[of xs m l fb]
      by (auto simp: assms valid_list_def Let_def list_all_iff)
  qed
qed

lemmas probe_targets_list = checked_list[of normalizeProbeTargets, OF ext, OF normalizeProbeTargets_def]
lemmas http_targets_list = checked_list[of "normalizeHTTPTargets parse" for parse, OF ext, OF normalizeHTTPTargets_def]

lemma dns_resolvers_list:
  "valid_list (sc_DNSResolvers DefaultConfig) 4 64 (\<lambda>v. IsPublicIP (ParseIP v)) (normalizeDNSResolvers xs)"
  "valid_list (sc_DNSResolvers DefaultConfig) 4 64 (\<lambda>v. IsPublicIP (ParseIP v)) xs \<Longrightarrow> normalizeDNSResolvers xs = xs"
proof -
  have "(\<not> (ParseIP v = None \<or> \<not> IsPublicIP (ParseIP v))) = IsPublicIP (ParseIP v)" for v
    by (cases "ParseIP v") (simp_all add: IsPublicIP_def)
  then have "normalizeDNSResolvers = (\<lambda>xs. let v = boundedStrings xs 4 64 (sc_DNSResolvers DefaultConfig)
      in if list_all (\<lambda>v. IsPublicIP (ParseIP v)) v then v else sc_DNSResolvers DefaultConfig)"
    by (intro ext) (simp add: normalizeDNSResolvers_def)
  note l = checked_list[OF this]
  show "valid_list (sc_DNSResolvers DefaultConfig) 4 64 (\<lambda>v. IsPublicIP (ParseIP v)) (normalizeDNSResolvers xs)"
    by (rule l)
  show "normalizeDNSResolvers xs = xs"
    if "valid_list (sc_DNSResolvers DefaultConfig) 4 64 (\<lambda>v. IsPublicIP (ParseIP v)) xs"
    using that by (rule l)
qed

lemma dns_domains_list:
  "valid_list fb 16 253 (\<lambda>_. True) (boundedStrings xs 16 253 fb)"
  "valid_list fb 16 253 (\<lambda>_. True) xs \<Longrightarrow> boundedStrings xs 16 253 fb = xs"
proof -
  have "(\<lambda>xs. boundedStrings xs 16 253 fb)
      = (\<lambda>xs. let v = boundedStrings xs 16 253 fb in if list_all (\<lambda>_. True) v then v else fb)"
    by (simp add: Let_def list_all_iff)
  note l = checked_list[OF this]
  show "valid_list fb 16 253 (\<lambda>_. True) (boundedStrings xs 16 253 fb)" by (rule l)
  show "boundedStrings xs 16 253 fb = xs" if "valid_list fb 16 253 (\<lambda>_. True) xs" using that by (rule l)
qed

lemma normalizeSpeedWindows_valid:
  assumes "valid_windows fb"
  shows "valid_windows (normalizeSpeedWindows ws fb)"
proof -
  have "length ws \<le> 12 \<Longrightarrow> length (filter validSpeedWindow ws) \<le> 12"
    by (rule order_trans[OF length_filter_le])
  then show ?thesis
    using boundedStrings_cases[of ws 12 11 fb] assms
    by (auto simp: normalizeSpeedWindows_def Let_def valid_windows_def)
qed

lemma normalizeSpeedWindows_id:
  assumes "valid_windows ws"
  shows "normalizeSpeedWindows ws fb = ws"
proof -
  have "boundedStrings ws 12 11 fb = ws" using assms by (intro boundedStrings_id) (auto simp: valid_windows_def)
  moreover have "filter validSpeedWindow ws = ws" using assms by (simp add: valid_windows_def filter_id_conv)
  ultimately show ?thesis using assms by (simp add: normalizeSpeedWindows_def valid_windows_def)
qed

lemma default_windows_valid:
  "valid_windows [''00:00-24:00'']" "valid_windows [''never'']"
  "valid_windows (sc_SpeedTestWindows DefaultConfig)"
  unfolding valid_windows_def DefaultConfig_def by code_simp+

lemma device_profiles_valid:
  "valid_profile content_profile" "valid_profile capacity_profile"
  "valid_profile household_profile" "valid_profile saturation_profile"
  using default_windows_valid
  by (simp_all add: valid_profile_def content_profile_def capacity_profile_def household_profile_def
      saturation_profile_def KnownSpeedProfile_def ExperienceProfile_def HouseholdDefaultDownloadCap_def
      HouseholdDefaultUploadCap_def)

lemma device_fallback_valid:
  assumes "KnownSpeedProfile name"
  shows "valid_profile (device_fallback name)"
  using assms device_profiles_valid
  by (auto simp: KnownSpeedProfile_def device_fallback_def DeviceSpeedProfile_def DefaultConfig_def
      legacySpeedProfiles_def household_profile_def saturation_profile_def content_profile_def
      capacity_profile_def)

lemma bound_durations_valid:
  assumes "valid_profile fb" "pc_Name fb = pc_Name v"
  shows "2 \<le> pc_MinDurationSeconds (bound_durations fb v) \<and> pc_MinDurationSeconds (bound_durations fb v) \<le> 30
    \<and> pc_MinDurationSeconds (bound_durations fb v) \<le> pc_MaxDurationSeconds (bound_durations fb v)
    \<and> pc_MaxDurationSeconds (bound_durations fb v) \<le> 120
    \<and> (pc_Name v = ProfileHousehold \<longrightarrow> 8 \<le> pc_MaxDurationSeconds (bound_durations fb v))"
  using assms by (auto simp: bound_durations_def bounded_def Let_def valid_profile_def)

lemma bound_durations_fields [simp]:
  "pc_Name (bound_durations fb v) = pc_Name v" "pc_Windows (bound_durations fb v) = pc_Windows v"
  "pc_MaxDownloadBytes (bound_durations fb v) = pc_MaxDownloadBytes v"
  "pc_MaxUploadBytes (bound_durations fb v) = pc_MaxUploadBytes v"
  "pc_MaxConcurrentRequests (bound_durations fb v) = pc_MaxConcurrentRequests v"
  "pc_MinSpacingMinutes (bound_durations fb v) = pc_MinSpacingMinutes v"
  "pc_CadenceMinutes (bound_durations fb v) = pc_CadenceMinutes v"
  by (simp_all add: bound_durations_def Let_def)

lemma bound_profile_name [simp]: "pc_Name (bound_profile fb v) = pc_Name v"
  by (simp add: bound_profile_def Let_def)

lemma bound_profile_valid:
  assumes "valid_profile fb" "pc_Name fb = pc_Name v" "KnownSpeedProfile (pc_Name v)"
  shows "valid_profile (bound_profile fb v)"
proof -
  have w: "valid_windows (normalizeSpeedWindows (pc_Windows v) (pc_Windows fb))"
    using assms(1) by (intro normalizeSpeedWindows_valid) (simp add: valid_profile_def)
  have c: "pc_CadenceMinutes v \<noteq> 0 \<Longrightarrow> bounded (pc_CadenceMinutes v) 60 1440 (pc_CadenceMinutes fb) = 0
      \<or> (60 \<le> bounded (pc_CadenceMinutes v) 60 1440 (pc_CadenceMinutes fb)
         \<and> bounded (pc_CadenceMinutes v) 60 1440 (pc_CadenceMinutes fb) \<le> 1440)"
    using assms(1) by (auto simp: bounded_def valid_profile_def)
  have b: "512 * 2 ^ 10 \<le> pc_MaxDownloadBytes fb" "pc_MaxDownloadBytes fb \<le> 2 ^ 30"
    "256 * 2 ^ 10 \<le> pc_MaxUploadBytes fb" "pc_MaxUploadBytes fb \<le> 512 * 2 ^ 20"
    "1 \<le> pc_MaxConcurrentRequests fb" "pc_MaxConcurrentRequests fb \<le> 8"
    "15 \<le> pc_MinSpacingMinutes fb" "pc_MinSpacingMinutes fb \<le> 10080"
    using assms(1) unfolding valid_profile_def by blast+
  show ?thesis
    using bound_durations_valid[OF assms(1,2)] w c assms(3) boundedUint64_range[OF b(1,2), of "pc_MaxDownloadBytes v"]
      boundedUint64_range[OF b(3,4), of "pc_MaxUploadBytes v"] bounded_range[OF b(5,6), of "pc_MaxConcurrentRequests v"]
      bounded_range[OF b(7,8), of "pc_MinSpacingMinutes v"]
    unfolding valid_profile_def bound_profile_def Let_def by simp
qed

lemma bound_profile_id:
  assumes "valid_profile v"
  shows "bound_profile fb v = v"
proof -
  have w: "normalizeSpeedWindows (pc_Windows v) (pc_Windows fb) = pc_Windows v"
    using assms by (intro normalizeSpeedWindows_id) (simp add: valid_profile_def)
  have d: "bound_durations fb v = v"
    using assms by (cases v) (auto simp: bound_durations_def valid_profile_def Let_def)
  show ?thesis
    using assms unfolding bound_profile_def d Let_def w
    by (cases v) (auto simp: valid_profile_def)
qed

lemma device_fallback_name: "KnownSpeedProfile n \<Longrightarrow> pc_Name (device_fallback n) = n"
  by (auto simp: KnownSpeedProfile_def device_fallback_def DeviceSpeedProfile_def DefaultConfig_def
      legacySpeedProfiles_def household_profile_def saturation_profile_def content_profile_def capacity_profile_def)

text \<open>The profiles the contract allows, as one predicate.\<close>

definition allowed_profile :: "bool \<Rightarrow> SpeedProfileConfig \<Rightarrow> bool" where
  "allowed_profile h p \<longleftrightarrow> valid_profile p \<and> (\<not> h \<longrightarrow> pc_Name p \<in> {ProfileContent, ProfileCapacity})"

lemma accepted_allowed:
  assumes "KnownSpeedProfile (pc_Name v)"
    "\<not> (\<not> h \<and> (pc_Name v = ProfileHousehold \<or> pc_Name v = ProfileSaturation))"
  shows "allowed_profile h (bound_profile (device_fallback (pc_Name v)) v)"
proof -
  have "valid_profile (bound_profile (device_fallback (pc_Name v)) v)"
    using assms(1) by (intro bound_profile_valid device_fallback_valid device_fallback_name)
  then show ?thesis using assms by (auto simp: allowed_profile_def KnownSpeedProfile_def)
qed

lemma accept_profiles_allowed: "\<forall>p\<in>set (accept_profiles h seen vs). allowed_profile h p"
  by (induction h seen vs rule: accept_profiles.induct) (auto intro: accepted_allowed)

lemma accept_profiles_distinct:
  "distinct (map pc_Name (accept_profiles h seen vs)) \<and> pc_Name ` set (accept_profiles h seen vs) \<inter> set seen = {}"
  by (induction h seen vs rule: accept_profiles.induct) auto

lemma accept_profiles_id:
  "\<forall>p\<in>set vs. allowed_profile h p \<Longrightarrow>
   distinct (map pc_Name vs) \<Longrightarrow> pc_Name ` set vs \<inter> set seen = {} \<Longrightarrow> accept_profiles h seen vs = vs"
proof (induction h seen vs rule: accept_profiles.induct)
  case (2 h seen v vs)
  have k: "KnownSpeedProfile (pc_Name v)" and e: "bound_profile (device_fallback (pc_Name v)) v = v"
    using "2.prems"(1) bound_profile_id by (auto simp: allowed_profile_def valid_profile_def)
  have n: "\<not> (\<not> h \<and> (pc_Name v = ProfileHousehold \<or> pc_Name v = ProfileSaturation))"
    using "2.prems"(1) by (auto simp: allowed_profile_def)
  have "accept_profiles h (pc_Name v # seen) vs = vs"
    using "2.prems" k n by (intro "2.IH"(3)) auto
  with k e n "2.prems" show ?case by auto
qed simp

lemma default_profiles_names:
  "pc_Name ` set (default_profiles c) =
     (if c \<ge> HouseholdContractVersion then {ProfileHousehold, ProfileSaturation} else {ProfileContent, ProfileCapacity})"
  "distinct (map pc_Name (default_profiles c))" "\<forall>p\<in>set (default_profiles c). valid_profile p"
  using device_profiles_valid
  by (simp_all add: default_profiles_def DefaultConfig_def legacySpeedProfiles_def household_profile_def
      saturation_profile_def content_profile_def capacity_profile_def)

lemma with_windows_names [simp]: "map pc_Name (with_windows h ws ds) = map pc_Name ds"
  by (cases ds) (simp_all add: with_windows_def)

lemma with_windows_valid:
  "valid_windows ws \<Longrightarrow> \<forall>p\<in>set ds. valid_profile p \<Longrightarrow> \<forall>p\<in>set (with_windows h ws ds). valid_profile p"
  by (cases ds) (auto simp: with_windows_def valid_profile_def)

lemma with_windows_name_set: "pc_Name ` set (with_windows h ws ds) = pc_Name ` set ds"
  by (metis list.set_map with_windows_names)

lemma distinct_map_filter_names: "distinct (map f xs) \<Longrightarrow> distinct (map f (filter P xs))"
  by (rule distinct_map_filter)

lemma normalizeSpeedProfiles_valid:
  assumes "valid_windows ws"
  shows "valid_profiles c (normalizeSpeedProfiles ps ws c)"
proof -
  define h where "h = (c \<ge> HouseholdContractVersion)"
  define res where "res = accept_profiles h [] (take 4 ps)"
  define ds where "ds = with_windows h ws (default_profiles c)"
  have n: "normalizeSpeedProfiles ps ws c = (if ps = [] then ds else if res = [] then default_profiles c
      else res @ filter (\<lambda>d. pc_Name d \<notin> pc_Name ` set res) ds)"
    by (simp add: normalizeSpeedProfiles_def res_def ds_def h_def default_profiles_def Let_def)
  have ds: "\<forall>p\<in>set ds. valid_profile p" "distinct (map pc_Name ds)" "pc_Name ` set ds = pc_Name ` set (default_profiles c)"
    using with_windows_valid[OF assms default_profiles_names(3)] default_profiles_names(2)
    by (simp_all add: ds_def with_windows_name_set)
  have res: "\<forall>p\<in>set res. allowed_profile h p" "distinct (map pc_Name res)"
    using accept_profiles_allowed[of h "[]" "take 4 ps"] accept_profiles_distinct[of h "[]" "take 4 ps"]
    by (simp_all add: res_def)
  have dn: "c < HouseholdContractVersion \<Longrightarrow> pc_Name ` set (default_profiles c) = {ProfileContent, ProfileCapacity}"
    using default_profiles_names(1)[of c] by simp
  have A: "valid_profiles c ds" "valid_profiles c (default_profiles c)"
    using ds default_profiles_names(2,3) dn by (auto simp: valid_profiles_def)
  have B: "valid_profiles c (res @ filter (\<lambda>d. pc_Name d \<notin> pc_Name ` set res) ds)"
    unfolding valid_profiles_def
  proof (intro conjI)
    show "\<forall>p\<in>set (res @ filter (\<lambda>d. pc_Name d \<notin> pc_Name ` set res) ds). valid_profile p"
      using res(1) ds(1) by (auto simp: allowed_profile_def)
    show "distinct (map pc_Name (res @ filter (\<lambda>d. pc_Name d \<notin> pc_Name ` set res) ds))"
      using res(2) distinct_map_filter[OF ds(2)] by (auto simp: image_iff)
    show "c < HouseholdContractVersion \<longrightarrow> pc_Name ` set (res @ filter (\<lambda>d. pc_Name d \<notin> pc_Name ` set res) ds)
        \<subseteq> {ProfileContent, ProfileCapacity}"
    proof
      assume c: "c < HouseholdContractVersion"
      then have "pc_Name ` set res \<subseteq> {ProfileContent, ProfileCapacity}"
        using res(1) by (auto simp: h_def allowed_profile_def)
      moreover have "pc_Name ` set ds \<subseteq> {ProfileContent, ProfileCapacity}" using ds(3) dn c by simp
      ultimately show "pc_Name ` set (res @ filter (\<lambda>d. pc_Name d \<notin> pc_Name ` set res) ds)
          \<subseteq> {ProfileContent, ProfileCapacity}" by auto
    qed
    show "pc_Name ` set (default_profiles c) \<subseteq> pc_Name ` set (res @ filter (\<lambda>d. pc_Name d \<notin> pc_Name ` set res) ds)"
      unfolding ds(3)[symmetric] by auto
  qed
  show ?thesis using A B by (simp add: n)
qed

lemma valid_profiles_short:
  assumes "valid_profiles c ps"
  shows "length ps \<le> 4"
proof -
  have "pc_Name ` set ps \<subseteq> {ProfileHousehold, ProfileSaturation, ProfileContent, ProfileCapacity}"
    using assms by (auto simp: valid_profiles_def valid_profile_def KnownSpeedProfile_def)
  then have "card (pc_Name ` set ps) \<le> card {ProfileHousehold, ProfileSaturation, ProfileContent, ProfileCapacity}"
    by (intro card_mono) auto
  also have "\<dots> \<le> 4" by simp
  finally show ?thesis using assms distinct_card[of "map pc_Name ps"] by (simp add: valid_profiles_def)
qed

lemma normalizeSpeedProfiles_id:
  assumes "valid_profiles c ps"
  shows "normalizeSpeedProfiles ps ws c = ps"
proof -
  have "pc_Name ` set (default_profiles c) \<subseteq> pc_Name ` set ps" using assms by (simp add: valid_profiles_def)
  moreover have "pc_Name ` set (default_profiles c) \<noteq> {}" by (simp add: default_profiles_names(1))
  ultimately have ne: "ps \<noteq> []" by (cases ps) auto
  have t: "take 4 ps = ps" using valid_profiles_short[OF assms] by simp
  have a: "accept_profiles (c \<ge> HouseholdContractVersion) [] ps = ps"
    using assms by (intro accept_profiles_id) (auto simp: valid_profiles_def allowed_profile_def)
  have f: "filter (\<lambda>d. pc_Name d \<notin> pc_Name ` set ps) (with_windows h ws (default_profiles c)) = []" for h
  proof -
    have "pc_Name ` set (with_windows h ws (default_profiles c)) \<subseteq> pc_Name ` set ps"
      using assms by (simp add: with_windows_name_set valid_profiles_def)
    then show ?thesis by (auto simp: filter_empty_conv)
  qed
  show ?thesis
    using ne a t f[of "c \<ge> HouseholdContractVersion"]
    by (simp add: normalizeSpeedProfiles_def default_profiles_def Let_def)
qed

lemma NormalizeConfig_valid: "valid_config parse (NormalizeConfig parse c)"
proof -
  have w: "valid_windows (normalizeSpeedWindows (sc_SpeedTestWindows c) (sc_SpeedTestWindows DefaultConfig))"
    by (rule normalizeSpeedWindows_valid) (rule default_windows_valid)
  show ?thesis
    unfolding valid_config_def NormalizeConfig_def Let_def
    by (intro conjI)
       (simp_all add: bounded_range w normalizeSpeedProfiles_valid probe_targets_list(1) http_targets_list(1)
         dns_resolvers_list(1) dns_domains_list(1) NormalizeHouseholdMix_valid split: option.split)
qed

lemma NormalizeConfig_id: "valid_config parse c \<Longrightarrow> NormalizeConfig parse c = c"
proof -
  assume v: "valid_config parse c"
  then have k: "bounded (sc_ContractVersion c) 1 1000 2 = sc_ContractVersion c"
    by (intro bounded_id) (simp_all add: valid_config_def)
  have m: "(case sc_HouseholdMix c of Some m \<Rightarrow> if HouseholdContractVersion \<le> sc_ContractVersion c
        then Some (NormalizeHouseholdMix m) else None | None \<Rightarrow> None) = sc_HouseholdMix c"
    using v mix.norm_id by (auto simp: valid_config_def split: option.split)
  show ?thesis
    unfolding NormalizeConfig_def Let_def k m
    using v probe_targets_list(2) http_targets_list(2) dns_resolvers_list(2) dns_domains_list(2)
      normalizeSpeedWindows_id normalizeSpeedProfiles_id
    by (simp add: valid_config_def not_less)
qed

interpretation config: normaliser "NormalizeConfig parse" "valid_config parse" for parse
  by unfold_locales (rule NormalizeConfig_valid, rule NormalizeConfig_id)

section \<open>Properties\<close>

text \<open>
  (C37) Whatever a controller sends, the configuration the sensor adopts is within the device's
  bounds, and normalising is a projection: a valid configuration is adopted as it is, an adopted
  one is never changed by normalising it again.
\<close>

theorem NormalizeConfig_projection:
  "valid_config parse (NormalizeConfig parse c)
   \<and> (NormalizeConfig parse c = c \<longleftrightarrow> valid_config parse c)
   \<and> NormalizeConfig parse (NormalizeConfig parse c) = NormalizeConfig parse c"
  using config.norm_valid config.norm_fixed_iff config.norm_idem by blast

text \<open>
  What no controller can do. In the configuration adopted no profile may run on a metered
  link or on battery, no profile appears twice, every profile has a runnable window list and a
  duration range that is not empty (long enough for the household engine), bytes are capped, and
  only household and content results enter the experience. A controller that speaks a contract
  before 3 gets neither household nor saturation profiles nor a mix, but always its own two.
\<close>

theorem NormalizeConfig_device_owned:
  fixes parse :: "string \<Rightarrow> URL option" and c :: SensorConfig
  defines "n \<equiv> NormalizeConfig parse c"
  shows "(\<forall>p\<in>set (sc_SpeedProfiles n). \<not> pc_AllowMetered p \<and> \<not> pc_AllowOnBattery p
        \<and> pc_Windows p \<noteq> [] \<and> (\<forall>w\<in>set (pc_Windows p). validSpeedWindow w)
        \<and> pc_MinDurationSeconds p \<le> pc_MaxDurationSeconds p
        \<and> (pc_Name p = ProfileHousehold \<longrightarrow> 8 \<le> pc_MaxDurationSeconds p)
        \<and> pc_MaxDownloadBytes p \<le> 2 ^ 30 \<and> pc_MaxUploadBytes p \<le> 2 ^ 29
        \<and> pc_CountsTowardExperience p = (pc_Name p = ProfileHousehold \<or> pc_Name p = ProfileContent))
    \<and> distinct (map pc_Name (sc_SpeedProfiles n))
    \<and> (if HouseholdContractVersion \<le> sc_ContractVersion n
       then {ProfileHousehold, ProfileSaturation} \<subseteq> pc_Name ` set (sc_SpeedProfiles n)
       else pc_Name ` set (sc_SpeedProfiles n) = {ProfileContent, ProfileCapacity} \<and> sc_HouseholdMix n = None)"
proof -
  have v: "valid_config parse n" unfolding n_def by (rule NormalizeConfig_valid)
  then have ps: "valid_profiles (sc_ContractVersion n) (sc_SpeedProfiles n)" by (simp add: valid_config_def)
  have "HouseholdContractVersion \<le> sc_ContractVersion n \<or> sc_HouseholdMix n = None"
    using v by (auto simp: valid_config_def split: option.splits)
  then show ?thesis
    using ps default_profiles_names(1)[of "sc_ContractVersion n"]
    by (auto simp: valid_profiles_def valid_profile_def valid_windows_def ExperienceProfile_def split: if_splits)
qed

theorem NormalizeConfig_device_owned_witness:
  "distinct (map pc_Name (sc_SpeedProfiles (NormalizeConfig (\<lambda>_. None) (DefaultConfig\<lparr>sc_ContractVersion := 2\<rparr>))))
   \<and> sc_HouseholdMix (NormalizeConfig (\<lambda>_. None) (DefaultConfig\<lparr>sc_ContractVersion := 2\<rparr>)) = None"
proof -
  have "sc_ContractVersion (NormalizeConfig (\<lambda>_. None) (DefaultConfig\<lparr>sc_ContractVersion := 2\<rparr>)) = 2"
    by (simp add: NormalizeConfig_def bounded_def Let_def)
  then show ?thesis
    using NormalizeConfig_device_owned[of "\<lambda>_. None" "DefaultConfig\<lparr>sc_ContractVersion := 2\<rparr>"] by auto
qed

end
