(* ===== verification/Client.thy ===== *)
theory Client
  imports Sensor_Config
begin

text \<open>
  The signed HTTP client of \<open>internal/protocol/client.go\<close> and the signed one-off speed-test
  request of \<open>internal/protocol/speed_request.go\<close>. The cryptographic primitives, base64, the JSON
  codecs, URL parsing and the HTTP transport are not code of this repository: they are the fields
  of \<open>lib\<close> and the argument \<open>send\<close>. Everything the client decides with them is defined here.
\<close>

section \<open>Data\<close>

record Credentials =
  cd_SensorID :: string
  cd_Secret :: string

record APIError =
  ae_StatusCode :: int
  ae_Code :: string
  ae_Detail :: string
  ae_RetryAfter :: duration

datatype client_error = Revoked string | API APIError | Failed string

record http_request =
  rq_Method :: string
  rq_URL :: string
  rq_Headers :: "(string \<times> string) list"
  rq_Body :: string

record http_response =
  rp_Status :: int
  rp_Body :: string
  rp_RetryAfter :: string

text \<open>The library functions the client calls.\<close>

record lib =
  lib_ParseURL :: "string \<Rightarrow> URL option"
  lib_URLString :: "URL \<Rightarrow> string"
  lib_EscapedPath :: "URL \<Rightarrow> string"
  lib_Sum256Hex :: "string \<Rightarrow> string"
  lib_HMAC :: "string \<Rightarrow> string \<Rightarrow> string"
  lib_B64Encode :: "string \<Rightarrow> string"
  lib_B64Decode :: "string \<Rightarrow> string option"
  lib_RawB64Decode :: "string \<Rightarrow> string option"
  lib_StatusText :: "int \<Rightarrow> string"
  lib_ErrorPayload :: "string \<Rightarrow> string \<times> string"
  lib_EncEnroll :: "EnrollmentRequest \<Rightarrow> string"
  lib_EncHeartbeat :: "HeartbeatRequest \<Rightarrow> string"
  lib_DecEnroll :: "string \<Rightarrow> EnrollmentResponse option"
  lib_DecIngest :: "string \<Rightarrow> IngestResponse option"
  lib_DecConfig :: "string \<Rightarrow> ConfigResponse option"
  lib_DecHeartbeat :: "string \<Rightarrow> HeartbeatResponse option"

definition EnrollPath :: string where "EnrollPath = ''/api/v2/sensors/enroll/''"
definition ConfigPath :: string where "ConfigPath = ''/api/v2/sensors/config/''"
definition HeartbeatPath :: string where "HeartbeatPath = ''/api/v2/sensors/heartbeat/''"

section \<open>Endpoints\<close>

definition validateHTTPSURL :: "lib \<Rightarrow> string \<Rightarrow> string + URL" where
  "validateHTTPSURL l raw =
     (case lib_ParseURL l (trim_space raw) of
        None \<Rightarrow> Inl ''controller URL must be an absolute URL''
      | Some u \<Rightarrow>
          if url_Host u = '''' then Inl ''controller URL must be an absolute URL''
          else if url_User u then Inl ''controller URL must not include user information''
          else if url_Scheme u \<noteq> ''https'' then Inl ''controller URL must use HTTPS''
          else Inr u)"

definition ValidateControllerURL :: "lib \<Rightarrow> string \<Rightarrow> string option" where
  "ValidateControllerURL l raw = (case validateHTTPSURL l raw of Inl e \<Rightarrow> Some e | Inr _ \<Rightarrow> None)"

definition effectiveHTTPSPort :: "URL \<Rightarrow> string" where
  "effectiveHTTPSPort u = (if url_Port u = '''' then ''443'' else url_Port u)"

text \<open>\<open>strings.EqualFold\<close>, on the ASCII letters host names are made of.\<close>

definition EqualFold :: "string \<Rightarrow> string \<Rightarrow> bool" where
  "EqualFold a b \<longleftrightarrow> to_lower a = to_lower b"

definition ValidateIngestURL :: "lib \<Rightarrow> string \<Rightarrow> string \<Rightarrow> string option" where
  "ValidateIngestURL l controllerURL ingestURL =
     (case validateHTTPSURL l controllerURL of
        Inl e \<Rightarrow> Some e
      | Inr controller \<Rightarrow>
          (case validateHTTPSURL l ingestURL of
             Inl e \<Rightarrow> Some e
           | Inr ingest \<Rightarrow>
               if \<not> EqualFold (url_Hostname controller) (url_Hostname ingest)
                  \<or> effectiveHTTPSPort controller \<noteq> effectiveHTTPSPort ingest
               then Some ''ingest URL must use the enrolled controller origin'' else None))"

definition endpointURL :: "lib \<Rightarrow> string \<Rightarrow> string \<Rightarrow> string + URL" where
  "endpointURL l controllerURL path =
     (case validateHTTPSURL l controllerURL of
        Inl e \<Rightarrow> Inl e
      | Inr base \<Rightarrow> Inr (base\<lparr>url_Path := path, url_RawPath := '''', url_RawQuery := '''', url_Fragment := ''''\<rparr>))"

section \<open>Signing\<close>

text \<open>\<open>strings.Join(fields, "\n")\<close>.\<close>

fun join_lines :: "string list \<Rightarrow> string" where
  "join_lines [] = ''''"
| "join_lines [f] = f"
| "join_lines (f # fs) = f @ CHR 0x0A # join_lines fs"

definition upper_char :: "char \<Rightarrow> char" where
  "upper_char c = (if (97::nat) \<le> of_char c \<and> of_char c \<le> (122::nat)
     then char_of (of_char c - (32::nat)) else c)"

definition to_upper :: "string \<Rightarrow> string" where
  "to_upper s = map upper_char s"

definition decodeSensorSecret :: "lib \<Rightarrow> string \<Rightarrow> string + string" where
  "decodeSensorSecret l encoded =
     (case (case lib_B64Decode l encoded of Some s \<Rightarrow> Some s | None \<Rightarrow> lib_RawB64Decode l encoded) of
        None \<Rightarrow> Inl ''invalid sensor secret''
      | Some secret \<Rightarrow> if length secret < 16 then Inl ''invalid sensor secret'' else Inr secret)"

definition sign_canonical :: "lib \<Rightarrow> string \<Rightarrow> string \<Rightarrow> string \<Rightarrow> string \<Rightarrow> string \<Rightarrow> string" where
  "sign_canonical l method path timestamp nonce body =
     join_lines [to_upper method, path, timestamp, nonce, lib_Sum256Hex l body]"

definition Sign :: "lib \<Rightarrow> string \<Rightarrow> string \<Rightarrow> string \<Rightarrow> string \<Rightarrow> string \<Rightarrow> string \<Rightarrow> string + string" where
  "Sign l method path timestamp nonce body encodedSecret =
     (case decodeSensorSecret l encodedSecret of
        Inl e \<Rightarrow> Inl e
      | Inr secret \<Rightarrow> Inr (lib_B64Encode l (lib_HMAC l secret (sign_canonical l method path timestamp nonce body))))"

definition speed_canonical :: "SpeedTestRequest \<Rightarrow> string \<Rightarrow> string" where
  "speed_canonical r sensorID =
     join_lines [''axon-pulse-speed-test-v1'', sensorID, sq_Nonce r, sq_Profile r,
       itoa (sq_IssuedAt r), itoa (sq_ExpiresAt r)]"

definition SignSpeedTestRequest :: "lib \<Rightarrow> SpeedTestRequest \<Rightarrow> Credentials \<Rightarrow> string + string" where
  "SignSpeedTestRequest l r credentials =
     (if cd_SensorID credentials = '''' then Inl ''missing sensor ID''
      else case decodeSensorSecret l (cd_Secret credentials) of
        Inl e \<Rightarrow> Inl e
      | Inr secret \<Rightarrow> Inr (lib_B64Encode l (lib_HMAC l secret (speed_canonical r (cd_SensorID credentials)))))"

definition VerifySpeedTestRequest :: "lib \<Rightarrow> SpeedTestRequest \<Rightarrow> Credentials \<Rightarrow> string option" where
  "VerifySpeedTestRequest l r credentials =
     (case SignSpeedTestRequest l r credentials of
        Inl e \<Rightarrow> Some e
      | Inr expected \<Rightarrow>
          (case lib_B64Decode l (sq_Signature r) of
             None \<Rightarrow> Some ''invalid speed-test request signature''
           | Some provided \<Rightarrow>
               let want = (case lib_B64Decode l expected of Some w \<Rightarrow> w | None \<Rightarrow> '''')
               in if provided \<noteq> want then Some ''invalid speed-test request signature'' else None))"

section \<open>Responses\<close>

text \<open>
  \<open>parseRetryAfter\<close>: the product \<open>time.Duration(seconds) * time.Second\<close> is a 64-bit one, so it
  is taken modulo \<open>2 ^ 64\<close> and read back as a signed value.
\<close>

definition wrap64 :: "int \<Rightarrow> int" where
  "wrap64 n = sint (word_of_int n :: 64 word)"

definition parseRetryAfter :: "string \<Rightarrow> duration" where
  "parseRetryAfter value =
     (case atoi (trim_space value) of
        None \<Rightarrow> 0
      | Some seconds \<Rightarrow> if seconds \<le> 0 then 0 else wrap64 (seconds * Second))"

definition decodeAPIError :: "lib \<Rightarrow> http_response \<Rightarrow> APIError" where
  "decodeAPIError l resp =
     (let (code, detail) = lib_ErrorPayload l (take (64 * 1024) (rp_Body resp))
      in \<lparr>ae_StatusCode = rp_Status resp, ae_Code = code,
          ae_Detail = (if detail = '''' then lib_StatusText l (rp_Status resp) else detail),
          ae_RetryAfter = parseRetryAfter (rp_RetryAfter resp)\<rparr>)"

abbreviation (input) maxResponseBytes :: nat where "maxResponseBytes \<equiv> 2 ^ 20"

definition decodeJSON :: "(string \<Rightarrow> 'a option) \<Rightarrow> string \<Rightarrow> 'a option" where
  "decodeJSON dec body = dec (take (maxResponseBytes + 1) body)"

text \<open>
  \<open>doSigned\<close> up to the decoding of the body: \<open>Inr None\<close> is the empty 204 answer, \<open>Inr (Some b)\<close>
  a body to decode. \<open>random\<close> is what \<open>rand.Read\<close> delivered, or nothing.
\<close>

definition doSigned ::
    "lib \<Rightarrow> (http_request \<Rightarrow> string + http_response) \<Rightarrow> time \<Rightarrow> string option \<Rightarrow> string \<Rightarrow> URL \<Rightarrow> Credentials
     \<Rightarrow> string \<Rightarrow> string \<Rightarrow> string \<Rightarrow> client_error + string option" where
  "doSigned l send now random method endpoint credentials body contentType contentEncoding =
     (if cd_SensorID credentials = '''' \<or> cd_Secret credentials = ''''
      then Inl (Failed ''missing sensor credentials'')
      else case random of
        None \<Rightarrow> Inl (Failed ''generate request nonce'')
      | Some nonceBytes \<Rightarrow>
          let timestamp = itoa (Unix now); nonce = lib_B64Encode l nonceBytes;
              escaped = lib_EscapedPath l endpoint; path = (if escaped = '''' then ''/'' else escaped)
          in case Sign l method path timestamp nonce body (cd_Secret credentials) of
               Inl e \<Rightarrow> Inl (Failed e)
             | Inr signature \<Rightarrow>
                 let request = \<lparr>rq_Method = method, rq_URL = lib_URLString l endpoint,
                       rq_Headers = [(''X-Axon-Sensor-Id'', cd_SensorID credentials), (''X-Axon-Sensor-Proto'', ''1''),
                         (''X-Axon-Timestamp'', timestamp), (''X-Axon-Nonce'', nonce), (''X-Axon-Signature'', signature)]
                         @ (if contentType \<noteq> '''' then [(''Content-Type'', contentType)] else [])
                         @ (if contentEncoding \<noteq> '''' then [(''Content-Encoding'', contentEncoding)] else []),
                       rq_Body = body\<rparr>
                 in case send request of
                      Inl e \<Rightarrow> Inl (Failed (''send signed request: '' @ e))
                    | Inr resp \<Rightarrow>
                        if rp_Status resp < 200 \<or> rp_Status resp \<ge> 300
                        then let apiErr = decodeAPIError l resp
                             in if rp_Status resp = 401 \<and> ae_Code apiErr = ''sensor_revoked''
                                then Inl (Revoked (ae_Detail apiErr)) else Inl (API apiErr)
                        else if rp_Status resp = 204 then Inr None else Inr (Some (rp_Body resp)))"

text \<open>What the callers do with it: the zero value on 204, a decoding error otherwise.\<close>

definition decode_signed :: "(string \<Rightarrow> 'a option) \<Rightarrow> 'a \<Rightarrow> client_error + string option \<Rightarrow> client_error + 'a" where
  "decode_signed dec zero r =
     (case r of
        Inl e \<Rightarrow> Inl e
      | Inr None \<Rightarrow> Inr zero
      | Inr (Some body) \<Rightarrow> (case decodeJSON dec body of
          None \<Rightarrow> Inl (Failed ''decode controller response'') | Some v \<Rightarrow> Inr v))"

definition zero_ingest :: IngestResponse where
  "zero_ingest = \<lparr>ir_ConfigVersion = 0, ir_Duplicate = False, ir_RejectedRecords = 0, ir_BufferDepth = 0,
     ir_SpeedTestRequest = None\<rparr>"

definition zero_heartbeat :: HeartbeatResponse where
  "zero_heartbeat = \<lparr>hb_ConfigVersion = 0, hb_SpeedTestRequest = None\<rparr>"

definition zero_config :: SensorConfig where
  "zero_config = \<lparr>sc_ContractVersion = 0, sc_ProbeIntervalSeconds = 0, sc_UploadIntervalSeconds = 0,
     sc_DNSIntervalSeconds = 0, sc_HTTPIntervalSeconds = 0, sc_HeartbeatIntervalSeconds = 0, sc_ProbeTargets = [],
     sc_DNSDomains = [], sc_DNSResolvers = [], sc_HTTPTargets = [], sc_DailyDataBudgetMB = 0,
     sc_MonthlyDataBudgetMB = 0, sc_SpeedTestWindows = [], sc_SpeedTestCrossTrafficMbps = 0,
     sc_SpeedTestMinSpacingMinutes = 0, sc_SendSSID = False, sc_SendNetworkIdentity = False, sc_Paused = False,
     sc_SpeedProfiles = [], sc_HouseholdMix = None\<rparr>"

definition zero_config_response :: ConfigResponse where
  "zero_config_response = \<lparr>cr_Config = zero_config, cr_ConfigVersion = 0\<rparr>"

section \<open>Calls\<close>

definition Ingest ::
    "lib \<Rightarrow> (http_request \<Rightarrow> string + http_response) \<Rightarrow> time \<Rightarrow> string option \<Rightarrow> string \<Rightarrow> Credentials \<Rightarrow> string
     \<Rightarrow> client_error + IngestResponse" where
  "Ingest l send now random ingestURL credentials body =
     (case validateHTTPSURL l ingestURL of
        Inl e \<Rightarrow> Inl (Failed e)
      | Inr u \<Rightarrow> decode_signed (lib_DecIngest l) zero_ingest
          (doSigned l send now random ''POST'' u credentials body ''application/json'' ''zstd''))"

definition Config ::
    "lib \<Rightarrow> (http_request \<Rightarrow> string + http_response) \<Rightarrow> time \<Rightarrow> string option \<Rightarrow> string \<Rightarrow> Credentials
     \<Rightarrow> client_error + ConfigResponse" where
  "Config l send now random controllerURL credentials =
     (case endpointURL l controllerURL ConfigPath of
        Inl e \<Rightarrow> Inl (Failed e)
      | Inr u \<Rightarrow>
          (case decode_signed (lib_DecConfig l) zero_config_response
                  (doSigned l send now random ''GET'' u credentials '''' '''' '''') of
             Inl e \<Rightarrow> Inl e
           | Inr r \<Rightarrow> Inr (r\<lparr>cr_Config := NormalizeConfig (lib_ParseURL l) (cr_Config r)\<rparr>)))"

definition Heartbeat ::
    "lib \<Rightarrow> (http_request \<Rightarrow> string + http_response) \<Rightarrow> time \<Rightarrow> string option \<Rightarrow> string \<Rightarrow> Credentials
     \<Rightarrow> HeartbeatRequest \<Rightarrow> client_error + HeartbeatResponse" where
  "Heartbeat l send now random controllerURL credentials hb =
     (case endpointURL l controllerURL HeartbeatPath of
        Inl e \<Rightarrow> Inl (Failed e)
      | Inr u \<Rightarrow> decode_signed (lib_DecHeartbeat l) zero_heartbeat
          (doSigned l send now random ''POST'' u credentials (lib_EncHeartbeat l hb) ''application/json'' ''''))"

definition Enroll ::
    "lib \<Rightarrow> (http_request \<Rightarrow> string + http_response) \<Rightarrow> string \<Rightarrow> EnrollmentRequest \<Rightarrow> client_error + EnrollmentResponse" where
  "Enroll l send controllerURL request =
     (case endpointURL l controllerURL EnrollPath of
        Inl e \<Rightarrow> Inl (Failed e)
      | Inr u \<Rightarrow>
          (case send \<lparr>rq_Method = ''POST'', rq_URL = lib_URLString l u,
                    rq_Headers = [(''Content-Type'', ''application/json'')], rq_Body = lib_EncEnroll l request\<rparr> of
             Inl e \<Rightarrow> Inl (Failed (''enroll sensor: '' @ e))
           | Inr resp \<Rightarrow>
               if rp_Status resp \<noteq> 201 then Inl (API (decodeAPIError l resp))
               else case decodeJSON (lib_DecEnroll l) (rp_Body resp) of
                 None \<Rightarrow> Inl (Failed ''decode enrollment response'')
               | Some r \<Rightarrow>
                   if en_SensorID r = '''' \<or> en_SensorSecret r = '''' \<or> en_IngestURL r = '''' \<or> en_ConfigVersion r < 1
                   then Inl (Failed ''controller returned incomplete enrollment credentials'')
                   else case ValidateIngestURL l controllerURL (en_IngestURL r) of
                     Some e \<Rightarrow> Inl (Failed (''invalid ingest URL: '' @ e))
                   | None \<Rightarrow> Inr (r\<lparr>en_Config := NormalizeConfig (lib_ParseURL l) (en_Config r)\<rparr>)))"

section \<open>Batch identifiers\<close>

definition hex_digit :: "nat \<Rightarrow> char" where
  "hex_digit n = (if n < 10 then char_of (48 + n) else char_of (87 + n))"

definition hex_byte :: "u8 \<Rightarrow> string" where
  "hex_byte b = [hex_digit (unat b div 16), hex_digit (unat b mod 16)]"

definition hex_bytes :: "u8 list \<Rightarrow> string" where
  "hex_bytes bs = concat (map hex_byte bs)"

definition uuid_string :: "u8 list \<Rightarrow> string" where
  "uuid_string v = hex_bytes (take 4 v) @ ''-'' @ hex_bytes (take 2 (drop 4 v)) @ ''-''
     @ hex_bytes (take 2 (drop 6 v)) @ ''-'' @ hex_bytes (take 2 (drop 8 v)) @ ''-'' @ hex_bytes (take 6 (drop 10 v))"

definition unix_milli :: "time \<Rightarrow> int" where
  "unix_milli t = t div Millisecond"

definition batch_id_bytes :: "time \<Rightarrow> u8 list \<Rightarrow> u8 list" where
  "batch_id_bytes now value =
     (let millis = (word_of_int (unix_milli now) :: u64);
          v = value[0 := ucast (drop_bit 40 millis), 1 := ucast (drop_bit 32 millis),
                    2 := ucast (drop_bit 24 millis), 3 := ucast (drop_bit 16 millis),
                    4 := ucast (drop_bit 8 millis), 5 := ucast millis];
          v6 = v[6 := (v ! 6 AND 0x0F) OR 0x70]
      in v6[8 := (v6 ! 8 AND 0x3F) OR 0x80])"

definition NewBatchID :: "time \<Rightarrow> u8 list option \<Rightarrow> string + string" where
  "NewBatchID now random =
     (case random of None \<Rightarrow> Inl ''generate batch ID''
      | Some value \<Rightarrow> Inr (uuid_string (batch_id_bytes now value)))"

section \<open>Properties\<close>


text \<open>A library whose parser knows one controller and whose controller answers every request.\<close>

definition demo_url :: "string \<Rightarrow> URL" where
  "demo_url path = \<lparr>url_Scheme = ''https'', url_Host = ''pulse.example.com'', url_Hostname = ''pulse.example.com'',
     url_Port = '''', url_User = False, url_Fragment = '''', url_RawQuery = '''', url_Path = path, url_RawPath = ''''\<rparr>"

definition demo_answer :: EnrollmentResponse where
  "demo_answer = \<lparr>en_SensorID = ''s-1'', en_SensorSecret = ''c2VjcmV0c2VjcmV0c2VjcmV0'', en_SiteID = ''site'',
     en_Config = zero_config, en_ConfigVersion = 1, en_IngestURL = ''https://pulse.example.com/in''\<rparr>"

definition demo_lib :: lib where
  "demo_lib = \<lparr>lib_ParseURL = (\<lambda>s. if has_prefix s ''https://pulse.example.com'' then Some (demo_url (drop 25 s)) else None),
     lib_URLString = (\<lambda>u. ''https://'' @ url_Host u @ url_Path u), lib_EscapedPath = url_Path,
     lib_Sum256Hex = (\<lambda>s. s), lib_HMAC = (\<lambda>k m. k @ m), lib_B64Encode = (\<lambda>s. s), lib_B64Decode = Some,
     lib_RawB64Decode = Some, lib_StatusText = (\<lambda>_. ''status''), lib_ErrorPayload = (\<lambda>s. ('''', s)),
     lib_EncEnroll = (\<lambda>_. ''{}''), lib_EncHeartbeat = (\<lambda>_. ''{}''), lib_DecEnroll = (\<lambda>_. Some demo_answer),
     lib_DecIngest = (\<lambda>_. Some zero_ingest), lib_DecConfig = (\<lambda>_. Some zero_config_response),
     lib_DecHeartbeat = (\<lambda>_. Some zero_heartbeat)\<rparr>"

definition demo_request :: EnrollmentRequest where
  "demo_request = \<lparr>er_Token = ''t'', er_SensorUID = ''u'', er_Hostname = ''h'', er_OS = ''linux'',
     er_Arch = ''amd64'', er_AppVersion = ''1''\<rparr>"

lemma demo_enroll:
  "Enroll demo_lib (\<lambda>_. Inr \<lparr>rp_Status = 201, rp_Body = ''{}'', rp_RetryAfter = ''''\<rparr>) ''https://pulse.example.com'' demo_request
   = Inr (demo_answer\<lparr>en_Config := NormalizeConfig (lib_ParseURL demo_lib) zero_config\<rparr>)"
proof -
  have t: "trim_space ''https://pulse.example.com'' = ''https://pulse.example.com''"
    "trim_space ''https://pulse.example.com/in'' = ''https://pulse.example.com/in''"
    by (simp_all add: trim_space_def is_space_def)
  have p: "lib_ParseURL demo_lib ''https://pulse.example.com'' = Some (demo_url '''')"
    "lib_ParseURL demo_lib ''https://pulse.example.com/in'' = Some (demo_url ''/in'')"
    by (simp_all add: demo_lib_def has_prefix_def)
  have v: "validateHTTPSURL demo_lib ''https://pulse.example.com'' = Inr (demo_url '''')"
    "validateHTTPSURL demo_lib ''https://pulse.example.com/in'' = Inr (demo_url ''/in'')"
    by (simp_all add: validateHTTPSURL_def t p demo_url_def)
  have i: "ValidateIngestURL demo_lib ''https://pulse.example.com'' ''https://pulse.example.com/in'' = None"
    by (simp add: ValidateIngestURL_def v demo_url_def EqualFold_def effectiveHTTPSPort_def)
  have d: "lib_DecEnroll demo_lib s = Some demo_answer" for s by (simp add: demo_lib_def)
  have a: "en_IngestURL demo_answer = ''https://pulse.example.com/in''" "en_SensorID demo_answer \<noteq> ''''"
    "en_SensorSecret demo_answer \<noteq> ''''" "en_ConfigVersion demo_answer = 1" "en_Config demo_answer = zero_config"
    by (simp_all add: demo_answer_def)
  show ?thesis by (simp add: Enroll_def endpointURL_def v decodeJSON_def d a i)
qed


lemma first_separator:
  "x \<notin> set a \<Longrightarrow> x \<notin> set b \<Longrightarrow> a @ x # s = b @ x # t \<Longrightarrow> a = b \<and> s = t"
proof (induction a arbitrary: b)
  case Nil
  then show ?case by (cases b) auto
next
  case (Cons y a)
  then show ?case by (cases b) auto
qed

lemma join_lines_inject:
  "\<forall>f\<in>set fs. CHR 0x0A \<notin> set f \<Longrightarrow> \<forall>g\<in>set gs. CHR 0x0A \<notin> set g \<Longrightarrow> length fs = length gs \<Longrightarrow>
   join_lines fs = join_lines gs \<Longrightarrow> fs = gs"
proof (induction fs arbitrary: gs rule: join_lines.induct)
  case (3 f f' fs)
  then obtain g g' gs' where gs: "gs = g # g' # gs'" by (metis length_Suc_conv)
  have eq: "f @ CHR 0x0A # join_lines (f' # fs) = g @ CHR 0x0A # join_lines (g' # gs')"
    using "3.prems"(4) gs by simp
  have "f = g \<and> join_lines (f' # fs) = join_lines (g' # gs')"
    using first_separator[OF _ _ eq] "3.prems"(1,2) gs by simp
  with "3.IH"[of "g' # gs'"] "3.prems" gs show ?case by auto
next
  case (2 f)
  then show ?case by (cases gs) auto
qed simp

lemma upper_char_newline: "upper_char c = CHR 0x0A \<Longrightarrow> c = CHR 0x0A"
proof (cases "(97::nat) \<le> of_char c \<and> of_char c \<le> (122::nat)")
  case True
  moreover assume "upper_char c = CHR 0x0A"
  ultimately have "char_of (of_char c - (32::nat)) = (CHR 0x0A :: char)" by (simp add: upper_char_def)
  then have "of_char (char_of (of_char c - (32::nat)) :: char) = (10 :: nat)" by simp
  moreover from True have "of_char c - (32::nat) < 256" by linarith
  ultimately have "of_char c - (32::nat) = 10" by (simp add: take_bit_eq_mod)
  with True have False by linarith
  then show ?thesis ..
qed (auto simp: upper_char_def split: if_splits)

text \<open>
  A request signature binds every part of the request: two requests whose parts contain no
  line break are signed over the same text only when method, path, timestamp, nonce and body
  digest all agree, so a signature can only be replayed on a different request if the digest or
  the MAC collides.
\<close>

theorem sign_canonical_binds:
  assumes "\<forall>x\<in>{method, path, ts, nonce, method', path', ts', nonce'}. CHR 0x0A \<notin> set x"
    "CHR 0x0A \<notin> set (lib_Sum256Hex l body)" "CHR 0x0A \<notin> set (lib_Sum256Hex l body')"
    "sign_canonical l method path ts nonce body = sign_canonical l method' path' ts' nonce' body'"
  shows "to_upper method = to_upper method' \<and> path = path' \<and> ts = ts' \<and> nonce = nonce'
    \<and> lib_Sum256Hex l body = lib_Sum256Hex l body'"
proof -
  have up: "CHR 0x0A \<notin> set s \<Longrightarrow> CHR 0x0A \<notin> set (to_upper s)" for s
    by (auto simp: to_upper_def dest: upper_char_newline[OF sym])
  have "[to_upper method, path, ts, nonce, lib_Sum256Hex l body]
      = [to_upper method', path', ts', nonce', lib_Sum256Hex l body']"
    by (rule join_lines_inject) (use assms up in \<open>auto simp: sign_canonical_def\<close>)
  then show ?thesis by simp
qed

theorem sign_canonical_binds_witness:
  "sign_canonical demo_lib ''POST'' ''/a'' ''1'' ''n'' ''b'' \<noteq> sign_canonical demo_lib ''POST'' ''/a'' ''1'' ''m'' ''b''"
proof
  assume "sign_canonical demo_lib ''POST'' ''/a'' ''1'' ''n'' ''b'' = sign_canonical demo_lib ''POST'' ''/a'' ''1'' ''m'' ''b''"
  from sign_canonical_binds[OF _ _ _ this] show False by (auto simp: demo_lib_def)
qed

text \<open>
  A one-off speed-test request is accepted exactly when the sensor has an identifier and a
  usable secret and the signature decodes to the MAC, under that secret, of this very request for
  this very sensor. That base64 undoes itself is the only thing asked of the library.
\<close>

theorem VerifySpeedTestRequest_iff:
  assumes "\<And>s. lib_B64Decode l (lib_B64Encode l s) = Some s"
  shows "VerifySpeedTestRequest l r cd = None \<longleftrightarrow> cd_SensorID cd \<noteq> ''''
    \<and> (\<exists>secret. decodeSensorSecret l (cd_Secret cd) = Inr secret
         \<and> lib_B64Decode l (sq_Signature r) = Some (lib_HMAC l secret (speed_canonical r (cd_SensorID cd))))"
  by (auto simp: VerifySpeedTestRequest_def SignSpeedTestRequest_def assms Let_def split: sum.splits option.splits)

theorem VerifySpeedTestRequest_iff_witness:
  "VerifySpeedTestRequest demo_lib \<lparr>sq_Nonce = ''n'', sq_Profile = ''household'', sq_IssuedAt = 1, sq_ExpiresAt = 2,
      sq_Signature = ''forged''\<rparr> \<lparr>cd_SensorID = ''s'', cd_Secret = ''0123456789abcdef''\<rparr> \<noteq> None"
  using VerifySpeedTestRequest_iff[of demo_lib] by (auto simp: demo_lib_def decodeSensorSecret_def)

lemma version_nibble: "unat ((a AND 0x0F) OR 0x70 :: u8) div 16 = 7"
proof -
  have m: "(0x0F :: u8) = mask 4" "(0x70 :: u8) = push_bit 4 (mask 3)" by (simp_all add: mask_eq_exp_minus_1)
  have "drop_bit 4 ((a AND 0x0F) OR 0x70) = (mask 3 :: u8)"
    unfolding m by (rule bit_eqI) (auto simp: bit_simps)
  then have "unat (drop_bit 4 ((a AND 0x0F) OR 0x70)) = unat (7 :: u8)" by (simp add: mask_eq_exp_minus_1)
  then show ?thesis by (simp add: drop_bit_eq_div unat_div)
qed

lemma variant_nibble: "unat ((a AND 0x3F) OR 0x80 :: u8) div 16 \<in> {8, 9, 10, 11}"
proof -
  have m: "(0x3F :: u8) = mask 6" "(0x80 :: u8) = push_bit 7 1" by (simp_all add: mask_eq_exp_minus_1)
  have "drop_bit 6 ((a AND 0x3F) OR 0x80) = (push_bit 1 1 :: u8)"
    unfolding m by (rule bit_eqI) (auto simp: bit_simps)
  then have "unat (drop_bit 6 ((a AND 0x3F) OR 0x80)) = unat (2 :: u8)" by simp
  then have "unat ((a AND 0x3F) OR 0x80 :: u8) div 64 = 2"
    by (simp add: drop_bit_eq_div unat_div)
  then show ?thesis by (simp add: div_eq_dividend_iff) linarith
qed

lemma hex_digit_values:
  "hex_digit 7 = CHR ''7''" "hex_digit 8 = CHR ''8''" "hex_digit 9 = CHR ''9''"
  "hex_digit 10 = CHR ''a''" "hex_digit 11 = CHR ''b''"
  by code_simp+

lemma uuid_shape:
  fixes v0 v1 v2 v3 v4 v5 v6 v7 v8 v9 w0 w1 w2 w3 w4 w5 :: u8
  defines "u \<equiv> uuid_string [v0, v1, v2, v3, v4, v5, v6, v7, v8, v9, w0, w1, w2, w3, w4, w5]"
  shows "length u = 36" "u ! 8 = CHR ''-''" "u ! 13 = CHR ''-''" "u ! 18 = CHR ''-''" "u ! 23 = CHR ''-''"
    "u ! 14 = hex_digit (unat v6 div 16)" "u ! 19 = hex_digit (unat v8 div 16)"
    "take 8 u @ take 4 (drop 9 u) = hex_bytes [v0, v1, v2, v3, v4, v5]"
  by (simp_all add: u_def uuid_string_def hex_bytes_def hex_byte_def)

text \<open>
  A batch identifier has the layout of a version-7 UUID: 36 characters with hyphens at the
  four fixed places, version digit 7, variant digit 8, 9, a or b, and the wall-clock milliseconds
  in its first twelve hexadecimal digits, whatever the random bytes are.
\<close>

theorem NewBatchID_layout:
  assumes "length value = 16" "NewBatchID now (Some value) = Inr s"
  shows "length s = 36 \<and> s ! 8 = CHR ''-'' \<and> s ! 13 = CHR ''-'' \<and> s ! 18 = CHR ''-'' \<and> s ! 23 = CHR ''-''
    \<and> s ! 14 = CHR ''7'' \<and> s ! 19 \<in> set ''89ab''
    \<and> take 8 s @ take 4 (drop 9 s) = hex_bytes (map (\<lambda>k. ucast (drop_bit k (word_of_int (unix_milli now) :: u64))) [40, 32, 24, 16, 8, 0])"
proof -
  obtain a0 a1 a2 a3 a4 a5 a6 a7 a8 a9 b0 b1 b2 b3 b4 b5
    where v: "value = [a0, a1, a2, a3, a4, a5, a6, a7, a8, a9, b0, b1, b2, b3, b4, b5]"
    using assms(1) by (auto simp: length_Suc_conv eval_nat_numeral)
  have s: "s = uuid_string (batch_id_bytes now value)" using assms(2) by (simp add: NewBatchID_def)
  define m where "m k = (ucast (drop_bit k (word_of_int (unix_milli now) :: u64)) :: u8)" for k
  have bytes: "batch_id_bytes now value = [m 40, m 32, m 24, m 16, m 8, m 0, (a6 AND 0x0F) OR 0x70, a7,
      (a8 AND 0x3F) OR 0x80, a9, b0, b1, b2, b3, b4, b5]"
    by (simp add: v batch_id_bytes_def Let_def m_def)
  have seven: "hex_digit (unat ((a6 AND 0x0F) OR 0x70 :: u8) div 16) = CHR ''7''"
    by (simp only: version_nibble hex_digit_values)
  have variant: "hex_digit (unat ((a8 AND 0x3F) OR 0x80 :: u8) div 16) \<in> set ''89ab''"
    using variant_nibble[of a8] hex_digit_values by fastforce
  have millis: "map (\<lambda>k. ucast (drop_bit k (word_of_int (unix_milli now) :: u64))) [40, 32, 24, 16, 8, 0]
      = [m 40, m 32, m 24, m 16, m 8, m 0]"
    by (simp add: m_def)
  show ?thesis
    unfolding s bytes millis
    by (simp only: uuid_shape seven variant simp_thms)
qed

theorem NewBatchID_layout_witness:
  "\<exists>s. NewBatchID 1700000000000000000 (Some (replicate 16 0xFF)) = Inr s \<and> s ! 14 = CHR ''7''"
  using NewBatchID_layout[of "replicate 16 0xFF" 1700000000000000000] by (simp add: NewBatchID_def)

lemma wrap64_id: "- (2 ^ 63) \<le> n \<Longrightarrow> n < 2 ^ 63 \<Longrightarrow> wrap64 n = n"
  by (simp add: wrap64_def int_word_sint)

text \<open>
  Where \<open>Retry-After\<close> goes wrong. Up to 9223372036 seconds the advertised wait is what the
  client reports; one second more overflows the 64-bit duration and the wait reported is negative,
  which the uploader reads as no wait at all.
\<close>

theorem parseRetryAfter_overflow:
  "(\<forall>n. atoi (trim_space s) = Some n \<and> 0 < n \<and> n \<le> 9223372036 \<longrightarrow> parseRetryAfter s = n * Second)
   \<and> parseRetryAfter ''9223372037'' < 0"
proof
  show "\<forall>n. atoi (trim_space s) = Some n \<and> 0 < n \<and> n \<le> 9223372036 \<longrightarrow> parseRetryAfter s = n * Second"
    by (auto simp: parseRetryAfter_def wrap64_id)
  show "parseRetryAfter ''9223372037'' < 0" by code_simp
qed

theorem parseRetryAfter_overflow_witness:
  "parseRetryAfter ''120'' = 120 * Second \<and> parseRetryAfter ''9223372037'' < 0"
proof -
  have "atoi (trim_space ''120'') = Some 120" by code_simp
  then show ?thesis using parseRetryAfter_overflow[of "''120''"] by simp
qed

end
