(* ===== verification/Spool.thy ===== *)
theory Spool
  imports Client "HOL-Library.Multiset"
begin

text \<open>
  The upload queue of \<open>internal/spool/spool.go\<close>. Each SQLite table is the list of its rows in key
  order (the keys of \<open>records\<close> and \<open>history\<close> are AUTOINCREMENT, so a new row is the last one); each
  SQL statement is the list operation it names. A transaction works on a copy: an error inside it,
  or at its commit, leaves the tables as they were. Every statement the driver may fail at is a
  named fault: \<open>fl message\<close> says that the operation fails there, and the operation then returns
  that message. One operation reads one instant of the clock.

  The JSON of a batch and of a record's payload are bytes; the codec is the argument \<open>J\<close>. The
  record-ID column holds a JSON array of integers, which is kept as the list it denotes.
\<close>

section \<open>Tables\<close>

record Record =
  rd_Kind :: string
  rd_Timestamp :: int
  rd_Payload :: string

record row =
  rw_id :: int
  rw_kind :: string
  rw_ts :: int
  rw_payload :: string
  rw_local_only :: bool
  rw_created_at :: int

record hist_row =
  hi_id :: int
  hi_source_id :: int
  hi_kind :: string
  hi_ts :: int
  hi_payload :: string
  hi_local_only :: bool
  hi_created_at :: int

record pending_row =
  pn_batch_id :: string
  pn_seq :: int
  pn_body :: string
  pn_record_ids :: "int list"
  pn_created_at :: int

record spool_db =
  db_records :: "row list"
  db_pending :: "pending_row list"
  db_history :: "hist_row list"
  db_next_id :: int
  db_next_hist_id :: int
  db_next_seq :: int
  db_dropped :: int

record spool_options =
  so_MaxPayloadBytes :: int
  so_MaxAge :: duration

record Stats =
  sx_Records :: int
  sx_Bytes :: int
  sx_PayloadBytes :: int
  sx_PayloadLimitBytes :: int
  sx_StorageBytes :: int
  sx_Dropped :: int

record HistoryRecord =
  hy_Kind :: string
  hy_Timestamp :: int
  hy_Data :: string

record PendingBatch =
  pb_Batch :: Batch
  pb_Body :: string
  pb_RecordIDs :: "int list"

text \<open>The JSON codec of the payloads and of the batch.\<close>

record codec =
  jc_DecMinute :: "string \<Rightarrow> MinuteMetric option"
  jc_DecDNS :: "string \<Rightarrow> DNSCheck option"
  jc_DecHTTP :: "string \<Rightarrow> HTTPCheck option"
  jc_DecLink :: "string \<Rightarrow> LinkContext option"
  jc_DecEvent :: "string \<Rightarrow> Event option"
  jc_Valid :: "string \<Rightarrow> bool"
  jc_EncBatch :: "Batch \<Rightarrow> string"
  jc_DecBatch :: "string \<Rightarrow> Batch option"

abbreviation "KindMinuteMetric \<equiv> ''minute_metric''"
abbreviation "KindDNSCheck \<equiv> ''dns_check''"
abbreviation "KindHTTPCheck \<equiv> ''http_check''"
abbreviation "KindLinkContext \<equiv> ''link_context''"
abbreviation "KindSpeedTest \<equiv> ''speed_test''"
abbreviation "KindEvent \<equiv> ''event''"

abbreviation (input) DefaultMaxPayloadBytes :: int where "DefaultMaxPayloadBytes \<equiv> 50 * 2 ^ 20"
abbreviation (input) DefaultMaxAge :: duration where "DefaultMaxAge \<equiv> 7 * 24 * Hour"
abbreviation (input) maxBatchRecords :: nat where "maxBatchRecords \<equiv> 200"

definition validKind :: "string \<Rightarrow> bool" where
  "validKind kind \<longleftrightarrow> kind \<in> {KindMinuteMetric, KindDNSCheck, KindHTTPCheck, KindLinkContext,
     KindSpeedTest, KindEvent}"

section \<open>Transactions\<close>

type_synonym faults = "string \<Rightarrow> bool"
type_synonym ('s, 'a) tx = "string + ('a \<times> 's)"

text \<open>A statement that fails when the fault plan says so.\<close>

definition guard :: "faults \<Rightarrow> string \<Rightarrow> ('s, 'a) tx \<Rightarrow> ('s, 'a) tx" where
  "guard fl msg t = (if fl msg then Inl msg else t)"

text \<open>A statement that is only reached under a condition.\<close>

definition guard_if :: "bool \<Rightarrow> faults \<Rightarrow> string \<Rightarrow> ('s, 'a) tx \<Rightarrow> ('s, 'a) tx" where
  "guard_if reached fl msg t = (if reached then guard fl msg t else t)"

text \<open>The state an operation leaves and what it returns: an error has rolled everything back.\<close>

definition commit :: "'s \<Rightarrow> ('s, 'a) tx \<Rightarrow> 's \<times> (string + 'a)" where
  "commit s t = (case t of Inl e \<Rightarrow> (s, Inl e) | Inr (a, s') \<Rightarrow> (s', Inr a))"

section \<open>Opening\<close>

text \<open>\<open>CREATE TABLE IF NOT EXISTS\<close> and \<open>INSERT OR IGNORE INTO metadata\<close> on a new file.\<close>

definition empty_db :: spool_db where
  "empty_db = \<lparr>db_records = [], db_pending = [], db_history = [], db_next_id = 1, db_next_hist_id = 1,
     db_next_seq = 1, db_dropped = 0\<rparr>"

definition normalize_options :: "spool_options \<Rightarrow> spool_options" where
  "normalize_options o' = o'
     \<lparr>so_MaxPayloadBytes := (if so_MaxPayloadBytes o' \<le> 0 then DefaultMaxPayloadBytes else so_MaxPayloadBytes o'),
      so_MaxAge := (if so_MaxAge o' \<le> 0 then DefaultMaxAge else so_MaxAge o')\<rparr>"

section \<open>Pruning\<close>

text \<open>The rows some pending batch has reserved: \<open>unreservedRecordPredicate\<close> is its negation.\<close>

definition reserved_ids :: "spool_db \<Rightarrow> int set" where
  "reserved_ids s = (\<Union>p\<in>set (db_pending s). set (pn_record_ids p))"

definition unreserved :: "spool_db \<Rightarrow> row \<Rightarrow> bool" where
  "unreserved s r \<longleftrightarrow> list_all (\<lambda>p. rw_id r \<notin> set (pn_record_ids p)) (db_pending s)"

definition row_bytes :: "row list \<Rightarrow> int" where
  "row_bytes rs = (\<Sum>r\<leftarrow>rs. int (length (rw_payload r)))"

definition hist_bytes :: "hist_row list \<Rightarrow> int" where
  "hist_bytes hs = (\<Sum>h\<leftarrow>hs. int (length (hi_payload h)))"

definition payloadBytes :: "spool_db \<Rightarrow> int" where
  "payloadBytes s = row_bytes (db_records s) + hist_bytes (db_history s)"

text \<open>
  The first overflow loop: the oldest 128 history rows go while the payload is over the budget.
  Each round removes a row, so as many rounds as there are rows suffice.
\<close>

fun prune_history :: "nat \<Rightarrow> int \<Rightarrow> spool_db \<Rightarrow> spool_db" where
  "prune_history 0 maximum s = s"
| "prune_history (Suc n) maximum s =
     (if payloadBytes s > maximum
      then if db_history s = [] then s
           else prune_history n maximum (s\<lparr>db_history := drop 128 (db_history s)\<rparr>)
      else s)"

text \<open>
  One round of the second loop: among the first 128 unreserved rows, the shortest prefix that
  brings the payload under the budget, or all of them.
\<close>

fun overflow_prefix :: "int \<Rightarrow> int \<Rightarrow> row list \<Rightarrow> row list" where
  "overflow_prefix bytesUsed maximum [] = []"
| "overflow_prefix bytesUsed maximum (r # rs) =
     (let left = bytesUsed - int (length (rw_payload r))
      in if left \<le> maximum then [r] else r # overflow_prefix left maximum rs)"

fun prune_rows :: "nat \<Rightarrow> int \<Rightarrow> int \<Rightarrow> int \<Rightarrow> spool_db \<Rightarrow> int \<times> spool_db" where
  "prune_rows 0 maximum bytesUsed dropped s = (dropped, s)"
| "prune_rows (Suc n) maximum bytesUsed dropped s =
     (if bytesUsed > maximum
      then let victims = overflow_prefix bytesUsed maximum (take 128 (filter (unreserved s) (db_records s)))
           in if victims = [] then (dropped, s)
              else prune_rows n maximum (bytesUsed - row_bytes victims) (dropped + int (length victims))
                     (s\<lparr>db_records := filter (\<lambda>r. rw_id r \<notin> rw_id ` set victims) (db_records s)\<rparr>)
      else (dropped, s))"

definition expire :: "int \<Rightarrow> spool_db \<Rightarrow> int \<times> spool_db" where
  "expire cutoff s =
     (let s1 = s\<lparr>db_pending := filter (\<lambda>p. \<not> pn_created_at p < cutoff) (db_pending s)\<rparr>;
          kept = filter (\<lambda>r. \<not> (rw_ts r < cutoff \<and> unreserved s1 r)) (db_records s1)
      in (int (length (db_records s1)) - int (length kept),
          s1\<lparr>db_records := kept, db_history := filter (\<lambda>h. \<not> hi_ts h < cutoff) (db_history s1)\<rparr>))"

definition pruneTx :: "spool_options \<Rightarrow> faults \<Rightarrow> time \<Rightarrow> spool_db \<Rightarrow> (spool_db, int) tx" where
  "pruneTx opt fl now s0 =
     (let cutoff = Unix (now - so_MaxAge opt);
          maximum = so_MaxPayloadBytes opt;
          (expired, s1) = expire cutoff s0;
          s2 = prune_history (length (db_history s1)) maximum s1;
          (dropped, s3) = prune_rows (length (db_records s2)) maximum (payloadBytes s2) expired s2
      in guard fl ''prune expired pending batches'' (guard fl ''prune expired spool rows''
        (guard fl ''prune expired local history'' (guard fl ''measure spool''
        (guard_if (payloadBytes s1 > maximum) fl ''prune local history overflow''
        (guard_if (payloadBytes s2 > maximum) fl ''select spool overflow''
        (guard_if (dropped > expired) fl ''drop spool overflow''
        (guard_if (dropped > 0) fl ''count dropped spool rows''
        (Inr (dropped, if dropped > 0 then s3\<lparr>db_dropped := db_dropped s3 + dropped\<rparr> else s3))))))))))"

definition prune :: "spool_options \<Rightarrow> faults \<Rightarrow> time \<Rightarrow> spool_db \<Rightarrow> spool_db \<times> (string + unit)" where
  "prune opt fl now s =
     commit s (guard fl ''begin spool prune''
       (case pruneTx opt fl now s of Inl e \<Rightarrow> Inl e
        | Inr (_, s') \<Rightarrow> guard fl ''commit spool prune'' (Inr ((), s'))))"

section \<open>Appending\<close>

fun insert_records :: "faults \<Rightarrow> bool \<Rightarrow> int \<Rightarrow> Record list \<Rightarrow> spool_db \<Rightarrow> string + spool_db" where
  "insert_records fl localOnly created [] s = Inr s"
| "insert_records fl localOnly created (r # rs) s =
     (if \<not> validKind (rd_Kind r) \<or> rd_Timestamp r \<le> 0 \<or> rd_Payload r = []
      then Inl ''invalid spool record''
      else if fl ''append spool record'' then Inl ''append spool record''
      else insert_records fl localOnly created rs
             (s\<lparr>db_records := db_records s @ [\<lparr>rw_id = db_next_id s, rw_kind = rd_Kind r, rw_ts = rd_Timestamp r,
                  rw_payload = rd_Payload r, rw_local_only = localOnly, rw_created_at = created\<rparr>],
                db_next_id := db_next_id s + 1\<rparr>))"

definition append_records ::
    "spool_options \<Rightarrow> faults \<Rightarrow> time \<Rightarrow> Record list \<Rightarrow> bool \<Rightarrow> spool_db \<Rightarrow> spool_db \<times> (string + int)" where
  "append_records opt fl now records localOnly s =
     (if records = [] then (s, Inr 0)
      else commit s (guard fl ''begin spool append'' (guard fl ''prepare spool append''
        (case insert_records fl localOnly (Unix now) records s of
           Inl e \<Rightarrow> Inl e
         | Inr s1 \<Rightarrow> guard fl ''close spool statement''
             (case pruneTx opt fl now s1 of Inl e \<Rightarrow> Inl e
              | Inr (dropped, s2) \<Rightarrow> guard fl ''commit spool append'' (Inr (dropped, s2)))))))"

definition AppendMinute :: "spool_options \<Rightarrow> faults \<Rightarrow> time \<Rightarrow> Record list \<Rightarrow> spool_db \<Rightarrow> spool_db \<times> (string + int)" where
  "AppendMinute opt fl now records s = append_records opt fl now records False s"

definition AppendLocal :: "spool_options \<Rightarrow> faults \<Rightarrow> time \<Rightarrow> Record list \<Rightarrow> spool_db \<Rightarrow> spool_db \<times> (string + int)" where
  "AppendLocal opt fl now records s = append_records opt fl now records True s"

section \<open>Batches\<close>

definition empty_batch :: "string \<Rightarrow> int \<Rightarrow> Batch" where
  "empty_batch appVersion configVersion = \<lparr>bt_BatchID = '''', bt_Sequence = 0, bt_SensorClock = 0,
     bt_AppVersion = appVersion, bt_ConfigVersion = configVersion, bt_MinuteMetrics = [], bt_DNSChecks = [],
     bt_HTTPChecks = [], bt_LinkContext = [], bt_SpeedTests = [], bt_Events = []\<rparr>"

text \<open>\<open>addRecord\<close>: an error, \<open>None\<close> when the batch has no room for the kind, or the new batch.\<close>

definition room :: "'a list \<Rightarrow> nat \<Rightarrow> 'b option \<Rightarrow> ('b \<Rightarrow> Batch) \<Rightarrow> string + Batch option" where
  "room xs limit decoded put =
     (if length xs \<ge> limit then Inr None
      else case decoded of None \<Rightarrow> Inl ''decode spool record'' | Some v \<Rightarrow> Inr (Some (put v)))"

definition addRecord :: "codec \<Rightarrow> Batch \<Rightarrow> string \<Rightarrow> string \<Rightarrow> string + Batch option" where
  "addRecord J b kind payload =
     (if kind = KindMinuteMetric then room (bt_MinuteMetrics b) 60 (jc_DecMinute J payload)
          (\<lambda>v. b\<lparr>bt_MinuteMetrics := bt_MinuteMetrics b @ [v]\<rparr>)
      else if kind = KindDNSCheck then room (bt_DNSChecks b) 60 (jc_DecDNS J payload)
          (\<lambda>v. b\<lparr>bt_DNSChecks := bt_DNSChecks b @ [v]\<rparr>)
      else if kind = KindHTTPCheck then room (bt_HTTPChecks b) 60 (jc_DecHTTP J payload)
          (\<lambda>v. b\<lparr>bt_HTTPChecks := bt_HTTPChecks b @ [v]\<rparr>)
      else if kind = KindLinkContext then room (bt_LinkContext b) 60 (jc_DecLink J payload)
          (\<lambda>v. b\<lparr>bt_LinkContext := bt_LinkContext b @ [v]\<rparr>)
      else if kind = KindSpeedTest then room (bt_SpeedTests b) 8 (if jc_Valid J payload then Some payload else None)
          (\<lambda>v. b\<lparr>bt_SpeedTests := bt_SpeedTests b @ [v]\<rparr>)
      else if kind = KindEvent then room (bt_Events b) 100 (jc_DecEvent J payload)
          (\<lambda>v. b\<lparr>bt_Events := bt_Events b @ [v]\<rparr>)
      else Inl ''decode spool record'')"

fun fill_batch :: "codec \<Rightarrow> faults \<Rightarrow> Batch \<Rightarrow> int list \<Rightarrow> row list \<Rightarrow> string + (Batch \<times> int list)" where
  "fill_batch J fl b ids [] = Inr (b, ids)"
| "fill_batch J fl b ids (r # rs) =
     (if \<not> length ids < maxBatchRecords then Inr (b, ids)
      else if fl ''scan spool record'' then Inl ''scan spool record''
      else case addRecord J b (rw_kind r) (rw_payload r) of
        Inl e \<Rightarrow> Inl e
      | Inr None \<Rightarrow> fill_batch J fl b ids rs
      | Inr (Some b') \<Rightarrow> fill_batch J fl b' (ids @ [rw_id r]) rs)"

definition loadPending :: "codec \<Rightarrow> faults \<Rightarrow> spool_db \<Rightarrow> string + PendingBatch option" where
  "loadPending J fl s =
     (if fl ''load pending batch'' then Inl ''load pending batch''
      else case sort_key pn_seq (db_pending s) of
        [] \<Rightarrow> Inr None
      | p # _ \<Rightarrow> (case jc_DecBatch J (pn_body p) of
            None \<Rightarrow> Inl ''decode pending batch''
          | Some b \<Rightarrow> if fl ''decode pending record IDs'' then Inl ''decode pending record IDs''
                else Inr (Some \<lparr>pb_Batch = b, pb_Body = pn_body p, pb_RecordIDs = pn_record_ids p\<rparr>)))"

definition uploadable :: "spool_db \<Rightarrow> row list" where
  "uploadable s = take 400 (filter (\<lambda>r. \<not> rw_local_only r) (db_records s))"

definition reserve ::
    "codec \<Rightarrow> faults \<Rightarrow> time \<Rightarrow> u8 list option \<Rightarrow> Batch \<Rightarrow> int list \<Rightarrow> spool_db \<Rightarrow> (spool_db, PendingBatch option) tx" where
  "reserve J fl now random batch0 ids s =
     (case NewBatchID now random of
        Inl e \<Rightarrow> Inl e
      | Inr bid \<Rightarrow>
          let batch = batch0\<lparr>bt_Sequence := db_next_seq s, bt_SensorClock := Unix now, bt_BatchID := bid\<rparr>;
              body = jc_EncBatch J batch
          in guard fl ''encode batch'' (guard fl ''persist pending batch''
              (if bid \<in> pn_batch_id ` set (db_pending s) \<or> db_next_seq s \<in> pn_seq ` set (db_pending s)
               then Inl ''persist pending batch''
               else guard fl ''advance batch sequence'' (guard fl ''commit batch reservation''
                 (Inr (Some \<lparr>pb_Batch = batch, pb_Body = body, pb_RecordIDs = ids\<rparr>,
                    s\<lparr>db_pending := db_pending s @ [\<lparr>pn_batch_id = bid, pn_seq = db_next_seq s, pn_body = body,
                         pn_record_ids = ids, pn_created_at = Unix now\<rparr>],
                      db_next_seq := db_next_seq s + 1\<rparr>))))))"

text \<open>
  Only one connection is open and the service takes its operation lock, so the second look for a
  pending batch, inside the transaction, sees what the first saw.
\<close>

definition NextBatch ::
    "codec \<Rightarrow> faults \<Rightarrow> time \<Rightarrow> u8 list option \<Rightarrow> string \<Rightarrow> int \<Rightarrow> spool_db
     \<Rightarrow> spool_db \<times> (string + PendingBatch option)" where
  "NextBatch J fl now random appVersion configVersion s =
     (case loadPending J fl s of
        Inl e \<Rightarrow> (s, Inl e)
      | Inr (Some p) \<Rightarrow> (s, Inr (Some p))
      | Inr None \<Rightarrow>
          commit s (guard fl ''begin batch reservation'' (guard fl ''select spool records''
            (case fill_batch J fl (empty_batch appVersion configVersion) [] (uploadable s) of
               Inl e \<Rightarrow> Inl e
             | Inr (batch, ids) \<Rightarrow>
                 guard fl ''close spool records'' (guard fl ''iterate spool records''
                   (if ids = [] then Inr (None, s)
                    else guard fl ''read batch sequence'' (reserve J fl now random batch ids s)))))))"

section \<open>Acknowledging\<close>

text \<open>\<open>INSERT OR IGNORE INTO history SELECT ... FROM records\<close>: a source already there is skipped.\<close>

fun retain :: "row list \<Rightarrow> spool_db \<Rightarrow> spool_db" where
  "retain [] s = s"
| "retain (r # rs) s =
     (if rw_id r \<in> hi_source_id ` set (db_history s) then retain rs s
      else retain rs (s\<lparr>db_history := db_history s @ [\<lparr>hi_id = db_next_hist_id s, hi_source_id = rw_id r,
             hi_kind = rw_kind r, hi_ts = rw_ts r, hi_payload = rw_payload r, hi_local_only = rw_local_only r,
             hi_created_at = rw_created_at r\<rparr>],
           db_next_hist_id := db_next_hist_id s + 1\<rparr>))"

definition settle :: "string \<Rightarrow> int list \<Rightarrow> spool_db \<Rightarrow> spool_db" where
  "settle batchID ids s =
     (let s1 = retain (filter (\<lambda>r. rw_id r \<in> set ids) (db_records s)) s
      in s1\<lparr>db_records := filter (\<lambda>r. rw_id r \<notin> set ids) (db_records s1),
            db_pending := filter (\<lambda>p. pn_batch_id p \<noteq> batchID) (db_pending s1)\<rparr>)"

definition Ack :: "spool_options \<Rightarrow> faults \<Rightarrow> time \<Rightarrow> string \<Rightarrow> spool_db \<Rightarrow> spool_db \<times> (string + unit)" where
  "Ack opt fl now batchID s =
     commit s (guard fl ''begin batch ack'' (guard fl ''load batch ack''
       (case List.find (\<lambda>p. pn_batch_id p = batchID) (db_pending s) of
          None \<Rightarrow> Inr ((), s)
        | Some p \<Rightarrow>
            guard fl ''decode batch ack IDs'' (guard fl ''retain acknowledged local history''
              (guard fl ''delete acknowledged records'' (guard fl ''delete acknowledged batch''
                (case pruneTx opt fl now (settle batchID (pn_record_ids p) s) of
                   Inl e \<Rightarrow> Inl e
                 | Inr (_, s') \<Rightarrow> guard fl ''commit batch ack'' (Inr ((), s')))))))))"

section \<open>Reading\<close>

definition Stats_of :: "spool_options \<Rightarrow> faults \<Rightarrow> (string + int) \<Rightarrow> spool_db \<Rightarrow> string + Stats" where
  "Stats_of opt fl storage s =
     (if fl ''read spool stats'' then Inl ''read spool stats''
      else if fl ''read spool payload usage'' then Inl ''read spool payload usage''
      else if fl ''read dropped count'' then Inl ''read dropped count''
      else case storage of Inl e \<Rightarrow> Inl e
      | Inr files \<Rightarrow>
          let up = filter (\<lambda>r. \<not> rw_local_only r) (db_records s)
          in Inr \<lparr>sx_Records = int (length up), sx_Bytes = row_bytes up, sx_PayloadBytes = payloadBytes s,
               sx_PayloadLimitBytes = so_MaxPayloadBytes opt, sx_StorageBytes = files, sx_Dropped = db_dropped s\<rparr>)"

text \<open>\<open>storageBytes\<close>: the sizes of the three files; a missing one counts nothing.\<close>

fun storageBytes :: "(string + int option) list \<Rightarrow> string + int" where
  "storageBytes [] = Inr 0"
| "storageBytes (f # fs) =
     (case f of Inl e \<Rightarrow> Inl e
      | Inr found \<Rightarrow> (case storageBytes fs of Inl e \<Rightarrow> Inl e
          | Inr rest \<Rightarrow> Inr ((case found of Some n \<Rightarrow> n | None \<Rightarrow> 0) + rest)))"

text \<open>The union of both tables, by time and then by the record's own number.\<close>

definition history_entries :: "int \<Rightarrow> spool_db \<Rightarrow> (int \<times> int \<times> HistoryRecord) list" where
  "history_entries since s =
     map (\<lambda>r. (rw_ts r, rw_id r, \<lparr>hy_Kind = rw_kind r, hy_Timestamp = rw_ts r, hy_Data = rw_payload r\<rparr>))
       (filter (\<lambda>r. rw_ts r \<ge> since) (db_records s))
     @ map (\<lambda>h. (hi_ts h, hi_source_id h, \<lparr>hy_Kind = hi_kind h, hy_Timestamp = hi_ts h, hy_Data = hi_payload h\<rparr>))
       (filter (\<lambda>h. hi_ts h \<ge> since) (db_history s))"

text \<open>Ascending by time and number: a stable sort by the number, then by the time.\<close>

definition by_time :: "(int \<times> int \<times> 'a) list \<Rightarrow> (int \<times> int \<times> 'a) list" where
  "by_time xs = sort_key fst (sort_key (\<lambda>e. fst (snd e)) xs)"

definition History :: "faults \<Rightarrow> time \<Rightarrow> int \<Rightarrow> spool_db \<Rightarrow> string + HistoryRecord list" where
  "History fl since limit s =
     (if fl ''read local history'' then Inl ''read local history''
      else let n = nat (if limit \<le> 0 \<or> limit > 10000 then 10000 else limit);
               all = by_time (history_entries (Unix since) s)
           in Inr (map (snd \<circ> snd) (drop (length all - n) all)))"

section \<open>Clearing and opening\<close>

text \<open>
  The two numbers SQLite keeps for AUTOINCREMENT survive. The checkpoint after the commit may
  fail, or report the database busy; the tables are empty by then.
\<close>

definition cleared :: "spool_db \<Rightarrow> spool_db" where
  "cleared s = s\<lparr>db_pending := [], db_records := [], db_history := [], db_next_seq := 1, db_dropped := 0\<rparr>"

definition Clear :: "faults \<Rightarrow> bool \<Rightarrow> spool_db \<Rightarrow> spool_db \<times> (string + unit)" where
  "Clear fl busy s =
     (if fl ''begin spool clear'' then (s, Inl ''begin spool clear'')
      else if fl ''clear spool'' then (s, Inl ''clear spool'')
      else if fl ''commit spool clear'' then (s, Inl ''commit spool clear'')
      else if fl ''checkpoint cleared spool'' then (cleared s, Inl ''checkpoint cleared spool'')
      else if busy then (cleared s, Inl ''checkpoint cleared spool: database remained busy'')
      else (cleared s, Inr ()))"

definition Open :: "faults \<Rightarrow> time \<Rightarrow> spool_options \<Rightarrow> spool_db option \<Rightarrow> (spool_db \<times> spool_options) \<times> (string + unit)" where
  "Open fl now options stored =
     (let opt = normalize_options options;
          s = (case stored of Some db \<Rightarrow> db | None \<Rightarrow> empty_db)
      in if fl ''create spool directory'' then ((s, opt), Inl ''create spool directory'')
         else if fl ''open spool'' then ((s, opt), Inl ''open spool'')
         else if fl ''initialize spool'' then ((s, opt), Inl ''initialize spool'')
         else if fl ''check spool integrity'' then ((s, opt), Inl ''check spool integrity'')
         else let (s', r) = prune opt fl now s in ((s', opt), r))"

section \<open>The invariant\<close>

definition pending_ok :: "spool_db \<Rightarrow> pending_row \<Rightarrow> bool" where
  "pending_ok s p \<longleftrightarrow> pn_seq p < db_next_seq s \<and> pn_record_ids p \<noteq> [] \<and> distinct (pn_record_ids p)
     \<and> length (pn_record_ids p) \<le> maxBatchRecords
     \<and> (\<forall>i\<in>set (pn_record_ids p). \<exists>r\<in>set (db_records s). rw_id r = i \<and> \<not> rw_local_only r)"

definition row_ok :: "row \<Rightarrow> bool" where
  "row_ok r \<longleftrightarrow> validKind (rw_kind r) \<and> 0 < rw_ts r \<and> rw_payload r \<noteq> []"

definition spool_inv :: "spool_db \<Rightarrow> bool" where
  "spool_inv s \<longleftrightarrow>
     sorted_wrt (\<lambda>a b. rw_id a < rw_id b) (db_records s) \<and> (\<forall>r\<in>set (db_records s). rw_id r < db_next_id s \<and> row_ok r)
     \<and> sorted_wrt (\<lambda>a b. hi_id a < hi_id b) (db_history s) \<and> (\<forall>h\<in>set (db_history s). hi_id h < db_next_hist_id s)
     \<and> distinct (map hi_source_id (db_history s))
     \<and> (\<forall>h\<in>set (db_history s). hi_source_id h < db_next_id s \<and> hi_source_id h \<notin> rw_id ` set (db_records s))
     \<and> length (db_pending s) \<le> 1 \<and> (\<forall>p\<in>set (db_pending s). pending_ok s p)
     \<and> 1 \<le> db_next_seq s \<and> 0 \<le> db_dropped s"

lemma spool_inv_empty: "spool_inv empty_db"
  by (simp add: spool_inv_def empty_db_def)

section \<open>Pruning only removes\<close>

text \<open>What one state may become by removing rows that no remaining batch has reserved.\<close>

definition shrinks :: "spool_db \<Rightarrow> spool_db \<Rightarrow> bool" where
  "shrinks s s' \<longleftrightarrow> subseq (db_records s') (db_records s) \<and> subseq (db_history s') (db_history s)
     \<and> subseq (db_pending s') (db_pending s)
     \<and> (\<forall>p\<in>set (db_pending s'). \<forall>r\<in>set (db_records s). rw_id r \<in> set (pn_record_ids p) \<longrightarrow> r \<in> set (db_records s'))
     \<and> db_next_id s' = db_next_id s \<and> db_next_hist_id s' = db_next_hist_id s \<and> db_next_seq s' = db_next_seq s
     \<and> db_dropped s \<le> db_dropped s'"

lemma shrinks_refl [simp]: "shrinks s s"
  by (simp add: shrinks_def)

lemma shrinks_trans:
  assumes "shrinks a b" "shrinks b c"
  shows "shrinks a c"
proof -
  have "set (db_pending c) \<subseteq> set (db_pending b)" using assms(2) by (simp add: shrinks_def subseq_set)
  with assms show ?thesis
    unfolding shrinks_def by (auto intro: subseq_order.order_trans)
qed

lemma shrinks_inv:
  assumes "shrinks s s'" "spool_inv s"
  shows "spool_inv s'"
proof -
  have rs: "set (db_records s') \<subseteq> set (db_records s)" and hs: "set (db_history s') \<subseteq> set (db_history s)"
    and ps: "set (db_pending s') \<subseteq> set (db_pending s)"
    using assms(1) by (auto simp: shrinks_def dest: subseq_set)
  have len: "length (db_pending s') \<le> length (db_pending s)"
    using assms(1) by (auto simp: shrinks_def dest: list_emb_length)
  have pend: "pending_ok s' p" if p: "p \<in> set (db_pending s')" for p
  proof -
    have "pending_ok s p" using assms(2) ps p by (auto simp: spool_inv_def)
    then show ?thesis
      using assms(1) p by (fastforce simp: pending_ok_def shrinks_def)
  qed
  have "sorted_wrt (\<lambda>a b. rw_id a < rw_id b) (db_records s')" "sorted_wrt (\<lambda>a b. hi_id a < hi_id b) (db_history s')"
    "distinct (map hi_source_id (db_history s'))"
    using assms by (auto simp: shrinks_def spool_inv_def intro: subseq_sorted_wrt subseq_distinct subseq_map)
  then show ?thesis
    using assms rs hs len pend unfolding spool_inv_def shrinks_def by (auto 0 3)
qed

lemma unreserved_iff: "unreserved s r \<longleftrightarrow> (\<forall>p\<in>set (db_pending s). rw_id r \<notin> set (pn_record_ids p))"
  by (simp add: unreserved_def list_all_iff)

lemma unreserved_cong [simp]:
  "unreserved (s\<lparr>db_records := x\<rparr>) r = unreserved s r" "unreserved (s\<lparr>db_history := y\<rparr>) r = unreserved s r"
  "unreserved (s\<lparr>db_dropped := d\<rparr>) r = unreserved s r"
  by (simp_all add: unreserved_def)

lemma expire_shrinks: "shrinks s (snd (expire cutoff s))"
  by (auto simp: shrinks_def expire_def Let_def unreserved_iff)

lemma expire_count: "fst (expire cutoff s) = int (length (db_records s)) - int (length (db_records (snd (expire cutoff s))))"
  "0 \<le> fst (expire cutoff s)" "db_dropped (snd (expire cutoff s)) = db_dropped s"
  by (auto simp: expire_def Let_def)

lemma prune_history_shrinks:
  "shrinks s (prune_history n m s) \<and> db_records (prune_history n m s) = db_records s
   \<and> db_pending (prune_history n m s) = db_pending s \<and> db_dropped (prune_history n m s) = db_dropped s"
proof (induction n arbitrary: s)
  case (Suc n)
  have "shrinks s (s\<lparr>db_history := drop 128 (db_history s)\<rparr>)" by (simp add: shrinks_def)
  with Suc[of "s\<lparr>db_history := drop 128 (db_history s)\<rparr>"] show ?case by (auto intro: shrinks_trans)
qed simp

lemma prune_history_done:
  "length (db_history s) \<le> n \<Longrightarrow>
   payloadBytes (prune_history n m s) \<le> m \<or> db_history (prune_history n m s) = []"
proof (induction n arbitrary: s)
  case (Suc n)
  then have "length (db_history (s\<lparr>db_history := drop 128 (db_history s)\<rparr>)) \<le> n" by simp
  from Suc.IH[OF this] show ?case by auto
qed simp

lemma overflow_prefix_take: "\<exists>n. overflow_prefix b m rs = take n rs"
proof (induction rs arbitrary: b)
  case (Cons r rs)
  obtain n where "overflow_prefix (b - int (length (rw_payload r))) m rs = take n rs" using Cons by blast
  then have "overflow_prefix b m (r # rs) = take (if b - int (length (rw_payload r)) \<le> m then 1 else Suc n) (r # rs)"
    by (simp add: Let_def)
  then show ?case by blast
qed simp

lemma overflow_prefix_set: "set (overflow_prefix b m rs) \<subseteq> set rs"
  by (metis overflow_prefix_take set_take_subset)

lemma overflow_prefix_Nil [simp]: "overflow_prefix b m rs = [] \<longleftrightarrow> rs = []"
  by (cases rs) (simp_all add: Let_def)

lemma remove_victims:
  assumes "distinct (map rw_id rs)" "distinct V" "set V \<subseteq> set rs"
  shows "row_bytes (filter (\<lambda>r. rw_id r \<notin> rw_id ` set V) rs) = row_bytes rs - row_bytes V"
    and "int (length (filter (\<lambda>r. rw_id r \<notin> rw_id ` set V) rs)) = int (length rs) - int (length V)"
proof -
  let ?F = "filter (\<lambda>r. rw_id r \<notin> rw_id ` set V) rs"
  have d: "distinct rs" using assms(1) by (simp add: distinct_map)
  have F: "set ?F = set rs - set V"
    using assms(1,3) by (auto simp: distinct_map inj_on_def)
  have b: "row_bytes xs = (\<Sum>r\<in>set xs. int (length (rw_payload r)))" if "distinct xs" for xs
    using that by (simp add: row_bytes_def sum_list_distinct_conv_sum_set)
  have dF: "distinct ?F" using d by simp
  show "row_bytes ?F = row_bytes rs - row_bytes V"
    using sum_diff[OF finite_set assms(3), of "\<lambda>r. int (length (rw_payload r))"]
    by (simp only: b[OF dF] b[OF d] b[OF assms(2)] F)
  have "length ?F = card (set rs - set V)" using dF F distinct_card by metis
  also have "\<dots> = length rs - length V"
    using d assms(2,3) by (simp add: card_Diff_subset distinct_card)
  finally show "int (length ?F) = int (length rs) - int (length V)"
    using card_mono[OF finite_set assms(3)] d assms(2) by (simp add: distinct_card)
qed

lemma sorted_ids_distinct: "sorted_wrt (\<lambda>a b. rw_id a < rw_id b) rs \<Longrightarrow> distinct (map rw_id rs)"
  by (induction rs) auto

text \<open>What a run of the overflow loop leaves.\<close>

lemma prune_rows_spec:
  assumes "sorted_wrt (\<lambda>a b. rw_id a < rw_id b) (db_records s)" "prune_rows n m (payloadBytes s) d s = (d', s')"
  shows "shrinks s s' \<and> db_pending s' = db_pending s \<and> db_history s' = db_history s \<and> db_dropped s' = db_dropped s
    \<and> d' - d = int (length (db_records s)) - int (length (db_records s'))
    \<and> (length (db_records s) \<le> n \<longrightarrow> payloadBytes s' \<le> m \<or> filter (unreserved s') (db_records s') = [])"
  using assms
proof (induction n arbitrary: d s)
  case 0
  then show ?case by auto
next
  case (Suc n)
  define U where "U = take 128 (filter (unreserved s) (db_records s))"
  define V where "V = overflow_prefix (payloadBytes s) m U"
  define s1 where "s1 = s\<lparr>db_records := filter (\<lambda>r. rw_id r \<notin> rw_id ` set V) (db_records s)\<rparr>"
  show ?case
  proof (cases "payloadBytes s > m \<and> V \<noteq> []")
    case False
    then show ?thesis
      using Suc.prems(2) by (auto simp: V_def U_def[symmetric] split: if_splits) (auto simp: U_def)
  next
    case True
    obtain k where k: "V = take k U" using overflow_prefix_take[of "payloadBytes s" m U] by (auto simp: V_def)
    have ids: "distinct (map rw_id (db_records s))" by (rule sorted_ids_distinct[OF Suc.prems(1)])
    then have "distinct V" by (auto simp: k U_def distinct_map)
    moreover have VU: "set V \<subseteq> {r \<in> set (db_records s). unreserved s r}"
      using set_take_subset[of k U] set_take_subset[of 128 "filter (unreserved s) (db_records s)"] by (auto simp: k U_def)
    ultimately have rm: "row_bytes (db_records s1) = row_bytes (db_records s) - row_bytes V"
      "int (length (db_records s1)) = int (length (db_records s)) - int (length V)"
      using remove_victims[OF ids, of V] by (auto simp: s1_def)
    then have used: "payloadBytes s - row_bytes V = payloadBytes s1" by (simp add: payloadBytes_def s1_def)
    have run: "prune_rows n m (payloadBytes s1) (d + int (length V)) s1 = (d', s')"
      using Suc.prems(2) True used by (simp add: V_def[symmetric] U_def[symmetric] s1_def[symmetric] Let_def)
    have keep: "rw_id r \<notin> rw_id ` set V" if "r \<in> set (db_records s)" "p \<in> set (db_pending s)" "rw_id r \<in> set (pn_record_ids p)" for r p
      using that VU by (auto simp: unreserved_iff)
    then have sh: "shrinks s s1" by (auto simp: shrinks_def s1_def)
    have "sorted_wrt (\<lambda>a b. rw_id a < rw_id b) (db_records s1)"
      using Suc.prems(1) by (simp add: s1_def sorted_wrt_filter)
    note IH = Suc.IH[OF this run]
    have "int (length V) > 0" using True by simp
    then have "length (db_records s) \<le> Suc n \<Longrightarrow> length (db_records s1) \<le> n" using rm(2) by linarith
    with IH rm(2) sh shrinks_trans show ?thesis
      by (auto simp: s1_def)
  qed
qed

lemma row_bytes_nonneg: "0 \<le> row_bytes rs"
  by (induction rs) (auto simp: row_bytes_def)

lemma row_bytes_subseq: "subseq xs ys \<Longrightarrow> row_bytes xs \<le> row_bytes ys"
  by (induction rule: list_emb.induct) (auto simp: row_bytes_def row_bytes_nonneg[unfolded row_bytes_def])

text \<open>What a completed pruning guarantees.\<close>

lemma pruneTx_spec:
  assumes "pruneTx opt fl now s = Inr (dropped, s')" "spool_inv s"
  shows "shrinks s s' \<and> db_dropped s' = db_dropped s + dropped
    \<and> dropped = int (length (db_records s)) - int (length (db_records s'))
    \<and> db_pending s' = filter (\<lambda>p. Unix (now - so_MaxAge opt) \<le> pn_created_at p) (db_pending s)
    \<and> (payloadBytes s' \<le> so_MaxPayloadBytes opt
       \<or> (db_history s' = [] \<and> (\<forall>r\<in>set (db_records s'). rw_id r \<in> reserved_ids s')))
    \<and> (\<forall>r\<in>set (db_records s'). rw_ts r < Unix (now - so_MaxAge opt) \<longrightarrow> rw_id r \<in> reserved_ids s')
    \<and> (\<forall>h\<in>set (db_history s'). Unix (now - so_MaxAge opt) \<le> hi_ts h)"
proof -
  define cut where "cut = Unix (now - so_MaxAge opt)"
  define m where "m = so_MaxPayloadBytes opt"
  obtain e s1 where e: "expire cut s = (e, s1)" by (cases "expire cut s")
  define s2 where "s2 = prune_history (length (db_history s1)) m s1"
  obtain d s3 where d: "prune_rows (length (db_records s2)) m (payloadBytes s2) e s2 = (d, s3)" by (cases "prune_rows (length (db_records s2)) m (payloadBytes s2) e s2")
  have res: "dropped = d" "s' = (if d > 0 then s3\<lparr>db_dropped := db_dropped s3 + d\<rparr> else s3)"
    using assms(1) e d by (auto simp: pruneTx_def guard_def guard_if_def cut_def[symmetric] m_def[symmetric]
        s2_def[symmetric] Let_def split: if_splits)
  have s1: "shrinks s s1" "e = int (length (db_records s)) - int (length (db_records s1))" "0 \<le> e" "db_dropped s1 = db_dropped s"
    using expire_shrinks[of s cut] expire_count[of cut s] by (simp_all add: e)
  have s2: "shrinks s1 s2" "db_records s2 = db_records s1" "db_pending s2 = db_pending s1" "db_dropped s2 = db_dropped s1"
    "payloadBytes s2 \<le> m \<or> db_history s2 = []"
    using prune_history_shrinks[of s1] prune_history_done[OF order_refl, of s1 m] by (simp_all add: s2_def)
  have inv2: "spool_inv s2" using assms(2) s1(1) s2(1) shrinks_inv by blast
  then have srt: "sorted_wrt (\<lambda>a b. rw_id a < rw_id b) (db_records s2)" by (simp add: spool_inv_def)
  note s3 = prune_rows_spec[OF srt d]
  have "length (db_records s3) \<le> length (db_records s2)"
    using s3 by (auto simp: shrinks_def intro: list_emb_length)
  then have d0: "0 \<le> d" using s3 s1(3) by linarith
  have sh: "shrinks s s'"
  proof -
    have "shrinks s3 s'" using d0 by (auto simp: res shrinks_def)
    then show ?thesis using s1(1) s2(1) s3 shrinks_trans by blast
  qed
  have eq: "db_records s' = db_records s3" "db_history s' = db_history s3" "db_pending s' = db_pending s3"
    "payloadBytes s' = payloadBytes s3" "reserved_ids s' = reserved_ids s3"
    by (simp_all add: res payloadBytes_def reserved_ids_def)
  have pend: "db_pending s1 = filter (\<lambda>p. cut \<le> pn_created_at p) (db_pending s)"
    using e by (auto simp: expire_def Let_def not_less)
  have old1: "\<forall>r\<in>set (db_records s1). rw_ts r < cut \<longrightarrow> \<not> unreserved s1 r" and oldh: "\<forall>h\<in>set (db_history s1). cut \<le> hi_ts h"
    using e by (auto simp: expire_def Let_def)
  have nu: "\<not> unreserved t r \<longleftrightarrow> rw_id r \<in> reserved_ids t" for t r by (auto simp: unreserved_iff reserved_ids_def)
  have r31: "reserved_ids s3 = reserved_ids s1" using s3 s2(3) by (simp add: reserved_ids_def)
  have sub: "set (db_records s3) \<subseteq> set (db_records s1)" "set (db_history s3) \<subseteq> set (db_history s1)"
    using s3 s2 by (auto simp: shrinks_def dest: subseq_set)
  have "payloadBytes s3 \<le> m \<or> (db_history s3 = [] \<and> (\<forall>r\<in>set (db_records s3). rw_id r \<in> reserved_ids s3))"
  proof (cases "payloadBytes s3 \<le> m")
    case False
    then have f: "filter (unreserved s3) (db_records s3) = []" using s3 by blast
    have "db_history s3 = []"
    proof (cases "db_history s2 = []")
      case True
      then show ?thesis using s3 by simp
    next
      case nonempty: False
      then have "payloadBytes s2 \<le> m" using s2(5) by blast
      moreover have "payloadBytes s3 \<le> payloadBytes s2"
        using s3 row_bytes_subseq[of "db_records s3" "db_records s2"] by (simp add: shrinks_def payloadBytes_def)
      ultimately show ?thesis using False by simp
    qed
    then show ?thesis using f nu by (auto simp: filter_empty_conv)
  qed simp
  moreover have "\<forall>r\<in>set (db_records s3). rw_ts r < cut \<longrightarrow> rw_id r \<in> reserved_ids s3"
    using old1 sub(1) nu r31 by blast
  ultimately show ?thesis
    using sh eq res(1) s3 s2 s1 pend oldh sub(2) d0
    by (simp add: cut_def[symmetric] m_def[symmetric]) (auto simp: res)
qed

section \<open>Every operation keeps the invariant\<close>

lemma pruneTx_inv: "pruneTx opt fl now s = Inr (d, s') \<Longrightarrow> spool_inv s \<Longrightarrow> spool_inv s'"
  using pruneTx_spec shrinks_inv by blast

lemma insert_records_spec:
  assumes "insert_records fl lo cr rs s = Inr s'" "spool_inv s"
  shows "spool_inv s' \<and> db_pending s' = db_pending s \<and> db_history s' = db_history s \<and> db_dropped s' = db_dropped s
    \<and> (\<exists>new. db_records s' = db_records s @ new \<and> length new = length rs \<and> (\<forall>r\<in>set new. rw_local_only r = lo)
         \<and> map rw_kind new = map rd_Kind rs \<and> map rw_payload new = map rd_Payload rs
         \<and> map rw_id new = map (\<lambda>i. db_next_id s + int i) [0..<length rs])"
  using assms
proof (induction rs arbitrary: s)
  case Nil
  then show ?case by simp
next
  case (Cons r rs)
  let ?row = "\<lparr>rw_id = db_next_id s, rw_kind = rd_Kind r, rw_ts = rd_Timestamp r, rw_payload = rd_Payload r,
      rw_local_only = lo, rw_created_at = cr\<rparr>"
  let ?s = "s\<lparr>db_records := db_records s @ [?row], db_next_id := db_next_id s + 1\<rparr>"
  have ok: "validKind (rd_Kind r)" "0 < rd_Timestamp r" "rd_Payload r \<noteq> []" and run: "insert_records fl lo cr rs ?s = Inr s'"
    using Cons.prems(1) by (auto split: if_splits)
  have "\<forall>p\<in>set (db_pending s). pending_ok ?s p" using Cons.prems(2) by (auto simp: spool_inv_def pending_ok_def)
  then have inv: "spool_inv ?s"
    using Cons.prems(2) ok by (fastforce simp: spool_inv_def sorted_wrt_append row_ok_def)
  from Cons.IH[OF run inv] obtain new where new: "db_records s' = db_records ?s @ new" "length new = length rs"
    "\<forall>r\<in>set new. rw_local_only r = lo" "map rw_kind new = map rd_Kind rs" "map rw_payload new = map rd_Payload rs"
    "map rw_id new = map (\<lambda>i. db_next_id ?s + int i) [0..<length rs]" by blast
  have up: "map (\<lambda>i. db_next_id s + int i) [0..<length (r # rs)]
      = db_next_id s # map (\<lambda>i. db_next_id s + 1 + int i) [0..<length rs]"
    by (simp add: upt_conv_Cons map_Suc_upt[symmetric] del: upt_Suc)
  have "db_records s' = db_records s @ (?row # new)" using new(1) by simp
  then show ?case
    using Cons.IH[OF run inv] new(2-6) up by (intro conjI exI[of _ "?row # new"]) simp_all
qed

lemma fill_batch_spec:
  "fill_batch J fl b ids rs = Inr (b', ids') \<Longrightarrow> length ids \<le> maxBatchRecords \<Longrightarrow>
   (\<exists>more. ids' = ids @ more \<and> subseq more (map rw_id rs)) \<and> length ids' \<le> maxBatchRecords"
proof (induction J fl b ids rs rule: fill_batch.induct)
  case (2 J fl b ids r rs)
  show ?case
  proof (cases "length ids < maxBatchRecords")
    case False
    with "2.prems" show ?thesis by auto
  next
    case True
    with "2.prems"(1) have sc: "\<not> fl ''scan spool record''" by auto
    show ?thesis
    proof (cases "addRecord J b (rw_kind r) (rw_payload r)")
      case (Inl e)
      with True sc "2.prems" show ?thesis by simp
    next
      case (Inr ob)
      show ?thesis
      proof (cases ob)
        case None
        with "2.IH"(1) True sc Inr "2.prems" show ?thesis by (auto intro: list_emb_Cons)
      next
        case (Some b1)
        with Inr True sc "2.prems" have run: "fill_batch J fl b1 (ids @ [rw_id r]) rs = Inr (b', ids')" by simp
        with "2.IH"(2)[OF _ sc Inr Some run] True
        have "(\<exists>more. ids' = (ids @ [rw_id r]) @ more \<and> subseq more (map rw_id rs)) \<and> length ids' \<le> maxBatchRecords"
          by simp
        then obtain more where "ids' = (ids @ [rw_id r]) @ more" "subseq more (map rw_id rs)" "length ids' \<le> maxBatchRecords"
          by blast
        then show ?thesis by (intro conjI exI[of _ "rw_id r # more"]) simp_all
      qed
    qed
  qed
qed auto

lemma uploadable_ids:
  assumes "subseq ids (map rw_id (uploadable s))" "spool_inv s"
  shows "distinct ids \<and> (\<forall>i\<in>set ids. \<exists>r\<in>set (db_records s). rw_id r = i \<and> \<not> rw_local_only r)
    \<and> sorted_wrt (<) ids"
proof -
  have sub: "subseq (uploadable s) (db_records s)"
    unfolding uploadable_def by (metis subseq_filter_left subseq_order.order_trans take_is_prefix prefix_imp_subseq)
  then have srt: "sorted_wrt (\<lambda>a b. rw_id a < rw_id b) (uploadable s)"
    using assms(2) by (auto simp: spool_inv_def intro: subseq_sorted_wrt)
  then have "sorted_wrt (<) (map rw_id (uploadable s))" by (simp add: sorted_wrt_map)
  then have ids: "sorted_wrt (<) ids" by (rule subseq_sorted_wrt[OF assms(1)])
  then have "distinct ids" by (simp add: strict_sorted_iff)
  moreover have "\<exists>r\<in>set (db_records s). rw_id r = i \<and> \<not> rw_local_only r" if "i \<in> set ids" for i
  proof -
    have "i \<in> set (map rw_id (uploadable s))" using that assms(1) subseq_set by blast
    then obtain r where "r \<in> set (uploadable s)" "rw_id r = i" by auto
    then have "r \<in> set (filter (\<lambda>r. \<not> rw_local_only r) (db_records s))"
      unfolding uploadable_def by (blast dest: in_set_takeD)
    then show ?thesis using \<open>rw_id r = i\<close> by auto
  qed
  ultimately show ?thesis using ids by blast
qed

lemma retain_fields [simp]:
  "db_records (retain rs s) = db_records s" "db_pending (retain rs s) = db_pending s"
  "db_next_id (retain rs s) = db_next_id s" "db_next_seq (retain rs s) = db_next_seq s"
  "db_dropped (retain rs s) = db_dropped s"
  by (induction rs arbitrary: s) auto

lemma retain_history:
  assumes "sorted_wrt (\<lambda>a b. hi_id a < hi_id b) (db_history s)" "\<forall>h\<in>set (db_history s). hi_id h < db_next_hist_id s"
    "distinct (map hi_source_id (db_history s))" "distinct (map rw_id rs)"
    "\<forall>r\<in>set rs. rw_id r \<notin> hi_source_id ` set (db_history s)"
  shows "sorted_wrt (\<lambda>a b. hi_id a < hi_id b) (db_history (retain rs s))
    \<and> (\<forall>h\<in>set (db_history (retain rs s)). hi_id h < db_next_hist_id (retain rs s))
    \<and> (\<exists>new. db_history (retain rs s) = db_history s @ new \<and> map hi_source_id new = map rw_id rs
         \<and> map hi_kind new = map rw_kind rs \<and> map hi_ts new = map rw_ts rs \<and> map hi_payload new = map rw_payload rs)"
  using assms
proof (induction rs arbitrary: s)
  case (Cons r rs)
  let ?h = "\<lparr>hi_id = db_next_hist_id s, hi_source_id = rw_id r, hi_kind = rw_kind r, hi_ts = rw_ts r,
      hi_payload = rw_payload r, hi_local_only = rw_local_only r, hi_created_at = rw_created_at r\<rparr>"
  let ?s = "s\<lparr>db_history := db_history s @ [?h], db_next_hist_id := db_next_hist_id s + 1\<rparr>"
  have run: "retain (r # rs) s = retain rs ?s" using Cons.prems(5) by auto
  have "sorted_wrt (\<lambda>a b. hi_id a < hi_id b) (db_history ?s)" "\<forall>h\<in>set (db_history ?s). hi_id h < db_next_hist_id ?s"
    "distinct (map hi_source_id (db_history ?s))" "distinct (map rw_id rs)"
    "\<forall>r\<in>set rs. rw_id r \<notin> hi_source_id ` set (db_history ?s)"
    using Cons.prems by (auto simp: sorted_wrt_append image_iff)
  note IH = Cons.IH[OF this]
  then obtain new where "db_history (retain rs ?s) = db_history ?s @ new" "map hi_source_id new = map rw_id rs"
    "map hi_kind new = map rw_kind rs" "map hi_ts new = map rw_ts rs" "map hi_payload new = map rw_payload rs" by blast
  with IH show ?case unfolding run by (intro conjI exI[of _ "?h # new"]) simp_all
qed auto

lemma settle_inv:
  assumes "spool_inv s" "db_pending s = [p]"
  shows "spool_inv (settle (pn_batch_id p) (pn_record_ids p) s)
    \<and> db_pending (settle (pn_batch_id p) (pn_record_ids p) s) = []
    \<and> db_records (settle (pn_batch_id p) (pn_record_ids p) s) = filter (\<lambda>r. rw_id r \<notin> set (pn_record_ids p)) (db_records s)
    \<and> (\<exists>new. db_history (settle (pn_batch_id p) (pn_record_ids p) s) = db_history s @ new
         \<and> map hi_source_id new = map rw_id (filter (\<lambda>r. rw_id r \<in> set (pn_record_ids p)) (db_records s))
         \<and> map hi_kind new = map rw_kind (filter (\<lambda>r. rw_id r \<in> set (pn_record_ids p)) (db_records s))
         \<and> map hi_ts new = map rw_ts (filter (\<lambda>r. rw_id r \<in> set (pn_record_ids p)) (db_records s))
         \<and> map hi_payload new = map rw_payload (filter (\<lambda>r. rw_id r \<in> set (pn_record_ids p)) (db_records s)))"
proof -
  let ?B = "filter (\<lambda>r. rw_id r \<in> set (pn_record_ids p)) (db_records s)"
  have ids: "distinct (map rw_id (db_records s))"
    using assms(1) by (auto simp: spool_inv_def intro: sorted_ids_distinct)
  then have dB: "distinct (map rw_id ?B)" by (rule distinct_map_filter)
  have "\<forall>r\<in>set ?B. rw_id r \<notin> hi_source_id ` set (db_history s)"
    using assms(1) by (force simp: spool_inv_def)
  then obtain new where H: "sorted_wrt (\<lambda>a b. hi_id a < hi_id b) (db_history (retain ?B s))"
      "\<forall>h\<in>set (db_history (retain ?B s)). hi_id h < db_next_hist_id (retain ?B s)"
      "db_history (retain ?B s) = db_history s @ new" "map hi_source_id new = map rw_id ?B"
      "map hi_kind new = map rw_kind ?B" "map hi_ts new = map rw_ts ?B" "map hi_payload new = map rw_payload ?B"
    using retain_history[of s ?B] assms(1) dB by (auto simp: spool_inv_def)
  let ?t = "settle (pn_batch_id p) (pn_record_ids p) s"
  have t: "db_records ?t = filter (\<lambda>r. rw_id r \<notin> set (pn_record_ids p)) (db_records s)" "db_pending ?t = []"
    "db_history ?t = db_history s @ new" "db_next_id ?t = db_next_id s" "db_next_seq ?t = db_next_seq s"
    "db_dropped ?t = db_dropped s" "db_next_hist_id ?t = db_next_hist_id (retain ?B s)"
    using assms(2) H(3) by (simp_all add: settle_def Let_def)
  have src: "hi_source_id ` set new = rw_id ` set ?B" using H(4) by (metis list.set_map)
  have dn: "distinct (map hi_source_id (db_history s @ new))"
    using assms(1) dB H(4) src by (fastforce simp: spool_inv_def)
  have s1: "hi_source_id h < db_next_id s \<and> hi_source_id h \<notin> rw_id ` set (db_records ?t)" if h: "h \<in> set (db_history s @ new)" for h
  proof (cases "h \<in> set (db_history s)")
    case True
    then show ?thesis using assms(1) by (auto simp: spool_inv_def t(1))
  next
    case False
    then have "hi_source_id h \<in> rw_id ` set ?B" using h src by auto
    then show ?thesis using assms(1) by (auto simp: spool_inv_def t(1))
  qed
  have "spool_inv ?t"
    using assms(1) H(1,2,3) dn s1 unfolding spool_inv_def t by (auto simp: sorted_wrt_filter)
  with t H show ?thesis by blast
qed

lemma commit_Inr: "commit s t = (s', Inr a) \<longleftrightarrow> t = Inr (a, s')"
  by (auto simp: commit_def split: sum.split)

lemma commit_Inl: "commit s t = (s', Inl e) \<longleftrightarrow> t = Inl e \<and> s' = s"
  by (auto simp: commit_def split: sum.split)

lemma guard_Inr: "guard fl m t = Inr x \<longleftrightarrow> \<not> fl m \<and> t = Inr x"
  by (simp add: guard_def)

lemma commit_inv: "(\<And>a s'. t = Inr (a, s') \<Longrightarrow> spool_inv s') \<Longrightarrow> spool_inv s \<Longrightarrow> spool_inv (fst (commit s t))"
  by (auto simp: commit_def split: sum.split)

lemma append_records_Inr:
  assumes "append_records opt fl now rs lo s = (s', Inr d)" "rs \<noteq> []"
  obtains s1 where "insert_records fl lo (Unix now) rs s = Inr s1" "pruneTx opt fl now s1 = Inr (d, s')"
  using assms by (auto simp: append_records_def commit_Inr guard_Inr split: sum.splits)

lemma append_records_inv: "spool_inv s \<Longrightarrow> spool_inv (fst (append_records opt fl now rs lo s))"
proof (cases "append_records opt fl now rs lo s")
  case (Pair s' r)
  assume inv: "spool_inv s"
  show ?thesis
  proof (cases r)
    case (Inl e)
    then show ?thesis using Pair inv by (auto simp: append_records_def commit_Inl split: if_splits)
  next
    case (Inr d)
    show ?thesis
    proof (cases "rs = []")
      case True
      then show ?thesis using inv by (simp add: append_records_def)
    next
      case False
      then obtain s1 where "insert_records fl lo (Unix now) rs s = Inr s1" "pruneTx opt fl now s1 = Inr (d, s')"
        using append_records_Inr Pair Inr by blast
      then show ?thesis using insert_records_spec pruneTx_inv inv Pair by fastforce
    qed
  qed
qed

lemma reserve_inv:
  assumes "reserve J fl now rnd b ids s = Inr (x, s')" "spool_inv s" "db_pending s = []"
    "ids \<noteq> []" "length ids \<le> maxBatchRecords" "subseq ids (map rw_id (uploadable s))"
  shows "spool_inv s'"
proof -
  from assms(1) obtain bid body cr where s': "s' = s\<lparr>db_pending := db_pending s @ [\<lparr>pn_batch_id = bid, pn_seq = db_next_seq s,
      pn_body = body, pn_record_ids = ids, pn_created_at = cr\<rparr>], db_next_seq := db_next_seq s + 1\<rparr>"
    by (auto simp: reserve_def guard_def Let_def split: sum.splits if_splits)
  show ?thesis
    using uploadable_ids[OF assms(6,2)] assms(2-5) unfolding s' by (auto simp: spool_inv_def pending_ok_def)
qed

lemma loadPending_None: "loadPending J fl s = Inr None \<Longrightarrow> db_pending s = []"
  by (cases "db_pending s = []")
     (auto simp: loadPending_def neq_Nil_conv split: if_splits list.splits option.splits
        dest: arg_cong[of _ _ length])

text \<open>The transaction of \<open>NextBatch\<close> when nothing is pending.\<close>

definition next_tx ::
    "codec \<Rightarrow> faults \<Rightarrow> time \<Rightarrow> u8 list option \<Rightarrow> string \<Rightarrow> int \<Rightarrow> spool_db \<Rightarrow> (spool_db, PendingBatch option) tx" where
  "next_tx J fl now random v c s =
     guard fl ''begin batch reservation'' (guard fl ''select spool records''
       (case fill_batch J fl (empty_batch v c) [] (uploadable s) of
          Inl e \<Rightarrow> Inl e
        | Inr (batch, ids) \<Rightarrow>
            guard fl ''close spool records'' (guard fl ''iterate spool records''
              (if ids = [] then Inr (None, s)
               else guard fl ''read batch sequence'' (reserve J fl now random batch ids s)))))"

lemma NextBatch_tx:
  "loadPending J fl s = Inr None \<Longrightarrow> NextBatch J fl now rnd v c s = commit s (next_tx J fl now rnd v c s)"
  by (simp add: NextBatch_def next_tx_def)

lemma next_tx_Inr:
  assumes "next_tx J fl now rnd v c s = Inr (x, s')"
  obtains (none) b where "x = None" "s' = s" "fill_batch J fl (empty_batch v c) [] (uploadable s) = Inr (b, [])"
  | (some) b ids where "ids \<noteq> []" "fill_batch J fl (empty_batch v c) [] (uploadable s) = Inr (b, ids)"
      "reserve J fl now rnd b ids s = Inr (x, s')"
proof (cases "fill_batch J fl (empty_batch v c) [] (uploadable s)")
  case (Inl e)
  then show ?thesis using assms by (simp add: next_tx_def guard_def split: if_splits)
next
  case (Inr r)
  obtain b ids where "r = (b, ids)" by (cases r)
  then show ?thesis using assms Inr that(2)[of ids b] none by (cases "ids = []") (auto simp: next_tx_def guard_def split: if_splits)
qed

lemma reserve_ids: "reserve J fl now rnd b ids s = Inr (Some pb, s') \<Longrightarrow> pb_RecordIDs pb = ids"
  by (auto simp: reserve_def guard_def Let_def split: sum.splits if_splits)

lemma NextBatch_fresh:
  assumes "NextBatch J fl now rnd v c s = (s', Inr (Some pb))" "db_pending s = []"
  obtains b where "fill_batch J fl (empty_batch v c) [] (uploadable s) = Inr (b, pb_RecordIDs pb)" "pb_RecordIDs pb \<noteq> []"
    "reserve J fl now rnd b (pb_RecordIDs pb) s = Inr (Some pb, s')"
proof (cases "loadPending J fl s")
  case (Inl e)
  then show ?thesis using assms(1) by (simp add: NextBatch_def)
next
  case (Inr ob)
  then have "ob = None" using assms(2) by (simp add: loadPending_def split: if_splits)
  then have "next_tx J fl now rnd v c s = Inr (Some pb, s')" using assms(1) Inr by (simp add: NextBatch_tx commit_Inr)
  then show ?thesis
  proof (cases rule: next_tx_Inr)
    case (some b ids)
    then show ?thesis using that reserve_ids by blast
  next
    case (none b)
    then show ?thesis by simp
  qed
qed

lemma NextBatch_inv:
  assumes "spool_inv s"
  shows "spool_inv (fst (NextBatch J fl now rnd v c s))"
proof (cases "loadPending J fl s")
  case (Inl e)
  then show ?thesis using assms by (simp add: NextBatch_def)
next
  case (Inr ob)
  show ?thesis
  proof (cases ob)
    case None
    then have p: "db_pending s = []" using Inr loadPending_None by blast
    have "spool_inv s'" if "next_tx J fl now rnd v c s = Inr (x, s')" for x s'
      using that
    proof (cases rule: next_tx_Inr)
      case (none b)
      then show ?thesis using assms by simp
    next
      case (some b ids)
      from fill_batch_spec[OF some(2)] have "subseq ids (map rw_id (uploadable s))" "length ids \<le> maxBatchRecords"
        by auto
      with some reserve_inv[OF some(3) assms p] show ?thesis by blast
    qed
    then show ?thesis using assms Inr None by (simp add: NextBatch_tx commit_inv)
  next
    case (Some pb)
    then show ?thesis using assms Inr by (simp add: NextBatch_def)
  qed
qed

lemma Ack_inv: "spool_inv s \<Longrightarrow> spool_inv (fst (Ack opt fl now bid s))"
proof -
  assume inv: "spool_inv s"
  show ?thesis
  proof (cases "List.find (\<lambda>p. pn_batch_id p = bid) (db_pending s)")
    case None
    then show ?thesis using inv by (simp add: Ack_def commit_def guard_def)
  next
    case (Some p)
    then have p: "p \<in> set (db_pending s)" "pn_batch_id p = bid" by (auto simp: find_Some_iff)
    moreover have "length (db_pending s) \<le> 1" using inv by (simp add: spool_inv_def)
    ultimately have "db_pending s = [p]" by (cases "db_pending s") auto
    from settle_inv[OF inv this] p(2) have "spool_inv (settle bid (pn_record_ids p) s)" by simp
    then show ?thesis
      using inv Some pruneTx_inv unfolding Ack_def
      by (auto intro!: commit_inv simp: guard_Inr split: sum.splits)
  qed
qed

lemma cleared_inv: "spool_inv s \<Longrightarrow> spool_inv (cleared s)"
  by (auto simp: spool_inv_def cleared_def)

lemma Clear_inv: "spool_inv s \<Longrightarrow> spool_inv (fst (Clear fl busy s))"
  using cleared_inv by (auto simp: Clear_def)

lemma prune_inv: "spool_inv s \<Longrightarrow> spool_inv (fst (prune opt fl now s))"
  unfolding prune_def by (auto intro!: commit_inv dest: pruneTx_inv simp: guard_Inr split: sum.splits)

section \<open>The queue as a machine\<close>

datatype spool_event =
    Append spool_options faults time bool "Record list"
  | Next codec faults time "u8 list option" string int
  | Acknowledge spool_options faults time string
  | Prune spool_options faults time
  | ClearAll faults bool

fun spool_step :: "spool_db \<Rightarrow> spool_event \<Rightarrow> spool_db" where
  "spool_step s (Append opt fl now lo rs) = fst (append_records opt fl now rs lo s)"
| "spool_step s (Next J fl now rnd v c) = fst (NextBatch J fl now rnd v c s)"
| "spool_step s (Acknowledge opt fl now bid) = fst (Ack opt fl now bid s)"
| "spool_step s (Prune opt fl now) = fst (prune opt fl now s)"
| "spool_step s (ClearAll fl busy) = fst (Clear fl busy s)"

lemma spool_step_inv: "spool_inv s \<Longrightarrow> spool_inv (spool_step s e)"
  by (cases e) (simp_all add: append_records_inv NextBatch_inv Ack_inv prune_inv Clear_inv)

lemma fst_commit_le:
  "(\<And>a s'. t = Inr (a, s') \<Longrightarrow> db_next_id s \<le> db_next_id s') \<Longrightarrow> db_next_id s \<le> db_next_id (fst (commit s t))"
  by (auto simp: commit_def split: sum.split)

lemma insert_records_next_id: "insert_records fl lo cr rs s = Inr s' \<Longrightarrow> db_next_id s \<le> db_next_id s'"
  by (induction rs arbitrary: s) (fastforce split: if_splits)+

lemma pruneTx_next_id: "pruneTx opt fl now s = Inr (d, s') \<Longrightarrow> spool_inv s \<Longrightarrow> db_next_id s' = db_next_id s"
  using pruneTx_spec by (auto simp: shrinks_def)

lemma spool_step_next_id:
  assumes "spool_inv s"
  shows "db_next_id s \<le> db_next_id (spool_step s e)"
proof (cases e)
  case (Append opt fl now lo rs)
  show ?thesis
  proof (cases "append_records opt fl now rs lo s")
    case (Pair s' r)
    show ?thesis
    proof (cases r)
      case (Inl m)
      then show ?thesis using Append Pair by (auto simp: append_records_def commit_Inl split: if_splits)
    next
      case (Inr d)
      show ?thesis
      proof (cases "rs = []")
        case False
        then obtain s1 where "insert_records fl lo (Unix now) rs s = Inr s1" "pruneTx opt fl now s1 = Inr (d, s')"
          using append_records_Inr Pair Inr by blast
        then show ?thesis
          using insert_records_next_id insert_records_spec pruneTx_next_id assms Append Pair by fastforce
      qed (simp add: Append append_records_def)
    qed
  qed
next
  case (Next J fl now rnd v c)
  have r: "reserve J fl now rnd b ids s = Inr (x, s') \<Longrightarrow> db_next_id s' = db_next_id s" for b ids x s'
    by (auto simp: reserve_def guard_def Let_def split: sum.splits if_splits)
  have "db_next_id s \<le> db_next_id s'" if "next_tx J fl now rnd v c s = Inr (x, s')" for x s'
    using that by (cases rule: next_tx_Inr) (auto dest: r)
  then have "loadPending J fl s = Inr None \<Longrightarrow> db_next_id s \<le> db_next_id (fst (NextBatch J fl now rnd v c s))"
    by (simp add: NextBatch_tx fst_commit_le)
  then show ?thesis using Next by (auto simp: NextBatch_def split: sum.split option.split)
next
  case (Acknowledge opt fl now bid)
  have "db_next_id s \<le> db_next_id s'"
    if "List.find (\<lambda>p. pn_batch_id p = bid) (db_pending s) = Some p" "pruneTx opt fl now (settle bid (pn_record_ids p) s) = Inr (d, s')" for p d s'
  proof -
    have p: "p \<in> set (db_pending s)" "pn_batch_id p = bid" using that(1) by (auto simp: find_Some_iff)
    moreover have "length (db_pending s) \<le> 1" using assms by (simp add: spool_inv_def)
    ultimately have "db_pending s = [p]" by (cases "db_pending s") auto
    with settle_inv[OF assms this] p(2) pruneTx_next_id[OF that(2)] show ?thesis by (simp add: settle_def Let_def)
  qed
  then show ?thesis
    using Acknowledge
    by (auto intro!: fst_commit_le simp: Ack_def guard_Inr split: sum.splits option.splits)
next
  case (Prune opt fl now)
  then show ?thesis
    by (auto intro!: fst_commit_le dest: pruneTx_next_id[OF _ assms] simp: prune_def guard_Inr split: sum.splits)
next
  case (ClearAll fl busy)
  then show ?thesis by (simp add: Clear_def cleared_def)
qed

interpretation spool: monotone_machine spool_step spool_inv db_next_id
  by unfold_locales (simp_all add: spool_step_inv spool_step_next_id)

section \<open>Properties\<close>

text \<open>
  (C3) Whatever is done to the queue, in whatever order, with faults wherever the driver may fail:
  from a new file it stays consistent. Records and history rows are in strictly ascending key
  order and no record is in both; at most one batch is reserved; its records are in the table,
  are not local-only, are between 1 and 200 and appear once; and a record number is never given
  out twice, not even after a clear.
\<close>

theorem spool_consistent:
  "spool_inv (foldl spool_step empty_db es)
   \<and> db_next_id (foldl spool_step empty_db es) \<le> db_next_id (foldl spool_step empty_db (es @ es'))"
  using spool.run_inv[OF spool_inv_empty] spool.run_mono[OF spool.run_inv[OF spool_inv_empty]]
  by (simp add: foldl_append)

lemma append_accounting_pending:
  assumes "spool_inv s" "rs \<noteq> []" "append_records opt fl now rs lo s = (s', Inr d)"
  shows "db_pending s' = filter (\<lambda>p. Unix (now - so_MaxAge opt) \<le> pn_created_at p) (db_pending s)"
proof -
  from append_records_Inr[OF assms(3,2)] obtain s1 where
    "insert_records fl lo (Unix now) rs s = Inr s1" "pruneTx opt fl now s1 = Inr (d, s')" by blast
  then show ?thesis using insert_records_spec[OF _ assms(1)] pruneTx_spec by metis
qed

text \<open>
  What a successful append leaves: the new records follow the old ones in order; the count
  returned is exactly the number of rows removed and is added to the dropped counter; no row of
  the reserved batch is removed unless the batch itself has expired; and the payload is within the
  budget, or everything that may go has gone: the history is empty and every record is reserved.
\<close>

theorem append_accounting:
  assumes "spool_inv s" "rs \<noteq> []" "append_records opt fl now rs lo s = (s', Inr d)"
  shows "(\<exists>new. subseq (db_records s') (db_records s @ new) \<and> map rw_payload new = map rd_Payload rs
        \<and> map rw_kind new = map rd_Kind rs \<and> (\<forall>r\<in>set new. rw_local_only r = lo)
        \<and> d = int (length (db_records s @ new)) - int (length (db_records s')))
    \<and> db_dropped s' = db_dropped s + d
    \<and> db_pending s' = filter (\<lambda>p. Unix (now - so_MaxAge opt) \<le> pn_created_at p) (db_pending s)
    \<and> (\<forall>r\<in>set (db_records s). rw_id r \<in> reserved_ids s' \<longrightarrow> r \<in> set (db_records s'))
    \<and> (payloadBytes s' \<le> so_MaxPayloadBytes opt
       \<or> (db_history s' = [] \<and> (\<forall>r\<in>set (db_records s'). rw_id r \<in> reserved_ids s')))"
proof -
  from append_records_Inr[OF assms(3,2)] obtain s1 where
    i: "insert_records fl lo (Unix now) rs s = Inr s1" and p: "pruneTx opt fl now s1 = Inr (d, s')" by blast
  note ins = insert_records_spec[OF i assms(1)]
  then obtain new where new: "db_records s1 = db_records s @ new" "map rw_payload new = map rd_Payload rs"
    "map rw_kind new = map rd_Kind rs" "\<forall>r\<in>set new. rw_local_only r = lo" by blast
  note pr = pruneTx_spec[OF p, OF conjunct1[OF ins]]
  have "\<forall>r\<in>set (db_records s). rw_id r \<in> reserved_ids s' \<longrightarrow> r \<in> set (db_records s')"
    using pr new(1) by (auto simp: shrinks_def reserved_ids_def)
  moreover have "subseq (db_records s') (db_records s @ new)" using pr new(1) by (simp add: shrinks_def)
  ultimately show ?thesis using pr ins new by (intro conjI exI[of _ new]) auto
qed

text \<open>A small queue: two uploadable records, one local one.\<close>

definition no_faults :: faults where "no_faults = (\<lambda>_. False)"

definition small_options :: spool_options where
  "small_options = \<lparr>so_MaxPayloadBytes = 1000, so_MaxAge = 3600 * Second\<rparr>"

definition small_record :: "int \<Rightarrow> Record" where
  "small_record t = \<lparr>rd_Kind = KindSpeedTest, rd_Timestamp = t, rd_Payload = ''{}''\<rparr>"

definition small_db :: spool_db where
  "small_db = empty_db\<lparr>db_records := [\<lparr>rw_id = 1, rw_kind = KindSpeedTest, rw_ts = 4000, rw_payload = ''{}'',
     rw_local_only = False, rw_created_at = 5000\<rparr>], db_next_id := 2\<rparr>"

lemma small_append:
  "append_records small_options no_faults (5000 * Second) [small_record 4000] False empty_db
   = (small_db, Inr 0)"
  by (simp add: append_records_def commit_def guard_def guard_if_def no_faults_def small_record_def small_options_def
      validKind_def empty_db_def small_db_def pruneTx_def expire_def payloadBytes_def row_bytes_def hist_bytes_def
      unreserved_def Unix_def Let_def)

theorem append_accounting_witness:
  "db_pending (fst (append_records small_options no_faults (5000 * Second) [small_record 4000] False empty_db)) = []
   \<and> db_dropped (fst (append_records small_options no_faults (5000 * Second) [small_record 4000] False empty_db))
       = db_dropped empty_db + 0"
proof -
  have "db_pending small_db = [] \<and> db_dropped small_db = db_dropped empty_db + 0"
    using append_accounting[OF spool_inv_empty _ small_append] by (simp add: empty_db_def)
  then show ?thesis by (simp only: small_append fst_conv)
qed

section \<open>What a batch holds\<close>

fun kind_count :: "Batch \<Rightarrow> string \<Rightarrow> nat" where
  "kind_count b k =
     (if k = KindMinuteMetric then length (bt_MinuteMetrics b)
      else if k = KindDNSCheck then length (bt_DNSChecks b)
      else if k = KindHTTPCheck then length (bt_HTTPChecks b)
      else if k = KindLinkContext then length (bt_LinkContext b)
      else if k = KindSpeedTest then length (bt_SpeedTests b)
      else if k = KindEvent then length (bt_Events b) else 0)"

definition kind_limit :: "string \<Rightarrow> nat" where
  "kind_limit k = (if k = KindSpeedTest then 8 else if k = KindEvent then 100 else if validKind k then 60 else 0)"

declare kind_count.simps [simp del]

lemma kind_count_update [simp]:
  "kind_count (b\<lparr>bt_MinuteMetrics := mm\<rparr>) k = (if k = KindMinuteMetric then length mm else kind_count b k)"
  "kind_count (b\<lparr>bt_DNSChecks := dc\<rparr>) k = (if k = KindDNSCheck then length dc else kind_count b k)"
  "kind_count (b\<lparr>bt_HTTPChecks := hk\<rparr>) k = (if k = KindHTTPCheck then length hk else kind_count b k)"
  "kind_count (b\<lparr>bt_LinkContext := lc\<rparr>) k = (if k = KindLinkContext then length lc else kind_count b k)"
  "kind_count (b\<lparr>bt_SpeedTests := st\<rparr>) k = (if k = KindSpeedTest then length st else kind_count b k)"
  "kind_count (b\<lparr>bt_Events := ev\<rparr>) k = (if k = KindEvent then length ev else kind_count b k)"
  by (simp_all add: kind_count.simps)

lemma kind_count_kinds:
  "kind_count b KindMinuteMetric = length (bt_MinuteMetrics b)" "kind_count b KindDNSCheck = length (bt_DNSChecks b)"
  "kind_count b KindHTTPCheck = length (bt_HTTPChecks b)" "kind_count b KindLinkContext = length (bt_LinkContext b)"
  "kind_count b KindSpeedTest = length (bt_SpeedTests b)" "kind_count b KindEvent = length (bt_Events b)"
  by (simp_all add: kind_count.simps)

lemma kind_limit_kinds:
  "kind_limit KindMinuteMetric = 60" "kind_limit KindDNSCheck = 60" "kind_limit KindHTTPCheck = 60"
  "kind_limit KindLinkContext = 60" "kind_limit KindSpeedTest = 8" "kind_limit KindEvent = 100"
  by (simp_all add: kind_limit_def validKind_def)

lemma room_Inr:
  "room xs n dec put = Inr ob \<Longrightarrow> (ob = None \<longleftrightarrow> n \<le> length xs) \<and> (\<forall>b'. ob = Some b' \<longrightarrow> (\<exists>v. b' = put v))"
  by (auto simp: room_def split: if_splits option.splits)

lemma addRecord_room:
  assumes "addRecord J b k payload = Inr ob"
  shows "(ob = None \<longleftrightarrow> kind_limit k \<le> kind_count b k)
   \<and> (\<forall>b'. ob = Some b' \<longrightarrow> kind_count b' k = Suc (kind_count b k) \<and> (\<forall>k'. k' \<noteq> k \<longrightarrow> kind_count b' k' = kind_count b k'))"
proof -
  consider "k = KindMinuteMetric" | "k = KindDNSCheck" | "k = KindHTTPCheck" | "k = KindLinkContext"
    | "k = KindSpeedTest" | "k = KindEvent"
    using assms by (auto simp: addRecord_def split: if_splits)
  then show ?thesis
    by cases (use assms in \<open>auto simp: addRecord_def kind_limit_kinds kind_count_kinds dest!: room_Inr\<close>)
qed

lemma fill_batch_limits:
  "fill_batch J fl b ids rs = Inr (b', ids') \<Longrightarrow> \<forall>k. kind_count b k \<le> kind_limit k \<Longrightarrow>
   \<forall>k. kind_count b' k \<le> kind_limit k"
proof (induction J fl b ids rs rule: fill_batch.induct)
  case (2 J fl b ids r rs)
  show ?case
  proof (cases "length ids < maxBatchRecords \<and> \<not> fl ''scan spool record''")
    case False
    with "2.prems" show ?thesis by (auto split: if_splits)
  next
    case True
    then have t: "length ids < maxBatchRecords" "\<not> fl ''scan spool record''" by auto
    show ?thesis
    proof (cases "addRecord J b (rw_kind r) (rw_payload r)")
      case (Inl e)
      with t "2.prems"(1) show ?thesis by simp
    next
      case (Inr ob)
      note room = addRecord_room[OF Inr]
      show ?thesis
      proof (cases ob)
        case None
        with t Inr "2.prems" "2.IH"(1)[OF _ t(2) Inr None] show ?thesis by auto
      next
        case (Some b1)
        have "\<forall>k. kind_count b1 k \<le> kind_limit k"
        proof
          fix k
          show "kind_count b1 k \<le> kind_limit k"
            using room Some "2.prems"(2) by (cases "k = rw_kind r") auto
        qed
        with t Inr Some "2.prems" "2.IH"(2)[OF _ t(2) Inr Some] show ?thesis by auto
      qed
    qed
  qed
qed auto

lemma empty_batch_counts: "kind_count (empty_batch v c) k = 0"
  by (simp add: kind_count.simps empty_batch_def)

lemma kind_count_identity [simp]:
  "kind_count (b\<lparr>bt_BatchID := x\<rparr>) k = kind_count b k" "kind_count (b\<lparr>bt_Sequence := q\<rparr>) k = kind_count b k"
  "kind_count (b\<lparr>bt_SensorClock := t\<rparr>) k = kind_count b k"
  by (simp_all add: kind_count.simps)

lemma reserve_Inr:
  assumes "reserve J fl now rnd b ids s = Inr (Some pb, s')"
  obtains bid where
    "pb_Batch pb = b\<lparr>bt_Sequence := db_next_seq s, bt_SensorClock := Unix now, bt_BatchID := bid\<rparr>"
    "pb_Body pb = jc_EncBatch J (pb_Batch pb)" "pb_RecordIDs pb = ids"
    "s' = s\<lparr>db_pending := db_pending s @ [\<lparr>pn_batch_id = bid, pn_seq = db_next_seq s, pn_body = pb_Body pb,
            pn_record_ids = ids, pn_created_at = Unix now\<rparr>], db_next_seq := db_next_seq s + 1\<rparr>"
proof (cases "NewBatchID now rnd")
  case (Inl e)
  then show ?thesis using assms by (simp add: reserve_def)
next
  case (Inr bid)
  let ?batch = "b\<lparr>bt_Sequence := db_next_seq s, bt_SensorClock := Unix now, bt_BatchID := bid\<rparr>"
  have pb: "pb = \<lparr>pb_Batch = ?batch, pb_Body = jc_EncBatch J ?batch, pb_RecordIDs = ids\<rparr>"
    using assms Inr by (simp add: reserve_def guard_Inr Let_def split: if_splits)
  have s': "s' = s\<lparr>db_pending := db_pending s @ [\<lparr>pn_batch_id = bid, pn_seq = db_next_seq s,
      pn_body = jc_EncBatch J ?batch, pn_record_ids = ids, pn_created_at = Unix now\<rparr>],
      db_next_seq := db_next_seq s + 1\<rparr>"
    using assms Inr by (simp add: reserve_def guard_Inr Let_def split: if_splits)
  show ?thesis by (rule that[of bid]) (simp_all add: pb s')
qed

lemma reserve_row:
  assumes "reserve J fl now rnd b ids s = Inr (Some pb, s')" "db_pending s = []"
  obtains row where "db_pending s' = [row]" "pn_body row = pb_Body pb" "pn_record_ids row = pb_RecordIDs pb"
    "pn_created_at row = Unix now" "pb_Body pb = jc_EncBatch J (pb_Batch pb)" "pn_batch_id row = bt_BatchID (pb_Batch pb)"
proof -
  from reserve_Inr[OF assms(1)] obtain bid where
    "pb_Batch pb = b\<lparr>bt_Sequence := db_next_seq s, bt_SensorClock := Unix now, bt_BatchID := bid\<rparr>"
    "pb_Body pb = jc_EncBatch J (pb_Batch pb)" "pb_RecordIDs pb = ids"
    "s' = s\<lparr>db_pending := db_pending s @ [\<lparr>pn_batch_id = bid, pn_seq = db_next_seq s, pn_body = pb_Body pb,
            pn_record_ids = ids, pn_created_at = Unix now\<rparr>], db_next_seq := db_next_seq s + 1\<rparr>" .
  then show ?thesis using that assms(2) by simp
qed

text \<open>
  What a fresh batch may contain: between 1 and 200 records in ascending order, none of them
  local-only, no more of any kind than the protocol allows (60 metrics, DNS, HTTP and link records
  each, 8 speed tests, 100 events), under the next sequence number, which is then used up.
\<close>

theorem NextBatch_contents:
  assumes "spool_inv s" "db_pending s = []" "NextBatch J fl now rnd v c s = (s', Inr (Some pb))"
  shows "pb_RecordIDs pb \<noteq> [] \<and> length (pb_RecordIDs pb) \<le> 200 \<and> sorted_wrt (<) (pb_RecordIDs pb)
    \<and> (\<forall>r\<in>set (db_records s). rw_id r \<in> set (pb_RecordIDs pb) \<longrightarrow> \<not> rw_local_only r)
    \<and> set (pb_RecordIDs pb) \<subseteq> rw_id ` set (db_records s)
    \<and> (\<forall>k. kind_count (pb_Batch pb) k \<le> kind_limit k)
    \<and> bt_Sequence (pb_Batch pb) = db_next_seq s \<and> db_next_seq s' = db_next_seq s + 1
    \<and> db_records s' = db_records s"
proof -
  obtain b where f: "fill_batch J fl (empty_batch v c) [] (uploadable s) = Inr (b, pb_RecordIDs pb)"
    and ne: "pb_RecordIDs pb \<noteq> []" and r: "reserve J fl now rnd b (pb_RecordIDs pb) s = Inr (Some pb, s')"
    using NextBatch_fresh[OF assms(3,2)] by blast
  from fill_batch_spec[OF f] have sub: "subseq (pb_RecordIDs pb) (map rw_id (uploadable s))"
    and len: "length (pb_RecordIDs pb) \<le> maxBatchRecords" by auto
  note ids = uploadable_ids[OF sub assms(1)]
  have lims: "\<forall>k. kind_count b k \<le> kind_limit k"
    by (rule fill_batch_limits[OF f]) (simp add: empty_batch_counts)
  have inj: "r = r'" if "r \<in> set (db_records s)" "r' \<in> set (db_records s)" "rw_id r = rw_id r'" for r r'
    using sorted_ids_distinct[of "db_records s"] assms(1) that by (auto simp: spool_inv_def distinct_map inj_on_def)
  have "\<not> rw_local_only r" if a: "r \<in> set (db_records s)" and b: "rw_id r \<in> set (pb_RecordIDs pb)" for r
  proof -
    obtain r' where "r' \<in> set (db_records s)" "rw_id r' = rw_id r" "\<not> rw_local_only r'" using ids b by blast
    then show ?thesis using inj[OF a, of r'] by simp
  qed
  moreover have "set (pb_RecordIDs pb) \<subseteq> rw_id ` set (db_records s)"
  proof
    fix i assume "i \<in> set (pb_RecordIDs pb)"
    then obtain r where "r \<in> set (db_records s)" "rw_id r = i" using ids by blast
    then show "i \<in> rw_id ` set (db_records s)" by blast
  qed
  ultimately show ?thesis
    using ids ne len lims by (rule_tac reserve_Inr[OF r]) auto
qed

definition small_codec :: codec where
  "small_codec = \<lparr>jc_DecMinute = (\<lambda>_. None), jc_DecDNS = (\<lambda>_. None), jc_DecHTTP = (\<lambda>_. None),
     jc_DecLink = (\<lambda>_. None), jc_DecEvent = (\<lambda>_. None), jc_Valid = (\<lambda>_. True),
     jc_EncBatch = bt_BatchID, jc_DecBatch = (\<lambda>_. Some (empty_batch '''' 0))\<rparr>"

lemma small_db_inv: "spool_inv small_db"
  by (simp add: spool_inv_def small_db_def empty_db_def row_ok_def validKind_def)

lemma small_next:
  obtains s' pb where "NextBatch small_codec no_faults (6000 * Second) (Some (replicate 16 0)) ''1'' 1 small_db = (s', Inr (Some pb))"
    "pb_RecordIDs pb = [1]"
proof -
  have "\<exists>s' pb. NextBatch small_codec no_faults (6000 * Second) (Some (replicate 16 0)) ''1'' 1 small_db = (s', Inr (Some pb))
      \<and> pb_RecordIDs pb = [1]"
    by (simp add: NextBatch_def loadPending_def small_db_def empty_db_def no_faults_def guard_def uploadable_def
        addRecord_def room_def small_codec_def empty_batch_def reserve_def NewBatchID_def commit_def Let_def)
  then show ?thesis using that by blast
qed

theorem NextBatch_contents_witness:
  "\<exists>s' pb. NextBatch small_codec no_faults (6000 * Second) (Some (replicate 16 0)) ''1'' 1 small_db = (s', Inr (Some pb))
     \<and> length (pb_RecordIDs pb) \<le> 200"
proof -
  obtain s' pb where n: "NextBatch small_codec no_faults (6000 * Second) (Some (replicate 16 0)) ''1'' 1 small_db = (s', Inr (Some pb))"
    using small_next by blast
  have "db_pending small_db = []" by (simp add: small_db_def empty_db_def)
  from NextBatch_contents[OF small_db_inv this n] n show ?thesis by blast
qed

section \<open>Retrying\<close>

lemma pending_load:
  assumes "db_pending s = [row]" "pn_body row = pb_Body pb" "pn_record_ids row = pb_RecordIDs pb"
    "jc_DecBatch J (pb_Body pb) = Some (pb_Batch pb)" "\<not> fl ''load pending batch''" "\<not> fl ''decode pending record IDs''"
  shows "loadPending J fl s = Inr (Some pb)"
  using assms by (cases pb) (simp add: loadPending_def)

lemma append_keeps_pending:
  assumes "spool_inv s" "db_pending s = [row]" "Unix (now - so_MaxAge opt) \<le> pn_created_at row"
  shows "db_pending (fst (append_records opt fl now rs lo s)) = [row]"
proof (cases "append_records opt fl now rs lo s")
  case (Pair s' res)
  show ?thesis
  proof (cases res)
    case (Inl e)
    then show ?thesis using Pair assms(2) by (auto simp: append_records_def commit_Inl split: if_splits)
  next
    case (Inr d)
    show ?thesis
    proof (cases "rs = []")
      case True
      then show ?thesis using assms(2) by (simp add: append_records_def)
    next
      case False
      have "db_pending s' = filter (\<lambda>p. Unix (now - so_MaxAge opt) \<le> pn_created_at p) (db_pending s)"
        using append_accounting_pending[OF assms(1) False] Pair Inr by blast
      then show ?thesis using Pair assms(2,3) by simp
    qed
  qed
qed

text \<open>
  (C4) A reserved batch is stable under retry. Once it is handed out, the next call returns the
  very same batch, body and records, whatever the version, configuration and clock are then, and
  changes nothing; and so it does after any append in between, successful or failed, as long as
  the batch is younger than the retention age. All it asks of JSON is that this body decodes to
  the batch it encodes.
\<close>

theorem NextBatch_retry_stable:
  assumes "spool_inv s" "db_pending s = []" "jc_DecBatch J (pb_Body pb) = Some (pb_Batch pb)"
    "NextBatch J fl now rnd v c s = (s1, Inr (Some pb))" "Unix (now1 - so_MaxAge opt) \<le> Unix now" "\<not> fl2 ''load pending batch''" "\<not> fl2 ''decode pending record IDs''"
  shows "NextBatch J fl2 now2 rnd2 v2 c2 s1 = (s1, Inr (Some pb))
    \<and> (let s2 = fst (append_records opt fl1 now1 rs lo s1)
       in NextBatch J fl2 now2 rnd2 v2 c2 s2 = (s2, Inr (Some pb)))"
proof -
  obtain b where r: "reserve J fl now rnd b (pb_RecordIDs pb) s = Inr (Some pb, s1)"
    using NextBatch_fresh[OF assms(4,2)] by blast
  obtain row where row: "db_pending s1 = [row]" "pn_body row = pb_Body pb" "pn_record_ids row = pb_RecordIDs pb"
    "pn_created_at row = Unix now"
    using reserve_row[OF r assms(2)] by metis
  have inv: "spool_inv s1" using NextBatch_inv[OF assms(1)] assms(4) by (metis fst_conv)
  let ?s2 = "fst (append_records opt fl1 now1 rs lo s1)"
  have "db_pending ?s2 = [row]" using append_keeps_pending[OF inv row(1)] row(4) assms(5) by simp
  then have "loadPending J fl2 ?s2 = Inr (Some pb)" using row(2,3) assms(3,6,7) by (rule pending_load)
  moreover have "loadPending J fl2 s1 = Inr (Some pb)" using row(1-3) assms(3,6,7) by (rule pending_load)
  ultimately show ?thesis by (simp add: NextBatch_def Let_def)
qed
definition retry_codec :: codec where
  "retry_codec = small_codec\<lparr>jc_DecBatch := (\<lambda>_. Some ((empty_batch ''1'' 1)
     \<lparr>bt_SpeedTests := [''{}''], bt_Sequence := 1, bt_SensorClock := 6000,
      bt_BatchID := uuid_string (batch_id_bytes (6000 * Second) (replicate 16 0))\<rparr>))\<rparr>"

theorem NextBatch_retry_stable_witness:
  "\<exists>s1 pb. NextBatch retry_codec no_faults (6000 * Second) (Some (replicate 16 0)) ''1'' 1 small_db = (s1, Inr (Some pb))
     \<and> NextBatch retry_codec no_faults (6100 * Second) None ''2'' 7 s1 = (s1, Inr (Some pb))"
proof -
  have "\<exists>s1 pb. NextBatch retry_codec no_faults (6000 * Second) (Some (replicate 16 0)) ''1'' 1 small_db = (s1, Inr (Some pb))
      \<and> jc_DecBatch retry_codec (pb_Body pb) = Some (pb_Batch pb)"
    by (simp add: NextBatch_def loadPending_def small_db_def empty_db_def no_faults_def guard_def uploadable_def
        addRecord_def room_def retry_codec_def small_codec_def empty_batch_def reserve_def NewBatchID_def commit_def
        Let_def Unix_def)
  then obtain s1 pb where n: "NextBatch retry_codec no_faults (6000 * Second) (Some (replicate 16 0)) ''1'' 1 small_db = (s1, Inr (Some pb))"
    and d: "jc_DecBatch retry_codec (pb_Body pb) = Some (pb_Batch pb)" by blast
  have "db_pending small_db = []" by (simp add: small_db_def empty_db_def)
  from NextBatch_retry_stable[OF small_db_inv this d n, of "6100 * Second" small_options no_faults, THEN conjunct1] n
  show ?thesis by (auto simp: small_options_def Unix_def no_faults_def)
qed

section \<open>Acknowledging a batch\<close>

lemma Ack_tx:
  assumes "spool_inv s" "db_pending s = [p]" "Ack opt fl now (pn_batch_id p) s = (s', Inr ())"
  obtains d where "pruneTx opt fl now (settle (pn_batch_id p) (pn_record_ids p) s) = Inr (d, s')"
  using assms(2,3) by (auto simp: Ack_def commit_Inr guard_Inr split: sum.splits)


lemma pruneTx_no_faults: "\<exists>d s'. pruneTx opt no_faults now s = Inr (d, s')"
proof -
  have [simp]: "guard no_faults m t = t" "guard_if b no_faults m t = t" for m t b
    by (simp_all add: guard_def guard_if_def no_faults_def)
  show ?thesis by (simp add: pruneTx_def Let_def split: prod.split)
qed

definition pending_db :: spool_db where
  "pending_db = small_db\<lparr>db_pending := [\<lparr>pn_batch_id = ''b'', pn_seq = 1, pn_body = ''{}'', pn_record_ids = [1],
     pn_created_at = 6000\<rparr>], db_next_seq := 2\<rparr>"

lemma pending_db_inv: "spool_inv pending_db"
  by (simp add: spool_inv_def pending_db_def small_db_def empty_db_def row_ok_def validKind_def pending_ok_def)


section \<open>Reading the history\<close>

lemma by_time_sorted: "sorted (map fst (by_time xs))"
  by (simp add: by_time_def)

lemma mset_by_time: "mset (by_time xs) = mset xs"
  by (simp add: by_time_def)

text \<open>
  A history query returns the newest entries at or after the given time, of records and
  history together, in ascending order of time: at most the limit, which is 10000 when none or a
  larger one is asked for; what it leaves out is not newer than anything it returns, and it leaves
  nothing out unless the limit is reached.
\<close>

theorem History_newest:
  assumes "History fl since limit s = Inr hs"
  shows "\<exists>left. mset left + mset hs = mset (map (snd \<circ> snd) (history_entries (Unix since) s))
    \<and> sorted (map hy_Timestamp hs) \<and> (\<forall>a\<in>set left. \<forall>b\<in>set hs. hy_Timestamp a \<le> hy_Timestamp b)
    \<and> (let n = (if limit \<le> 0 \<or> limit > 10000 then 10000 else limit)
       in int (length hs) \<le> n \<and> (left \<noteq> [] \<longrightarrow> int (length hs) = n))
    \<and> (\<forall>b\<in>set hs. Unix since \<le> hy_Timestamp b)"
proof -
  define n where "n = nat (if limit \<le> 0 \<or> limit > 10000 then 10000 else limit)"
  define all where "all = by_time (history_entries (Unix since) s)"
  define k where "k = length all - n"
  have hs: "hs = map (snd \<circ> snd) (drop k all)"
    using assms unfolding History_def Let_def all_def[symmetric] n_def[symmetric] k_def[symmetric]
    by (simp split: if_splits)
  have entry: "fst e = hy_Timestamp (snd (snd e)) \<and> Unix since \<le> fst e" if "e \<in> set all" for e
    using that mset_by_time[of "history_entries (Unix since) s", THEN arg_cong[where f = set_mset]]
    by (auto simp: all_def history_entries_def)
  have srt: "sorted (map fst all)" by (simp add: all_def by_time_sorted)
  let ?left = "map (snd \<circ> snd) (take k all)"
  have "mset ?left + mset hs = mset (map (snd \<circ> snd) all)"
    unfolding hs by (metis append_take_drop_id map_append mset_append)
  then have ms: "mset ?left + mset hs = mset (map (snd \<circ> snd) (history_entries (Unix since) s))"
    by (simp add: all_def mset_by_time)
  have ts: "map hy_Timestamp hs = map fst (drop k all)"
    unfolding hs using entry by (auto dest: in_set_dropD)
  have s1: "sorted (map hy_Timestamp hs)" unfolding ts by (metis drop_map sorted_wrt_drop srt)
  have "sorted (map fst (take k all) @ map fst (drop k all))" using srt by (metis append_take_drop_id map_append)
  then have s2: "\<forall>x\<in>set (take k all). \<forall>y\<in>set (drop k all). fst x \<le> fst y" by (simp add: sorted_append)
  have s3: "\<forall>a\<in>set ?left. \<forall>b\<in>set hs. hy_Timestamp a \<le> hy_Timestamp b"
  proof (intro ballI)
    fix a b assume "a \<in> set ?left" "b \<in> set hs"
    then obtain x y where "x \<in> set (take k all)" "a = snd (snd x)" "y \<in> set (drop k all)" "b = snd (snd y)"
      unfolding hs by auto
    then show "hy_Timestamp a \<le> hy_Timestamp b" using s2 entry by (metis in_set_dropD in_set_takeD)
  qed
  have "length hs = length all - k" by (simp add: hs)
  then have len: "length hs \<le> n" "?left \<noteq> [] \<longrightarrow> length hs = n" by (auto simp: k_def)
  have n: "int n = (if limit \<le> 0 \<or> limit > 10000 then 10000 else limit)" by (simp add: n_def)
  have s4: "\<forall>b\<in>set hs. Unix since \<le> hy_Timestamp b"
    unfolding hs using entry by (auto dest: in_set_dropD)
  show ?thesis
    by (rule exI[of _ ?left]) (use ms s1 s3 s4 len in \<open>simp add: n[symmetric] Let_def del: map_is_Nil_conv\<close>)
qed

theorem History_newest_witness:
  "\<exists>hs. History no_faults (3000 * Second) 5 pending_db = Inr hs \<and> sorted (map hy_Timestamp hs)"
proof -
  obtain hs where h: "History no_faults (3000 * Second) 5 pending_db = Inr hs" by (simp add: History_def no_faults_def Let_def)
  from History_newest[OF this] show ?thesis using h by blast
qed

end
