(* ===== verification/Aggregate.thy ===== *)
theory Aggregate
  imports Spool "HOL-Library.AList" "HOL-Library.List_Lexorder" "HOL-Library.Char_ord" "HOL-Library.Product_Lexorder"
begin

text \<open>
  The minute aggregator (\<open>internal/aggregate/aggregate.go\<close>): probe samples are collected per target
  and minute, and closed minutes become one row each. The map of buckets is an association list
  with distinct keys; its order is never seen, since a flush sorts the keys. A round-trip time is
  \<open>None\<close> when the \<open>float64\<close> is not finite. Encoding a row as JSON is a parameter which may fail.
\<close>

section \<open>State\<close>

record Sample =
  am_Timestamp :: time
  am_Target :: string
  am_RTTMS :: "real option"
  am_Success :: bool
  am_Fallback :: string
  am_TargetClass :: TargetClass
  am_ProbeMethod :: ProbeMethod

record bucket =
  bu_timestamp :: time
  bu_target :: string
  bu_attempts :: int
  bu_values :: "real list"
  bu_fallback :: string
  bu_targetClass :: TargetClass
  bu_probeMethod :: ProbeMethod

type_synonym bucketKey = "string \<times> int"

record Aggregator =
  ag_buckets :: "(bucketKey \<times> bucket) list"
  ag_pending :: "Record list"
  ag_live :: "Sample list"
  ag_sealed :: "string \<rightharpoonup> int"

text \<open>\<open>json.Marshal\<close> of the values the aggregator records.\<close>

record marshal =
  js_Minute :: "MinuteMetric \<Rightarrow> string option"
  js_DNS :: "DNSCheck \<Rightarrow> string option"
  js_HTTP :: "HTTPCheck \<Rightarrow> string option"
  js_Link :: "LinkContext \<Rightarrow> string option"
  js_Speed :: "SpeedTest \<Rightarrow> string option"
  js_Event :: "Event \<Rightarrow> string option"

definition liveCapacity :: nat where
  "liveCapacity = 10 * 60"

definition New :: Aggregator where
  "New = \<lparr>ag_buckets = [], ag_pending = [], ag_live = [], ag_sealed = Map.empty\<rparr>"

section \<open>Collecting\<close>

definition finiteBounded :: "real option \<Rightarrow> bool" where
  "finiteBounded v = (case v of None \<Rightarrow> False | Some x \<Rightarrow> 0 \<le> x \<and> x \<le> 60000)"

definition sample_key :: "Sample \<Rightarrow> bucketKey" where
  "sample_key s = (am_Target s, Unix (truncate_minute (am_Timestamp s)))"

definition sealed_out :: "Aggregator \<Rightarrow> bucketKey \<Rightarrow> bool" where
  "sealed_out a k = (case ag_sealed a (fst k) of Some minute \<Rightarrow> snd k \<le> minute | None \<Rightarrow> False)"

definition new_bucket :: "Sample \<Rightarrow> bucket" where
  "new_bucket s = \<lparr>bu_timestamp = truncate_minute (am_Timestamp s), bu_target = am_Target s, bu_attempts = 0,
     bu_values = [], bu_fallback = am_Fallback s, bu_targetClass = am_TargetClass s, bu_probeMethod = am_ProbeMethod s\<rparr>"

definition record_sample :: "Sample \<Rightarrow> bucket \<Rightarrow> bucket" where
  "record_sample s b = b
     \<lparr>bu_attempts := bu_attempts b + 1,
      bu_values := (if am_Success s \<and> finiteBounded (am_RTTMS s) then bu_values b @ [the (am_RTTMS s)] else bu_values b),
      bu_fallback := (if am_Fallback s \<noteq> '''' \<and> am_Fallback s \<noteq> ''none'' then am_Fallback s else bu_fallback b),
      bu_targetClass := (if am_TargetClass s \<noteq> '''' then am_TargetClass s else bu_targetClass b),
      bu_probeMethod := (if am_ProbeMethod s \<noteq> '''' then am_ProbeMethod s else bu_probeMethod b)\<rparr>"

definition push_live :: "Sample \<Rightarrow> Sample list \<Rightarrow> Sample list" where
  "push_live s live = (if length live = liveCapacity then drop 1 live else live) @ [s]"

definition AddSample :: "Aggregator \<Rightarrow> Sample \<Rightarrow> Aggregator" where
  "AddSample a s =
     (let k = sample_key s in
      if sealed_out a k then a
      else let b = (case map_of (ag_buckets a) k of Some b \<Rightarrow> b | None \<Rightarrow> new_bucket s)
           in a\<lparr>ag_buckets := AList.update k (record_sample s b) (ag_buckets a), ag_live := push_live s (ag_live a)\<rparr>)"

definition NewRecord :: "string \<Rightarrow> int \<Rightarrow> string option \<Rightarrow> string + Record" where
  "NewRecord kind timestamp encoded =
     (case encoded of None \<Rightarrow> Inl (''encode '' @ kind @ '' record'')
      | Some payload \<Rightarrow> Inr \<lparr>rd_Kind = kind, rd_Timestamp = timestamp, rd_Payload = payload\<rparr>)"

definition agg_addRecord :: "string \<Rightarrow> int \<Rightarrow> string option \<Rightarrow> Aggregator \<Rightarrow> Aggregator \<times> string option" where
  "agg_addRecord kind timestamp encoded a =
     (case NewRecord kind timestamp encoded of Inl e \<Rightarrow> (a, Some e)
      | Inr r \<Rightarrow> (a\<lparr>ag_pending := ag_pending a @ [r]\<rparr>, None))"

definition AddDNS :: "marshal \<Rightarrow> DNSCheck \<Rightarrow> Aggregator \<Rightarrow> Aggregator \<times> string option" where
  "AddDNS J v = agg_addRecord KindDNSCheck (dc_Timestamp v) (js_DNS J v)"

definition AddHTTP :: "marshal \<Rightarrow> HTTPCheck \<Rightarrow> Aggregator \<Rightarrow> Aggregator \<times> string option" where
  "AddHTTP J v = agg_addRecord KindHTTPCheck (hk_Timestamp v) (js_HTTP J v)"

definition AddLink :: "marshal \<Rightarrow> LinkContext \<Rightarrow> Aggregator \<Rightarrow> Aggregator \<times> string option" where
  "AddLink J v = agg_addRecord KindLinkContext (lc_Timestamp v) (js_Link J v)"

definition AddSpeedTest :: "marshal \<Rightarrow> SpeedTest \<Rightarrow> Aggregator \<Rightarrow> Aggregator \<times> string option" where
  "AddSpeedTest J v = agg_addRecord KindSpeedTest (st_Timestamp v) (js_Speed J v)"

text \<open>A missing detail map and an empty one are the same list here.\<close>

definition AddEvent :: "marshal \<Rightarrow> Event \<Rightarrow> Aggregator \<Rightarrow> Aggregator \<times> string option" where
  "AddEvent J v = agg_addRecord KindEvent (ev_Timestamp v) (js_Event J v)"

section \<open>Summaries\<close>

definition agg_percentile :: "real list \<Rightarrow> real \<Rightarrow> real" where
  "agg_percentile xs fraction =
     (if xs = [] then 0
      else let index = nat (max (\<lceil>fraction * real (length xs)\<rceil> - 1) 0)
           in xs ! (if index \<ge> length xs then length xs - 1 else index))"

text \<open>The sum of the absolute differences of neighbours, in arrival order.\<close>

fun neighbour_sum :: "real list \<Rightarrow> real" where
  "neighbour_sum (x # y # zs) = \<bar>y - x\<bar> + neighbour_sum (y # zs)"
| "neighbour_sum _ = 0"

definition summarize :: "bucket \<Rightarrow> MinuteMetric" where
  "summarize b =
     (let values = sort (bu_values b);
          summary = (if values \<noteq> []
            then \<lparr>rt_P50 = agg_percentile values (50 / 100), rt_P95 = agg_percentile values (95 / 100),
                  rt_Min = hd values, rt_Max = last values\<rparr>
            else \<lparr>rt_P50 = 0, rt_P95 = 0, rt_Min = 0, rt_Max = 0\<rparr>);
          jitter = (if length (bu_values b) > 1
            then neighbour_sum (bu_values b) / real (length (bu_values b) - 1) else neighbour_sum (bu_values b));
          loss = (if bu_attempts b > 0
            then 100 * real_of_int (bu_attempts b - int (length (bu_values b))) / real_of_int (bu_attempts b) else 0)
      in \<lparr>mm_Timestamp = Unix (bu_timestamp b), mm_Target = bu_target b, mm_RTT = summary, mm_JitterMS = jitter,
          mm_LossPct = loss, mm_Samples = bu_attempts b,
          mm_Fallback = (if bu_fallback b = '''' then ''none'' else bu_fallback b),
          mm_TargetClass = bu_targetClass b, mm_ProbeMethod = bu_probeMethod b\<rparr>)"

section \<open>Flushing\<close>

definition cutoff_of :: "time \<Rightarrow> int" where
  "cutoff_of now = Unix (truncate_minute now)"

text \<open>The closed buckets in key order: by target, then by minute.\<close>

definition closed_buckets :: "time \<Rightarrow> Aggregator \<Rightarrow> (bucketKey \<times> bucket) list" where
  "closed_buckets now a = sort_key fst (filter (\<lambda>kb. snd (fst kb) < cutoff_of now) (ag_buckets a))"

definition seal :: "bucketKey \<Rightarrow> (string \<rightharpoonup> int) \<Rightarrow> (string \<rightharpoonup> int)" where
  "seal k sealed = sealed(fst k \<mapsto> max (case sealed (fst k) of Some m \<Rightarrow> m | None \<Rightarrow> 0) (snd k))"

text \<open>The loop over the keys. A row that cannot be encoded ends it; the rows before are sealed by then.\<close>

fun seal_minutes :: "marshal \<Rightarrow> (bucketKey \<times> bucket) list \<Rightarrow> (string \<rightharpoonup> int)
    \<Rightarrow> (string + Record list) \<times> (string \<rightharpoonup> int)" where
  "seal_minutes J [] sealed = (Inr [], sealed)"
| "seal_minutes J ((k, b) # kbs) sealed =
     (case NewRecord KindMinuteMetric (mm_Timestamp (summarize b)) (js_Minute J (summarize b)) of
        Inl e \<Rightarrow> (Inl e, sealed)
      | Inr r \<Rightarrow>
          (case seal_minutes J kbs (seal k sealed) of
             (Inl e, sealed') \<Rightarrow> (Inl e, sealed')
           | (Inr rs, sealed') \<Rightarrow> (Inr (r # rs), sealed')))"

definition flush_with :: "marshal \<Rightarrow> time \<Rightarrow> bool \<Rightarrow> Aggregator \<Rightarrow> Aggregator \<times> (string + Record list)" where
  "flush_with J now discardOpen a =
     (case seal_minutes J (closed_buckets now a) (ag_sealed a) of
        (Inl e, sealed') \<Rightarrow> (a\<lparr>ag_sealed := sealed'\<rparr>, Inl e)
      | (Inr rs, sealed') \<Rightarrow>
          (a\<lparr>ag_buckets := (if discardOpen then [] else filter (\<lambda>kb. \<not> snd (fst kb) < cutoff_of now) (ag_buckets a)),
             ag_pending := [], ag_sealed := sealed'\<rparr>, Inr (rs @ ag_pending a)))"

definition Flush :: "marshal \<Rightarrow> time \<Rightarrow> Aggregator \<Rightarrow> Aggregator \<times> (string + Record list)" where
  "Flush J now a = flush_with J now False a"

definition Shutdown :: "marshal \<Rightarrow> time \<Rightarrow> Aggregator \<Rightarrow> Aggregator \<times> (string + Record list)" where
  "Shutdown J now a = flush_with J now True a"

definition FlushPending :: "Aggregator \<Rightarrow> Aggregator \<times> Record list" where
  "FlushPending a = (a\<lparr>ag_pending := []\<rparr>, ag_pending a)"

definition Live :: "Aggregator \<Rightarrow> Sample list" where
  "Live a = ag_live a"

definition Restore :: "Record list \<Rightarrow> Aggregator \<Rightarrow> Aggregator" where
  "Restore rs a = a\<lparr>ag_pending := rs @ ag_pending a\<rparr>"

definition Reset :: "Aggregator \<Rightarrow> Aggregator" where
  "Reset a = a\<lparr>ag_buckets := [], ag_pending := [], ag_live := [], ag_sealed := Map.empty\<rparr>"
section \<open>The aggregator as a machine\<close>

datatype agg_event = Sampled Sample | Pended Record | Flushed marshal time | Stopped marshal time
  | PendingFlushed | Restored "Record list"

text \<open>The rows a flush hands out, when it succeeds.\<close>

definition flushed_rows :: "marshal \<Rightarrow> time \<Rightarrow> bool \<Rightarrow> Aggregator \<Rightarrow> MinuteMetric list" where
  "flushed_rows J now discardOpen a =
     (case snd (flush_with J now discardOpen a) of
        Inl _ \<Rightarrow> [] | Inr _ \<Rightarrow> map (\<lambda>kb. summarize (snd kb)) (closed_buckets now a))"

fun agg_step :: "Aggregator \<times> MinuteMetric list \<Rightarrow> agg_event \<Rightarrow> Aggregator \<times> MinuteMetric list" where
  "agg_step (a, out) (Sampled s) = (AddSample a s, out)"
| "agg_step (a, out) (Pended r) = (a\<lparr>ag_pending := ag_pending a @ [r]\<rparr>, out)"
| "agg_step (a, out) (Flushed J now) = (fst (Flush J now a), out @ flushed_rows J now False a)"
| "agg_step (a, out) (Stopped J now) = (fst (Shutdown J now a), out @ flushed_rows J now True a)"
| "agg_step (a, out) PendingFlushed = (fst (FlushPending a), out)"
| "agg_step (a, out) (Restored rs) = (Restore rs a, out)"

definition metric_key :: "MinuteMetric \<Rightarrow> bucketKey" where
  "metric_key m = (mm_Target m, mm_Timestamp m)"

definition bucket_ok :: "bucketKey \<times> bucket \<Rightarrow> bool" where
  "bucket_ok kb \<longleftrightarrow> bu_target (snd kb) = fst (fst kb) \<and> Unix (bu_timestamp (snd kb)) = snd (fst kb)
     \<and> 0 < bu_attempts (snd kb) \<and> int (length (bu_values (snd kb))) \<le> bu_attempts (snd kb)
     \<and> (\<forall>v\<in>set (bu_values (snd kb)). 0 \<le> v \<and> v \<le> 60000)"

fun agg_inv :: "Aggregator \<times> MinuteMetric list \<Rightarrow> bool" where
  "agg_inv (a, out) \<longleftrightarrow> distinct (map fst (ag_buckets a)) \<and> (\<forall>kb\<in>set (ag_buckets a). bucket_ok kb)
     \<and> distinct (map metric_key out)
     \<and> (\<forall>m\<in>set out. sealed_out a (metric_key m) \<and> metric_key m \<notin> fst ` set (ag_buckets a))
     \<and> length (ag_live a) \<le> liveCapacity"

lemma metric_key_summarize: "bucket_ok kb \<Longrightarrow> metric_key (summarize (snd kb)) = fst kb"
  by (cases kb) (simp add: metric_key_def summarize_def bucket_ok_def Let_def)

lemma bucket_ok_sample:
  assumes "b = new_bucket s \<or> bucket_ok (sample_key s, b)"
  shows "bucket_ok (sample_key s, record_sample s b)"
  using assms by (auto simp: bucket_ok_def record_sample_def new_bucket_def sample_key_def finiteBounded_def split: option.splits)

lemma sealed_out_AddSample [simp]: "sealed_out (AddSample a s) k = sealed_out a k"
  by (simp add: AddSample_def Let_def sealed_out_def)

lemma AddSample_inv: "agg_inv (a, out) \<Longrightarrow> agg_inv (AddSample a s, out)"
proof (cases "sealed_out a (sample_key s)")
  case True
  then show "agg_inv (a, out) \<Longrightarrow> agg_inv (AddSample a s, out)" by (simp add: AddSample_def Let_def)
next
  case False
  assume inv: "agg_inv (a, out)"
  define b where "b = (case map_of (ag_buckets a) (sample_key s) of Some b \<Rightarrow> b | None \<Rightarrow> new_bucket s)"
  have eq: "AddSample a s = a\<lparr>ag_buckets := AList.update (sample_key s) (record_sample s b) (ag_buckets a),
      ag_live := push_live s (ag_live a)\<rparr>"
    using False by (simp add: AddSample_def Let_def b_def)
  have ok: "\<forall>kb\<in>set (ag_buckets a). bucket_ok kb" and d: "distinct (map fst (ag_buckets a))" using inv by auto
  have "b = new_bucket s \<or> bucket_ok (sample_key s, b)"
    using ok by (auto simp: b_def split: option.splits dest: map_of_SomeD)
  then have okb: "bucket_ok (sample_key s, record_sample s b)" by (rule bucket_ok_sample)
  have upd: "set (AList.update k v xs) \<subseteq> insert (k, v) (set xs)" for k :: bucketKey and v :: bucket and xs
    by (induction xs) auto
  have 1: "\<forall>kb\<in>set (ag_buckets (AddSample a s)). bucket_ok kb"
    using upd ok okb by (fastforce simp: eq)
  have 2: "distinct (map fst (ag_buckets (AddSample a s)))" using d by (simp add: eq distinct_update)
  have 3: "fst ` set (ag_buckets (AddSample a s)) \<subseteq> insert (sample_key s) (fst ` set (ag_buckets a))"
    using upd by (fastforce simp: eq)
  have 4: "length (ag_live (AddSample a s)) \<le> liveCapacity"
    using inv by (auto simp: eq push_live_def liveCapacity_def)
  have 5: "metric_key m \<notin> fst ` set (ag_buckets (AddSample a s))" if m: "m \<in> set out" for m
  proof -
    have "sealed_out a (metric_key m)" "metric_key m \<notin> fst ` set (ag_buckets a)" using inv m by simp_all
    then show ?thesis using 3 False by (metis insertE subsetD)
  qed
  have 6: "distinct (map metric_key out)" "\<forall>m\<in>set out. sealed_out a (metric_key m)" using inv by auto
  show ?thesis unfolding agg_inv.simps using 1 2 4 5 6 by simp
qed

definition sealed_le :: "(string \<rightharpoonup> int) \<Rightarrow> (string \<rightharpoonup> int) \<Rightarrow> bool" where
  "sealed_le f g \<longleftrightarrow> (\<forall>t v. f t = Some v \<longrightarrow> (\<exists>v'. g t = Some v' \<and> v \<le> v'))"

lemma sealed_le_refl [simp]: "sealed_le f f"
  by (simp add: sealed_le_def)

lemma sealed_le_trans: "sealed_le f g \<Longrightarrow> sealed_le g h \<Longrightarrow> sealed_le f h"
  unfolding sealed_le_def by (meson order_trans)

lemma sealed_le_seal: "sealed_le f (seal k f)"
  by (auto simp: sealed_le_def seal_def)

lemma sealed_le_out: "sealed_le (ag_sealed a) (ag_sealed b) \<Longrightarrow> sealed_out a k \<Longrightarrow> sealed_out b k"
  by (fastforce simp: sealed_le_def sealed_out_def split: option.splits)

lemma seal_minutes_spec:
  assumes "seal_minutes J kbs sealed = (r, sealed')"
  shows "sealed_le sealed sealed' \<and> (\<forall>rs. r = Inr rs \<longrightarrow>
      map (\<lambda>x. Some (rd_Payload x)) rs = map (\<lambda>kb. js_Minute J (summarize (snd kb))) kbs
      \<and> (\<forall>x\<in>set rs. rd_Kind x = KindMinuteMetric)
      \<and> map rd_Timestamp rs = map (\<lambda>kb. mm_Timestamp (summarize (snd kb))) kbs
      \<and> (\<forall>kb\<in>set kbs. \<exists>v. sealed' (fst (fst kb)) = Some v \<and> snd (fst kb) \<le> v))"
  using assms
proof (induction J kbs sealed arbitrary: r rule: seal_minutes.induct)
  case (1 J sealed)
  then show ?case by auto
next
  case (2 J k b kbs sealed)
  show ?case
  proof (cases "js_Minute J (summarize b)")
    case None
    then show ?thesis using "2.prems" by (auto simp: NewRecord_def)
  next
    case (Some payload)
    define x where "x = \<lparr>rd_Kind = KindMinuteMetric, rd_Timestamp = mm_Timestamp (summarize b), rd_Payload = payload\<rparr>"
    have n: "NewRecord KindMinuteMetric (mm_Timestamp (summarize b)) (js_Minute J (summarize b)) = Inr x"
      using Some by (simp add: NewRecord_def x_def)
    obtain r1 where r1: "seal_minutes J kbs (seal k sealed) = (r1, sealed')" and rr: "r = (case r1 of Inl e \<Rightarrow> Inl e | Inr rs \<Rightarrow> Inr (x # rs))"
      using "2.prems" n by (auto split: prod.splits sum.splits)
    note IH = "2.IH"[OF n r1]
    have le: "sealed_le sealed sealed'" using IH sealed_le_seal sealed_le_trans by blast
    have "\<exists>v. sealed' (fst k) = Some v \<and> snd k \<le> v"
      using IH by (force simp: sealed_le_def seal_def)
    then show ?thesis using IH le rr Some by (auto simp: x_def split: sum.splits)
  qed
qed

lemma closed_buckets_facts:
  "set (closed_buckets now a) = {kb \<in> set (ag_buckets a). snd (fst kb) < cutoff_of now}"
  "distinct (map fst (ag_buckets a)) \<Longrightarrow> distinct (map fst (closed_buckets now a))"
  "sorted (map fst (closed_buckets now a))"
proof -
  show "set (closed_buckets now a) = {kb \<in> set (ag_buckets a). snd (fst kb) < cutoff_of now}"
    by (auto simp: closed_buckets_def)
  show "sorted (map fst (closed_buckets now a))" by (simp add: closed_buckets_def)
  assume "distinct (map fst (ag_buckets a))"
  then have "distinct (map fst (filter (\<lambda>kb. snd (fst kb) < cutoff_of now) (ag_buckets a)))" by (rule distinct_map_filter)
  then show "distinct (map fst (closed_buckets now a))"
    unfolding closed_buckets_def distinct_map by simp
qed

lemma flush_with_inv:
  assumes "agg_inv (a, out)"
  shows "agg_inv (fst (flush_with J now disc a), out @ flushed_rows J now disc a)"
proof -
  obtain r sealed' where s: "seal_minutes J (closed_buckets now a) (ag_sealed a) = (r, sealed')" by force
  note sp = seal_minutes_spec[OF s]
  have inv: "distinct (map fst (ag_buckets a))" "\<forall>kb\<in>set (ag_buckets a). bucket_ok kb" "distinct (map metric_key out)"
    "\<forall>m\<in>set out. sealed_out a (metric_key m) \<and> metric_key m \<notin> fst ` set (ag_buckets a)" "length (ag_live a) \<le> liveCapacity"
    using assms by auto
  have mono: "sealed_out a k \<Longrightarrow> sealed_out b k" if "ag_sealed b = sealed'" for k b
    using sealed_le_out[of a b k] sp that by simp
  show ?thesis
  proof (cases r)
    case (Inl e)
    then show ?thesis using s inv mono by (simp add: flush_with_def flushed_rows_def)
  next
    case (Inr rs)
    let ?a = "fst (flush_with J now disc a)" and ?C = "closed_buckets now a"
    have a': "ag_buckets ?a = (if disc then [] else filter (\<lambda>kb. \<not> snd (fst kb) < cutoff_of now) (ag_buckets a))"
      "ag_sealed ?a = sealed'" "ag_live ?a = ag_live a"
      using s Inr by (auto simp: flush_with_def)
    have rows: "flushed_rows J now disc a = map (\<lambda>kb. summarize (snd kb)) ?C" using s Inr by (simp add: flushed_rows_def flush_with_def)
    have okC: "\<forall>kb\<in>set ?C. bucket_ok kb" using inv(2) by (simp add: closed_buckets_facts(1))
    have keys: "map metric_key (flushed_rows J now disc a) = map fst ?C" using okC by (simp add: rows metric_key_summarize)
    have dC: "distinct (map fst ?C)" by (rule closed_buckets_facts(2)[OF inv(1)])
    have "set (map fst ?C) \<subseteq> fst ` set (ag_buckets a)" by (simp add: closed_buckets_facts(1) image_mono)
    moreover have "set (map metric_key out) \<inter> fst ` set (ag_buckets a) = {}" using inv(4) by force
    ultimately have disj: "set (map metric_key out) \<inter> set (map fst ?C) = {}" by blast
    have gone: "k \<notin> fst ` set (ag_buckets ?a)" if "k \<in> set (map fst ?C)" for k
    proof
      assume "k \<in> fst ` set (ag_buckets ?a)"
      then have "\<not> snd k < cutoff_of now" by (auto simp: a' split: if_splits)
      then show False using that by (auto simp: closed_buckets_facts(1))
    qed
    have sealedC: "sealed_out ?a k" if "k \<in> set (map fst ?C)" for k
      using sp Inr that by (fastforce simp: sealed_out_def a'(2))
    have sub: "set (ag_buckets ?a) \<subseteq> set (ag_buckets a)" by (auto simp: a')
    have 1: "distinct (map metric_key (out @ flushed_rows J now disc a))"
      using inv(3) dC disj by (simp add: keys del: list.set_map)
    have 2: "sealed_out ?a (metric_key m) \<and> metric_key m \<notin> fst ` set (ag_buckets ?a)"
      if "m \<in> set (out @ flushed_rows J now disc a)" for m
    proof (cases "m \<in> set out")
      case True
      then show ?thesis using inv(4) mono[OF a'(2)] sub by blast
    next
      case False
      then have "metric_key m \<in> set (map fst ?C)" using that keys by (metis UnE image_eqI list.set_map set_append)
      then show ?thesis using gone sealedC by blast
    qed
    have "distinct (map fst (ag_buckets ?a))" using inv(1) by (auto simp: a' distinct_map_filter)
    then show ?thesis using 1 2 inv(2,5) sub a'(3) by auto
  qed
qed

lemma agg_step_inv: "agg_inv s \<Longrightarrow> agg_inv (agg_step s e)"
proof (cases s)
  case (Pair a out)
  assume inv: "agg_inv s"
  show ?thesis
  proof (cases e)
    case (Sampled x)
    then show ?thesis using inv Pair AddSample_inv[of a out x] by (simp del: agg_inv.simps)
  next
    case (Flushed J now)
    then show ?thesis using inv Pair flush_with_inv[of a out J now False] by (simp add: Flush_def)
  next
    case (Stopped J now)
    then show ?thesis using inv Pair flush_with_inv[of a out J now True] by (simp add: Shutdown_def)
  qed (use inv Pair in \<open>auto simp: FlushPending_def Restore_def sealed_out_def\<close>)
qed

interpretation aggregator: machine agg_step agg_inv
  by unfold_locales (rule agg_step_inv)

section \<open>What a flush says of the samples\<close>

definition bucket_of :: "Sample list \<Rightarrow> bucket option" where
  "bucket_of ss = (case ss of [] \<Rightarrow> None | s # _ \<Rightarrow> Some (foldl (\<lambda>b s. record_sample s b) (new_bucket s) ss))"

definition measured :: "Sample \<Rightarrow> bool" where
  "measured s \<longleftrightarrow> am_Success s \<and> finiteBounded (am_RTTMS s)"

definition values_of :: "Sample list \<Rightarrow> real list" where
  "values_of ss = map (\<lambda>s. the (am_RTTMS s)) (filter measured ss)"

lemma bucket_of_snoc:
  "bucket_of (ss @ [s]) = Some (record_sample s (case bucket_of ss of Some b \<Rightarrow> b | None \<Rightarrow> new_bucket s))"
  by (cases ss) (simp_all add: bucket_of_def)

lemma AddSample_unsealed:
  assumes "ag_sealed a = Map.empty"
  shows "ag_sealed (AddSample a s) = Map.empty"
    "map_of (ag_buckets (AddSample a s)) = (map_of (ag_buckets a))(sample_key s \<mapsto>
       record_sample s (case map_of (ag_buckets a) (sample_key s) of Some b \<Rightarrow> b | None \<Rightarrow> new_bucket s))"
  using assms by (simp_all add: AddSample_def sealed_out_def Let_def update_conv')

lemma AddSamples_buckets:
  "ag_sealed (foldl AddSample New ss) = Map.empty
   \<and> map_of (ag_buckets (foldl AddSample New ss)) k = bucket_of (filter (\<lambda>s. sample_key s = k) ss)"
proof (induction ss arbitrary: k rule: rev_induct)
  case Nil
  then show ?case by (simp add: New_def bucket_of_def)
next
  case (snoc s ss)
  then show ?case by (simp add: AddSample_unsealed bucket_of_snoc)
qed

lemma record_samples_fields:
  "bu_attempts (foldl (\<lambda>b s. record_sample s b) b ss) = bu_attempts b + int (length ss)
   \<and> bu_values (foldl (\<lambda>b s. record_sample s b) b ss) = bu_values b @ values_of ss"
  by (induction ss arbitrary: b) (auto simp: record_sample_def values_of_def measured_def)

lemma bucket_of_fields:
  "bucket_of ss = Some b \<Longrightarrow> bu_attempts b = int (length ss) \<and> bu_values b = values_of ss \<and> ss \<noteq> []"
  by (cases ss) (auto simp: bucket_of_def new_bucket_def record_samples_fields simp del: foldl_Cons)

lemma AddSamples_inv: "agg_inv (foldl AddSample New ss, [])"
proof -
  have "agg_inv (New, [])" by (simp add: New_def)
  then have "agg_inv (foldl agg_step (New, []) (map Sampled ss))" by (rule aggregator.run_inv)
  moreover have "foldl agg_step (a, []) (map Sampled ss) = (foldl AddSample a ss, [])" for a
    by (induction ss arbitrary: a) auto
  ultimately show ?thesis by simp
qed

lemma agg_percentile_mem: "xs \<noteq> [] \<Longrightarrow> agg_percentile xs q \<in> set xs"
  by (auto simp: agg_percentile_def Let_def not_le intro!: nth_mem)

lemma agg_percentile_mono:
  assumes "sorted xs" "xs \<noteq> []" "p \<le> q"
  shows "agg_percentile xs p \<le> agg_percentile xs q"
proof -
  define n where "n = length xs"
  define ix where "ix r = (let i = nat (max (\<lceil>r * real n\<rceil> - 1) 0) in if i \<ge> n then n - 1 else i)" for r
  have n: "0 < n" using assms(2) by (simp add: n_def)
  have val: "agg_percentile xs r = xs ! ix r" for r
    using assms(2) by (simp add: agg_percentile_def ix_def n_def Let_def)
  have "p * real n \<le> q * real n" using assms(3) by (simp add: mult_right_mono)
  then have "\<lceil>p * real n\<rceil> \<le> \<lceil>q * real n\<rceil>" by (rule ceiling_mono)
  then have "nat (max (\<lceil>p * real n\<rceil> - 1) 0) \<le> nat (max (\<lceil>q * real n\<rceil> - 1) 0)" by (intro nat_mono) auto
  then have "ix p \<le> ix q" using n unfolding ix_def Let_def by auto
  moreover have "ix q < length xs" using n by (auto simp: ix_def Let_def n_def[symmetric])
  ultimately show ?thesis unfolding val using assms(1) by (rule sorted_nth_mono[rotated])
qed

lemma neighbour_sum_nonneg: "0 \<le> neighbour_sum xs"
  by (induction xs rule: neighbour_sum.induct) auto

lemma sorted_ends:
  fixes xs :: "real list"
  shows "sorted xs \<Longrightarrow> xs \<noteq> [] \<Longrightarrow> hd xs = Min (set xs) \<and> last xs = Max (set xs)"
proof (induction xs)
  case (Cons x xs)
  show ?case
  proof (cases "xs = []")
    case False
    then have m: "Min (set (x # xs)) = min x (Min (set xs))" "Max (set (x # xs)) = max x (Max (set xs))" by simp_all
    have "hd xs = Min (set xs)" "last xs = Max (set xs)" "\<forall>y\<in>set xs. x \<le> y" using Cons False by simp_all
    then have "x \<le> Min (set xs)" "x \<le> Max (set xs)" using False by simp_all
    then show ?thesis using m False \<open>last xs = Max (set xs)\<close> by (simp add: min_def max_def)
  qed simp
qed simp

lemma summary_order:
  assumes "bu_values b \<noteq> []"
  shows "rt_Min (mm_RTT (summarize b)) = Min (set (bu_values b)) \<and> rt_Max (mm_RTT (summarize b)) = Max (set (bu_values b))
    \<and> rt_P50 (mm_RTT (summarize b)) \<in> set (bu_values b) \<and> rt_P95 (mm_RTT (summarize b)) \<in> set (bu_values b)
    \<and> rt_P50 (mm_RTT (summarize b)) \<le> rt_P95 (mm_RTT (summarize b))"
proof -
  define v where "v = sort (bu_values b)"
  have ne: "v \<noteq> []" using assms unfolding v_def by (metis set_empty set_sort)
  have srt: "sorted v" by (simp add: v_def)
  have set_v: "set v = set (bu_values b)" by (simp add: v_def)
  have "mm_RTT (summarize b) = \<lparr>rt_P50 = agg_percentile v (50 / 100), rt_P95 = agg_percentile v (95 / 100),
      rt_Min = hd v, rt_Max = last v\<rparr>"
    using ne by (simp add: summarize_def Let_def v_def)
  then show ?thesis
    using sorted_ends[OF srt ne] agg_percentile_mem[OF ne] agg_percentile_mono[OF srt ne, of "50/100" "95/100"]
    by (simp add: set_v)
qed

lemma flush_records:
  assumes "snd (flush_with J now disc a) = Inr rs"
  shows "map (\<lambda>r. Some (rd_Payload r)) rs
    = map (js_Minute J) (map (\<lambda>kb. summarize (snd kb)) (closed_buckets now a)) @ map (\<lambda>r. Some (rd_Payload r)) (ag_pending a)"
proof -
  obtain r sealed' where s: "seal_minutes J (closed_buckets now a) (ag_sealed a) = (r, sealed')" by force
  then obtain xs where "r = Inr xs" "rs = xs @ ag_pending a" using assms by (auto simp: flush_with_def split: sum.splits)
  then show ?thesis using seal_minutes_spec[OF s] by simp
qed

lemma values_of_ranges: "length (values_of ss) \<le> length ss"
  by (simp add: values_of_def)

text \<open>
  What a flush reports. After any samples, in any order, there is one row for each target and
  closed minute some sample fell in, sorted by target and then by minute, and none for the minute
  still open. The row counts exactly the samples of that target and minute; its loss is the share
  of those without a usable round-trip time; its minimum and maximum are those of the usable times
  and the median and the 95th percentile are among them, in that order; and with every row goes
  exactly one encoded record.
\<close>

theorem Flush_reports_samples:
  assumes "snd (Flush J now (foldl AddSample New ss)) = Inr rs"
  shows "\<exists>ms. map (\<lambda>r. Some (rd_Payload r)) rs = map (js_Minute J) ms
    \<and> sorted_wrt (<) (map metric_key ms)
    \<and> set (map metric_key ms) = {k \<in> sample_key ` set ss. snd k < cutoff_of now}
    \<and> (\<forall>m\<in>set ms. let S = filter (\<lambda>s. sample_key s = metric_key m) ss; V = values_of S in
         mm_Samples m = int (length S)
         \<and> mm_LossPct m = 100 * (real (length S) - real (length V)) / real (length S)
         \<and> 0 \<le> mm_LossPct m \<and> mm_LossPct m \<le> 100 \<and> 0 \<le> mm_JitterMS m
         \<and> (V \<noteq> [] \<longrightarrow> rt_Min (mm_RTT m) = Min (set V) \<and> rt_Max (mm_RTT m) = Max (set V)
              \<and> rt_P50 (mm_RTT m) \<in> set V \<and> rt_P95 (mm_RTT m) \<in> set V \<and> rt_P50 (mm_RTT m) \<le> rt_P95 (mm_RTT m)))"
proof -
  let ?a = "foldl AddSample New ss"
  let ?C = "closed_buckets now ?a"
  define ms where "ms = map (\<lambda>kb. summarize (snd kb)) ?C"
  have inv: "distinct (map fst (ag_buckets ?a))" "\<forall>kb\<in>set (ag_buckets ?a). bucket_ok kb" using AddSamples_inv[of ss] by auto
  have pend: "ag_pending (foldl AddSample b ss) = ag_pending b" for b
    by (induction ss arbitrary: b) (simp_all add: AddSample_def Let_def)
  have enc: "map (\<lambda>r. Some (rd_Payload r)) rs = map (js_Minute J) ms"
    using flush_records[OF assms[unfolded Flush_def]] by (simp add: ms_def pend New_def)
  have keys: "map metric_key ms = map fst ?C"
    using inv(2) by (simp add: ms_def closed_buckets_facts(1) metric_key_summarize)
  have srt: "sorted_wrt (<) (map metric_key ms)"
    unfolding keys strict_sorted_iff using closed_buckets_facts(2)[OF inv(1)] closed_buckets_facts(3) by blast
  have dom: "fst ` set (ag_buckets ?a) = sample_key ` set ss"
  proof -
    have "k \<in> fst ` set (ag_buckets ?a) \<longleftrightarrow> k \<in> sample_key ` set ss" for k
    proof -
      have "k \<in> fst ` set (ag_buckets ?a) \<longleftrightarrow> map_of (ag_buckets ?a) k \<noteq> None" by (metis map_of_eq_None_iff)
      also have "\<dots> \<longleftrightarrow> filter (\<lambda>s. sample_key s = k) ss \<noteq> []"
        by (simp add: AddSamples_buckets bucket_of_def split: list.split)
      also have "\<dots> \<longleftrightarrow> (\<exists>s\<in>set ss. k = sample_key s)" by (auto simp: filter_empty_conv)
      finally show ?thesis by (simp only: image_iff)
    qed
    then show ?thesis by blast
  qed
  have "set (map fst ?C) = {k \<in> fst ` set (ag_buckets ?a). snd k < cutoff_of now}" by (auto simp: closed_buckets_facts(1))
  then have dm: "set (map metric_key ms) = {k \<in> sample_key ` set ss. snd k < cutoff_of now}" unfolding keys dom .
  have "let S = filter (\<lambda>s. sample_key s = metric_key m) ss; V = values_of S in
         mm_Samples m = int (length S)
         \<and> mm_LossPct m = 100 * (real (length S) - real (length V)) / real (length S)
         \<and> 0 \<le> mm_LossPct m \<and> mm_LossPct m \<le> 100 \<and> 0 \<le> mm_JitterMS m
         \<and> (V \<noteq> [] \<longrightarrow> rt_Min (mm_RTT m) = Min (set V) \<and> rt_Max (mm_RTT m) = Max (set V)
              \<and> rt_P50 (mm_RTT m) \<in> set V \<and> rt_P95 (mm_RTT m) \<in> set V \<and> rt_P50 (mm_RTT m) \<le> rt_P95 (mm_RTT m))"
    if "m \<in> set ms" for m
  proof -
    have "m \<in> (\<lambda>kb. summarize (snd kb)) ` set ?C" using that by (simp add: ms_def)
    then obtain kb0 where kb0: "m = summarize (snd kb0)" "kb0 \<in> set ?C" by (rule imageE)
    define k b where "k = fst kb0" and "b = snd kb0"
    have kb: "(k, b) \<in> set (ag_buckets ?a)" and m: "m = summarize b"
      using kb0 by (simp_all add: closed_buckets_facts(1) k_def b_def)
    have "metric_key m = k" using inv(2) kb metric_key_summarize[of "(k, b)"] m by auto
    moreover have "map_of (ag_buckets ?a) k = Some b" using kb inv(1) by simp
    then have "bucket_of (filter (\<lambda>s. sample_key s = k) ss) = Some b" by (simp add: AddSamples_buckets)
    note fb = bucket_of_fields[OF this]
    let ?S = "filter (\<lambda>s. sample_key s = k) ss"
    have le: "length (values_of ?S) \<le> length ?S" by (rule values_of_ranges)
    have pos: "0 < length ?S" using fb by blast
    have n: "mm_Samples m = int (length ?S)" using fb by (simp add: m summarize_def Let_def)
    have loss: "mm_LossPct m = 100 * (real (length ?S) - real (length (values_of ?S))) / real (length ?S)"
      using fb pos by (simp add: m summarize_def Let_def)
    have "0 \<le> mm_LossPct m" "mm_LossPct m \<le> 100" unfolding loss using le pos by (simp_all add: divide_le_eq)
    moreover have "0 \<le> mm_JitterMS m" by (simp add: m summarize_def Let_def neighbour_sum_nonneg)
    moreover note summary_order[of b]
    ultimately show ?thesis using n loss fb m by (simp add: Let_def)
  qed
  then show ?thesis using enc srt dm by blast
qed

definition one_sample :: Sample where
  "one_sample = \<lparr>am_Timestamp = 61 * Second, am_Target = ''gateway'', am_RTTMS = Some 12, am_Success = True,
     am_Fallback = '''', am_TargetClass = '''', am_ProbeMethod = ''''\<rparr>"

definition plain_marshal :: marshal where
  "plain_marshal = \<lparr>js_Minute = (\<lambda>m. Some (itoa (mm_Samples m))), js_DNS = (\<lambda>_. None), js_HTTP = (\<lambda>_. None),
     js_Link = (\<lambda>_. None), js_Speed = (\<lambda>_. None), js_Event = (\<lambda>_. None)\<rparr>"

lemma plain_marshal_seal: "\<exists>rs. fst (seal_minutes plain_marshal kbs sealed) = Inr rs"
proof (induction kbs arbitrary: sealed)
  case (Cons kb kbs)
  obtain k b where kb: "kb = (k, b)" by (cases kb)
  obtain rs t where "seal_minutes plain_marshal kbs (seal k sealed) = (Inr rs, t)"
    using Cons[of "seal k sealed"] by (metis prod.collapse)
  then show ?case by (simp add: kb plain_marshal_def NewRecord_def)
qed simp

lemma plain_marshal_flush: "\<exists>rs. snd (Flush plain_marshal now a) = Inr rs"
proof -
  obtain rs t where "seal_minutes plain_marshal (closed_buckets now a) (ag_sealed a) = (Inr rs, t)"
    using plain_marshal_seal by (metis prod.collapse)
  then show ?thesis by (simp add: Flush_def flush_with_def)
qed

theorem Flush_reports_samples_witness:
  "\<exists>rs. snd (Flush plain_marshal (200 * Second) (foldl AddSample New [one_sample, one_sample])) = Inr rs \<and> rs \<noteq> []"
proof -
  obtain rs where r: "snd (Flush plain_marshal (200 * Second) (foldl AddSample New [one_sample, one_sample])) = Inr rs"
    using plain_marshal_flush by blast
  have k: "snd (sample_key one_sample) < cutoff_of (200 * Second)"
    by (simp add: sample_key_def cutoff_of_def one_sample_def truncate_minute_floor Unix_def)
  from Flush_reports_samples[OF r] obtain ms where "map (\<lambda>r. Some (rd_Payload r)) rs = map (js_Minute plain_marshal) ms"
    "set (map metric_key ms) = {k \<in> sample_key ` set [one_sample, one_sample]. snd k < cutoff_of (200 * Second)}" by blast
  then have "rs \<noteq> []" using k by auto
  then show ?thesis using r by blast
qed

end
