(* ===== verification/State_Store.thy ===== *)
theory State_Store
  imports Client
begin

text \<open>
  The sensor's state file (\<open>internal/state/store.go\<close>): settings and credentials, the marker of an
  unfinished privacy purge, the data budgets and the speed-test requests already handled.

  A store is the state in memory and the disk. A file is what a reader finds now and the versions
  a power loss may bring back: a replacement whose directory was synchronised leaves none, one
  whose synchronisation failed leaves the earlier versions possible. Every place where the file
  system may fail is a fault, as in the spool. The state is written as one value; that JSON gives
  it back is assumed. Copying a state before changing it is not visible, as states are values.
\<close>

section \<open>State\<close>

record State =
  ps_SensorUID :: string
  ps_Mode :: string
  ps_ControllerURL :: string
  ps_SensorID :: string
  ps_SensorSecret :: string
  ps_SiteID :: string
  ps_IngestURL :: string
  ps_Config :: SensorConfig
  ps_ConfigVersion :: int
  ps_SSIDConsent :: bool
  ps_SSIDPurgePending :: bool
  ps_PrivacyPurgeAction :: string
  ps_PausedUntil :: time
  ps_RevokedAt :: time
  ps_LastSpeedTest :: time
  ps_LastSpeedTests :: "string \<rightharpoonup> time"
  ps_BudgetDay :: string
  ps_BudgetBytes :: u64
  ps_BudgetMonth :: string
  ps_MonthlyBudgetBytes :: u64
  ps_HandledSpeedRequests :: "(string \<times> int) list"
  ps_NetworkIdentityKey :: string
  ps_HouseholdMix :: "HouseholdMix option"
  ps_UpdateChannel :: string

abbreviation "ModeSetup \<equiv> ''setup''"
abbreviation "ModeStandalone \<equiv> ''standalone''"
abbreviation "ModeConnected \<equiv> ''connected''"
abbreviation "PrivacyPurgeSSID \<equiv> ''ssid''"
abbreviation "PrivacyPurgeDisconnect \<equiv> ''disconnect''"
abbreviation "PrivacyPurgeRevocation \<equiv> ''revocation''"
abbreviation "UpdateChannelMain \<equiv> ''main''"
abbreviation "UpdateChannelBeta \<equiv> ''beta''"
abbreviation "UpdateChannelAlpha \<equiv> ''alpha''"

definition Claimed :: "State \<Rightarrow> bool" where
  "Claimed s \<longleftrightarrow> ps_SensorID s \<noteq> '''' \<and> ps_SensorSecret s \<noteq> '''' \<and> ps_IngestURL s \<noteq> ''''"

definition Operational :: "State \<Rightarrow> bool" where
  "Operational s \<longleftrightarrow> ps_Mode s = ModeStandalone \<or> (ps_Mode s = ModeConnected \<and> Claimed s)"

definition Paused :: "State \<Rightarrow> time \<Rightarrow> bool" where
  "Paused s now \<longleftrightarrow> sc_Paused (ps_Config s) \<or> ps_PausedUntil s > now"

section \<open>Files\<close>

record 'a durable_file =
  fi_now :: "'a option"
  fi_lost :: "'a option list"

record disk =
  dk_state :: "State durable_file"
  dk_purge :: "string durable_file"

type_synonym io_faults = "string \<Rightarrow> bool"
type_synonym Store = "State \<times> disk"

definition replace_with :: "'a option \<Rightarrow> bool \<Rightarrow> 'a durable_file \<Rightarrow> 'a durable_file" where
  "replace_with v synced f = \<lparr>fi_now = v, fi_lost = (if synced then [] else fi_now f # fi_lost f)\<rparr>"

text \<open>
  \<open>writeState\<close>: whether the new state is the file's content, the error, and the disk. The first
  fault met ends it; after the replacement only the directory's synchronisation is left.
\<close>

definition first_fault :: "io_faults \<Rightarrow> string list \<Rightarrow> string option" where
  "first_fault fl steps = List.find fl steps"

definition writeState :: "io_faults \<Rightarrow> State \<Rightarrow> disk \<Rightarrow> bool \<times> string option \<times> disk" where
  "writeState fl s d =
     (case first_fault fl [''encode state'', ''create state'', ''secure state'', ''write state'', ''sync state'',
        ''close state'', ''replace state''] of
        Some e \<Rightarrow> (False, Some e, d)
      | None \<Rightarrow>
          if fl ''sync state directory''
          then (True, Some ''sync state directory'', d\<lparr>dk_state := replace_with (Some s) False (dk_state d)\<rparr>)
          else (True, None, d\<lparr>dk_state := replace_with (Some s) True (dk_state d)\<rparr>))"

definition validPrivacyPurgeAction :: "string \<Rightarrow> bool" where
  "validPrivacyPurgeAction a \<longleftrightarrow> a = PrivacyPurgeSSID \<or> a = PrivacyPurgeDisconnect \<or> a = PrivacyPurgeRevocation"

definition privacyPurgePriority :: "string \<Rightarrow> int" where
  "privacyPurgePriority a =
     (if a = PrivacyPurgeSSID then 1 else if a = PrivacyPurgeDisconnect then 2
      else if a = PrivacyPurgeRevocation then 3 else 0)"

definition writePrivacyPurgeSentinel :: "io_faults \<Rightarrow> string \<Rightarrow> disk \<Rightarrow> string option \<times> disk" where
  "writePrivacyPurgeSentinel fl action d =
     (if \<not> validPrivacyPurgeAction action then (Some ''invalid privacy purge sentinel action'', d)
      else case first_fault fl [''encode privacy purge sentinel'', ''create privacy purge sentinel'',
        ''secure privacy purge sentinel'', ''write privacy purge sentinel'', ''replace privacy purge sentinel''] of
        Some e \<Rightarrow> (Some e, d)
      | None \<Rightarrow>
          if fl ''sync privacy purge sentinel''
          then (Some ''sync privacy purge sentinel'', d\<lparr>dk_purge := replace_with (Some action) False (dk_purge d)\<rparr>)
          else (None, d\<lparr>dk_purge := replace_with (Some action) True (dk_purge d)\<rparr>))"

definition readPrivacyPurgeSentinel :: "io_faults \<Rightarrow> disk \<Rightarrow> string + string option" where
  "readPrivacyPurgeSentinel fl d =
     (if fl ''read privacy purge sentinel'' then Inl ''read privacy purge sentinel''
      else case fi_now (dk_purge d) of
        None \<Rightarrow> Inr None
      | Some action \<Rightarrow> if validPrivacyPurgeAction action then Inr (Some action) else Inl ''decode privacy purge sentinel'')"

text \<open>Removing the sentinel: an error, or whether there was one. The directory is not synchronised yet.\<close>

definition removePrivacyPurgeSentinel :: "io_faults \<Rightarrow> disk \<Rightarrow> (string + bool) \<times> disk" where
  "removePrivacyPurgeSentinel fl d =
     (if fl ''remove privacy purge sentinel'' then (Inl ''remove privacy purge sentinel'', d)
      else if fi_now (dk_purge d) = None then (Inr False, d)
      else (Inr True, d\<lparr>dk_purge := replace_with None False (dk_purge d)\<rparr>))"

definition commitLocked :: "io_faults \<Rightarrow> (State \<Rightarrow> string + State) \<Rightarrow> Store \<Rightarrow> Store \<times> string option" where
  "commitLocked fl change store =
     (case change (fst store) of
        Inl e \<Rightarrow> (store, Some e)
      | Inr s' \<Rightarrow> (case writeState fl s' (snd store) of
          (committed, err, d) \<Rightarrow> ((if committed then s' else fst store, d), err)))"

section \<open>Opening\<close>

definition beginPrivacyPurge :: "string \<Rightarrow> State \<Rightarrow> State" where
  "beginPrivacyPurge action s = s
     \<lparr>ps_SSIDConsent := False, ps_SSIDPurgePending := True,
      ps_PrivacyPurgeAction := (if privacyPurgePriority action > privacyPurgePriority (ps_PrivacyPurgeAction s)
        then action else ps_PrivacyPurgeAction s)\<rparr>"

definition zero_state :: State where
  "zero_state = \<lparr>ps_SensorUID = '''', ps_Mode = '''', ps_ControllerURL = '''', ps_SensorID = '''',
     ps_SensorSecret = '''', ps_SiteID = '''', ps_IngestURL = '''', ps_Config = zero_config, ps_ConfigVersion = 0,
     ps_SSIDConsent = False, ps_SSIDPurgePending = False, ps_PrivacyPurgeAction = '''', ps_PausedUntil = zero_time,
     ps_RevokedAt = zero_time, ps_LastSpeedTest = zero_time, ps_LastSpeedTests = Map.empty, ps_BudgetDay = '''',
     ps_BudgetBytes = 0, ps_BudgetMonth = '''', ps_MonthlyBudgetBytes = 0, ps_HandledSpeedRequests = [],
     ps_NetworkIdentityKey = '''', ps_HouseholdMix = None, ps_UpdateChannel = ''''\<rparr>"

definition uuid4_bytes :: "u8 list \<Rightarrow> u8 list" where
  "uuid4_bytes value =
     (let v = value[6 := (value ! 6 AND 0x0F) OR 0x40] in v[8 := (v ! 8 AND 0x3F) OR 0x80])"

definition newUUIDv4 :: "u8 list option \<Rightarrow> string + string" where
  "newUUIDv4 random =
     (case random of None \<Rightarrow> Inl ''generate sensor UID'' | Some value \<Rightarrow> Inr (uuid_string (uuid4_bytes value)))"

definition newRandomKey :: "u8 list option \<Rightarrow> string + string" where
  "newRandomKey random =
     (case random of None \<Rightarrow> Inl ''generate local identity key'' | Some value \<Rightarrow> Inr (hex_bytes value))"

definition open_mode :: "State \<Rightarrow> string" where
  "open_mode s =
     (let m1 = (if ps_Mode s = '''' then (if Claimed s then ModeConnected else ModeSetup) else ps_Mode s);
          m2 = (if m1 \<noteq> ModeSetup \<and> m1 \<noteq> ModeStandalone \<and> m1 \<noteq> ModeConnected then ModeSetup else m1)
      in if m2 = ModeConnected \<and> \<not> Claimed s then ModeSetup else m2)"

definition open_purge :: "State \<Rightarrow> State" where
  "open_purge s =
     (let pending = (ps_SSIDPurgePending s \<or> ps_PrivacyPurgeAction s \<noteq> '''')
      in s\<lparr>ps_SSIDPurgePending := pending,
           ps_SSIDConsent := (if pending then False else ps_SSIDConsent s),
           ps_PrivacyPurgeAction := (if \<not> pending then '''' else if ps_PrivacyPurgeAction s = '''' then PrivacyPurgeSSID
             else ps_PrivacyPurgeAction s)\<rparr>)"

definition last_test :: "State \<Rightarrow> string \<Rightarrow> time" where
  "last_test s profile = (case ps_LastSpeedTests s profile of Some t \<Rightarrow> t | None \<Rightarrow> zero_time)"

text \<open>The repairs of \<open>Open\<close> on a decoded state, with the identifiers it may have to make up.\<close>

definition open_repair :: "(string \<Rightarrow> URL option) \<Rightarrow> string \<Rightarrow> string \<Rightarrow> State \<Rightarrow> State" where
  "open_repair parse uid key s0 =
     (let s1 = s0\<lparr>ps_SensorUID := (if ps_SensorUID s0 = '''' then uid else ps_SensorUID s0), ps_Mode := open_mode s0\<rparr>;
          s2 = open_purge s1
      in s2\<lparr>ps_ConfigVersion := (if ps_ConfigVersion s2 < 1 then 1 else ps_ConfigVersion s2),
            ps_Config := NormalizeConfig parse (ps_Config s2),
            ps_NetworkIdentityKey := (if ps_NetworkIdentityKey s2 = '''' then key else ps_NetworkIdentityKey s2),
            ps_LastSpeedTests := (if \<not> IsZero (ps_LastSpeedTest s2) \<and> IsZero (last_test s2 ''content'')
              then (ps_LastSpeedTests s2)(''content'' \<mapsto> ps_LastSpeedTest s2) else ps_LastSpeedTests s2)\<rparr>)"

definition Open_state ::
    "io_faults \<Rightarrow> (string \<Rightarrow> URL option) \<Rightarrow> u8 list option \<Rightarrow> u8 list option \<Rightarrow> disk \<Rightarrow> (string + State) \<times> disk" where
  "Open_state fl parse random_uid random_key d =
     (case first_fault fl [''create state directory'', ''secure state directory'', ''read state'', ''decode state''] of
        Some e \<Rightarrow> (Inl e, d)
      | None \<Rightarrow>
          let s0 = (case fi_now (dk_state d) of None \<Rightarrow> zero_state | Some s \<Rightarrow> s)
          in if ps_PrivacyPurgeAction s0 \<noteq> '''' \<and> \<not> validPrivacyPurgeAction (ps_PrivacyPurgeAction s0)
             then (Inl ''decode state: invalid privacy purge action'', d)
             else case readPrivacyPurgeSentinel fl d of
               Inl e \<Rightarrow> (Inl e, d)
             | Inr sentinel \<Rightarrow>
                 let s1 = (case sentinel of None \<Rightarrow> s0 | Some a \<Rightarrow> beginPrivacyPurge a s0)
                 in case (if ps_SensorUID s1 = '''' then newUUIDv4 random_uid else Inr '''') of
                   Inl e \<Rightarrow> (Inl e, d)
                 | Inr uid \<Rightarrow>
                     (case (if ps_NetworkIdentityKey s1 = '''' then newRandomKey random_key else Inr '''') of
                        Inl e \<Rightarrow> (Inl e, d)
                      | Inr key \<Rightarrow>
                          let s = open_repair parse uid key s1
                          in case writeState fl s d of
                               (_, Some e, d') \<Rightarrow> (Inl e, d')
                             | (_, None, d') \<Rightarrow> (Inr s, d')))"
section \<open>Enrolment, mode and settings\<close>

definition SetEnrollment ::
    "io_faults \<Rightarrow> lib \<Rightarrow> u8 list option \<Rightarrow> string \<Rightarrow> EnrollmentResponse \<Rightarrow> Store \<Rightarrow> Store \<times> string option" where
  "SetEnrollment fl l random controllerURL enrolled store =
     (case ValidateIngestURL l controllerURL (en_IngestURL enrolled) of
        Some e \<Rightarrow> (store, Some (''validate enrollment ingest URL: '' @ e))
      | None \<Rightarrow>
          (case newRandomKey random of
             Inl e \<Rightarrow> (store, Some e)
           | Inr identityKey \<Rightarrow>
               commitLocked fl (\<lambda>s. Inr (s
                 \<lparr>ps_ControllerURL := controllerURL, ps_SensorID := en_SensorID enrolled,
                  ps_SensorSecret := en_SensorSecret enrolled, ps_SiteID := en_SiteID enrolled,
                  ps_IngestURL := en_IngestURL enrolled, ps_Mode := ModeConnected,
                  ps_Config := NormalizeConfig (lib_ParseURL l) (en_Config enrolled),
                  ps_ConfigVersion := en_ConfigVersion enrolled, ps_SSIDConsent := False,
                  ps_PausedUntil := zero_time, ps_RevokedAt := zero_time, ps_HandledSpeedRequests := [],
                  ps_NetworkIdentityKey := identityKey\<rparr>)) store))"

definition SetMode :: "io_faults \<Rightarrow> string \<Rightarrow> Store \<Rightarrow> Store \<times> string option" where
  "SetMode fl mode store =
     (if mode \<noteq> ModeStandalone \<and> mode \<noteq> ModeConnected then (store, Some ''mode must be standalone or connected'')
      else if mode = ModeConnected \<and> \<not> Claimed (fst store)
      then (store, Some ''connect to an Axon controller before selecting connected mode'')
      else commitLocked fl (\<lambda>s. Inr (s\<lparr>ps_Mode := mode, ps_PausedUntil := zero_time\<rparr>)) store)"

definition ValidUpdateChannel :: "string \<Rightarrow> bool" where
  "ValidUpdateChannel channel \<longleftrightarrow> channel = UpdateChannelMain \<or> channel = UpdateChannelBeta \<or> channel = UpdateChannelAlpha"

definition SetUpdateChannel :: "io_faults \<Rightarrow> string \<Rightarrow> Store \<Rightarrow> Store \<times> string option" where
  "SetUpdateChannel fl channel store =
     (if channel \<noteq> '''' \<and> \<not> ValidUpdateChannel channel then (store, Some ''update channel must be main, beta, or alpha'')
      else commitLocked fl (\<lambda>s. Inr (s\<lparr>ps_UpdateChannel := channel\<rparr>)) store)"

definition SetHouseholdMix :: "io_faults \<Rightarrow> HouseholdMix option \<Rightarrow> Store \<Rightarrow> Store \<times> string option" where
  "SetHouseholdMix fl mix store =
     commitLocked fl (\<lambda>s. Inr (s\<lparr>ps_HouseholdMix := map_option NormalizeHouseholdMix mix\<rparr>)) store"

definition SetConfig :: "io_faults \<Rightarrow> (string \<Rightarrow> URL option) \<Rightarrow> SensorConfig \<Rightarrow> int \<Rightarrow> Store \<Rightarrow> Store \<times> string option" where
  "SetConfig fl parse config version store =
     (if version < 1 then (store, Some ''config version must be positive'')
      else if version < ps_ConfigVersion (fst store) then (store, None)
      else commitLocked fl (\<lambda>s. Inr (s\<lparr>ps_Config := NormalizeConfig parse config, ps_ConfigVersion := version\<rparr>)) store)"

definition SetPausedUntil :: "io_faults \<Rightarrow> time \<Rightarrow> Store \<Rightarrow> Store \<times> string option" where
  "SetPausedUntil fl until store = commitLocked fl (\<lambda>s. Inr (s\<lparr>ps_PausedUntil := until\<rparr>)) store"

definition WipeCredentials :: "io_faults \<Rightarrow> bool \<Rightarrow> time \<Rightarrow> Store \<Rightarrow> Store \<times> string option" where
  "WipeCredentials fl revoked now store =
     commitLocked fl (\<lambda>s. Inr (s
       \<lparr>ps_ControllerURL := '''', ps_Mode := ModeStandalone, ps_SensorID := '''', ps_SensorSecret := '''',
        ps_SiteID := '''', ps_IngestURL := '''', ps_Config := DefaultConfig, ps_ConfigVersion := 1,
        ps_SSIDConsent := False, ps_PausedUntil := zero_time, ps_LastSpeedTest := zero_time,
        ps_LastSpeedTests := Map.empty, ps_BudgetDay := '''', ps_BudgetBytes := 0, ps_BudgetMonth := '''',
        ps_MonthlyBudgetBytes := 0, ps_HandledSpeedRequests := [], ps_NetworkIdentityKey := '''',
        ps_RevokedAt := (if revoked then now else zero_time)\<rparr>)) store"

section \<open>Privacy purges\<close>

text \<open>
  The in-memory block stays whatever happens to the two writes; the error is the state file's, and
  the sentinel's is added to it only when neither file holds the marker.
\<close>

definition BeginPrivacyPurge :: "io_faults \<Rightarrow> string \<Rightarrow> Store \<Rightarrow> Store \<times> string option" where
  "BeginPrivacyPurge fl action store =
     (if \<not> validPrivacyPurgeAction action then (store, Some ''invalid privacy purge action'')
      else let s' = beginPrivacyPurge action (fst store);
               (sentinelErr, d1) = writePrivacyPurgeSentinel fl (ps_PrivacyPurgeAction s') (snd store);
               (committed, writeErr, d2) = writeState fl s' d1
           in ((s', d2), case writeErr of None \<Rightarrow> None
                | Some e \<Rightarrow> (case sentinelErr of None \<Rightarrow> Some e
                    | Some e' \<Rightarrow> if committed then Some e else Some (e @ e'))))"

definition SetSSIDConsent :: "io_faults \<Rightarrow> bool \<Rightarrow> Store \<Rightarrow> Store \<times> string option" where
  "SetSSIDConsent fl enabled store =
     (if \<not> enabled then BeginPrivacyPurge fl PrivacyPurgeSSID store
      else commitLocked fl (\<lambda>s. if ps_SSIDPurgePending s then Inl ''SSID cleanup is still pending''
             else Inr (s\<lparr>ps_SSIDConsent := True\<rparr>)) store)"

definition BeginSSIDPurge :: "io_faults \<Rightarrow> Store \<Rightarrow> Store \<times> string option" where
  "BeginSSIDPurge fl = BeginPrivacyPurge fl PrivacyPurgeSSID"

definition CompleteSSIDPurge :: "io_faults \<Rightarrow> Store \<Rightarrow> Store \<times> string option" where
  "CompleteSSIDPurge fl store =
     (let s = fst store in
      if \<not> ps_SSIDPurgePending s then (store, None)
      else case writePrivacyPurgeSentinel fl (ps_PrivacyPurgeAction s) (snd store) of
        (Some e, d1) \<Rightarrow> ((s, d1), Some (''refresh privacy purge sentinel: '' @ e))
      | (None, d1) \<Rightarrow>
          let s' = s\<lparr>ps_SSIDPurgePending := False, ps_PrivacyPurgeAction := ''''\<rparr> in
          (case writeState fl s' d1 of
             (_, Some e, d2) \<Rightarrow> ((s, d2), Some e)
           | (committed, None, d2) \<Rightarrow>
               if \<not> committed then ((s, d2), Some ''complete privacy purge did not commit state'')
               else case removePrivacyPurgeSentinel fl d2 of
                 (Inl e, d3) \<Rightarrow> ((s, d3), Some e)
               | (Inr removed, d3) \<Rightarrow>
                   if \<not> removed then ((s', d3), None)
                   else if fl ''sync privacy purge sentinel removal''
                   then ((s, d3), Some ''sync privacy purge sentinel removal'')
                   else ((s', d3\<lparr>dk_purge := replace_with (fi_now (dk_purge d3)) True (dk_purge d3)\<rparr>), None)))"

section \<open>One-off speed tests\<close>

text \<open>
  The loop that looks for the entry to evict, over the entries in the order of the list: Go's map
  order is not specified, and the entries may be in any order here.
\<close>

definition oldest_request :: "(string \<times> int) list \<Rightarrow> string" where
  "oldest_request entries =
     fst (foldl (\<lambda>(oldest, oldestExpiry) (n, expiry).
            if oldest = '''' \<or> expiry < oldestExpiry then (n, expiry) else (oldest, oldestExpiry)) ('''', 0) entries)"

definition remember_request :: "string \<Rightarrow> int \<Rightarrow> (string \<times> int) list \<Rightarrow> (string \<times> int) list" where
  "remember_request nonce expiry live =
     (let kept = (if length live \<ge> 32 then filter (\<lambda>e. fst e \<noteq> oldest_request live) live else live)
      in kept @ [(nonce, expiry)])"

definition live_requests :: "time \<Rightarrow> State \<Rightarrow> (string \<times> int) list" where
  "live_requests now s = filter (\<lambda>e. \<not> snd e < Unix now) (ps_HandledSpeedRequests s)"

definition AcceptSpeedTestRequest ::
    "io_faults \<Rightarrow> string \<Rightarrow> time \<Rightarrow> time \<Rightarrow> Store \<Rightarrow> Store \<times> (string + bool)" where
  "AcceptSpeedTestRequest fl nonce expiresAt now store =
     (let live = live_requests now (fst store) in
      if nonce \<in> fst ` set live then (store, Inr False)
      else let s' = (fst store)\<lparr>ps_HandledSpeedRequests := remember_request nonce (Unix expiresAt) live\<rparr>
           in case writeState fl s' (snd store) of
                (committed, err, d) \<Rightarrow>
                  ((if committed then s' else fst store, d), case err of None \<Rightarrow> Inr True | Some e \<Rightarrow> Inl e))"

section \<open>Data budgets\<close>

text \<open>
  The civil date of a day number counted from the Unix epoch, for \<open>Format("2006-01-02")\<close>; the
  offset of the local zone is a parameter.
\<close>

definition civil :: "int \<Rightarrow> int \<times> int \<times> int" where
  "civil days =
     (let z = days + 719468; era = z div 146097; doe = z mod 146097;
          yoe = (doe - doe div 1460 + doe div 36524 - doe div 146096) div 365;
          doy = doe - (365 * yoe + yoe div 4 - yoe div 100);
          mp = (5 * doy + 2) div 153;
          month = (if mp < 10 then mp + 3 else mp - 9)
      in (yoe + era * 400 + (if month \<le> 2 then 1 else 0), month, doy - (153 * mp + 2) div 5 + 1))"

definition zero_pad :: "nat \<Rightarrow> int \<Rightarrow> string" where
  "zero_pad n v = (let s = itoa v in replicate (n - length s) (CHR ''0'') @ s)"

definition format_month :: "(time \<Rightarrow> duration) \<Rightarrow> time \<Rightarrow> string" where
  "format_month zone t = (case civil ((t + zone t) div (24 * Hour)) of
     (y, m, d) \<Rightarrow> zero_pad 4 y @ ''-'' @ zero_pad 2 m)"

definition format_day :: "(time \<Rightarrow> duration) \<Rightarrow> time \<Rightarrow> string" where
  "format_day zone t = (case civil ((t + zone t) div (24 * Hour)) of
     (y, m, d) \<Rightarrow> zero_pad 4 y @ ''-'' @ zero_pad 2 m @ ''-'' @ zero_pad 2 d)"

definition budget_maximum :: "int \<Rightarrow> u64" where
  "budget_maximum limitMB = push_bit 20 (word_of_int (max limitMB 0))"

definition remaining :: "u64 \<Rightarrow> u64 \<Rightarrow> u64" where
  "remaining maximum spent = (if spent \<ge> maximum then 0 else maximum - spent)"

definition remainingDataBudgetsLocked :: "(time \<Rightarrow> duration) \<Rightarrow> State \<Rightarrow> time \<Rightarrow> int \<Rightarrow> int \<Rightarrow> u64 \<times> u64" where
  "remainingDataBudgetsLocked zone s now dailyLimitMB monthlyLimitMB =
     (if ps_BudgetDay s = format_day zone now then remaining (budget_maximum dailyLimitMB) (ps_BudgetBytes s)
      else budget_maximum dailyLimitMB,
      if ps_BudgetMonth s = format_month zone now then remaining (budget_maximum monthlyLimitMB) (ps_MonthlyBudgetBytes s)
      else budget_maximum monthlyLimitMB)"

definition RemainingDataBudgets :: "(time \<Rightarrow> duration) \<Rightarrow> time \<Rightarrow> Store \<Rightarrow> u64 \<times> u64" where
  "RemainingDataBudgets zone now store =
     remainingDataBudgetsLocked zone (fst store) now (sc_DailyDataBudgetMB (ps_Config (fst store)))
       (sc_MonthlyDataBudgetMB (ps_Config (fst store)))"

definition RemainingDataBudget :: "(time \<Rightarrow> duration) \<Rightarrow> time \<Rightarrow> Store \<Rightarrow> u64" where
  "RemainingDataBudget zone now store =
     (case RemainingDataBudgets zone now store of (daily, monthly) \<Rightarrow> min daily monthly)"

definition RemainingDataBudgetsFor :: "(time \<Rightarrow> duration) \<Rightarrow> time \<Rightarrow> int \<Rightarrow> int \<Rightarrow> Store \<Rightarrow> u64 \<times> u64" where
  "RemainingDataBudgetsFor zone now dailyLimitMB monthlyLimitMB store =
     remainingDataBudgetsLocked zone (fst store) now dailyLimitMB monthlyLimitMB"

definition rollBudgets :: "(time \<Rightarrow> duration) \<Rightarrow> time \<Rightarrow> State \<Rightarrow> State" where
  "rollBudgets zone tm s =
     (let day = format_day zone tm; month = format_month zone tm;
          s1 = (if ps_BudgetDay s \<noteq> day then s\<lparr>ps_BudgetDay := day, ps_BudgetBytes := 0\<rparr> else s)
      in if ps_BudgetMonth s1 \<noteq> month then s1\<lparr>ps_BudgetMonth := month, ps_MonthlyBudgetBytes := 0\<rparr> else s1)"

definition charge :: "u64 \<Rightarrow> State \<Rightarrow> State" where
  "charge bytes s = s\<lparr>ps_BudgetBytes := ps_BudgetBytes s + bytes, ps_MonthlyBudgetBytes := ps_MonthlyBudgetBytes s + bytes\<rparr>"

definition reserveSpeedTestBytes ::
    "io_faults \<Rightarrow> (time \<Rightarrow> duration) \<Rightarrow> time \<Rightarrow> u64 \<Rightarrow> int \<Rightarrow> int \<Rightarrow> bool \<Rightarrow> Store \<Rightarrow> Store \<times> string option" where
  "reserveSpeedTestBytes fl zone tm bytes dailyLimitMB monthlyLimitMB allowOverdraw store =
     (if bytes = 0 then (store, Some ''speed-test reservation must be positive'')
      else case remainingDataBudgetsLocked zone (fst store) tm dailyLimitMB monthlyLimitMB of
        (daily, monthly) \<Rightarrow>
          if \<not> allowOverdraw \<and> bytes > min daily monthly
          then (store, Some ''speed-test reservation exceeds remaining data budget'')
          else commitLocked fl (\<lambda>s. Inr (charge bytes (rollBudgets zone tm s))) store)"

definition ReserveSpeedTestProfileFor ::
    "io_faults \<Rightarrow> (time \<Rightarrow> duration) \<Rightarrow> time \<Rightarrow> u64 \<Rightarrow> int \<Rightarrow> int \<Rightarrow> Store \<Rightarrow> Store \<times> string option" where
  "ReserveSpeedTestProfileFor fl zone tm bytes dailyLimitMB monthlyLimitMB =
     reserveSpeedTestBytes fl zone tm bytes dailyLimitMB monthlyLimitMB False"

definition ReserveSpeedTestProfile ::
    "io_faults \<Rightarrow> (time \<Rightarrow> duration) \<Rightarrow> time \<Rightarrow> u64 \<Rightarrow> Store \<Rightarrow> Store \<times> string option" where
  "ReserveSpeedTestProfile fl zone tm bytes store =
     ReserveSpeedTestProfileFor fl zone tm bytes (sc_DailyDataBudgetMB (ps_Config (fst store)))
       (sc_MonthlyDataBudgetMB (ps_Config (fst store))) store"

definition ReserveSpeedTestOverdraw ::
    "io_faults \<Rightarrow> (time \<Rightarrow> duration) \<Rightarrow> time \<Rightarrow> u64 \<Rightarrow> int \<Rightarrow> int \<Rightarrow> Store \<Rightarrow> Store \<times> string option" where
  "ReserveSpeedTestOverdraw fl zone tm bytes dailyLimitMB monthlyLimitMB =
     reserveSpeedTestBytes fl zone tm bytes dailyLimitMB monthlyLimitMB True"

definition record_test :: "time \<Rightarrow> string \<Rightarrow> State \<Rightarrow> State" where
  "record_test tm profile s =
     s\<lparr>ps_LastSpeedTest := tm, ps_LastSpeedTests := (ps_LastSpeedTests s)(profile \<mapsto> tm)\<rparr>"

definition refund :: "(time \<Rightarrow> duration) \<Rightarrow> time \<Rightarrow> u64 \<Rightarrow> State \<Rightarrow> State" where
  "refund zone tm amount s =
     (let s1 = (if ps_BudgetDay s = format_day zone tm
            then s\<lparr>ps_BudgetBytes := ps_BudgetBytes s - min amount (ps_BudgetBytes s)\<rparr> else s)
      in if ps_BudgetMonth s1 = format_month zone tm
         then s1\<lparr>ps_MonthlyBudgetBytes := ps_MonthlyBudgetBytes s1 - min amount (ps_MonthlyBudgetBytes s1)\<rparr> else s1)"

definition ReconcileSpeedTestProfile ::
    "io_faults \<Rightarrow> (time \<Rightarrow> duration) \<Rightarrow> time \<Rightarrow> string \<Rightarrow> u64 \<Rightarrow> u64 \<Rightarrow> bool \<Rightarrow> Store \<Rightarrow> Store \<times> string option" where
  "ReconcileSpeedTestProfile fl zone tm profile reserved used completed store =
     commitLocked fl (\<lambda>s.
       let s1 = refund zone tm (reserved - min used reserved) s
       in Inr (if completed then record_test tm profile s1 else s1)) store"

definition RecordSpeedTestProfile ::
    "io_faults \<Rightarrow> (time \<Rightarrow> duration) \<Rightarrow> time \<Rightarrow> string \<Rightarrow> u64 \<Rightarrow> Store \<Rightarrow> Store \<times> string option" where
  "RecordSpeedTestProfile fl zone tm profile bytesUsed store =
     commitLocked fl (\<lambda>s. Inr (record_test tm profile (charge bytesUsed (rollBudgets zone tm s)))) store"

definition RecordSpeedTest :: "io_faults \<Rightarrow> (time \<Rightarrow> duration) \<Rightarrow> time \<Rightarrow> u64 \<Rightarrow> Store \<Rightarrow> Store \<times> string option" where
  "RecordSpeedTest fl zone tm bytesUsed = RecordSpeedTestProfile fl zone tm ''content'' bytesUsed"
section \<open>A sensor's life\<close>

text \<open>
  A configuration is the running store, if any, and the disk. The process may stop at any time, a
  power loss brings back any version a file may still have, and the store may be opened again.
  The flag of a step tells whether it removed the marker of a privacy purge: a completed purge, or
  one whose very last synchronisation failed.
\<close>

definition versions :: "'a durable_file \<Rightarrow> 'a option set" where
  "versions f = insert (fi_now f) (set (fi_lost f))"

definition after_power_loss :: "'a durable_file \<Rightarrow> 'a durable_file \<Rightarrow> bool" where
  "after_power_loss f g \<longleftrightarrow> fi_lost g = [] \<and> fi_now g \<in> versions f"

definition marker_removed :: "string option \<Rightarrow> bool" where
  "marker_removed err \<longleftrightarrow> err = None \<or> err = Some ''sync privacy purge sentinel removal''"

inductive store_op :: "lib \<Rightarrow> bool \<Rightarrow> Store \<Rightarrow> Store \<Rightarrow> bool" for l where
  enrolled: "Enroll l send url request = Inr r \<Longrightarrow> store_op l False st (fst (SetEnrollment fl l random url r st))"
| mode: "store_op l False st (fst (SetMode fl m st))"
| channel: "store_op l False st (fst (SetUpdateChannel fl ch st))"
| mix: "store_op l False st (fst (SetHouseholdMix fl hm st))"
| config: "store_op l False st (fst (SetConfig fl (lib_ParseURL l) cfg v st))"
| paused: "store_op l False st (fst (SetPausedUntil fl until st))"
| wiped: "store_op l False st (fst (WipeCredentials fl revoked now st))"
| consent: "store_op l False st (fst (SetSSIDConsent fl on st))"
| purge: "store_op l False st (fst (BeginPrivacyPurge fl action st))"
| complete: "CompleteSSIDPurge fl st = (st', err) \<Longrightarrow> store_op l (marker_removed err) st st'"
| accept_request: "store_op l False st (fst (AcceptSpeedTestRequest fl nonce expires now st))"
| reserve: "store_op l False st (fst (reserveSpeedTestBytes fl zone tm bytes dl ml ov st))"
| reconcile: "store_op l False st (fst (ReconcileSpeedTestProfile fl zone tm profile reserved used completed st))"
| recorded: "store_op l False st (fst (RecordSpeedTestProfile fl zone tm profile used st))"

inductive sensor_step :: "lib \<Rightarrow> bool \<Rightarrow> State option \<times> disk \<Rightarrow> State option \<times> disk \<Rightarrow> bool" for l where
  running: "store_op l cleared (s, d) (s', d') \<Longrightarrow> sensor_step l cleared (Some s, d) (Some s', d')"
| stopped: "sensor_step l False (c, d) (None, d)"
| power_loss: "after_power_loss (dk_state d) (dk_state d') \<Longrightarrow> after_power_loss (dk_purge d) (dk_purge d')
    \<Longrightarrow> sensor_step l False (c, d) (None, d')"
| opened: "Open_state fl (lib_ParseURL l) r1 r2 d = (Inr s, d') \<Longrightarrow> sensor_step l False (None, d) (Some s, d')"
| not_opened: "Open_state fl (lib_ParseURL l) r1 r2 d = (Inl e, d') \<Longrightarrow> sensor_step l False (None, d) (None, d')"

section \<open>Shared facts about writing\<close>

lemma writeState_cases:
  obtains (kept) e where "writeState fl s d = (False, Some e, d)"
  | (written) err b where "writeState fl s d = (True, err, d\<lparr>dk_state := replace_with (Some s) b (dk_state d)\<rparr>)" "(err = None) = b"
  by (cases "first_fault fl [''encode state'', ''create state'', ''secure state'', ''write state'', ''sync state'',
        ''close state'', ''replace state'']"; cases "fl ''sync state directory''")
     (auto simp: writeState_def)

lemma versions_replace: "versions (replace_with v b f) = (if b then {v} else insert v (versions f))"
  by (simp add: versions_def replace_with_def)

lemma commitLocked_cases:
  obtains (same) e where "commitLocked fl change (s, d) = ((s, d), Some e)"
  | (changed) s' err b where "change s = Inr s'" "(err = None) = b"
      "commitLocked fl change (s, d) = ((s', d\<lparr>dk_state := replace_with (Some s') b (dk_state d)\<rparr>), err)"
proof (cases "change s")
  case (Inl e)
  then show ?thesis using same by (simp add: commitLocked_def)
next
  case (Inr s')
  show ?thesis
    by (cases fl s' d rule: writeState_cases) (use Inr same changed in \<open>auto simp: commitLocked_def\<close>)
qed

lemma commitLocked_keeps:
  assumes "P s" "\<And>s'. change s = Inr s' \<Longrightarrow> P s'"
  shows "P (fst (fst (commitLocked fl change (s, d))))"
  by (cases fl change s d rule: commitLocked_cases) (use assms in auto)

section \<open>What always holds\<close>

definition state_ok :: "(string \<Rightarrow> URL option) \<Rightarrow> State \<Rightarrow> bool" where
  "state_ok parse s \<longleftrightarrow> ps_Mode s \<in> {ModeSetup, ModeStandalone, ModeConnected}
     \<and> (ps_Mode s = ModeConnected \<longrightarrow> Claimed s)
     \<and> (if ps_SSIDPurgePending s then \<not> ps_SSIDConsent s \<and> validPrivacyPurgeAction (ps_PrivacyPurgeAction s)
        else ps_PrivacyPurgeAction s = '''')
     \<and> 1 \<le> ps_ConfigVersion s \<and> valid_config parse (ps_Config s)"

lemma valid_DefaultConfig: "valid_config parse DefaultConfig"
proof -
  have c: "sc_ContractVersion DefaultConfig = 3" "sc_HouseholdMix DefaultConfig = None"
    "sc_SpeedProfiles DefaultConfig = [household_profile, saturation_profile]"
    by (simp_all add: DefaultConfig_def)
  have "valid_profiles 3 [household_profile, saturation_profile]"
    using device_profiles_valid(3,4)
    by (simp add: valid_profiles_def default_profiles_def c household_profile_def saturation_profile_def)
  then show ?thesis
    unfolding valid_config_def c using default_windows_valid(3) by (simp add: valid_list_def) (simp add: DefaultConfig_def)
qed

lemma open_mode_ok:
  "open_mode s \<in> {ModeSetup, ModeStandalone, ModeConnected} \<and> (open_mode s = ModeConnected \<longrightarrow> Claimed s)"
  by (simp add: open_mode_def Let_def)

lemma open_repair_fields:
  "ps_Mode (open_repair parse uid key s) = open_mode s" "Claimed (open_repair parse uid key s) = Claimed s"
  "ps_SSIDPurgePending (open_repair parse uid key s) \<longleftrightarrow> ps_SSIDPurgePending s \<or> ps_PrivacyPurgeAction s \<noteq> ''''"
  "ps_SSIDConsent (open_repair parse uid key s) \<longleftrightarrow>
     ps_SSIDConsent s \<and> \<not> (ps_SSIDPurgePending s \<or> ps_PrivacyPurgeAction s \<noteq> '''')"
  "ps_PrivacyPurgeAction (open_repair parse uid key s) =
     (if ps_SSIDPurgePending s \<and> ps_PrivacyPurgeAction s = '''' then PrivacyPurgeSSID else ps_PrivacyPurgeAction s)"
  "ps_ConfigVersion (open_repair parse uid key s) = max 1 (ps_ConfigVersion s)"
  "ps_Config (open_repair parse uid key s) = NormalizeConfig parse (ps_Config s)"
  "ps_HandledSpeedRequests (open_repair parse uid key s) = ps_HandledSpeedRequests s"
  by (auto simp: open_repair_def open_purge_def Claimed_def Let_def)

lemma open_repair_ok:
  assumes "ps_PrivacyPurgeAction s = '''' \<or> validPrivacyPurgeAction (ps_PrivacyPurgeAction s)"
  shows "state_ok parse (open_repair parse uid key s)"
proof -
  have "validPrivacyPurgeAction PrivacyPurgeSSID" by (simp add: validPrivacyPurgeAction_def)
  then show ?thesis
    using assms open_mode_ok[of s] NormalizeConfig_valid by (auto simp: state_ok_def open_repair_fields)
qed

lemma beginPrivacyPurge_ok:
  "validPrivacyPurgeAction a \<Longrightarrow> ps_PrivacyPurgeAction s = '''' \<or> validPrivacyPurgeAction (ps_PrivacyPurgeAction s)
   \<Longrightarrow> validPrivacyPurgeAction (ps_PrivacyPurgeAction (beginPrivacyPurge a s))"
  by (auto simp: beginPrivacyPurge_def validPrivacyPurgeAction_def privacyPurgePriority_def)

text \<open>What \<open>Open\<close> does: nothing to the disk, or it writes the repaired state.\<close>

lemma Open_state_cases:
  assumes "Open_state fl parse r1 r2 d = (res, d')"
  obtains (unread) e where "res = Inl e" "d' = d"
  | (repaired) s0 s1 s uid key b where "s0 = (case fi_now (dk_state d) of None \<Rightarrow> zero_state | Some s \<Rightarrow> s)"
      "ps_PrivacyPurgeAction s0 = '''' \<or> validPrivacyPurgeAction (ps_PrivacyPurgeAction s0)"
      "case fi_now (dk_purge d) of None \<Rightarrow> s1 = s0 | Some a \<Rightarrow> validPrivacyPurgeAction a \<and> s1 = beginPrivacyPurge a s0"
      "s = open_repair parse uid key s1" "d' = d\<lparr>dk_state := replace_with (Some s) b (dk_state d)\<rparr>"
      "if b then res = Inr s else \<exists>e. res = Inl e"
proof (cases "first_fault fl [''create state directory'', ''secure state directory'', ''read state'', ''decode state'']")
  case (Some e)
  then show ?thesis using assms unread by (auto simp: Open_state_def)
next
  case ff: None
  define s0 where "s0 = (case fi_now (dk_state d) of None \<Rightarrow> zero_state | Some s \<Rightarrow> s)"
  note o1 = assms[unfolded Open_state_def ff option.case Let_def, folded s0_def]
  show ?thesis
  proof (cases "ps_PrivacyPurgeAction s0 \<noteq> '''' \<and> \<not> validPrivacyPurgeAction (ps_PrivacyPurgeAction s0)")
    case True
    then show ?thesis using o1 unread by auto
  next
    case nb: False
    note o2 = o1[unfolded if_not_P[OF nb]]
    show ?thesis
    proof (cases "readPrivacyPurgeSentinel fl d")
      case (Inl e)
      then show ?thesis using o2 unread by auto
    next
      case rd: (Inr sentinel)
      define s1 where "s1 = (case sentinel of None \<Rightarrow> s0 | Some a \<Rightarrow> beginPrivacyPurge a s0)"
      note o3 = o2[unfolded rd sum.case, folded s1_def]
      have c1: "case fi_now (dk_purge d) of None \<Rightarrow> s1 = s0 | Some a \<Rightarrow> validPrivacyPurgeAction a \<and> s1 = beginPrivacyPurge a s0"
        using rd by (auto simp: readPrivacyPurgeSentinel_def s1_def split: if_splits option.splits)
      show ?thesis
      proof (cases "if ps_SensorUID s1 = '''' then newUUIDv4 r1 else Inr ''''")
        case (Inl e)
        then show ?thesis using o3 unread by auto
      next
        case uid: (Inr uid)
        note o4 = o3[unfolded uid sum.case]
        show ?thesis
        proof (cases "if ps_NetworkIdentityKey s1 = '''' then newRandomKey r2 else Inr ''''")
          case (Inl e)
          then show ?thesis using o4 unread by auto
        next
          case key: (Inr key)
          note o5 = o4[unfolded key sum.case]
          show ?thesis
          proof (cases fl "open_repair parse uid key s1" d rule: writeState_cases)
            case (kept e)
            then show ?thesis using o5 unread by auto
          next
            case (written err b)
            then show ?thesis
              using o5 repaired[OF s0_def _ c1 refl, of uid key b] nb by (cases err) auto
          qed
        qed
      qed
    qed
  qed
qed

lemma Open_state_ok:
  assumes "Open_state fl parse r1 r2 d = (Inr s, d')"
  shows "state_ok parse s"
proof -
  show ?thesis
    using assms
  proof (cases rule: Open_state_cases)
    case (repaired s0 s1 s' uid key b)
    have "ps_PrivacyPurgeAction s1 = '''' \<or> validPrivacyPurgeAction (ps_PrivacyPurgeAction s1)"
      using repaired(2,3) beginPrivacyPurge_ok by (auto split: option.splits)
    then show ?thesis using repaired(4,6) open_repair_ok by (auto split: if_splits)
  qed simp
qed

lemma commitLocked_ok:
  assumes "state_ok parse (fst st)" "\<And>s'. change (fst st) = Inr s' \<Longrightarrow> state_ok parse s'"
  shows "state_ok parse (fst (fst (commitLocked fl change st)))"
  using commitLocked_keeps[of "state_ok parse" "fst st" change fl "snd st"] assms by simp

lemma commitLocked_total_ok:
  assumes "state_ok parse (fst st)" "state_ok parse (f (fst st))"
  shows "state_ok parse (fst (fst (commitLocked fl (\<lambda>s. Inr (f s)) st)))"
  by (rule commitLocked_ok) (use assms in auto)

text \<open>Changes that touch none of the fields the invariant speaks of.\<close>

definition settings :: "State \<Rightarrow> string \<times> bool \<times> bool \<times> bool \<times> string \<times> int \<times> SensorConfig" where
  "settings s = (ps_Mode s, Claimed s, ps_SSIDConsent s, ps_SSIDPurgePending s, ps_PrivacyPurgeAction s,
     ps_ConfigVersion s, ps_Config s)"

lemma state_ok_settings: "settings s' = settings s \<Longrightarrow> state_ok parse s' = state_ok parse s"
  by (simp add: settings_def state_ok_def)

lemma commitLocked_settings_ok:
  assumes "state_ok parse (fst st)" "\<And>s'. change (fst st) = Inr s' \<Longrightarrow> settings s' = settings (fst st)"
  shows "state_ok parse (fst (fst (commitLocked fl change st)))"
  by (rule commitLocked_ok[OF assms(1)]) (use assms state_ok_settings in blast)

lemma settings_updates [simp]:
  "settings (s\<lparr>ps_PausedUntil := x1\<rparr>) = settings s" "settings (s\<lparr>ps_UpdateChannel := x2\<rparr>) = settings s"
  "settings (s\<lparr>ps_HouseholdMix := x3\<rparr>) = settings s" "settings (s\<lparr>ps_HandledSpeedRequests := x4\<rparr>) = settings s"
  "settings (s\<lparr>ps_BudgetDay := x5\<rparr>) = settings s" "settings (s\<lparr>ps_BudgetBytes := x6\<rparr>) = settings s"
  "settings (s\<lparr>ps_BudgetMonth := x5\<rparr>) = settings s" "settings (s\<lparr>ps_MonthlyBudgetBytes := x6\<rparr>) = settings s"
  "settings (s\<lparr>ps_LastSpeedTest := x7\<rparr>) = settings s" "settings (s\<lparr>ps_LastSpeedTests := x8\<rparr>) = settings s"
  by (simp_all add: settings_def Claimed_def)

lemma settings_budget [simp]:
  "settings (charge b s) = settings s" "settings (rollBudgets zone tm s) = settings s"
  "settings (refund zone tm b s) = settings s" "settings (record_test tm p s) = settings s"
  by (simp_all add: charge_def rollBudgets_def refund_def record_test_def Let_def)

lemma BeginPrivacyPurge_state:
  "fst (fst (BeginPrivacyPurge fl a st)) = (if validPrivacyPurgeAction a then beginPrivacyPurge a (fst st) else fst st)"
  by (auto simp: BeginPrivacyPurge_def Let_def split: prod.splits option.splits)

lemma beginPrivacyPurge_state_ok:
  assumes "state_ok parse s" "validPrivacyPurgeAction a"
  shows "state_ok parse (beginPrivacyPurge a s)"
proof -
  have "validPrivacyPurgeAction (ps_PrivacyPurgeAction (beginPrivacyPurge a s))"
    using assms by (intro beginPrivacyPurge_ok) (auto simp: state_ok_def split: if_splits)
  then show ?thesis using assms(1) by (simp add: state_ok_def beginPrivacyPurge_def Claimed_def)
qed

lemma Enroll_credentials:
  assumes "Enroll l send url request = Inr r"
  shows "en_SensorID r \<noteq> '''' \<and> en_SensorSecret r \<noteq> '''' \<and> en_IngestURL r \<noteq> '''' \<and> 1 \<le> en_ConfigVersion r"
  using assms by (auto simp: Enroll_def Let_def split: sum.splits option.splits if_splits)

text \<open>The changes that do.\<close>

lemma mode_change_ok:
  "state_ok parse s \<Longrightarrow> m = ModeStandalone \<or> (m = ModeConnected \<and> Claimed s)
   \<Longrightarrow> state_ok parse (s\<lparr>ps_Mode := m, ps_PausedUntil := z\<rparr>)"
  by (auto simp: state_ok_def Claimed_def)

lemma config_change_ok:
  "state_ok parse s \<Longrightarrow> 1 \<le> v \<Longrightarrow> state_ok parse (s\<lparr>ps_Config := NormalizeConfig parse c, ps_ConfigVersion := v\<rparr>)"
  by (simp add: state_ok_def Claimed_def NormalizeConfig_valid)

lemma consent_change_ok: "state_ok parse s \<Longrightarrow> \<not> ps_SSIDPurgePending s \<Longrightarrow> state_ok parse (s\<lparr>ps_SSIDConsent := True\<rparr>)"
  by (simp add: state_ok_def Claimed_def)

lemma wiped_ok:
  "state_ok parse s \<Longrightarrow> state_ok parse (s
     \<lparr>ps_ControllerURL := '''', ps_Mode := ModeStandalone, ps_SensorID := '''', ps_SensorSecret := '''',
      ps_SiteID := '''', ps_IngestURL := '''', ps_Config := DefaultConfig, ps_ConfigVersion := 1,
      ps_SSIDConsent := False, ps_PausedUntil := zero_time, ps_LastSpeedTest := zero_time,
      ps_LastSpeedTests := Map.empty, ps_BudgetDay := '''', ps_BudgetBytes := 0, ps_BudgetMonth := '''',
      ps_MonthlyBudgetBytes := 0, ps_HandledSpeedRequests := [], ps_NetworkIdentityKey := '''', ps_RevokedAt := z\<rparr>)"
  by (simp add: state_ok_def Claimed_def valid_DefaultConfig)

lemma purged_ok: "state_ok parse s \<Longrightarrow> state_ok parse (s\<lparr>ps_SSIDPurgePending := False, ps_PrivacyPurgeAction := ''''\<rparr>)"
  by (simp add: state_ok_def Claimed_def)

lemma SetEnrollment_ok:
  assumes "state_ok (lib_ParseURL l) (fst st)" "Enroll l send url request = Inr r"
  shows "state_ok (lib_ParseURL l) (fst (fst (SetEnrollment fl l random url r st)))"
proof (cases "ValidateIngestURL l url (en_IngestURL r)")
  case (Some e)
  then show ?thesis using assms(1) by (simp add: SetEnrollment_def)
next
  case None
  note e = Enroll_credentials[OF assms(2)]
  show ?thesis
  proof (cases "newRandomKey random")
    case (Inl e)
    then show ?thesis using None assms(1) by (simp add: SetEnrollment_def)
  next
    case (Inr key)
    show ?thesis
      unfolding SetEnrollment_def None option.case Inr sum.case
      by (rule commitLocked_ok[OF assms(1)], drule sum.inject(2)[THEN iffD1], drule sym, simp only:)
         (use assms(1) e in \<open>simp add: state_ok_def Claimed_def NormalizeConfig_valid\<close>)
  qed
qed

lemma SetMode_ok:
  assumes "state_ok parse (fst st)"
  shows "state_ok parse (fst (fst (SetMode fl m st)))"
proof (cases "m = ModeStandalone \<or> (m = ModeConnected \<and> Claimed (fst st))")
  case True
  then have "\<not> (m \<noteq> ModeStandalone \<and> m \<noteq> ModeConnected)" "\<not> (m = ModeConnected \<and> \<not> Claimed (fst st))" by auto
  then show ?thesis
    unfolding SetMode_def
    using commitLocked_total_ok[OF assms, where f = "\<lambda>s. s\<lparr>ps_Mode := m, ps_PausedUntil := zero_time\<rparr>", OF mode_change_ok[OF assms True], of fl] by (simp only: if_False)
next
  case False
  then show ?thesis using assms by (auto simp: SetMode_def)
qed

lemma requests_ok: "state_ok parse (s\<lparr>ps_HandledSpeedRequests := x\<rparr>) = state_ok parse s"
  by (rule state_ok_settings) simp

lemma store_op_ok:
  assumes "store_op l cleared st st'" "state_ok (lib_ParseURL l) (fst st)"
  shows "state_ok (lib_ParseURL l) (fst st')"
  using assms
proof (induction rule: store_op.induct)
  case (enrolled send url request r st fl random)
  then show ?case by (simp add: SetEnrollment_ok)
next
  case (mode st fl m)
  then show ?case by (rule SetMode_ok)
next
  case (channel st fl ch)
  then show ?case by (auto simp: SetUpdateChannel_def intro!: commitLocked_settings_ok)
next
  case (mix st fl hm)
  then show ?case by (auto simp: SetHouseholdMix_def intro!: commitLocked_settings_ok)
next
  case (config st fl cfg v)
  then show ?case
    by (auto simp: SetConfig_def intro!: commitLocked_ok config_change_ok)
next
  case (paused st fl until)
  then show ?case by (auto simp: SetPausedUntil_def intro!: commitLocked_settings_ok)
next
  case (wiped st fl revoked now)
  then show ?case
    unfolding WipeCredentials_def by (intro commitLocked_ok) (auto intro: wiped_ok)
next
  case (consent st fl on)
  then show ?case
  proof (cases on)
    case True
    then show ?thesis using consent unfolding SetSSIDConsent_def
      by (auto intro!: commitLocked_ok consent_change_ok split: if_splits)
  next
    case False
    then show ?thesis
      using consent beginPrivacyPurge_state_ok by (simp add: SetSSIDConsent_def BeginPrivacyPurge_state)
  qed
next
  case (purge st fl action)
  then show ?case using beginPrivacyPurge_state_ok by (simp add: BeginPrivacyPurge_state)
next
  case (complete fl st st' err)
  have "fst st' = fst st \<or> (fst st' = (fst st)\<lparr>ps_SSIDPurgePending := False, ps_PrivacyPurgeAction := ''''\<rparr>)"
    using complete(1) by (auto simp: CompleteSSIDPurge_def Let_def split: if_splits option.splits prod.splits sum.splits)
  then show ?case using complete(2) purged_ok by auto
next
  case (accept_request st fl nonce expires now)
  then show ?case
    by (auto simp: AcceptSpeedTestRequest_def Let_def requests_ok split: prod.splits option.splits)
next
  case (reserve st fl zone tm bytes dl ml ov)
  then show ?case
    by (auto simp: reserveSpeedTestBytes_def split: prod.splits intro!: commitLocked_settings_ok)
next
  case (reconcile st fl zone tm profile reserved used completed)
  then show ?case
    unfolding ReconcileSpeedTestProfile_def Let_def
    by (auto intro!: commitLocked_settings_ok split: if_splits)
next
  case (recorded st fl zone tm profile used)
  then show ?case
    unfolding RecordSpeedTestProfile_def by (auto intro!: commitLocked_settings_ok)
qed
text \<open>What holds of a configuration: the running state, if there is one, is consistent.\<close>

definition config_ok :: "lib \<Rightarrow> State option \<times> disk \<Rightarrow> bool" where
  "config_ok l c \<longleftrightarrow> (\<forall>s. fst c = Some s \<longrightarrow> state_ok (lib_ParseURL l) s)"

lemma sensor_step_ok: "sensor_step l cleared c c' \<Longrightarrow> config_ok l c \<Longrightarrow> config_ok l c'"
  by (induction rule: sensor_step.induct) (auto simp: config_ok_def dest: store_op_ok Open_state_ok)

text \<open>
  (C21) The state a running sensor works with is always consistent, whatever file it was started
  from (any decodable one), whatever operations, I/O failures, restarts and power losses came
  before: the mode is one of the three and connected only with complete credentials; while a
  privacy purge is pending there is no SSID consent and the purge has a valid kind; the
  configuration version is positive and the configuration within the device's bounds.
\<close>

theorem sensor_state_ok:
  assumes "(\<lambda>c c'. \<exists>cleared. sensor_step l cleared c c')\<^sup>*\<^sup>* (None, disk0) (Some s, d)"
  shows "ps_Mode s \<in> {ModeSetup, ModeStandalone, ModeConnected} \<and> (ps_Mode s = ModeConnected \<longrightarrow> Claimed s)
    \<and> (ps_SSIDPurgePending s \<longrightarrow> \<not> ps_SSIDConsent s \<and> validPrivacyPurgeAction (ps_PrivacyPurgeAction s))
    \<and> 1 \<le> ps_ConfigVersion s \<and> valid_config (lib_ParseURL l) (ps_Config s)"
proof -
  have "config_ok l c" if "(\<lambda>c c'. \<exists>cleared. sensor_step l cleared c c')\<^sup>*\<^sup>* (None, disk0) c" for c
    using that
  proof (induction rule: rtranclp_induct)
    case base
    then show ?case by (simp add: config_ok_def)
  next
    case (step c c')
    then show ?case using sensor_step_ok by blast
  qed
  then have "state_ok (lib_ParseURL l) s" using assms by (fastforce simp: config_ok_def)
  then show ?thesis by (auto simp: state_ok_def)
qed

section \<open>A purge is not forgotten\<close>

definition strong :: "int \<Rightarrow> State \<Rightarrow> bool" where
  "strong p s \<longleftrightarrow> ps_SSIDPurgePending s \<and> p \<le> privacyPurgePriority (ps_PrivacyPurgeAction s)"

definition marked :: "int \<Rightarrow> disk \<Rightarrow> bool" where
  "marked p d \<longleftrightarrow> (\<forall>v\<in>versions (dk_state d). \<exists>s. v = Some s \<and> strong p s)
     \<or> (\<forall>v\<in>versions (dk_purge d). \<exists>a. v = Some a \<and> p \<le> privacyPurgePriority a)"

definition blocked :: "int \<Rightarrow> State option \<times> disk \<Rightarrow> bool" where
  "blocked p c \<longleftrightarrow> (\<forall>s. fst c = Some s \<longrightarrow> strong p s \<and> \<not> ps_SSIDConsent s) \<and> marked p (snd c)"

lemma versions_now [simp]: "fi_now f \<in> versions f"
  by (simp add: versions_def)

lemma marked_write_state: "marked p d \<Longrightarrow> strong p s \<Longrightarrow> marked p (d\<lparr>dk_state := replace_with (Some s) b (dk_state d)\<rparr>)"
  by (auto simp: marked_def versions_replace)

lemma marked_write_purge:
  "marked p d \<Longrightarrow> p \<le> privacyPurgePriority a \<Longrightarrow> marked p (d\<lparr>dk_purge := replace_with (Some a) b (dk_purge d)\<rparr>)"
  by (auto simp: marked_def versions_replace)

lemma commitLocked_blocked:
  assumes "blocked p (Some (fst st), snd st)"
    "\<And>s'. change (fst st) = Inr s' \<Longrightarrow> strong p s' \<and> \<not> ps_SSIDConsent s'"
  shows "blocked p (Some (fst (fst (commitLocked fl change st))), snd (fst (commitLocked fl change st)))"
proof (cases fl change "fst st" "snd st" rule: commitLocked_cases)
  case (same e)
  then show ?thesis using assms(1) by simp
next
  case (changed s' err b)
  then show ?thesis using assms marked_write_state by (simp add: blocked_def)
qed

lemma beginPrivacyPurge_strong: "strong p s \<Longrightarrow> strong p (beginPrivacyPurge a s)"
  by (auto simp: strong_def beginPrivacyPurge_def)

lemma beginPrivacyPurge_strength:
  "strong (privacyPurgePriority a) (beginPrivacyPurge a s) \<and> \<not> ps_SSIDConsent (beginPrivacyPurge a s)"
  by (simp add: strong_def beginPrivacyPurge_def)

lemma sentinel_cases:
  obtains (kept) e where "writePrivacyPurgeSentinel fl a d = (Some e, d)"
  | (written) err b where "validPrivacyPurgeAction a" "(err = None) = b"
      "writePrivacyPurgeSentinel fl a d = (err, d\<lparr>dk_purge := replace_with (Some a) b (dk_purge d)\<rparr>)"
  by (cases "validPrivacyPurgeAction a"; cases "first_fault fl [''encode privacy purge sentinel'', ''create privacy purge sentinel'',
        ''secure privacy purge sentinel'', ''write privacy purge sentinel'', ''replace privacy purge sentinel'']";
      cases "fl ''sync privacy purge sentinel''")
     (auto simp: writePrivacyPurgeSentinel_def)

lemma BeginPrivacyPurge_blocked:
  assumes "blocked p (Some (fst st), snd st)"
  shows "blocked p (Some (fst (fst (BeginPrivacyPurge fl a st))), snd (fst (BeginPrivacyPurge fl a st)))"
proof (cases "validPrivacyPurgeAction a")
  case False
  then show ?thesis using assms by (simp add: BeginPrivacyPurge_def)
next
  case True
  let ?s = "beginPrivacyPurge a (fst st)"
  have s: "strong p ?s" "\<not> ps_SSIDConsent ?s"
    using assms beginPrivacyPurge_strong beginPrivacyPurge_strength by (auto simp: blocked_def)
  obtain e1 d1 where w1: "writePrivacyPurgeSentinel fl (ps_PrivacyPurgeAction ?s) (snd st) = (e1, d1)" by fastforce
  obtain b2 e2 d2 where w2: "writeState fl ?s d1 = (b2, e2, d2)" by (metis prod_cases3)
  have "marked p (snd st)" using assms by (simp add: blocked_def)
  moreover have "p \<le> privacyPurgePriority (ps_PrivacyPurgeAction ?s)" using s by (simp add: strong_def)
  ultimately have "marked p d1"
    using w1 marked_write_purge
    by (cases fl "ps_PrivacyPurgeAction ?s" "snd st" rule: sentinel_cases) auto
  then have "marked p d2" using w2 s(1) marked_write_state by (cases fl ?s d1 rule: writeState_cases) auto
  moreover have "fst (BeginPrivacyPurge fl a st) = (?s, d2)" using True w1 w2 by (simp add: BeginPrivacyPurge_def Let_def)
  ultimately show ?thesis using s by (simp add: blocked_def)
qed

lemma complete_blocked:
  assumes "blocked p (Some (fst st), snd st)" "CompleteSSIDPurge fl st = (st', err)" "\<not> marker_removed err"
  shows "blocked p (Some (fst st'), snd st')"
proof -
  let ?s = "fst st" and ?s' = "(fst st)\<lparr>ps_SSIDPurgePending := False, ps_PrivacyPurgeAction := ''''\<rparr>"
  have b: "strong p ?s" "\<not> ps_SSIDConsent ?s" "marked p (snd st)" using assms(1) by (auto simp: blocked_def)
  have pr: "p \<le> privacyPurgePriority (ps_PrivacyPurgeAction ?s)" using b(1) by (simp add: strong_def)
  obtain e1 d1 where w1: "writePrivacyPurgeSentinel fl (ps_PrivacyPurgeAction ?s) (snd st) = (e1, d1)" by fastforce
  show ?thesis
  proof (cases e1)
    case (Some e)
    then have "st' = (?s, d1)" using assms(2) w1 b(1) by (auto simp: CompleteSSIDPurge_def Let_def strong_def)
    moreover have "marked p d1"
      using w1 b(3) pr marked_write_purge
      by (cases fl "ps_PrivacyPurgeAction ?s" "snd st" rule: sentinel_cases) auto
    ultimately show ?thesis using b by (simp add: blocked_def)
  next
    case None
    then have d1: "\<forall>v\<in>versions (dk_purge d1). \<exists>a. v = Some a \<and> p \<le> privacyPurgePriority a"
      using w1 pr by (cases fl "ps_PrivacyPurgeAction ?s" "snd st" rule: sentinel_cases) (auto simp: versions_replace)
    obtain b2 e2 d2 where w2: "writeState fl ?s' d1 = (b2, e2, d2)" by (metis prod_cases3)
    have "dk_purge d2 = dk_purge d1" using w2 by (cases fl ?s' d1 rule: writeState_cases) auto
    then have "marked p d2" using d1 by (simp add: marked_def)
    moreover have "st' = (?s, d2)"
      using assms(2,3) w1 w2 None b(1)
      by (auto simp: CompleteSSIDPurge_def Let_def strong_def marker_removed_def removePrivacyPurgeSentinel_def
          split: option.splits if_splits)
    ultimately show ?thesis using b by (simp add: blocked_def)
  qed
qed
text \<open>Changes that leave the purge fields alone.\<close>

definition purge_fields :: "State \<Rightarrow> bool \<times> bool \<times> string" where
  "purge_fields s = (ps_SSIDConsent s, ps_SSIDPurgePending s, ps_PrivacyPurgeAction s)"

lemma purge_fields_strong:
  "purge_fields s' = purge_fields s \<Longrightarrow> strong p s' = strong p s \<and> ps_SSIDConsent s' = ps_SSIDConsent s"
  by (simp add: purge_fields_def strong_def)

lemma purge_fields_settings: "settings s' = settings s \<Longrightarrow> purge_fields s' = purge_fields s"
  by (simp add: purge_fields_def settings_def)

lemma commitLocked_same_purge:
  assumes "blocked p (Some (fst st), snd st)"
    "\<And>s'. change (fst st) = Inr s' \<Longrightarrow> purge_fields s' = purge_fields (fst st)"
  shows "blocked p (Some (fst (fst (commitLocked fl change st))), snd (fst (commitLocked fl change st)))"
proof (rule commitLocked_blocked[OF assms(1)])
  fix s' assume "change (fst st) = Inr s'"
  then have "purge_fields s' = purge_fields (fst st)" by (rule assms(2))
  from purge_fields_strong[OF this, of p] show "strong p s' \<and> \<not> ps_SSIDConsent s'"
    using assms(1) by (simp add: blocked_def)
qed

lemma commitLocked_unset_consent:
  assumes "blocked p (Some (fst st), snd st)"
    "\<And>s'. change (fst st) = Inr s' \<Longrightarrow> \<not> ps_SSIDConsent s' \<and> ps_SSIDPurgePending s' = ps_SSIDPurgePending (fst st)
        \<and> ps_PrivacyPurgeAction s' = ps_PrivacyPurgeAction (fst st)"
  shows "blocked p (Some (fst (fst (commitLocked fl change st))), snd (fst (commitLocked fl change st)))"
  by (rule commitLocked_blocked[OF assms(1)]) (use assms in \<open>auto simp: blocked_def strong_def\<close>)

lemma SetEnrollment_blocked:
  assumes "blocked p (Some (fst st), snd st)"
  shows "blocked p (Some (fst (fst (SetEnrollment fl l random url r st))), snd (fst (SetEnrollment fl l random url r st)))"
proof (cases "ValidateIngestURL l url (en_IngestURL r)")
  case (Some e)
  then show ?thesis using assms by (simp add: SetEnrollment_def)
next
  case None
  show ?thesis
  proof (cases "newRandomKey random")
    case (Inl e)
    then show ?thesis using None assms by (simp add: SetEnrollment_def)
  next
    case (Inr key)
    show ?thesis
      unfolding SetEnrollment_def None option.case Inr sum.case
      by (rule commitLocked_unset_consent[OF assms], drule sum.inject(2)[THEN iffD1], drule sym, simp only:) simp
  qed
qed

lemma store_op_blocked:
  assumes "store_op l cleared st st'" "\<not> cleared" "blocked p (Some (fst st), snd st)"
  shows "blocked p (Some (fst st'), snd st')"
  using assms
proof (induction rule: store_op.induct)
  case (enrolled send url request r st fl random)
  then show ?case by (simp add: SetEnrollment_blocked)
next
  case (mode st fl m)
  then show ?case by (auto simp: SetMode_def purge_fields_def intro!: commitLocked_same_purge)
next
  case (channel st fl ch)
  then show ?case by (auto simp: SetUpdateChannel_def purge_fields_def intro!: commitLocked_same_purge)
next
  case (mix st fl hm)
  then show ?case by (auto simp: SetHouseholdMix_def purge_fields_def intro!: commitLocked_same_purge)
next
  case (config st fl cfg v)
  then show ?case by (auto simp: SetConfig_def purge_fields_def intro!: commitLocked_same_purge)
next
  case (paused st fl until)
  then show ?case by (auto simp: SetPausedUntil_def purge_fields_def intro!: commitLocked_same_purge)
next
  case (wiped st fl revoked now)
  then show ?case unfolding WipeCredentials_def by (auto intro!: commitLocked_unset_consent)
next
  case (consent st fl on)
  have "ps_SSIDPurgePending (fst st)" using consent by (simp add: blocked_def strong_def)
  then show ?case
    using consent BeginPrivacyPurge_blocked by (auto simp: SetSSIDConsent_def commitLocked_def)
next
  case (purge st fl action)
  then show ?case by (simp add: BeginPrivacyPurge_blocked)
next
  case (complete fl st st' err)
  then show ?case using complete_blocked by blast
next
  case (accept_request st fl nonce expires now)
  let ?s' = "(fst st)\<lparr>ps_HandledSpeedRequests := remember_request nonce (Unix expires) (live_requests now (fst st))\<rparr>"
  have s: "strong p ?s'" "\<not> ps_SSIDConsent ?s'" using accept_request by (auto simp: blocked_def strong_def)
  show ?case
    by (cases fl ?s' "snd st" rule: writeState_cases)
       (use accept_request s marked_write_state in \<open>auto simp: AcceptSpeedTestRequest_def blocked_def Let_def\<close>)
next
  case (reserve st fl zone tm bytes dl ml ov)
  then show ?case
    by (auto simp: reserveSpeedTestBytes_def split: prod.splits
        intro!: commitLocked_same_purge purge_fields_settings)
next
  case (reconcile st fl zone tm profile reserved used completed)
  then show ?case
    unfolding ReconcileSpeedTestProfile_def Let_def
    by (auto intro!: commitLocked_same_purge purge_fields_settings)
next
  case (recorded st fl zone tm profile used)
  then show ?case
    unfolding RecordSpeedTestProfile_def by (auto intro!: commitLocked_same_purge purge_fields_settings)
qed

lemma versions_after_power_loss: "after_power_loss f g \<Longrightarrow> versions g \<subseteq> versions f"
  by (auto simp: after_power_loss_def versions_def)

lemma priority_range: "privacyPurgePriority a \<le> 3" "0 \<le> privacyPurgePriority a"
  by (auto simp: privacyPurgePriority_def)

lemma open_repair_strong:
  assumes "strong p s" "1 \<le> p"
  shows "strong p (open_repair parse uid key s) \<and> \<not> ps_SSIDConsent (open_repair parse uid key s)"
proof -
  have "ps_PrivacyPurgeAction s \<noteq> ''''" using assms by (auto simp: strong_def privacyPurgePriority_def)
  then show ?thesis using assms by (simp add: strong_def open_repair_fields)
qed

lemma repaired_strong:
  assumes "marked p d" "1 \<le> p" "s0 = (case fi_now (dk_state d) of None \<Rightarrow> zero_state | Some s \<Rightarrow> s)"
    "case fi_now (dk_purge d) of None \<Rightarrow> s1 = s0 | Some a \<Rightarrow> validPrivacyPurgeAction a \<and> s1 = beginPrivacyPurge a s0"
  shows "strong p (open_repair parse uid key s1) \<and> \<not> ps_SSIDConsent (open_repair parse uid key s1)"
proof -
  have "strong p s1"
    using assms(1) unfolding marked_def
  proof
    assume "\<forall>v\<in>versions (dk_state d). \<exists>s. v = Some s \<and> strong p s"
    then have "strong p s0" unfolding assms(3) by (metis option.simps(5) versions_now)
    then show ?thesis using assms(4) beginPrivacyPurge_strong by (auto split: option.splits)
  next
    assume "\<forall>v\<in>versions (dk_purge d). \<exists>a. v = Some a \<and> p \<le> privacyPurgePriority a"
    then obtain a where "fi_now (dk_purge d) = Some a" "p \<le> privacyPurgePriority a" by (metis versions_now)
    then show ?thesis using assms(4) beginPrivacyPurge_strength[of a s0] by (auto simp: strong_def)
  qed
  then show ?thesis by (rule open_repair_strong[OF _ assms(2)])
qed

lemma Open_state_blocked:
  assumes "Open_state fl parse r1 r2 d = (res, d')" "marked p d" "1 \<le> p"
  shows "blocked p (case res of Inl _ \<Rightarrow> None | Inr s \<Rightarrow> Some s, d')"
  using assms(1)
proof (cases rule: Open_state_cases)
  case (unread e)
  then show ?thesis using assms(2) by (simp add: blocked_def)
next
  case (repaired s0 s1 s uid key b)
  note st = repaired_strong[OF assms(2,3) repaired(1,3), of parse uid key, folded repaired(4)]
  then have "marked p d'" unfolding repaired(5) by (intro marked_write_state[OF assms(2)]) simp
  then show ?thesis using st repaired(6) by (auto simp: blocked_def split: if_splits)
qed

lemma sensor_step_blocked:
  assumes "sensor_step l cleared c c'" "\<not> cleared" "1 \<le> p" "blocked p c"
  shows "blocked p c'"
  using assms
proof (induction rule: sensor_step.induct)
  case (running cleared s d s' d')
  then show ?case using store_op_blocked by fastforce
next
  case (stopped c d)
  then show ?case by (simp add: blocked_def)
next
  case (power_loss d d' c)
  then have "versions (dk_state d') \<subseteq> versions (dk_state d)" "versions (dk_purge d') \<subseteq> versions (dk_purge d)"
    using versions_after_power_loss by blast+
  then have "marked p d'" using power_loss(5) unfolding blocked_def marked_def snd_conv by blast
  then show ?case by (simp add: blocked_def)
next
  case (opened fl r1 r2 d s d')
  then show ?case using Open_state_blocked[of fl _ r1 r2 d "Inr s" d' p] by (simp add: blocked_def)
next
  case (not_opened fl r1 r2 d e d')
  then show ?case using Open_state_blocked[of fl _ r1 r2 d "Inl e" d' p] by (simp add: blocked_def)
qed
lemma begin_blocked:
  assumes "BeginPrivacyPurge fl a (s, d) = ((s1, d1), None)"
  shows "blocked (privacyPurgePriority a) (Some s1, d1) \<and> 1 \<le> privacyPurgePriority a"
proof -
  have v: "validPrivacyPurgeAction a" using assms by (auto simp: BeginPrivacyPurge_def split: if_splits)
  let ?s = "beginPrivacyPurge a s"
  obtain e1 d0 where w1: "writePrivacyPurgeSentinel fl (ps_PrivacyPurgeAction ?s) d = (e1, d0)" by fastforce
  obtain b2 e2 d2 where w2: "writeState fl ?s d0 = (b2, e2, d2)" by (metis prod_cases3)
  have r: "s1 = ?s" "d1 = d2" "e2 = None"
    using assms v w1 w2 by (auto simp: BeginPrivacyPurge_def Let_def split: option.splits if_splits)
  have "versions (dk_state d2) = {Some ?s}"
    using w2 r(3) by (cases fl ?s d0 rule: writeState_cases) (auto simp: versions_replace)
  then show ?thesis
    using r beginPrivacyPurge_strength[of a s] v
    by (auto simp: blocked_def marked_def validPrivacyPurgeAction_def privacyPurgePriority_def)
qed

text \<open>
  (C22) A privacy purge is never forgotten. Once beginning it has succeeded, every state the sensor
  ever runs with is blocked: the purge is pending, of that kind or a stronger one, and the SSID
  consent is withdrawn. That holds across any operations with any I/O failures, failed attempts to
  complete the purge included, across restarts and across power losses that bring back older
  versions of either file, until a completion removes the marker.
\<close>

theorem purge_not_forgotten:
  assumes "BeginPrivacyPurge fl action (s, d) = ((s1, d1), None)"
    "(sensor_step l False)\<^sup>*\<^sup>* (Some s1, d1) (Some s2, d2)"
  shows "ps_SSIDPurgePending s2 \<and> \<not> ps_SSIDConsent s2
    \<and> privacyPurgePriority action \<le> privacyPurgePriority (ps_PrivacyPurgeAction s2)"
proof -
  note b = begin_blocked[OF assms(1)]
  have "blocked (privacyPurgePriority action) c" if "(sensor_step l False)\<^sup>*\<^sup>* (Some s1, d1) c" for c
    using that
  proof (induction rule: rtranclp_induct)
    case base
    then show ?case using b by blast
  next
    case (step c c')
    then show ?case using sensor_step_blocked b by blast
  qed
  then have "blocked (privacyPurgePriority action) (Some s2, d2)" using assms(2) by blast
  then show ?thesis by (simp add: blocked_def strong_def)
qed

definition fault_free :: io_faults where "fault_free = (\<lambda>_. False)"

lemma fault_free_first [simp]: "first_fault fault_free xs = None"
  by (induction xs) (auto simp: first_fault_def fault_free_def)

lemma Open_fault_free:
  assumes "case fi_now (dk_state d) of None \<Rightarrow> True
      | Some s \<Rightarrow> ps_PrivacyPurgeAction s = '''' \<or> validPrivacyPurgeAction (ps_PrivacyPurgeAction s)"
    "case fi_now (dk_purge d) of None \<Rightarrow> True | Some a \<Rightarrow> validPrivacyPurgeAction a"
  shows "\<exists>s d'. Open_state fault_free parse (Some b1) (Some b2) d = (Inr s, d')"
proof -
  define s0 where "s0 = (case fi_now (dk_state d) of None \<Rightarrow> zero_state | Some s \<Rightarrow> s)"
  have nb: "\<not> (ps_PrivacyPurgeAction s0 \<noteq> '''' \<and> \<not> validPrivacyPurgeAction (ps_PrivacyPurgeAction s0))"
    using assms(1) by (auto simp: s0_def zero_state_def split: option.splits)
  have rd: "readPrivacyPurgeSentinel fault_free d = Inr (fi_now (dk_purge d))"
    using assms(2) by (auto simp: readPrivacyPurgeSentinel_def fault_free_def split: option.splits)
  define s1 where "s1 = (case fi_now (dk_purge d) of None \<Rightarrow> s0 | Some a \<Rightarrow> beginPrivacyPurge a s0)"
  have "\<exists>uid. (if ps_SensorUID s1 = '''' then newUUIDv4 (Some b1) else Inr '''') = Inr uid"
    "\<exists>key. (if ps_NetworkIdentityKey s1 = '''' then newRandomKey (Some b2) else Inr '''') = Inr key"
    by (simp_all add: newUUIDv4_def newRandomKey_def)
  then obtain uid key where uid: "(if ps_SensorUID s1 = '''' then newUUIDv4 (Some b1) else Inr '''') = Inr uid"
    and key: "(if ps_NetworkIdentityKey s1 = '''' then newRandomKey (Some b2) else Inr '''') = Inr key" by blast
  have "writeState fault_free x d = (True, None, d\<lparr>dk_state := replace_with (Some x) True (dk_state d)\<rparr>)" for x
    by (simp add: writeState_def) (simp add: fault_free_def)
  then show ?thesis
    unfolding Open_state_def fault_free_first option.case Let_def s0_def[symmetric] if_not_P[OF nb] rd sum.case
      s1_def[symmetric] uid key by simp
qed

definition new_disk :: disk where
  "new_disk = \<lparr>dk_state = \<lparr>fi_now = None, fi_lost = []\<rparr>, dk_purge = \<lparr>fi_now = None, fi_lost = []\<rparr>\<rparr>"

text \<open>Disconnect, lose power before anything else happens, and start again.\<close>

theorem purge_not_forgotten_witness:
  "\<exists>s1 d1 s2 d2. BeginPrivacyPurge fault_free PrivacyPurgeDisconnect (zero_state, new_disk) = ((s1, d1), None)
     \<and> (sensor_step demo_lib False)\<^sup>*\<^sup>* (Some s1, d1) (Some s2, d2) \<and> ps_SSIDPurgePending s2"
proof -
  let ?s1 = "beginPrivacyPurge PrivacyPurgeDisconnect zero_state"
  let ?d1 = "\<lparr>dk_state = \<lparr>fi_now = Some ?s1, fi_lost = []\<rparr>, dk_purge = \<lparr>fi_now = Some PrivacyPurgeDisconnect, fi_lost = []\<rparr>\<rparr>"
  have act: "ps_PrivacyPurgeAction ?s1 = PrivacyPurgeDisconnect"
    by (simp add: beginPrivacyPurge_def zero_state_def privacyPurgePriority_def)
  have b: "BeginPrivacyPurge fault_free PrivacyPurgeDisconnect (zero_state, new_disk) = ((?s1, ?d1), None)"
    using act by (simp add: BeginPrivacyPurge_def validPrivacyPurgeAction_def writePrivacyPurgeSentinel_def
        writeState_def replace_with_def new_disk_def) (simp add: fault_free_def replace_with_def Let_def)
  have p: "sensor_step demo_lib False (Some ?s1, ?d1) (None, ?d1)"
    by (rule power_loss) (simp_all add: after_power_loss_def versions_def)
  have "\<exists>s d'. Open_state fault_free (lib_ParseURL demo_lib) (Some (replicate 16 0)) (Some (replicate 32 0)) ?d1 = (Inr s, d')"
    by (rule Open_fault_free) (simp_all add: act validPrivacyPurgeAction_def)
  then obtain s2 d2 where "Open_state fault_free (lib_ParseURL demo_lib) (Some (replicate 16 0)) (Some (replicate 32 0)) ?d1 = (Inr s2, d2)"
    by blast
  then have "sensor_step demo_lib False (None, ?d1) (Some s2, d2)" by (rule opened)
  then have r: "(sensor_step demo_lib False)\<^sup>*\<^sup>* (Some ?s1, ?d1) (Some s2, d2)"
    by (rule rtranclp.rtrancl_into_rtrancl[OF r_into_rtranclp[where r = "sensor_step demo_lib False", OF p]])
  have "ps_SSIDPurgePending s2" using purge_not_forgotten[OF b r] by blast
  then show ?thesis using b r by (intro exI conjI)
qed
section \<open>The data budgets\<close>

definition spent_day :: "(time \<Rightarrow> duration) \<Rightarrow> time \<Rightarrow> State \<Rightarrow> u64" where
  "spent_day zone tm s = (if ps_BudgetDay s = format_day zone tm then ps_BudgetBytes s else 0)"

definition spent_month :: "(time \<Rightarrow> duration) \<Rightarrow> time \<Rightarrow> State \<Rightarrow> u64" where
  "spent_month zone tm s = (if ps_BudgetMonth s = format_month zone tm then ps_MonthlyBudgetBytes s else 0)"

lemma remaining_budgets:
  "remainingDataBudgetsLocked zone s tm dl ml =
     (remaining (budget_maximum dl) (spent_day zone tm s), remaining (budget_maximum ml) (spent_month zone tm s))"
  by (auto simp: remainingDataBudgetsLocked_def spent_day_def spent_month_def remaining_def)

lemma charge_roll:
  "ps_BudgetDay (charge b (rollBudgets zone tm s)) = format_day zone tm"
  "ps_BudgetMonth (charge b (rollBudgets zone tm s)) = format_month zone tm"
  "spent_day zone tm (charge b (rollBudgets zone tm s)) = spent_day zone tm s + b"
  "spent_month zone tm (charge b (rollBudgets zone tm s)) = spent_month zone tm s + b"
  by (auto simp: charge_def rollBudgets_def spent_day_def spent_month_def Let_def)

lemma remaining_room:
  assumes "b \<le> remaining m x" "0 < b"
  shows "unat (x + b) = unat x + unat b \<and> unat (x + b) \<le> unat m \<and> remaining m (x + b) = remaining m x - b"
proof -
  have xm: "x < m" using assms by (auto simp: remaining_def split: if_splits)
  then have r: "remaining m x = m - x" by (auto simp: remaining_def dest: leD)
  have u: "unat (m - x) = unat m - unat x" by (rule unat_diff_u64) (use xm in simp)
  have b: "unat b \<le> unat m - unat x" using assms(1) u r by (simp add: word_le_nat_alt)
  have "unat x < unat m" using xm by (simp add: word_less_nat_alt)
  then have le: "unat x + unat b \<le> unat m" using b by linarith
  then have s: "unat (x + b) = unat x + unat b" using unat_u64_less[of m] by (intro unat_add_u64) linarith
  have xb: "x + b \<le> m" using s le by (simp add: word_le_nat_alt)
  have "remaining m (x + b) = m - (x + b)"
  proof (cases "m \<le> x + b")
    case True
    then have "x + b = m" using xb by (rule antisym[rotated])
    then show ?thesis by (simp add: remaining_def)
  qed (simp add: remaining_def)
  then have "remaining m (x + b) = m - x - b" by simp
  then show ?thesis using s le r by simp
qed

lemma commitLocked_None:
  assumes "commitLocked fl (\<lambda>s. Inr (f s)) (s, d) = ((s', d'), None)"
  shows "s' = f s \<and> d' = d\<lparr>dk_state := replace_with (Some (f s)) True (dk_state d)\<rparr>"
  by (cases fl "\<lambda>s. Inr (f s) :: string + State" s d rule: commitLocked_cases) (use assms in auto)

lemma reserve_None:
  assumes "reserveSpeedTestBytes fl zone tm bytes dl ml ov (s, d) = ((s', d'), None)"
  shows "0 < bytes \<and> s' = charge bytes (rollBudgets zone tm s)
    \<and> d' = d\<lparr>dk_state := replace_with (Some s') True (dk_state d)\<rparr>
    \<and> (ov \<or> (bytes \<le> remaining (budget_maximum dl) (spent_day zone tm s)
             \<and> bytes \<le> remaining (budget_maximum ml) (spent_month zone tm s)))"
proof -
  have "bytes \<noteq> 0" using assms by (auto simp: reserveSpeedTestBytes_def)
  moreover have c: "ov \<or> \<not> min (remaining (budget_maximum dl) (spent_day zone tm s)) (remaining (budget_maximum ml) (spent_month zone tm s)) < bytes"
    using assms calculation by (auto simp: reserveSpeedTestBytes_def remaining_budgets split: if_splits)
  moreover have "commitLocked fl (\<lambda>s. Inr (charge bytes (rollBudgets zone tm s))) (s, d) = ((s', d'), None)"
    using assms calculation by (auto simp: reserveSpeedTestBytes_def remaining_budgets split: if_splits)
  from commitLocked_None[OF this] have "s' = charge bytes (rollBudgets zone tm s) \<and>
      d' = d\<lparr>dk_state := replace_with (Some s') True (dk_state d)\<rparr>" by simp
  ultimately show ?thesis by (auto simp: word_neq_0_conv not_less)
qed

text \<open>
  (C25) A scheduled test never exceeds the data budgets. When a reservation succeeds, the bytes it
  charges fit into what the day and the month had left; both ledgers grow by exactly these bytes,
  without wrapping, and stay within their limits; what is left shrinks by exactly them; and the
  charge is on disk before any traffic, so that no power loss can bring back a file without it.
\<close>

theorem reserve_within_budget:
  assumes "ReserveSpeedTestProfileFor fl zone tm bytes dailyMB monthlyMB (s, d) = ((s', d'), None)"
  shows "unat (spent_day zone tm s') = unat (spent_day zone tm s) + unat bytes
    \<and> unat (spent_month zone tm s') = unat (spent_month zone tm s) + unat bytes
    \<and> unat (spent_day zone tm s') \<le> unat (budget_maximum dailyMB)
    \<and> unat (spent_month zone tm s') \<le> unat (budget_maximum monthlyMB)
    \<and> remainingDataBudgetsLocked zone s' tm dailyMB monthlyMB =
        (case remainingDataBudgetsLocked zone s tm dailyMB monthlyMB of (dr, mr) \<Rightarrow> (dr - bytes, mr - bytes))
    \<and> versions (dk_state d') = {Some s'}"
proof -
  note r = reserve_None[OF assms[unfolded ReserveSpeedTestProfileFor_def]]
  have v: "versions (dk_state d') = {Some s'}" using r by (simp add: versions_replace)
  have "0 < bytes" using r by blast
  moreover have "bytes \<le> remaining (budget_maximum dailyMB) (spent_day zone tm s)"
    "bytes \<le> remaining (budget_maximum monthlyMB) (spent_month zone tm s)" using r by auto
  ultimately have "unat (spent_day zone tm s + bytes) = unat (spent_day zone tm s) + unat bytes
      \<and> unat (spent_day zone tm s + bytes) \<le> unat (budget_maximum dailyMB)
      \<and> remaining (budget_maximum dailyMB) (spent_day zone tm s + bytes) = remaining (budget_maximum dailyMB) (spent_day zone tm s) - bytes"
    "unat (spent_month zone tm s + bytes) = unat (spent_month zone tm s) + unat bytes
      \<and> unat (spent_month zone tm s + bytes) \<le> unat (budget_maximum monthlyMB)
      \<and> remaining (budget_maximum monthlyMB) (spent_month zone tm s + bytes) = remaining (budget_maximum monthlyMB) (spent_month zone tm s) - bytes"
    using remaining_room by blast+
  then show ?thesis using r v by (simp add: remaining_budgets charge_roll)
qed

lemma add_sub_min: "x + b - min (b - min u b) (x + b) = x + min u b"
  if "unat x + unat b < 2 ^ 64" for x b u :: u64
proof -
  have s: "unat (x + b) = unat x + unat b" by (rule unat_add_u64[OF that])
  have m: "min u b \<le> b" by simp
  have "unat (b - min u b) = unat b - unat (min u b)" by (rule unat_diff_u64[OF m])
  then have "b - min u b \<le> x + b" using s by (simp add: word_le_nat_alt)
  then have "min (b - min u b) (x + b) = b - min u b" by (simp add: min_def)
  then show ?thesis by simp
qed

text \<open>
  Reserving and settling a test charges exactly what it used. After a reservation, scheduled
  or by the user beyond the budget, the settlement at the same date refunds the rest: both ledgers
  end at what was spent before plus the bytes used (never more than were reserved), and the time
  of the test is recorded exactly when it was completed.
\<close>

theorem reserve_then_reconcile:
  assumes "reserveSpeedTestBytes fl zone tm bytes dailyMB monthlyMB overdraw (s, d) = ((s1, d1), None)"
    "ReconcileSpeedTestProfile fl' zone tm profile bytes used completed (s1, d1) = ((s2, d2), None)"
    "unat (spent_day zone tm s) + unat bytes < 2 ^ 64" "unat (spent_month zone tm s) + unat bytes < 2 ^ 64"
  shows "spent_day zone tm s2 = spent_day zone tm s + min used bytes
    \<and> spent_month zone tm s2 = spent_month zone tm s + min used bytes
    \<and> last_test s2 profile = (if completed then tm else last_test s profile)"
proof -
  have s1: "s1 = charge bytes (rollBudgets zone tm s)" using reserve_None[OF assms(1)] by blast
  let ?f = "\<lambda>s. let s1 = refund zone tm (bytes - min used bytes) s in (if completed then record_test tm profile s1 else s1)"
  have "commitLocked fl' (\<lambda>s. Inr (?f s)) (s1, d1) = ((s2, d2), None)"
    using assms(2) by (simp add: ReconcileSpeedTestProfile_def Let_def)
  from commitLocked_None[where f = ?f, OF this] have s2: "s2 = ?f s1" by blast
  define a where "a = bytes - min used bytes"
  have s2: "s2 = (if completed then record_test tm profile (refund zone tm a s1) else refund zone tm a s1)"
    unfolding s2 a_def Let_def ..
  have day: "spent_day zone tm s2 = spent_day zone tm s1 - min a (spent_day zone tm s1)"
    and month: "spent_month zone tm s2 = spent_month zone tm s1 - min a (spent_month zone tm s1)"
    by (simp_all add: s2 refund_def spent_day_def spent_month_def record_test_def s1 charge_roll Let_def)
  have "spent_day zone tm s1 = spent_day zone tm s + bytes" "spent_month zone tm s1 = spent_month zone tm s + bytes"
    by (simp_all add: s1 charge_roll)
  then have "spent_day zone tm s2 = spent_day zone tm s + min used bytes"
    "spent_month zone tm s2 = spent_month zone tm s + min used bytes"
    unfolding day month a_def using add_sub_min assms(3,4) by simp_all
  moreover have "last_test (refund zone tm a s1) profile = last_test s profile"
    by (simp add: last_test_def refund_def s1 charge_def rollBudgets_def Let_def)
  then have "last_test s2 profile = (if completed then tm else last_test s profile)"
    unfolding s2 by (simp add: last_test_def record_test_def)
  ultimately show ?thesis by blast
qed

lemma budget_reservation:
  "\<exists>s d. ReserveSpeedTestProfileFor fault_free (\<lambda>_. 0) 0 1000 1 10 (zero_state, new_disk) = ((s, d), None)"
  by (simp add: ReserveSpeedTestProfileFor_def reserveSpeedTestBytes_def remaining_budgets spent_day_def spent_month_def
      zero_state_def remaining_def budget_maximum_def commitLocked_def writeState_def) (simp add: fault_free_def)

theorem reserve_within_budget_witness:
  "\<exists>s d. ReserveSpeedTestProfileFor fault_free (\<lambda>_. 0) 0 1000 1 10 (zero_state, new_disk) = ((s, d), None)
     \<and> unat (spent_day (\<lambda>_. 0) 0 s) \<le> unat (budget_maximum 1)"
  using budget_reservation reserve_within_budget by blast
theorem sensor_state_ok_witness:
  "\<exists>s d. Open_state fault_free (lib_ParseURL demo_lib) (Some (replicate 16 0)) (Some (replicate 32 0)) new_disk = (Inr s, d)
     \<and> 1 \<le> ps_ConfigVersion s"
proof -
  have "\<exists>s d. Open_state fault_free (lib_ParseURL demo_lib) (Some (replicate 16 0)) (Some (replicate 32 0)) new_disk = (Inr s, d)"
    by (rule Open_fault_free) (simp_all add: new_disk_def)
  then obtain s d where o: "Open_state fault_free (lib_ParseURL demo_lib) (Some (replicate 16 0)) (Some (replicate 32 0)) new_disk = (Inr s, d)"
    by blast
  from opened[OF o] have "\<exists>cleared. sensor_step demo_lib cleared (None, new_disk) (Some s, d)" by blast
  then have "(\<lambda>c c'. \<exists>cleared. sensor_step demo_lib cleared c c')\<^sup>*\<^sup>* (None, new_disk) (Some s, d)"
    by (rule r_into_rtranclp)
  from sensor_state_ok[OF this] o show ?thesis by blast
qed

theorem reserve_then_reconcile_witness:
  "\<exists>s1 d1 s2 d2. reserveSpeedTestBytes fault_free (\<lambda>_. 0) 0 1000 1 10 False (zero_state, new_disk) = ((s1, d1), None)
     \<and> ReconcileSpeedTestProfile fault_free (\<lambda>_. 0) 0 ''household'' 1000 600 True (s1, d1) = ((s2, d2), None)
     \<and> spent_day (\<lambda>_. 0) 0 s2 = 600"
proof -
  obtain s1 d1 where r: "reserveSpeedTestBytes fault_free (\<lambda>_. 0) 0 1000 1 10 False (zero_state, new_disk) = ((s1, d1), None)"
    using budget_reservation unfolding ReserveSpeedTestProfileFor_def by blast
  have "writeState fault_free x d1 = (True, None, d1\<lparr>dk_state := replace_with (Some x) True (dk_state d1)\<rparr>)" for x
    by (simp add: writeState_def) (simp add: fault_free_def)
  then obtain s2 d2 where c: "ReconcileSpeedTestProfile fault_free (\<lambda>_. 0) 0 ''household'' 1000 600 True (s1, d1) = ((s2, d2), None)"
    by (simp add: ReconcileSpeedTestProfile_def commitLocked_def Let_def)
  have z: "spent_day (\<lambda>_. 0) 0 zero_state = 0" "spent_month (\<lambda>_. 0) 0 zero_state = 0"
    by (simp_all add: spent_day_def spent_month_def zero_state_def)
  have "unat (1000::u64) < 2 ^ 64" by simp
  then have "spent_day (\<lambda>_. 0) 0 s2 = 0 + min 600 1000"
    using reserve_then_reconcile[OF r c] z by simp
  then show ?thesis using r c by auto
qed

section \<open>One-off requests are used once\<close>

text \<open>
  Runs in which only requests are offered, \<open>n\<close> of them, all before the deadline, and the process
  may stop, lose power and start again.
\<close>

inductive accept_run :: "lib \<Rightarrow> int \<Rightarrow> State option \<times> disk \<Rightarrow> nat \<Rightarrow> State option \<times> disk \<Rightarrow> bool"
  for l deadline c where
  start: "accept_run l deadline c 0 c"
| offer: "accept_run l deadline c n (Some s, d) \<Longrightarrow> Unix now \<le> deadline
    \<Longrightarrow> AcceptSpeedTestRequest fl nonce expires now (s, d) = ((s', d'), r) \<Longrightarrow> accept_run l deadline c (Suc n) (Some s', d')"
| restart: "accept_run l deadline c n c' \<Longrightarrow> sensor_step l False c' c'' \<Longrightarrow> fst c' = None \<or> fst c'' = None
    \<Longrightarrow> accept_run l deadline c n c''"

definition remembers :: "string \<times> int \<Rightarrow> nat \<Rightarrow> State \<Rightarrow> bool" where
  "remembers e k s \<longleftrightarrow> e \<in> set (ps_HandledSpeedRequests s) \<and> length (ps_HandledSpeedRequests s) \<le> k"

definition all_remember :: "string \<times> int \<Rightarrow> nat \<Rightarrow> State option \<times> disk \<Rightarrow> bool" where
  "all_remember e k c \<longleftrightarrow> (\<forall>s. fst c = Some s \<longrightarrow> remembers e k s)
     \<and> (\<forall>v\<in>versions (dk_state (snd c)). \<exists>s. v = Some s \<and> remembers e k s)"

lemma accept_cases:
  assumes "AcceptSpeedTestRequest fl nonce e now (s, d) = ((s', d'), r)"
  obtains (seen) "nonce \<in> fst ` set (live_requests now s)" "s' = s" "d' = d" "r = Inr False"
  | (kept) err where "s' = s" "d' = d" "r = Inl err"
  | (written) b where "nonce \<notin> fst ` set (live_requests now s)"
      "s' = s\<lparr>ps_HandledSpeedRequests := remember_request nonce (Unix e) (live_requests now s)\<rparr>"
      "d' = d\<lparr>dk_state := replace_with (Some s') b (dk_state d)\<rparr>" "if b then r = Inr True else \<exists>err. r = Inl err"
proof (cases "nonce \<in> fst ` set (live_requests now s)")
  case True
  then have "s' = s \<and> d' = d \<and> r = Inr False" using assms by (simp add: AcceptSpeedTestRequest_def)
  then show ?thesis using True by (intro seen) simp_all
next
  case False
  let ?s = "s\<lparr>ps_HandledSpeedRequests := remember_request nonce (Unix e) (live_requests now s)\<rparr>"
  show ?thesis
  proof (cases fl ?s d rule: writeState_cases)
    case (kept err)
    then show ?thesis using assms False that(2) by (auto simp: AcceptSpeedTestRequest_def Let_def)
  next
    case (written err b)
    then show ?thesis using assms False that(3)[of b] by (cases err) (auto simp: AcceptSpeedTestRequest_def Let_def)
  qed
qed

lemma remember_live:
  assumes "remembers (n, x) k s" "k \<le> 31" "Unix now \<le> x"
  shows "remembers (n, x) (Suc k) (s\<lparr>ps_HandledSpeedRequests := remember_request nonce e (live_requests now s)\<rparr>)"
proof -
  have "length (live_requests now s) \<le> k"
    using assms(1) unfolding live_requests_def remembers_def by (meson length_filter_le order_trans)
  then show ?thesis using assms by (auto simp: remember_request_def remembers_def live_requests_def)
qed

lemma remembers_mono: "remembers e k s \<Longrightarrow> k \<le> k' \<Longrightarrow> remembers e k' s"
  by (auto simp: remembers_def)

lemma accept_remembers:
  assumes "all_remember (n, x) k (Some s, d)" "k \<le> 31" "Unix now \<le> x"
    "AcceptSpeedTestRequest fl nonce expires now (s, d) = ((s', d'), r)"
  shows "all_remember (n, x) (Suc k) (Some s', d')"
proof -
  have old: "remembers (n, x) (Suc k) s" "\<forall>v\<in>versions (dk_state d). \<exists>s. v = Some s \<and> remembers (n, x) (Suc k) s"
    using assms(1) remembers_mono[of _ k _ "Suc k"] by (auto simp: all_remember_def)
  show ?thesis
    using assms(4)
  proof (cases rule: accept_cases)
    case (written b)
    have "remembers (n, x) (Suc k) s'"
      unfolding written(2) using assms(1-3) by (intro remember_live) (auto simp: all_remember_def)
    then show ?thesis using old written(3) by (auto simp: all_remember_def versions_replace)
  qed (use old in \<open>auto simp: all_remember_def\<close>)
qed

lemma restart_remembers:
  assumes "all_remember e k c" "sensor_step l False c c'" "fst c = None \<or> fst c' = None"
  shows "all_remember e k c'"
proof -
  have reopen: "all_remember e k (case res of Inl _ \<Rightarrow> None | Inr s \<Rightarrow> Some s, d')"
    if "Open_state fl parse r1 r2 d = (res, d')" "all_remember e k (None, d)" for fl parse r1 r2 d res d'
    using that(1)
  proof (cases rule: Open_state_cases)
    case (unread err)
    then show ?thesis using that(2) by simp
  next
    case (repaired s0 s1 s uid key b)
    have "remembers e k s0"
      using that(2) unfolding repaired(1) all_remember_def by (metis option.simps(5) snd_conv versions_now)
    then have "remembers e k s1"
      using repaired(3) by (auto simp: remembers_def beginPrivacyPurge_def split: option.splits)
    then have "remembers e k s" by (simp add: repaired(4) remembers_def open_repair_fields)
    then show ?thesis using that(2) repaired(5,6) by (auto simp: all_remember_def versions_replace split: if_splits)
  qed
  show ?thesis
    using assms(2,1,3)
  proof (induction rule: sensor_step.induct)
    case (power_loss d d' c)
    then have "versions (dk_state d') \<subseteq> versions (dk_state d)" using versions_after_power_loss by blast
    then show ?case using power_loss(3) unfolding all_remember_def by auto
  next
    case (opened fl r1 r2 d s d')
    then show ?case using reopen[of fl _ r1 r2 d "Inr s" d'] by simp
  next
    case (not_opened fl r1 r2 d err d')
    then show ?case using reopen[of fl _ r1 r2 d "Inl err" d'] by simp
  qed (auto simp: all_remember_def)
qed

text \<open>
  (C26) A one-off test request is used at most once. After a request was accepted, any further
  requests, failing writes, restarts and power losses later, the same request is refused for as
  long as it has not expired, provided no more requests came in that time than the list holds:
  the unexpired ones then and the offers since are at most 31 together.
\<close>

theorem accepted_request_not_replayed:
  assumes "AcceptSpeedTestRequest fl nonce expires now (s, d) = ((s1, d1), Inr True)"
    "accept_run l (Unix expires) (Some s1, d1) offers (Some s2, d2)"
    "length (live_requests now s) + offers \<le> 31" "Unix now2 \<le> Unix expires"
  shows "AcceptSpeedTestRequest fl2 nonce expires2 now2 (s2, d2) = ((s2, d2), Inr False)"
proof -
  define k where "k = Suc (length (live_requests now s))"
  have start: "all_remember (nonce, Unix expires) k (Some s1, d1)"
  proof -
    have new: "remembers (nonce, Unix expires) k (s\<lparr>ps_HandledSpeedRequests := remember_request nonce (Unix expires) (live_requests now s)\<rparr>)"
      using assms(3) by (simp add: remembers_def remember_request_def k_def)
    show ?thesis
      using assms(1)
    proof (cases rule: accept_cases)
      case (written b)
      then show ?thesis using new by (auto simp: all_remember_def versions_replace split: if_splits)
    qed simp_all
  qed
  have "all_remember (nonce, Unix expires) (k + n) c" if "accept_run l (Unix expires) (Some s1, d1) n c" "k + n \<le> 32" for n c
    using that
  proof (induction rule: accept_run.induct)
    case start
    then show ?case using \<open>all_remember (nonce, Unix expires) k (Some s1, d1)\<close> by simp
  next
    case offer
    show ?case
      using accept_remembers[OF offer.IH _ offer.hyps(2,3)] offer.prems by simp
  next
    case (restart n c' c'')
    then show ?case using restart_remembers by blast
  qed
  then have "all_remember (nonce, Unix expires) (k + offers) (Some s2, d2)" using assms(2,3) by (simp add: k_def)
  then have "(nonce, Unix expires) \<in> set (live_requests now2 s2)"
    using assms(4) by (auto simp: all_remember_def remembers_def live_requests_def)
  then have "nonce \<in> fst ` set (live_requests now2 s2)" by force
  then show ?thesis by (simp add: AcceptSpeedTestRequest_def Let_def)
qed

lemma accept_fault_free:
  assumes "nonce \<notin> fst ` set (live_requests now s)"
  shows "\<exists>s1 d1. AcceptSpeedTestRequest fault_free nonce expires now (s, d) = ((s1, d1), Inr True)"
proof -
  have "writeState fault_free y d = (True, None, d\<lparr>dk_state := replace_with (Some y) True (dk_state d)\<rparr>)" for y
    by (simp add: writeState_def) (simp add: fault_free_def)
  then show ?thesis using assms by (simp add: AcceptSpeedTestRequest_def Let_def)
qed

lemma accept_first:
  "\<exists>s d. AcceptSpeedTestRequest fault_free ''x'' (200 * Second) (100 * Second) (zero_state, new_disk) = ((s, d), Inr True)"
  by (rule accept_fault_free) (simp add: live_requests_def zero_state_def)

theorem accepted_request_not_replayed_witness:
  "\<exists>s d. AcceptSpeedTestRequest fault_free ''x'' (200 * Second) (100 * Second) (zero_state, new_disk) = ((s, d), Inr True)
     \<and> AcceptSpeedTestRequest fault_free ''x'' (200 * Second) (150 * Second) (s, d) = ((s, d), Inr False)"
proof -
  obtain s d where a: "AcceptSpeedTestRequest fault_free ''x'' (200 * Second) (100 * Second) (zero_state, new_disk) = ((s, d), Inr True)"
    using accept_first by blast
  have "accept_run demo_lib (Unix (200 * Second)) (Some s, d) 0 (Some s, d)" by (rule start)
  from accepted_request_not_replayed[OF a this, of "150 * Second" fault_free "200 * Second"] a
  show ?thesis by (auto simp: live_requests_def zero_state_def Unix_def)
qed

lemma foldl_choice:
  assumes "\<And>a x. f a x = a \<or> f a x = x"
  shows "foldl f a xs \<in> insert a (set xs)"
proof (induction xs arbitrary: a)
  case (Cons x xs)
  then show ?case using assms[of a x] by (metis foldl_Cons insert_iff list.simps(15))
qed simp

lemma oldest_request_mem:
  assumes "xs \<noteq> []"
  shows "oldest_request xs \<in> fst ` set xs"
proof -
  define f :: "string \<times> int \<Rightarrow> string \<times> int \<Rightarrow> string \<times> int" where
    "f = (\<lambda>(oldest, oldestExpiry) (n, expiry). if oldest = '''' \<or> expiry < oldestExpiry then (n, expiry) else (oldest, oldestExpiry))"
  obtain y ys where xs: "xs = y # ys" using assms by (cases xs) auto
  have "f ('''', 0) y = y" by (cases y) (simp add: f_def)
  moreover have "foldl f y ys \<in> insert y (set ys)" by (rule foldl_choice) (auto simp: f_def split: prod.splits)
  ultimately have "foldl f ('''', 0) xs \<in> set xs" by (simp add: xs)
  then show ?thesis unfolding oldest_request_def f_def by (rule imageI)
qed

text \<open>
  What the bound on the list costs. With 32 unexpired requests remembered, accepting one more
  evicts an unexpired one, and that request is accepted a second time right after: the list bounds
  the state, but prevents replays only while it does not overflow.
\<close>

theorem replay_after_eviction:
  assumes "AcceptSpeedTestRequest fl nonce expires now (s, d) = ((s1, d1), Inr True)" "32 \<le> length (live_requests now s)"
  shows "\<exists>old. old \<in> fst ` set (live_requests now s) \<and> old \<noteq> nonce
    \<and> snd (AcceptSpeedTestRequest fault_free old expires' now (s1, d1)) = Inr True"
proof -
  let ?L = "live_requests now s" and ?s = "s\<lparr>ps_HandledSpeedRequests := remember_request nonce (Unix expires) (live_requests now s)\<rparr>"
  have n: "nonce \<notin> fst ` set ?L" and s1: "s1 = ?s"
    using assms(1) by (cases rule: accept_cases; simp)+
  have old: "oldest_request ?L \<in> fst ` set ?L" using assms(2) by (intro oldest_request_mem) auto
  then have ne: "oldest_request ?L \<noteq> nonce" using n by metis
  have "ps_HandledSpeedRequests s1 = filter (\<lambda>e. fst e \<noteq> oldest_request ?L) ?L @ [(nonce, Unix expires)]"
    using assms(2) by (simp add: s1 remember_request_def)
  then have fresh: "oldest_request ?L \<notin> fst ` set (live_requests now s1)"
    using ne by (auto simp: live_requests_def[of now s1])
  have "snd (AcceptSpeedTestRequest fault_free (oldest_request ?L) expires' now (s1, d1)) = Inr True"
    using accept_fault_free[OF fresh, of expires' d1] by auto
  then show ?thesis using old ne by blast
qed

theorem replay_after_eviction_witness:
  "\<exists>old s1 d1. snd (AcceptSpeedTestRequest fault_free old (200 * Second) (100 * Second) (s1, d1)) = Inr True \<and> old \<noteq> ''x''"
proof -
  define entries where "entries = map (\<lambda>i. (replicate (Suc i) (CHR ''n''), 150 :: int)) [0..<32]"
  define s where "s = zero_state\<lparr>ps_HandledSpeedRequests := entries\<rparr>"
  have "\<forall>e\<in>set entries. snd e = 150" by (auto simp: entries_def)
  then have L: "live_requests (100 * Second) s = entries"
    by (simp add: live_requests_def s_def Unix_def filter_id_conv)
  have "''x'' \<notin> fst ` set entries" by (auto simp: entries_def)
  then obtain s1 d1 where a: "AcceptSpeedTestRequest fault_free ''x'' (200 * Second) (100 * Second) (s, new_disk) = ((s1, d1), Inr True)"
    using accept_fault_free unfolding L[symmetric] by blast
  have "32 \<le> length (live_requests (100 * Second) s)" unfolding L by (simp add: entries_def)
  then show ?thesis using replay_after_eviction[OF a, of "200 * Second"] by blast
qed

end
