(* ===== verification/Uploader.thy ===== *)
theory Uploader
  imports Spool State_Store
begin

text \<open>
  The upload loop of \<open>internal/uploader/uploader.go\<close>. \<open>Tick\<close> joins the spool, the state store and
  the client: the three and the uploader's own fields are one \<open>world\<close>, and everything one tick
  gets from outside is a \<open>tick_env\<close> (the clock at its start and later, random bytes, the HTTP
  transport, the faults of the disk and of the database). A tick returns the new world, its result
  and, so that properties can speak of them, the client calls it made, in order. The locks are not
  modelled: \<open>runMu\<close> makes a tick one step, and the other methods are single assignments.
\<close>

section \<open>State\<close>

record Snapshot =
  sn_LastSuccess :: time
  sn_LastAttempt :: time
  sn_NextAttempt :: time
  sn_LastError :: string
  sn_Failures :: int
  sn_UploadedBytes :: int

record Uploader =
  up_start :: time
  up_snapshot :: Snapshot
  up_lastHeartbeat :: time
  up_force :: bool
  up_speedRequest :: "SpeedTestRequest option"
  up_privacyBlocked :: bool

record world =
  wo_up :: Uploader
  wo_store :: Store
  wo_spool :: spool_db

record tick_env =
  te_now :: time
  te_later :: time
  te_jitter :: "u64 option"
  te_jitter2 :: "u64 option"
  te_lib :: lib
  te_send :: "http_request \<Rightarrow> string + http_response"
  te_nonce :: "string option"
  te_nonce2 :: "string option"
  te_send2 :: "http_request \<Rightarrow> string + http_response"
  te_options :: spool_options
  te_codec :: codec
  te_batch_random :: "u8 list option"
  te_next_faults :: faults
  te_ack_faults :: faults
  te_stats_faults :: faults
  te_storage :: "string + int"
  te_disk_faults :: io_faults
  te_encode :: "string \<Rightarrow> string"
  te_version :: string

text \<open>\<open>protocol.ErrRevoked\<close> itself, or any other error.\<close>

datatype tick_result = Done | ErrRevoked | TickError client_error

datatype client_call = IngestCall string string | HeartbeatCall string | ConfigCall string

abbreviation (input) minimumBackoff :: duration where "minimumBackoff \<equiv> 2 * Second"
abbreviation (input) maximumBackoff :: duration where "maximumBackoff \<equiv> 5 * Minute"
abbreviation (input) quotaBackoff :: duration where "quotaBackoff \<equiv> 30 * Minute"
abbreviation (input) maximumRetryAfter :: duration where "maximumRetryAfter \<equiv> 6 * Hour"

definition New_uploader :: "time \<Rightarrow> Uploader" where
  "New_uploader now = \<lparr>up_start = now,
     up_snapshot = \<lparr>sn_LastSuccess = zero_time, sn_LastAttempt = zero_time, sn_NextAttempt = now,
       sn_LastError = '''', sn_Failures = 0, sn_UploadedBytes = 0\<rparr>,
     up_lastHeartbeat = zero_time, up_force = False, up_speedRequest = None, up_privacyBlocked = False\<rparr>"

definition with_snapshot :: "(Snapshot \<Rightarrow> Snapshot) \<Rightarrow> Uploader \<Rightarrow> Uploader" where
  "with_snapshot f u = u\<lparr>up_snapshot := f (up_snapshot u)\<rparr>"

definition Force :: "Uploader \<Rightarrow> Uploader" where
  "Force u = with_snapshot (\<lambda>s. s\<lparr>sn_NextAttempt := zero_time\<rparr>) (u\<lparr>up_force := True\<rparr>)"

definition ClearSpeedTestRequest :: "string \<Rightarrow> Uploader \<Rightarrow> Uploader" where
  "ClearSpeedTestRequest nonce u =
     (case up_speedRequest u of
        Some r \<Rightarrow> if sq_Nonce r = nonce then u\<lparr>up_speedRequest := None\<rparr> else u
      | None \<Rightarrow> u)"

definition ClearSpeedTestRequests :: "Uploader \<Rightarrow> Uploader" where
  "ClearSpeedTestRequests u = u\<lparr>up_speedRequest := None\<rparr>"

definition ClearPrivacyBlock :: "Uploader \<Rightarrow> Uploader" where
  "ClearPrivacyBlock u = u\<lparr>up_privacyBlocked := False\<rparr>"

section \<open>Pacing\<close>

text \<open>\<open>raw\<close> is the random word read, or nothing when reading failed.\<close>

definition fullJitter :: "u64 option \<Rightarrow> duration \<Rightarrow> duration" where
  "fullJitter raw limit =
     (if limit \<le> 0 then 0
      else case raw of None \<Rightarrow> limit div 2 | Some w \<Rightarrow> uint w mod limit)"

definition schedule :: "time \<Rightarrow> duration \<Rightarrow> Uploader \<Rightarrow> Uploader" where
  "schedule now delay u = with_snapshot (\<lambda>s. s\<lparr>sn_NextAttempt := now + delay\<rparr>) u"

definition normal_delay :: "u64 option \<Rightarrow> int \<Rightarrow> duration" where
  "normal_delay raw seconds =
     (let base = (if seconds \<le> 0 then 60 else seconds) * Second; spread = base div 10
      in base + (fullJitter raw (2 * spread) - spread))"

definition scheduleNormal :: "tick_env \<Rightarrow> int \<Rightarrow> Uploader \<Rightarrow> Uploader" where
  "scheduleNormal env seconds u = schedule (te_later env) (normal_delay (te_jitter env) seconds) u"

definition retryAfter :: "client_error \<Rightarrow> duration" where
  "retryAfter e = (case e of API a \<Rightarrow> ae_RetryAfter a | _ \<Rightarrow> 0)"

definition error_text :: "client_error \<Rightarrow> string" where
  "error_text e = (case e of
       Revoked detail \<Rightarrow> ''sensor credentials revoked: '' @ detail
     | API a \<Rightarrow> if ae_Code a \<noteq> ''''
         then ''controller returned HTTP '' @ itoa (ae_StatusCode a) @ '' ('' @ ae_Code a @ ''): '' @ ae_Detail a
         else ''controller returned HTTP '' @ itoa (ae_StatusCode a) @ '': '' @ ae_Detail a
     | Failed text \<Rightarrow> text)"

text \<open>
  The delay \<open>fail\<close> chooses, after \<open>failures\<close> failures in a row: the value and the cap it is held to.
\<close>

definition quota_base :: "string \<Rightarrow> int \<Rightarrow> duration" where
  "quota_base code failures =
     (if contains_str code ''quota''
      then min (quotaBackoff * 2 ^ nat (min (failures - 1) 4)) maximumRetryAfter else quotaBackoff)"

definition retry_delay :: "u64 option \<Rightarrow> u64 option \<Rightarrow> client_error \<Rightarrow> duration \<Rightarrow> int \<Rightarrow> duration \<times> duration" where
  "retry_delay raw raw2 err retry failures =
     (if retry \<le> 0
      then case err of
          API a \<Rightarrow>
            if ae_StatusCode a = 429
            then (let base = quota_base (ae_Code a) failures in (base + fullJitter raw2 base, maximumRetryAfter))
            else (fullJitter raw (min (minimumBackoff * 2 ^ nat (min (failures - 1) 8)) maximumBackoff), maximumBackoff)
        | _ \<Rightarrow> (fullJitter raw (min (minimumBackoff * 2 ^ nat (min (failures - 1) 8)) maximumBackoff), maximumBackoff)
      else (retry, maximumRetryAfter))"

definition fail :: "tick_env \<Rightarrow> client_error \<Rightarrow> duration \<Rightarrow> Uploader \<Rightarrow> Uploader" where
  "fail env err retry0 u =
     (let failures = sn_Failures (up_snapshot u) + 1;
          (retry, ceilingCap) = retry_delay (te_jitter env) (te_jitter2 env) err retry0 failures;
          delay = (if retry > ceilingCap then ceilingCap else retry)
      in with_snapshot (\<lambda>s. s\<lparr>sn_LastError := error_text err, sn_Failures := failures,
           sn_NextAttempt := te_later env + delay\<rparr>) u)"

definition succeed :: "tick_env \<Rightarrow> int \<Rightarrow> Uploader \<Rightarrow> Uploader" where
  "succeed env bytesSent u = with_snapshot (\<lambda>s. s\<lparr>sn_LastSuccess := te_later env, sn_LastError := '''',
     sn_Failures := 0, sn_UploadedBytes := sn_UploadedBytes s + bytesSent\<rparr>) u"

section \<open>A tick\<close>

definition appVersion :: "tick_env \<Rightarrow> string" where
  "appVersion env = (if te_version env = '''' then ''0.0.0-dev'' else te_version env)"

definition interval :: "world \<Rightarrow> int" where
  "interval w = sc_UploadIntervalSeconds (ps_Config (fst (wo_store w)))"

definition on_up :: "(Uploader \<Rightarrow> Uploader) \<Rightarrow> world \<Rightarrow> world" where
  "on_up f w = w\<lparr>wo_up := f (wo_up w)\<rparr>"

text \<open>The latch is set before the marker is written, so a failed write cannot release it.\<close>

definition revoke :: "tick_env \<Rightarrow> world \<Rightarrow> world \<times> tick_result" where
  "revoke env w =
     (let latched = on_up (\<lambda>u. with_snapshot (\<lambda>s. s\<lparr>sn_LastError := ''sensor credentials revoked'', sn_Failures := 0,
            sn_NextAttempt := zero_time\<rparr>) (u\<lparr>up_privacyBlocked := True, up_speedRequest := None\<rparr>)) w
      in case BeginPrivacyPurge (te_disk_faults env) PrivacyPurgeRevocation (wo_store latched) of
           (store, Some e) \<Rightarrow> (on_up (fail env (Failed e) 0) (latched\<lparr>wo_store := store\<rparr>),
             TickError (Failed (''persist revoked-sensor privacy block: '' @ e)))
         | (store, None) \<Rightarrow>
             let w' = latched\<lparr>wo_store := store\<rparr>
             in (on_up (scheduleNormal env (interval w')) w', ErrRevoked))"

definition queueSpeedTestRequest :: "lib \<Rightarrow> SpeedTestRequest option \<Rightarrow> Credentials \<Rightarrow> Uploader \<Rightarrow> Uploader" where
  "queueSpeedTestRequest l request credentials u =
     (case request of None \<Rightarrow> u
      | Some r \<Rightarrow> (case VerifySpeedTestRequest l r credentials of
          Some _ \<Rightarrow> u | None \<Rightarrow> u\<lparr>up_speedRequest := Some r\<rparr>))"

definition pullConfig :: "tick_env \<Rightarrow> string \<Rightarrow> Credentials \<Rightarrow> world \<Rightarrow> world \<times> client_error option" where
  "pullConfig env controllerURL credentials w =
     (case Config (te_lib env) (te_send2 env) (te_later env) (te_nonce2 env) controllerURL credentials of
        Inl e \<Rightarrow> (w, Some e)
      | Inr r \<Rightarrow>
          (case SetConfig (te_disk_faults env) (lib_ParseURL (te_lib env)) (cr_Config r) (cr_ConfigVersion r) (wo_store w) of
             (store, Some e) \<Rightarrow> (w\<lparr>wo_store := store\<rparr>, Some (Failed (''persist sensor config: '' @ e)))
           | (store, None) \<Rightarrow> (w\<lparr>wo_store := store\<rparr>, None)))"

text \<open>
  The configuration is pulled when the controller has a newer one. \<open>Some\<close> result ends the tick
  (the sensor was revoked); any other failure is only logged.
\<close>

definition follow_config ::
    "tick_env \<Rightarrow> State \<Rightarrow> Credentials \<Rightarrow> int \<Rightarrow> world \<Rightarrow> (world \<times> tick_result option) \<times> client_call list" where
  "follow_config env current credentials version w =
     (if version > ps_ConfigVersion current
      then (case pullConfig env (ps_ControllerURL current) credentials w of
              (w', Some (Revoked _)) \<Rightarrow> (case revoke env w' of (w'', r) \<Rightarrow> ((w'', Some r), [ConfigCall (ps_ControllerURL current)]))
            | (w', _) \<Rightarrow> ((w', None), [ConfigCall (ps_ControllerURL current)]))
      else ((w, None), []))"

definition call_failed :: "tick_env \<Rightarrow> client_error \<Rightarrow> world \<Rightarrow> world \<times> tick_result" where
  "call_failed env e w =
     (case e of Revoked _ \<Rightarrow> revoke env w
      | _ \<Rightarrow> (on_up (fail env e (retryAfter e)) w, TickError e))"

definition local_failed :: "tick_env \<Rightarrow> string \<Rightarrow> world \<Rightarrow> world \<times> tick_result" where
  "local_failed env e w = (on_up (fail env (Failed e) 0) w, TickError (Failed e))"

definition spool_stats :: "tick_env \<Rightarrow> world \<Rightarrow> string + Stats" where
  "spool_stats env w = Stats_of (te_options env) (te_stats_faults env) (te_storage env) (wo_spool w)"

text \<open>After an upload: soon again while records are left, at the normal pace otherwise.\<close>

definition after_upload :: "tick_env \<Rightarrow> int \<Rightarrow> world \<Rightarrow> world" where
  "after_upload env seconds w =
     (case spool_stats env w of
        Inr stats \<Rightarrow> if sx_Records stats > 0 then on_up (schedule (te_later env) Second) w
                     else on_up (scheduleNormal env seconds) w
      | Inl _ \<Rightarrow> on_up (scheduleNormal env seconds) w)"

definition upload ::
    "tick_env \<Rightarrow> State \<Rightarrow> Credentials \<Rightarrow> PendingBatch \<Rightarrow> world \<Rightarrow> (world \<times> tick_result) \<times> client_call list" where
  "upload env current credentials pending w =
     (case ValidateIngestURL (te_lib env) (ps_ControllerURL current) (ps_IngestURL current) of
        Some e \<Rightarrow> (local_failed env e w, [])
      | None \<Rightarrow>
          let wireBody = te_encode env (pb_Body pending);
              called = IngestCall (ps_IngestURL current) wireBody
          in case Ingest (te_lib env) (te_send env) (te_later env) (te_nonce env) (ps_IngestURL current) credentials wireBody of
               Inl e \<Rightarrow> (call_failed env e w, [called])
             | Inr response \<Rightarrow>
                 (case Ack (te_options env) (te_ack_faults env) (te_later env) (bt_BatchID (pb_Batch pending)) (wo_spool w) of
                    (spool, Inl e) \<Rightarrow> (local_failed env e (w\<lparr>wo_spool := spool\<rparr>), [called])
                  | (spool, Inr _) \<Rightarrow>
                      let w1 = on_up (queueSpeedTestRequest (te_lib env) (ir_SpeedTestRequest response) credentials)
                             (on_up (succeed env (int (length wireBody))) (w\<lparr>wo_spool := spool\<rparr>))
                      in case follow_config env current credentials (ir_ConfigVersion response) w1 of
                           ((w2, Some r), calls) \<Rightarrow> ((w2, r), called # calls)
                         | ((w2, None), calls) \<Rightarrow>
                             ((after_upload env (sc_UploadIntervalSeconds (ps_Config current)) w2, Done), called # calls)))"

definition whole_seconds :: "duration \<Rightarrow> int" where
  "whole_seconds d = (if d \<ge> 0 then d div Second else - ((- d) div Second))"

definition heartbeat_due :: "tick_env \<Rightarrow> State \<Rightarrow> Uploader \<Rightarrow> bool" where
  "heartbeat_due env current u \<longleftrightarrow> IsZero (up_lastHeartbeat u)
     \<or> te_now env - up_lastHeartbeat u \<ge> sc_HeartbeatIntervalSeconds (ps_Config current) * Second"

definition heartbeat ::
    "tick_env \<Rightarrow> State \<Rightarrow> Credentials \<Rightarrow> world \<Rightarrow> (world \<times> tick_result option) \<times> client_call list" where
  "heartbeat env current credentials w =
     (case spool_stats env w of
        Inl e \<Rightarrow> (case local_failed env e w of (w', r) \<Rightarrow> ((w', Some r), []))
      | Inr stats \<Rightarrow>
          let called = HeartbeatCall (ps_ControllerURL current)
          in case Heartbeat (te_lib env) (te_send env) (te_later env) (te_nonce env) (ps_ControllerURL current) credentials
                  \<lparr>hq_AppVersion = appVersion env, hq_UptimeSeconds = whole_seconds (te_now env - up_start (wo_up w)),
                   hq_SpoolRecords = sx_Records stats, hq_SpoolBytes = sx_Bytes stats\<rparr> of
               Inl e \<Rightarrow> (case call_failed env e w of (w', r) \<Rightarrow> ((w', Some r), [called]))
             | Inr response \<Rightarrow>
                 let w1 = on_up (succeed env 0)
                        (on_up (queueSpeedTestRequest (te_lib env) (hb_SpeedTestRequest response) credentials)
                        (on_up (\<lambda>u. u\<lparr>up_lastHeartbeat := te_now env\<rparr>) w))
                 in case follow_config env current credentials (hb_ConfigVersion response) w1 of
                      (result, calls) \<Rightarrow> (result, called # calls))"

definition due :: "tick_env \<Rightarrow> Uploader \<Rightarrow> bool" where
  "due env u \<longleftrightarrow> up_force u \<or> \<not> te_now env < sn_NextAttempt (up_snapshot u)"

text \<open>The part of a tick that a connected sensor reaches.\<close>

definition connected_tick :: "tick_env \<Rightarrow> State \<Rightarrow> world \<Rightarrow> (world \<times> tick_result) \<times> client_call list" where
  "connected_tick env current w =
     (let credentials = \<lparr>cd_SensorID = ps_SensorID current, cd_Secret = ps_SensorSecret current\<rparr>;
          seconds = sc_UploadIntervalSeconds (ps_Config current)
      in case NextBatch (te_codec env) (te_next_faults env) (te_later env) (te_batch_random env) (appVersion env)
              (ps_ConfigVersion current) (wo_spool w) of
           (spool, Inl e) \<Rightarrow> (local_failed env e (w\<lparr>wo_spool := spool\<rparr>), [])
         | (spool, Inr (Some pending)) \<Rightarrow> upload env current credentials pending (w\<lparr>wo_spool := spool\<rparr>)
         | (spool, Inr None) \<Rightarrow>
             let w1 = w\<lparr>wo_spool := spool\<rparr>
             in if heartbeat_due env current (wo_up w1)
                then (case heartbeat env current credentials w1 of
                        ((w2, Some r), calls) \<Rightarrow> ((w2, r), calls)
                      | ((w2, None), calls) \<Rightarrow> ((on_up (scheduleNormal env seconds) w2, Done), calls))
                else ((on_up (scheduleNormal env seconds) w1, Done), []))"

definition Tick :: "tick_env \<Rightarrow> world \<Rightarrow> (world \<times> tick_result) \<times> client_call list" where
  "Tick env w0 =
     (if \<not> due env (wo_up w0) then ((w0, Done), [])
      else
        let w = on_up (\<lambda>u. with_snapshot (\<lambda>s. s\<lparr>sn_LastAttempt := te_now env\<rparr>) (u\<lparr>up_force := False\<rparr>)) w0;
            current = fst (wo_store w);
            seconds = sc_UploadIntervalSeconds (ps_Config current)
        in if up_privacyBlocked (wo_up w)
           then (case BeginPrivacyPurge (te_disk_faults env) PrivacyPurgeRevocation (wo_store w) of
                   (store, Some e) \<Rightarrow> ((on_up (fail env (Failed e) 0) (w\<lparr>wo_store := store\<rparr>),
                     TickError (Failed (''persist revoked-sensor privacy block: '' @ e))), [])
                 | (store, None) \<Rightarrow> ((on_up (scheduleNormal env seconds) (w\<lparr>wo_store := store\<rparr>), ErrRevoked), []))
           else if ps_SSIDPurgePending current then ((on_up (scheduleNormal env seconds) w, Done), [])
           else if \<not> Claimed current \<or> ps_Mode current \<noteq> ModeConnected
           then ((on_up (scheduleNormal env seconds) w, Done), [])
           else connected_tick env current w)"
section \<open>The ways a tick can end\<close>

lemma on_up_fields [simp]:
  "wo_up (on_up f w) = f (wo_up w)" "wo_store (on_up f w) = wo_store w" "wo_spool (on_up f w) = wo_spool w"
  by (simp_all add: on_up_def)

lemma snapshot_fields [simp]:
  "up_snapshot (with_snapshot f u) = f (up_snapshot u)" "up_privacyBlocked (with_snapshot f u) = up_privacyBlocked u"
  "up_speedRequest (with_snapshot f u) = up_speedRequest u" "up_force (with_snapshot f u) = up_force u"
  "up_lastHeartbeat (with_snapshot f u) = up_lastHeartbeat u" "up_start (with_snapshot f u) = up_start u"
  by (simp_all add: with_snapshot_def)

lemma pacing_fields [simp]:
  "up_privacyBlocked (schedule now d u) = up_privacyBlocked u" "up_speedRequest (schedule now d u) = up_speedRequest u"
  "up_privacyBlocked (scheduleNormal env n u) = up_privacyBlocked u"
  "up_speedRequest (scheduleNormal env n u) = up_speedRequest u"
  "up_privacyBlocked (fail env e r u) = up_privacyBlocked u" "up_speedRequest (fail env e r u) = up_speedRequest u"
  "up_privacyBlocked (succeed env b u) = up_privacyBlocked u" "up_speedRequest (succeed env b u) = up_speedRequest u"
  by (simp_all add: schedule_def scheduleNormal_def fail_def succeed_def Let_def split: prod.split)

lemma queue_fields [simp]:
  "up_privacyBlocked (queueSpeedTestRequest l r c u) = up_privacyBlocked u"
  "up_snapshot (queueSpeedTestRequest l r c u) = up_snapshot u"
  by (simp_all add: queueSpeedTestRequest_def split: option.split)

lemma after_upload_fields [simp]:
  "wo_store (after_upload env n w) = wo_store w" "wo_spool (after_upload env n w) = wo_spool w"
  "up_privacyBlocked (wo_up (after_upload env n w)) = up_privacyBlocked (wo_up w)"
  "up_speedRequest (wo_up (after_upload env n w)) = up_speedRequest (wo_up w)"
  by (simp_all add: after_upload_def split: sum.split)

definition started :: "tick_env \<Rightarrow> world \<Rightarrow> world" where
  "started env w = on_up (\<lambda>u. with_snapshot (\<lambda>s. s\<lparr>sn_LastAttempt := te_now env\<rparr>) (u\<lparr>up_force := False\<rparr>)) w"

lemma started_fields [simp]:
  "wo_store (started env w) = wo_store w" "wo_spool (started env w) = wo_spool w"
  "up_privacyBlocked (wo_up (started env w)) = up_privacyBlocked (wo_up w)"
  "up_speedRequest (wo_up (started env w)) = up_speedRequest (wo_up w)"
  "up_start (wo_up (started env w)) = up_start (wo_up w)"
  "up_lastHeartbeat (wo_up (started env w)) = up_lastHeartbeat (wo_up w)"
  "sn_Failures (up_snapshot (wo_up (started env w))) = sn_Failures (up_snapshot (wo_up w))"
  "sn_UploadedBytes (up_snapshot (wo_up (started env w))) = sn_UploadedBytes (up_snapshot (wo_up w))"
  by (simp_all add: started_def)

definition ready :: "State \<Rightarrow> bool" where
  "ready s \<longleftrightarrow> \<not> ps_SSIDPurgePending s \<and> Claimed s \<and> ps_Mode s = ModeConnected"

lemma Tick_cases:
  obtains (idle) "\<not> due env (wo_up w)" "Tick env w = ((w, Done), [])"
  | (blocked) store err where "due env (wo_up w)" "up_privacyBlocked (wo_up w)"
      "BeginPrivacyPurge (te_disk_faults env) PrivacyPurgeRevocation (wo_store w) = (store, err)"
      "Tick env w = (case err of
         Some e \<Rightarrow> ((on_up (fail env (Failed e) 0) ((started env w)\<lparr>wo_store := store\<rparr>),
           TickError (Failed (''persist revoked-sensor privacy block: '' @ e))), [])
       | None \<Rightarrow> ((on_up (scheduleNormal env (interval w)) ((started env w)\<lparr>wo_store := store\<rparr>), ErrRevoked), []))"
  | (waiting) "due env (wo_up w)" "\<not> up_privacyBlocked (wo_up w)" "\<not> ready (fst (wo_store w))"
      "Tick env w = ((on_up (scheduleNormal env (interval w)) (started env w), Done), [])"
  | (connected) "due env (wo_up w)" "\<not> up_privacyBlocked (wo_up w)" "ready (fst (wo_store w))"
      "Tick env w = connected_tick env (fst (wo_store w)) (started env w)"
proof -
  obtain store err where b: "BeginPrivacyPurge (te_disk_faults env) PrivacyPurgeRevocation (wo_store w) = (store, err)"
    by fastforce
  note d = Tick_def[of env w, folded started_def] Let_def interval_def ready_def
  consider "\<not> due env (wo_up w)" | "due env (wo_up w)" "up_privacyBlocked (wo_up w)"
    | "due env (wo_up w)" "\<not> up_privacyBlocked (wo_up w)" "\<not> ready (fst (wo_store w))"
    | "due env (wo_up w)" "\<not> up_privacyBlocked (wo_up w)" "ready (fst (wo_store w))" by blast
  then show thesis
  proof cases
    case 1 then show thesis by (intro idle) (simp_all add: d)
  next
    case 2 show thesis by (rule blocked[OF 2 b]) (cases err; simp add: d 2 b)
  next
    case 3 show thesis by (rule waiting[OF 3]) (use 3 in \<open>auto simp: d\<close>)
  next
    case 4 show thesis by (rule connected[OF 4]) (use 4 in \<open>simp add: d\<close>)
  qed
qed

abbreviation credentials_of :: "State \<Rightarrow> Credentials" where
  "credentials_of s \<equiv> \<lparr>cd_SensorID = ps_SensorID s, cd_Secret = ps_SensorSecret s\<rparr>"

abbreviation next_batch :: "tick_env \<Rightarrow> State \<Rightarrow> spool_db \<Rightarrow> spool_db \<times> (string + PendingBatch option)" where
  "next_batch env s \<equiv> NextBatch (te_codec env) (te_next_faults env) (te_later env) (te_batch_random env) (appVersion env)
     (ps_ConfigVersion s)"

abbreviation acknowledged :: "tick_env \<Rightarrow> PendingBatch \<Rightarrow> spool_db \<Rightarrow> spool_db \<times> (string + unit)" where
  "acknowledged env p \<equiv> Ack (te_options env) (te_ack_faults env) (te_later env) (bt_BatchID (pb_Batch p))"

abbreviation sent :: "tick_env \<Rightarrow> State \<Rightarrow> string \<Rightarrow> client_error + IngestResponse" where
  "sent env s body \<equiv> Ingest (te_lib env) (te_send env) (te_later env) (te_nonce env) (ps_IngestURL s) (credentials_of s) body"

text \<open>The world after a batch was delivered and acknowledged, before the configuration is looked at.\<close>

definition delivered :: "tick_env \<Rightarrow> State \<Rightarrow> string \<Rightarrow> IngestResponse \<Rightarrow> spool_db \<Rightarrow> world \<Rightarrow> world" where
  "delivered env s body response spool w =
     on_up (queueSpeedTestRequest (te_lib env) (ir_SpeedTestRequest response) (credentials_of s))
       (on_up (succeed env (int (length body))) (w\<lparr>wo_spool := spool\<rparr>))"

lemma upload_cases:
  obtains (bad_url) e where "ValidateIngestURL (te_lib env) (ps_ControllerURL s) (ps_IngestURL s) = Some e"
      "upload env s (credentials_of s) p w = (local_failed env e w, [])"
  | (refused) e where "ValidateIngestURL (te_lib env) (ps_ControllerURL s) (ps_IngestURL s) = None"
      "sent env s (te_encode env (pb_Body p)) = Inl e"
      "upload env s (credentials_of s) p w = (call_failed env e w, [IngestCall (ps_IngestURL s) (te_encode env (pb_Body p))])"
  | (not_acked) response spool e where "ValidateIngestURL (te_lib env) (ps_ControllerURL s) (ps_IngestURL s) = None"
      "sent env s (te_encode env (pb_Body p)) = Inr response" "acknowledged env p (wo_spool w) = (spool, Inl e)"
      "upload env s (credentials_of s) p w =
         (local_failed env e (w\<lparr>wo_spool := spool\<rparr>), [IngestCall (ps_IngestURL s) (te_encode env (pb_Body p))])"
  | (accepted) response spool w2 r calls where
      "ValidateIngestURL (te_lib env) (ps_ControllerURL s) (ps_IngestURL s) = None"
      "sent env s (te_encode env (pb_Body p)) = Inr response" "acknowledged env p (wo_spool w) = (spool, Inr ())"
      "follow_config env s (credentials_of s) (ir_ConfigVersion response)
         (delivered env s (te_encode env (pb_Body p)) response spool w) = ((w2, r), calls)"
      "upload env s (credentials_of s) p w =
         ((case r of Some r' \<Rightarrow> (w2, r') | None \<Rightarrow> (after_upload env (sc_UploadIntervalSeconds (ps_Config s)) w2, Done)),
          IngestCall (ps_IngestURL s) (te_encode env (pb_Body p)) # calls)"
proof (cases "ValidateIngestURL (te_lib env) (ps_ControllerURL s) (ps_IngestURL s)")
  case (Some e)
  then show thesis by (intro bad_url) (simp_all add: upload_def)
next
  case None
  let ?b = "te_encode env (pb_Body p)"
  show thesis
  proof (cases "sent env s ?b")
    case (Inl e)
    then show thesis using None by (intro refused) (simp_all add: upload_def)
  next
    case (Inr response)
    obtain spool res where a: "acknowledged env p (wo_spool w) = (spool, res)" by fastforce
    show thesis
    proof (cases res)
      case (Inl e)
      show thesis by (rule not_acked[OF None Inr a[unfolded Inl]]) (simp add: upload_def None Inr a Inl)
    next
      case (Inr u)
      have a': "acknowledged env p (wo_spool w) = (spool, Inr ())" using a Inr by simp
      obtain w2 r calls where f: "follow_config env s (credentials_of s) (ir_ConfigVersion response)
         (delivered env s ?b response spool w) = ((w2, r), calls)" by (metis prod.exhaust)
      show thesis
        by (rule accepted[OF None \<open>sent env s ?b = Inr response\<close> a' f])
          (use f in \<open>simp add: upload_def None \<open>sent env s ?b = Inr response\<close> a' delivered_def split: option.split\<close>)
    qed
  qed
qed

definition beat :: "tick_env \<Rightarrow> world \<Rightarrow> Stats \<Rightarrow> HeartbeatRequest" where
  "beat env w stats = \<lparr>hq_AppVersion = appVersion env, hq_UptimeSeconds = whole_seconds (te_now env - up_start (wo_up w)),
     hq_SpoolRecords = sx_Records stats, hq_SpoolBytes = sx_Bytes stats\<rparr>"

definition beaten :: "tick_env \<Rightarrow> State \<Rightarrow> HeartbeatResponse \<Rightarrow> world \<Rightarrow> world" where
  "beaten env s response w = on_up (succeed env 0)
     (on_up (queueSpeedTestRequest (te_lib env) (hb_SpeedTestRequest response) (credentials_of s))
       (on_up (\<lambda>u. u\<lparr>up_lastHeartbeat := te_now env\<rparr>) w))"

abbreviation beat_sent :: "tick_env \<Rightarrow> State \<Rightarrow> HeartbeatRequest \<Rightarrow> client_error + HeartbeatResponse" where
  "beat_sent env s hb \<equiv> Heartbeat (te_lib env) (te_send env) (te_later env) (te_nonce env) (ps_ControllerURL s) (credentials_of s) hb"

lemma heartbeat_cases:
  obtains (no_stats) e where "heartbeat env s (credentials_of s) w = ((case local_failed env e w of (w', r) \<Rightarrow> (w', Some r)), [])"
  | (refused) stats e where "spool_stats env w = Inr stats" "beat_sent env s (beat env w stats) = Inl e"
      "heartbeat env s (credentials_of s) w = ((case call_failed env e w of (w', r) \<Rightarrow> (w', Some r)), [HeartbeatCall (ps_ControllerURL s)])"
  | (answered) stats response w2 r calls where "spool_stats env w = Inr stats" "beat_sent env s (beat env w stats) = Inr response"
      "follow_config env s (credentials_of s) (hb_ConfigVersion response) (beaten env s response w) = ((w2, r), calls)"
      "heartbeat env s (credentials_of s) w = ((w2, r), HeartbeatCall (ps_ControllerURL s) # calls)"
proof (cases "spool_stats env w")
  case (Inl e)
  then show thesis by (intro no_stats[of e]) (cases \<open>local_failed env e w\<close>; simp add: heartbeat_def)
next
  case stats: (Inr stats)
  show thesis
  proof (cases "beat_sent env s (beat env w stats)")
    case (Inl e)
    then show thesis using stats by (intro refused[of stats e]) (cases \<open>call_failed env e w\<close>; simp add: heartbeat_def beat_def)+
  next
    case (Inr response)
    obtain w2 r calls where f: "follow_config env s (credentials_of s) (hb_ConfigVersion response)
       (beaten env s response w) = ((w2, r), calls)" by (metis prod.exhaust)
    show thesis
      by (rule answered[OF stats Inr f]) (use f stats Inr in \<open>simp add: heartbeat_def beat_def beaten_def\<close>)
  qed
qed

lemma follow_config_cases:
  obtains (skipped) "version \<le> ps_ConfigVersion s" "follow_config env s c version w = ((w, None), [])"
  | (revoked) w' d where "pullConfig env (ps_ControllerURL s) c w = (w', Some (Revoked d))"
      "follow_config env s c version w = ((case revoke env w' of (w'', r) \<Rightarrow> (w'', Some r)), [ConfigCall (ps_ControllerURL s)])"
  | (pulled) w' err where "pullConfig env (ps_ControllerURL s) c w = (w', err)" "\<forall>d. err \<noteq> Some (Revoked d)"
      "follow_config env s c version w = ((w', None), [ConfigCall (ps_ControllerURL s)])"
proof -
  obtain w' err where p: "pullConfig env (ps_ControllerURL s) c w = (w', err)" by fastforce
  show thesis
  proof (cases "version > ps_ConfigVersion s")
    case False
    then show thesis by (intro skipped) (simp_all add: follow_config_def)
  next
    case True
    show thesis
    proof (cases "\<exists>d. err = Some (Revoked d)")
      case rv: True
      then obtain d where "err = Some (Revoked d)" by blast
      then show thesis using True p by (intro revoked[of w' d]) (cases \<open>revoke env w'\<close>; simp add: follow_config_def)+
    next
      case False
      then show thesis using True p
        by (intro pulled[of w' err]) (auto simp: follow_config_def split: option.split client_error.split)
    qed
  qed
qed

text \<open>What a connected tick does, with the world \<open>w\<close> in which it was found due.\<close>

lemma connected_cases:
  obtains (no_batch) spool e where "next_batch env s (wo_spool w) = (spool, Inl e)"
      "connected_tick env s w = (local_failed env e (w\<lparr>wo_spool := spool\<rparr>), [])"
  | (batch) spool p where "next_batch env s (wo_spool w) = (spool, Inr (Some p))"
      "connected_tick env s w = upload env s (credentials_of s) p (w\<lparr>wo_spool := spool\<rparr>)"
  | (beating) spool w2 r calls where "next_batch env s (wo_spool w) = (spool, Inr None)"
      "heartbeat env s (credentials_of s) (w\<lparr>wo_spool := spool\<rparr>) = ((w2, r), calls)"
      "connected_tick env s w = ((case r of Some r' \<Rightarrow> (w2, r')
         | None \<Rightarrow> (on_up (scheduleNormal env (sc_UploadIntervalSeconds (ps_Config s))) w2, Done)), calls)"
  | (quiet) spool where "next_batch env s (wo_spool w) = (spool, Inr None)"
      "connected_tick env s w =
         ((on_up (scheduleNormal env (sc_UploadIntervalSeconds (ps_Config s))) (w\<lparr>wo_spool := spool\<rparr>), Done), [])"
proof -
  obtain spool res where n: "next_batch env s (wo_spool w) = (spool, res)" by fastforce
  obtain w2 r calls where h: "heartbeat env s (credentials_of s) (w\<lparr>wo_spool := spool\<rparr>) = ((w2, r), calls)"
    by (metis prod.exhaust)
  consider e where "res = Inl e" | p where "res = Inr (Some p)"
    | "res = Inr None" "heartbeat_due env s (wo_up w)" | "res = Inr None" "\<not> heartbeat_due env s (wo_up w)"
    by (metis not_None_eq sum.exhaust)
  then show thesis
  proof cases
    case 1 then show thesis using n by (intro no_batch) (simp_all add: connected_tick_def)
  next
    case 2 then show thesis using n by (intro batch) (simp_all add: connected_tick_def)
  next
    case 3
    have n': "next_batch env s (wo_spool w) = (spool, Inr None)" using n 3 by simp
    show thesis by (rule beating[OF n' h]) (simp add: connected_tick_def n' h 3 split: option.split)
  next
    case 4 then show thesis using n by (intro quiet) (simp_all add: connected_tick_def)
  qed
qed

section \<open>What the steps keep\<close>

lemma follow_config_calls:
  "follow_config env s c v w = ((w', r), calls) \<Longrightarrow> calls = [] \<or> calls = [ConfigCall (ps_ControllerURL s)]"
  by (cases rule: follow_config_cases[of v s env c w]) (auto split: prod.splits)

lemma pullConfig_revoked: "pullConfig env url c w = (w', Some (Revoked d)) \<Longrightarrow> w' = w"
  by (auto simp: pullConfig_def split: sum.splits prod.splits option.splits)

lemma pullConfig_fields:
  "pullConfig env url c w = (w', err) \<Longrightarrow> wo_up w' = wo_up w \<and> wo_spool w' = wo_spool w"
  by (auto simp: pullConfig_def split: sum.splits prod.splits option.splits)

text \<open>A revocation: the latch and the store's own block are set whatever the disk does.\<close>

lemma revoke_fields:
  assumes "revoke env w = (w', r)"
  shows "up_privacyBlocked (wo_up w') \<and> up_speedRequest (wo_up w') = None \<and> wo_spool w' = wo_spool w
    \<and> fst (wo_store w') = beginPrivacyPurge PrivacyPurgeRevocation (fst (wo_store w)) \<and> r \<noteq> Done"
proof -
  obtain store err where b: "BeginPrivacyPurge (te_disk_faults env) PrivacyPurgeRevocation (wo_store w) = (store, err)"
    by fastforce
  have "fst store = beginPrivacyPurge PrivacyPurgeRevocation (fst (wo_store w))"
    using BeginPrivacyPurge_state[of "te_disk_faults env" PrivacyPurgeRevocation "wo_store w"] b
    by (simp add: validPrivacyPurgeAction_def)
  then show ?thesis using assms b by (cases err) (auto simp: revoke_def Let_def)
qed

lemma follow_config_spool:
  assumes "follow_config env s c v w = ((w', r), calls)"
  shows "wo_spool w' = wo_spool w"
proof (cases rule: follow_config_cases[of v s env c w])
  case skipped
  then show ?thesis using assms by simp
next
  case (revoked w1 d)
  then show ?thesis using assms pullConfig_revoked[of env _ c w w1 d] by (auto split: prod.splits dest!: revoke_fields)
next
  case (pulled w1 err)
  then show ?thesis using assms pullConfig_fields[of env _ c w w1 err] by auto
qed

lemma call_failed_spool: "call_failed env e w = (w', r) \<Longrightarrow> wo_spool w' = wo_spool w \<and> r \<noteq> Done"
  by (cases e) (auto simp: call_failed_def dest: revoke_fields)

lemma local_failed_spool [simp]:
  "wo_spool (fst (local_failed env e w)) = wo_spool w" "wo_store (fst (local_failed env e w)) = wo_store w"
  "snd (local_failed env e w) = TickError (Failed e)"
  by (simp_all add: local_failed_def)

lemma delivered_fields [simp]:
  "wo_spool (delivered env s b resp spool w) = spool" "wo_store (delivered env s b resp spool w) = wo_store w"
  "up_privacyBlocked (wo_up (delivered env s b resp spool w)) = up_privacyBlocked (wo_up w)"
  by (simp_all add: delivered_def)

lemma beaten_fields [simp]:
  "wo_spool (beaten env s resp w) = wo_spool w" "wo_store (beaten env s resp w) = wo_store w"
  "up_privacyBlocked (wo_up (beaten env s resp w)) = up_privacyBlocked (wo_up w)"
  by (simp_all add: beaten_def)

lemma heartbeat_spool:
  assumes "heartbeat env s (credentials_of s) w = ((w', r), calls)"
  shows "wo_spool w' = wo_spool w"
proof (cases rule: heartbeat_cases[of env s w])
  case (no_stats e)
  then show ?thesis using assms by (auto simp: local_failed_def)
next
  case (refused stats e)
  then show ?thesis using assms by (auto split: prod.splits dest: call_failed_spool)
next
  case (answered stats response w2 r' calls')
  then show ?thesis using assms follow_config_spool[OF answered(3)] by simp
qed

section \<open>When a tick talks to the controller\<close>

text \<open>
  What a tick may send, and when. A tick that makes any call at all was due or forced, the
  revocation latch was open, no privacy purge was pending and the sensor was enrolled and in
  connected mode. Its first call goes to the controller the sensor enrolled with: either the batch
  the spool reserved, encoded, to an ingest address of that controller's origin, or a heartbeat.
  At most one more call follows, and it can only be the request for the new configuration.
\<close>

theorem Tick_calls:
  assumes "Tick env w = ((w', res), calls)" "calls \<noteq> []"
  defines "s \<equiv> fst (wo_store w)"
  shows "due env (wo_up w) \<and> \<not> up_privacyBlocked (wo_up w)
    \<and> \<not> ps_SSIDPurgePending s \<and> Claimed s \<and> ps_Mode s = ModeConnected
    \<and> (\<exists>c rest. calls = c # rest \<and> (rest = [] \<or> rest = [ConfigCall (ps_ControllerURL s)])
        \<and> (c = HeartbeatCall (ps_ControllerURL s)
           \<or> (\<exists>spool p. next_batch env s (wo_spool w) = (spool, Inr (Some p))
                \<and> c = IngestCall (ps_IngestURL s) (te_encode env (pb_Body p))
                \<and> ValidateIngestURL (te_lib env) (ps_ControllerURL s) (ps_IngestURL s) = None)))"
proof -
  have conn: "due env (wo_up w) \<and> \<not> up_privacyBlocked (wo_up w) \<and> ready s
    \<and> connected_tick env s (started env w) = ((w', res), calls)"
    using assms by (cases rule: Tick_cases[of env w]) (auto split: option.splits)
  have "\<exists>c rest. calls = c # rest \<and> (rest = [] \<or> rest = [ConfigCall (ps_ControllerURL s)])
        \<and> (c = HeartbeatCall (ps_ControllerURL s)
           \<or> (\<exists>spool p. next_batch env s (wo_spool w) = (spool, Inr (Some p))
                \<and> c = IngestCall (ps_IngestURL s) (te_encode env (pb_Body p))
                \<and> ValidateIngestURL (te_lib env) (ps_ControllerURL s) (ps_IngestURL s) = None))"
  proof (cases rule: connected_cases[of env s "started env w"])
    case (no_batch spool e)
    then show ?thesis using conn assms(2) by simp
  next
    case (batch spool p)
    let ?w = "started env w\<lparr>wo_spool := spool\<rparr>"
    have u: "upload env s (credentials_of s) p ?w = ((w', res), calls)" using batch(2) conn by simp
    have n: "next_batch env s (wo_spool w) = (spool, Inr (Some p))" using batch(1) by simp
    show ?thesis
      by (cases rule: upload_cases[of env s p ?w])
        (use u n assms(2) in \<open>auto split: option.splits dest: follow_config_calls\<close>)
  next
    case (beating spool w2 r calls')
    have "calls' = calls" using beating(3) conn by (auto split: option.splits)
    then show ?thesis using beating(2) assms(2)
      by (cases rule: heartbeat_cases[of env s "started env w\<lparr>wo_spool := spool\<rparr>"])
        (auto split: prod.splits dest: follow_config_calls)
  next
    case (quiet spool)
    then show ?thesis using conn assms(2) by simp
  qed
  then show ?thesis using conn by (simp add: ready_def)
qed

section \<open>Revocation\<close>

text \<open>
  What may happen to an uploader besides ticks: its own setters, and anything the other parts of
  the sensor do to the store and the spool. Only \<open>ClearPrivacyBlock\<close> is left out. The list of a
  run is the calls its ticks made.
\<close>

inductive up_run :: "world \<Rightarrow> client_call list \<Rightarrow> world \<Rightarrow> bool" where
  rest: "up_run w [] w"
| ticked: "up_run w calls w1 \<Longrightarrow> Tick env w1 = ((w2, r), calls') \<Longrightarrow> up_run w (calls @ calls') w2"
| forced: "up_run w calls w1 \<Longrightarrow> up_run w calls (on_up Force w1)"
| dropped_one: "up_run w calls w1 \<Longrightarrow> up_run w calls (on_up (ClearSpeedTestRequest nonce) w1)"
| dropped_all: "up_run w calls w1 \<Longrightarrow> up_run w calls (on_up ClearSpeedTestRequests w1)"
| elsewhere: "up_run w calls w1 \<Longrightarrow> up_run w calls (w1\<lparr>wo_store := store, wo_spool := spool\<rparr>)"

definition silenced :: "world \<Rightarrow> bool" where
  "silenced w \<longleftrightarrow> up_privacyBlocked (wo_up w) \<and> up_speedRequest (wo_up w) = None"

lemma Tick_silenced:
  assumes "silenced w" "Tick env w = ((w', r), calls)"
  shows "silenced w' \<and> calls = []"
  using assms by (cases rule: Tick_cases[of env w]) (auto simp: silenced_def split: option.splits)

lemma setters_silenced:
  "silenced w \<Longrightarrow> silenced (on_up Force w)"
  "silenced w \<Longrightarrow> silenced (on_up (ClearSpeedTestRequest nonce) w)"
  "silenced w \<Longrightarrow> silenced (on_up ClearSpeedTestRequests w)"
  by (simp_all add: silenced_def Force_def ClearSpeedTestRequest_def ClearSpeedTestRequests_def split: option.split)

lemma run_silenced:
  assumes "up_run w calls w'" "silenced w"
  shows "silenced w' \<and> calls = []"
  using assms
proof (induction rule: up_run.induct)
  case (ticked w calls w1 env w2 r calls')
  then show ?case using Tick_silenced[of w1 env w2 r calls'] by simp
qed (auto simp: setters_silenced, simp add: silenced_def)

text \<open>The answers that revoke: to a batch, to a heartbeat, or to the request for the configuration.\<close>

definition answered_revoked :: "tick_env \<Rightarrow> State \<Rightarrow> client_call \<Rightarrow> bool" where
  "answered_revoked env s c = (case c of
     IngestCall url body \<Rightarrow> (\<exists>d. Ingest (te_lib env) (te_send env) (te_later env) (te_nonce env) url (credentials_of s) body = Inl (Revoked d))
   | HeartbeatCall url \<Rightarrow> (\<forall>hb. \<exists>d. Heartbeat (te_lib env) (te_send env) (te_later env) (te_nonce env) url (credentials_of s) hb = Inl (Revoked d))
   | ConfigCall url \<Rightarrow> (\<exists>d. Config (te_lib env) (te_send2 env) (te_later env) (te_nonce2 env) url (credentials_of s) = Inl (Revoked d)))"

lemma revoke_silences:
  "revoke env w = (w', r) \<Longrightarrow> silenced w' \<and> strong 3 (fst (wo_store w'))"
  using beginPrivacyPurge_strength[of PrivacyPurgeRevocation "fst (wo_store w)"]
  by (auto simp: silenced_def privacyPurgePriority_def dest!: revoke_fields)

lemma call_failed_revoked: "call_failed env (Revoked d) w = revoke env w"
  by (simp add: call_failed_def)

lemma follow_config_revoked:
  assumes "follow_config env s (credentials_of s) v w = ((w', r), calls)" "calls \<noteq> []"
    "answered_revoked env s (last calls)"
  shows "\<exists>r'. r = Some r' \<and> silenced w' \<and> strong 3 (fst (wo_store w'))"
proof (cases rule: follow_config_cases[of v s env "credentials_of s" w])
  case skipped
  then show ?thesis using assms by simp
next
  case (revoked w1 d)
  then show ?thesis using assms(1) by (auto split: prod.splits dest: revoke_silences)
next
  case (pulled w1 err)
  then have "calls = [ConfigCall (ps_ControllerURL s)]" using assms(1) by simp
  then obtain d where "Config (te_lib env) (te_send2 env) (te_later env) (te_nonce2 env) (ps_ControllerURL s) (credentials_of s) = Inl (Revoked d)"
    using assms(3) by (auto simp: answered_revoked_def)
  then show ?thesis using pulled(1,2) by (auto simp: pullConfig_def)
qed

lemma upload_revoked:
  assumes "upload env s (credentials_of s) p w = ((w', r), calls)" "calls \<noteq> []" "answered_revoked env s (last calls)"
  shows "silenced w' \<and> strong 3 (fst (wo_store w'))"
proof (cases rule: upload_cases[of env s p w])
  case (bad_url e)
  then show ?thesis using assms by simp
next
  case (refused e)
  then obtain d where "e = Revoked d" using assms(1,3) by (auto simp: answered_revoked_def)
  then have "revoke env w = (w', r)" using refused(3) assms(1) by (simp add: call_failed_revoked)
  then show ?thesis by (rule revoke_silences)
next
  case (not_acked response spool e)
  then show ?thesis using assms(1,3) by (auto simp: answered_revoked_def)
next
  case (accepted response spool w2 r' calls')
  have c: "calls = IngestCall (ps_IngestURL s) (te_encode env (pb_Body p)) # calls'" using accepted(5) assms(1) by simp
  have "calls' \<noteq> []" using c assms(3) accepted(2) by (auto simp: answered_revoked_def)
  then show ?thesis using follow_config_revoked[OF accepted(4)] accepted(5) assms(1,3) c by auto
qed

lemma heartbeat_revoked:
  assumes "heartbeat env s (credentials_of s) w = ((w', r), calls)" "calls \<noteq> []" "answered_revoked env s (last calls)"
  shows "\<exists>r'. r = Some r' \<and> silenced w' \<and> strong 3 (fst (wo_store w'))"
proof (cases rule: heartbeat_cases[of env s w])
  case (no_stats e)
  then show ?thesis using assms by (simp split: prod.splits)
next
  case (refused stats e)
  then have "calls = [HeartbeatCall (ps_ControllerURL s)]" using assms(1) by (simp split: prod.splits)
  then have "\<forall>hb. \<exists>d. beat_sent env s hb = Inl (Revoked d)" using assms(3) by (simp add: answered_revoked_def)
  then obtain d where "e = Revoked d" using refused(2) by (metis Inl_inject)
  then show ?thesis using refused(3) assms(1) by (auto simp: call_failed_revoked split: prod.splits dest: revoke_silences)
next
  case (answered stats response w2 r' calls')
  have c: "calls = HeartbeatCall (ps_ControllerURL s) # calls'" using answered(4) assms(1) by simp
  have "calls' \<noteq> []"
  proof
    assume "calls' = []"
    then obtain d where "beat_sent env s (beat env w stats) = Inl (Revoked d)"
      using c assms(3) by (auto simp: answered_revoked_def)
    then show False using answered(2) by simp
  qed
  then show ?thesis using follow_config_revoked[OF answered(3)] answered(4) assms(1,3) c by auto
qed

text \<open>
  (C8) A revoked sensor falls silent. When the last call of a tick is answered with a revocation,
  the privacy purge of a revoked sensor is pending in the store at once, also if writing its marker
  fails; and until the latch is released nothing is ever sent again, whatever ticks follow, whoever
  forces an upload and whatever the rest of the sensor does to the store and the spool. A one-off
  test the controller had asked for is dropped.
\<close>

theorem revoked_sensor_silent:
  assumes "Tick env w = ((w1, res), calls)" "calls \<noteq> []" "answered_revoked env (fst (wo_store w)) (last calls)"
    "up_run w1 later_calls w2"
  shows "ps_SSIDPurgePending (fst (wo_store w1)) \<and> ps_PrivacyPurgeAction (fst (wo_store w1)) = PrivacyPurgeRevocation
    \<and> later_calls = [] \<and> up_privacyBlocked (wo_up w2) \<and> up_speedRequest (wo_up w2) = None"
proof -
  let ?s = "fst (wo_store w)"
  have conn: "connected_tick env ?s (started env w) = ((w1, res), calls)"
    using assms(1,2) by (cases rule: Tick_cases[of env w]) (auto split: option.splits)
  have s: "silenced w1 \<and> strong 3 (fst (wo_store w1))"
  proof (cases rule: connected_cases[of env ?s "started env w"])
    case (batch spool p)
    then have "upload env ?s (credentials_of ?s) p (started env w\<lparr>wo_spool := spool\<rparr>) = ((w1, res), calls)"
      using conn by simp
    then show ?thesis using assms(2,3) by (rule upload_revoked)
  next
    case (beating spool w2 r calls')
    have "calls' = calls" using beating(3) conn by (auto split: option.splits)
    then show ?thesis using heartbeat_revoked[OF beating(2)] beating(3) conn assms(2,3) by auto
  qed (use conn assms(2) in simp_all)
  then have "ps_PrivacyPurgeAction (fst (wo_store w1)) = PrivacyPurgeRevocation"
    by (auto simp: strong_def privacyPurgePriority_def split: if_splits)
  moreover have "silenced w2 \<and> later_calls = []" using run_silenced[OF assms(4)] s by simp
  ultimately show ?thesis using s by (simp add: strong_def silenced_def)
qed

section \<open>The pace\<close>

lemma fullJitter_range: "0 \<le> limit \<Longrightarrow> 0 \<le> fullJitter raw limit \<and> fullJitter raw limit \<le> limit"
  by (auto simp: fullJitter_def pos_mod_bound less_imp_le split: option.split)

lemma fullJitter_less: "0 < limit \<Longrightarrow> fullJitter raw limit < limit"
  by (auto simp: fullJitter_def split: option.split)

lemma quota_base_range: "quotaBackoff \<le> quota_base code failures \<and> quota_base code failures \<le> maximumRetryAfter"
proof -
  have "(1::int) \<le> 2 ^ nat (min (failures - 1) 4)" by simp
  then show ?thesis by (auto simp: quota_base_def)
qed

definition backoff_ceiling :: "int \<Rightarrow> duration" where
  "backoff_ceiling failures = min (minimumBackoff * 2 ^ nat (min (failures - 1) 8)) maximumBackoff"

lemma backoff_ceiling_pos: "0 < backoff_ceiling failures" "backoff_ceiling failures \<le> maximumBackoff"
  by (simp_all add: backoff_ceiling_def)

definition over_quota :: "client_error \<Rightarrow> bool" where
  "over_quota e = (case e of API a \<Rightarrow> ae_StatusCode a = 429 | _ \<Rightarrow> False)"

lemma retry_delay_cases:
  obtains (told) "0 < retry" "retry_delay raw raw2 e retry n = (retry, maximumRetryAfter)"
  | (quota) code where "retry \<le> 0" "over_quota e"
      "retry_delay raw raw2 e retry n = (quota_base code n + fullJitter raw2 (quota_base code n), maximumRetryAfter)"
  | (guess) "retry \<le> 0" "\<not> over_quota e" "retry_delay raw raw2 e retry n = (fullJitter raw (backoff_ceiling n), maximumBackoff)"
proof (cases "retry \<le> 0")
  case False
  then show thesis by (intro told) (simp_all add: retry_delay_def)
next
  case True
  show thesis
  proof (cases "over_quota e")
    case q: True
    then obtain a where a: "e = API a" "ae_StatusCode a = 429" by (auto simp: over_quota_def split: client_error.splits)
    show thesis by (rule quota[OF True q, of "ae_Code a"]) (simp add: retry_delay_def True a Let_def)
  next
    case False
    show thesis
      by (rule guess[OF True False])
        (use False True in \<open>auto simp: retry_delay_def over_quota_def backoff_ceiling_def split: client_error.split\<close>)
  qed
qed

definition wait_of :: "tick_env \<Rightarrow> Uploader \<Rightarrow> duration" where
  "wait_of env u = sn_NextAttempt (up_snapshot u) - te_later env"

lemma wait_of_fail:
  "wait_of env (fail env e retry u) =
     (case retry_delay (te_jitter env) (te_jitter2 env) e retry (sn_Failures (up_snapshot u) + 1) of (d, cap) \<Rightarrow> min d cap)"
  by (simp add: wait_of_def fail_def Let_def min_def split: prod.split)

lemma wait_of_scheduleNormal: "wait_of env (scheduleNormal env n u) = normal_delay (te_jitter env) n"
  by (simp add: wait_of_def scheduleNormal_def schedule_def)

text \<open>
  The backoff. A failure adds one to the count and sets the next attempt. A \<open>Retry-After\<close> of
  the controller is followed exactly, up to six hours. Without one, a rejected quota (HTTP 429)
  waits between half an hour and six hours, and at least half an hour times two to the number of
  earlier failures (at most four of them counted) when its code names a quota; any other failure
  waits less than two seconds times two to the number of earlier failures, and less than five
  minutes from the ninth failure on.
\<close>

theorem fail_backoff:
  assumes "0 \<le> sn_Failures (up_snapshot u)"
  shows "let n = sn_Failures (up_snapshot u); u' = fail env e retry u; d = wait_of env u'
    in sn_Failures (up_snapshot u') = n + 1 \<and> sn_LastError (up_snapshot u') = error_text e
     \<and> 0 \<le> d \<and> d \<le> 6 * Hour
     \<and> (if retry > 0 then d = min retry (6 * Hour)
        else case e of
          API a \<Rightarrow> (if ae_StatusCode a = 429
            then 30 * Minute \<le> d \<and> (if contains_str (ae_Code a) ''quota'' then min (30 * Minute * 2 ^ nat (min n 4)) (6 * Hour) \<le> d
                 else d < Hour)
            else d < min (2 * Second * 2 ^ nat n) (5 * Minute))
        | _ \<Rightarrow> d < min (2 * Second * 2 ^ nat n) (5 * Minute))"
proof -
  let ?n = "sn_Failures (up_snapshot u)" and ?u = "fail env e retry u"
  let ?d = "wait_of env ?u"
  have f: "sn_Failures (up_snapshot ?u) = ?n + 1 \<and> sn_LastError (up_snapshot ?u) = error_text e"
    by (simp add: fail_def Let_def split: prod.split)
  have guess: "fullJitter raw (backoff_ceiling (?n + 1)) < min (2 * Second * 2 ^ nat ?n) (5 * Minute)" for raw
  proof -
    have "(2::int) ^ nat (min ?n 8) \<le> 2 ^ nat ?n" using assms by (intro power_increasing) auto
    then have "backoff_ceiling (?n + 1) \<le> min (2 * Second * 2 ^ nat ?n) (5 * Minute)"
      unfolding backoff_ceiling_def by (intro min.mono mult_left_mono) simp_all
    then show ?thesis using fullJitter_less[OF backoff_ceiling_pos(1)] by (rule order.strict_trans2[rotated])
  qed
  show ?thesis
  proof (cases rule: retry_delay_cases[of retry "te_jitter env" "te_jitter2 env" e "?n + 1"])
    case told
    then show ?thesis using f by (simp add: Let_def wait_of_fail)
  next
    case (quota code)
    obtain a where a: "e = API a" "ae_StatusCode a = 429"
      using quota(2) by (auto simp: over_quota_def split: client_error.splits)
    let ?b = "quota_base (ae_Code a) (?n + 1)"
    have d: "?d = min (?b + fullJitter (te_jitter2 env) ?b) (6 * Hour)"
      using quota(1) a by (simp add: wait_of_fail retry_delay_def Let_def)
    have j: "0 \<le> fullJitter (te_jitter2 env) ?b" "fullJitter (te_jitter2 env) ?b < ?b"
      using quota_base_range[of "ae_Code a" "?n + 1"] fullJitter_range[of ?b] fullJitter_less[of ?b] by auto
    have b: "30 * Minute \<le> ?d" "?b \<le> ?d" "0 \<le> ?d" "?d \<le> 6 * Hour" "?d < 2 * ?b"
      using d j quota_base_range[of "ae_Code a" "?n + 1"] by auto
    moreover have "?b = (if contains_str (ae_Code a) ''quota'' then min (30 * Minute * 2 ^ nat (min ?n 4)) (6 * Hour) else 30 * Minute)"
      by (simp add: quota_base_def)
    ultimately show ?thesis using f quota(1) a
      by (cases "contains_str (ae_Code a) ''quota''") (simp_all add: Let_def)
  next
    case own: guess
    have j: "0 \<le> fullJitter (te_jitter env) (backoff_ceiling (?n + 1))"
      "fullJitter (te_jitter env) (backoff_ceiling (?n + 1)) \<le> maximumBackoff"
      using fullJitter_range[of "backoff_ceiling (?n + 1)" "te_jitter env"] backoff_ceiling_pos[of "?n + 1"] by auto
    then have d: "?d = fullJitter (te_jitter env) (backoff_ceiling (?n + 1))" using own(3) by (simp add: wait_of_fail)
    show ?thesis
      using f own(1,2) d j guess[of "te_jitter env"]
      by (cases e) (simp_all add: Let_def over_quota_def)
  qed
qed

lemma normal_delay_range:
  assumes "30 \<le> n" "n \<le> 900"
  shows "0 \<le> normal_delay raw n \<and> normal_delay raw n \<le> maximumRetryAfter"
proof -
  have s: "n * Second div 10 = n * 100000000" by simp
  have "0 \<le> fullJitter raw (2 * (n * 100000000)) \<and> fullJitter raw (2 * (n * 100000000)) \<le> 2 * (n * 100000000)"
    using assms by (intro fullJitter_range) simp
  then show ?thesis using assms by (simp add: normal_delay_def s)
qed

definition paced :: "tick_env \<Rightarrow> world \<Rightarrow> bool" where
  "paced env w \<longleftrightarrow> 0 \<le> wait_of env (wo_up w) \<and> wait_of env (wo_up w) \<le> maximumRetryAfter"

definition well_paced :: "State \<Rightarrow> bool" where
  "well_paced s \<longleftrightarrow> 30 \<le> sc_UploadIntervalSeconds (ps_Config s) \<and> sc_UploadIntervalSeconds (ps_Config s) \<le> 900"

lemma paced_fail: "wo_up w = fail env e retry u \<Longrightarrow> paced env w"
proof -
  assume w: "wo_up w = fail env e retry u"
  show ?thesis
  proof (cases rule: retry_delay_cases[of retry "te_jitter env" "te_jitter2 env" e "sn_Failures (up_snapshot u) + 1"])
    case (quota code)
    have "0 \<le> fullJitter (te_jitter2 env) (quota_base code (sn_Failures (up_snapshot u) + 1))"
      using quota_base_range[of code "sn_Failures (up_snapshot u) + 1"]
      by (intro fullJitter_range[THEN conjunct1]) linarith
    then show ?thesis using w quota quota_base_range[of code "sn_Failures (up_snapshot u) + 1"]
      by (auto simp: paced_def wait_of_fail)
  next
    case guess
    then show ?thesis using w fullJitter_range[OF less_imp_le, OF backoff_ceiling_pos(1)]
      by (auto simp: paced_def wait_of_fail min_def)
  qed (use w in \<open>simp add: paced_def wait_of_fail\<close>)
qed

lemma paced_normal: "wo_up w = scheduleNormal env n u \<Longrightarrow> 30 \<le> n \<Longrightarrow> n \<le> 900 \<Longrightarrow> paced env w"
  using normal_delay_range[of n "te_jitter env"] by (simp add: paced_def wait_of_scheduleNormal)

lemma paced_after_upload: "30 \<le> n \<Longrightarrow> n \<le> 900 \<Longrightarrow> paced env (after_upload env n w)"
  using paced_normal[of "on_up (scheduleNormal env n) w" env n "wo_up w"]
  by (cases "spool_stats env w") (auto simp: after_upload_def paced_def wait_of_def schedule_def)

lemma paced_revoke:
  assumes "revoke env w = (w', r)" "well_paced (fst (wo_store w))"
  shows "paced env w'"
proof -
  let ?s = "fst (wo_store w)"
  obtain store err where b: "BeginPrivacyPurge (te_disk_faults env) PrivacyPurgeRevocation (wo_store w) = (store, err)"
    by fastforce
  have "fst store = beginPrivacyPurge PrivacyPurgeRevocation ?s"
    using BeginPrivacyPurge_state[of "te_disk_faults env" PrivacyPurgeRevocation "wo_store w"] b
    by (simp add: validPrivacyPurgeAction_def)
  then have "ps_Config (fst store) = ps_Config ?s" by (simp add: beginPrivacyPurge_def)
  then show ?thesis using assms b
    by (cases err) (auto simp: revoke_def Let_def interval_def well_paced_def intro: paced_fail paced_normal)
qed

lemma paced_call_failed:
  "call_failed env e w = (w', r) \<Longrightarrow> well_paced (fst (wo_store w)) \<Longrightarrow> paced env w'"
  by (cases e) (auto simp: call_failed_def intro: paced_revoke paced_fail)

lemma follow_config_paced:
  assumes "follow_config env s c v w = ((w', Some r), calls)" "well_paced (fst (wo_store w))"
  shows "paced env w'"
proof (cases rule: follow_config_cases[of v s env c w])
  case (revoked w1 d)
  have "revoke env w1 = (w', r)" using revoked(2) assms(1) by (auto split: prod.splits)
  then show ?thesis using paced_revoke pullConfig_revoked[OF revoked(1)] assms(2) by simp
qed (use assms in simp_all)

lemma upload_paced:
  assumes "upload env s (credentials_of s) p w = ((w', r), calls)" "wo_store w = (s, d)" "well_paced s"
  shows "paced env w'"
proof (cases rule: upload_cases[of env s p w])
  case (bad_url e)
  then show ?thesis using assms(1) by (auto simp: local_failed_def intro: paced_fail)
next
  case (refused e)
  then show ?thesis using assms by (auto intro: paced_call_failed[of env e w w' r])
next
  case (not_acked response spool e)
  then show ?thesis using assms(1) by (auto simp: local_failed_def intro: paced_fail)
next
  case (accepted response spool w2 r' calls')
  then show ?thesis using assms follow_config_paced[of env s "credentials_of s" _ _ w2]
      paced_after_upload[of "sc_UploadIntervalSeconds (ps_Config s)" env w2]
    by (cases r') (auto simp: well_paced_def)
qed

lemma heartbeat_paced:
  assumes "heartbeat env s (credentials_of s) w = ((w', Some r), calls)" "wo_store w = (s, d)" "well_paced s"
  shows "paced env w'"
proof (cases rule: heartbeat_cases[of env s w])
  case (no_stats e)
  then show ?thesis using assms(1) by (auto simp: local_failed_def intro: paced_fail)
next
  case (refused stats e)
  then show ?thesis using assms by (auto split: prod.splits intro: paced_call_failed[of env e w w'])
next
  case (answered stats response w2 r' calls')
  then show ?thesis using assms follow_config_paced[of env s "credentials_of s" _ _ w' r] by auto
qed

text \<open>
  (C9) A sensor is never silenced for good and never works ahead of its clock. Every tick that was
  due, whatever happens in it, sets the next attempt: not before the end of this one and at most
  six hours after it; so with the state a running sensor has, no answer of a controller, no fault
  of the disk and no clock of the sensor can stop the attempts.
\<close>

theorem Tick_paced:
  assumes "state_ok parse (fst (wo_store w))" "due env (wo_up w)" "Tick env w = ((w', res), calls)"
  shows "te_later env \<le> sn_NextAttempt (up_snapshot (wo_up w'))
    \<and> sn_NextAttempt (up_snapshot (wo_up w')) \<le> te_later env + 6 * Hour"
proof -
  let ?s = "fst (wo_store w)"
  have n: "30 \<le> sc_UploadIntervalSeconds (ps_Config ?s)" "sc_UploadIntervalSeconds (ps_Config ?s) \<le> 900"
    using assms(1) by (auto simp: state_ok_def valid_config_def)
  then have wp: "well_paced ?s" by (simp add: well_paced_def)
  have st: "wo_store (started env w\<lparr>wo_spool := spool\<rparr>) = (?s, snd (wo_store w))" for spool by simp
  have "paced env w'"
  proof (cases rule: Tick_cases[of env w])
    case idle
    then show ?thesis using assms(2) by simp
  next
    case (blocked store err)
    then show ?thesis using assms(3) n by (cases err) (auto simp: interval_def intro: paced_fail paced_normal)
  next
    case waiting
    then show ?thesis using assms(3) n by (auto simp: interval_def intro: paced_normal)
  next
    case connected
    then have c: "connected_tick env ?s (started env w) = ((w', res), calls)" using assms(3) by simp
    show ?thesis
    proof (cases rule: connected_cases[of env ?s "started env w"])
      case (no_batch spool e)
      then show ?thesis using c by (auto simp: local_failed_def intro: paced_fail)
    next
      case (batch spool p)
      then have "upload env ?s (credentials_of ?s) p (started env w\<lparr>wo_spool := spool\<rparr>) = ((w', res), calls)"
        using c by simp
      then show ?thesis using st wp by (rule upload_paced)
    next
      case (beating spool w2 r calls')
      then show ?thesis using c n heartbeat_paced[OF _ st wp] by (cases r) (auto intro: paced_normal)
    next
      case (quiet spool)
      then show ?thesis using c n by (auto intro: paced_normal)
    qed
  qed
  then show ?thesis by (auto simp: paced_def wait_of_def)
qed

section \<open>Delivery\<close>

text \<open>What asking for a batch leaves: the records, and the reserved batch it returns.\<close>

lemma loadPending_row:
  assumes "loadPending J fl s = Inr (Some p)" "length (db_pending s) \<le> 1"
  shows "\<exists>row. db_pending s = [row] \<and> pn_body row = pb_Body p"
proof -
  consider "db_pending s = []" | row where "db_pending s = [row]"
    using assms(2) by (metis le_Suc_eq length_0_conv length_Suc_conv le_zero_eq One_nat_def)
  then show ?thesis
    using assms(1) by cases (auto simp: loadPending_def split: if_splits option.splits)
qed

lemma NextBatch_records:
  assumes "NextBatch J fl now rnd v c s = (s', res)"
  shows "db_records s' = db_records s"
proof (cases "loadPending J fl s")
  case (Inl e)
  then show ?thesis using assms by (simp add: NextBatch_def)
next
  case (Inr ob)
  show ?thesis
  proof (cases ob)
    case (Some p)
    then show ?thesis using assms Inr by (simp add: NextBatch_def)
  next
    case None
    then have n: "commit s (next_tx J fl now rnd v c s) = (s', res)" using assms Inr by (simp add: NextBatch_tx)
    show ?thesis
    proof (cases "next_tx J fl now rnd v c s")
      case (Inl e)
      then show ?thesis using n by (simp add: commit_def)
    next
      case (Inr xs)
      then obtain x where x: "next_tx J fl now rnd v c s = Inr (x, s')" using n by (cases xs) (simp add: commit_def)
      then show ?thesis
      proof (cases rule: next_tx_Inr)
        case (some b ids)
        then show ?thesis by (auto simp: reserve_def guard_def Let_def split: sum.splits if_splits)
      qed simp
    qed
  qed
qed

lemma NextBatch_row:
  assumes "spool_inv s" "NextBatch J fl now rnd v c s = (s', Inr (Some p))"
  shows "spool_inv s' \<and> (\<exists>row. db_pending s' = [row] \<and> pn_body row = pb_Body p)"
proof
  show inv: "spool_inv s'" using NextBatch_inv[OF assms(1)] assms(2) by (metis fst_conv)
  show "\<exists>row. db_pending s' = [row] \<and> pn_body row = pb_Body p"
  proof (cases "db_pending s = []")
    case True
    then show ?thesis using NextBatch_fresh[OF assms(2)] reserve_row by metis
  next
    case False
    then obtain q where q: "db_pending s = [q]"
      using assms(1) by (cases "db_pending s") (auto simp: spool_inv_def)
    then have "loadPending J fl s \<noteq> Inr None" using loadPending_None by fastforce
    then have "loadPending J fl s = Inr (Some p) \<and> s' = s"
      using assms(2) by (auto simp: NextBatch_def split: sum.splits option.splits)
    then show ?thesis using loadPending_row q by fastforce
  qed
qed

lemma Ack_error: "Ack opt fl now bid s = (s', Inl e) \<Longrightarrow> s' = s"
  by (simp add: Ack_def commit_Inl)

text \<open>
  What a tick that reached the upload has done with the spool: it holds what \<open>NextBatch\<close> left,
  or the batch was accepted and acknowledged.
\<close>

definition accepted_upload :: "tick_env \<Rightarrow> world \<Rightarrow> world \<Rightarrow> client_call list \<Rightarrow> bool" where
  "accepted_upload env w w' calls \<longleftrightarrow> (let s = fst (wo_store w) in
     \<exists>p s1 response cs. next_batch env s (wo_spool w) = (s1, Inr (Some p))
       \<and> calls = IngestCall (ps_IngestURL s) (te_encode env (pb_Body p)) # cs
       \<and> sent env s (te_encode env (pb_Body p)) = Inr response
       \<and> acknowledged env p s1 = (wo_spool w', Inr ()))"

lemma upload_spool:
  assumes "upload env s (credentials_of s) p w = ((w', r), calls)"
  shows "(wo_spool w' = wo_spool w \<and> r \<noteq> Done)
    \<or> (\<exists>response cs. calls = IngestCall (ps_IngestURL s) (te_encode env (pb_Body p)) # cs
        \<and> sent env s (te_encode env (pb_Body p)) = Inr response
        \<and> acknowledged env p (wo_spool w) = (wo_spool w', Inr ()) \<and> (cs \<noteq> [] \<or> r = Done))"
proof (cases rule: upload_cases[of env s p w])
  case (bad_url e)
  then show ?thesis using assms by (auto simp: local_failed_def)
next
  case (refused e)
  then have "call_failed env e w = (w', r)" using assms by simp
  then show ?thesis by (simp add: call_failed_spool)
next
  case (not_acked response spool e)
  then show ?thesis using assms Ack_error[OF not_acked(3)] by (auto simp: local_failed_def)
next
  case (accepted response spool w2 r' calls')
  have "wo_spool w2 = spool" using follow_config_spool[OF accepted(4)] by simp
  moreover have "calls' \<noteq> []" if "r' \<noteq> None"
    using accepted(4) that by (cases rule: follow_config_cases[of "ir_ConfigVersion response" s env "credentials_of s"
      "delivered env s (te_encode env (pb_Body p)) response spool w"]) auto
  ultimately show ?thesis using accepted assms by (cases r') auto
qed

text \<open>
  (C7) Nothing leaves the queue unless the controller took it. If a tick changed the stored records,
  or reported success after sending a batch, then that batch, encoded, was its first call, the
  controller answered it with success, and the records went with the acknowledgement of exactly
  this batch. In every other case, whatever failed, the records are the ones there were.
\<close>

theorem Tick_keeps_records:
  assumes "Tick env w = ((w', res), calls)"
    "db_records (wo_spool w') \<noteq> db_records (wo_spool w) \<or> (res = Done \<and> (\<exists>u b cs. calls = IngestCall u b # cs))"
  shows "\<exists>p s1 response cs. let s = fst (wo_store w) in
      NextBatch (te_codec env) (te_next_faults env) (te_later env) (te_batch_random env) (appVersion env)
        (ps_ConfigVersion s) (wo_spool w) = (s1, Inr (Some p))
    \<and> calls = IngestCall (ps_IngestURL s) (te_encode env (pb_Body p)) # cs
    \<and> Ingest (te_lib env) (te_send env) (te_later env) (te_nonce env) (ps_IngestURL s) (credentials_of s)
        (te_encode env (pb_Body p)) = Inr response
    \<and> Ack (te_options env) (te_ack_faults env) (te_later env) (bt_BatchID (pb_Batch p)) s1 = (wo_spool w', Inr ())"
proof -
  let ?s = "fst (wo_store w)"
  have conn: "connected_tick env ?s (started env w) = ((w', res), calls)"
    using assms by (cases rule: Tick_cases[of env w]) (auto split: option.splits)
  have "accepted_upload env w w' calls"
  proof (cases rule: connected_cases[of env ?s "started env w"])
    case (no_batch spool e)
    then show ?thesis using conn assms(2) NextBatch_records[of "te_codec env"] by (auto simp: local_failed_def)
  next
    case (batch spool p)
    then have u: "upload env ?s (credentials_of ?s) p (started env w\<lparr>wo_spool := spool\<rparr>) = ((w', res), calls)"
      using conn by simp
    have "db_records spool = db_records (wo_spool w)" using batch(1) NextBatch_records by fastforce
    then show ?thesis using upload_spool[OF u] assms(2) batch(1) by (auto simp: accepted_upload_def Let_def)
  next
    case (beating spool w2 r calls')
    have c: "calls' = calls" "wo_spool w' = wo_spool w2" using beating(3) conn by (auto split: option.splits)
    moreover have "db_records spool = db_records (wo_spool w)" using beating(1) NextBatch_records by fastforce
    moreover have "wo_spool w2 = spool" using heartbeat_spool[OF beating(2)] by simp
    moreover have "\<not> (\<exists>u b cs. calls' = IngestCall u b # cs)" using beating(2)
      by (cases rule: heartbeat_cases[of env ?s "started env w\<lparr>wo_spool := spool\<rparr>"]) (auto split: prod.splits)
    ultimately show ?thesis using assms(2) by auto
  next
    case (quiet spool)
    then show ?thesis using conn assms(2) NextBatch_records[of "te_codec env"] by auto
  qed
  then show ?thesis by (auto simp: accepted_upload_def Let_def)
qed

text \<open>The minutes appended between two ticks.\<close>

type_synonym append_call = "spool_options \<times> faults \<times> time \<times> Record list \<times> bool"

definition append_call :: "spool_db \<Rightarrow> append_call \<Rightarrow> spool_db" where
  "append_call s a = (case a of (opt, fl, now, rs, lo) \<Rightarrow> fst (append_records opt fl now rs lo s))"

definition young_at :: "spool_db \<Rightarrow> append_call \<Rightarrow> bool" where
  "young_at s a = (case a of (opt, fl, now, rs, lo) \<Rightarrow>
     list_all (\<lambda>p. Unix (now - so_MaxAge opt) \<le> pn_created_at p) (db_pending s))"

lemma appends_keep_pending:
  assumes "spool_inv s" "db_pending s = [row]" "\<forall>a\<in>set as. young_at s a"
  shows "db_pending (foldl append_call s as) = [row] \<and> spool_inv (foldl append_call s as)"
  using assms
proof (induction as arbitrary: s)
  case (Cons a as)
  obtain opt fl now rs lo where a: "a = (opt, fl, now, rs, lo)" by (cases a)
  have p: "db_pending (append_call s a) = [row]"
    using Cons.prems append_keeps_pending[of s row now opt fl rs lo] by (simp add: a append_call_def young_at_def)
  moreover have "spool_inv (append_call s a)"
    using append_records_inv[OF Cons.prems(1)] by (simp add: a append_call_def)
  moreover have "\<forall>x\<in>set as. young_at (append_call s a) x"
    using Cons.prems(2,3) p by (simp add: young_at_def)
  ultimately show ?case using Cons.IH by simp
qed simp

lemma Tick_ingest:
  assumes "Tick env w = ((w', res), IngestCall u b # cs)"
  obtains spool p where "next_batch env (fst (wo_store w)) (wo_spool w) = (spool, Inr (Some p))"
    "b = te_encode env (pb_Body p)"
    "upload env (fst (wo_store w)) (credentials_of (fst (wo_store w))) p (started env w\<lparr>wo_spool := spool\<rparr>)
       = ((w', res), IngestCall u b # cs)"
    "\<not> up_privacyBlocked (wo_up w)"
proof -
  let ?s = "fst (wo_store w)"
  have conn: "connected_tick env ?s (started env w) = ((w', res), IngestCall u b # cs)" "\<not> up_privacyBlocked (wo_up w)"
    using assms by (cases rule: Tick_cases[of env w]; auto split: option.splits)+
  show thesis
  proof (cases rule: connected_cases[of env ?s "started env w"])
    case (batch spool p)
    then have u: "upload env ?s (credentials_of ?s) p (started env w\<lparr>wo_spool := spool\<rparr>) = ((w', res), IngestCall u b # cs)"
      using conn by simp
    then have "b = te_encode env (pb_Body p)"
      by (cases rule: upload_cases[of env ?s p "started env w\<lparr>wo_spool := spool\<rparr>"]) auto
    then show thesis using batch(1) u conn(2) by (intro that) simp_all
  next
    case (beating spool w2 r calls')
    then show thesis using conn
      by (cases rule: heartbeat_cases[of env ?s "started env w\<lparr>wo_spool := spool\<rparr>"]) (auto split: prod.splits)
  qed (use conn in simp_all)
qed

lemma upload_failed:
  assumes "upload env s (credentials_of s) p w = ((w', TickError e), IngestCall u b # cs)"
  shows "wo_spool w' = wo_spool w \<or> silenced w'"
proof (cases rule: upload_cases[of env s p w])
  case (accepted response spool w2 r' calls')
  then show ?thesis
  proof (cases rule: follow_config_cases[of "ir_ConfigVersion response" s env "credentials_of s"
      "delivered env s (te_encode env (pb_Body p)) response spool w"])
    case (revoked w1 d)
    then show ?thesis using accepted(4,5) assms
      by (auto split: prod.splits dest: revoke_silences)
  qed (use accepted(4,5) assms in auto)
qed (use upload_spool[OF assms] assms in auto)

text \<open>
  (C6) A failed upload is repeated, not rebuilt. When a tick sent a batch and failed, then whatever
  minutes are appended before the next attempt, successfully or not, and whatever happens to the
  configuration and the version meanwhile, the next batch sent has the same bytes, unless the
  reserved batch has outlived the retention of the spool: so the controller can recognise it.
\<close>

theorem failed_upload_repeated:
  assumes "spool_inv (wo_spool w)" "Tick env w = ((w1, TickError e), IngestCall u b # cs)"
    "wo_spool w2 = foldl append_call (wo_spool w1) as" "\<forall>a\<in>set as. young_at (wo_spool w1) a"
    "up_privacyBlocked (wo_up w2) = up_privacyBlocked (wo_up w1)"
    "Tick env2 w2 = ((w3, res), IngestCall u2 b2 # cs2)" "te_encode env2 = te_encode env"
  shows "b2 = b"
proof -
  obtain spool p where n: "next_batch env (fst (wo_store w)) (wo_spool w) = (spool, Inr (Some p))"
    and b: "b = te_encode env (pb_Body p)" and u: "upload env (fst (wo_store w)) (credentials_of (fst (wo_store w))) p
      (started env w\<lparr>wo_spool := spool\<rparr>) = ((w1, TickError e), IngestCall u b # cs)"
    using Tick_ingest[OF assms(2)] by blast
  obtain spool2 p2 where n2: "next_batch env2 (fst (wo_store w2)) (wo_spool w2) = (spool2, Inr (Some p2))"
    and b2: "b2 = te_encode env2 (pb_Body p2)" and open2: "\<not> up_privacyBlocked (wo_up w2)"
    using Tick_ingest[OF assms(6)] by blast
  have w1: "wo_spool w1 = spool" using upload_failed[OF u] open2 assms(5) by (auto simp: silenced_def)
  obtain row where row: "spool_inv spool" "db_pending spool = [row]" "pn_body row = pb_Body p"
    using NextBatch_row[OF assms(1) n] by blast
  have k: "db_pending (wo_spool w2) = [row]" "spool_inv (wo_spool w2)"
    using appends_keep_pending[OF row(1,2)] assms(3,4) w1 by auto
  then have "loadPending (te_codec env2) (te_next_faults env2) (wo_spool w2) \<noteq> Inr None"
    using loadPending_None by fastforce
  then have "loadPending (te_codec env2) (te_next_faults env2) (wo_spool w2) = Inr (Some p2)"
    using n2 by (auto simp: NextBatch_def split: sum.splits option.splits)
  then have "pb_Body p2 = pb_Body p" using loadPending_row k row(3) by fastforce
  then show ?thesis using b b2 assms(7) by simp
qed

section \<open>A sensor at work\<close>

text \<open>A connected sensor, a controller with a newer configuration, and its three kinds of answers.\<close>

definition up_lib :: lib where
  "up_lib = demo_lib\<lparr>lib_ParseURL := (\<lambda>_. Some (demo_url ''/in'')), lib_ErrorPayload := (\<lambda>_. (''sensor_revoked'', ''gone'')),
     lib_DecHeartbeat := (\<lambda>_. Some (zero_heartbeat\<lparr>hb_ConfigVersion := 2\<rparr>)),
     lib_DecConfig := (\<lambda>_. Some (zero_config_response\<lparr>cr_ConfigVersion := 2\<rparr>))\<rparr>"

definition up_state :: State where
  "up_state = zero_state\<lparr>ps_Mode := ModeConnected, ps_ControllerURL := ''https://pulse.example.com'', ps_SensorID := ''s-1'',
     ps_SensorSecret := replicate 16 (CHR ''k''), ps_IngestURL := ''https://pulse.example.com/in'',
     ps_Config := DefaultConfig, ps_ConfigVersion := 1\<rparr>"

definition up_world :: "spool_db \<Rightarrow> world" where
  "up_world spool = \<lparr>wo_up = New_uploader 0, wo_store = (up_state, new_disk), wo_spool = spool\<rparr>"

definition up_env :: "(string + http_response) \<Rightarrow> tick_env" where
  "up_env answer = \<lparr>te_now = 6000 * Second, te_later = 6000 * Second, te_jitter = Some 7, te_jitter2 = None, te_lib = up_lib,
     te_send = (\<lambda>_. answer), te_nonce = Some ''n'', te_nonce2 = Some ''m'', te_send2 = (\<lambda>_. answer),
     te_options = small_options, te_codec = retry_codec, te_batch_random = Some (replicate 16 0),
     te_next_faults = no_faults, te_ack_faults = no_faults, te_stats_faults = no_faults, te_storage = Inr 0,
     te_disk_faults = fault_free, te_encode = (\<lambda>b. b), te_version = ''''\<rparr>"

definition fine_answer :: "string + http_response" where
  "fine_answer = Inr \<lparr>rp_Status = 200, rp_Body = ''{}'', rp_RetryAfter = ''''\<rparr>"

definition revoked_answer :: "string + http_response" where
  "revoked_answer = Inr \<lparr>rp_Status = 401, rp_Body = ''{}'', rp_RetryAfter = ''''\<rparr>"

lemma up_urls [simp]:
  "validateHTTPSURL up_lib raw = Inr (demo_url ''/in'')" "ValidateIngestURL up_lib a b = None"
  "endpointURL up_lib raw path = Inr ((demo_url ''/in'')\<lparr>url_Path := path, url_RawPath := '''', url_RawQuery := '''', url_Fragment := ''''\<rparr>)"
proof -
  have v: "validateHTTPSURL up_lib raw = Inr (demo_url ''/in'')" for raw
    by (simp add: validateHTTPSURL_def up_lib_def demo_url_def)
  then show "validateHTTPSURL up_lib raw = Inr (demo_url ''/in'')" .
  show "ValidateIngestURL up_lib a b = None" by (simp add: ValidateIngestURL_def v EqualFold_def)
  show "endpointURL up_lib raw path = Inr ((demo_url ''/in'')\<lparr>url_Path := path, url_RawPath := '''', url_RawQuery := '''', url_Fragment := ''''\<rparr>)"
    by (simp add: endpointURL_def v)
qed

lemma up_signed [simp]:
  "doSigned up_lib (\<lambda>_. fine_answer) t (Some n) m u (credentials_of up_state) b ct ce = Inr (Some ''{}'')"
  "doSigned up_lib (\<lambda>_. revoked_answer) t (Some n) m u (credentials_of up_state) b ct ce = Inl (Revoked ''gone'')"
  "doSigned up_lib (\<lambda>_. Inl e) t (Some n) m u (credentials_of up_state) b ct ce = Inl (Failed (''send signed request: '' @ e))"
proof -
  have c: "ps_SensorID up_state \<noteq> ''''" "ps_SensorSecret up_state = replicate 16 (CHR ''k'')" by (simp_all add: up_state_def)
  have s: "Sign up_lib m path ts nonce body (replicate 16 (CHR ''k'')) =
      Inr (lib_B64Encode up_lib (lib_HMAC up_lib (replicate 16 (CHR ''k'')) (sign_canonical up_lib m path ts nonce body)))" for m path ts nonce body
    by (simp add: Sign_def decodeSensorSecret_def up_lib_def demo_lib_def)
  have ne: "replicate 16 (CHR ''k'') \<noteq> ''''" by simp
  show "doSigned up_lib (\<lambda>_. fine_answer) t (Some n) m u (credentials_of up_state) b ct ce = Inr (Some ''{}'')"
    unfolding doSigned_def by (simp add: c s ne fine_answer_def Let_def)
  show "doSigned up_lib (\<lambda>_. revoked_answer) t (Some n) m u (credentials_of up_state) b ct ce = Inl (Revoked ''gone'')"
    unfolding doSigned_def
    by (simp add: c s ne revoked_answer_def Let_def decodeAPIError_def) (simp add: up_lib_def demo_lib_def)
  show "doSigned up_lib (\<lambda>_. Inl e) t (Some n) m u (credentials_of up_state) b ct ce = Inl (Failed (''send signed request: '' @ e))"
    unfolding doSigned_def by (simp add: c s ne Let_def)
qed

lemma up_calls [simp]:
  "Heartbeat up_lib (\<lambda>_. fine_answer) t (Some n) url (credentials_of up_state) hb = Inr (zero_heartbeat\<lparr>hb_ConfigVersion := 2\<rparr>)"
  "Heartbeat up_lib (\<lambda>_. revoked_answer) t (Some n) url (credentials_of up_state) hb = Inl (Revoked ''gone'')"
  "Config up_lib (\<lambda>_. fine_answer) t (Some n) url (credentials_of up_state)
     = Inr (zero_config_response\<lparr>cr_ConfigVersion := 2, cr_Config := NormalizeConfig (lib_ParseURL up_lib) zero_config\<rparr>)"
  "Ingest up_lib (\<lambda>_. fine_answer) t (Some n) url (credentials_of up_state) b = Inr zero_ingest"
  "Ingest up_lib (\<lambda>_. Inl e) t (Some n) url (credentials_of up_state) b = Inl (Failed (''send signed request: '' @ e))"
proof -
  have d: "lib_DecHeartbeat up_lib x = Some (zero_heartbeat\<lparr>hb_ConfigVersion := 2\<rparr>)" "lib_DecIngest up_lib x = Some zero_ingest"
    "lib_DecConfig up_lib x = Some (zero_config_response\<lparr>cr_ConfigVersion := 2\<rparr>)" for x
    by (simp_all add: up_lib_def demo_lib_def)
  have z: "cr_Config (zero_config_response\<lparr>cr_ConfigVersion := 2\<rparr>) = zero_config" by (simp add: zero_config_response_def)
  show "Heartbeat up_lib (\<lambda>_. fine_answer) t (Some n) url (credentials_of up_state) hb = Inr (zero_heartbeat\<lparr>hb_ConfigVersion := 2\<rparr>)"
    by (simp add: Heartbeat_def decode_signed_def decodeJSON_def d)
  show "Heartbeat up_lib (\<lambda>_. revoked_answer) t (Some n) url (credentials_of up_state) hb = Inl (Revoked ''gone'')"
    by (simp add: Heartbeat_def decode_signed_def)
  show "Config up_lib (\<lambda>_. fine_answer) t (Some n) url (credentials_of up_state)
     = Inr (zero_config_response\<lparr>cr_ConfigVersion := 2, cr_Config := NormalizeConfig (lib_ParseURL up_lib) zero_config\<rparr>)"
    by (simp add: Config_def decode_signed_def decodeJSON_def d z)
  show "Ingest up_lib (\<lambda>_. fine_answer) t (Some n) url (credentials_of up_state) b = Inr zero_ingest"
    by (simp add: Ingest_def decode_signed_def decodeJSON_def d)
  show "Ingest up_lib (\<lambda>_. Inl e) t (Some n) url (credentials_of up_state) b = Inl (Failed (''send signed request: '' @ e))"
    by (simp add: Ingest_def decode_signed_def)
qed

lemma up_state_fields [simp]:
  "ps_ConfigVersion up_state = 1" "ps_SSIDPurgePending up_state = False" "ps_Mode up_state = ModeConnected" "Claimed up_state"
  "ps_ControllerURL up_state = ''https://pulse.example.com''" "ps_IngestURL up_state = ''https://pulse.example.com/in''"
  "ps_Config up_state = DefaultConfig"
  by (simp_all add: up_state_def Claimed_def zero_state_def)

lemma up_world_fields [simp]:
  "wo_store (up_world spool) = (up_state, new_disk)" "wo_spool (up_world spool) = spool" "wo_up (up_world spool) = New_uploader 0"
  by (simp_all add: up_world_def)

lemma up_env_fields [simp]:
  "te_lib (up_env a) = up_lib" "te_send (up_env a) = (\<lambda>_. a)" "te_send2 (up_env a) = (\<lambda>_. a)" "te_nonce (up_env a) = Some ''n''"
  "te_nonce2 (up_env a) = Some ''m''" "te_now (up_env a) = 6000 * Second" "te_later (up_env a) = 6000 * Second"
  "te_options (up_env a) = small_options" "te_codec (up_env a) = retry_codec" "te_batch_random (up_env a) = Some (replicate 16 0)"
  "te_next_faults (up_env a) = no_faults" "te_ack_faults (up_env a) = no_faults" "te_stats_faults (up_env a) = no_faults"
  "te_storage (up_env a) = Inr 0" "te_disk_faults (up_env a) = fault_free" "te_encode (up_env a) = (\<lambda>b. b)"
  "te_version (up_env a) = ''''"
  by (simp_all add: up_env_def)

lemma up_due [simp]: "due (up_env a) (New_uploader 0)"
  by (simp add: due_def New_uploader_def)

lemma up_open [simp]: "up_privacyBlocked (New_uploader 0) = False" "up_lastHeartbeat (New_uploader 0) = zero_time"
  by (simp_all add: New_uploader_def)

lemma up_empty_batch: "NextBatch retry_codec no_faults t r v c empty_db = (empty_db, Inr None)"
  by (simp add: NextBatch_def loadPending_def no_faults_def empty_db_def uploadable_def guard_def commit_def)

lemma up_beating:
  "Tick (up_env a) (up_world empty_db) = connected_tick (up_env a) up_state (started (up_env a) (up_world empty_db))"
  by (cases rule: Tick_cases[of "up_env a" "up_world empty_db"]) (simp_all add: ready_def)

lemma up_connected:
  "connected_tick (up_env a) up_state (started (up_env a) (up_world empty_db)) =
     (case heartbeat (up_env a) up_state (credentials_of up_state) (started (up_env a) (up_world empty_db)) of
        ((w2, Some r), calls) \<Rightarrow> ((w2, r), calls)
      | ((w2, None), calls) \<Rightarrow> ((on_up (scheduleNormal (up_env a) (sc_UploadIntervalSeconds DefaultConfig)) w2, Done), calls))"
proof -
  have s: "started (up_env a) (up_world empty_db)\<lparr>wo_spool := empty_db\<rparr> = started (up_env a) (up_world empty_db)"
    by (simp add: started_def on_up_def up_world_def)
  show ?thesis by (simp add: connected_tick_def up_empty_batch heartbeat_due_def IsZero_def s)
qed

lemma up_stats: "spool_stats (up_env a) (started (up_env a) (up_world empty_db)) =
    Inr \<lparr>sx_Records = 0, sx_Bytes = 0, sx_PayloadBytes = 0, sx_PayloadLimitBytes = 1000, sx_StorageBytes = 0, sx_Dropped = 0\<rparr>"
  by (simp add: spool_stats_def Stats_of_def no_faults_def empty_db_def row_bytes_def payloadBytes_def hist_bytes_def small_options_def)

lemma up_write: "writeState fault_free s d = (True, None, d\<lparr>dk_state := replace_with (Some s) True (dk_state d)\<rparr>)"
  by (simp add: writeState_def) (simp add: fault_free_def)

lemma up_set_config:
  "\<exists>store. SetConfig fault_free parse cfg 2 (up_state, d) = (store, None)"
  by (simp add: SetConfig_def commitLocked_def up_write)

lemma up_pull:
  assumes "wo_store w = (up_state, d)"
  shows "\<exists>w'. follow_config (up_env fine_answer) up_state (credentials_of up_state) 2 w
    = ((w', None), [ConfigCall ''https://pulse.example.com''])"
proof -
  obtain store where "SetConfig fault_free (lib_ParseURL up_lib)
      (NormalizeConfig (lib_ParseURL up_lib) zero_config) 2 (up_state, d) = (store, None)"
    using up_set_config by blast
  then have "pullConfig (up_env fine_answer) ''https://pulse.example.com'' (credentials_of up_state) w = (w\<lparr>wo_store := store\<rparr>, None)"
    using assms by (simp add: pullConfig_def)
  then show ?thesis by (simp add: follow_config_def)
qed

lemma up_heartbeat:
  "\<exists>w'. heartbeat (up_env fine_answer) up_state (credentials_of up_state) (started (up_env fine_answer) (up_world empty_db))
    = ((w', None), [HeartbeatCall ''https://pulse.example.com'', ConfigCall ''https://pulse.example.com''])"
proof -
  let ?w = "started (up_env fine_answer) (up_world empty_db)"
  let ?r = "zero_heartbeat\<lparr>hb_ConfigVersion := 2\<rparr>"
  have "wo_store (beaten (up_env fine_answer) up_state ?r ?w) = (up_state, new_disk)" by simp
  then obtain w' where "follow_config (up_env fine_answer) up_state (credentials_of up_state) 2
      (beaten (up_env fine_answer) up_state ?r ?w) = ((w', None), [ConfigCall ''https://pulse.example.com''])"
    using up_pull by blast
  then show ?thesis by (simp add: heartbeat_def up_stats beaten_def)
qed

lemma up_tick_two_calls:
  "\<exists>w'. Tick (up_env fine_answer) (up_world empty_db)
    = ((w', Done), [HeartbeatCall ''https://pulse.example.com'', ConfigCall ''https://pulse.example.com''])"
  using up_heartbeat by (auto simp: up_beating up_connected)

theorem Tick_calls_witness:
  "\<exists>w' calls. Tick (up_env fine_answer) (up_world empty_db) = ((w', Done), calls) \<and> length calls = 2
     \<and> due (up_env fine_answer) (wo_up (up_world empty_db)) \<and> hd calls = HeartbeatCall (ps_ControllerURL up_state)"
proof -
  obtain w' where t: "Tick (up_env fine_answer) (up_world empty_db)
    = ((w', Done), [HeartbeatCall ''https://pulse.example.com'', ConfigCall ''https://pulse.example.com''])"
    using up_tick_two_calls by blast
  have "due (up_env fine_answer) (wo_up (up_world empty_db))" using Tick_calls[OF t] by simp
  then show ?thesis using t by simp
qed

lemma up_tick_revoked:
  "\<exists>w' r. Tick (up_env revoked_answer) (up_world empty_db) = ((w', r), [HeartbeatCall ''https://pulse.example.com''])"
proof -
  let ?w = "started (up_env revoked_answer) (up_world empty_db)"
  obtain w' r where "revoke (up_env revoked_answer) ?w = (w', r)" by fastforce
  then have "heartbeat (up_env revoked_answer) up_state (credentials_of up_state) ?w
      = ((w', Some r), [HeartbeatCall ''https://pulse.example.com''])"
    by (simp add: heartbeat_def up_stats call_failed_revoked)
  then show ?thesis by (simp add: up_beating up_connected)
qed

text \<open>Revoked, forced and asked again: nothing is sent.\<close>

theorem revoked_sensor_silent_witness:
  "\<exists>w1 r w2 r2 calls. Tick (up_env revoked_answer) (up_world empty_db) = ((w1, r), [HeartbeatCall ''https://pulse.example.com''])
     \<and> Tick (up_env fine_answer) (on_up Force w1) = ((w2, r2), calls) \<and> calls = []"
proof -
  obtain w1 r where t: "Tick (up_env revoked_answer) (up_world empty_db) = ((w1, r), [HeartbeatCall ''https://pulse.example.com''])"
    using up_tick_revoked by blast
  obtain w2 r2 calls where t2: "Tick (up_env fine_answer) (on_up Force w1) = ((w2, r2), calls)" by (metis prod.exhaust)
  have "up_run w1 ([] @ calls) w2" by (rule up_run.ticked[OF up_run.forced[OF up_run.rest] t2])
  moreover have "answered_revoked (up_env revoked_answer) (fst (wo_store (up_world empty_db))) (last [HeartbeatCall ''https://pulse.example.com''])"
    by (simp add: answered_revoked_def)
  ultimately have "calls = []" using revoked_sensor_silent[OF t] by simp
  then show ?thesis using t t2 by blast
qed

theorem fail_backoff_witness:
  "wait_of (up_env fine_answer) (fail (up_env fine_answer) (Failed ''offline'') 0 (New_uploader 0)) < 2 * Second"
proof -
  have "0 \<le> sn_Failures (up_snapshot (New_uploader 0))" by (simp add: New_uploader_def)
  from fail_backoff[OF this, of "up_env fine_answer" "Failed ''offline''" 0] show ?thesis
    by (simp add: Let_def New_uploader_def)
qed

theorem Tick_paced_witness:
  "\<exists>w' r calls. Tick (up_env fine_answer) (up_world empty_db) = ((w', r), calls)
     \<and> sn_NextAttempt (up_snapshot (wo_up w')) \<le> 6000 * Second + 6 * Hour"
proof -
  obtain w' r calls where t: "Tick (up_env fine_answer) (up_world empty_db) = ((w', r), calls)" by (metis prod.exhaust)
  have "state_ok (lib_ParseURL up_lib) (fst (wo_store (up_world empty_db)))"
    using valid_DefaultConfig by (simp add: state_ok_def) (simp add: up_state_def zero_state_def)
  moreover have "due (up_env fine_answer) (wo_up (up_world empty_db))" by simp
  ultimately have "sn_NextAttempt (up_snapshot (wo_up w')) \<le> te_later (up_env fine_answer) + 6 * Hour"
    using Tick_paced[OF _ _ t] by blast
  then show ?thesis using t by auto
qed

lemma up_next:
  obtains s1 p where "NextBatch retry_codec no_faults (6000 * Second) (Some (replicate 16 0)) v c small_db = (s1, Inr (Some p))"
proof -
  have "\<exists>s1 p. NextBatch retry_codec no_faults (6000 * Second) (Some (replicate 16 0)) v c small_db = (s1, Inr (Some p))"
    by (simp add: NextBatch_def loadPending_def small_db_def empty_db_def no_faults_def guard_def uploadable_def
        addRecord_def room_def retry_codec_def small_codec_def empty_batch_def reserve_def NewBatchID_def commit_def
        Let_def Unix_def)
  then show thesis using that by blast
qed

lemma up_uploading:
  assumes "NextBatch retry_codec no_faults (6000 * Second) (Some (replicate 16 0)) ''0.0.0-dev'' 1 spool = (s1, Inr (Some p))"
  shows "Tick (up_env a) (up_world spool)
    = upload (up_env a) up_state (credentials_of up_state) p (started (up_env a) (up_world spool)\<lparr>wo_spool := s1\<rparr>)"
proof -
  have v: "appVersion (up_env a) = ''0.0.0-dev''" by (simp add: appVersion_def)
  have "Tick (up_env a) (up_world spool) = connected_tick (up_env a) up_state (started (up_env a) (up_world spool))"
    by (cases rule: Tick_cases[of "up_env a" "up_world spool"]) (simp_all add: ready_def)
  then show ?thesis using assms by (simp add: connected_tick_def v)
qed

text \<open>A batch is sent, answered and acknowledged.\<close>

lemma up_delivery:
  "\<exists>w' u b. Tick (up_env fine_answer) (up_world small_db) = ((w', Done), [IngestCall u b])"
proof -
  obtain s1 p where n: "NextBatch retry_codec no_faults (6000 * Second) (Some (replicate 16 0)) ''0.0.0-dev'' 1 small_db = (s1, Inr (Some p))"
    using up_next by blast
  have e: "db_pending small_db = []" by (simp add: small_db_def empty_db_def)
  obtain row where row: "db_pending s1 = [row]" "pn_batch_id row = bt_BatchID (pb_Batch p)"
    using NextBatch_fresh[OF n e] reserve_row[OF _ e] by metis
  obtain d s2 where "pruneTx small_options no_faults (6000 * Second) (settle (bt_BatchID (pb_Batch p)) (pn_record_ids row) s1) = Inr (d, s2)"
    using pruneTx_no_faults by blast
  then have ack: "Ack small_options no_faults (6000 * Second) (bt_BatchID (pb_Batch p)) s1 = (s2, Inr ())"
    using row by (simp add: Ack_def guard_def commit_def) (simp add: no_faults_def)
  let ?w = "started (up_env fine_answer) (up_world small_db)\<lparr>wo_spool := s1\<rparr>"
  show ?thesis unfolding up_uploading[OF n]
  proof (cases rule: upload_cases[of "up_env fine_answer" up_state p ?w])
    case (accepted response spool w2 r calls)
    have "response = zero_ingest" using accepted(2) by simp
    then have "(w2, r) = (delivered (up_env fine_answer) up_state (pb_Body p) response spool ?w, None) \<and> calls = []"
      using accepted(4) by (simp add: follow_config_def zero_ingest_def)
    then show "\<exists>w' u b. upload (up_env fine_answer) up_state (credentials_of up_state) p ?w = ((w', Done), [IngestCall u b])"
      using accepted(5) by auto
  qed (use ack in simp_all)
qed

theorem Tick_keeps_records_witness:
  "\<exists>w' s1 p. next_batch (up_env fine_answer) up_state small_db = (s1, Inr (Some p))
     \<and> Tick (up_env fine_answer) (up_world small_db) = ((w', Done), [IngestCall ''https://pulse.example.com/in'' (pb_Body p)])
     \<and> acknowledged (up_env fine_answer) p s1 = (wo_spool w', Inr ())"
proof -
  obtain w' u b where t: "Tick (up_env fine_answer) (up_world small_db) = ((w', Done), [IngestCall u b])"
    using up_delivery by blast
  from Tick_keeps_records[OF t] t show ?thesis by (auto simp: Let_def)
qed

text \<open>The controller is unreachable, a minute cannot be appended, and the batch is sent again.\<close>

theorem failed_upload_repeated_witness:
  "\<exists>w1 e u b w3 u2 b2. Tick (up_env (Inl ''offline'')) (up_world small_db) = ((w1, TickError e), [IngestCall u b])
     \<and> Tick (up_env (Inl ''offline'')) (on_up Force w1) = ((w3, TickError e), [IngestCall u2 b2]) \<and> b2 = b"
proof -
  let ?env = "up_env (Inl ''offline'')" and ?e = "Failed (''send signed request: '' @ ''offline'')"
  obtain s1 p where n: "NextBatch retry_codec no_faults (6000 * Second) (Some (replicate 16 0)) ''0.0.0-dev'' 1 small_db = (s1, Inr (Some p))"
    using up_next by blast
  let ?w = "started ?env (up_world small_db)\<lparr>wo_spool := s1\<rparr>"
  let ?w1 = "on_up (fail ?env ?e 0) ?w"
  have up: "upload ?env up_state (credentials_of up_state) q w = ((on_up (fail ?env ?e 0) w, TickError ?e),
      [IngestCall ''https://pulse.example.com/in'' (pb_Body q)])" for q w
    by (simp add: upload_def Let_def call_failed_def retryAfter_def)
  have t: "Tick ?env (up_world small_db) = ((?w1, TickError ?e), [IngestCall ''https://pulse.example.com/in'' (pb_Body p)])"
    by (simp only: up_uploading[OF n] up)
  obtain row where row: "db_pending s1 = [row]" using NextBatch_row[OF small_db_inv n] by blast
  obtain q where q: "NextBatch retry_codec no_faults (6000 * Second) (Some (replicate 16 0)) ''0.0.0-dev'' 1 s1 = (s1, Inr (Some q))"
    using row by (simp add: NextBatch_def loadPending_def no_faults_def retry_codec_def)
  have v: "appVersion ?env = ''0.0.0-dev''" by (simp add: appVersion_def)
  have fd: "due ?env (Force u)" and fb: "up_privacyBlocked (Force u) = up_privacyBlocked u" for u
    by (simp_all add: due_def Force_def)
  have "Tick ?env (on_up Force ?w1) = connected_tick ?env up_state (started ?env (on_up Force ?w1))"
    by (cases rule: Tick_cases[of ?env "on_up Force ?w1"]) (simp_all add: ready_def fd fb)
  also have "\<dots> = upload ?env up_state (credentials_of up_state) q (started ?env (on_up Force ?w1)\<lparr>wo_spool := s1\<rparr>)"
    using q by (simp add: connected_tick_def v)
  finally obtain w3 where t2: "Tick ?env (on_up Force ?w1) = ((w3, TickError ?e), [IngestCall ''https://pulse.example.com/in'' (pb_Body q)])"
    using up by metis
  have "pb_Body q = pb_Body p"
    by (rule failed_upload_repeated[OF _ t _ _ _ t2, of "[]"]) (simp_all add: small_db_inv Force_def)
  then show ?thesis using t t2 by blast
qed

end
