(* ===== verification/Test_Schedule.thy ===== *)
theory Test_Schedule
  imports State_Store
begin

text \<open>
  When a scheduled speed test is due (\<open>internal/measurement/measurement.go\<close>): daily windows in local
  time, and a cadence of slots inside them, each with an instant that is random but stable for a
  sensor and slot.

  The local zone is a function from instants to offsets, \<open>zone\<close>; the calendar of package \<open>time\<close> is
  built on it. The first eight bytes of a SHA-256 digest, read as a little-endian word, are the
  argument \<open>digest\<close>.
\<close>

section \<open>Local time\<close>

abbreviation (input) Day :: duration where "Day \<equiv> 86400000000000"

definition local_time :: "(time \<Rightarrow> duration) \<Rightarrow> time \<Rightarrow> int" where
  "local_time zone t = t + zone t"

definition local_day :: "(time \<Rightarrow> duration) \<Rightarrow> time \<Rightarrow> int" where
  "local_day zone t = local_time zone t div Day"

definition local_minute :: "(time \<Rightarrow> duration) \<Rightarrow> time \<Rightarrow> int" where
  "local_minute zone t = local_time zone t mod Day div Minute"

text \<open>
  \<open>time.Date\<close>: the offset is first looked up as if the local time were UTC, then at the instant
  this gives.
\<close>

definition go_Date :: "(time \<Rightarrow> duration) \<Rightarrow> int \<Rightarrow> time" where
  "go_Date zone l = (if zone l = 0 then l else l - zone (l - zone l))"

definition AddDate :: "(time \<Rightarrow> duration) \<Rightarrow> time \<Rightarrow> int \<Rightarrow> time" where
  "AddDate zone t days = go_Date zone (local_time zone t + days * Day)"

text \<open>\<open>Format(time.RFC3339)\<close>.\<close>

definition format_zone :: "duration \<Rightarrow> string" where
  "format_zone offset =
     (if offset div Second = 0 then ''Z''
      else let m = abs offset div Minute
           in (if offset < 0 then ''-'' else ''+'') @ zero_pad 2 (m div 60) @ '':'' @ zero_pad 2 (m mod 60))"

definition format_rfc3339 :: "(time \<Rightarrow> duration) \<Rightarrow> time \<Rightarrow> string" where
  "format_rfc3339 zone t =
     (let s = local_time zone t mod Day div Second
      in format_day zone t @ ''T'' @ zero_pad 2 (s div 3600) @ '':'' @ zero_pad 2 (s div 60 mod 60) @ '':''
           @ zero_pad 2 (s mod 60) @ format_zone (zone t))"

definition clock_candidate :: "(time \<Rightarrow> duration) \<Rightarrow> time \<Rightarrow> int \<Rightarrow> time" where
  "clock_candidate zone base tot =
     go_Date zone (local_day zone (AddDate zone base (tot div 1440)) * Day + tot mod 1440 * Minute)"

definition clock_exists :: "(time \<Rightarrow> duration) \<Rightarrow> time \<Rightarrow> int \<Rightarrow> bool" where
  "clock_exists zone base tot \<longleftrightarrow>
     local_day zone (clock_candidate zone base tot) = local_day zone (AddDate zone base (tot div 1440))
     \<and> local_minute zone (clock_candidate zone base tot) = tot mod 1440"

definition localClock :: "(time \<Rightarrow> duration) \<Rightarrow> time \<Rightarrow> int \<Rightarrow> time" where
  "localClock zone day minuteOfDay =
     (let base = AddDate zone (go_Date zone (local_day zone day * Day)) (minuteOfDay div 1440)
      in case List.find (\<lambda>a. clock_exists zone base (minuteOfDay mod 1440 + int a)) [0..<181] of
           Some a \<Rightarrow> clock_candidate zone base (minuteOfDay mod 1440 + int a)
         | None \<Rightarrow> base)"

section \<open>Windows\<close>

definition clockMinutes :: "string \<Rightarrow> int option" where
  "clockMinutes value =
     (case split_at (CHR '':'') value of
        [h, m] \<Rightarrow> (case (atoi h, atoi m) of
            (Some hour, Some minute) \<Rightarrow>
              if minute < 0 \<or> minute > 59 \<or> hour < 0 \<or> hour > 24 \<or> (hour = 24 \<and> minute \<noteq> 0)
              then None else Some (hour * 60 + minute)
          | _ \<Rightarrow> None)
      | _ \<Rightarrow> None)"

definition window_minutes :: "string \<Rightarrow> (int \<times> int) option" where
  "window_minutes window =
     (case split_at (CHR ''-'') window of
        [a, b] \<Rightarrow> (case (clockMinutes a, clockMinutes b) of
            (Some s, Some e) \<Rightarrow> if s = e then None else Some (s, e)
          | _ \<Rightarrow> None)
      | _ \<Rightarrow> None)"

definition window_span :: "(time \<Rightarrow> duration) \<Rightarrow> time \<Rightarrow> int \<Rightarrow> int \<Rightarrow> time \<times> time" where
  "window_span zone now s e =
     (if s > e
      then if now < localClock zone now e
           then (localClock zone (AddDate zone now (- 1)) s, localClock zone now e)
           else (localClock zone now s, localClock zone now (e + 1440))
      else (localClock zone now s, localClock zone now e))"

definition speedWindowSchedule ::
    "(time \<Rightarrow> duration) \<Rightarrow> (string \<Rightarrow> u64) \<Rightarrow> time \<Rightarrow> string \<Rightarrow> string \<Rightarrow> (time \<times> time) option" where
  "speedWindowSchedule zone digest now window seed =
     (case window_minutes window of
        None \<Rightarrow> None
      | Some (s, e) \<Rightarrow>
          (case window_span zone now s e of
             (start, end') \<Rightarrow>
               if now < start \<or> \<not> now < end' then None
               else Some (start + uint (digest (seed @ CHR 0x00 # window @ CHR 0x00 # format_rfc3339 zone start)) mod (end' - start),
                      start)))"

definition SpeedWindowDue ::
    "(time \<Rightarrow> duration) \<Rightarrow> (string \<Rightarrow> u64) \<Rightarrow> time \<Rightarrow> time \<Rightarrow> string list \<Rightarrow> string \<Rightarrow> bool" where
  "SpeedWindowDue zone digest now prev windows seed \<longleftrightarrow>
     list_ex (\<lambda>window. case speedWindowSchedule zone digest now window seed of
         Some (scheduled, start) \<Rightarrow> \<not> now < scheduled \<and> prev < start
       | None \<Rightarrow> False) windows"

section \<open>The cadence\<close>

definition slot_minutes :: "int \<Rightarrow> int" where
  "slot_minutes cadenceMinutes = min (max cadenceMinutes 60) 1440"

definition cadenceSlot :: "(time \<Rightarrow> duration) \<Rightarrow> time \<Rightarrow> int \<Rightarrow> time \<times> time" where
  "cadenceSlot zone now cadenceMinutes =
     (let minutes = slot_minutes cadenceMinutes; startMinute = local_minute zone now div minutes * minutes
      in (localClock zone now startMinute, localClock zone now (min (startMinute + minutes) 1440)))"

text \<open>One window on one day, cut to the slot.\<close>

definition slot_interval ::
    "(time \<Rightarrow> duration) \<Rightarrow> time \<Rightarrow> time \<Rightarrow> time \<Rightarrow> string \<Rightarrow> (time \<times> time) list" where
  "slot_interval zone slotStart slotEnd base window =
     (case window_minutes window of
        None \<Rightarrow> []
      | Some (s, e) \<Rightarrow>
          let start = max (localClock zone base s) slotStart;
              end' = min (if e < s then localClock zone base (e + 1440) else localClock zone base e) slotEnd
          in if start < end' then [(start, end')] else [])"

definition slot_intervals ::
    "(time \<Rightarrow> duration) \<Rightarrow> time \<Rightarrow> time \<Rightarrow> string list \<Rightarrow> (time \<times> time) list" where
  "slot_intervals zone slotStart slotEnd windows =
     concat (map (\<lambda>day. concat (map (slot_interval zone slotStart slotEnd
         (AddDate zone (localClock zone slotStart 0) day)) windows)) [-1, 0, 1])"

definition total_length :: "(time \<times> time) list \<Rightarrow> duration" where
  "total_length intervals = (\<Sum>i\<leftarrow>intervals. snd i - fst i)"

fun instant_at :: "duration \<Rightarrow> (time \<times> time) list \<Rightarrow> time option" where
  "instant_at offset [] = None"
| "instant_at offset (i # is) =
     (if offset < snd i - fst i then Some (fst i + offset) else instant_at (offset - (snd i - fst i)) is)"

definition cadenceSchedule ::
    "(time \<Rightarrow> duration) \<Rightarrow> (string \<Rightarrow> u64) \<Rightarrow> time \<Rightarrow> time \<Rightarrow> string list \<Rightarrow> string \<Rightarrow> time option" where
  "cadenceSchedule zone digest slotStart slotEnd windows seed =
     (let intervals = slot_intervals zone slotStart slotEnd windows; tot = total_length intervals
      in if tot \<le> 0 then None
         else case instant_at (uint (digest (seed @ CHR 0x00 # ''cadence'' @ CHR 0x00 # format_rfc3339 zone slotStart)) mod tot) intervals of
                Some t \<Rightarrow> Some t
              | None \<Rightarrow> Some (fst (last intervals)))"

definition SpeedProfileDue ::
    "(time \<Rightarrow> duration) \<Rightarrow> (string \<Rightarrow> u64) \<Rightarrow> time \<Rightarrow> time \<Rightarrow> string list \<Rightarrow> int \<Rightarrow> string \<Rightarrow> bool" where
  "SpeedProfileDue zone digest now prev windows cadenceMinutes seed =
     (if cadenceMinutes \<le> 0 then SpeedWindowDue zone digest now prev windows seed
      else case cadenceSlot zone now cadenceMinutes of
        (start, end') \<Rightarrow> (case cadenceSchedule zone digest start end' windows seed of
            Some scheduled \<Rightarrow> \<not> now < scheduled \<and> now < end' \<and> prev < start
          | None \<Rightarrow> False))"

section \<open>The next test\<close>

text \<open>Keeping the earliest candidate: the zero time stands for none yet.\<close>

definition earlier :: "time \<Rightarrow> time \<Rightarrow> time" where
  "earlier next scheduled = (if IsZero next \<or> scheduled < next then scheduled else next)"

definition consider_window ::
    "(time \<Rightarrow> duration) \<Rightarrow> (string \<Rightarrow> u64) \<Rightarrow> time \<Rightarrow> time \<Rightarrow> string \<Rightarrow> time \<times> string \<Rightarrow> time \<Rightarrow> time" where
  "consider_window zone digest now prev seed cw next =
     (case speedWindowSchedule zone digest (fst cw) (snd cw) seed of
        None \<Rightarrow> next
      | Some (scheduled, start) \<Rightarrow>
          if scheduled < now \<or> \<not> prev < start then next else earlier next scheduled)"

definition NextSpeedWindow ::
    "(time \<Rightarrow> duration) \<Rightarrow> (string \<Rightarrow> u64) \<Rightarrow> time \<Rightarrow> time \<Rightarrow> string list \<Rightarrow> string \<Rightarrow> time" where
  "NextSpeedWindow zone digest now prev windows seed =
     (if SpeedWindowDue zone digest now prev windows seed then now
      else fold (consider_window zone digest now prev seed)
             (List.product (map (\<lambda>hour. now + hour * Hour) [-24..48]) windows) zero_time)"

definition consider_slot ::
    "(time \<Rightarrow> duration) \<Rightarrow> (string \<Rightarrow> u64) \<Rightarrow> time \<Rightarrow> time \<Rightarrow> string list \<Rightarrow> string \<Rightarrow> time \<times> time \<Rightarrow> time \<Rightarrow> time" where
  "consider_slot zone digest now prev windows seed slot next =
     (case cadenceSchedule zone digest (fst slot) (snd slot) windows seed of
        None \<Rightarrow> next
      | Some scheduled \<Rightarrow>
          if scheduled < now \<or> \<not> prev < fst slot then next else earlier next scheduled)"

text \<open>The offsets of the loop: the multiples of the slot length below 1440.\<close>

definition slot_starts :: "int \<Rightarrow> int list" where
  "slot_starts minutes = map (\<lambda>i. int i * minutes) [0..<nat ((1440 + minutes - 1) div minutes)]"

definition coming_slots :: "(time \<Rightarrow> duration) \<Rightarrow> time \<Rightarrow> int \<Rightarrow> (time \<times> time) list" where
  "coming_slots zone now minutes =
     concat (map (\<lambda>day. let dayStart = AddDate zone (localClock zone now 0) day
        in map (\<lambda>offset. (localClock zone dayStart offset, localClock zone dayStart (min (offset + minutes) 1440)))
             (slot_starts minutes)) [-1, 0, 1, 2, 3])"

definition NextSpeedProfile ::
    "(time \<Rightarrow> duration) \<Rightarrow> (string \<Rightarrow> u64) \<Rightarrow> time \<Rightarrow> time \<Rightarrow> string list \<Rightarrow> int \<Rightarrow> string \<Rightarrow> time" where
  "NextSpeedProfile zone digest now prev windows cadenceMinutes seed =
     (if cadenceMinutes \<le> 0 then NextSpeedWindow zone digest now prev windows seed
      else if SpeedProfileDue zone digest now prev windows cadenceMinutes seed then now
      else fold (consider_slot zone digest now prev windows seed)
             (coming_slots zone now (slot_minutes cadenceMinutes)) zero_time)"

section \<open>A zone with a fixed offset\<close>

lemma go_Date_fixed [simp]: "go_Date (\<lambda>_. off) l = l - off"
  by (simp add: go_Date_def)

lemma AddDate_fixed [simp]: "AddDate (\<lambda>_. off) t k = t + k * Day"
  by (simp add: AddDate_def local_time_def)

lemma minute_of_day:
  assumes "0 \<le> m" "m < 1440"
  shows "(d * Day + m * Minute) div Day = d" "(d * Day + m * Minute) mod Day div Minute = m"
proof -
  have r: "0 \<le> m * Minute" "m * Minute < Day" using assms by auto
  then show "(d * Day + m * Minute) div Day = d" by (simp add: add.commute)
  have "(d * Day + m * Minute) mod Day = m * Minute"
    using r by (simp add: mod_pos_pos_trivial)
  then show "(d * Day + m * Minute) mod Day div Minute = m" by simp
qed

lemma localClock_fixed: "localClock (\<lambda>_. off) t m = local_day (\<lambda>_. off) t * Day + m * Minute - off"
proof -
  let ?z = "\<lambda>_::time. off"
  let ?d = "local_day ?z t + m div 1440"
  have m: "0 \<le> m mod 1440" "m mod 1440 < 1440" by simp_all
  define base where "base = AddDate ?z (go_Date ?z (local_day ?z t * Day)) (m div 1440)"
  have base: "base = ?d * Day - off" by (simp add: base_def algebra_simps)
  have b: "local_day ?z (AddDate ?z base ((m mod 1440) div 1440)) = ?d"
    by (simp add: base local_day_def local_time_def)
  have c: "clock_candidate ?z base (m mod 1440) = ?d * Day + m mod 1440 * Minute - off"
    unfolding clock_candidate_def b by simp
  have "clock_exists ?z base (m mod 1440)"
    unfolding clock_exists_def b c using minute_of_day[OF m, of ?d] by (simp add: local_day_def local_minute_def local_time_def)
  then have "List.find (\<lambda>a. clock_exists ?z base (m mod 1440 + int a)) [0..<181] = Some 0"
    by (simp add: upt_conv_Cons)
  then have "localClock ?z t m = ?d * Day + m mod 1440 * Minute - off"
    unfolding localClock_def base_def[symmetric] Let_def using c by simp
  also have "\<dots> = local_day ?z t * Day + (m div 1440 * 1440 + m mod 1440) * Minute - off"
    by (simp only: distrib_right mult.assoc add.assoc mult_numeral_1 refl)
  finally show ?thesis by (simp only: div_mult_mod_eq)
qed

text \<open>The minute of a day lies in a window, which may pass midnight.\<close>

definition inside_hours :: "int \<Rightarrow> int \<Rightarrow> int \<Rightarrow> bool" where
  "inside_hours s e m \<longleftrightarrow> (if s < e then s \<le> m \<and> m < e else s \<le> m \<or> m < e)"

definition allowed_minute :: "string list \<Rightarrow> int \<Rightarrow> bool" where
  "allowed_minute windows m \<longleftrightarrow>
     list_ex (\<lambda>w. case window_minutes w of Some (s, e) \<Rightarrow> inside_hours s e m | None \<Rightarrow> False) windows"

lemma clockMinutes_range: "clockMinutes v = Some m \<Longrightarrow> 0 \<le> m \<and> m \<le> 1440"
  by (auto simp: clockMinutes_def split: list.splits option.splits if_splits)

lemma window_minutes_range:
  assumes "window_minutes w = Some (s, e)"
  shows "0 \<le> s \<and> s \<le> 1440 \<and> 0 \<le> e \<and> e \<le> 1440 \<and> s \<noteq> e"
  using assms clockMinutes_range
  by (fastforce simp: window_minutes_def split: list.splits option.splits if_splits)

lemma local_minute_bounds:
  "local_day zone t * Day + local_minute zone t * Minute \<le> local_time zone t"
  "local_time zone t < local_day zone t * Day + (local_minute zone t + 1) * Minute"
  "0 \<le> local_minute zone t" "local_minute zone t < 1440"
proof -
  let ?l = "local_time zone t"
  have split: "q * Day + m * Minute \<le> l \<and> l < q * Day + (m + 1) * Minute"
    if "l = q * Day + r" "r = m * Minute + k" "0 \<le> k" "k < Minute" for l q r m k :: int
    using that by (simp add: algebra_simps)
  have "?l = ?l div Day * Day + ?l mod Day" "?l mod Day = ?l mod Day div Minute * Minute + ?l mod Day mod Minute"
    "0 \<le> ?l mod Day mod Minute" "?l mod Day mod Minute < Minute" by simp_all
  from split[OF this] show "local_day zone t * Day + local_minute zone t * Minute \<le> ?l"
    "?l < local_day zone t * Day + (local_minute zone t + 1) * Minute"
    unfolding local_day_def local_minute_def by blast+
  have "0 \<le> ?l mod Day" "?l mod Day < Day" by simp_all
  then show "0 \<le> local_minute zone t" "local_minute zone t < 1440"
    unfolding local_minute_def by linarith+
qed

text \<open>In a fixed zone, an instant between two wall-clock minutes of some day is inside the window.\<close>

lemma between_clocks:
  assumes "d * Day + s * Minute - off \<le> t" "t < d * Day + e * Minute - off" "0 \<le> s" "e \<le> s + 1440" "s \<le> 1440"
  defines "m \<equiv> local_minute (\<lambda>_. off) t"
  shows "if e \<le> 1440 then s \<le> m \<and> m < e \<or> s = 1440 else s \<le> m \<or> m < e - 1440"
proof -
  let ?d = "local_day (\<lambda>_. off) t"
  have b: "?d * Day + m * Minute \<le> t + off" "t + off < ?d * Day + (m + 1) * Minute" "0 \<le> m" "m < 1440"
    using local_minute_bounds[of "\<lambda>_. off" t] by (simp_all add: m_def local_time_def)
  have "(d * 1440 + s) * Minute < (?d * 1440 + (m + 1)) * Minute"
    using assms(1) b(2) by (simp add: algebra_simps)
  then have lo: "d * 1440 + s \<le> ?d * 1440 + m" by simp
  have "(?d * 1440 + m) * Minute < (d * 1440 + e) * Minute"
    using assms(2) b(1) by (simp add: algebra_simps)
  then have hi: "?d * 1440 + m < d * 1440 + e" by simp
  have "?d = d \<or> ?d = d + 1"
    using lo hi assms(3-5) b(3,4) by linarith
  then show ?thesis using lo hi assms(3-5) b(3,4) by (auto simp: algebra_simps)
qed

lemma between_window:
  assumes "window_minutes w = Some (s, e)" "d * Day + s * Minute - off \<le> t"
    "t < d * Day + (if e < s then e + 1440 else e) * Minute - off"
  shows "inside_hours s e (local_minute (\<lambda>_. off) t)"
proof -
  note r = window_minutes_range[OF assms(1)]
  have m: "local_minute (\<lambda>_. off) t < 1440" by (rule local_minute_bounds(4))
  show ?thesis
  proof (cases "e < s")
    case True
    then show ?thesis using between_clocks[of d s off t "e + 1440"] assms(2,3) r by (auto simp: inside_hours_def split: if_splits)
  next
    case False
    then show ?thesis using between_clocks[of d s off t e] assms(2,3) r by (auto simp: inside_hours_def split: if_splits)
  qed
qed

lemma local_day_add: "local_day (\<lambda>_. off) (t + k * Day) = local_day (\<lambda>_. off) t + k"
proof -
  have "local_time (\<lambda>_. off) (t + k * Day) = local_time (\<lambda>_. off) t + k * Day" by (simp add: local_time_def)
  then show ?thesis by (simp add: local_day_def)
qed

section \<open>Due inside a window\<close>

lemma schedule_in_window:
  assumes "speedWindowSchedule (\<lambda>_. off) digest now w seed = Some (scheduled, start)"
  shows "\<exists>s e. window_minutes w = Some (s, e) \<and> inside_hours s e (local_minute (\<lambda>_. off) now)
    \<and> inside_hours s e (local_minute (\<lambda>_. off) scheduled) \<and> start \<le> now \<and> start \<le> scheduled"
proof -
  let ?z = "\<lambda>_::time. off"
  obtain s e where w: "window_minutes w = Some (s, e)" using assms by (auto simp: speedWindowSchedule_def split: option.splits)
  obtain a b where ab: "window_span ?z now s e = (a, b)" by fastforce
  let ?x = "digest (seed @ CHR 0x00 # w @ CHR 0x00 # format_rfc3339 ?z a)"
  have s: "start = a" "a \<le> now" "now < b" and x: "scheduled = a + uint ?x mod (b - a)"
    using assms w ab by (auto simp: speedWindowSchedule_def split: if_splits)
  have sched: "a \<le> scheduled" "scheduled < b" 
    using pos_mod_sign[of "b - a" "uint ?x"] pos_mod_bound[of "b - a" "uint ?x"] s(2,3) unfolding x by linarith+
  have "\<exists>d. a = d * Day + s * Minute - off \<and> b = d * Day + (if e < s then e + 1440 else e) * Minute - off"
  proof (cases "e < s")
    case False
    then show ?thesis using ab by (auto simp: window_span_def localClock_fixed)
  next
    case True
    show ?thesis
    proof (cases "now < localClock ?z now e")
      case True
      then have "a = localClock ?z (now + (- 1) * Day) s" "b = localClock ?z now e"
        using ab \<open>e < s\<close> by (auto simp: window_span_def)
      then show ?thesis using \<open>e < s\<close> local_day_add[of off now "- 1"]
        by (intro exI[of _ "local_day ?z now - 1"]) (simp add: localClock_fixed algebra_simps)
    next
      case False
      then show ?thesis using ab \<open>e < s\<close> by (auto simp: window_span_def localClock_fixed)
    qed
  qed
  then obtain d where d: "a = d * Day + s * Minute - off" "b = d * Day + (if e < s then e + 1440 else e) * Minute - off" by blast
  have "inside_hours s e (local_minute ?z t)" if "a \<le> t" "t < b" for t
    using between_window[OF w] that d by simp
  then show ?thesis using w s sched by blast
qed

lemma window_due_allowed:
  assumes "SpeedWindowDue (\<lambda>_. off) digest now prev windows seed"
  shows "allowed_minute windows (local_minute (\<lambda>_. off) now)"
proof -
  obtain w scheduled start where "w \<in> set windows" "speedWindowSchedule (\<lambda>_. off) digest now w seed = Some (scheduled, start)"
    using assms by (auto simp: SpeedWindowDue_def list_ex_iff split: option.splits)
  then show ?thesis using schedule_in_window[of off digest now w seed scheduled start]
    by (auto simp: allowed_minute_def list_ex_iff intro!: bexI[of _ w])
qed

section \<open>The instants of a cadence\<close>

lemma instant_at_mem:
  "instant_at offset is = Some t \<Longrightarrow> 0 \<le> offset \<Longrightarrow> \<exists>i\<in>set is. fst i \<le> t \<and> t < snd i"
  by (induction offset "is" rule: instant_at.induct) (auto split: if_splits)

lemma instant_at_total: "0 \<le> offset \<Longrightarrow> offset < total_length is \<Longrightarrow> \<exists>t. instant_at offset is = Some t"
  by (induction offset "is" rule: instant_at.induct) (auto simp: total_length_def)

lemma slot_interval_mem:
  assumes "i \<in> set (slot_interval zone a b base w)"
  shows "\<exists>s e. window_minutes w = Some (s, e) \<and> a \<le> fst i \<and> snd i \<le> b
    \<and> localClock zone base s \<le> fst i \<and> snd i \<le> (if e < s then localClock zone base (e + 1440) else localClock zone base e)"
proof -
  obtain s e where "window_minutes w = Some (s, e)" using assms by (cases "window_minutes w") (auto simp: slot_interval_def)
  then show ?thesis using assms
    by (intro exI[of _ s] exI[of _ e]) (cases "e < s"; auto simp: slot_interval_def Let_def split: if_splits)
qed

lemma cadenceSchedule_mem:
  assumes "cadenceSchedule zone digest a b windows seed = Some t"
  shows "\<exists>i\<in>set (slot_intervals zone a b windows). fst i \<le> t \<and> t < snd i"
proof -
  let ?is = "slot_intervals zone a b windows"
  let ?x = "digest (seed @ CHR 0x00 # ''cadence'' @ CHR 0x00 # format_rfc3339 zone a)"
  have pos: "0 < total_length ?is" and t: "Some t = (case instant_at (uint ?x mod total_length ?is) ?is of
      Some t \<Rightarrow> Some t | None \<Rightarrow> Some (fst (last ?is)))"
    using assms by (simp_all add: cadenceSchedule_def Let_def split: if_splits)
  have "uint ?x mod total_length ?is < total_length ?is" "0 \<le> uint ?x mod total_length ?is" using pos by simp_all
  then obtain t' where t': "instant_at (uint ?x mod total_length ?is) ?is = Some t'" using instant_at_total by blast
  then show ?thesis using t instant_at_mem[OF t'] pos by simp
qed

lemma cadenceSchedule_slot:
  "cadenceSchedule zone digest a b windows seed = Some t \<Longrightarrow> a \<le> t \<and> t < b"
  using cadenceSchedule_mem[of zone digest a b windows seed t]
  by (fastforce simp: slot_intervals_def dest: slot_interval_mem)

lemma cadenceSchedule_allowed:
  assumes "cadenceSchedule (\<lambda>_. off) digest a b windows seed = Some t"
  shows "allowed_minute windows (local_minute (\<lambda>_. off) t)"
proof -
  obtain i base w where i: "i \<in> set (slot_interval (\<lambda>_. off) a b base w)" "w \<in> set windows" "fst i \<le> t" "t < snd i"
    using cadenceSchedule_mem[OF assms] by (auto simp: slot_intervals_def)
  obtain s e where w: "window_minutes w = Some (s, e)" "localClock (\<lambda>_. off) base s \<le> fst i"
    "snd i \<le> (if e < s then localClock (\<lambda>_. off) base (e + 1440) else localClock (\<lambda>_. off) base e)"
    using slot_interval_mem[OF i(1)] by blast
  have "inside_hours s e (local_minute (\<lambda>_. off) t)"
    using i(3,4) w(2,3) by (intro between_window[OF w(1), of "local_day (\<lambda>_. off) base"])
      (auto simp: localClock_fixed split: if_splits)
  then show ?thesis using i(2) w(1) by (force simp: allowed_minute_def list_ex_iff)
qed

text \<open>
  (C23) A cadence runs once in a slot. Once a test was due and one has run since, no later moment of
  the same slot finds it due again, in any time zone, whatever the digest and the windows: a test
  recorded at or after the due moment settles the slot.
\<close>

theorem cadence_once_per_slot:
  assumes "0 < cadence" "SpeedProfileDue zone digest now prev windows cadence seed" "now \<le> done_at"
    "cadenceSlot zone later cadence = cadenceSlot zone now cadence"
  shows "\<not> SpeedProfileDue zone digest later done_at windows cadence seed"
proof -
  obtain a b where ab: "cadenceSlot zone now cadence = (a, b)" by fastforce
  obtain t where t: "cadenceSchedule zone digest a b windows seed = Some t" "t \<le> now"
    using assms(1,2) ab by (auto simp: SpeedProfileDue_def split: option.splits)
  then have "\<not> done_at < a" using cadenceSchedule_slot[OF t(1)] assms(3) by linarith
  then show ?thesis using assms(1,4) ab t(1) by (auto simp: SpeedProfileDue_def split: option.splits)
qed

lemma earlier_cases: "earlier nx scheduled = nx \<or> earlier nx scheduled = scheduled"
  by (simp add: earlier_def)

lemma fold_slots:
  assumes "fold (consider_slot zone digest now prev windows seed) slots nx = r" "r \<noteq> nx"
  shows "\<exists>a b. (a, b) \<in> set slots \<and> cadenceSchedule zone digest a b windows seed = Some r \<and> now \<le> r \<and> prev < a"
  using assms
proof (induction slots arbitrary: nx)
  case (Cons slot slots)
  let ?n = "consider_slot zone digest now prev windows seed slot nx"
  show ?case
  proof (cases "r = ?n")
    case False
    then show ?thesis using Cons.IH[of ?n] Cons.prems by auto
  next
    case True
    then obtain t where "cadenceSchedule zone digest (fst slot) (snd slot) windows seed = Some t" "now \<le> t" "prev < fst slot" "r = t"
      using Cons.prems(2) earlier_cases[of nx] by (auto simp: consider_slot_def split: option.splits if_splits)
    then show ?thesis by (intro exI[of _ "fst slot"] exI[of _ "snd slot"]) simp
  qed
qed simp

text \<open>
  The next test announced keeps the quiet hours. Unless the test is due now, the time
  \<open>NextSpeedProfile\<close> names is not in the past, lies in one of the allowed windows of the local
  day and in a slot the last test has not settled (in a zone of fixed offset; the zero time stands
  for no test at all).
\<close>

theorem next_test_allowed:
  assumes "0 < cadence" "\<not> SpeedProfileDue (\<lambda>_. off) digest now prev windows cadence seed"
    "NextSpeedProfile (\<lambda>_. off) digest now prev windows cadence seed = nx" "nx \<noteq> zero_time"
  shows "now \<le> nx \<and> allowed_minute windows (local_minute (\<lambda>_. off) nx)
    \<and> (\<exists>a b. (a, b) \<in> set (coming_slots (\<lambda>_. off) now (slot_minutes cadence)) \<and> prev < a \<and> a \<le> nx \<and> nx < b)"
proof -
  have "fold (consider_slot (\<lambda>_. off) digest now prev windows seed) (coming_slots (\<lambda>_. off) now (slot_minutes cadence)) zero_time = nx"
    using assms(1-3) by (simp add: NextSpeedProfile_def)
  from fold_slots[OF this assms(4)] obtain a b where
    s: "(a, b) \<in> set (coming_slots (\<lambda>_. off) now (slot_minutes cadence))" "cadenceSchedule (\<lambda>_. off) digest a b windows seed = Some nx"
    "now \<le> nx" "prev < a" by blast
  then show ?thesis using cadenceSchedule_allowed[OF s(2)] cadenceSchedule_slot[OF s(2)] by blast
qed

section \<open>Quiet hours\<close>

lemma night_window [simp]: "window_minutes ''01:00-05:00'' = Some (60, 300)"
  by (simp add: window_minutes_def clockMinutes_def atoi_def parse_digits_def is_digit_def)

lemma local_day_at:
  assumes "0 \<le> x" "x < Day"
  shows "local_day (\<lambda>_. off) (d * Day + x - off) = d" "local_minute (\<lambda>_. off) (d * Day + x - off) = x div Minute"
  using assms by (simp_all add: local_day_def local_minute_def local_time_def add.commute mod_pos_pos_trivial)

lemma daily_slot:
  assumes "0 \<le> x" "x < Day"
  shows "cadenceSlot (\<lambda>_. off) (d * Day + x - off) 1440 = (d * Day - off, d * Day + Day - off)"
proof -
  have "x div Minute div 1440 = 0" using assms by (simp add: div_pos_pos_trivial zdiv_zmult2_eq[symmetric])
  then show ?thesis using local_day_at[OF assms, of off d] by (simp add: cadenceSlot_def slot_minutes_def Let_def localClock_fixed)
qed

lemma day_start: "local_day (\<lambda>_. off) (d * Day - off) = d"
  using local_day_at(1)[of 0 off d] by simp

lemma night_interval:
  "slot_interval (\<lambda>_. off) a b (d * Day - off) ''01:00-05:00'' =
     (let start = max (d * Day + 60 * Minute - off) a; end' = min (d * Day + 300 * Minute - off) b
      in if start < end' then [(start, end')] else [])"
  by (simp add: slot_interval_def localClock_fixed day_start)

lemma night_intervals:
  "slot_intervals (\<lambda>_. off) (d * Day - off) (d * Day + Day - off) [''01:00-05:00'']
     = [(d * Day + 60 * Minute - off, d * Day + 300 * Minute - off)]"
proof -
  have base: "AddDate (\<lambda>_. off) (localClock (\<lambda>_. off) (d * Day - off) 0) k = (d + k) * Day - off" for k
    by (simp add: localClock_fixed day_start algebra_simps)
  show ?thesis unfolding slot_intervals_def base
    by (simp only: list.map concat.simps night_interval append_Nil append_Nil2) (simp add: Let_def algebra_simps)
qed

lemma night_schedule:
  "cadenceSchedule (\<lambda>_. off) (\<lambda>_. 7) (d * Day - off) (d * Day + Day - off) [''01:00-05:00''] seed
     = Some (d * Day + 60 * Minute + 7 - off)"
  unfolding cadenceSchedule_def night_intervals by (simp add: total_length_def)

text \<open>
  Where the quiet hours are not kept. With a cadence, only the random instant lies in an
  allowed window; the test stays due until the end of the slot. With one slot a day and the single
  window from 01:00 to 05:00, a sensor whose last test was before today is due at every moment from
  05:00 to midnight, whatever its identity and digest, although no moment of that time is allowed.
\<close>

theorem cadence_escapes_window:
  assumes "5 * Hour \<le> x" "x < 24 * Hour" "prev < d * Day - off"
  shows "SpeedProfileDue (\<lambda>_. off) digest (d * Day + x - off) prev [''01:00-05:00''] 1440 seed
    \<and> \<not> allowed_minute [''01:00-05:00''] (local_minute (\<lambda>_. off) (d * Day + x - off))"
proof -
  let ?w = "[''01:00-05:00'']" and ?a = "d * Day - off" and ?b = "d * Day + Day - off"
  have x: "0 \<le> x" "x < Day" using assms by simp_all
  have "total_length (slot_intervals (\<lambda>_. off) ?a ?b ?w) = 240 * Minute"
    unfolding night_intervals by (simp add: total_length_def)
  then have "\<exists>t. cadenceSchedule (\<lambda>_. off) digest ?a ?b ?w seed = Some t"
    by (simp add: cadenceSchedule_def Let_def split: option.split)
  then obtain t where t: "cadenceSchedule (\<lambda>_. off) digest ?a ?b ?w seed = Some t" by blast
  have "t < d * Day + 300 * Minute - off" using cadenceSchedule_mem[OF t] unfolding night_intervals by simp
  then have "SpeedProfileDue (\<lambda>_. off) digest (d * Day + x - off) prev ?w 1440 seed"
    using t assms unfolding SpeedProfileDue_def daily_slot[OF x] by simp
  moreover have "300 \<le> x div Minute" using assms(1) by simp
  ultimately show ?thesis by (simp add: local_day_at(2)[OF x] allowed_minute_def inside_hours_def)
qed

text \<open>At two in the afternoon, on a sensor in UTC.\<close>

theorem cadence_escapes_window_witness:
  "SpeedProfileDue (\<lambda>_. 0) (\<lambda>_. 99) (20000 * Day + 14 * Hour) zero_time [''01:00-05:00''] 1440 ''sensor:household''
    \<and> \<not> allowed_minute [''01:00-05:00''] (local_minute (\<lambda>_. 0) (20000 * Day + 14 * Hour))"
proof -
  have "zero_time < 20000 * Day - 0" by (simp add: zero_time_def)
  from cadence_escapes_window[OF _ _ this, of "14 * Hour" "\<lambda>_. 99" "''sensor:household''"] show ?thesis by simp
qed

theorem cadence_once_per_slot_witness:
  "\<not> SpeedProfileDue (\<lambda>_. 0) (\<lambda>_. 7) (20000 * Day + 15 * Hour) (20000 * Day + 14 * Hour) [''01:00-05:00''] 1440 ''s''"
proof (rule cadence_once_per_slot)
  show "SpeedProfileDue (\<lambda>_. 0) (\<lambda>_. 7) (20000 * Day + 14 * Hour) zero_time [''01:00-05:00''] 1440 ''s''"
    using night_schedule[of 0 20000 "''s''"] daily_slot[of "14 * Hour" 0 20000] by (simp add: SpeedProfileDue_def zero_time_def)
  show "cadenceSlot (\<lambda>_. 0) (20000 * Day + 15 * Hour) 1440 = cadenceSlot (\<lambda>_. 0) (20000 * Day + 14 * Hour) 1440"
    using daily_slot[of "14 * Hour" 0 20000] daily_slot[of "15 * Hour" 0 20000] by simp
qed simp_all

lemma daily_slots:
  assumes "0 \<le> x" "x < Day"
  shows "coming_slots (\<lambda>_. off) (d * Day + x - off) 1440 =
    map (\<lambda>k. ((d + k) * Day - off, (d + k) * Day + Day - off)) [-1, 0, 1, 2, 3]"
proof -
  have "AddDate (\<lambda>_. off) (localClock (\<lambda>_. off) (d * Day + x - off) 0) k = (d + k) * Day - off" for k
    unfolding localClock_fixed local_day_at[OF assms] by (simp add: algebra_simps)
  moreover have "localClock (\<lambda>_. off) ((d + k) * Day - off) m = (d + k) * Day + m * Minute - off" for k m
    by (simp only: localClock_fixed day_start)
  moreover have "slot_starts 1440 = [0]" by (simp add: slot_starts_def)
  ultimately show ?thesis by (simp only: coming_slots_def Let_def list.map) simp
qed

theorem next_test_allowed_witness:
  "NextSpeedProfile (\<lambda>_. 0) (\<lambda>_. 7) (20000 * Day + 14 * Hour) (20000 * Day + 14 * Hour) [''01:00-05:00''] 1440 ''s''
      = 20001 * Day + Hour + 7
   \<and> allowed_minute [''01:00-05:00''] (local_minute (\<lambda>_. 0) (20001 * Day + Hour + 7))"
proof -
  let ?now = "20000 * Day + 14 * Hour"
  have slots: "coming_slots (\<lambda>_. 0) ?now 1440 = map (\<lambda>k. ((20000 + k) * Day - 0, (20000 + k) * Day + Day - 0)) [-1, 0, 1, 2, 3]"
    using daily_slots[of "14 * Hour" 0 20000] by simp
  have sch: "cadenceSchedule (\<lambda>_. 0) (\<lambda>_. 7) ((20000 + k) * Day - 0) ((20000 + k) * Day + Day - 0) [''01:00-05:00''] ''s''
      = Some ((20000 + k) * Day + 60 * Minute + 7 - 0)" for k by (rule night_schedule)
  have due: "\<not> SpeedProfileDue (\<lambda>_. 0) (\<lambda>_. 7) ?now ?now [''01:00-05:00''] 1440 ''s''"
    using night_schedule[of 0 20000 "''s''"] daily_slot[of "14 * Hour" 0 20000] by (simp add: SpeedProfileDue_def)
  have n: "NextSpeedProfile (\<lambda>_. 0) (\<lambda>_. 7) ?now ?now [''01:00-05:00''] 1440 ''s'' = 20001 * Day + Hour + 7"
    using due slots
    by (simp only: NextSpeedProfile_def slot_minutes_def) (simp add: consider_slot_def sch[of "-1", simplified] sch[of 0, simplified] sch[of 1, simplified] sch[of 2, simplified] sch[of 3, simplified] earlier_def IsZero_def zero_time_def)
  have "(20001 * Day + Hour + 7 :: time) \<noteq> zero_time" by (simp add: zero_time_def)
  then show ?thesis using next_test_allowed[OF _ due n] n by simp
qed

end
