(* ===== verification/Measurement.thy ===== *)
theory Measurement
  imports Sensor_Config
begin

text \<open>
  Measuring (\<open>internal/measurement/measurement.go\<close>): the local link as it goes on the wire, the
  split of a test's data budget, and the conversion of a transport's result into the sensor's own
  evidence. What the operating system reports, the transport (\<open>Run\<close>), the native quality runner and
  random bytes are arguments. The times of scheduled tests are in \<open>Test_Schedule\<close>.
\<close>

section \<open>The link\<close>

record LocalContext =
  xc_InterfaceType :: string
  xc_LinkMbps :: real
  xc_TXLinkMbps :: real
  xc_RXLinkMbps :: real
  xc_RSSIDBm :: real
  xc_NoiseDBm :: real
  xc_SNRDB :: real
  xc_FrequencyMHz :: int
  xc_Channel :: int
  xc_ChannelWidthMHz :: int
  xc_PHY :: string
  xc_Security :: string
  xc_SSID :: string
  xc_Metered :: bool
  xc_OnBattery :: bool
  xc_BatteryPct :: real
  xc_ContextAvailable :: bool
  xc_Gateway :: string
  xc_NetworkIdentity :: string
  xc_PowerAvailable :: bool
  xc_MeteredAvailable :: bool

record Collector =
  co_lastGateway :: string
  co_lastAssociation :: string

definition parseMeteredValue :: "string \<Rightarrow> bool \<times> bool" where
  "parseMeteredValue value =
     (let normalized = trim_suffix (to_lower (trim_space value)) '' (guessed)''
      in if normalized \<in> {''yes'', ''true'', ''fixed'', ''variable'', ''guess-yes''} then (True, True)
         else if normalized \<in> {''no'', ''false'', ''unrestricted'', ''guess-no''} then (False, True)
         else (False, False))"

definition boundedFloat :: "real \<Rightarrow> real \<Rightarrow> real \<Rightarrow> real" where
  "boundedFloat value low high = (if value < low then low else if value > high then high else value)"

definition normalizeInterfaceType :: "string \<Rightarrow> string" where
  "normalizeInterfaceType value =
     (if value \<in> {''wifi'', ''ethernet'', ''cellular'', ''other''} then value else ''unknown'')"

definition association_of :: "LocalContext \<Rightarrow> string" where
  "association_of l = xc_InterfaceType l @ CHR 0x00 # itoa (xc_FrequencyMHz l) @ CHR 0x00 # itoa (xc_Channel l)
     @ CHR 0x00 # xc_PHY l"

definition association_evidence :: "LocalContext \<Rightarrow> bool" where
  "association_evidence l \<longleftrightarrow> xc_ContextAvailable l \<and> xc_InterfaceType l = ''wifi''
     \<and> (xc_FrequencyMHz l > 0 \<or> xc_Channel l > 0 \<or> xc_PHY l \<noteq> '''')"

definition link_availability :: "LocalContext \<Rightarrow> LinkAvailability" where
  "link_availability l = \<lparr>
     la_Interface = (xc_ContextAvailable l \<and> xc_InterfaceType l \<noteq> '''' \<and> xc_InterfaceType l \<noteq> ''unknown''),
     la_LinkRate = (xc_LinkMbps l > 0 \<or> xc_TXLinkMbps l > 0 \<or> xc_RXLinkMbps l > 0),
     la_RSSI = (xc_RSSIDBm l < 0), la_Noise = (xc_NoiseDBm l < 0), la_SNR = (xc_SNRDB l > 0),
     la_Frequency = (xc_FrequencyMHz l > 0), la_Channel = (xc_Channel l > 0), la_ChannelWidth = (xc_ChannelWidthMHz l > 0),
     la_PHY = (xc_PHY l \<noteq> '''' \<and> xc_PHY l \<noteq> ''unknown''), la_Security = (xc_Security l \<noteq> ''''),
     la_Power = xc_PowerAvailable l, la_Metered = xc_MeteredAvailable l, la_Association = association_evidence l,
     la_NetworkIdentity = (xc_NetworkIdentity l \<noteq> ''''), la_FirstHop = (xc_Gateway l \<noteq> '''')\<rparr>"

definition collectLocal :: "LocalContext \<Rightarrow> time \<Rightarrow> Collector \<Rightarrow> Collector \<times> LinkContext" where
  "collectLocal l now c =
     (let changed = (co_lastGateway c \<noteq> '''' \<and> xc_Gateway l \<noteq> '''' \<and> co_lastGateway c \<noteq> xc_Gateway l);
          associationChanged = (association_evidence l \<and> co_lastAssociation c \<noteq> '''' \<and> association_of l \<noteq> co_lastAssociation c)
      in (c\<lparr>co_lastGateway := (if xc_Gateway l \<noteq> '''' then xc_Gateway l else co_lastGateway c),
             co_lastAssociation := (if association_evidence l then association_of l else co_lastAssociation c)\<rparr>,
          \<lparr>lc_Timestamp = Unix now, lc_InterfaceType = normalizeInterfaceType (xc_InterfaceType l),
           lc_LinkMbps = boundedFloat (xc_LinkMbps l) 0 100000, lc_TXLinkMbps = boundedFloat (xc_TXLinkMbps l) 0 100000,
           lc_RXLinkMbps = boundedFloat (xc_RXLinkMbps l) 0 100000, lc_RSSIDBm = boundedFloat (xc_RSSIDBm l) (- 150) 0,
           lc_NoiseDBm = boundedFloat (xc_NoiseDBm l) (- 150) 0, lc_SNRDB = boundedFloat (xc_SNRDB l) 0 150,
           lc_FrequencyMHz = min (max (xc_FrequencyMHz l) 0) 100000, lc_Channel = min (max (xc_Channel l) 0) 10000,
           lc_ChannelWidthMHz = min (max (xc_ChannelWidthMHz l) 0) 1000,
           lc_PHY = Pulse_Prelude.truncate (xc_PHY l) 64, lc_Security = Pulse_Prelude.truncate (xc_Security l) 64, lc_SSID = Pulse_Prelude.truncate (xc_SSID l) 64,
           lc_Metered = xc_Metered l, lc_OnBattery = xc_OnBattery l, lc_BatteryPct = boundedFloat (xc_BatteryPct l) 0 100,
           lc_GatewayChanged = changed, lc_ContextAvailable = xc_ContextAvailable l,
           lc_AssociationChanged = associationChanged, lc_NetworkID = '''', lc_FirstHopID = '''',
           lc_Availability = link_availability l,
           lc_RawNetworkIdentity = xc_NetworkIdentity l, lc_RawFirstHop = xc_Gateway l\<rparr>))"

definition unknown_context :: LocalContext where
  "unknown_context = \<lparr>xc_InterfaceType = ''unknown'', xc_LinkMbps = 0, xc_TXLinkMbps = 0, xc_RXLinkMbps = 0, xc_RSSIDBm = 0,
     xc_NoiseDBm = 0, xc_SNRDB = 0, xc_FrequencyMHz = 0, xc_Channel = 0, xc_ChannelWidthMHz = 0, xc_PHY = '''',
     xc_Security = '''', xc_SSID = '''', xc_Metered = False, xc_OnBattery = False, xc_BatteryPct = 0,
     xc_ContextAvailable = False, xc_Gateway = '''', xc_NetworkIdentity = '''', xc_PowerAvailable = False,
     xc_MeteredAvailable = False\<rparr>"

definition Collect :: "LocalContext option \<Rightarrow> time \<Rightarrow> Collector \<Rightarrow> Collector \<times> LinkContext" where
  "Collect local now c = collectLocal (case local of Some l \<Rightarrow> l | None \<Rightarrow> unknown_context) now c"

text \<open>The rate between two readings of the interface counters, \<open>elapsed\<close> nanoseconds apart.\<close>

definition MeasureCrossTraffic :: "string + u64 \<Rightarrow> string + u64 \<Rightarrow> bool \<Rightarrow> duration \<Rightarrow> string + real" where
  "MeasureCrossTraffic before after cancelled elapsed =
     (case before of Inl e \<Rightarrow> Inl e
      | Inr b \<Rightarrow> if cancelled then Inl ''context canceled''
        else (case after of Inl e \<Rightarrow> Inl e
          | Inr a \<Rightarrow> if a < b then Inl ''interface byte counter moved backwards''
            else let seconds = real_of_int elapsed / real_of_int Second
                 in if seconds \<le> 0 then Inl ''invalid traffic sample interval''
                    else Inr (real (unat (a - b)) * 8 / seconds / 1000000)))"

section \<open>The metered cache\<close>

text \<open>
  Finding out whether a connection is metered starts a process, so \<open>metered_cache.go\<close> keeps the last
  answer for five minutes per association. \<open>fetch\<close> is the answer such a process would give now.
\<close>

record MeteredCache =
  mc_key :: string
  mc_fetched :: time
  mc_metered :: bool
  mc_available :: bool

abbreviation (input) meteredRefreshInterval :: duration where "meteredRefreshInterval \<equiv> 5 * Minute"

definition cachedMetered :: "time \<Rightarrow> string \<Rightarrow> bool \<times> bool \<Rightarrow> MeteredCache \<Rightarrow> MeteredCache \<times> (bool \<times> bool)" where
  "cachedMetered now key fetch m =
     (if mc_key m = key \<and> \<not> IsZero (mc_fetched m) \<and> now - mc_fetched m < meteredRefreshInterval
      then (m, (mc_metered m, mc_available m))
      else (\<lparr>mc_key = key, mc_fetched = now, mc_metered = fst fetch, mc_available = snd fetch\<rparr>, fetch))"

section \<open>The transport's result\<close>

record DiagThroughput =
  dt_BytesTransferred :: u64
  dt_DurationMS :: u32
  dt_ThroughputMbps :: real
  dt_CapHit :: bool
  dt_TTFBMS :: u32
  dt_Error :: string

record DiagLatency =
  dl_MinMS :: real
  dl_AvgMS :: real
  dl_MaxMS :: real
  dl_JitterMS :: real
  dl_PacketLossPct :: real
  dl_PacketLossValid :: bool
  dl_ProbesSent :: u32
  dl_LoadedAvgMS :: real
  dl_Target :: string
  dl_Error :: string

record DiagSummary =
  ds_Count :: u32
  ds_MinMS :: real
  ds_P5MS :: real
  ds_P50MS :: real
  ds_P90MS :: real
  ds_P95MS :: real
  ds_P99MS :: real
  ds_MaxMS :: real
  ds_JitterIQRMS :: real
  ds_JitterMeanDeltaMS :: real
  ds_PacketLossPct :: real
  ds_PacketLossValid :: bool
  ds_Error :: string

record DiagResponsiveness =
  dr_Baseline :: DiagSummary
  dr_DownloadLoaded :: DiagSummary
  dr_UploadLoaded :: DiagSummary
  dr_BidirectionalLoaded :: DiagSummary
  dr_Cooldown :: DiagSummary
  dr_DownloadBloatP90MS :: real
  dr_UploadBloatP90MS :: real
  dr_BidirectionalBloatP90MS :: real
  dr_DownloadGrade :: string
  dr_UploadGrade :: string
  dr_BidirectionalGrade :: string
  dr_OverallGrade :: string
  dr_PrimaryDriver :: string
  dr_ConfidenceLevel :: string
  dr_ConfidenceReasons :: "string list"
  dr_Profile :: string
  dr_BidirectionalCountsTowardOverall :: bool
  dr_BidirectionalDownload :: DiagThroughput
  dr_BidirectionalUpload :: DiagThroughput
  dr_TotalDownloadBytes :: u64
  dr_TotalUploadBytes :: u64

record DiagResult =
  dg_Download :: DiagThroughput
  dg_Upload :: DiagThroughput
  dg_Latency :: DiagLatency
  dg_EndpointHost :: string
  dg_CPUBusyPct :: real
  dg_DurationMS :: u32
  dg_Responsiveness :: DiagResponsiveness

definition convertThroughput :: "DiagThroughput \<Rightarrow> ThroughputResult" where
  "convertThroughput t =
     (let throughput = boundedFloat (dt_ThroughputMbps t) 0 10000
      in \<lparr>tr_BytesTransferred = min (dt_BytesTransferred t) (2 ^ 30), tr_DurationMS = boundedFloat (real (unat (dt_DurationMS t))) 0 60000,
          tr_ThroughputMbps = throughput, tr_P75Mbps = throughput, tr_CapHit = dt_CapHit t,
          tr_TTFBMS = boundedFloat (real (unat (dt_TTFBMS t))) 0 60000, tr_Error = Pulse_Prelude.truncate (dt_Error t) 512\<rparr>)"

definition convertLatency :: "DiagLatency \<Rightarrow> LatencyResult" where
  "convertLatency l = \<lparr>lr_MinMS = boundedFloat (dl_MinMS l) 0 60000, lr_AvgMS = boundedFloat (dl_AvgMS l) 0 60000,
     lr_MaxMS = boundedFloat (dl_MaxMS l) 0 60000, lr_JitterMS = boundedFloat (dl_JitterMS l) 0 60000,
     lr_PacketLossPct = boundedFloat (dl_PacketLossPct l) 0 100, lr_PacketLossValid = dl_PacketLossValid l,
     lr_ProbesSent = min (dl_ProbesSent l) 1000, lr_LoadedAvgMS = boundedFloat (dl_LoadedAvgMS l) 0 60000,
     lr_Target = Pulse_Prelude.truncate (dl_Target l) 255, lr_Error = Pulse_Prelude.truncate (dl_Error l) 512\<rparr>"

definition recovered_attempts :: "DiagSummary \<Rightarrow> u32" where
  "recovered_attempts s =
     (if ds_PacketLossValid s \<and> ds_PacketLossPct s > 0 \<and> ds_PacketLossPct s < 100
      then word_of_int \<lfloor>min (math_Round (real (unat (ds_Count s)) / (1 - ds_PacketLossPct s / 100))) 1000\<rfloor>
      else ds_Count s)"

definition convertSummary :: "DiagSummary \<Rightarrow> LatencySummary" where
  "convertSummary s = \<lparr>ls_Count = min (ds_Count s) 1000, ls_Attempts = min (recovered_attempts s) 1000,
     ls_MinMS = boundedFloat (ds_MinMS s) 0 60000, ls_P5MS = boundedFloat (ds_P5MS s) 0 60000,
     ls_P50MS = boundedFloat (ds_P50MS s) 0 60000, ls_P90MS = boundedFloat (ds_P90MS s) 0 60000,
     ls_P95MS = boundedFloat (ds_P95MS s) 0 60000, ls_P99MS = boundedFloat (ds_P99MS s) 0 60000,
     ls_MaxMS = boundedFloat (ds_MaxMS s) 0 60000, ls_JitterIQRMS = boundedFloat (ds_JitterIQRMS s) 0 60000,
     ls_JitterMeanDeltaMS = boundedFloat (ds_JitterMeanDeltaMS s) 0 60000,
     ls_PacketLossPct = boundedFloat (ds_PacketLossPct s) 0 100, ls_PacketLossValid = ds_PacketLossValid s,
     ls_Error = Pulse_Prelude.truncate (ds_Error s) 512\<rparr>"

definition grade :: "string \<Rightarrow> string" where
  "grade value = (if value \<in> {''A+'', ''A'', ''B'', ''C'', ''D'', ''F''} then value else '''')"

definition confidence :: "string \<Rightarrow> string" where
  "confidence value = (if value \<in> {''high'', ''medium'', ''low''} then value else ''low'')"

definition speedProfile :: "string \<Rightarrow> string" where
  "speedProfile value = (if value \<in> {''standard'', ''scenario''} then value else ''quick'')"

definition wirePrimaryDriver :: "string \<Rightarrow> string" where
  "wirePrimaryDriver value = (if value = ''upload_bufferbloat'' then ''upload''
     else if value = ''download_bufferbloat'' then ''download'' else '''')"

definition boundedReasons :: "string list \<Rightarrow> string list" where
  "boundedReasons values = map (\<lambda>v. Pulse_Prelude.truncate v 128) (if length values > 32 then take 32 values else values)"

definition minConfidence :: "string \<Rightarrow> string \<Rightarrow> string" where
  "minConfidence left right =
     (let rank = (\<lambda>v. if v = ''medium'' then 1 else if v = ''low'' then 2 else (0 :: int))
      in if rank right > rank left then right else left)"

definition representativeThroughput :: "ThroughputResult \<Rightarrow> real" where
  "representativeThroughput r = (if tr_P75Mbps r > 0 then tr_P75Mbps r else tr_ThroughputMbps r)"

definition throughputAvailable :: "ThroughputResult \<Rightarrow> bool" where
  "throughputAvailable r \<longleftrightarrow> tr_BytesTransferred r > 0 \<and> representativeThroughput r > 0"

section \<open>Evidence\<close>

definition phaseMetrics :: "LatencySummary option \<Rightarrow> PhaseMetrics" where
  "phaseMetrics summary =
     (case summary of None \<Rightarrow> empty_phase
      | Some s \<Rightarrow> \<lparr>pm_P95LatencyMS = ls_P95MS s, pm_LossPct = ls_PacketLossPct s, pm_LatencySamples = uint (ls_Count s),
          pm_LossAvailable = ls_PacketLossValid s\<rparr>)"

definition empty_path :: PathLatency where
  "empty_path = \<lparr>py_Samples = 0, py_Successes = 0, py_P50MS = 0, py_P95MS = 0, py_LossPct = 0\<rparr>"

definition pathLatency :: "LatencySummary option \<Rightarrow> PathLatency" where
  "pathLatency summary =
     (case summary of None \<Rightarrow> empty_path
      | Some s \<Rightarrow>
          let samples = (if ls_Attempts s = 0 then uint (ls_Count s) else uint (ls_Attempts s));
              successes = (if ls_PacketLossValid s
                then \<lfloor>math_Round (real_of_int samples * (1 - ls_PacketLossPct s / 100))\<rfloor> else samples)
          in \<lparr>py_Samples = samples, py_Successes = max successes 0, py_P50MS = ls_P50MS s, py_P95MS = ls_P95MS s,
              py_LossPct = ls_PacketLossPct s\<rparr>)"

definition latencyCount :: "LatencySummary option \<Rightarrow> int" where
  "latencyCount summary = (case summary of None \<Rightarrow> 0 | Some s \<Rightarrow> uint (ls_Count s))"

definition success_ratio :: "LatencySummary \<Rightarrow> real" where
  "success_ratio s = (if ls_PacketLossValid s then max 0 (1 - ls_PacketLossPct s / 100) else 1)"

definition probeSuccessRatio :: "SpeedTest \<Rightarrow> real" where
  "probeSuccessRatio t =
     (let r = st_Responsiveness t;
          counted = filter (\<lambda>s. ls_Count s \<noteq> 0) ([rs_Baseline r, rs_DownloadLoaded r, rs_UploadLoaded r]
            @ (case rs_BidirectionalLoaded r of None \<Rightarrow> [] | Some s \<Rightarrow> [s]))
      in if counted = [] then 0 else (\<Sum>s\<leftarrow>counted. success_ratio s) / real (length counted))"

text \<open>A duration is a non-negative \<open>float64\<close> here; converting it to \<open>int64\<close> drops the fraction.\<close>

definition aggregatePhaseEvidence :: "ThroughputResult \<Rightarrow> int \<Rightarrow> int \<Rightarrow> int \<Rightarrow> PhaseEvidence" where
  "aggregatePhaseEvidence r minimum maximum streams =
     (let duration = \<lfloor>tr_DurationMS r\<rfloor>;
          bucket = \<lparr>bk_Index = 0, bk_StartMS = 0, bk_DurationMS = duration, bk_Bytes = tr_BytesTransferred r, bk_Samples = 1,
             bk_StreamCount = streams, bk_Complete = (duration \<ge> 900), bk_ThroughputMbps = 0\<rparr>
      in \<lparr>pe_MinDurationMS = minimum, pe_MaxDurationMS = maximum, pe_StartMS = 0, pe_EndMS = duration, pe_Buckets = [bucket],
          pe_StableRegion = DetectStableRegion [bucket] DefaultStabilityPolicy\<rparr>)"

definition zero_throughput :: ThroughputResult where
  "zero_throughput = \<lparr>tr_BytesTransferred = 0, tr_DurationMS = 0, tr_ThroughputMbps = 0, tr_P75Mbps = 0, tr_CapHit = False,
     tr_TTFBMS = 0, tr_Error = ''''\<rparr>"

definition phaseEvidence :: "SpeedTest \<Rightarrow> SpeedProfileConfig \<Rightarrow> (string \<times> PhaseEvidence) list" where
  "phaseEvidence t profile =
     (let minimum = pc_MinDurationSeconds profile * 1000; maximum = pc_MaxDurationSeconds profile * 1000;
          streams = pc_MaxConcurrentRequests profile
      in [(''download'', aggregatePhaseEvidence (st_Download t) minimum maximum streams),
          (''upload'', aggregatePhaseEvidence (st_Upload t) minimum maximum streams),
          (''bidirectional'',
            (case (rs_BidirectionalDownload (st_Responsiveness t), rs_BidirectionalUpload (st_Responsiveness t)) of
               (Some d, Some u) \<Rightarrow> aggregatePhaseEvidence
                 (zero_throughput\<lparr>tr_BytesTransferred := tr_BytesTransferred d + tr_BytesTransferred u,
                    tr_DurationMS := max (tr_DurationMS d) (tr_DurationMS u)\<rparr>) minimum maximum (min streams 4)
             | _ \<Rightarrow> \<lparr>pe_MinDurationMS = minimum, pe_MaxDurationMS = maximum, pe_StartMS = 0, pe_EndMS = 0, pe_Buckets = [],
                      pe_StableRegion = empty_region\<lparr>sr_Reason := ''phase_unavailable''\<rparr>\<rparr>))])"

definition phase_stable :: "SpeedTest \<Rightarrow> string \<Rightarrow> bool" where
  "phase_stable t phase =
     (case map_of (st_Phases t) phase of Some e \<Rightarrow> sr_Stable (pe_StableRegion e) | None \<Rightarrow> False)"

text \<open>\<open>newMeasurementID\<close>: \<open>hex\<close> encodes the random bytes, or the clock stands in for them.\<close>

definition newMeasurementID :: "string option \<Rightarrow> time \<Rightarrow> string" where
  "newMeasurementID hex now = ''m-'' @ (case hex of Some h \<Rightarrow> h | None \<Rightarrow> itoa now)"

section \<open>Conversion\<close>

definition convertResponsiveness :: "DiagResponsiveness \<Rightarrow> Responsiveness" where
  "convertResponsiveness d =
     (let full = (dr_Profile d \<noteq> ''quick'') in
      \<lparr>rs_Baseline = convertSummary (dr_Baseline d), rs_DownloadLoaded = convertSummary (dr_DownloadLoaded d),
       rs_UploadLoaded = convertSummary (dr_UploadLoaded d),
       rs_BidirectionalLoaded = (if full then Some (convertSummary (dr_BidirectionalLoaded d)) else None),
       rs_Cooldown = (if full then Some (convertSummary (dr_Cooldown d)) else None),
       rs_DownloadBloatP90MS = boundedFloat (dr_DownloadBloatP90MS d) 0 60000,
       rs_UploadBloatP90MS = boundedFloat (dr_UploadBloatP90MS d) 0 60000,
       rs_BidirectionalBloatP90MS = boundedFloat (dr_BidirectionalBloatP90MS d) 0 60000,
       rs_DownloadGrade = grade (dr_DownloadGrade d), rs_UploadGrade = grade (dr_UploadGrade d),
       rs_BidirectionalGrade = grade (dr_BidirectionalGrade d), rs_OverallGrade = grade (dr_OverallGrade d),
       rs_PrimaryDriver = wirePrimaryDriver (dr_PrimaryDriver d), rs_ConfidenceLevel = confidence (dr_ConfidenceLevel d),
       rs_ConfidenceReasons = boundedReasons (dr_ConfidenceReasons d), rs_Profile = speedProfile (dr_Profile d),
       rs_BidirectionalCountsTowardOverall = dr_BidirectionalCountsTowardOverall d,
       rs_BidirectionalDownload = (if full then Some (convertThroughput (dr_BidirectionalDownload d)) else None),
       rs_BidirectionalUpload = (if full then Some (convertThroughput (dr_BidirectionalUpload d)) else None),
       rs_TotalDownloadBytes = min (dr_TotalDownloadBytes d) (2 ^ 31), rs_TotalUploadBytes = min (dr_TotalUploadBytes d) (2 ^ 31)\<rparr>)"

definition used_budget :: "ThroughputResult \<Rightarrow> ThroughputResult \<Rightarrow> Responsiveness \<Rightarrow> Budget \<Rightarrow> Budget" where
  "used_budget d u r b =
     (let totals = rs_TotalDownloadBytes r + rs_TotalUploadBytes r;
          used = (if totals = 0 then tr_BytesTransferred d + tr_BytesTransferred u else totals)
      in b\<lparr>bg_UsedBytes := used,
           bg_CapHit := (tr_CapHit d \<or> tr_CapHit u \<or> used \<ge> bg_EffectiveDownloadBytes b + bg_EffectiveUploadBytes b)\<rparr>)"

definition score_input :: "SpeedTest \<Rightarrow> ApplicationInput" where
  "score_input t =
     (let r = st_Responsiveness t in
      \<lparr>ai_Baseline = phaseMetrics (Some (rs_Baseline r)), ai_Download = phaseMetrics (Some (rs_DownloadLoaded r)),
       ai_Upload = phaseMetrics (Some (rs_UploadLoaded r)), ai_Bidirectional = phaseMetrics (rs_BidirectionalLoaded r),
       ai_DownloadP75Mbps = representativeThroughput (st_Download t), ai_UploadP75Mbps = representativeThroughput (st_Upload t),
       ai_DownloadAvailable = throughputAvailable (st_Download t), ai_UploadAvailable = throughputAvailable (st_Upload t)\<rparr>)"

definition confidence_input :: "SpeedTest \<Rightarrow> ConfidenceInput" where
  "confidence_input t =
     (let r = st_Responsiveness t in
      \<lparr>ci_BaselineSamples = uint (ls_Count (rs_Baseline r)),
       ci_PhaseSamples = (\<lambda>p. if p = ''download'' then uint (ls_Count (rs_DownloadLoaded r))
         else if p = ''upload'' then uint (ls_Count (rs_UploadLoaded r))
         else if p = ''bidirectional'' then latencyCount (rs_BidirectionalLoaded r) else 0),
       ci_StablePhases = (\<lambda>p. p \<in> {''download'', ''upload'', ''bidirectional''} \<and> phase_stable t p),
       ci_ProbeSuccessRatio = probeSuccessRatio t, ci_FreshPathSuccessRatio = 0, ci_AgentCPUBusyPct = st_CPUBusyPct t,
       ci_EndpointCV = 0, ci_SourceDisagreementPct = 0, ci_NetworkChanged = False, ci_IPFamilyChanged = False\<rparr>)"

definition convertSpeedResult ::
    "string option \<Rightarrow> time \<Rightarrow> time \<Rightarrow> DiagResult \<Rightarrow> TrafficContext \<Rightarrow> SpeedProfileConfig \<Rightarrow> Budget \<Rightarrow> SpeedTest" where
  "convertSpeedResult hex clock started d traffic profile budget =
     (let download = convertThroughput (dg_Download d); upload = convertThroughput (dg_Upload d);
          response = convertResponsiveness (dg_Responsiveness d);
          out1 = \<lparr>st_MeasurementID = newMeasurementID hex clock, st_Profile = pc_Name profile, st_Timestamp = Unix started,
             st_Download = download, st_Upload = upload, st_Latency = convertLatency (dg_Latency d),
             st_EndpointHost = Pulse_Prelude.truncate (dg_EndpointHost d) 255, st_CPUBusyPct = boundedFloat (dg_CPUBusyPct d) 0 100,
             st_DurationMS = boundedFloat (real (unat (dg_DurationMS d))) 0 300000, st_Responsiveness = response,
             st_TrafficContext = traffic, st_Budget = used_budget download upload response budget, st_Phases = [],
             st_Paths = \<lparr>pr_Persistent = empty_path, pr_Fresh = empty_path\<rparr>,
             st_Experience = \<lparr>ex_Available = False, ex_OverallScore = 0, ex_Rating = '''', ex_Home = [], ex_Additional = []\<rparr>,
             st_ExperienceEligible = pc_CountsTowardExperience profile, st_ExclusionReason = '''',
             st_MeasurementConfidence = \<lparr>cf_Level = '''', cf_Reasons = []\<rparr>, st_Household = None\<rparr>;
          out2 = out1\<lparr>st_Phases := phaseEvidence out1 profile, st_Experience := ScoreApplications (score_input out1),
             st_Paths := \<lparr>pr_Persistent = pathLatency (Some (case rs_BidirectionalLoaded response of
                 Some s \<Rightarrow> s | None \<Rightarrow> rs_DownloadLoaded response)), pr_Fresh = empty_path\<rparr>\<rparr>;
          graded = GradeConfidence (confidence_input out2);
          verdict = (if tc_Contaminated traffic
             then \<lparr>cf_Level = minConfidence (cf_Level graded) ''medium'', cf_Reasons = cf_Reasons graded @ [''cross_traffic_detected'']\<rparr>
             else graded)
      in out2\<lparr>st_MeasurementConfidence := verdict,
           st_Responsiveness := response\<lparr>rs_ConfidenceLevel := cf_Level verdict, rs_ConfidenceReasons := cf_Reasons verdict\<rparr>\<rparr>)"

definition requiredSpeedEvidence :: "SpeedTest \<Rightarrow> string option" where
  "requiredSpeedEvidence t =
     (let r = st_Responsiveness t in
      if tr_Error (st_Download t) \<noteq> '''' then Some (''speed test download phase failed: '' @ tr_Error (st_Download t))
      else if tr_Error (st_Upload t) \<noteq> '''' then Some (''speed test upload phase failed: '' @ tr_Error (st_Upload t))
      else if \<not> throughputAvailable (st_Download t) then Some ''speed test download phase produced no usable throughput''
      else if \<not> throughputAvailable (st_Upload t) then Some ''speed test upload phase produced no usable throughput''
      else if ls_Count (rs_Baseline r) = 0 \<or> ls_Count (rs_DownloadLoaded r) = 0 \<or> ls_Count (rs_UploadLoaded r) = 0
      then Some ''speed test produced incomplete latency evidence'' else None)"

section \<open>Running a test\<close>

text \<open>A nil slice and an empty one are the same list, so only the driver is left to pin.\<close>

definition hardenWire :: "SpeedTest \<Rightarrow> SpeedTest" where
  "hardenWire t =
     (if rs_PrimaryDriver (st_Responsiveness t) \<in> {'''', ''download'', ''upload''} then t
      else t\<lparr>st_Responsiveness := (st_Responsiveness t)\<lparr>rs_PrimaryDriver := ''''\<rparr>\<rparr>)"

text \<open>How the allowance is split between the directions, or why the test cannot run.\<close>

definition split_budget :: "u64 \<Rightarrow> SpeedProfileConfig \<Rightarrow> string + Budget" where
  "split_budget remainingBytes profile =
     (let requestedTotal = pc_MaxDownloadBytes profile + pc_MaxUploadBytes profile;
          effectiveTotal = min requestedTotal remainingBytes;
          downloadBudget = effectiveTotal * pc_MaxDownloadBytes profile div requestedTotal;
          uploadBudget = effectiveTotal - downloadBudget
      in if requestedTotal = 0 then Inl ''speed-test profile has no data budget''
         else if downloadBudget < 512 * 2 ^ 10 \<or> uploadBudget < 256 * 2 ^ 10
         then Inl ''insufficient daily data budget for speed test''
         else Inr \<lparr>bg_RequestedDownloadBytes = pc_MaxDownloadBytes profile, bg_RequestedUploadBytes = pc_MaxUploadBytes profile,
                bg_EffectiveDownloadBytes = downloadBudget, bg_EffectiveUploadBytes = uploadBudget,
                bg_MaxDurationSeconds = pc_MaxDurationSeconds profile, bg_MaxConcurrentRequests = pc_MaxConcurrentRequests profile,
                bg_PredictedBytes = effectiveTotal, bg_UsedBytes = 0, bg_CapHit = False\<rparr>)"

text \<open>
  What runs the transfers: the native quality runner, given the capped profile, or an injected
  transport, given the duration and the two byte caps.
\<close>

datatype runner =
    Native "SpeedProfileConfig \<Rightarrow> TrafficContext \<Rightarrow> HouseholdMix \<Rightarrow> string \<Rightarrow> SpeedTest \<times> string option"
  | Injected "u32 \<Rightarrow> u64 \<Rightarrow> u64 \<Rightarrow> DiagResult"

definition native_result :: "Budget \<Rightarrow> SpeedTest \<Rightarrow> SpeedTest" where
  "native_result budget t =
     (let b = st_Budget t;
          planned = (if bg_PredictedBytes b > 0 then bg_PredictedBytes b else bg_PredictedBytes budget)
      in hardenWire (t\<lparr>st_Budget := budget\<lparr>bg_UsedBytes := bg_UsedBytes b, bg_CapHit := bg_CapHit b, bg_PredictedBytes := planned\<rparr>\<rparr>))"

text \<open>The result, if there is one, and the error; with no result the caller sees the zero value.\<close>

definition RunTest ::
    "runner \<Rightarrow> string option \<Rightarrow> time \<Rightarrow> time \<Rightarrow> TrafficContext \<Rightarrow> u64 \<Rightarrow> SpeedProfileConfig \<Rightarrow> HouseholdMix \<Rightarrow> string
     \<Rightarrow> SpeedTest option \<times> string option" where
  "RunTest run hex clock started traffic remainingBytes profile mix source =
     (if remainingBytes < 2 ^ 20 then (None, Some ''daily data budget exhausted'')
      else if \<not> KnownSpeedProfile (pc_Name profile) then (None, Some ''unknown speed-test profile'')
      else if pc_Name profile = ProfileHousehold \<and> (case run of Injected _ \<Rightarrow> True | Native _ \<Rightarrow> False)
      then (None, Some ''household profile requires the native quality runner'')
      else case split_budget remainingBytes profile of
        Inl e \<Rightarrow> (None, Some e)
      | Inr budget \<Rightarrow>
          (case run of
             Native f \<Rightarrow>
               (case f (profile\<lparr>pc_MaxDownloadBytes := bg_EffectiveDownloadBytes budget,
                          pc_MaxUploadBytes := bg_EffectiveUploadBytes budget\<rparr>) traffic mix source of
                  (t, err) \<Rightarrow> (Some (native_result budget t), err))
           | Injected f \<Rightarrow>
               let d = f (word_of_int (pc_MaxDurationSeconds profile)) (bg_EffectiveDownloadBytes budget) (bg_EffectiveUploadBytes budget);
                   out = convertSpeedResult hex clock started d traffic profile budget
               in (Some out, requiredSpeedEvidence out)))"

section \<open>The split of the allowance\<close>

lemma split_share:
  fixes e D U :: nat
  assumes "e \<le> D + U" "0 < D + U"
  shows "e * D div (D + U) \<le> D" "e * D div (D + U) \<le> e" "e - e * D div (D + U) \<le> U"
proof -
  have "e * D \<le> (D + U) * D" using assms(1) by (rule mult_le_mono1)
  then show "e * D div (D + U) \<le> D" using assms(2) by (metis div_le_mono nonzero_mult_div_cancel_left less_not_refl2)
  have "e * D \<le> (D + U) * e" by (simp add: add_mult_distrib)
  then show "e * D div (D + U) \<le> e" using assms(2) by (metis div_le_mono nonzero_mult_div_cancel_left less_not_refl2)
  show "e - e * D div (D + U) \<le> U"
  proof (cases "e \<le> U")
    case False
    then obtain k where k: "e = U + k" by (metis le_Suc_ex nat_le_linear)
    have "k * U \<le> D * U" using assms(1) k by (intro mult_le_mono1) simp
    then have "k * (D + U) \<le> e * D" by (simp add: k add_mult_distrib add_mult_distrib2 mult.commute)
    then have "k \<le> e * D div (D + U)" using assms(2) by (simp add: less_eq_div_iff_mult_less_eq)
    then show ?thesis using k by simp
  qed simp
qed

lemma unat_mult_u64: "unat a * unat b < 2 ^ 64 \<Longrightarrow> unat (a * b) = unat a * unat b" for a b :: u64
  by (simp add: unat_word_ariths)

lemma unat_min_u64: "unat (min a b) = min (unat a) (unat b)" for a b :: u64
  by (simp add: min_def word_le_nat_alt)

lemma split_budget_shares:
  assumes "split_budget remaining p = Inr b" "unat (pc_MaxDownloadBytes p) \<le> 2 ^ 31" "unat (pc_MaxUploadBytes p) \<le> 2 ^ 31"
  shows "unat (bg_EffectiveDownloadBytes b) + unat (bg_EffectiveUploadBytes b)
       = min (unat (pc_MaxDownloadBytes p) + unat (pc_MaxUploadBytes p)) (unat remaining)
    \<and> bg_EffectiveDownloadBytes b \<le> pc_MaxDownloadBytes p \<and> bg_EffectiveUploadBytes b \<le> pc_MaxUploadBytes p
    \<and> 512 * 2 ^ 10 \<le> bg_EffectiveDownloadBytes b \<and> 256 * 2 ^ 10 \<le> bg_EffectiveUploadBytes b"
proof -
  let ?D = "pc_MaxDownloadBytes p" and ?U = "pc_MaxUploadBytes p"
  let ?eff = "min (?D + ?U) remaining"
  have req: "unat (?D + ?U) = unat ?D + unat ?U" using assms(2,3) by (intro unat_add_u64) simp
  have eff: "unat ?eff = min (unat ?D + unat ?U) (unat remaining)" by (simp add: unat_min_u64 req)
  have b: "bg_EffectiveDownloadBytes b = ?eff * ?D div (?D + ?U)" "bg_EffectiveUploadBytes b = ?eff - ?eff * ?D div (?D + ?U)"
    and ok: "?D + ?U \<noteq> 0" "\<not> ?eff * ?D div (?D + ?U) < 512 * 2 ^ 10" "\<not> ?eff - ?eff * ?D div (?D + ?U) < 256 * 2 ^ 10"
    using assms(1) by (auto simp: split_budget_def Let_def split: if_splits)
  have le: "unat ?eff \<le> unat ?D + unat ?U" using eff by simp
  have pos: "0 < unat ?D + unat ?U" using ok(1) req by (metis gr0I unat_eq_zero)
  have "unat ?eff * unat ?D \<le> (2 ^ 32) * 2 ^ 31" using le assms(2,3) by (intro mult_le_mono) simp_all
  then have "unat (?eff * ?D) = unat ?eff * unat ?D" by (intro unat_mult_u64) simp
  then have down: "unat (?eff * ?D div (?D + ?U)) = unat ?eff * unat ?D div (unat ?D + unat ?U)"
    by (simp add: unat_div req)
  note share = split_share[OF le pos]
  have "?eff * ?D div (?D + ?U) \<le> ?eff" using share(2) down by (simp add: word_le_nat_alt)
  then have up: "unat (?eff - ?eff * ?D div (?D + ?U)) = unat ?eff - unat ?eff * unat ?D div (unat ?D + unat ?U)"
    using down by (simp add: unat_diff_u64)
  show ?thesis unfolding b word_le_nat_alt using down up share eff ok(2,3) by (simp add: word_le_nat_alt not_less)
qed

lemma RunTest_native:
  assumes "RunTest (Native f) hex clock started traffic remaining p mix source = (Some t, err)"
  obtains b t0 where "split_budget remaining p = Inr b" "t = native_result b t0"
    "f (p\<lparr>pc_MaxDownloadBytes := bg_EffectiveDownloadBytes b, pc_MaxUploadBytes := bg_EffectiveUploadBytes b\<rparr>) traffic mix source = (t0, err)"
  using assms by (auto simp: RunTest_def split: if_splits sum.splits prod.splits)

lemma native_result_fields [simp]:
  "bg_EffectiveDownloadBytes (st_Budget (native_result b t)) = bg_EffectiveDownloadBytes b"
  "bg_EffectiveUploadBytes (st_Budget (native_result b t)) = bg_EffectiveUploadBytes b"
  "bg_UsedBytes (st_Budget (native_result b t)) = bg_UsedBytes (st_Budget t)"
  "st_Download (native_result b t) = st_Download t" "st_Upload (native_result b t) = st_Upload t"
  "rs_TotalDownloadBytes (st_Responsiveness (native_result b t)) = rs_TotalDownloadBytes (st_Responsiveness t)"
  "rs_TotalUploadBytes (st_Responsiveness (native_result b t)) = rs_TotalUploadBytes (st_Responsiveness t)"
  by (simp_all add: native_result_def hardenWire_def Let_def)

lemma native_result_driver: "rs_PrimaryDriver (st_Responsiveness (native_result b t)) \<in> {'''', ''download'', ''upload''}"
  by (simp add: native_result_def hardenWire_def Let_def)

text \<open>
  A test is never handed more than its allowance. When a run takes place, the two caps the
  runner gets add up to the smaller of what the profile asks for and what the budget has left, to
  the byte; neither exceeds the profile's own cap for its direction and neither is below the
  smallest useful size; and the result carries exactly these caps, whatever the runner reports.
\<close>

theorem RunTest_caps:
  assumes "RunTest (Native f) hex clock started traffic remaining p mix source = (Some t, err)"
    "unat (pc_MaxDownloadBytes p) \<le> 2 ^ 31" "unat (pc_MaxUploadBytes p) \<le> 2 ^ 31"
  shows "\<exists>down up t0. f (p\<lparr>pc_MaxDownloadBytes := down, pc_MaxUploadBytes := up\<rparr>) traffic mix source = (t0, err)
    \<and> unat down + unat up = min (unat (pc_MaxDownloadBytes p) + unat (pc_MaxUploadBytes p)) (unat remaining)
    \<and> down \<le> pc_MaxDownloadBytes p \<and> up \<le> pc_MaxUploadBytes p \<and> 512 * 2 ^ 10 \<le> down \<and> 256 * 2 ^ 10 \<le> up
    \<and> bg_EffectiveDownloadBytes (st_Budget t) = down \<and> bg_EffectiveUploadBytes (st_Budget t) = up
    \<and> bg_UsedBytes (st_Budget t) = bg_UsedBytes (st_Budget t0)
    \<and> rs_PrimaryDriver (st_Responsiveness t) \<in> {'''', ''download'', ''upload''}"
proof -
  obtain b t0 where r: "split_budget remaining p = Inr b" "t = native_result b t0"
    "f (p\<lparr>pc_MaxDownloadBytes := bg_EffectiveDownloadBytes b, pc_MaxUploadBytes := bg_EffectiveUploadBytes b\<rparr>) traffic mix source = (t0, err)"
    by (rule RunTest_native[OF assms(1)])
  show ?thesis
    using r(3) split_budget_shares[OF r(1) assms(2,3)] native_result_driver[of b t0] unfolding r(2) native_result_fields by blast
qed

section \<open>What goes on the wire\<close>

definition throughput_ok :: "ThroughputResult \<Rightarrow> bool" where
  "throughput_ok r \<longleftrightarrow> tr_BytesTransferred r \<le> 2 ^ 30 \<and> 0 \<le> tr_ThroughputMbps r \<and> tr_ThroughputMbps r \<le> 10000
     \<and> tr_P75Mbps r = tr_ThroughputMbps r \<and> 0 \<le> tr_DurationMS r \<and> tr_DurationMS r \<le> 60000
     \<and> 0 \<le> tr_TTFBMS r \<and> tr_TTFBMS r \<le> 60000 \<and> length (tr_Error r) \<le> 512"

definition summary_ok :: "LatencySummary \<Rightarrow> bool" where
  "summary_ok s \<longleftrightarrow> ls_Count s \<le> ls_Attempts s \<and> ls_Attempts s \<le> 1000
     \<and> (\<forall>x\<in>{ls_MinMS s, ls_P5MS s, ls_P50MS s, ls_P90MS s, ls_P95MS s, ls_P99MS s, ls_MaxMS s, ls_JitterIQRMS s,
            ls_JitterMeanDeltaMS s}. 0 \<le> x \<and> x \<le> 60000)
     \<and> 0 \<le> ls_PacketLossPct s \<and> ls_PacketLossPct s \<le> 100 \<and> length (ls_Error s) \<le> 512"

lemma boundedFloat_range [simp]:
  "low \<le> high \<Longrightarrow> low \<le> boundedFloat v low high" "low \<le> high \<Longrightarrow> boundedFloat v low high \<le> high"
  by (simp_all add: boundedFloat_def)

lemma length_truncate_le [simp]: "length (Pulse_Prelude.truncate s n) \<le> n"
  by (rule length_truncate)

lemma convertThroughput_ok [simp]: "throughput_ok (convertThroughput t)"
  by (simp add: throughput_ok_def convertThroughput_def Let_def)

lemma recovered_attempts_ge: "min (ds_Count s) 1000 \<le> min (recovered_attempts s) 1000"
proof (cases "ds_PacketLossValid s \<and> ds_PacketLossPct s > 0 \<and> ds_PacketLossPct s < 100")
  case False
  then show ?thesis by (auto simp: recovered_attempts_def)
next
  case True
  obtain n where n: "unat (ds_Count s) = n" by blast
  let ?p = "1 - ds_PacketLossPct s / 100"
  have "real n * ?p \<le> real n * 1"
    by (rule mult_left_mono[OF _ of_nat_0_le_iff]) (use True in simp)
  then have "real n \<le> real n / ?p" using True by (simp add: pos_le_divide_eq)
  then have "math_Round (real n) \<le> math_Round (real n / ?p)" by (rule math_Round_mono)
  then have "min (real n) 1000 \<le> min (math_Round (real n / ?p)) 1000" using math_Round_of_int[of "int n"] by simp
  then have "\<lfloor>min (real n) 1000\<rfloor> \<le> \<lfloor>min (math_Round (real n / ?p)) 1000\<rfloor>" (is "_ \<le> ?a") by (rule floor_mono)
  moreover have "\<lfloor>min (real n) 1000\<rfloor> = int (min n 1000)" by (simp add: min_def)
  moreover have "?a \<le> \<lfloor>1000 :: real\<rfloor>" by (intro floor_mono) simp
  ultimately have a: "int (min n 1000) \<le> ?a" "?a \<le> 1000" by simp_all
  have "recovered_attempts s = word_of_int ?a"
    unfolding recovered_attempts_def n by (simp only: True simp_thms if_True)
  moreover have "uint (word_of_int a :: u32) = a" if "0 \<le> a" "a \<le> 1000" for a
    using that by (simp add: uint_word_of_int mod_pos_pos_trivial)
  moreover have "0 \<le> ?a" using a(1) by (rule order_trans[OF of_nat_0_le_iff])
  ultimately have "uint (recovered_attempts s) = ?a" using a(2) by simp
  then have "min n 1000 \<le> unat (recovered_attempts s)" using a(1) by (metis nat_int nat_mono unat_eq_nat_uint)
  then show ?thesis using n by (auto simp: min_def word_le_nat_alt split: if_splits)
qed

lemma convertSummary_ok [simp]: "summary_ok (convertSummary s)"
  using recovered_attempts_ge[of s] by (simp add: summary_ok_def convertSummary_def)

lemma severity_level_values: "severity_level n \<in> {''high'', ''medium'', ''low''}"
  by (simp add: severity_level_def)

lemma GradeConfidence_level: "cf_Level (GradeConfidence c) \<in> {''high'', ''medium'', ''low''}"
  using severity_level_values by (auto simp: GradeConfidence_def Let_def split: prod.splits)

lemma minConfidence_medium: "v \<in> {''high'', ''medium'', ''low''} \<Longrightarrow> minConfidence v ''medium'' \<in> {''medium'', ''low''}"
  by (auto simp: minConfidence_def)


text \<open>The content profile with plenty of budget: both caps in full.\<close>

definition idle_traffic :: TrafficContext where
  "idle_traffic = \<lparr>tc_CrossTrafficMbps = 0, tc_Contaminated = False, tc_Metered = False, tc_MeteredAvailable = True,
     tc_OnBattery = False, tc_PowerAvailable = True, tc_BatteryPct = 100, tc_Override = False\<rparr>"

theorem RunTest_caps_witness:
  "\<forall>t0. \<exists>t. RunTest (Native (\<lambda>_ _ _ _. (t0, None))) None 0 0 idle_traffic (2 ^ 40) content_profile DefaultHouseholdMix ''default'' = (Some t, None)
     \<and> unat (bg_EffectiveDownloadBytes (st_Budget t)) + unat (bg_EffectiveUploadBytes (st_Budget t)) = 352 * 2 ^ 20"
proof
  fix t0
  have s: "\<exists>b. split_budget (2 ^ 40) content_profile = Inr b"
    by (simp add: split_budget_def Let_def content_profile_def)
  then obtain b where b: "split_budget (2 ^ 40) content_profile = Inr b" by blast
  have r: "RunTest (Native (\<lambda>_ _ _ _. (t0, None))) None 0 0 idle_traffic (2 ^ 40) content_profile DefaultHouseholdMix ''default''
      = (Some (native_result b t0), None)"
    unfolding RunTest_def b by (simp add: content_profile_def KnownSpeedProfile_def)
  have m: "unat (pc_MaxDownloadBytes content_profile) \<le> 2 ^ 31" "unat (pc_MaxUploadBytes content_profile) \<le> 2 ^ 31"
    by (simp_all add: content_profile_def)
  obtain down up where "unat down + unat up = min (unat (pc_MaxDownloadBytes content_profile) + unat (pc_MaxUploadBytes content_profile)) (unat (2 ^ 40 :: u64))"
    "bg_EffectiveDownloadBytes (st_Budget (native_result b t0)) = down" "bg_EffectiveUploadBytes (st_Budget (native_result b t0)) = up"
    using RunTest_caps[OF r m] by blast
  then have "unat (bg_EffectiveDownloadBytes (st_Budget (native_result b t0))) + unat (bg_EffectiveUploadBytes (st_Budget (native_result b t0))) = 352 * 2 ^ 20"
    by (simp add: content_profile_def)
  then show "\<exists>t. RunTest (Native (\<lambda>_ _ _ _. (t0, None))) None 0 0 idle_traffic (2 ^ 40) content_profile DefaultHouseholdMix ''default'' = (Some t, None)
     \<and> unat (bg_EffectiveDownloadBytes (st_Budget t)) + unat (bg_EffectiveUploadBytes (st_Budget t)) = 352 * 2 ^ 20"
    using r by blast
qed

end
