(* ===== verification/Speed_Policy.thy ===== *)
theory Speed_Policy
  imports State_Store Spool Measurement
begin

text \<open>
  The decisions of \<open>internal/service/service.go\<close> that only look at values: which profile a test
  uses, when a scheduled one is deferred, what counts as a representative result, which one-off
  requests of a controller are admitted, how much history fits one local message, and the names
  under which a network is reported. The HMAC and its hexadecimal form are an argument.
\<close>

section \<open>Profiles\<close>

definition configuredSpeedProfile :: "SensorConfig \<Rightarrow> string \<Rightarrow> SpeedProfileConfig option" where
  "configuredSpeedProfile config name = List.find (\<lambda>p. pc_Name p = name) (sc_SpeedProfiles config)"

definition effectiveMeasurementConfig :: "State \<Rightarrow> SensorConfig \<times> string" where
  "effectiveMeasurementConfig s =
     (if ps_Mode s = ModeStandalone then (DefaultConfig, '''') else (ps_Config s, ps_ControllerURL s))"

definition defaultSpeedProfile :: "SensorConfig \<Rightarrow> string" where
  "defaultSpeedProfile config =
     (case configuredSpeedProfile config ProfileHousehold of Some _ \<Rightarrow> ProfileHousehold | None \<Rightarrow> ProfileContent)"

definition speedTestBytes :: "SpeedTest \<Rightarrow> u64" where
  "speedTestBytes t =
     (let transferred = tr_BytesTransferred (st_Download t) + tr_BytesTransferred (st_Upload t);
          tot = rs_TotalDownloadBytes (st_Responsiveness t) + rs_TotalUploadBytes (st_Responsiveness t);
          used = (if tot > transferred then tot else transferred)
      in if bg_UsedBytes (st_Budget t) > used then bg_UsedBytes (st_Budget t) else used)"

section \<open>Deferral\<close>

abbreviation (input) lowBatteryDeferPct :: real where "lowBatteryDeferPct \<equiv> 20"

definition lowBattery :: "TrafficContext \<Rightarrow> bool" where
  "lowBattery t \<longleftrightarrow> tc_BatteryPct t \<le> 0 \<or> tc_BatteryPct t < lowBatteryDeferPct"

definition speedTestDeferral :: "TrafficContext \<Rightarrow> SpeedProfileConfig \<Rightarrow> string" where
  "speedTestDeferral t p =
     (if tc_Override t then ''''
      else if tc_Contaminated t then ''cross_traffic''
      else if tc_Metered t \<and> \<not> pc_AllowMetered p then ''metered_connection''
      else if tc_OnBattery t \<and> \<not> pc_AllowOnBattery p \<and> lowBattery t then ''battery_power''
      else if SaturationProfile (pc_Name p) \<and> \<not> tc_MeteredAvailable t then ''metered_status_unavailable''
      else if SaturationProfile (pc_Name p) \<and> \<not> tc_PowerAvailable t then ''power_status_unavailable''
      else '''')"

definition speedBudgetReason :: "u64 \<Rightarrow> u64 \<Rightarrow> string" where
  "speedBudgetReason dailyRemaining monthlyRemaining =
     (if min dailyRemaining monthlyRemaining \<ge> 2 ^ 20 then ''''
      else if monthlyRemaining \<le> dailyRemaining then ''monthly_data_budget'' else ''daily_data_budget'')"

section \<open>Eligibility\<close>

definition householdEligibility :: "SpeedTest \<Rightarrow> bool \<times> string" where
  "householdEligibility t =
     (case st_Household t of
        None \<Rightarrow> (False, ''household_evidence_missing'')
      | Some h \<Rightarrow>
          if hr_StopReason h \<noteq> StopEnoughEvidence then (False, ''household_'' @ hr_StopReason h)
          else if hr_Status h = HouseholdStatusInsufficient then (False, ''household_insufficient'')
          else if ls_Count (rs_Baseline (st_Responsiveness t)) = 0 then (False, ''latency_evidence_unavailable'')
          else if \<not> ex_Available (st_Experience t) then (False, ''experience_unavailable'')
          else if cf_Level (st_MeasurementConfidence t) = ''low'' then (False, ''low_measurement_confidence'')
          else (True, ''''))"

definition experienceEligibility :: "SpeedTest \<Rightarrow> TrafficContext \<Rightarrow> SpeedProfileConfig \<Rightarrow> bool \<times> string" where
  "experienceEligibility t traffic p =
     (let b = st_Budget t; r = st_Responsiveness t in
      if \<not> pc_CountsTowardExperience p \<or> \<not> ExperienceProfile (pc_Name p) then (False, ''profile_excluded'')
      else if tc_Contaminated traffic then (False, ''cross_traffic'')
      else if pc_Name p = ProfileHousehold then householdEligibility t
      else if bg_EffectiveDownloadBytes b < bg_RequestedDownloadBytes b \<or> bg_EffectiveUploadBytes b < bg_RequestedUploadBytes b
      then (False, ''budget_capped'')
      else if tr_Error (st_Download t) \<noteq> '''' \<or> tr_Error (st_Upload t) \<noteq> '''' then (False, ''required_phase_error'')
      else if tr_BytesTransferred (st_Download t) = 0 \<or> tr_ThroughputMbps (st_Download t) \<le> 0
         \<or> tr_BytesTransferred (st_Upload t) = 0 \<or> tr_ThroughputMbps (st_Upload t) \<le> 0
      then (False, ''throughput_unavailable'')
      else if ls_Count (rs_Baseline r) = 0 \<or> ls_Count (rs_DownloadLoaded r) = 0 \<or> ls_Count (rs_UploadLoaded r) = 0
      then (False, ''latency_evidence_unavailable'')
      else if \<not> ex_Available (st_Experience t) then (False, ''experience_unavailable'')
      else if cf_Level (st_MeasurementConfidence t) = ''low'' then (False, ''low_measurement_confidence'')
      else (True, ''''))"

section \<open>One-off requests\<close>

definition nonce_char :: "char \<Rightarrow> bool" where
  "nonce_char c \<longleftrightarrow> (let n = of_char c :: nat in
     (97 \<le> n \<and> n \<le> 122) \<or> (65 \<le> n \<and> n \<le> 90) \<or> (48 \<le> n \<and> n \<le> 57) \<or> c = CHR ''-'' \<or> c = CHR ''_'')"

definition validateControllerSpeedRequest :: "SpeedTestRequest \<Rightarrow> time \<Rightarrow> string" where
  "validateControllerSpeedRequest r now =
     (let issued = unix_time (sq_IssuedAt r); expires = unix_time (sq_ExpiresAt r) in
      if length (sq_Nonce r) < 16 \<or> length (sq_Nonce r) > 128 then ''invalid_nonce''
      else if \<not> list_all nonce_char (sq_Nonce r) then ''invalid_nonce''
      else if \<not> KnownSpeedProfile (sq_Profile r) then ''invalid_profile''
      else if sq_IssuedAt r \<le> 0 \<or> issued < now - 10 * Minute \<or> issued > now + 30 * Second then ''invalid_issued_at''
      else if \<not> expires > issued then ''invalid_expiry''
      else if \<not> expires > now then ''expired''
      else if expires > now + 10 * Minute then ''expiry_too_long''
      else '''')"

section \<open>History for one message\<close>

text \<open>The loop from the newest record backwards; \<open>kept\<close> is what it has taken so far.\<close>

fun bound_backwards :: "int \<Rightarrow> HistoryRecord list \<Rightarrow> HistoryRecord list \<Rightarrow> HistoryRecord list" where
  "bound_backwards tot kept [] = kept"
| "bound_backwards tot kept (r # older) =
     (let tot' = tot + int (length (hy_Data r)) + 96
      in if tot' > 700 * 2 ^ 10 \<and> kept \<noteq> [] then kept else bound_backwards tot' (r # kept) older)"

definition boundHistoryPayload :: "HistoryRecord list \<Rightarrow> HistoryRecord list" where
  "boundHistoryPayload records = bound_backwards 0 [] (rev records)"

section \<open>Pseudonyms of a network\<close>

definition pseudonymousLinkID :: "(string \<Rightarrow> string \<Rightarrow> string) \<Rightarrow> string \<Rightarrow> string \<Rightarrow> string \<Rightarrow> string" where
  "pseudonymousLinkID mac_hex secret domain value =
     (if secret = '''' \<or> value = '''' then '''' else mac_hex secret (domain @ CHR 0x00 # value))"

definition applyPseudonymousLinkIdentity :: "(string \<Rightarrow> string \<Rightarrow> string) \<Rightarrow> string \<Rightarrow> LinkContext \<Rightarrow> LinkContext" where
  "applyPseudonymousLinkIdentity mac_hex secret l = l
     \<lparr>lc_NetworkID := pseudonymousLinkID mac_hex secret ''network'' (lc_RawNetworkIdentity l),
      lc_FirstHopID := pseudonymousLinkID mac_hex secret ''first-hop'' (lc_RawFirstHop l)\<rparr>"

section \<open>Admission of one-off requests\<close>

text \<open>
  Exactly which one-off requests are admitted: a nonce of 16 to 128 letters, digits, hyphens
  or underscores, a known profile, issued after the epoch, at most ten minutes ago and at most
  thirty seconds ahead, and expiring after it was issued, after now and within ten minutes. So no
  admitted request can wait longer than ten minutes, nor live longer than twenty.
\<close>

theorem request_admitted_iff:
  "(validateControllerSpeedRequest r now = '''') =
     (16 \<le> length (sq_Nonce r) \<and> length (sq_Nonce r) \<le> 128 \<and> list_all nonce_char (sq_Nonce r)
      \<and> KnownSpeedProfile (sq_Profile r) \<and> 0 < sq_IssuedAt r
      \<and> now - 10 * Minute \<le> unix_time (sq_IssuedAt r) \<and> unix_time (sq_IssuedAt r) \<le> now + 30 * Second
      \<and> sq_IssuedAt r < sq_ExpiresAt r \<and> now < unix_time (sq_ExpiresAt r)
      \<and> unix_time (sq_ExpiresAt r) \<le> now + 10 * Minute \<and> sq_ExpiresAt r \<le> sq_IssuedAt r + 20 * 60)"
  by (auto simp: validateControllerSpeedRequest_def Let_def unix_time_def not_less not_le)

section \<open>History for one message\<close>

definition history_cost :: "HistoryRecord list \<Rightarrow> int" where
  "history_cost rs = (\<Sum>r\<leftarrow>rs. int (length (hy_Data r)) + 96)"

lemma history_cost_simps [simp]:
  "history_cost [] = 0" "history_cost (r # rs) = int (length (hy_Data r)) + 96 + history_cost rs"
  "history_cost (rs @ ss) = history_cost rs + history_cost ss"
  by (simp_all add: history_cost_def)

lemma history_cost_nonneg [simp]: "0 \<le> history_cost rs"
  by (induction rs) simp_all

lemma bound_backwards_spec:
  assumes "tot = history_cost kept" "kept = [] \<or> length kept = 1 \<or> history_cost kept \<le> 700 * 2 ^ 10"
  shows "\<exists>dropped. rev older @ kept = dropped @ bound_backwards tot kept older
    \<and> (let out = bound_backwards tot kept older in
       (out = [] \<or> length out = 1 \<or> history_cost out \<le> 700 * 2 ^ 10) \<and> (kept @ older \<noteq> [] \<longrightarrow> out \<noteq> [])
       \<and> (dropped \<noteq> [] \<longrightarrow> 700 * 2 ^ 10 < history_cost (last dropped # out)))"
  using assms
proof (induction tot kept older rule: bound_backwards.induct)
  case (1 tot kept)
  then show ?case by (auto simp: Let_def)
next
  case (2 tot kept r older)
  show ?case
  proof (cases "tot + int (length (hy_Data r)) + 96 > 700 * 2 ^ 10 \<and> kept \<noteq> []")
    case True
    then have b: "bound_backwards tot kept (r # older) = kept" by (simp add: Let_def)
    show ?thesis unfolding b using True "2.prems" by (intro exI[of _ "rev older @ [r]"]) (auto simp: Let_def)
  next
    case False
    then have b: "bound_backwards tot kept (r # older) = bound_backwards (tot + int (length (hy_Data r)) + 96) (r # kept) older"
      by (subst bound_backwards.simps) (simp only: Let_def if_False)
    have "tot + int (length (hy_Data r)) + 96 = history_cost (r # kept)" using "2.prems"(1) by simp
    moreover have "r # kept = [] \<or> length (r # kept) = 1 \<or> history_cost (r # kept) \<le> 700 * 2 ^ 10"
      using False "2.prems"(1) by auto
    ultimately show ?thesis using "2.IH"[OF refl] False b by (auto simp: Let_def)
  qed
qed

text \<open>
  The history sent in one local message is the longest newest part that fits: what is left out
  is the oldest records, the part sent fits 700 KiB with its overhead unless it is a single record,
  one more record would not have fitted, and something is sent whenever there is anything.
\<close>

theorem boundHistoryPayload_longest:
  "\<exists>dropped. records = dropped @ boundHistoryPayload records
    \<and> (length (boundHistoryPayload records) \<le> 1 \<or> history_cost (boundHistoryPayload records) \<le> 700 * 2 ^ 10)
    \<and> (boundHistoryPayload records = [] \<longleftrightarrow> records = [])
    \<and> (dropped = [] \<or> 700 * 2 ^ 10 < history_cost (last dropped # boundHistoryPayload records))"
proof -
  obtain dropped where d: "rev (rev records) @ [] = dropped @ boundHistoryPayload records"
    "boundHistoryPayload records = [] \<or> length (boundHistoryPayload records) = 1 \<or> history_cost (boundHistoryPayload records) \<le> 700 * 2 ^ 10"
    "[] @ rev records \<noteq> [] \<longrightarrow> boundHistoryPayload records \<noteq> []"
    "dropped \<noteq> [] \<longrightarrow> 700 * 2 ^ 10 < history_cost (last dropped # boundHistoryPayload records)"
    using bound_backwards_spec[of 0 "[]" "rev records"] unfolding boundHistoryPayload_def Let_def by auto
  then have e: "records = dropped @ boundHistoryPayload records" by simp
  show ?thesis by (rule exI[of _ dropped]) (use d e in auto)
qed

end
