(* ===== verification/Activity.thy ===== *)
theory Activity
  imports Pulse_Prelude "HOL-Library.Multiset"
begin

text \<open>
  What may run beside what: the gate of \<open>internal/service/activity.go\<close>, which closes admission
  before an update and waits for the work already admitted, and the busy flags of
  \<open>internal/service/service.go\<close>. The goroutines are a multiset of workers, and a step lets one of
  them pass one critical section, in any order. Closing a channel that is nil or closed panics in
  Go; the panic is a field of the state.
\<close>

section \<open>The gate\<close>

text \<open>\<open>ga_drained\<close> is the channel: none, or whether it is closed.\<close>

record activityGate =
  ga_active :: int
  ga_quiescing :: bool
  ga_drained :: "bool option"

definition open_gate :: activityGate where
  "open_gate = \<lparr>ga_active = 0, ga_quiescing = False, ga_drained = None\<rparr>"

definition gate_begin :: "activityGate \<Rightarrow> activityGate option" where
  "gate_begin g = (if ga_quiescing g then None else Some (g\<lparr>ga_active := ga_active g + 1\<rparr>))"

text \<open>The function \<open>begin\<close> returns, when it runs for the first time; nothing stands for the panic.\<close>

definition gate_release :: "activityGate \<Rightarrow> activityGate option" where
  "gate_release g =
     (let g' = g\<lparr>ga_active := ga_active g - 1\<rparr>
      in if ga_quiescing g' \<and> ga_active g' = 0
         then (if ga_drained g' = Some False then Some (g'\<lparr>ga_drained := Some True\<rparr>) else None)
         else Some g')"

text \<open>\<open>quiesce\<close> before it waits; nothing stands for the refusal.\<close>

definition gate_quiesce :: "activityGate \<Rightarrow> activityGate option" where
  "gate_quiesce g =
     (if ga_quiescing g then None
      else Some (g\<lparr>ga_quiescing := True, ga_drained := Some (ga_active g = 0)\<rparr>))"

definition gate_resume :: "activityGate \<Rightarrow> activityGate" where
  "gate_resume g = g\<lparr>ga_quiescing := False, ga_drained := None\<rparr>"

text \<open>The two ways the wait of \<open>quiesce\<close> can end: \<open>err\<close> is whether the context is over by then.\<close>

definition gate_waited :: "bool \<Rightarrow> activityGate \<Rightarrow> activityGate \<times> bool" where
  "gate_waited err g = (if err then (gate_resume g, False) else (g, True))"

section \<open>Workers\<close>

text \<open>
  \<open>Ticket\<close> is admitted work that is neither a test nor an upload: a scheduler tick with its probes,
  an enrolment, or an upload before it takes its flag and after it gives it back. A test asked for
  by hand takes its flag before it is admitted and returns its ticket first. A download of an
  update is asked for by the automatic check, by hand with a flag of its own, or by hand while the
  automatic check holds the flag; a restart for a replaced package (\<open>package_restart.go\<close>) takes the
  same way without a download.
\<close>

datatype stager = Automatic | Own | Borrowed | Packaged

datatype worker =
    Ticket | Uploading | ScheduledTest | TestFlagged | ManualTest | TestReturned
  | AutoUpdate | PackageUpdate | StageWaiting stager | StageRunning stager | Restarting

record activity =
  at_gate :: activityGate
  at_speedBusy :: bool
  at_uploadBusy :: bool
  at_updateBusy :: bool
  at_updateRun :: bool
  at_workers :: "worker multiset"
  at_panicked :: bool

definition idle_activity :: activity where
  "idle_activity = \<lparr>at_gate = open_gate, at_speedBusy = False, at_uploadBusy = False, at_updateBusy = False,
     at_updateRun = False, at_workers = {#}, at_panicked = False\<rparr>"

definition replace_worker :: "worker \<Rightarrow> worker multiset \<Rightarrow> activity \<Rightarrow> activity" where
  "replace_worker w ws s = s\<lparr>at_workers := at_workers s - {#w#} + ws\<rparr>"

definition admit :: "worker multiset \<Rightarrow> worker multiset \<Rightarrow> activity \<Rightarrow> activity" where
  "admit old ws s =
     (case gate_begin (at_gate s) of
        Some g \<Rightarrow> s\<lparr>at_gate := g, at_workers := at_workers s - old + ws\<rparr>
      | None \<Rightarrow> s)"

definition release_ticket :: "worker \<Rightarrow> worker multiset \<Rightarrow> activity \<Rightarrow> activity" where
  "release_ticket w ws s =
     (case gate_release (at_gate s) of
        Some g \<Rightarrow> replace_worker w ws (s\<lparr>at_gate := g\<rparr>)
      | None \<Rightarrow> s\<lparr>at_panicked := True\<rparr>)"

text \<open>
  What the handler of \<open>stage_update\<close> and the package restart do on their way out, after a success or
  a failure: after a success the package restart keeps its flag.
\<close>

definition stage_returned :: "bool \<Rightarrow> stager \<Rightarrow> activity \<Rightarrow> activity" where
  "stage_returned ok who s =
     (let s' = s\<lparr>at_updateRun := False\<rparr>
      in case who of
           Automatic \<Rightarrow> s'\<lparr>at_workers := add_mset AutoUpdate (at_workers s')\<rparr>
         | Own \<Rightarrow> s'\<lparr>at_updateBusy := False\<rparr>
         | Borrowed \<Rightarrow> s'
         | Packaged \<Rightarrow> if ok then s' else s'\<lparr>at_updateBusy := False\<rparr>)"

definition stage_flag :: "stager \<Rightarrow> activity \<Rightarrow> activity" where
  "stage_flag who s = (if who = Own then s\<lparr>at_updateBusy := True\<rparr> else s)"

text \<open>The handler of \<open>stage_update\<close> up to its wait; \<open>found\<close> is whether a check found an update.\<close>

definition stage_started :: "bool \<Rightarrow> stager \<Rightarrow> activity \<Rightarrow> activity" where
  "stage_started found who s =
     (let s' = stage_flag who (s\<lparr>at_updateRun := True\<rparr>)
      in if \<not> found then stage_returned False who s'
         else case gate_quiesce (at_gate s') of
           None \<Rightarrow> stage_returned False who s'
         | Some g \<Rightarrow> s'\<lparr>at_gate := g, at_workers := add_mset (StageWaiting who) (at_workers s')\<rparr>)"

text \<open>The wait is over. After a success the gate stays closed and the service restarts.\<close>

definition stage_waited :: "bool \<Rightarrow> stager \<Rightarrow> activity \<Rightarrow> activity" where
  "stage_waited err who s =
     (case gate_waited err (at_gate s) of
        (g, True) \<Rightarrow> replace_worker (StageWaiting who) {#StageRunning who#} (s\<lparr>at_gate := g\<rparr>)
      | (g, False) \<Rightarrow> stage_returned False who (replace_worker (StageWaiting who) {#} (s\<lparr>at_gate := g\<rparr>)))"

definition stage_finished :: "bool \<Rightarrow> stager \<Rightarrow> activity \<Rightarrow> activity" where
  "stage_finished ok who s =
     (if ok then stage_returned True who (replace_worker (StageRunning who) {#Restarting#} s)
      else stage_returned False who (replace_worker (StageRunning who) {#} (s\<lparr>at_gate := gate_resume (at_gate s)\<rparr>)))"

inductive act :: "activity \<Rightarrow> activity \<Rightarrow> bool" where
  begin_work: "act s (admit {#} {#Ticket#} s)"
| end_work: "Ticket \<in># at_workers s \<Longrightarrow> act s (release_ticket Ticket {#} s)"
| start_upload: "Ticket \<in># at_workers s \<Longrightarrow> \<not> at_uploadBusy s \<Longrightarrow> \<not> at_speedBusy s
    \<Longrightarrow> act s (replace_worker Ticket {#Uploading#} (s\<lparr>at_uploadBusy := True\<rparr>))"
| end_upload: "Uploading \<in># at_workers s
    \<Longrightarrow> act s (replace_worker Uploading {#Ticket#} (s\<lparr>at_uploadBusy := False\<rparr>))"
| start_scheduled: "Ticket \<in># at_workers s \<Longrightarrow> \<not> at_speedBusy s \<Longrightarrow> \<not> at_uploadBusy s \<Longrightarrow> \<not> at_updateBusy s
    \<Longrightarrow> act s (replace_worker Ticket {#ScheduledTest#} (s\<lparr>at_speedBusy := True\<rparr>))"
| end_scheduled: "ScheduledTest \<in># at_workers s
    \<Longrightarrow> act s (replace_worker ScheduledTest {#Ticket#} (s\<lparr>at_speedBusy := False\<rparr>))"
| ask_test: "\<not> at_speedBusy s \<Longrightarrow> \<not> at_uploadBusy s \<Longrightarrow> \<not> at_updateBusy s
    \<Longrightarrow> act s (s\<lparr>at_speedBusy := True, at_workers := add_mset TestFlagged (at_workers s)\<rparr>)"
| test_refused: "TestFlagged \<in># at_workers s \<Longrightarrow> gate_begin (at_gate s) = None
    \<Longrightarrow> act s (replace_worker TestFlagged {#} (s\<lparr>at_speedBusy := False\<rparr>))"
| start_manual: "TestFlagged \<in># at_workers s \<Longrightarrow> act s (admit {#TestFlagged#} {#ManualTest#} s)"
| return_manual: "ManualTest \<in># at_workers s \<Longrightarrow> act s (release_ticket ManualTest {#TestReturned#} s)"
| end_manual: "TestReturned \<in># at_workers s
    \<Longrightarrow> act s (replace_worker TestReturned {#} (s\<lparr>at_speedBusy := False\<rparr>))"
| start_auto: "\<not> at_updateBusy s \<Longrightarrow> \<not> at_speedBusy s \<Longrightarrow> \<not> at_uploadBusy s
    \<Longrightarrow> act s (s\<lparr>at_updateBusy := True, at_workers := add_mset AutoUpdate (at_workers s)\<rparr>)"
| end_auto: "AutoUpdate \<in># at_workers s
    \<Longrightarrow> act s (replace_worker AutoUpdate {#} (s\<lparr>at_updateBusy := False\<rparr>))"
| stage_auto: "AutoUpdate \<in># at_workers s \<Longrightarrow> \<not> at_updateRun s
    \<Longrightarrow> act s (stage_started found Automatic (replace_worker AutoUpdate {#} s))"
| stage_manual: "\<not> at_updateRun s
    \<Longrightarrow> act s (stage_started found (if at_updateBusy s then Borrowed else Own) s)"
| start_package: "\<not> at_updateBusy s \<Longrightarrow> \<not> at_speedBusy s \<Longrightarrow> \<not> at_uploadBusy s \<Longrightarrow> Restarting \<notin># at_workers s
    \<Longrightarrow> act s (s\<lparr>at_updateBusy := True, at_workers := add_mset PackageUpdate (at_workers s)\<rparr>)"
| stage_package: "PackageUpdate \<in># at_workers s \<Longrightarrow> \<not> at_updateRun s
    \<Longrightarrow> act s (stage_started True Packaged (replace_worker PackageUpdate {#} s))"
| stage_drained: "StageWaiting who \<in># at_workers s \<Longrightarrow> ga_drained (at_gate s) = Some True
    \<Longrightarrow> act s (stage_waited err who s)"
| stage_cancelled: "StageWaiting who \<in># at_workers s \<Longrightarrow> act s (stage_waited True who s)"
| stage_ended: "StageRunning who \<in># at_workers s \<Longrightarrow> act s (stage_finished ok who s)"

abbreviation reached :: "activity \<Rightarrow> bool" where
  "reached s \<equiv> act\<^sup>*\<^sup>* idle_activity s"

section \<open>The invariant\<close>

definition with_ticket :: "worker \<Rightarrow> bool" where
  "with_ticket w \<longleftrightarrow> w \<in> {Ticket, Uploading, ScheduledTest, ManualTest}"

definition testing :: "worker \<Rightarrow> bool" where
  "testing w \<longleftrightarrow> w \<in> {ScheduledTest, TestFlagged, ManualTest, TestReturned}"

definition holding :: "worker \<Rightarrow> bool" where
  "holding w \<longleftrightarrow> w = Restarting \<or> (\<exists>who. w = StageRunning who)"

definition closing :: "worker \<Rightarrow> bool" where
  "closing w \<longleftrightarrow> holding w \<or> (\<exists>who. w = StageWaiting who)"

lemma worker_kinds [simp]:
  "with_ticket Ticket" "with_ticket Uploading" "with_ticket ScheduledTest" "with_ticket ManualTest"
  "\<not> with_ticket TestFlagged" "\<not> with_ticket TestReturned" "\<not> with_ticket AutoUpdate" "\<not> with_ticket PackageUpdate" "\<not> testing PackageUpdate" "\<not> holding PackageUpdate"
  "\<not> closing PackageUpdate"
  "\<not> with_ticket (StageWaiting who)" "\<not> with_ticket (StageRunning who)" "\<not> with_ticket Restarting"
  "testing ScheduledTest" "testing TestFlagged" "testing ManualTest" "testing TestReturned"
  "\<not> testing Ticket" "\<not> testing Uploading" "\<not> testing AutoUpdate"
  "\<not> testing (StageWaiting who)" "\<not> testing (StageRunning who)" "\<not> testing Restarting"
  "holding (StageRunning who)" "holding Restarting" "\<not> holding Ticket" "\<not> holding Uploading" "\<not> holding ScheduledTest"
  "\<not> holding TestFlagged" "\<not> holding ManualTest" "\<not> holding TestReturned" "\<not> holding AutoUpdate"
  "\<not> holding (StageWaiting who)" "closing (StageWaiting who)" "closing (StageRunning who)" "closing Restarting"
  "\<not> closing Ticket" "\<not> closing Uploading" "\<not> closing ScheduledTest" "\<not> closing TestFlagged"
  "\<not> closing ManualTest" "\<not> closing TestReturned" "\<not> closing AutoUpdate"
  by (simp_all add: with_ticket_def testing_def holding_def closing_def)

text \<open>How many workers are of a kind.\<close>

definition count_of :: "(worker \<Rightarrow> bool) \<Rightarrow> worker multiset \<Rightarrow> int" where
  "count_of P ws = int (size (filter_mset P ws))"

lemma count_of_simps [simp]:
  "count_of P {#} = 0" "count_of P (add_mset w ws) = (if P w then 1 else 0) + count_of P ws" "0 \<le> count_of P ws"
  "1 + count_of P ws \<noteq> 0"
  by (simp_all add: count_of_def)

lemma count_of_mono: "(\<And>w. P w \<Longrightarrow> Q w) \<Longrightarrow> count_of P ws \<le> count_of Q ws"
  by (induction ws) auto

lemma count_of_holding: "count_of holding ws \<le> count_of closing ws"
  by (rule count_of_mono) (simp add: closing_def)

lemma count_of_member: "w \<in># ws \<Longrightarrow> P w \<Longrightarrow> 1 \<le> count_of P ws"
  by (auto dest!: multi_member_split)

definition as_count :: "bool \<Rightarrow> int" where
  "as_count b = (if b then 1 else 0)"

lemma as_count_simps [simp]: "as_count True = 1" "as_count False = 0"
  by (simp_all add: as_count_def)

definition gate_inv :: "activityGate \<Rightarrow> worker multiset \<Rightarrow> bool" where
  "gate_inv g ws \<longleftrightarrow> ga_active g = count_of with_ticket ws
     \<and> count_of closing ws = as_count (ga_quiescing g)
     \<and> ga_drained g = (if ga_quiescing g then Some (ga_active g = 0) else None)
     \<and> (count_of holding ws = 0 \<or> ga_active g = 0)"

definition flag_inv :: "bool \<Rightarrow> bool \<Rightarrow> worker multiset \<Rightarrow> bool" where
  "flag_inv speed up ws \<longleftrightarrow> count_of testing ws = as_count speed
     \<and> count_of (\<lambda>w. w = Uploading) ws = as_count up \<and> \<not> (speed \<and> up)"

definition act_inv :: "activity \<Rightarrow> bool" where
  "act_inv s \<longleftrightarrow> \<not> at_panicked s \<and> gate_inv (at_gate s) (at_workers s)
     \<and> flag_inv (at_speedBusy s) (at_uploadBusy s) (at_workers s)"

lemma act_inv_idle: "act_inv idle_activity"
  by (simp add: act_inv_def idle_activity_def open_gate_def gate_inv_def flag_inv_def)

text \<open>Workers that hold nothing do not count.\<close>

lemma inv_AutoUpdate [simp]:
  "gate_inv g (add_mset AutoUpdate ws) = gate_inv g ws" "flag_inv sp up (add_mset AutoUpdate ws) = flag_inv sp up ws"
  "gate_inv g (add_mset PackageUpdate ws) = gate_inv g ws" "flag_inv sp up (add_mset PackageUpdate ws) = flag_inv sp up ws"
  by (simp_all add: gate_inv_def flag_inv_def)

lemma stage_returned_inv [simp]: "act_inv (stage_returned ok who s) = act_inv s"
  by (cases who) (simp_all add: act_inv_def stage_returned_def Let_def)

lemma flag_inv_closing [simp]:
  "flag_inv sp up (add_mset (StageWaiting who) ws) = flag_inv sp up ws"
  "flag_inv sp up (add_mset (StageRunning who) ws) = flag_inv sp up ws"
  "flag_inv sp up (add_mset Restarting ws) = flag_inv sp up ws"
  by (simp_all add: flag_inv_def)

lemma gate_quiesce_inv:
  assumes "gate_inv g ws" "gate_quiesce g = Some g'"
  shows "gate_inv g' (add_mset (StageWaiting who) ws)"
proof -
  have "count_of closing ws = 0" "ga_active g = count_of with_ticket ws"
    using assms by (auto simp: gate_inv_def gate_quiesce_def split: if_splits)
  moreover have "count_of holding ws = 0" using count_of_holding[of ws] calculation(1) by (simp add: antisym)
  ultimately show ?thesis using assms(2) by (auto simp: gate_inv_def gate_quiesce_def split: if_splits)
qed

lemma gate_resume_inv:
  assumes "gate_inv g (add_mset w ws)" "closing w"
  shows "gate_inv (gate_resume g) ws"
proof -
  have t: "\<not> with_ticket w" using assms(2) by (auto simp: closing_def holding_def with_ticket_def)
  have "count_of closing ws \<le> 0" using assms by (auto simp: gate_inv_def as_count_def split: if_splits)
  then have "count_of closing ws = 0" by (simp add: antisym)
  moreover have "count_of holding ws = 0" using count_of_holding[of ws] calculation by (simp add: antisym)
  ultimately show ?thesis using assms(1) t by (simp add: gate_inv_def gate_resume_def)
qed

lemma gate_held_inv:
  assumes "gate_inv g (add_mset (StageWaiting who) ws)" "ga_drained g = Some True"
  shows "gate_inv g (add_mset (StageRunning who) ws)"
  using assms by (auto simp: gate_inv_def split: if_splits)

lemma gate_begin_inv:
  assumes "gate_inv g ws" "gate_begin g = Some g'" "with_ticket w" "\<not> closing w"
  shows "gate_inv g' (add_mset w ws)"
proof -
  have "count_of closing ws = 0" using assms by (auto simp: gate_inv_def gate_begin_def split: if_splits)
  then have "count_of holding ws = 0" using count_of_holding[of ws] by (simp add: antisym)
  moreover have "\<not> holding w" using assms(4) by (simp add: closing_def)
  ultimately show ?thesis using assms by (auto simp: gate_inv_def gate_begin_def split: if_splits)
qed

lemma gate_release_inv:
  assumes "gate_inv g (add_mset w ws)" "with_ticket w"
  shows "\<exists>g'. gate_release g = Some g' \<and> gate_inv g' ws"
proof -
  have c: "\<not> closing w" "\<not> holding w" using assms(2) by (auto simp: closing_def holding_def with_ticket_def)
  have "0 < ga_active g" using assms by (simp add: gate_inv_def add_pos_nonneg)
  then show ?thesis using assms c by (auto simp: gate_inv_def gate_release_def Let_def)
qed

lemma stage_started_inv:
  assumes "act_inv s" shows "act_inv (stage_started found who s)"
proof -
  define s' where "s' = stage_flag who (s\<lparr>at_updateRun := True\<rparr>)"
  have s': "act_inv s'" using assms by (simp add: s'_def act_inv_def stage_flag_def)
  show ?thesis
  proof (cases "found \<and> gate_quiesce (at_gate s') \<noteq> None")
    case True
    then obtain g where g: "gate_quiesce (at_gate s') = Some g" by auto
    have "stage_started found who s = s'\<lparr>at_gate := g, at_workers := add_mset (StageWaiting who) (at_workers s')\<rparr>"
      using True g by (simp add: stage_started_def s'_def Let_def)
    then show ?thesis using s' gate_quiesce_inv[OF _ g] by (simp add: act_inv_def)
  next
    case False
    then have "stage_started found who s = stage_returned False who s'"
      by (auto simp: stage_started_def s'_def Let_def)
    then show ?thesis using s' by simp
  qed
qed

lemma gate_inv_swap:
  "with_ticket w = with_ticket v \<Longrightarrow> \<not> closing w \<Longrightarrow> \<not> closing v \<Longrightarrow> gate_inv g (add_mset w ws) = gate_inv g (add_mset v ws)"
  by (auto simp: gate_inv_def closing_def)

lemma gate_inv_drop: "\<not> with_ticket w \<Longrightarrow> \<not> closing w \<Longrightarrow> gate_inv g (add_mset w ws) = gate_inv g ws"
  by (auto simp: gate_inv_def closing_def)

lemmas act_eqs = act_inv_def replace_worker_def flag_inv_def

lemma admit_inv:
  assumes "act_inv s" "with_ticket w" "\<not> closing w" "gate_inv (at_gate s) (at_workers s - old)"
    and "flag_inv (at_speedBusy s) (at_uploadBusy s) (add_mset w (at_workers s - old))"
  shows "act_inv (admit old {#w#} s)"
  using assms by (auto simp: admit_def act_inv_def dest: gate_begin_inv[of _ _ _ w] split: option.splits)

lemma release_inv:
  assumes "act_inv s" "w \<in># at_workers s" "with_ticket w"
    and "\<And>g ws. at_workers s = add_mset w ws \<Longrightarrow> gate_inv g ws \<Longrightarrow> gate_inv g (ws + vs)"
    and "\<And>ws. at_workers s = add_mset w ws \<Longrightarrow> flag_inv (at_speedBusy s) (at_uploadBusy s) (ws + vs)"
  shows "act_inv (release_ticket w vs s)"
proof -
  obtain ws where ws: "at_workers s = add_mset w ws" using assms(2) by (metis mset_add)
  then have "gate_inv (at_gate s) (add_mset w ws)" using assms(1) by (simp add: act_inv_def)
  then obtain g' where g': "gate_release (at_gate s) = Some g'" "gate_inv g' ws"
    using gate_release_inv assms(3) by blast
  have "release_ticket w vs s = s\<lparr>at_gate := g', at_workers := ws + vs\<rparr>"
    using g'(1) ws by (simp add: release_ticket_def replace_worker_def)
  moreover have "\<not> at_panicked s" using assms(1) by (simp add: act_inv_def)
  ultimately show ?thesis using assms(4)[OF ws g'(2)] assms(5)[OF ws] by (simp add: act_inv_def)
qed

lemma stage_waited_inv:
  assumes "act_inv s" "StageWaiting who \<in># at_workers s" "err \<or> ga_drained (at_gate s) = Some True"
  shows "act_inv (stage_waited err who s)"
proof -
  obtain ws where ws: "at_workers s = add_mset (StageWaiting who) ws" using assms(2) by (metis mset_add)
  have g: "gate_inv (at_gate s) (add_mset (StageWaiting who) ws)" and f: "flag_inv (at_speedBusy s) (at_uploadBusy s) ws"
    and p: "\<not> at_panicked s" using assms(1) ws by (simp_all add: act_inv_def)
  show ?thesis
  proof (cases err)
    case True
    then have "act_inv (stage_waited err who s)
        = act_inv (s\<lparr>at_gate := gate_resume (at_gate s), at_workers := ws\<rparr>)"
      using ws by (simp add: stage_waited_def gate_waited_def replace_worker_def)
    then show ?thesis using gate_resume_inv[OF g] f p by (simp add: act_inv_def)
  next
    case False
    then show ?thesis using gate_held_inv[OF g] assms(3) f p ws
      by (simp add: stage_waited_def gate_waited_def act_inv_def replace_worker_def)
  qed
qed

lemma stage_finished_inv:
  assumes "act_inv s" "StageRunning who \<in># at_workers s"
  shows "act_inv (stage_finished ok who s)"
proof -
  obtain ws where ws: "at_workers s = add_mset (StageRunning who) ws" using assms(2) by (metis mset_add)
  have g: "gate_inv (at_gate s) (add_mset (StageRunning who) ws)" and f: "flag_inv (at_speedBusy s) (at_uploadBusy s) ws"
    and p: "\<not> at_panicked s" using assms(1) ws by (simp_all add: act_inv_def)
  have "gate_inv (at_gate s) (add_mset Restarting ws)" using g by (simp add: gate_inv_def)
  moreover have "act_inv (stage_finished ok who s) = act_inv (if ok then s\<lparr>at_workers := add_mset Restarting ws\<rparr>
      else s\<lparr>at_gate := gate_resume (at_gate s), at_workers := ws\<rparr>)"
    using ws by (simp add: stage_finished_def replace_worker_def)
  ultimately show ?thesis using gate_resume_inv[OF g] f p by (simp add: act_inv_def)
qed

lemma act_inv_step: "act s s' \<Longrightarrow> act_inv s \<Longrightarrow> act_inv s'"
proof (induction rule: act.induct)
  case (begin_work s)
  then show ?case by (intro admit_inv) (auto simp: act_eqs)
next
  case (end_work s)
  then obtain ws where ws: "at_workers s = add_mset Ticket ws" by (metis mset_add)
  then show ?case using end_work by (intro release_inv) (auto simp: act_eqs)
next
  case (start_upload s)
  then obtain ws where ws: "at_workers s = add_mset Ticket ws" by (metis mset_add)
  then show ?case using start_upload gate_inv_swap[of Ticket Uploading] by (auto simp: act_eqs as_count_def split: if_splits)
next
  case (end_upload s)
  then obtain ws where ws: "at_workers s = add_mset Uploading ws" by (metis mset_add)
  then show ?case using end_upload gate_inv_swap[of Uploading Ticket] by (auto simp: act_eqs as_count_def split: if_splits)
next
  case (start_scheduled s)
  then obtain ws where ws: "at_workers s = add_mset Ticket ws" by (metis mset_add)
  then show ?case using start_scheduled gate_inv_swap[of Ticket ScheduledTest] by (auto simp: act_eqs as_count_def split: if_splits)
next
  case (end_scheduled s)
  then obtain ws where ws: "at_workers s = add_mset ScheduledTest ws" by (metis mset_add)
  then show ?case using end_scheduled gate_inv_swap[of ScheduledTest Ticket] by (auto simp: act_eqs as_count_def split: if_splits)
next
  case (ask_test s)
  then show ?case using gate_inv_drop[of TestFlagged] by (simp add: act_eqs)
next
  case (test_refused s)
  then obtain ws where ws: "at_workers s = add_mset TestFlagged ws" by (metis mset_add)
  then show ?case using test_refused gate_inv_drop[of TestFlagged] by (auto simp: act_eqs as_count_def split: if_splits)
next
  case (start_manual s)
  then obtain ws where ws: "at_workers s = add_mset TestFlagged ws" by (metis mset_add)
  then show ?case using start_manual gate_inv_drop[of TestFlagged] by (intro admit_inv) (auto simp: act_eqs)
next
  case (return_manual s)
  then obtain ws where ws: "at_workers s = add_mset ManualTest ws" by (metis mset_add)
  then show ?case using return_manual gate_inv_drop[of TestReturned] by (intro release_inv) (auto simp: act_eqs)
next
  case (end_manual s)
  then obtain ws where ws: "at_workers s = add_mset TestReturned ws" by (metis mset_add)
  then show ?case using end_manual gate_inv_drop[of TestReturned] by (auto simp: act_eqs as_count_def split: if_splits)
next
  case (start_auto s)
  then show ?case by (simp add: act_eqs)
next
  case (end_auto s)
  then obtain ws where ws: "at_workers s = add_mset AutoUpdate ws" by (metis mset_add)
  then show ?case using end_auto by (simp add: act_eqs)
next
  case (stage_auto s found)
  then obtain ws where ws: "at_workers s = add_mset AutoUpdate ws" by (metis mset_add)
  then show ?case using stage_auto by (intro stage_started_inv) (simp add: act_eqs)
next
  case (stage_manual s found)
  then show ?case by (intro stage_started_inv)
next
  case (start_package s)
  then show ?case by (simp add: act_eqs)
next
  case (stage_package s)
  then obtain ws where ws: "at_workers s = add_mset PackageUpdate ws" by (metis mset_add)
  then show ?case using stage_package by (intro stage_started_inv) (simp add: act_eqs)
next
  case (stage_drained who s err)
  then show ?case by (intro stage_waited_inv) simp_all
next
  case (stage_cancelled who s)
  then show ?case by (intro stage_waited_inv) simp_all
next
  case (stage_ended who s ok)
  then show ?case by (intro stage_finished_inv)
qed

lemma reached_inv: "reached s \<Longrightarrow> act_inv s"
  by (induction rule: rtranclp_induct) (auto intro: act_inv_step act_inv_idle)

section \<open>What may run beside what\<close>

text \<open>
  (C2) In every interleaving: no channel is closed twice or while nil; at most one speed test runs
  or is about to run and at most one upload, never both; while an update is downloaded, installed
  or about to restart the service, no admitted work runs beside it, neither a test nor an upload
  nor a probe; nothing is admitted from the moment an update waits; and a waiting update is woken
  once the last admitted work is done.
\<close>

theorem transfers_exclusive:
  assumes "reached s"
  shows "\<not> at_panicked s \<and> count_of testing (at_workers s) \<le> 1 \<and> count_of (\<lambda>w. w = Uploading) (at_workers s) \<le> 1
    \<and> (count_of testing (at_workers s) = 0 \<or> count_of (\<lambda>w. w = Uploading) (at_workers s) = 0)
    \<and> (count_of holding (at_workers s) = 0 \<or> count_of with_ticket (at_workers s) = 0)
    \<and> (count_of closing (at_workers s) = 0 \<or> gate_begin (at_gate s) = None)
    \<and> (StageWaiting who \<notin># at_workers s \<or> 0 < count_of with_ticket (at_workers s) \<or> ga_drained (at_gate s) = Some True)"
proof -
  have g: "gate_inv (at_gate s) (at_workers s)" and f: "flag_inv (at_speedBusy s) (at_uploadBusy s) (at_workers s)"
    and p: "\<not> at_panicked s" using reached_inv[OF assms] by (simp_all add: act_inv_def)
  have c: "1 \<le> count_of closing (at_workers s)" if "StageWaiting who \<in># at_workers s"
    using that by (rule count_of_member) simp
  have "count_of closing (at_workers s) = 0 \<or> gate_begin (at_gate s) = None"
    using g by (auto simp: gate_inv_def gate_begin_def)
  moreover have "StageWaiting who \<notin># at_workers s \<or> 0 < count_of with_ticket (at_workers s) \<or> ga_drained (at_gate s) = Some True"
    using g c by (auto simp: gate_inv_def as_count_def order.strict_iff_order split: if_splits)
  ultimately show ?thesis using g f p by (auto simp: gate_inv_def flag_inv_def as_count_def)
qed

section \<open>Two runs\<close>

text \<open>An upload is on its way when an update is asked for: the update waits, and is woken.\<close>

definition waiting_activity :: activity where
  "waiting_activity = idle_activity\<lparr>at_gate := \<lparr>ga_active = 1, ga_quiescing = True, ga_drained = Some False\<rparr>,
     at_uploadBusy := True, at_updateBusy := True, at_updateRun := True, at_workers := {#StageWaiting Own, Uploading#}\<rparr>"

definition staging_activity :: activity where
  "staging_activity = idle_activity\<lparr>at_gate := \<lparr>ga_active = 0, ga_quiescing = True, ga_drained = Some True\<rparr>,
     at_updateBusy := True, at_updateRun := True, at_workers := {#StageRunning Own#}\<rparr>"

lemma act_via: "reached s \<Longrightarrow> act s t \<Longrightarrow> t = u \<Longrightarrow> reached u"
  by (auto intro: rtranclp.rtrancl_into_rtrancl)

lemmas act_run = idle_activity_def open_gate_def admit_def gate_begin_def replace_worker_def stage_started_def stage_flag_def
  stage_returned_def gate_quiesce_def gate_release_def release_ticket_def stage_waited_def gate_waited_def Let_def

lemma waiting_reached: "reached waiting_activity"
proof -
  have "reached (admit {#} {#Ticket#} idle_activity)" by (rule act_via[OF _ begin_work]) auto
  from act_via[OF this start_upload] have 
    "reached (idle_activity\<lparr>at_gate := \<lparr>ga_active = 1, ga_quiescing = False, ga_drained = None\<rparr>,
       at_uploadBusy := True, at_workers := {#Uploading#}\<rparr>)" by (simp add: act_run)
  from act_via[OF this stage_manual[where found = True]] show ?thesis
    by (simp add: act_run waiting_activity_def)
qed

lemma staging_reached: "reached staging_activity"
proof -
  from act_via[OF waiting_reached end_upload] have 
    "reached (waiting_activity\<lparr>at_uploadBusy := False, at_workers := {#Ticket, StageWaiting Own#}\<rparr>)"
    by (simp add: act_run waiting_activity_def)
  from act_via[OF this end_work] have 
    "reached (waiting_activity\<lparr>at_gate := \<lparr>ga_active = 0, ga_quiescing = True, ga_drained = Some True\<rparr>,
       at_uploadBusy := False, at_workers := {#StageWaiting Own#}\<rparr>)"
    by (simp add: act_run waiting_activity_def)
  from act_via[OF this stage_drained[where who = Own and err = False]] show ?thesis
    by (simp add: act_run waiting_activity_def staging_activity_def)
qed

theorem transfers_exclusive_witness:
  "reached waiting_activity \<and> ga_drained (at_gate waiting_activity) = Some False
   \<and> reached staging_activity \<and> StageRunning Own \<in># at_workers staging_activity
   \<and> count_of with_ticket (at_workers staging_activity) = 0 \<and> gate_begin (at_gate staging_activity) = None"
  using waiting_reached staging_reached transfers_exclusive[OF staging_reached, of Own]
  by (simp add: waiting_activity_def staging_activity_def idle_activity_def)

text \<open>
  The automatic check finds no update and gives its flag back after a download by hand, which found
  the flag taken, has begun: the download goes on without the flag.
\<close>

theorem download_without_flag:
  "\<exists>s. reached s \<and> StageRunning Borrowed \<in># at_workers s \<and> \<not> at_updateBusy s"
proof -
  have "reached (idle_activity\<lparr>at_updateBusy := True, at_workers := {#AutoUpdate#}\<rparr>)"
    by (rule act_via[OF _ start_auto]) (auto simp: idle_activity_def)
  from act_via[OF this stage_manual[where found = True]] have 
    "reached (waiting_activity\<lparr>at_gate := \<lparr>ga_active = 0, ga_quiescing = True, ga_drained = Some True\<rparr>,
       at_uploadBusy := False, at_workers := {#StageWaiting Borrowed, AutoUpdate#}\<rparr>)"
    by (simp add: act_run waiting_activity_def)
  from act_via[OF this stage_drained[where who = Borrowed and err = False]] have 
    "reached (waiting_activity\<lparr>at_gate := \<lparr>ga_active = 0, ga_quiescing = True, ga_drained = Some True\<rparr>,
       at_uploadBusy := False, at_workers := {#StageRunning Borrowed, AutoUpdate#}\<rparr>)"
    by (simp add: act_run waiting_activity_def)
  from act_via[OF this end_auto] have 
    "reached (waiting_activity\<lparr>at_gate := \<lparr>ga_active = 0, ga_quiescing = True, ga_drained = Some True\<rparr>,
       at_uploadBusy := False, at_updateBusy := False, at_workers := {#StageRunning Borrowed#}\<rparr>)"
    by (simp add: act_run waiting_activity_def)
  then show ?thesis by fastforce
qed

end
