(* ===== verification/Service.thy ===== *)
theory Service
  imports Uploader Aggregate Test_Schedule Speed_Policy
begin

text \<open>
  The service (\<open>internal/service/service.go\<close>): the aggregator, the spool, the state store and the
  uploader together, under the commands of the local control interface and the scheduler's tick.
  Each function under \<open>modeRun\<close> is one step, as the lock makes it; which of the goroutines may run
  beside each other is in \<open>Activity\<close>. A \<open>service_env\<close> is what a step gets from outside: clocks,
  random bytes, encoders, transports and faults. Log lines and the progress shown to watchers are
  not modelled.
\<close>

section \<open>State\<close>

record Service =
  sv_world :: world
  sv_agg :: Aggregator
  sv_started :: time
  sv_captive :: bool
  sv_probeBusy :: bool
  sv_dnsBusy :: bool
  sv_httpBusy :: bool
  sv_uploadBusy :: bool
  sv_speedBusy :: bool
  sv_updateBusy :: bool
  sv_lastProbe :: time
  sv_lastDNS :: time
  sv_lastHTTP :: time
  sv_nextSpeedAttempt :: time
  sv_speedFailures :: int
  sv_flushMinute :: time
  sv_lifecycleState :: string
  sv_collector :: Collector

record service_env =
  se_now :: time
  se_J :: marshal
  se_options :: spool_options
  se_spool_faults :: faults
  se_spool_busy :: bool
  se_disk :: io_faults
  se_disk2 :: io_faults
  se_lib :: lib
  se_random :: "u8 list option"
  se_zone :: "time \<Rightarrow> duration"
  se_digest :: "string \<Rightarrow> u64"
  se_local :: "LocalContext option"
  se_cross :: "string + real"
  se_stats_error :: "string option"
  se_admitted :: bool
  se_upload_admitted :: bool

definition state_of :: "Service \<Rightarrow> State" where
  "state_of s = fst (wo_store (sv_world s))"

definition spool_of :: "Service \<Rightarrow> spool_db" where
  "spool_of s = wo_spool (sv_world s)"

definition up_of :: "Service \<Rightarrow> Uploader" where
  "up_of s = wo_up (sv_world s)"

definition with_agg :: "(Aggregator \<Rightarrow> Aggregator) \<Rightarrow> Service \<Rightarrow> Service" where
  "with_agg f s = s\<lparr>sv_agg := f (sv_agg s)\<rparr>"

definition with_up :: "(Uploader \<Rightarrow> Uploader) \<Rightarrow> Service \<Rightarrow> Service" where
  "with_up f s = s\<lparr>sv_world := on_up f (sv_world s)\<rparr>"

definition with_spool :: "spool_db \<Rightarrow> Service \<Rightarrow> Service" where
  "with_spool db s = s\<lparr>sv_world := (sv_world s)\<lparr>wo_spool := db\<rparr>\<rparr>"

definition with_store :: "Store \<Rightarrow> Service \<Rightarrow> Service" where
  "with_store st s = s\<lparr>sv_world := (sv_world s)\<lparr>wo_store := st\<rparr>\<rparr>"

definition store_of :: "Service \<Rightarrow> Store" where
  "store_of s = wo_store (sv_world s)"

definition local_only :: "Service \<Rightarrow> bool" where
  "local_only s \<longleftrightarrow> ps_Mode (state_of s) = ModeStandalone"

section \<open>Flushing\<close>

definition persistFlushed :: "service_env \<Rightarrow> bool \<Rightarrow> Record list \<Rightarrow> Service \<Rightarrow> Service \<times> string option" where
  "persistFlushed env localOnly records s =
     (let valid = filter (\<lambda>r. rd_Timestamp r > 0) records
      in if valid = [] then (s, None)
         else case append_records (se_options env) (se_spool_faults env) (se_now env) valid localOnly (spool_of s) of
             (db, Inl e) \<Rightarrow> (with_agg (Restore valid) (with_spool db s), Some e)
           | (db, Inr _) \<Rightarrow> (with_up Force (with_spool db s), None))"

definition appendFlushed :: "service_env \<Rightarrow> bool \<Rightarrow> string + Record list \<Rightarrow> Service \<Rightarrow> Service" where
  "appendFlushed env localOnly flushed s =
     (case flushed of Inl _ \<Rightarrow> s | Inr records \<Rightarrow> fst (persistFlushed env localOnly records s))"

definition flush :: "service_env \<Rightarrow> time \<Rightarrow> bool \<Rightarrow> Service \<Rightarrow> Service \<times> bool" where
  "flush env now localOnly s =
     (if sv_probeBusy s
      then (case FlushPending (sv_agg s) of
              (a, records) \<Rightarrow> (appendFlushed env localOnly (Inr records) (s\<lparr>sv_agg := a\<rparr>), False))
      else (case Flush (se_J env) now (sv_agg s) of
              (a, flushed) \<Rightarrow> (appendFlushed env localOnly flushed (s\<lparr>sv_agg := a\<rparr>), True)))"

definition flushShutdown :: "service_env \<Rightarrow> time \<Rightarrow> bool \<Rightarrow> Service \<Rightarrow> Service \<times> string option" where
  "flushShutdown env now localOnly s =
     (case Shutdown (se_J env) now (sv_agg s) of
        (a, Inl e) \<Rightarrow> (s\<lparr>sv_agg := a\<rparr>, Some e)
      | (a, Inr records) \<Rightarrow> persistFlushed env localOnly records (s\<lparr>sv_agg := a\<rparr>))"

definition flushForUpdate :: "service_env \<Rightarrow> time \<Rightarrow> bool \<Rightarrow> Service \<Rightarrow> Service \<times> string option" where
  "flushForUpdate env now localOnly s =
     (case Flush (se_J env) now (sv_agg s) of
        (a, Inl e) \<Rightarrow> (s\<lparr>sv_agg := a\<rparr>, Some e)
      | (a, Inr records) \<Rightarrow> persistFlushed env localOnly records (s\<lparr>sv_agg := a\<rparr>))"

section \<open>Privacy purges\<close>

definition purge_wipe :: "service_env \<Rightarrow> string \<Rightarrow> Store \<Rightarrow> Store \<times> string option" where
  "purge_wipe env action st =
     (if action = PrivacyPurgeDisconnect
      then (case WipeCredentials (se_disk env) False (se_now env) st of
              (st', e) \<Rightarrow> (st', map_option ((@) ''wipe disconnected sensor credentials: '') e))
      else if action = PrivacyPurgeRevocation
      then (case WipeCredentials (se_disk env) True (se_now env) st of
              (st', e) \<Rightarrow> (st', map_option ((@) ''wipe revoked sensor credentials: '') e))
      else (st, None))"

definition completeSSIDPurge :: "service_env \<Rightarrow> Service \<Rightarrow> Service \<times> string option" where
  "completeSSIDPurge env s0 =
     (let action = ps_PrivacyPurgeAction (state_of s0); s = with_agg Reset s0
      in case Clear (se_spool_faults env) (se_spool_busy env) (spool_of s) of
           (db, Inl e) \<Rightarrow> (with_spool db s, Some (''clear SSID-bearing telemetry: '' @ e))
         | (db, Inr _) \<Rightarrow>
             let s1 = with_spool db s
             in case purge_wipe env action (store_of s1) of
                  (st, Some e) \<Rightarrow> (with_store st s1, Some e)
                | (st, None) \<Rightarrow>
                    (case CompleteSSIDPurge (se_disk2 env) st of
                       (st', Some e) \<Rightarrow> (with_store st' s1, Some (''complete SSID privacy purge: '' @ e))
                     | (st', None) \<Rightarrow>
                         (with_up ClearPrivacyBlock (with_up ClearSpeedTestRequests (with_store st' s1)), None)))"

section \<open>Lifecycle\<close>

definition lifecycle :: "time \<Rightarrow> Service \<Rightarrow> string" where
  "lifecycle now s =
     (let current = state_of s in
      if ps_Mode current = ModeSetup then ''setup''
      else if ps_Mode current = ModeConnected \<and> \<not> Claimed current then ''setup''
      else if Paused current now then ''paused''
      else if sv_captive s then ''captive''
      else if ps_Mode current = ModeConnected \<and> sn_Failures (up_snapshot (up_of s)) > 0 then ''offline''
      else ''active'')"

text \<open>The event a change of the lifecycle is recorded as, or the empty type.\<close>

definition lifecycle_event :: "string \<Rightarrow> string \<Rightarrow> string" where
  "lifecycle_event previous current =
     (if previous = '''' \<or> previous = current then ''''
      else if current = ''offline'' then ''offline_start''
      else if previous = ''offline'' \<and> current = ''active'' then ''offline_end''
      else if current = ''paused'' then ''paused''
      else if previous = ''paused'' then ''resumed''
      else '''')"

definition record_event :: "service_env \<Rightarrow> time \<Rightarrow> string \<Rightarrow> (string \<times> json) list \<Rightarrow> Service \<Rightarrow> Service" where
  "record_event env now kind detail s =
     with_agg (\<lambda>a. fst (AddEvent (se_J env) \<lparr>ev_Timestamp = Unix now, ev_Type = kind, ev_Detail = detail\<rparr> a)) s"

definition trackLifecycle :: "service_env \<Rightarrow> time \<Rightarrow> string \<Rightarrow> Service \<Rightarrow> Service" where
  "trackLifecycle env now current s =
     (let previous = sv_lifecycleState s; kind = lifecycle_event previous current; s' = s\<lparr>sv_lifecycleState := current\<rparr>
      in if kind = '''' then s'
         else record_event env now kind [(''previous'', JStr previous), (''current'', JStr current)] s')"

definition setCaptive :: "service_env \<Rightarrow> bool \<Rightarrow> time \<Rightarrow> Service \<Rightarrow> Service" where
  "setCaptive env captive now s =
     (let s' = s\<lparr>sv_captive := captive\<rparr>
      in if captive \<and> \<not> sv_captive s then record_event env now ''captive_detected'' [] s' else s')"

section \<open>Deferral\<close>

definition deferSpeed :: "service_env \<Rightarrow> time \<Rightarrow> string \<Rightarrow> real \<Rightarrow> Service \<Rightarrow> Service" where
  "deferSpeed env now reason crossTraffic s =
     record_event env now ''speed_test_deferred'' [(''reason'', JStr reason), (''cross_traffic_mbps'', JNum crossTraffic)]
       (s\<lparr>sv_nextSpeedAttempt := now + 5 * Minute\<rparr>)"

text \<open>The shift is by at most four, so the delay is at most an hour.\<close>

definition failure_delay :: "int \<Rightarrow> duration" where
  "failure_delay failures = min (5 * Minute * 2 ^ nat (min (failures - 1) 4)) Hour"

definition deferSpeedFailure :: "service_env \<Rightarrow> time \<Rightarrow> Service \<Rightarrow> Service" where
  "deferSpeedFailure env now s =
     (let failures = sv_speedFailures s + 1; delay = failure_delay failures
      in record_event env now ''speed_test_deferred''
           [(''reason'', JStr ''endpoint_or_network_failure''), (''retry_seconds'', JNum (real_of_int (delay div Second)))]
           (s\<lparr>sv_speedFailures := failures, sv_nextSpeedAttempt := now + delay\<rparr>))"

text \<open>What a speed test can end with instead of a result.\<close>

datatype speed_error = Deferred string | SpeedFailed string

definition verdict_event :: "string \<Rightarrow> string \<Rightarrow> speed_error option \<Rightarrow> string \<times> (string \<times> json) list" where
  "verdict_event profileName measurementID err =
     (case err of
        None \<Rightarrow> (''controller_speed_test_accepted'', (''profile'', JStr profileName)
          # (if measurementID \<noteq> '''' then [(''measurement_id'', JStr measurementID)] else []))
      | Some e \<Rightarrow> (''controller_speed_test_rejected'', [(''profile'', JStr profileName),
          (''reason'', JStr (case e of Deferred reason \<Rightarrow> reason | SpeedFailed _ \<Rightarrow> ''endpoint_or_network_failure''))]))"

definition resolveControllerSpeedTest ::
    "service_env \<Rightarrow> time \<Rightarrow> bool \<Rightarrow> string \<Rightarrow> string \<Rightarrow> speed_error option \<Rightarrow> Service \<Rightarrow> Service" where
  "resolveControllerSpeedTest env now localOnly profileName measurementID err s =
     (case verdict_event profileName measurementID err of
        (kind, detail) \<Rightarrow> with_up Force (fst (flush env now localOnly (record_event env now kind detail s))))"
section \<open>Speed tests\<close>

datatype speedTrigger = triggerScheduled | triggerManual | triggerController

text \<open>
  The profile a test of that name uses: the configured one, for a test by hand also one of the
  legacy pair, and then with the device's own ceilings.
\<close>

definition configured_or_legacy :: "bool \<Rightarrow> SensorConfig \<Rightarrow> string \<Rightarrow> SpeedProfileConfig option" where
  "configured_or_legacy manual config name =
     (case configuredSpeedProfile config name of
        Some p \<Rightarrow> Some p
      | None \<Rightarrow> if manual \<and> (name = ProfileContent \<or> name = ProfileCapacity) then DeviceSpeedProfile name else None)"

definition test_profile :: "bool \<Rightarrow> SensorConfig \<Rightarrow> string \<Rightarrow> SpeedProfileConfig option" where
  "test_profile manual config name =
     (case configured_or_legacy manual config name of
        None \<Rightarrow> None
      | Some p \<Rightarrow> if manual then (case DeviceSpeedProfile name of Some own \<Rightarrow> Some own | None \<Rightarrow> Some p) else Some p)"

definition test_traffic :: "bool \<Rightarrow> real \<Rightarrow> real \<Rightarrow> LinkContext \<Rightarrow> TrafficContext" where
  "test_traffic override limitMbps crossTraffic link =
     \<lparr>tc_CrossTrafficMbps = crossTraffic, tc_Contaminated = (crossTraffic > limitMbps), tc_Metered = lc_Metered link,
      tc_MeteredAvailable = la_Metered (lc_Availability link), tc_OnBattery = lc_OnBattery link,
      tc_PowerAvailable = la_Power (lc_Availability link), tc_BatteryPct = lc_BatteryPct link, tc_Override = override\<rparr>"

text \<open>A test that may run: what \<open>runSpeedTestLocked\<close> has fixed when it calls the runner.\<close>

record speed_job =
  sj_now :: time
  sj_traffic :: TrafficContext
  sj_profile :: SpeedProfileConfig
  sj_mix :: HouseholdMix
  sj_source :: string
  sj_runBytes :: u64
  sj_reservation :: u64
  sj_localOnly :: bool

text \<open>Why the test has to wait: the budget's reason replaces the traffic's, unless it is asked for.\<close>

definition deferral_reason :: "bool \<Rightarrow> TrafficContext \<Rightarrow> SpeedProfileConfig \<Rightarrow> u64 \<times> u64 \<Rightarrow> string" where
  "deferral_reason override traffic profile budgets =
     (let budgetReason = speedBudgetReason (fst budgets) (snd budgets)
      in if budgetReason \<noteq> '''' \<and> \<not> override then budgetReason else speedTestDeferral traffic profile)"

definition reserve_test :: "service_env \<Rightarrow> bool \<Rightarrow> u64 \<Rightarrow> SensorConfig \<Rightarrow> Store \<Rightarrow> Store \<times> string option" where
  "reserve_test env override reservation config st =
     (if override
      then ReserveSpeedTestOverdraw (se_disk env) (se_zone env) (se_now env) reservation
             (sc_DailyDataBudgetMB config) (sc_MonthlyDataBudgetMB config) st
      else ReserveSpeedTestProfileFor (se_disk env) (se_zone env) (se_now env) reservation
             (sc_DailyDataBudgetMB config) (sc_MonthlyDataBudgetMB config) st)"

text \<open>
  \<open>runSpeedTestLocked\<close> up to the call of the runner, once the profile is known. The error of an
  unknown profile also quotes its name.
\<close>

definition admitSpeedTest ::
    "service_env \<Rightarrow> bool \<Rightarrow> State \<Rightarrow> SensorConfig \<Rightarrow> SpeedProfileConfig \<Rightarrow> Service \<Rightarrow> Service \<times> (speed_error + speed_job)" where
  "admitSpeedTest env override current config profile s0 =
     (let household = EffectiveHouseholdMix (ps_HouseholdMix current) (sc_HouseholdMix config);
          collected = Collect (se_local env) (se_now env) (sv_collector s0);
          s = s0\<lparr>sv_collector := fst collected\<rparr>;
          crossTraffic = (case se_cross env of Inl _ \<Rightarrow> 0 | Inr mbps \<Rightarrow> mbps);
          traffic = test_traffic override (sc_SpeedTestCrossTrafficMbps config) crossTraffic (snd collected);
          budgets = RemainingDataBudgetsFor (se_zone env) (se_now env) (sc_DailyDataBudgetMB config)
            (sc_MonthlyDataBudgetMB config) (store_of s);
          remaining = min (fst budgets) (snd budgets);
          reason = deferral_reason override traffic profile budgets;
          envelope = pc_MaxDownloadBytes profile + pc_MaxUploadBytes profile;
          runBytes = (if override then envelope else remaining);
          reservation = (if override then envelope else min envelope remaining)
      in if reason \<noteq> '''' then (deferSpeed env (se_now env) reason crossTraffic s, Inl (Deferred reason))
         else case reserve_test env override reservation config (store_of s) of
             (st, Some e) \<Rightarrow> (with_store st s, Inl (SpeedFailed (''reserve speed-test data budget: '' @ e)))
           | (st, None) \<Rightarrow> (with_store st s, Inr \<lparr>sj_now = se_now env, sj_traffic = traffic, sj_profile = profile,
                sj_mix = fst household, sj_source = snd household, sj_runBytes = runBytes, sj_reservation = reservation,
                sj_localOnly = (ps_Mode current = ModeStandalone)\<rparr>))"

definition prepareSpeedTest :: "service_env \<Rightarrow> speedTrigger \<Rightarrow> string \<Rightarrow> Service \<Rightarrow> Service \<times> (speed_error + speed_job)" where
  "prepareSpeedTest env trigger profileName s =
     (let current = state_of s; config = fst (effectiveMeasurementConfig current) in
      if \<not> Operational current
      then (s, Inl (SpeedFailed ''choose local or connected mode before running a test''))
      else case test_profile (trigger = triggerManual) config
             (if profileName = '''' then defaultSpeedProfile config else profileName) of
             None \<Rightarrow> (s, Inl (SpeedFailed ''unknown speed-test profile''))
           | Some profile \<Rightarrow> admitSpeedTest env (trigger \<noteq> triggerScheduled) current config profile s)"

text \<open>
  The rest, given what the runner returned: the reservation is settled, and a finished test is
  judged, recorded and flushed.
\<close>

definition finishSpeedTest ::
    "service_env \<Rightarrow> speed_job \<Rightarrow> SpeedTest option \<times> string option \<Rightarrow> Service \<Rightarrow> Service \<times> (SpeedTest option \<times> speed_error option)" where
  "finishSpeedTest env job outcome s0 =
     (let used = (case fst outcome of None \<Rightarrow> 0 | Some t \<Rightarrow> speedTestBytes t)
      in case ReconcileSpeedTestProfile (se_disk2 env) (se_zone env) (sj_now job) (pc_Name (sj_profile job))
                (sj_reservation job) used (snd outcome = None) (store_of s0) of
           (st, Some e) \<Rightarrow> (with_store st s0, None, Some (SpeedFailed (''reconcile speed-test data budget: '' @ e)))
         | (st, None) \<Rightarrow>
             let s = with_store st s0 in
             (case outcome of
                (r, Some e) \<Rightarrow> (s, r, Some (SpeedFailed e))
              | (None, None) \<Rightarrow> (s, None, None)
              | (Some t0, None) \<Rightarrow>
                  let verdict = experienceEligibility t0 (sj_traffic job) (sj_profile job);
                      t = t0\<lparr>st_ExperienceEligible := fst verdict, st_ExclusionReason := snd verdict\<rparr>
                  in case AddSpeedTest (se_J env) t (sv_agg s) of
                       (a, Some e) \<Rightarrow> (s\<lparr>sv_agg := a\<rparr>, None, Some (SpeedFailed e))
                     | (a, None) \<Rightarrow>
                         let s1 = with_up Force (fst (flush env (se_now env) (sj_localOnly job) (s\<lparr>sv_agg := a\<rparr>)))
                         in (s1\<lparr>sv_speedFailures := 0, sv_nextSpeedAttempt := zero_time\<rparr>, Some t, None)))"

definition runSpeedTestLocked ::
    "service_env \<Rightarrow> service_env \<Rightarrow> runner \<Rightarrow> string option \<Rightarrow> time \<Rightarrow> time \<Rightarrow> speedTrigger \<Rightarrow> string \<Rightarrow> Service
     \<Rightarrow> Service \<times> (SpeedTest option \<times> speed_error option)" where
  "runSpeedTestLocked env env2 run hex clock startedAt trigger profileName s =
     (case prepareSpeedTest env trigger profileName s of
        (s1, Inl e) \<Rightarrow> (s1, None, Some e)
      | (s1, Inr job) \<Rightarrow> finishSpeedTest env2 job
          (RunTest run hex clock startedAt (sj_traffic job) (sj_runBytes job) (sj_profile job) (sj_mix job) (sj_source job)) s1)"
section \<open>Commands\<close>

text \<open>
  The handlers of \<open>HandleIPC\<close> that change state. A command's answer is \<open>None\<close> or a code and a
  message; the status sent with a success is only read, but reading it can fail. A parameter that
  could not be decoded is \<open>None\<close>. \<open>se_admitted\<close> and \<open>se_upload_admitted\<close> are whether the activity
  gate lets the work and a later upload in.
\<close>

type_synonym ipc_error = "string \<times> string"

definition internalError :: "string \<Rightarrow> ipc_error" where
  "internalError e = (''internal'', e)"

definition with_status :: "service_env \<Rightarrow> Service \<Rightarrow> Service \<times> ipc_error option" where
  "with_status env s = (s, map_option internalError (se_stats_error env))"

definition handle_set_mode :: "service_env \<Rightarrow> string option \<Rightarrow> Service \<Rightarrow> Service \<times> ipc_error option" where
  "handle_set_mode env params s =
     (case params of
        None \<Rightarrow> (s, Some (''invalid_parameters'', ''mode is required''))
      | Some mode \<Rightarrow>
          if mode = ps_Mode (state_of s) then with_status env s
          else case flushShutdown env (se_now env) (local_only s) s of
            (s1, Some e) \<Rightarrow> (s1, Some (internalError e))
          | (s1, None) \<Rightarrow>
              (case SetMode (se_disk env) mode (store_of s1) of
                 (st, Some e) \<Rightarrow> (with_store st s1, Some (''invalid_mode'', e))
               | (st, None) \<Rightarrow>
                   let s2 = with_store st s1
                   in with_status env (if mode = ModeStandalone then with_up ClearSpeedTestRequests s2 else s2)))"

definition handle_pause :: "service_env \<Rightarrow> int option \<Rightarrow> Service \<Rightarrow> Service \<times> ipc_error option" where
  "handle_pause env params s =
     (case params of
        None \<Rightarrow> (s, Some (''invalid_parameters'', ''pause must be between 0 and 604800 seconds''))
      | Some seconds \<Rightarrow>
          if seconds < 0 \<or> seconds > 604800
          then (s, Some (''invalid_parameters'', ''pause must be between 0 and 604800 seconds''))
          else case SetPausedUntil (se_disk env) (if seconds > 0 then se_now env + seconds * Second else zero_time) (store_of s) of
            (st, Some e) \<Rightarrow> (with_store st s, Some (internalError e))
          | (st, None) \<Rightarrow> with_status env (with_store st s))"

definition purge_now :: "service_env \<Rightarrow> Service \<Rightarrow> Service \<times> ipc_error option" where
  "purge_now env s =
     (case completeSSIDPurge env s of
        (s', Some e) \<Rightarrow> (s', Some (internalError e))
      | (s', None) \<Rightarrow> with_status env s')"

definition handle_ssid_consent :: "service_env \<Rightarrow> bool option \<Rightarrow> Service \<Rightarrow> Service \<times> ipc_error option" where
  "handle_ssid_consent env params s =
     (case params of
        None \<Rightarrow> (s, Some (''invalid_parameters'', ''SSID consent must be true or false''))
      | Some enabled \<Rightarrow>
          if \<not> Claimed (state_of s) then (s, Some (''unclaimed'', ''connect Axon Pulse before changing SSID consent''))
          else if enabled then
            (if ps_SSIDPurgePending (state_of s)
             then (s, Some (''privacy_cleanup_pending'', ''finish removing previously collected SSID data before enabling consent''))
             else case SetSSIDConsent (se_disk env) True (store_of s) of
               (st, Some e) \<Rightarrow> (with_store st s, Some (internalError e))
             | (st, None) \<Rightarrow> with_status env (with_store st s))
          else case BeginSSIDPurge (se_disk env) (store_of s) of
            (st, Some e) \<Rightarrow> (with_store st s, Some (internalError e))
          | (st, None) \<Rightarrow> purge_now env (with_store st s))"

definition handle_disconnect :: "service_env \<Rightarrow> Service \<Rightarrow> Service \<times> ipc_error option" where
  "handle_disconnect env s =
     (case BeginPrivacyPurge (se_disk env) PrivacyPurgeDisconnect (store_of s) of
        (st, Some e) \<Rightarrow> (with_store st s, Some (internalError e))
      | (st, None) \<Rightarrow> purge_now env (with_store st s))"

definition handle_set_household_mix :: "service_env \<Rightarrow> HouseholdMix option option \<Rightarrow> Service \<Rightarrow> Service \<times> ipc_error option" where
  "handle_set_household_mix env params s =
     (case params of
        None \<Rightarrow> (s, Some (''invalid_params'', ''household mix must be an object or null''))
      | Some mix \<Rightarrow>
          (case SetHouseholdMix (se_disk env) mix (store_of s) of
             (st, Some e) \<Rightarrow> (with_store st s, Some (internalError e))
           | (st, None) \<Rightarrow> with_status env (with_store st s)))"

text \<open>One tick of the uploader under the service, and the purge it may have asked for.\<close>

definition upload_tick :: "service_env \<Rightarrow> tick_env \<Rightarrow> Service \<Rightarrow> Service" where
  "upload_tick env te s =
     (let s1 = s\<lparr>sv_world := fst (fst (Tick te (sv_world s)))\<rparr>
      in if ps_SSIDPurgePending (state_of s1) then fst (completeSSIDPurge env s1) else s1)"

definition tickUploadNow :: "service_env \<Rightarrow> tick_env \<Rightarrow> Service \<Rightarrow> Service" where
  "tickUploadNow env te s =
     (if \<not> se_upload_admitted env \<or> sv_uploadBusy s \<or> sv_speedBusy s then s else upload_tick env te s)"

record connect_params =
  cp_URL :: string
  cp_Token :: string
  cp_Hostname :: "string option"
  cp_OS :: string
  cp_Arch :: string

definition enrollment_request :: "tick_env \<Rightarrow> connect_params \<Rightarrow> State \<Rightarrow> EnrollmentRequest" where
  "enrollment_request te p current = \<lparr>er_Token = cp_Token p, er_SensorUID = ps_SensorUID current,
     er_Hostname = (case cp_Hostname p of Some h \<Rightarrow> if h = '''' then ''axon-pulse'' else h | None \<Rightarrow> ''axon-pulse''),
     er_OS = cp_OS p, er_Arch = cp_Arch p, er_AppVersion = appVersion te\<rparr>"

definition enrollment_error :: "client_error \<Rightarrow> ipc_error" where
  "enrollment_error e =
     (case e of
        API a \<Rightarrow> if ae_Code a = ''invalid_claim_token''
          then (''invalid_claim_token'', ''This invite has expired '' @ [CHR 0xE2, CHR 0x80, CHR 0x94] @ '' ask your provider for a new one.'')
          else (''enrollment_failed'', error_text e)
      | _ \<Rightarrow> (''enrollment_failed'', error_text e))"

text \<open>
  What is left once the controller has answered: the minutes before belong to the local interval,
  and only then does the sensor become the controller's.
\<close>

definition commit_enrollment ::
    "service_env \<Rightarrow> tick_env \<Rightarrow> string \<Rightarrow> EnrollmentResponse \<Rightarrow> Service \<Rightarrow> Service \<times> ipc_error option" where
  "commit_enrollment env te url enrolled s =
     (case flushShutdown env (se_now env) True s of
        (s1, Some e) \<Rightarrow> (s1, Some (internalError e))
      | (s1, None) \<Rightarrow>
          (case SetEnrollment (se_disk env) (se_lib env) (se_random env) (trim_slashes url) enrolled (store_of s1) of
             (st, Some e) \<Rightarrow> (with_store st s1, Some (internalError e))
           | (st, None) \<Rightarrow>
               with_status env (tickUploadNow env te (with_up Force (with_up ClearSpeedTestRequests (with_store st s1))))))"

definition handle_connect ::
    "service_env \<Rightarrow> tick_env \<Rightarrow> bool \<Rightarrow> connect_params option \<Rightarrow> Service \<Rightarrow> Service \<times> ipc_error option" where
  "handle_connect env te enrolling params s =
     (case params of
        None \<Rightarrow> (s, Some (''invalid_parameters'', ''controller URL and claim token are required''))
      | Some p \<Rightarrow>
          if cp_URL p = '''' \<or> cp_Token p = ''''
          then (s, Some (''invalid_parameters'', ''controller URL and claim token are required''))
          else case ValidateControllerURL (se_lib env) (cp_URL p) of
            Some e \<Rightarrow> (s, Some (''invalid_parameters'', e))
          | None \<Rightarrow>
              if enrolling then (s, Some (''connect_in_progress'', ''another enrollment is already in progress''))
              else if ps_SSIDPurgePending (state_of s)
              then (s, Some (''privacy_cleanup_pending'', ''finish the pending privacy cleanup before connecting this sensor''))
              else if \<not> se_admitted env
              then (s, Some (''update_in_progress'', ''finish the software update before connecting this sensor''))
              else if Claimed (state_of s)
              then (s, Some (''already_claimed'', ''disconnect this sensor before connecting it again''))
              else case Enroll (te_lib te) (te_send te) (cp_URL p) (enrollment_request te p (state_of s)) of
                Inl e \<Rightarrow> (s, Some (enrollment_error e))
              | Inr enrolled \<Rightarrow> commit_enrollment env te (cp_URL p) enrolled s)"

definition speed_error_text :: "speed_error \<Rightarrow> string" where
  "speed_error_text e = (case e of Deferred reason \<Rightarrow> ''speed test deferred: '' @ reason | SpeedFailed m \<Rightarrow> m)"

definition handle_test ::
    "service_env \<Rightarrow> service_env \<Rightarrow> runner \<Rightarrow> string option \<Rightarrow> time \<Rightarrow> time \<Rightarrow> string \<Rightarrow> Service
     \<Rightarrow> Service \<times> (ipc_error + SpeedTest option)" where
  "handle_test env env2 run hex clock startedAt profile s =
     (if \<not> Operational (state_of s)
      then (s, Inl (''setup_required'', ''choose local or connected mode before running a test''))
      else if sv_speedBusy s \<or> sv_uploadBusy s \<or> sv_updateBusy s
      then (s, Inl (''test_in_progress'', ''a speed test, upload, or update download is already running''))
      else if \<not> se_admitted env
      then (s, Inl (''speed_test_deferred'', ''service activity is quiescing for an update''))
      else case runSpeedTestLocked env env2 run hex clock startedAt triggerManual profile (s\<lparr>sv_speedBusy := True\<rparr>) of
        (s1, _, Some e) \<Rightarrow> (s1\<lparr>sv_speedBusy := False\<rparr>, Inl (''speed_test_deferred'', speed_error_text e))
      | (s1, r, None) \<Rightarrow> (s1\<lparr>sv_speedBusy := False\<rparr>, Inr r))"

definition handle_history :: "service_env \<Rightarrow> int \<Rightarrow> string list \<Rightarrow> Service \<Rightarrow> ipc_error + HistoryRecord list" where
  "handle_history env hours0 kinds s =
     (let hours = (if hours0 \<le> 0 \<or> hours0 > 24 * 7 then 24 else hours0)
      in case History (se_spool_faults env) (se_now env - hours * Hour) 10000 (spool_of s) of
           Inl e \<Rightarrow> Inl (internalError e)
         | Inr records \<Rightarrow>
             Inr (boundHistoryPayload (if kinds = [] then records else filter (\<lambda>r. hy_Kind r \<in> set kinds) records)))"
section \<open>The scheduler\<close>

text \<open>What one tick starts: probes, a speed test (and whether the controller asked for it), an upload.\<close>

record launches =
  ln_probe :: bool
  ln_dns :: bool
  ln_http :: bool
  ln_speed :: "(string \<times> bool) option"
  ln_upload :: bool

definition no_launches :: launches where
  "no_launches = \<lparr>ln_probe = False, ln_dns = False, ln_http = False, ln_speed = None, ln_upload = False\<rparr>"

definition interval_due :: "bool \<Rightarrow> time \<Rightarrow> int \<Rightarrow> time \<Rightarrow> bool" where
  "interval_due busy last_run seconds now \<longleftrightarrow> \<not> busy \<and> now - last_run \<ge> seconds * Second"

text \<open>The first profile whose scheduled test is due.\<close>

definition profile_due :: "service_env \<Rightarrow> time \<Rightarrow> State \<Rightarrow> SpeedProfileConfig \<Rightarrow> bool" where
  "profile_due env now current p \<longleftrightarrow> pc_Enabled p
     \<and> SpeedProfileDue (se_zone env) (se_digest env) now (last_test current (pc_Name p)) (pc_Windows p)
         (pc_CadenceMinutes p) (ps_SensorUID current @ '':'' @ pc_Name p)
     \<and> now - last_test current (pc_Name p) \<ge> pc_MinSpacingMinutes p * Minute"

definition quiet :: "Service \<Rightarrow> bool" where
  "quiet s \<longleftrightarrow> \<not> sv_speedBusy s \<and> \<not> sv_uploadBusy s \<and> \<not> sv_updateBusy s"

definition choose_speed :: "service_env \<Rightarrow> time \<Rightarrow> State \<Rightarrow> SensorConfig \<Rightarrow> string \<Rightarrow> Service \<Rightarrow> (string \<times> bool) option" where
  "choose_speed env now current config controllerProfile s =
     (if controllerProfile \<noteq> '''' \<and> quiet s then Some (controllerProfile, True)
      else if now - sv_started s \<ge> 5 * Minute \<and> quiet s \<and> \<not> now < sv_nextSpeedAttempt s
      then (case List.find (profile_due env now current) (sc_SpeedProfiles config) of
              Some p \<Rightarrow> if pc_Name p = '''' then None else Some (pc_Name p, False)
            | None \<Rightarrow> None)
      else None)"

text \<open>
  A pending one-off request is screened first. One that cannot run any more is dropped, and the
  controller is told why.
\<close>

definition screen_request :: "service_env \<Rightarrow> time \<Rightarrow> State \<Rightarrow> SensorConfig \<Rightarrow> Service \<Rightarrow> Service \<times> (SpeedTestRequest \<times> string) option" where
  "screen_request env now current config s =
     (case (if ps_Mode current = ModeConnected then up_speedRequest (up_of s) else None) of
        None \<Rightarrow> (s, None)
      | Some r \<Rightarrow>
          let p = configuredSpeedProfile config (sq_Profile r);
              reason = (case p of Some q \<Rightarrow> if pc_Enabled q then validateControllerSpeedRequest r now else ''profile_disabled''
                 | None \<Rightarrow> ''profile_disabled'')
          in if reason \<noteq> ''''
             then (resolveControllerSpeedTest env now (ps_Mode current = ModeStandalone) (sq_Profile r) '''' (Some (Deferred reason))
                     (with_up (ClearSpeedTestRequest (sq_Nonce r)) s), None)
             else (s, Some (r, (case p of Some q \<Rightarrow> pc_Name q | None \<Rightarrow> ''''))))"

text \<open>The nonce is spent before the test runs; \<open>False\<close> takes the test back.\<close>

definition accept_request :: "service_env \<Rightarrow> time \<Rightarrow> State \<Rightarrow> string \<Rightarrow> SpeedTestRequest \<Rightarrow> Service \<Rightarrow> Service \<times> bool" where
  "accept_request env now current profile r s =
     (case AcceptSpeedTestRequest (se_disk env) (sq_Nonce r) (unix_time (sq_ExpiresAt r)) now (store_of s) of
        (st, Inl e) \<Rightarrow> ((with_store st s)\<lparr>sv_speedBusy := False\<rparr>, False)
      | (st, Inr False) \<Rightarrow>
          (resolveControllerSpeedTest env now (ps_Mode current = ModeStandalone) profile '''' (Some (Deferred ''replayed_nonce''))
             (with_up (ClearSpeedTestRequest (sq_Nonce r)) ((with_store st s)\<lparr>sv_speedBusy := False\<rparr>)), False)
      | (st, Inr True) \<Rightarrow> (with_up (ClearSpeedTestRequest (sq_Nonce r)) (with_store st s), True))"

definition flush_minute :: "service_env \<Rightarrow> time \<Rightarrow> bool \<Rightarrow> Service \<Rightarrow> Service" where
  "flush_minute env now localOnly s =
     (case flush env now localOnly s of
        (s', True) \<Rightarrow> s'\<lparr>sv_flushMinute := truncate_minute now\<rparr>
      | (s', False) \<Rightarrow> s')"

definition mark_busy :: "time \<Rightarrow> launches \<Rightarrow> Service \<Rightarrow> Service" where
  "mark_busy now l s = s
     \<lparr>sv_probeBusy := (sv_probeBusy s \<or> ln_probe l), sv_lastProbe := (if ln_probe l then now else sv_lastProbe s),
      sv_dnsBusy := (sv_dnsBusy s \<or> ln_dns l), sv_lastDNS := (if ln_dns l then now else sv_lastDNS s),
      sv_httpBusy := (sv_httpBusy s \<or> ln_http l), sv_lastHTTP := (if ln_http l then now else sv_lastHTTP s),
      sv_speedBusy := (sv_speedBusy s \<or> ln_speed l \<noteq> None)\<rparr>"

definition choose_work :: "service_env \<Rightarrow> time \<Rightarrow> State \<Rightarrow> SensorConfig \<Rightarrow> string \<Rightarrow> Service \<Rightarrow> launches" where
  "choose_work env now current config controllerProfile s = \<lparr>
     ln_probe = interval_due (sv_probeBusy s) (sv_lastProbe s) (sc_ProbeIntervalSeconds config) now,
     ln_dns = interval_due (sv_dnsBusy s) (sv_lastDNS s) (sc_DNSIntervalSeconds config) now,
     ln_http = interval_due (sv_httpBusy s) (sv_lastHTTP s) (sc_HTTPIntervalSeconds config) now,
     ln_speed = choose_speed env now current config controllerProfile s, ln_upload = True\<rparr>"

definition active_tick :: "service_env \<Rightarrow> time \<Rightarrow> State \<Rightarrow> Service \<Rightarrow> Service \<times> launches" where
  "active_tick env now current s0 =
     (let s1 = (if truncate_minute now > sv_flushMinute s0 then flush_minute env now (ps_Mode current = ModeStandalone) s0 else s0);
          config = fst (effectiveMeasurementConfig current);
          screened = screen_request env now current config s1;
          s2 = fst screened; request = snd screened;
          l = choose_work env now current config (case request of Some (_, p) \<Rightarrow> p | None \<Rightarrow> '''') s2;
          s3 = mark_busy now l s2
      in case (ln_speed l, request) of
           (Some (profile, True), Some (r, _)) \<Rightarrow>
             (case accept_request env now current profile r s3 of
                (s4, True) \<Rightarrow> (s4, l)
              | (s4, False) \<Rightarrow> (s4, l\<lparr>ln_speed := None\<rparr>))
         | _ \<Rightarrow> (s3, l))"

definition tick_work :: "service_env \<Rightarrow> time \<Rightarrow> Service \<Rightarrow> Service \<times> launches" where
  "tick_work env now s =
     (let current = state_of s in
      if ps_SSIDPurgePending current then (fst (completeSSIDPurge env s), no_launches)
      else if \<not> se_admitted env then (s, no_launches)
      else if \<not> Operational current then (with_agg Reset s, no_launches\<lparr>ln_upload := True\<rparr>)
      else if Paused current now
      then (flush_minute env now (ps_Mode current = ModeStandalone) s, no_launches\<lparr>ln_upload := True\<rparr>)
      else active_tick env now current s)"

definition tick :: "service_env \<Rightarrow> time \<Rightarrow> Service \<Rightarrow> Service \<times> launches" where
  "tick env now s =
     (let done_work = tick_work env now s
      in (trackLifecycle env now (lifecycle now (fst done_work)) (fst done_work), snd done_work))"
section \<open>The work a tick starts\<close>

text \<open>
  What the goroutines of a tick do once their measurements are there: \<open>samples\<close> and \<open>checks\<close> are
  the prober's results, \<open>config\<close> and \<open>current\<close> the snapshot the tick was started with.
\<close>

definition probe_done :: "Sample list \<Rightarrow> Service \<Rightarrow> Service" where
  "probe_done samples s = (with_agg (\<lambda>a. foldl AddSample a samples) s)\<lparr>sv_probeBusy := False\<rparr>"

definition dns_done :: "service_env \<Rightarrow> DNSCheck list \<Rightarrow> Service \<Rightarrow> Service" where
  "dns_done env checks s = (with_agg (\<lambda>a. foldl (\<lambda>a c. fst (AddDNS (se_J env) c a)) a checks) s)\<lparr>sv_dnsBusy := False\<rparr>"

text \<open>The link as it may leave the device.\<close>

definition published_link :: "(string \<Rightarrow> string \<Rightarrow> string) \<Rightarrow> SensorConfig \<Rightarrow> State \<Rightarrow> LinkContext \<Rightarrow> LinkContext" where
  "published_link mac_hex config current link0 =
     (let link1 = (if sc_SendSSID config \<and> ps_SSIDConsent current then link0 else link0\<lparr>lc_SSID := ''''\<rparr>);
          link2 = (if sc_SendNetworkIdentity config \<and> ps_Mode current = ModeConnected \<and> ps_NetworkIdentityKey current \<noteq> ''''
            then applyPseudonymousLinkIdentity mac_hex (ps_NetworkIdentityKey current) link1 else link1)
      in link2\<lparr>lc_RawNetworkIdentity := '''', lc_RawFirstHop := ''''\<rparr>)"

definition http_done ::
    "service_env \<Rightarrow> (string \<Rightarrow> string \<Rightarrow> string) \<Rightarrow> SensorConfig \<Rightarrow> State \<Rightarrow> HTTPCheck list \<Rightarrow> Service \<Rightarrow> Service" where
  "http_done env mac_hex config current checks s0 =
     (let s1 = with_agg (\<lambda>a. foldl (\<lambda>a c. fst (AddHTTP (se_J env) c a)) a checks) s0;
          s2 = setCaptive env (list_ex hk_Captive checks) (se_now env) s1;
          collected = Collect (se_local env) (se_now env) (sv_collector s2);
          link = published_link mac_hex config current (snd collected);
          s3 = with_agg (\<lambda>a. fst (AddLink (se_J env) link a)) (s2\<lparr>sv_collector := fst collected\<rparr>);
          s4 = (if lc_GatewayChanged link
            then with_agg (\<lambda>a. fst (AddEvent (se_J env)
                   \<lparr>ev_Timestamp = lc_Timestamp link, ev_Type = ''gateway_changed'', ev_Detail = []\<rparr> a)) s3
            else s3)
      in s4\<lparr>sv_httpBusy := False\<rparr>)"

definition speed_done ::
    "service_env \<Rightarrow> service_env \<Rightarrow> runner \<Rightarrow> string option \<Rightarrow> time \<Rightarrow> time \<Rightarrow> State \<Rightarrow> string \<times> bool \<Rightarrow> Service \<Rightarrow> Service" where
  "speed_done env env2 run hex clock startedAt current launched s0 =
     (case launched of (profile, controllerSpeed) \<Rightarrow>
        case runSpeedTestLocked env env2 run hex clock startedAt
               (if controllerSpeed then triggerController else triggerScheduled) profile s0 of
          (s1, result, err) \<Rightarrow>
            let s2 = (if controllerSpeed
                  then resolveControllerSpeedTest env2 (se_now env2) (ps_Mode current = ModeStandalone) profile
                         (case result of Some t \<Rightarrow> st_MeasurementID t | None \<Rightarrow> '''') err s1
                  else s1);
                s3 = (case err of Some (SpeedFailed _) \<Rightarrow> deferSpeedFailure env2 (se_now env2) s2 | _ \<Rightarrow> s2)
            in s3\<lparr>sv_speedBusy := False\<rparr>)"
section \<open>The parts of a service\<close>

lemma service_parts [simp]:
  "state_of (with_agg f s) = state_of s" "spool_of (with_agg f s) = spool_of s" "up_of (with_agg f s) = up_of s"
  "store_of (with_agg f s) = store_of s" "sv_agg (with_agg f s) = f (sv_agg s)"
  "state_of (with_up g s) = state_of s" "spool_of (with_up g s) = spool_of s" "up_of (with_up g s) = g (up_of s)"
  "store_of (with_up g s) = store_of s" "sv_agg (with_up g s) = sv_agg s"
  "state_of (with_spool db s) = state_of s" "spool_of (with_spool db s) = db" "up_of (with_spool db s) = up_of s"
  "store_of (with_spool db s) = store_of s" "sv_agg (with_spool db s) = sv_agg s"
  "state_of (with_store st s) = fst st" "spool_of (with_store st s) = spool_of s" "up_of (with_store st s) = up_of s"
  "store_of (with_store st s) = st" "sv_agg (with_store st s) = sv_agg s" "fst (store_of s) = state_of s"
  by (simp_all add: state_of_def spool_of_def up_of_def store_of_def with_agg_def with_up_def with_spool_def with_store_def on_up_def)

text \<open>The flags and clocks of a service do not touch what it stores.\<close>

lemma service_updates [simp]:
  "state_of (s\<lparr>sv_agg := a\<rparr>) = state_of s" "spool_of (s\<lparr>sv_agg := a\<rparr>) = spool_of s" "up_of (s\<lparr>sv_agg := a\<rparr>) = up_of s"
  "store_of (s\<lparr>sv_agg := a\<rparr>) = store_of s"
  "state_of (s\<lparr>sv_collector := c\<rparr>) = state_of s" "spool_of (s\<lparr>sv_collector := c\<rparr>) = spool_of s"
  "up_of (s\<lparr>sv_collector := c\<rparr>) = up_of s" "store_of (s\<lparr>sv_collector := c\<rparr>) = store_of s"
  "state_of (s\<lparr>sv_captive := b\<rparr>) = state_of s" "spool_of (s\<lparr>sv_captive := b\<rparr>) = spool_of s"
  "up_of (s\<lparr>sv_captive := b\<rparr>) = up_of s" "store_of (s\<lparr>sv_captive := b\<rparr>) = store_of s"
  "state_of (s\<lparr>sv_lifecycleState := l\<rparr>) = state_of s" "spool_of (s\<lparr>sv_lifecycleState := l\<rparr>) = spool_of s"
  "up_of (s\<lparr>sv_lifecycleState := l\<rparr>) = up_of s" "store_of (s\<lparr>sv_lifecycleState := l\<rparr>) = store_of s"
  "state_of (s\<lparr>sv_flushMinute := t\<rparr>) = state_of s" "spool_of (s\<lparr>sv_flushMinute := t\<rparr>) = spool_of s"
  "up_of (s\<lparr>sv_flushMinute := t\<rparr>) = up_of s" "store_of (s\<lparr>sv_flushMinute := t\<rparr>) = store_of s"
  "state_of (s\<lparr>sv_nextSpeedAttempt := t\<rparr>) = state_of s" "spool_of (s\<lparr>sv_nextSpeedAttempt := t\<rparr>) = spool_of s"
  "up_of (s\<lparr>sv_nextSpeedAttempt := t\<rparr>) = up_of s" "store_of (s\<lparr>sv_nextSpeedAttempt := t\<rparr>) = store_of s"
  "state_of (s\<lparr>sv_speedFailures := n\<rparr>) = state_of s" "spool_of (s\<lparr>sv_speedFailures := n\<rparr>) = spool_of s"
  "up_of (s\<lparr>sv_speedFailures := n\<rparr>) = up_of s" "store_of (s\<lparr>sv_speedFailures := n\<rparr>) = store_of s"
  "state_of (s\<lparr>sv_probeBusy := b\<rparr>) = state_of s" "spool_of (s\<lparr>sv_probeBusy := b\<rparr>) = spool_of s"
  "up_of (s\<lparr>sv_probeBusy := b\<rparr>) = up_of s" "store_of (s\<lparr>sv_probeBusy := b\<rparr>) = store_of s"
  "state_of (s\<lparr>sv_dnsBusy := b\<rparr>) = state_of s" "spool_of (s\<lparr>sv_dnsBusy := b\<rparr>) = spool_of s"
  "up_of (s\<lparr>sv_dnsBusy := b\<rparr>) = up_of s" "store_of (s\<lparr>sv_dnsBusy := b\<rparr>) = store_of s"
  "state_of (s\<lparr>sv_httpBusy := b\<rparr>) = state_of s" "spool_of (s\<lparr>sv_httpBusy := b\<rparr>) = spool_of s"
  "up_of (s\<lparr>sv_httpBusy := b\<rparr>) = up_of s" "store_of (s\<lparr>sv_httpBusy := b\<rparr>) = store_of s"
  "state_of (s\<lparr>sv_speedBusy := b\<rparr>) = state_of s" "spool_of (s\<lparr>sv_speedBusy := b\<rparr>) = spool_of s"
  "up_of (s\<lparr>sv_speedBusy := b\<rparr>) = up_of s" "store_of (s\<lparr>sv_speedBusy := b\<rparr>) = store_of s"
  by (simp_all add: state_of_def spool_of_def up_of_def store_of_def)

section \<open>Privacy purges\<close>

definition no_telemetry :: "Service \<Rightarrow> bool" where
  "no_telemetry s \<longleftrightarrow> ag_buckets (sv_agg s) = [] \<and> ag_pending (sv_agg s) = [] \<and> ag_live (sv_agg s) = []
     \<and> db_records (spool_of s) = [] \<and> db_history (spool_of s) = [] \<and> db_pending (spool_of s) = []"

definition no_credentials :: "State \<Rightarrow> bool" where
  "no_credentials s \<longleftrightarrow> \<not> Claimed s \<and> ps_SensorSecret s = '''' \<and> ps_NetworkIdentityKey s = ''''
     \<and> ps_ControllerURL s = '''' \<and> ps_Mode s = ModeStandalone \<and> ps_Config s = DefaultConfig"

lemma Reset_empty [simp]: "ag_buckets (Reset a) = []" "ag_pending (Reset a) = []" "ag_live (Reset a) = []"
  by (simp_all add: Reset_def)

lemma cleared_empty [simp]: "db_records (cleared d) = []" "db_history (cleared d) = []" "db_pending (cleared d) = []"
  by (simp_all add: cleared_def)

lemma Clear_done: "Clear fl busy d = (d', Inr u) \<Longrightarrow> d' = cleared d"
  by (auto simp: Clear_def split: if_splits)

lemma CompleteSSIDPurge_result:
  assumes "CompleteSSIDPurge fl st = (st', e)"
  shows "e = None \<Longrightarrow> fst st' = (if ps_SSIDPurgePending (fst st)
      then (fst st)\<lparr>ps_SSIDPurgePending := False, ps_PrivacyPurgeAction := ''''\<rparr> else fst st)"
    and "e \<noteq> None \<Longrightarrow> fst st' = fst st"
  using assms by (auto simp: CompleteSSIDPurge_def Let_def split: if_splits option.splits prod.splits sum.splits)

lemma purge_wipe_result:
  assumes "purge_wipe env action st = (st', e)"
  shows "ps_SSIDPurgePending (fst st') = ps_SSIDPurgePending (fst st)"
    and "e = None \<Longrightarrow> action = PrivacyPurgeDisconnect \<or> action = PrivacyPurgeRevocation \<Longrightarrow> no_credentials (fst st')"
  using assms
  by (auto simp: purge_wipe_def WipeCredentials_def commitLocked_def writeState_def no_credentials_def Claimed_def
      split: if_splits prod.splits option.splits)

lemma completeSSIDPurge_cases [case_names uncleared unwiped incomplete complete]:
  assumes "completeSSIDPurge env s = (s', e)"
  obtains "e \<noteq> None" "state_of s' = state_of s" "sv_agg s' = Reset (sv_agg s)"
      "spool_of s' = fst (Clear (se_spool_faults env) (se_spool_busy env) (spool_of s))"
    | st where "e \<noteq> None" "purge_wipe env (ps_PrivacyPurgeAction (state_of s)) (store_of s) = (st, e)"
      "state_of s' = fst st" "spool_of s' = cleared (spool_of s)" "sv_agg s' = Reset (sv_agg s)"
    | st st' m where "e \<noteq> None" "purge_wipe env (ps_PrivacyPurgeAction (state_of s)) (store_of s) = (st, None)"
      "CompleteSSIDPurge (se_disk2 env) st = (st', Some m)" "state_of s' = fst st'" "spool_of s' = cleared (spool_of s)"
      "sv_agg s' = Reset (sv_agg s)"
    | st st' where "e = None" "purge_wipe env (ps_PrivacyPurgeAction (state_of s)) (store_of s) = (st, None)"
      "CompleteSSIDPurge (se_disk2 env) st = (st', None)" "state_of s' = fst st'" "spool_of s' = cleared (spool_of s)"
      "sv_agg s' = Reset (sv_agg s)" "up_of s' = ClearPrivacyBlock (ClearSpeedTestRequests (up_of s))"
  using assms
  by (auto simp: completeSSIDPurge_def Let_def dest: Clear_done split: prod.splits sum.splits option.splits)

lemma Tick_purge_pending: "ps_SSIDPurgePending (fst (wo_store w)) \<Longrightarrow> snd (Tick te w) = []"
  by (simp add: Tick_def Let_def split: prod.splits option.splits)

section \<open>A service at work\<close>

definition a_service :: "State \<Rightarrow> spool_db \<Rightarrow> Service" where
  "a_service st db = \<lparr>sv_world = \<lparr>wo_up = New_uploader 0, wo_store = (st, new_disk), wo_spool = db\<rparr>, sv_agg = New,
     sv_started = 0, sv_captive = False, sv_probeBusy = False, sv_dnsBusy = False, sv_httpBusy = False,
     sv_uploadBusy = False, sv_speedBusy = False, sv_updateBusy = False, sv_lastProbe = zero_time, sv_lastDNS = zero_time,
     sv_lastHTTP = zero_time, sv_nextSpeedAttempt = zero_time, sv_speedFailures = 0, sv_flushMinute = 0,
     sv_lifecycleState = '''', sv_collector = \<lparr>co_lastGateway = '''', co_lastAssociation = ''''\<rparr>\<rparr>"

definition event_marshal :: marshal where
  "event_marshal = plain_marshal\<lparr>js_Event := (\<lambda>e. Some (ev_Type e))\<rparr>"

definition a_service_env :: "time \<Rightarrow> service_env" where
  "a_service_env now = \<lparr>se_now = now, se_J = event_marshal, se_options = small_options, se_spool_faults = no_faults,
     se_spool_busy = False, se_disk = fault_free, se_disk2 = fault_free, se_lib = up_lib, se_random = Some (replicate 32 0),
     se_zone = (\<lambda>_. 0), se_digest = (\<lambda>_. 0), se_local = None, se_cross = Inl ''no counters'', se_stats_error = None,
     se_admitted = True, se_upload_admitted = True\<rparr>"

lemma a_service_parts [simp]:
  "state_of (a_service st db) = st" "store_of (a_service st db) = (st, new_disk)" "spool_of (a_service st db) = db"
  "up_of (a_service st db) = New_uploader 0" "sv_agg (a_service st db) = New"
  by (simp_all add: a_service_def state_of_def store_of_def spool_of_def up_of_def)

lemma fault_free_writes [simp]:
  "writeState fault_free s d = (True, None, d\<lparr>dk_state := replace_with (Some s) True (dk_state d)\<rparr>)"
  "validPrivacyPurgeAction action \<Longrightarrow>
    writePrivacyPurgeSentinel fault_free action d = (None, d\<lparr>dk_purge := replace_with (Some action) True (dk_purge d)\<rparr>)"
  "Clear no_faults False db = (cleared db, Inr ())"
  by (simp_all add: writeState_def first_fault_def fault_free_def writePrivacyPurgeSentinel_def Clear_def no_faults_def)

text \<open>A connected sensor with a stored record is disconnected.\<close>

definition leaving_state :: State where
  "leaving_state = beginPrivacyPurge PrivacyPurgeDisconnect up_state"

lemma leaving_purged: "snd (completeSSIDPurge (a_service_env 0) (a_service leaving_state pending_db)) = None"
  by (simp add: completeSSIDPurge_def Let_def a_service_env_def leaving_state_def beginPrivacyPurge_def up_state_def zero_state_def
      privacyPurgePriority_def purge_wipe_def WipeCredentials_def commitLocked_def CompleteSSIDPurge_def
      validPrivacyPurgeAction_def removePrivacyPurgeSentinel_def replace_with_def)
    (simp add: fault_free_def Let_def replace_with_def)


end
