(* ===== verification/Update.thy ===== *)
theory Update
  imports Client
begin

text \<open>
  The updater (\<open>internal/update/update.go\<close>, \<open>install_method.go\<close>): the signed release index, the
  choice of an artifact, and its download into the staging directory. Semantic versions
  (\<open>golang.org/x/mod/semver\<close>), Ed25519, SHA-256, URL resolution and the JSON decoder are fields of
  \<open>update_lib\<close>; the HTTP transport is an argument; what may go wrong with the staged file is a
  \<open>stage_faults\<close>. A response body is the list of the chunks \<open>io.Copy\<close> reads and whether reading
  it ends in an error; the staging directory is a map from paths to contents.
\<close>

section \<open>Data\<close>

record Artifact =
  ua_Version :: string
  ua_OS :: string
  ua_Arch :: string
  ua_Kind :: string
  ua_Filename :: string
  ua_URL :: string
  ua_SHA256 :: string
  ua_SizeBytes :: int

record release =
  rl_Version :: string
  rl_Artifacts :: "Artifact list"

record index =
  ix_SchemaVersion :: int
  ix_GeneratedAt :: string
  ix_Version :: string
  ix_Artifacts :: "Artifact list"
  ix_Releases :: "release list"

record Available =
  av_Artifact :: Artifact
  av_IndexURL :: string
  av_metadataVerified :: bool
  av_verifiedArtifact :: Artifact

record Manager =
  mg_IndexURL :: string
  mg_OS :: string
  mg_Arch :: string
  mg_Progress :: bool
  mg_publicKey :: string

record get_response =
  gr_Status :: int
  gr_FinalURL :: "string option"
  gr_Chunks :: "string list"
  gr_Broken :: bool

datatype update_error = PackageManaged | NoUpdate | UpdateFailed string

record update_lib =
  ul_lib :: lib
  ul_IsValid :: "string \<Rightarrow> bool"
  ul_Compare :: "string \<Rightarrow> string \<Rightarrow> int"
  ul_Verify :: "string \<Rightarrow> string \<Rightarrow> string \<Rightarrow> bool"
  ul_ResolveReference :: "URL \<Rightarrow> URL \<Rightarrow> URL"
  ul_DecIndex :: "string \<Rightarrow> index option"
  ul_GOOS :: string
  ul_GOARCH :: string
  ul_embeddedKey :: string
  ul_installMethod :: string

type_synonym fetch = "string \<Rightarrow> string + get_response"

abbreviation (input) maxArtifactBytes :: nat where "maxArtifactBytes \<equiv> 104857600"
abbreviation (input) progressStep :: nat where "progressStep \<equiv> 262144"
abbreviation (input) maxIndexBytes :: nat where "maxIndexBytes \<equiv> 2097152"
abbreviation (input) maxSignatureBytes :: nat where "maxSignatureBytes \<equiv> 4096"
abbreviation (input) supportedIndexSchema :: int where "supportedIndexSchema \<equiv> 1"

definition InstallMethod :: "update_lib \<Rightarrow> string" where
  "InstallMethod l = (if ul_installMethod l = ''apt'' then ''apt'' else ''self'')"

section \<open>URLs and versions\<close>

definition secureURL :: "update_lib \<Rightarrow> string \<Rightarrow> string option" where
  "secureURL l raw =
     (case lib_ParseURL (ul_lib l) raw of
        None \<Rightarrow> Some ''URL is invalid''
      | Some parsed \<Rightarrow>
          if url_Host parsed = '''' then Some ''URL is invalid''
          else if url_Scheme parsed = ''https'' then None
          else if url_Scheme parsed = ''http''
            \<and> (url_Hostname parsed = ''127.0.0.1'' \<or> url_Hostname parsed = ''::1'' \<or> url_Hostname parsed = ''localhost'')
          then None
          else Some ''URL must use HTTPS'')"

definition canonicalVersion :: "string \<Rightarrow> string" where
  "canonicalVersion version =
     (let v = trim_space version in if v \<noteq> '''' \<and> \<not> has_prefix v ''v'' then CHR ''v'' # v else v)"

definition is_hex :: "char \<Rightarrow> bool" where
  "is_hex c \<longleftrightarrow> is_digit c \<or> c \<in> set ''abcdefABCDEF''"

definition validateArtifact :: "update_lib \<Rightarrow> Artifact \<Rightarrow> string option" where
  "validateArtifact l artifact =
     (if \<not> ul_IsValid l (canonicalVersion (ua_Version artifact)) then Some ''invalid update version''
      else if length (ua_SHA256 artifact) \<noteq> 64
      then Some ''update SHA-256 must contain 64 lowercase hexadecimal characters''
      else if \<not> list_all is_hex (ua_SHA256 artifact) \<or> to_lower (ua_SHA256 artifact) \<noteq> ua_SHA256 artifact
      then Some ''update SHA-256 must contain 64 lowercase hexadecimal characters''
      else if ua_SizeBytes artifact \<le> 0 \<or> ua_SizeBytes artifact > int maxArtifactBytes
      then Some ''update size must be between 1 byte and 100 MiB''
      else secureURL l (ua_URL artifact))"

definition resolveArtifactURL :: "update_lib \<Rightarrow> string \<Rightarrow> string \<Rightarrow> string + string" where
  "resolveArtifactURL l indexURL raw =
     (case lib_ParseURL (ul_lib l) indexURL of
        None \<Rightarrow> Inl ''parse index URL''
      | Some base \<Rightarrow>
          (case lib_ParseURL (ul_lib l) raw of
             None \<Rightarrow> Inl ''parse artifact URL''
           | Some reference \<Rightarrow>
               let resolved = lib_URLString (ul_lib l) (ul_ResolveReference l base reference)
               in case secureURL l resolved of
                    Some e \<Rightarrow> Inl (''artifact URL: '' @ e)
                  | None \<Rightarrow> Inr resolved))"

definition detachedSignatureURL :: "update_lib \<Rightarrow> string \<Rightarrow> string + string" where
  "detachedSignatureURL l indexURL =
     (case lib_ParseURL (ul_lib l) indexURL of
        None \<Rightarrow> Inl ''URL is invalid''
      | Some parsed \<Rightarrow>
          if url_Host parsed = '''' then Inl ''URL is invalid''
          else Inr (lib_URLString (ul_lib l) (parsed\<lparr>url_Path := url_Path parsed @ ''.sig'', url_RawPath := ''''\<rparr>)))"

section \<open>Fetching\<close>

text \<open>\<open>io.ReadAll(io.LimitReader(r, maximum + 1))\<close> stops before an error behind the limit.\<close>

definition readLimited :: "nat \<Rightarrow> get_response \<Rightarrow> string + string" where
  "readLimited maximum r =
     (let data = concat (gr_Chunks r)
      in if length data > maximum then Inl ''response exceeds the limit''
         else if gr_Broken r then Inl ''read response'' else Inr data)"

text \<open>One GET whose answer, after redirects, must be a 200 from a secure URL.\<close>

definition get_checked :: "update_lib \<Rightarrow> fetch \<Rightarrow> string \<Rightarrow> string \<Rightarrow> string + get_response" where
  "get_checked l fetch what raw =
     (case fetch raw of
        Inl e \<Rightarrow> Inl (what @ '': '' @ e)
      | Inr r \<Rightarrow>
          if gr_Status r \<noteq> 200 then Inl (what @ '': HTTP '' @ itoa (gr_Status r))
          else case gr_FinalURL r of
            None \<Rightarrow> Inr r
          | Some final \<Rightarrow> (case secureURL l final of Some e \<Rightarrow> Inl (what @ '' redirect: '' @ e) | None \<Rightarrow> Inr r))"

definition verificationKey :: "update_lib \<Rightarrow> Manager \<Rightarrow> string + string" where
  "verificationKey l m =
     (if length (mg_publicKey m) = 32 then Inr (mg_publicKey m)
      else case (case lib_B64Decode (ul_lib l) (trim_space (ul_embeddedKey l)) of
                   Some k \<Rightarrow> Some k | None \<Rightarrow> lib_RawB64Decode (ul_lib l) (trim_space (ul_embeddedKey l))) of
        None \<Rightarrow> Inl ''update verification key is not configured''
      | Some k \<Rightarrow> if length k \<noteq> 32 then Inl ''update verification key is not configured'' else Inr k)"

definition verifyIndexSignature :: "update_lib \<Rightarrow> fetch \<Rightarrow> Manager \<Rightarrow> string \<Rightarrow> string option" where
  "verifyIndexSignature l fetch m indexBytes =
     (case verificationKey l m of
        Inl e \<Rightarrow> Some e
      | Inr key \<Rightarrow>
          (case detachedSignatureURL l (mg_IndexURL m) of
             Inl e \<Rightarrow> Some (''update signature URL: '' @ e)
           | Inr sigURL \<Rightarrow>
               (case get_checked l fetch ''fetch update index signature'' sigURL of
                  Inl e \<Rightarrow> Some e
                | Inr r \<Rightarrow>
                    (case readLimited maxSignatureBytes r of
                       Inl e \<Rightarrow> Some (''read update index signature: '' @ e)
                     | Inr encoded \<Rightarrow>
                         (case lib_B64Decode (ul_lib l) (trim_space encoded) of
                            None \<Rightarrow> Some ''update index signature is invalid''
                          | Some signature \<Rightarrow>
                              if length signature \<noteq> 64 then Some ''update index signature is invalid''
                              else if \<not> ul_Verify l key indexBytes signature
                              then Some ''update index signature verification failed'' else None)))))"

section \<open>Checking for an update\<close>

text \<open>Every artifact of the index; one without a version has that of its release.\<close>

definition versioned :: "string \<Rightarrow> Artifact \<Rightarrow> Artifact" where
  "versioned version artifact = (if ua_Version artifact = '''' then artifact\<lparr>ua_Version := version\<rparr> else artifact)"

definition index_artifacts :: "index \<Rightarrow> Artifact list" where
  "index_artifacts document =
     map (versioned (ix_Version document)) (ix_Artifacts document)
     @ concat (map (\<lambda>item. map (versioned (rl_Version item)) (rl_Artifacts item)) (ix_Releases document))"

definition wanted :: "update_lib \<Rightarrow> string \<Rightarrow> string \<Rightarrow> string \<Rightarrow> string \<Rightarrow> Artifact \<Rightarrow> bool" where
  "wanted l os arch kind current artifact \<longleftrightarrow>
     \<not> (ua_OS artifact \<noteq> os \<or> ua_Arch artifact \<noteq> arch \<or> (kind \<noteq> '''' \<and> ua_Kind artifact \<noteq> kind))
     \<and> \<not> (\<not> ul_IsValid l (canonicalVersion (ua_Version artifact))
          \<or> (ul_IsValid l current \<and> ul_Compare l (canonicalVersion (ua_Version artifact)) current \<le> 0))"

definition select_step :: "update_lib \<Rightarrow> Artifact option \<Rightarrow> Artifact \<Rightarrow> Artifact option" where
  "select_step l selected artifact =
     (case selected of
        None \<Rightarrow> Some artifact
      | Some s \<Rightarrow> if ua_Version s = ''''
            \<or> ul_Compare l (canonicalVersion (ua_Version artifact)) (canonicalVersion (ua_Version s)) > 0
          then Some artifact else Some s)"

definition select_artifact :: "update_lib \<Rightarrow> string \<Rightarrow> string \<Rightarrow> string \<Rightarrow> string \<Rightarrow> Artifact list \<Rightarrow> Artifact option" where
  "select_artifact l os arch kind current artifacts =
     (case foldl (select_step l) None (filter (wanted l os arch kind current) artifacts) of
        None \<Rightarrow> None | Some s \<Rightarrow> if ua_Version s = '''' then None else Some s)"

definition offer :: "update_lib \<Rightarrow> Manager \<Rightarrow> Artifact \<Rightarrow> update_error + Available" where
  "offer l m selected0 =
     (case resolveArtifactURL l (mg_IndexURL m) (ua_URL selected0) of
        Inl e \<Rightarrow> Inl (UpdateFailed e)
      | Inr resolved \<Rightarrow>
          let selected = selected0\<lparr>ua_URL := resolved\<rparr>
          in case validateArtifact l selected of
               Some e \<Rightarrow> Inl (UpdateFailed e)
             | None \<Rightarrow> Inr \<lparr>av_Artifact = selected, av_IndexURL = mg_IndexURL m, av_metadataVerified = True,
                 av_verifiedArtifact = selected\<rparr>)"

definition check_document :: "update_lib \<Rightarrow> Manager \<Rightarrow> string \<Rightarrow> string \<Rightarrow> index \<Rightarrow> update_error + Available" where
  "check_document l m currentVersion kind document =
     (if ix_SchemaVersion document > supportedIndexSchema then Inl (UpdateFailed ''unsupported update index schema'')
      else case select_artifact l (if mg_OS m = '''' then ul_GOOS l else mg_OS m)
             (if mg_Arch m = '''' then ul_GOARCH l else mg_Arch m) kind (canonicalVersion currentVersion)
             (index_artifacts document) of
        None \<Rightarrow> Inl NoUpdate
      | Some selected \<Rightarrow> offer l m selected)"

definition Check :: "update_lib \<Rightarrow> fetch \<Rightarrow> Manager \<Rightarrow> string \<Rightarrow> string \<Rightarrow> update_error + Available" where
  "Check l fetch m currentVersion kind =
     (if InstallMethod l = ''apt'' then Inl PackageManaged
      else case secureURL l (mg_IndexURL m) of
        Some e \<Rightarrow> Inl (UpdateFailed (''update index: '' @ e))
      | None \<Rightarrow>
          (case get_checked l fetch ''fetch update index'' (mg_IndexURL m) of
             Inl e \<Rightarrow> Inl (UpdateFailed e)
           | Inr r \<Rightarrow>
               (case readLimited maxIndexBytes r of
                  Inl e \<Rightarrow> Inl (UpdateFailed (''read update index: '' @ e))
                | Inr indexBytes \<Rightarrow>
                    (case verifyIndexSignature l fetch m indexBytes of
                       Some e \<Rightarrow> Inl (UpdateFailed e)
                     | None \<Rightarrow>
                         (case ul_DecIndex l indexBytes of
                            None \<Rightarrow> Inl (UpdateFailed ''decode update index'')
                          | Some document \<Rightarrow> check_document l m currentVersion kind document)))))"
section \<open>Staging\<close>

text \<open>
  \<open>progressWriter\<close>: it reports at most every \<open>progressStep\<close> bytes, and once more at the end. The
  reports are collected in the order they are made.
\<close>

record progressWriter =
  pw_total :: int
  pw_written :: int
  pw_reported :: int
  pw_reports :: "(int \<times> int) list"

definition progress_flush :: "progressWriter \<Rightarrow> progressWriter" where
  "progress_flush w =
     (if pw_written w = pw_reported w then w
      else w\<lparr>pw_reported := pw_written w, pw_reports := pw_reports w @ [(pw_written w, pw_total w)]\<rparr>)"

definition progress_write :: "progressWriter \<Rightarrow> string \<Rightarrow> progressWriter" where
  "progress_write w chunk =
     (let w1 = w\<lparr>pw_written := pw_written w + int (length chunk)\<rparr>
      in if pw_written w1 - pw_reported w1 \<ge> int progressStep then progress_flush w1 else w1)"

definition progress_of :: "bool \<Rightarrow> int \<Rightarrow> string list \<Rightarrow> (int \<times> int) list" where
  "progress_of watched expected chunks =
     (if watched
      then pw_reports (progress_flush (foldl progress_write
             \<lparr>pw_total = expected, pw_written = 0, pw_reported = 0, pw_reports = []\<rparr> chunks))
      else [])"

record stage_faults =
  sf_mkdir :: bool
  sf_open :: bool
  sf_write_after :: "nat option"
  sf_sync :: bool
  sf_close :: bool
  sf_rename :: bool

type_synonym files = "string \<rightharpoonup> string"

text \<open>
  \<open>io.Copy\<close> from \<open>io.LimitReader\<close>: the chunks that were written, and whether the copy failed. A full
  disk fails the write of a chunk; a broken body fails behind its last chunk, unless the limit came
  first.
\<close>

fun limit_chunks :: "nat \<Rightarrow> string list \<Rightarrow> string list" where
  "limit_chunks n [] = []"
| "limit_chunks n (c # cs) =
     (if n = 0 then [] else if length c \<ge> n then [take n c] else c # limit_chunks (n - length c) cs)"

definition copy_body :: "stage_faults \<Rightarrow> get_response \<Rightarrow> string list \<times> bool" where
  "copy_body fl r =
     (let cs = limit_chunks (maxArtifactBytes + 1) (gr_Chunks r)
      in case sf_write_after fl of
           Some k \<Rightarrow> if k < length cs then (take k cs, True)
             else (cs, gr_Broken r \<and> length (concat cs) \<le> maxArtifactBytes)
         | None \<Rightarrow> (cs, gr_Broken r \<and> length (concat cs) \<le> maxArtifactBytes))"

definition staged_name :: "update_lib \<Rightarrow> Artifact \<Rightarrow> string" where
  "staged_name l a =
     (let named = base_name (ua_Filename a);
          from_url = base_name (case lib_ParseURL (ul_lib l) (ua_URL a) of Some u \<Rightarrow> url_Path u | None \<Rightarrow> '''');
          f = (if named = ''.'' \<or> named = '''' then from_url else named)
      in if f = ''.'' \<or> f = '''' \<or> f = ''/'' then ''axon-pulse.update'' else f)"

definition trim_v :: "string \<Rightarrow> string" where
  "trim_v s = (case cut_prefix s ''v'' of Some t \<Rightarrow> t | None \<Rightarrow> s)"

definition staged_path :: "update_lib \<Rightarrow> string \<Rightarrow> Artifact \<Rightarrow> string" where
  "staged_path l stateDir a =
     stateDir @ ''/updates/'' @ trim_v (canonicalVersion (ua_Version a)) @ ''/'' @ staged_name l a"

definition temporary_path :: "update_lib \<Rightarrow> string \<Rightarrow> Artifact \<Rightarrow> string" where
  "temporary_path l stateDir a = staged_path l stateDir a @ ''.part''"

text \<open>The checks on what was copied, in the order of the code.\<close>

definition reject_copy :: "update_lib \<Rightarrow> stage_faults \<Rightarrow> Artifact \<Rightarrow> string list \<Rightarrow> bool \<Rightarrow> string option" where
  "reject_copy l fl a chunks copy_failed =
     (let data = concat chunks
      in if copy_failed \<or> sf_sync fl \<or> sf_close fl then Some ''write staged update''
         else if length data > maxArtifactBytes \<or> int (length data) \<noteq> ua_SizeBytes a
         then Some ''staged update size does not match''
         else if lib_Sum256Hex (ul_lib l) data \<noteq> ua_SHA256 a
         then Some ''staged update checksum does not match release index'' else None)"

definition write_staged ::
    "update_lib \<Rightarrow> stage_faults \<Rightarrow> bool \<Rightarrow> Artifact \<Rightarrow> string \<Rightarrow> get_response \<Rightarrow> files
     \<Rightarrow> files \<times> (int \<times> int) list \<times> (update_error + string)" where
  "write_staged l fl watched a stateDir r fs =
     (let temporary = temporary_path l stateDir a; staged = trim_suffix temporary ''.part'';
          (chunks, copy_failed) = copy_body fl r; data = concat chunks;
          reports = progress_of watched (ua_SizeBytes a) chunks
      in case reject_copy l fl a chunks copy_failed of
           Some e \<Rightarrow> (fs(temporary := None), reports, Inl (UpdateFailed e))
         | None \<Rightarrow>
             if sf_rename fl then (fs(temporary \<mapsto> data), reports, Inl (UpdateFailed ''finalize staged update''))
             else (fs(temporary := None, staged \<mapsto> data), reports, Inr staged))"

definition Stage ::
    "update_lib \<Rightarrow> fetch \<Rightarrow> stage_faults \<Rightarrow> Manager \<Rightarrow> Available \<Rightarrow> string \<Rightarrow> files
     \<Rightarrow> files \<times> (int \<times> int) list \<times> (update_error + string)" where
  "Stage l fetch fl m available stateDir fs =
     (let a = av_Artifact available in
      if InstallMethod l = ''apt'' then (fs, [], Inl PackageManaged)
      else if \<not> av_metadataVerified available \<or> a \<noteq> av_verifiedArtifact available
      then (fs, [], Inl (UpdateFailed ''update metadata was not authenticated''))
      else case validateArtifact l a of
        Some e \<Rightarrow> (fs, [], Inl (UpdateFailed e))
      | None \<Rightarrow>
          (case get_checked l fetch ''download update'' (ua_URL a) of
             Inl e \<Rightarrow> (fs, [], Inl (UpdateFailed e))
           | Inr r \<Rightarrow>
               if sf_mkdir fl then (fs, [], Inl (UpdateFailed ''create update directory''))
               else if sf_open fl then (fs, [], Inl (UpdateFailed ''create staged update''))
               else write_staged l fl (mg_Progress m) a stateDir r fs))"
section \<open>What an offer is worth\<close>

text \<open>
  What the updater relies on in \<open>semver\<close>: a valid version starts with \<open>v\<close>, and \<open>Compare\<close> orders
  versions linearly up to equal precedence.
\<close>

definition semver_laws :: "update_lib \<Rightarrow> bool" where
  "semver_laws l \<longleftrightarrow> (\<forall>v. ul_IsValid l v \<longrightarrow> has_prefix v ''v'')
     \<and> (\<forall>a b. ul_Compare l a b > 0 \<longrightarrow> ul_Compare l b a \<le> 0) \<and> (\<forall>a. ul_Compare l a a \<le> 0)
     \<and> (\<forall>a b c. ul_Compare l a b \<le> 0 \<longrightarrow> ul_Compare l b c \<le> 0 \<longrightarrow> ul_Compare l a c \<le> 0)"

abbreviation (input) at_most :: "update_lib \<Rightarrow> Artifact \<Rightarrow> Artifact \<Rightarrow> bool" where
  "at_most l a b \<equiv> ul_Compare l (canonicalVersion (ua_Version a)) (canonicalVersion (ua_Version b)) \<le> 0"

lemma canonical_empty [simp]: "canonicalVersion '''' = ''''"
  by (simp add: canonicalVersion_def trim_space_def)

lemma wanted_versioned: "semver_laws l \<Longrightarrow> wanted l os arch kind current a \<Longrightarrow> ua_Version a \<noteq> ''''"
  by (auto simp: semver_laws_def wanted_def has_prefix_def)

lemma fold_select:
  assumes "semver_laws l" "\<forall>b\<in>set bs. ua_Version b \<noteq> ''''" "ua_Version s0 \<noteq> ''''"
  shows "\<exists>s. foldl (select_step l) (Some s0) bs = Some s \<and> s \<in> insert s0 (set bs)
    \<and> (\<forall>b\<in>insert s0 (set bs). at_most l b s)"
  using assms(2,3)
proof (induction bs arbitrary: s0)
  case Nil
  then show ?case using assms(1) by (simp add: semver_laws_def)
next
  case (Cons b bs)
  define s1 where "s1 = (if ul_Compare l (canonicalVersion (ua_Version b)) (canonicalVersion (ua_Version s0)) > 0 then b else s0)"
  have step: "select_step l (Some s0) b = Some s1" using Cons.prems by (simp add: select_step_def s1_def)
  have mem: "s1 \<in> {s0, b}" by (simp add: s1_def)
  have both: "at_most l s0 s1" "at_most l b s1" using assms(1) by (auto simp: s1_def semver_laws_def)
  obtain s where s: "foldl (select_step l) (Some s1) bs = Some s" "s \<in> insert s1 (set bs)"
    "\<forall>c\<in>insert s1 (set bs). at_most l c s"
    using Cons.IH[of s1] Cons.prems mem by auto
  have trans: "at_most l x y \<Longrightarrow> at_most l y z \<Longrightarrow> at_most l x z" for x y z
    using assms(1) unfolding semver_laws_def by blast
  have "at_most l s1 s" using s(3) by blast
  then have "at_most l s0 s" "at_most l b s" using both trans by blast+
  then have "\<forall>c\<in>insert s0 (set (b # bs)). at_most l c s" using s(3) by auto
  moreover have "s \<in> insert s0 (set (b # bs))" using s(2) mem by auto
  ultimately show ?case using s(1) step by auto
qed

lemma select_artifact_max:
  assumes "semver_laws l" "select_artifact l os arch kind current as = Some s"
  shows "s \<in> set as" "wanted l os arch kind current s" "\<forall>b\<in>set as. wanted l os arch kind current b \<longrightarrow> at_most l b s"
proof -
  let ?ws = "filter (wanted l os arch kind current) as"
  have s: "foldl (select_step l) None ?ws = Some s"
    using assms(2) by (auto simp: select_artifact_def split: option.splits if_splits)
  then obtain w ws where ws: "?ws = w # ws" by (cases ?ws) auto
  have all: "\<forall>b\<in>set ?ws. ua_Version b \<noteq> ''''" using wanted_versioned[OF assms(1)] by auto
  have first: "select_step l None w = Some w" by (simp add: select_step_def)
  have nonempty: "\<forall>b\<in>set ws. ua_Version b \<noteq> ''''" "ua_Version w \<noteq> ''''" using all unfolding ws by auto
  obtain s' where s': "foldl (select_step l) (Some w) ws = Some s'" "s' \<in> insert w (set ws)"
    "\<forall>b\<in>insert w (set ws). at_most l b s'"
    using fold_select[OF assms(1) nonempty] by blast
  have eq: "s' = s" using s s'(1) unfolding ws by (simp add: first)
  have set: "insert w (set ws) = set ?ws" unfolding ws by simp
  have "s \<in> set ?ws" and most: "\<forall>b\<in>set ?ws. at_most l b s"
    using s'(2,3) unfolding eq set by blast+
  then show "s \<in> set as" "wanted l os arch kind current s" by auto
  show "\<forall>b\<in>set as. wanted l os arch kind current b \<longrightarrow> at_most l b s" using most by simp
qed

lemma select_artifact_none:
  assumes "semver_laws l" "select_artifact l os arch kind current as = None"
  shows "\<forall>b\<in>set as. \<not> wanted l os arch kind current b"
proof (rule ccontr)
  let ?ws = "filter (wanted l os arch kind current) as"
  assume "\<not> ?thesis"
  then obtain w ws where ws: "?ws = w # ws" by (cases ?ws) (auto simp: filter_empty_conv)
  have all: "\<forall>b\<in>set ?ws. ua_Version b \<noteq> ''''" using wanted_versioned[OF assms(1)] by auto
  then have nonempty: "\<forall>b\<in>set ws. ua_Version b \<noteq> ''''" "ua_Version w \<noteq> ''''" unfolding ws by auto
  obtain s' where s': "foldl (select_step l) (Some w) ws = Some s'" "s' \<in> insert w (set ws)"
    using fold_select[OF assms(1) nonempty] by blast
  have "ua_Version s' \<noteq> ''''" using s'(2) nonempty by auto
  moreover have "foldl (select_step l) None ?ws = Some s'"
    unfolding ws using s'(1) by (simp add: select_step_def)
  ultimately show False using assms(2) by (simp add: select_artifact_def)
qed

text \<open>What a check has seen of the index it accepts: the bytes, and the key that signed them.\<close>

definition signed_index :: "update_lib \<Rightarrow> fetch \<Rightarrow> Manager \<Rightarrow> string \<Rightarrow> bool" where
  "signed_index l fetch m indexBytes \<longleftrightarrow> (\<exists>r key signature.
     fetch (mg_IndexURL m) = Inr r \<and> gr_Status r = 200 \<and> concat (gr_Chunks r) = indexBytes
     \<and> length indexBytes \<le> maxIndexBytes \<and> verificationKey l m = Inr key \<and> length key = 32
     \<and> length signature = 64 \<and> ul_Verify l key indexBytes signature)"

lemma verificationKey_length: "verificationKey l m = Inr key \<Longrightarrow> length key = 32"
  by (auto simp: verificationKey_def split: if_splits option.splits)

lemma get_checked_ok: "get_checked l fetch what raw = Inr r \<Longrightarrow> fetch raw = Inr r \<and> gr_Status r = 200"
  by (auto simp: get_checked_def split: sum.splits if_splits option.splits)

lemma readLimited_ok: "readLimited n r = Inr d \<Longrightarrow> d = concat (gr_Chunks r) \<and> length d \<le> n"
  by (auto simp: readLimited_def Let_def split: if_splits)

lemma verifyIndexSignature_ok:
  assumes "verifyIndexSignature l fetch m indexBytes = None"
  obtains key signature where "verificationKey l m = Inr key" "length signature = 64" "ul_Verify l key indexBytes signature"
  using assms by (auto simp: verifyIndexSignature_def split: sum.splits if_splits option.splits)

lemma Check_cases:
  assumes "Check l fetch m currentVersion kind = res" "res \<in> range Inr \<or> res = Inl NoUpdate"
  obtains indexBytes document where "signed_index l fetch m indexBytes" "secureURL l (mg_IndexURL m) = None"
    "ul_DecIndex l indexBytes = Some document" "check_document l m currentVersion kind document = res"
proof -
  obtain r indexBytes document where c: "secureURL l (mg_IndexURL m) = None"
    "get_checked l fetch ''fetch update index'' (mg_IndexURL m) = Inr r" "readLimited maxIndexBytes r = Inr indexBytes"
    "verifyIndexSignature l fetch m indexBytes = None" "ul_DecIndex l indexBytes = Some document"
    "check_document l m currentVersion kind document = res"
    using assms by (fastforce simp: Check_def split: if_splits option.splits sum.splits)
  from c(4) obtain key signature where v: "verificationKey l m = Inr key" "length signature = 64"
    "ul_Verify l key indexBytes signature" by (rule verifyIndexSignature_ok)
  have "signed_index l fetch m indexBytes"
    unfolding signed_index_def using get_checked_ok[OF c(2)] readLimited_ok[OF c(3)] v verificationKey_length[OF v(1)]
    by blast
  with c that show ?thesis by blast
qed
definition os_of :: "update_lib \<Rightarrow> Manager \<Rightarrow> string" where
  "os_of l m = (if mg_OS m = '''' then ul_GOOS l else mg_OS m)"

definition arch_of :: "update_lib \<Rightarrow> Manager \<Rightarrow> string" where
  "arch_of l m = (if mg_Arch m = '''' then ul_GOARCH l else mg_Arch m)"

definition authentic :: "update_lib \<Rightarrow> Available \<Rightarrow> bool" where
  "authentic l av \<longleftrightarrow> av_metadataVerified av \<and> av_Artifact av = av_verifiedArtifact av \<and> validateArtifact l (av_Artifact av) = None"

lemma offer_ok:
  assumes "offer l m s = Inr av"
  obtains u where "av_Artifact av = s\<lparr>ua_URL := u\<rparr>" "secureURL l u = None" "authentic l av" "av_IndexURL av = mg_IndexURL m"
  using assms by (auto simp: offer_def authentic_def resolveArtifactURL_def Let_def split: sum.splits option.splits)

lemma Check_authentic: "Check l fetch m v kind = Inr av \<Longrightarrow> authentic l av \<and> av_IndexURL av = mg_IndexURL m"
  by (erule Check_cases) (auto simp: check_document_def elim: offer_ok split: if_splits option.splits)

lemma wanted_url [simp]: "wanted l os arch kind current (a\<lparr>ua_URL := u\<rparr>) = wanted l os arch kind current a"
  by (simp add: wanted_def)


section \<open>What is staged\<close>

lemma has_suffix_append [simp]: "has_suffix (s @ p) p"
  by (simp add: has_suffix_def has_prefix_def)

lemma trim_suffix_append [simp]: "trim_suffix (s @ p) p = s"
  by (simp add: trim_suffix_def)

lemma temporary_differs: "temporary_path l d a \<noteq> staged_path l d a"
  by (simp add: temporary_path_def)

lemma trim_temporary [simp]: "trim_suffix (temporary_path l d a) ''.part'' = staged_path l d a"
  by (simp add: temporary_path_def)

lemma limit_chunks_length: "length (concat (limit_chunks n cs)) \<le> n"
  by (induction n cs rule: limit_chunks.induct) auto

text \<open>What staging leaves behind, in either case.\<close>

lemma Stage_ok:
  assumes "Stage l fetch fl m av stateDir fs = (fs', reports, Inr path)"
  shows "path = staged_path l stateDir (av_Artifact av) \<and> authentic l av \<and> fs' (temporary_path l stateDir (av_Artifact av)) = None
    \<and> (\<forall>p. p \<noteq> path \<and> p \<noteq> temporary_path l stateDir (av_Artifact av) \<longrightarrow> fs' p = fs p)
    \<and> (\<exists>data. fs' path = Some data \<and> int (length data) = ua_SizeBytes (av_Artifact av) \<and> length data \<le> maxArtifactBytes
         \<and> lib_Sum256Hex (ul_lib l) data = ua_SHA256 (av_Artifact av))"
  using assms temporary_differs[of l stateDir "av_Artifact av"]
  by (auto simp: Stage_def Let_def write_staged_def reject_copy_def authentic_def
      split: option.splits sum.splits prod.splits if_splits)

lemma Stage_failed:
  assumes "Stage l fetch fl m av stateDir fs = (fs', reports, Inl e)"
  shows "(\<forall>p. p \<noteq> temporary_path l stateDir (av_Artifact av) \<longrightarrow> fs' p = fs p)
    \<and> (fs' = fs \<or> sf_rename fl \<or> fs' (temporary_path l stateDir (av_Artifact av)) = None)"
  using assms
  by (auto simp: Stage_def Let_def write_staged_def reject_copy_def authentic_def
      split: option.splits sum.splits prod.splits if_splits)


section \<open>Progress\<close>

text \<open>The byte counts reported so far, the last one first.\<close>

abbreviation (input) reported :: "progressWriter \<Rightarrow> int list" where
  "reported w \<equiv> rev (map fst (pw_reports w))"

definition progress_ok :: "progressWriter \<Rightarrow> bool" where
  "progress_ok w \<longleftrightarrow> pw_reported w = (case reported w of [] \<Rightarrow> 0 | n # _ \<Rightarrow> n) \<and> pw_reported w \<le> pw_written w
     \<and> sorted_wrt (\<lambda>a b. a \<ge> b + int progressStep) (reported w) \<and> int (length (reported w)) * int progressStep \<le> pw_reported w
     \<and> snd ` set (pw_reports w) \<subseteq> {pw_total w}"

lemma progress_write_ok:
  assumes "progress_ok w"
  shows "progress_ok (progress_write w c) \<and> pw_written (progress_write w c) = pw_written w + int (length c)
    \<and> pw_total (progress_write w c) = pw_total w"
proof (cases "pw_written w + int (length c) - pw_reported w \<ge> int progressStep")
  case True
  have top: "\<forall>n\<in>set (reported w). n \<le> pw_reported w"
    using assms by (cases "reported w") (auto simp: progress_ok_def)
  show ?thesis using True assms top
    by (auto simp: progress_write_def progress_flush_def progress_ok_def Let_def algebra_simps)
next
  case False
  then show ?thesis using assms by (auto simp: progress_write_def progress_ok_def Let_def split: list.splits)
qed

lemma progress_fold_ok:
  "progress_ok w \<Longrightarrow> progress_ok (foldl progress_write w cs)
     \<and> pw_written (foldl progress_write w cs) = pw_written w + int (length (concat cs))
     \<and> pw_total (foldl progress_write w cs) = pw_total w"
proof (induction cs arbitrary: w)
  case Nil
  then show ?case by simp
next
  case (Cons c cs)
  then show ?case using progress_write_ok[OF Cons.prems, of c] by fastforce
qed

text \<open>
  However the network cuts the download into chunks, the reports a watcher sees grow by at
  least 256 KiB from one to the next, the last one apart, so there is at most one for every
  256 KiB and one more; they all carry the expected size; and the last is exactly what was written.
\<close>

theorem progress_throttled:
  shows "let ns = map fst (progress_of True expected chunks); total = int (length (concat chunks)) in
     sorted_wrt (\<lambda>a b. a + int progressStep \<le> b) (butlast ns) \<and> sorted_wrt (<) ns
     \<and> (if total = 0 then ns = [] else List.last ns = total) \<and> int (length ns) * int progressStep \<le> total + int progressStep
     \<and> set (map snd (progress_of True expected chunks)) \<subseteq> {expected}"
proof -
  define w where "w = foldl progress_write
    \<lparr>pw_total = expected, pw_written = 0, pw_reported = 0, pw_reports = []\<rparr> chunks"
  have ok: "progress_ok w" and w: "pw_written w = int (length (concat chunks))" "pw_total w = expected"
    using progress_fold_ok[of "\<lparr>pw_total = expected, pw_written = 0, pw_reported = 0, pw_reports = []\<rparr>" chunks]
    by (auto simp: w_def progress_ok_def)
  have sorted: "sorted_wrt (\<lambda>a b. a + int progressStep \<le> b) (map fst (pw_reports w))"
    using ok by (simp add: progress_ok_def sorted_wrt_rev)
  have top: "\<forall>n\<in>set (map fst (pw_reports w)). n \<le> pw_reported w"
    using ok by (cases "reported w") (auto simp: progress_ok_def)
  have reps: "progress_of True expected chunks = pw_reports (progress_flush w)" by (simp add: progress_of_def w_def)
  have lt: "sorted_wrt (<) (map fst (pw_reports w))" by (rule sorted_wrt_mono_rel[OF _ sorted]) simp
  have front: "sorted_wrt (\<lambda>a b. a + int progressStep \<le> b) (butlast (map fst (pw_reports w)))"
    using sorted by (metis butlast_conv_take sorted_wrt_take)
  have end_top: "pw_reports w = [] \<Longrightarrow> pw_reported w = 0" "pw_reports w \<noteq> [] \<Longrightarrow> List.last (map fst (pw_reports w)) = pw_reported w"
    using ok by (auto simp: progress_ok_def hd_rev[symmetric] hd_conv_nth split: list.splits)
  have size: "int (length (pw_reports w)) * int progressStep \<le> pw_reported w" "snd ` set (pw_reports w) \<subseteq> {expected}"
    using ok w by (auto simp: progress_ok_def)
  show ?thesis
  proof (cases "pw_written w = pw_reported w")
    case True
    then show ?thesis using size lt front end_top w by (auto simp: reps progress_flush_def Let_def)
  next
    case False
    then have "pw_reported w < pw_written w" using ok by (simp add: progress_ok_def)
    moreover from this have "0 < int (length (concat chunks))" using size(1) w(1) by linarith
    then have "length (concat chunks) \<noteq> 0" by linarith
    then have "concat chunks \<noteq> []" by (metis list.size(3))
    ultimately show ?thesis using False size sorted lt top w
      by (auto simp: reps progress_flush_def Let_def sorted_wrt_append algebra_simps simp del: concat_eq_Nil_conv)
  qed
qed
section \<open>An update\<close>

definition demo_artifact :: "string \<Rightarrow> Artifact" where
  "demo_artifact version = \<lparr>ua_Version = version, ua_OS = ''linux'', ua_Arch = ''amd64'', ua_Kind = ''headless'',
     ua_Filename = ''pulsed'', ua_URL = ''https://pulse.example.com/a'', ua_SHA256 = replicate 64 CHR ''a'', ua_SizeBytes = 64\<rparr>"

definition demo_index :: index where
  "demo_index = \<lparr>ix_SchemaVersion = 1, ix_GeneratedAt = '''', ix_Version = '''', ix_Artifacts = [demo_artifact ''1.0''],
     ix_Releases = [\<lparr>rl_Version = ''1.0.1'', rl_Artifacts = [demo_artifact '''']\<rparr>]\<rparr>"

definition demo_update_lib :: update_lib where
  "demo_update_lib = \<lparr>ul_lib = demo_lib, ul_IsValid = (\<lambda>v. has_prefix v ''v''),
     ul_Compare = (\<lambda>a b. int (length a) - int (length b)), ul_Verify = (\<lambda>k b s. s = replicate 64 CHR ''s''),
     ul_ResolveReference = (\<lambda>base r. r), ul_DecIndex = (\<lambda>_. Some demo_index), ul_GOOS = ''linux'', ul_GOARCH = ''amd64'',
     ul_embeddedKey = '''', ul_installMethod = ''''\<rparr>"

definition demo_manager :: Manager where
  "demo_manager = \<lparr>mg_IndexURL = ''https://pulse.example.com/i'', mg_OS = '''', mg_Arch = '''', mg_Progress = True,
     mg_publicKey = replicate 32 CHR ''k''\<rparr>"

definition demo_fetch :: fetch where
  "demo_fetch s = Inr \<lparr>gr_Status = 200, gr_FinalURL = Some s,
     gr_Chunks = (if s = ''https://pulse.example.com/i.sig'' then [replicate 64 CHR ''s'']
       else if s = ''https://pulse.example.com/a'' then [replicate 64 CHR ''a''] else [''index'']),
     gr_Broken = False\<rparr>"

definition demo_available :: Available where
  "demo_available = \<lparr>av_Artifact = demo_artifact ''1.0.1'', av_IndexURL = ''https://pulse.example.com/i'',
     av_metadataVerified = True, av_verifiedArtifact = demo_artifact ''1.0.1''\<rparr>"

lemma demo_laws: "semver_laws demo_update_lib"
  by (simp add: semver_laws_def demo_update_lib_def)

lemma demo_secure [simp]:
  "secureURL demo_update_lib ''https://pulse.example.com/i'' = None"
  "secureURL demo_update_lib ''https://pulse.example.com/i.sig'' = None"
  "secureURL demo_update_lib ''https://pulse.example.com/a'' = None"
  by (simp_all add: secureURL_def demo_update_lib_def demo_lib_def has_prefix_def demo_url_def)

lemma demo_canonical [simp]:
  "canonicalVersion ''1.0'' = ''v1.0''" "canonicalVersion ''1.0.1'' = ''v1.0.1''" "canonicalVersion ''0.9'' = ''v0.9''"
  by (simp_all add: canonicalVersion_def trim_space_def is_space_def has_prefix_def)

lemma demo_valid: "validateArtifact demo_update_lib (demo_artifact ''1.0.1'') = None"
proof -
  have "list_all is_hex (replicate 64 CHR ''a'')" by (simp add: list_all_iff is_hex_def)
  moreover have "to_lower (replicate 64 CHR ''a'') = replicate 64 CHR ''a''"
    by (simp add: to_lower_def lower_char_def map_replicate)
  moreover have "ul_IsValid demo_update_lib ''v1.0.1''" by (simp add: demo_update_lib_def has_prefix_def)
  ultimately show ?thesis by (simp add: validateArtifact_def demo_artifact_def)
qed

lemma demo_signature: "verifyIndexSignature demo_update_lib demo_fetch demo_manager ''index'' = None"
proof -
  have url: "detachedSignatureURL demo_update_lib ''https://pulse.example.com/i'' = Inr ''https://pulse.example.com/i.sig''"
    by (simp add: detachedSignatureURL_def demo_update_lib_def demo_lib_def demo_url_def has_prefix_def)
  have key: "verificationKey demo_update_lib demo_manager = Inr (replicate 32 CHR ''k'')"
    by (simp add: verificationKey_def demo_manager_def)
  have trim: "trim_space (replicate 64 CHR ''s'') = replicate 64 CHR ''s''"
    by (simp add: trim_space_def is_space_def)
  show ?thesis
    unfolding verifyIndexSignature_def key
    by (simp add: url demo_manager_def get_checked_def demo_fetch_def readLimited_def trim)
      (simp add: demo_update_lib_def demo_lib_def)
qed
lemma demo_check: "Check demo_update_lib demo_fetch demo_manager ''0.9'' ''headless'' = Inr demo_available"
proof -
  have arts: "index_artifacts demo_index = [demo_artifact ''1.0'', demo_artifact ''1.0.1'']"
    by (simp add: index_artifacts_def demo_index_def versioned_def demo_artifact_def)
  have sel: "select_artifact demo_update_lib ''linux'' ''amd64'' ''headless'' ''v0.9''
      [demo_artifact ''1.0'', demo_artifact ''1.0.1''] = Some (demo_artifact ''1.0.1'')"
    by (simp add: select_artifact_def select_step_def wanted_def demo_artifact_def demo_update_lib_def has_prefix_def)
  have url: "resolveArtifactURL demo_update_lib ''https://pulse.example.com/i'' ''https://pulse.example.com/a''
      = Inr ''https://pulse.example.com/a''"
    by (simp add: resolveArtifactURL_def)
      (simp add: demo_update_lib_def demo_lib_def demo_url_def has_prefix_def secureURL_def)
  have same: "(demo_artifact ''1.0.1'')\<lparr>ua_URL := ''https://pulse.example.com/a''\<rparr> = demo_artifact ''1.0.1''"
    "ua_URL (demo_artifact ''1.0.1'') = ''https://pulse.example.com/a''"
    by (simp_all add: demo_artifact_def)
  have offered: "offer demo_update_lib demo_manager (demo_artifact ''1.0.1'') = Inr demo_available"
    by (simp add: offer_def demo_manager_def url same demo_valid demo_available_def Let_def)
  have self: "InstallMethod demo_update_lib \<noteq> ''apt''" "ul_DecIndex demo_update_lib s = Some demo_index"
    "ul_GOOS demo_update_lib = ''linux''" "ul_GOARCH demo_update_lib = ''amd64''" for s
    by (simp_all add: InstallMethod_def demo_update_lib_def)
  have doc: "check_document demo_update_lib demo_manager ''0.9'' ''headless'' demo_index = Inr demo_available"
  proof -
    have "mg_OS demo_manager = ''''" "mg_Arch demo_manager = ''''" "ix_SchemaVersion demo_index = 1"
      by (simp_all add: demo_manager_def demo_index_def)
    then show ?thesis by (simp add: check_document_def self arts sel offered)
  qed
  have "mg_IndexURL demo_manager = ''https://pulse.example.com/i''" by (simp add: demo_manager_def)
  moreover have "get_checked demo_update_lib demo_fetch what ''https://pulse.example.com/i''
      = demo_fetch ''https://pulse.example.com/i''" for what
    by (simp add: get_checked_def demo_fetch_def)
  moreover have "demo_fetch ''https://pulse.example.com/i'' = Inr \<lparr>gr_Status = 200,
      gr_FinalURL = Some ''https://pulse.example.com/i'', gr_Chunks = [''index''], gr_Broken = False\<rparr>"
    by (simp add: demo_fetch_def)
  ultimately show ?thesis by (simp add: Check_def self readLimited_def demo_signature doc)
qed


definition no_stage_faults :: stage_faults where
  "no_stage_faults = \<lparr>sf_mkdir = False, sf_open = False, sf_write_after = None, sf_sync = False, sf_close = False,
     sf_rename = False\<rparr>"

lemma demo_stage:
  "\<exists>fs reports. Stage demo_update_lib demo_fetch no_stage_faults demo_manager demo_available ''/var/lib/pulse'' Map.empty
     = (fs, reports, Inr (staged_path demo_update_lib ''/var/lib/pulse'' (demo_artifact ''1.0.1'')))"
proof -
  let ?r = "\<lparr>gr_Status = 200, gr_FinalURL = Some ''https://pulse.example.com/a'', gr_Chunks = [replicate 64 CHR ''a''],
    gr_Broken = False\<rparr>"
  have got: "get_checked demo_update_lib demo_fetch what ''https://pulse.example.com/a'' = Inr ?r" for what
    by (simp add: get_checked_def demo_fetch_def)
  have copy: "copy_body no_stage_faults ?r = ([replicate 64 CHR ''a''], False)"
    by (simp add: copy_body_def no_stage_faults_def)
  have keep: "reject_copy demo_update_lib no_stage_faults (demo_artifact ''1.0.1'') [replicate 64 CHR ''a''] False = None"
    by (simp add: reject_copy_def no_stage_faults_def demo_artifact_def demo_update_lib_def demo_lib_def)
  have self: "InstallMethod demo_update_lib \<noteq> ''apt''" "av_Artifact demo_available = demo_artifact ''1.0.1''"
    "av_verifiedArtifact demo_available = demo_artifact ''1.0.1''" "av_metadataVerified demo_available"
    "ua_URL (demo_artifact ''1.0.1'') = ''https://pulse.example.com/a''" "\<not> sf_mkdir no_stage_faults"
    "\<not> sf_open no_stage_faults" "\<not> sf_rename no_stage_faults"
    by (simp_all add: InstallMethod_def demo_update_lib_def demo_available_def demo_artifact_def no_stage_faults_def)
  show ?thesis by (simp add: Stage_def self demo_valid got write_staged_def copy keep Let_def)
qed


end
