(* ===== verification/Update_Service.thy ===== *)
theory Update_Service
  imports Service Update
begin

text \<open>
  How the service updates itself (\<open>internal/service/service.go\<close>, \<open>package_restart.go\<close>): the stream it
  follows, the checks, the staging and activation of an update, the automatic check of a day, and
  the restart after the package manager replaced the binary. The lock \<open>updateRun\<close> makes each of
  these one step. An \<open>update_env\<close> is what a step gets from outside: the environment variables, the
  transport, the faults of the file system, whether the running work drained in time, and the
  answer of the platform's activation. What is activated is collected in \<open>uv_activated\<close>.
\<close>

section \<open>State\<close>

record UpdateStatus =
  us_UpdateMethod :: string
  us_CurrentVersion :: string
  us_AvailableVersion :: string
  us_Available :: "Available option"
  us_StagedPath :: string
  us_Restarting :: bool
  us_CheckedAt :: time
  us_Channel :: string
  us_ChannelLocked :: bool
  us_CheckError :: string

record Updates =
  uv_service :: Service
  uv_manager :: Manager
  uv_status :: UpdateStatus
  uv_lastUpdateCheck :: time
  uv_packageInfo :: "nat option"
  uv_packageCheckedAt :: time
  uv_packageRestart :: bool
  uv_drained :: bool
  uv_shutdown :: bool
  uv_files :: files
  uv_activated :: "(string \<times> string \<times> string) list"

record update_env =
  ue_env :: service_env
  ue_fetch :: fetch
  ue_faults :: stage_faults
  ue_index_url :: string
  ue_channel :: string
  ue_disable_auto :: string
  ue_version :: string
  ue_product :: string
  ue_stateDir :: string
  ue_quiesce :: "string option"
  ue_executable :: "string + string"
  ue_activate :: "string option"
  ue_package :: "(nat \<times> time) option"

abbreviation (input) ue_now :: "update_env \<Rightarrow> time" where "ue_now ue \<equiv> se_now (ue_env ue)"

definition on_status :: "(UpdateStatus \<Rightarrow> UpdateStatus) \<Rightarrow> Updates \<Rightarrow> Updates" where
  "on_status f u = u\<lparr>uv_status := f (uv_status u)\<rparr>"

definition set_update_busy :: "bool \<Rightarrow> Updates \<Rightarrow> Updates" where
  "set_update_busy b u = u\<lparr>uv_service := (uv_service u)\<lparr>sv_updateBusy := b\<rparr>\<rparr>"

definition update_busy :: "Updates \<Rightarrow> bool" where
  "update_busy u \<longleftrightarrow> sv_updateBusy (uv_service u)"

definition serviceVersion :: "update_env \<Rightarrow> string" where
  "serviceVersion ue = (if ue_version ue = '''' then ''0.0.0-dev'' else ue_version ue)"

definition updateKind :: "update_env \<Rightarrow> string" where
  "updateKind ue = (if ue_product ue = ''axon-pulse-desktop'' then ''desktop'' else ''headless'')"

section \<open>Streams\<close>

definition updateDistributionBase :: string where
  "updateDistributionBase = ''https://dist.taurinetech.com/pulse/''"

text \<open>The channel, the index and whether the environment has pinned them.\<close>

definition update_channel :: "update_env \<Rightarrow> string \<Rightarrow> string" where
  "update_channel ue persisted =
     (let channel = (if ValidUpdateChannel persisted then persisted else trim_space (ue_channel ue))
      in if ValidUpdateChannel channel then channel else UpdateChannelMain)"

definition resolveUpdateSource :: "update_env \<Rightarrow> string \<Rightarrow> string \<times> string \<times> bool" where
  "resolveUpdateSource ue persisted =
     (let configured = trim_space (ue_index_url ue); channel = update_channel ue persisted
      in if configured \<noteq> '''' then ('''', configured, True)
         else (channel, updateDistributionBase @ channel @ ''/index.json'', False))"

definition automaticUpdatesEnabled :: "update_env \<Rightarrow> bool" where
  "automaticUpdatesEnabled ue \<longleftrightarrow> ue_disable_auto ue \<noteq> ''1'' \<and> ue_version ue \<noteq> '''' \<and> \<not> contains_str (ue_version ue) ''dev''"
definition newUpdateManager :: "string \<Rightarrow> Manager" where
  "newUpdateManager indexURL = \<lparr>mg_IndexURL = indexURL, mg_OS = '''', mg_Arch = '''', mg_Progress = True, mg_publicKey = ''''\<rparr>"

section \<open>Checks\<close>

definition zero_update_status :: UpdateStatus where
  "zero_update_status = \<lparr>us_UpdateMethod = '''', us_CurrentVersion = '''', us_AvailableVersion = '''', us_Available = None,
     us_StagedPath = '''', us_Restarting = False, us_CheckedAt = zero_time, us_Channel = '''', us_ChannelLocked = False,
     us_CheckError = ''''\<rparr>"

definition found_update :: "Available \<Rightarrow> UpdateStatus \<Rightarrow> UpdateStatus" where
  "found_update av st =
     (let version = ua_Version (av_Artifact av);
          st1 = (if us_AvailableVersion st \<noteq> version then st\<lparr>us_StagedPath := '''', us_Restarting := False\<rparr> else st)
      in st1\<lparr>us_Available := Some av, us_AvailableVersion := version\<rparr>)"

definition checked_status :: "time \<Rightarrow> update_error + Available \<Rightarrow> UpdateStatus \<Rightarrow> UpdateStatus" where
  "checked_status now result st0 =
     (let st = st0\<lparr>us_CheckedAt := now\<rparr>
      in case result of
           Inr av \<Rightarrow> found_update av st
         | Inl NoUpdate \<Rightarrow> st\<lparr>us_Available := None, us_AvailableVersion := ''''\<rparr>
         | Inl _ \<Rightarrow> st)"

definition checkUpdate :: "update_lib \<Rightarrow> update_env \<Rightarrow> Updates \<Rightarrow> Updates \<times> UpdateStatus \<times> update_error option" where
  "checkUpdate l ue u =
     (if InstallMethod l = ''apt''
      then (u, zero_update_status\<lparr>us_CurrentVersion := serviceVersion ue, us_UpdateMethod := ''apt'', us_ChannelLocked := True\<rparr>, None)
      else let result = Check l (ue_fetch ue) (uv_manager u) (serviceVersion ue) (updateKind ue);
               source = resolveUpdateSource ue (ps_UpdateChannel (state_of (uv_service u)));
               u1 = on_status (checked_status (ue_now ue) result) u
           in (u1, (uv_status u1)\<lparr>us_Channel := fst source, us_ChannelLocked := snd (snd source)\<rparr>,
               case result of Inl e \<Rightarrow> Some e | Inr _ \<Rightarrow> None))"

definition update_error_text :: "update_error \<Rightarrow> string" where
  "update_error_text e =
     (case e of PackageManaged \<Rightarrow> ''updates are managed by APT; use your system package manager to upgrade Pulse''
      | NoUpdate \<Rightarrow> ''already up to date'' | UpdateFailed m \<Rightarrow> m)"

definition handle_check_update :: "update_lib \<Rightarrow> update_env \<Rightarrow> Updates \<Rightarrow> Updates \<times> (ipc_error + UpdateStatus)" where
  "handle_check_update l ue u =
     (case checkUpdate l ue u of
        (u1, status, Some e) \<Rightarrow> if e = NoUpdate then (u1, Inr status)
          else (u1, Inl (''update_check_failed'', update_error_text e))
      | (u1, status, None) \<Rightarrow> (u1, Inr status))"

definition forget_stream :: "UpdateStatus \<Rightarrow> UpdateStatus" where
  "forget_stream st = st\<lparr>us_Available := None, us_AvailableVersion := '''', us_StagedPath := '''', us_CheckedAt := zero_time\<rparr>"

definition package_managed :: ipc_error where
  "package_managed = (''update_package_managed'', update_error_text PackageManaged)"

definition follow_stream :: "update_lib \<Rightarrow> update_env \<Rightarrow> string \<Rightarrow> Updates \<Rightarrow> Updates \<times> (ipc_error + UpdateStatus)" where
  "follow_stream l ue channel u =
     (case SetUpdateChannel (se_disk (ue_env ue)) channel (store_of (uv_service u)) of
        (st, Some e) \<Rightarrow> (u\<lparr>uv_service := with_store st (uv_service u)\<rparr>, Inl (internalError e))
      | (st, None) \<Rightarrow>
          let u1 = on_status forget_stream (u\<lparr>uv_service := with_store st (uv_service u),
                uv_manager := newUpdateManager (fst (snd (resolveUpdateSource ue channel)))\<rparr>)
          in case checkUpdate l ue u1 of
               (u2, status, Some e) \<Rightarrow>
                 (u2, Inr (if e = NoUpdate then status else status\<lparr>us_CheckError := update_error_text e\<rparr>))
             | (u2, status, None) \<Rightarrow> (u2, Inr status))"

definition handle_set_update_channel ::
    "update_lib \<Rightarrow> update_env \<Rightarrow> string option \<Rightarrow> Updates \<Rightarrow> Updates \<times> (ipc_error + UpdateStatus)" where
  "handle_set_update_channel l ue params u =
     (if InstallMethod l = ''apt'' then (u, Inl package_managed)
      else case params of
        None \<Rightarrow> (u, Inl (''invalid_parameters'', ''channel must be main, beta, or alpha''))
      | Some channel \<Rightarrow>
          if \<not> ValidUpdateChannel channel then (u, Inl (''invalid_parameters'', ''channel must be main, beta, or alpha''))
          else if snd (snd (resolveUpdateSource ue ''''))
          then (u, Inl (''update_channel_locked'', ''the update source is fixed by AXON_PULSE_UPDATE_INDEX_URL in the service environment''))
          else if update_busy u \<or> us_Restarting (uv_status u)
          then (u, Inl (''update_in_progress'', ''an update is downloading or installing; change the update stream when it finishes''))
          else follow_stream l ue channel u)"

section \<open>Staging and activation\<close>

text \<open>A gate that is closed already refuses to close; otherwise the admitted work drains in time or not.\<close>

definition quiesce_activity :: "update_env \<Rightarrow> Updates \<Rightarrow> string option" where
  "quiesce_activity ue u = (if uv_drained u then Some ''service activity is quiescing for an update'' else ue_quiesce ue)"

text \<open>From the drained service on; the activation gets the staged path and what is there.\<close>

definition activate_staged :: "update_env \<Rightarrow> Available \<Rightarrow> string \<Rightarrow> Updates \<Rightarrow> Updates \<times> (ipc_error + UpdateStatus)" where
  "activate_staged ue av staged u =
     (case flushForUpdate (ue_env ue) (ue_now ue) (local_only (uv_service u)) (uv_service u) of
        (s, Some e) \<Rightarrow> (u\<lparr>uv_service := s, uv_drained := False\<rparr>, Inl (''update_flush_failed'', e))
      | (s, None) \<Rightarrow>
          let u1 = u\<lparr>uv_service := s\<rparr> in
          (case ue_executable ue of
             Inl e \<Rightarrow> (u1\<lparr>uv_drained := False\<rparr>, Inl (''update_activate_failed'', e))
           | Inr executable \<Rightarrow>
               let u2 = u1\<lparr>uv_activated := uv_activated u1
                     @ [(staged, (case uv_files u1 staged of Some data \<Rightarrow> data | None \<Rightarrow> ''''), ua_Version (av_Artifact av))]\<rparr> in
               (case ue_activate ue of
                  Some e \<Rightarrow> (u2\<lparr>uv_drained := False\<rparr>, Inl (''update_activate_failed'', e))
                | None \<Rightarrow>
                    let u3 = on_status (\<lambda>st. st\<lparr>us_StagedPath := staged, us_Restarting := True\<rparr>) (u2\<lparr>uv_shutdown := True\<rparr>)
                    in (u3, Inr (uv_status u3)))))"

definition stage_available :: "update_lib \<Rightarrow> update_env \<Rightarrow> Available \<Rightarrow> Updates \<Rightarrow> Updates \<times> (ipc_error + UpdateStatus)" where
  "stage_available l ue av u =
     (case quiesce_activity ue u of
        Some e \<Rightarrow> (u, Inl (''update_deferred'', e))
      | None \<Rightarrow>
          (case Stage l (ue_fetch ue) (ue_faults ue) (uv_manager u) av (ue_stateDir ue) (uv_files u) of
             (fs, _, Inl e) \<Rightarrow> (u\<lparr>uv_files := fs\<rparr>, Inl (''update_stage_failed'', update_error_text e))
           | (fs, _, Inr staged) \<Rightarrow> activate_staged ue av staged (u\<lparr>uv_files := fs, uv_drained := True\<rparr>)))"

definition handle_stage_update :: "update_lib \<Rightarrow> update_env \<Rightarrow> Updates \<Rightarrow> Updates \<times> (ipc_error + UpdateStatus)" where
  "handle_stage_update l ue u =
     (if InstallMethod l = ''apt'' then (u, Inl package_managed)
      else let ownBusy = \<not> update_busy u;
               u1 = (if ownBusy then set_update_busy True u else u);
               done_stage = (case us_Available (uv_status u) of
                   None \<Rightarrow> (u1, Inl (''no_update'', ''check for an update first''))
                 | Some av \<Rightarrow> stage_available l ue av u1)
           in (if ownBusy then set_update_busy False (fst done_stage) else fst done_stage, snd done_stage))"

section \<open>The automatic check\<close>

definition automatic_due :: "update_lib \<Rightarrow> update_env \<Rightarrow> Updates \<Rightarrow> bool" where
  "automatic_due l ue u \<longleftrightarrow>
     \<not> (InstallMethod l = ''apt'' \<or> \<not> automaticUpdatesEnabled ue \<or> ue_now ue - sv_started (uv_service u) < 10 * Minute)
     \<and> \<not> update_busy u
     \<and> (IsZero (uv_lastUpdateCheck u) \<or> ue_now ue - uv_lastUpdateCheck u \<ge> 24 * Hour)
     \<and> \<not> sv_speedBusy (uv_service u) \<and> \<not> sv_uploadBusy (uv_service u)"

text \<open>Whether the answer of the check calls for a download: nothing that is already staged does.\<close>

definition worth_staging :: "UpdateStatus \<Rightarrow> bool" where
  "worth_staging st \<longleftrightarrow> \<not> (us_AvailableVersion st = ''''
     \<or> (us_StagedPath st \<noteq> '''' \<and> (case us_Available st of None \<Rightarrow> False
          | Some av \<Rightarrow> us_AvailableVersion st = ua_Version (av_Artifact av))))"

text \<open>The check and the download are two calls, each with its own surroundings.\<close>

definition automatic_update :: "update_lib \<Rightarrow> update_env \<Rightarrow> update_env \<Rightarrow> Updates \<Rightarrow> Updates" where
  "automatic_update l ue ue2 u =
     (case handle_check_update l ue u of
        (u1, Inl _) \<Rightarrow> u1
      | (u1, Inr status) \<Rightarrow> if worth_staging status then fst (handle_stage_update l ue2 u1) else u1)"

definition startAutomaticUpdate :: "update_lib \<Rightarrow> update_env \<Rightarrow> update_env \<Rightarrow> Updates \<Rightarrow> Updates" where
  "startAutomaticUpdate l ue ue2 u =
     (if automatic_due l ue u
      then set_update_busy False (automatic_update l ue ue2 ((set_update_busy True u)\<lparr>uv_lastUpdateCheck := ue_now ue\<rparr>))
      else u)"

section \<open>The installed package\<close>

abbreviation (input) packageCheckInterval :: duration where "packageCheckInterval \<equiv> Minute"
abbreviation (input) packageSettle :: duration where "packageSettle \<equiv> 10 * Second"

definition watchInstalledPackage :: "update_lib \<Rightarrow> update_env \<Rightarrow> Updates \<Rightarrow> Updates" where
  "watchInstalledPackage l ue u =
     (if InstallMethod l \<noteq> ''apt'' then u
      else case ue_package ue of None \<Rightarrow> u | Some (file, _) \<Rightarrow> u\<lparr>uv_packageInfo := Some file\<rparr>)"

definition restartForPackageUpgrade :: "update_env \<Rightarrow> Updates \<Rightarrow> Updates \<times> bool" where
  "restartForPackageUpgrade ue u =
     (case quiesce_activity ue u of
        Some _ \<Rightarrow> (u, False)
      | None \<Rightarrow>
          (case flushForUpdate (ue_env ue) (ue_now ue) (local_only (uv_service u)) (uv_service u) of
             (s, Some _) \<Rightarrow> (u\<lparr>uv_service := s\<rparr>, False)
           | (s, None) \<Rightarrow>
               (on_status (\<lambda>st. st\<lparr>us_Restarting := True\<rparr>)
                  (u\<lparr>uv_service := s, uv_drained := True, uv_packageRestart := True, uv_shutdown := True\<rparr>), True)))"

definition package_replaced :: "update_env \<Rightarrow> nat \<Rightarrow> bool" where
  "package_replaced ue original =
     (case ue_package ue of
        None \<Rightarrow> False
      | Some (file, modified) \<Rightarrow> \<not> (original = file \<or> ue_now ue - modified < packageSettle))"

definition checkInstalledPackage :: "update_env \<Rightarrow> Updates \<Rightarrow> Updates" where
  "checkInstalledPackage ue u0 =
     (case uv_packageInfo u0 of
        None \<Rightarrow> u0
      | Some original \<Rightarrow>
          if ue_now ue - uv_packageCheckedAt u0 < packageCheckInterval then u0
          else let u = u0\<lparr>uv_packageCheckedAt := ue_now ue\<rparr>; s = uv_service u in
            if \<not> package_replaced ue original then u
            else if sv_updateBusy s \<or> sv_speedBusy s \<or> sv_uploadBusy s \<or> us_Restarting (uv_status u) then u
            else (case restartForPackageUpgrade ue (set_update_busy True u) of
                    (u1, True) \<Rightarrow> u1
                  | (u1, False) \<Rightarrow> set_update_busy False u1))"
section \<open>Updates over the life of a service\<close>

text \<open>Everything that can happen to the updates; \<open>Elsewhere\<close> is any other step of the service.\<close>

datatype update_event = CheckUpdate update_env | SetChannel update_env "string option" | StageUpdate update_env
  | Automatic update_env update_env | PackageCheck update_env | Elsewhere Service

fun update_step :: "update_lib \<Rightarrow> Updates \<Rightarrow> update_event \<Rightarrow> Updates" where
  "update_step l u (CheckUpdate ue) = fst (handle_check_update l ue u)"
| "update_step l u (SetChannel ue params) = fst (handle_set_update_channel l ue params u)"
| "update_step l u (StageUpdate ue) = fst (handle_stage_update l ue u)"
| "update_step l u (Automatic ue ue2) = startAutomaticUpdate l ue ue2 u"
| "update_step l u (PackageCheck ue) = checkInstalledPackage ue u"
| "update_step l u (Elsewhere s) = u\<lparr>uv_service := s\<rparr>"

definition new_updates :: "update_lib \<Rightarrow> update_env \<Rightarrow> files \<Rightarrow> Service \<Rightarrow> Updates" where
  "new_updates l ue fs s = watchInstalledPackage l ue
     \<lparr>uv_service = s, uv_manager = newUpdateManager (fst (snd (resolveUpdateSource ue (ps_UpdateChannel (state_of s))))),
      uv_status = zero_update_status\<lparr>us_CurrentVersion := serviceVersion ue, us_UpdateMethod := InstallMethod l\<rparr>,
      uv_lastUpdateCheck = zero_time, uv_packageInfo = None, uv_packageCheckedAt = zero_time, uv_packageRestart = False,
      uv_drained = False, uv_shutdown = False, uv_files = fs, uv_activated = []\<rparr>"

text \<open>An offer is what a check has returned, so its index was signed.\<close>

definition offered :: "update_lib \<Rightarrow> Available \<Rightarrow> bool" where
  "offered l av \<longleftrightarrow> (\<exists>fetch m v kind. Check l fetch m v kind = Inr av)"

definition status_ok :: "update_lib \<Rightarrow> Manager \<Rightarrow> UpdateStatus \<Rightarrow> bool" where
  "status_ok l m st \<longleftrightarrow> (case us_Available st of
       None \<Rightarrow> us_AvailableVersion st = ''''
     | Some av \<Rightarrow> offered l av \<and> us_AvailableVersion st = ua_Version (av_Artifact av) \<and> av_IndexURL av = mg_IndexURL m)"

definition promised :: "update_lib \<Rightarrow> string \<times> string \<times> string \<Rightarrow> bool" where
  "promised l act \<longleftrightarrow> (case act of (path, data, version) \<Rightarrow> \<exists>av. offered l av \<and> version = ua_Version (av_Artifact av)
     \<and> int (length data) = ua_SizeBytes (av_Artifact av) \<and> lib_Sum256Hex (ul_lib l) data = ua_SHA256 (av_Artifact av))"

definition update_inv :: "update_lib \<Rightarrow> Updates \<Rightarrow> bool" where
  "update_inv l u \<longleftrightarrow> status_ok l (uv_manager u) (uv_status u) \<and> (\<forall>act\<in>set (uv_activated u). promised l act)
     \<and> (uv_drained u \<or> us_Restarting (uv_status u) \<longrightarrow> uv_shutdown u)
     \<and> (us_StagedPath (uv_status u) \<noteq> '''' \<longrightarrow> us_StagedPath (uv_status u) \<in> fst ` set (uv_activated u))
     \<and> (InstallMethod l = ''apt'' \<longrightarrow> uv_activated u = [] \<and> us_Available (uv_status u) = None)"

lemma update_inv_service [simp]: "update_inv l (u\<lparr>uv_service := s\<rparr>) = update_inv l u"
  "update_inv l (set_update_busy b u) = update_inv l u" "update_inv l (u\<lparr>uv_lastUpdateCheck := t\<rparr>) = update_inv l u"
  "update_inv l (u\<lparr>uv_packageCheckedAt := t\<rparr>) = update_inv l u" "update_inv l (u\<lparr>uv_files := fs\<rparr>) = update_inv l u"
  by (simp_all add: update_inv_def set_update_busy_def)

lemma status_ok_updates [simp]:
  "status_ok l m (st\<lparr>us_CheckedAt := t\<rparr>) = status_ok l m st" "status_ok l m (st\<lparr>us_StagedPath := p\<rparr>) = status_ok l m st"
  "status_ok l m (st\<lparr>us_Restarting := b\<rparr>) = status_ok l m st"
  "status_ok l m (st\<lparr>us_Available := None, us_AvailableVersion := ''''\<rparr>)"
  "status_ok l m (st\<lparr>us_Available := Some av, us_AvailableVersion := ua_Version (av_Artifact av)\<rparr>)
     \<longleftrightarrow> offered l av \<and> av_IndexURL av = mg_IndexURL m"
  by (simp_all add: status_ok_def split: option.split)

lemma checked_inv:
  assumes "update_inv l u" "InstallMethod l \<noteq> ''apt''"
    and "\<And>av. result = Inr av \<Longrightarrow> offered l av \<and> av_IndexURL av = mg_IndexURL (uv_manager u)"
  shows "update_inv l (on_status (checked_status now result) u)"
proof (cases result)
  case (Inl e)
  then show ?thesis using assms(1)
    by (cases e) (auto simp: update_inv_def on_status_def checked_status_def)
next
  case (Inr av)
  then show ?thesis using assms
    by (auto simp: update_inv_def on_status_def checked_status_def found_update_def Let_def)
qed

lemma checkUpdate_inv:
  assumes "update_inv l u" "checkUpdate l ue u = (u', r)"
  shows "update_inv l u'"
proof (cases "InstallMethod l = ''apt''")
  case True
  then show ?thesis using assms by (simp add: checkUpdate_def)
next
  case False
  let ?res = "Check l (ue_fetch ue) (uv_manager u) (serviceVersion ue) (updateKind ue)"
  have "?res = Inr av \<Longrightarrow> offered l av \<and> av_IndexURL av = mg_IndexURL (uv_manager u)" for av
    using Check_authentic unfolding offered_def by blast
  then have "update_inv l (on_status (checked_status (ue_now ue) ?res) u)"
    using checked_inv[OF assms(1) False] by blast
  then show ?thesis using assms(2) False by (auto simp: checkUpdate_def Let_def)
qed

lemma handle_check_inv: "update_inv l u \<Longrightarrow> update_inv l (fst (handle_check_update l ue u))"
  by (auto simp: handle_check_update_def split: prod.splits option.splits dest: checkUpdate_inv)

lemma follow_stream_inv:
  assumes "update_inv l u" shows "update_inv l (fst (follow_stream l ue channel u))"
proof -
  have "update_inv l (on_status forget_stream (u\<lparr>uv_service := s, uv_manager := m\<rparr>))" for s m
    using assms by (auto simp: update_inv_def status_ok_def on_status_def forget_stream_def)
  then show ?thesis using assms
    by (auto simp: follow_stream_def Let_def split: prod.splits option.splits dest: checkUpdate_inv)
qed

lemma handle_channel_inv: "update_inv l u \<Longrightarrow> update_inv l (fst (handle_set_update_channel l ue params u))"
  by (auto simp: handle_set_update_channel_def follow_stream_inv split: option.splits)

lemma activate_inv:
  assumes "update_inv l (u\<lparr>uv_drained := False\<rparr>)" "InstallMethod l \<noteq> ''apt''" "uv_files u staged = Some data"
    and "promised l (staged, data, ua_Version (av_Artifact av))"
  shows "update_inv l (fst (activate_staged ue av staged u))"
  using assms
  by (auto simp: activate_staged_def update_inv_def on_status_def Let_def split: prod.splits option.splits sum.splits)

lemma stage_available_inv:
  assumes "update_inv l u" "us_Available (uv_status u) = Some av" "InstallMethod l \<noteq> ''apt''"
  shows "update_inv l (fst (stage_available l ue av u))"
proof (cases "quiesce_activity ue u")
  case None
  have off: "offered l av" using assms(1,2) by (simp add: update_inv_def status_ok_def)
  obtain fs reports r where s: "Stage l (ue_fetch ue) (ue_faults ue) (uv_manager u) av (ue_stateDir ue) (uv_files u) = (fs, reports, r)"
    by (metis prod_cases3)
  show ?thesis
  proof (cases r)
    case (Inr path)
    have "\<exists>data. fs path = Some data \<and> promised l (path, data, ua_Version (av_Artifact av))"
      using Stage_ok[OF s[unfolded Inr]] off by (auto simp: promised_def)
    then obtain data where d: "fs path = Some data" "promised l (path, data, ua_Version (av_Artifact av))" by blast
    have "update_inv l (u\<lparr>uv_files := fs, uv_drained := False\<rparr>)" using assms(1) by (auto simp: update_inv_def)
    then show ?thesis using d assms(3) by (auto simp: stage_available_def None s Inr intro!: activate_inv)
  qed (simp add: stage_available_def None s assms(1))
qed (simp add: stage_available_def assms(1))

lemma handle_stage_inv: "update_inv l u \<Longrightarrow> update_inv l (fst (handle_stage_update l ue u))"
  by (cases "us_Available (uv_status u)")
    (auto simp: handle_stage_update_def Let_def set_update_busy_def[of _ "u"] stage_available_inv)

lemma restart_inv: "update_inv l u \<Longrightarrow> update_inv l (fst (restartForPackageUpgrade ue u))"
  by (auto simp: restartForPackageUpgrade_def update_inv_def on_status_def split: option.splits prod.splits)

lemma package_inv:
  assumes "update_inv l u"
  shows "update_inv l (checkInstalledPackage ue u)"
proof -
  have "update_inv l (fst (restartForPackageUpgrade ue (set_update_busy True (u\<lparr>uv_packageCheckedAt := t\<rparr>))))" for t
    using assms by (intro restart_inv) simp
  then show ?thesis using assms
    by (simp add: checkInstalledPackage_def Let_def split_def split: option.split bool.split)
qed
lemma automatic_inv: "update_inv l u \<Longrightarrow> update_inv l (startAutomaticUpdate l ue ue2 u)"
proof -
  assume inv: "update_inv l u"
  let ?v = "(set_update_busy True u)\<lparr>uv_lastUpdateCheck := ue_now ue\<rparr>"
  have v: "update_inv l ?v" using inv by simp
  obtain u1 r where c: "handle_check_update l ue ?v = (u1, r)" by fastforce
  have "update_inv l u1" using handle_check_inv[OF v, of ue] by (simp add: c)
  then show ?thesis using inv
    by (simp add: startAutomaticUpdate_def automatic_update_def c handle_stage_inv split: sum.split)
qed

lemma new_updates_inv: "update_inv l (new_updates l ue fs s)"
  by (auto simp: new_updates_def watchInstalledPackage_def update_inv_def status_ok_def zero_update_status_def split: option.split)

interpretation updating: machine "update_step l" "update_inv l" for l
proof
  fix u e
  assume "update_inv l u"
  then show "update_inv l (update_step l u e)"
    by (cases e) (simp_all add: handle_check_inv handle_channel_inv handle_stage_inv automatic_inv package_inv)
qed

lemma flushForUpdate_busy: "flushForUpdate env now lo s = (s', e) \<Longrightarrow> sv_updateBusy s' = sv_updateBusy s"
  by (auto simp: flushForUpdate_def persistFlushed_def with_agg_def with_up_def with_spool_def Let_def
      split: prod.splits sum.splits if_splits)

lemma activate_outcome:
  assumes "activate_staged ue av staged u = (u', r)"
  shows "case r of
      Inl _ \<Rightarrow> \<not> uv_drained u' \<and> uv_status u' = uv_status u \<and> uv_shutdown u' = uv_shutdown u
    | Inr status \<Rightarrow> uv_drained u' = uv_drained u \<and> uv_shutdown u' \<and> us_Restarting status \<and> us_StagedPath status = staged
        \<and> uv_status u' = status \<and> uv_activated u' \<noteq> []
        \<and> snd (flushForUpdate (ue_env ue) (ue_now ue) (local_only (uv_service u)) (uv_service u)) = None"
    and "update_busy u' = update_busy u \<and> uv_files u' = uv_files u"
proof -
  obtain s e where f: "flushForUpdate (ue_env ue) (ue_now ue) (local_only (uv_service u)) (uv_service u) = (s, e)"
    by fastforce
  have b: "sv_updateBusy s = sv_updateBusy (uv_service u)" using flushForUpdate_busy[OF f] .
  note act = activate_staged_def f Let_def on_status_def update_busy_def b
  show "case r of
      Inl _ \<Rightarrow> \<not> uv_drained u' \<and> uv_status u' = uv_status u \<and> uv_shutdown u' = uv_shutdown u
    | Inr status \<Rightarrow> uv_drained u' = uv_drained u \<and> uv_shutdown u' \<and> us_Restarting status \<and> us_StagedPath status = staged
        \<and> uv_status u' = status \<and> uv_activated u' \<noteq> []
        \<and> snd (flushForUpdate (ue_env ue) (ue_now ue) (local_only (uv_service u)) (uv_service u)) = None"
    using assms by (cases e; cases "ue_executable ue"; cases "ue_activate ue") (auto simp: act)
  show "update_busy u' = update_busy u \<and> uv_files u' = uv_files u"
    using assms by (cases e; cases "ue_executable ue"; cases "ue_activate ue") (auto simp: act)
qed

definition stage_result :: "Updates \<Rightarrow> Updates \<times> (ipc_error + UpdateStatus) \<Rightarrow> bool" where
  "stage_result u res \<longleftrightarrow> (case res of
     (u', Inr status) \<Rightarrow> \<not> uv_drained u \<and> uv_drained u' \<and> uv_shutdown u' \<and> us_Restarting status \<and> uv_status u' = status
       \<and> update_busy u' = update_busy u \<and> (\<exists>data. uv_files u' (us_StagedPath status) = Some data)
   | (u', Inl e) \<Rightarrow> uv_drained u' = uv_drained u \<and> uv_status u' = uv_status u \<and> uv_shutdown u' = uv_shutdown u
       \<and> update_busy u' = update_busy u)"

lemma stage_available_result: "stage_result u (stage_available l ue av u)"
proof (cases "quiesce_activity ue u")
  case None
  then have open_gate: "\<not> uv_drained u" by (auto simp: quiesce_activity_def split: if_splits)
  obtain fs reports r where s: "Stage l (ue_fetch ue) (ue_faults ue) (uv_manager u) av (ue_stateDir ue) (uv_files u) = (fs, reports, r)"
    by (metis prod_cases3)
  show ?thesis
  proof (cases r)
    case (Inr path)
    obtain u' out where a: "activate_staged ue av path (u\<lparr>uv_files := fs, uv_drained := True\<rparr>) = (u', out)" by fastforce
    have "\<exists>data. fs path = Some data"
      using Stage_ok[OF s[unfolded Inr]] by blast
    then show ?thesis using activate_outcome[OF a] open_gate
      by (cases out) (auto simp: stage_available_def None s Inr a stage_result_def update_busy_def)
  qed (simp add: stage_available_def None s stage_result_def update_busy_def)
qed (simp add: stage_available_def stage_result_def)

lemma stage_result_busy: "stage_result (set_update_busy True u) (u', r) \<Longrightarrow> \<not> update_busy u \<Longrightarrow> stage_result u (set_update_busy False u', r)"
  by (cases r) (simp_all add: stage_result_def set_update_busy_def update_busy_def)


end
