(* ===== verification/Quality_Load.thy ===== *)
theory Quality_Load
  imports Protocol_Types
begin

text \<open>
  The bulk load of a quality test (\<open>internal/qualitytest/runner.go\<close>): the workers that claim blocks of
  a shared byte budget by compare-and-swap, the response-byte budget of the probes, the generated
  upload body, and the counter that sorts the moved bytes into buckets of a second. What a worker's
  transfer moves, and when, is free; everything the workers decide is defined here, one atomic
  access of the shared counters at a time.
\<close>

section \<open>Workers\<close>

text \<open>
  A worker is at the head of its loop, about to load the remaining bytes, about to swap what it has
  loaded, moving a claimed block, or gone.
\<close>

datatype worker = Looking | Claiming | Holding u64 | Moving u64 u64 | Stopped

record load =
  ld_remaining :: u64
  ld_block :: u64
  ld_workers :: "worker list"
  ld_bytes :: u64
  ld_error :: "string option"
  ld_cancelled :: bool

datatype load_event = Look nat | Read nat | Swap nat | Move nat u64 | Finish nat string | Cancel

definition set_worker :: "nat \<Rightarrow> worker \<Rightarrow> load \<Rightarrow> load" where
  "set_worker i w s = s\<lparr>ld_workers := (ld_workers s)[i := w]\<rparr>"

text \<open>\<open>claim\<close>: load the remaining bytes, then swap them for what is left behind a block of them.\<close>

definition claim_read :: "nat \<Rightarrow> load \<Rightarrow> load" where
  "claim_read i s = set_worker i (if ld_remaining s = 0 then Stopped else Holding (ld_remaining s)) s"

definition claim_swap :: "nat \<Rightarrow> u64 \<Rightarrow> load \<Rightarrow> load" where
  "claim_swap i available s =
     (let amount = min available (ld_block s) in
      if ld_remaining s = available
      then set_worker i (if amount = 0 then Stopped else Moving amount 0) (s\<lparr>ld_remaining := available - amount\<rparr>)
      else set_worker i Claiming s)"

definition transfer_end :: "nat \<Rightarrow> string \<Rightarrow> load \<Rightarrow> load" where
  "transfer_end i e s =
     (if e \<noteq> '''' \<and> \<not> ld_cancelled s
      then set_worker i Stopped (s\<lparr>ld_error := (case ld_error s of None \<Rightarrow> Some e | Some first \<Rightarrow> Some first)\<rparr>)
      else set_worker i Looking s)"

definition worker_at :: "load \<Rightarrow> nat \<Rightarrow> worker" where
  "worker_at s i = (if i < length (ld_workers s) then ld_workers s ! i else Stopped)"

text \<open>One step; an event the worker is not ready for changes nothing.\<close>

fun load_step :: "load \<Rightarrow> load_event \<Rightarrow> load" where
  "load_step s (Look i) =
     (case worker_at s i of Looking \<Rightarrow> set_worker i (if ld_cancelled s then Stopped else Claiming) s | _ \<Rightarrow> s)"
| "load_step s (Read i) = (case worker_at s i of Claiming \<Rightarrow> claim_read i s | _ \<Rightarrow> s)"
| "load_step s (Swap i) = (case worker_at s i of Holding available \<Rightarrow> claim_swap i available s | _ \<Rightarrow> s)"
| "load_step s (Move i n) =
     (case worker_at s i of
        Moving amount moved \<Rightarrow>
          if 0 < n \<and> n \<le> amount - moved
          then set_worker i (Moving amount (moved + n)) (s\<lparr>ld_bytes := ld_bytes s + n\<rparr>) else s
      | _ \<Rightarrow> s)"
| "load_step s (Finish i e) = (case worker_at s i of Moving _ _ \<Rightarrow> transfer_end i e s | _ \<Rightarrow> s)"
| "load_step s Cancel = s\<lparr>ld_cancelled := True\<rparr>"

definition executeLoad :: "u64 \<Rightarrow> int \<Rightarrow> u64 \<Rightarrow> load" where
  "executeLoad budget streams block =
     \<lparr>ld_remaining = budget, ld_block = (if block = 0 then 512 * 2 ^ 10 else block),
      ld_workers = replicate (nat (if streams < 1 then 1 else streams)) Looking,
      ld_bytes = 0, ld_error = None, ld_cancelled = False\<rparr>"

definition load_done :: "load \<Rightarrow> bool" where
  "load_done s \<longleftrightarrow> list_all (\<lambda>w. w = Stopped) (ld_workers s)"

section \<open>Nothing beyond the budget\<close>

lemma sum_list_update_nat:
  fixes f :: "'a \<Rightarrow> nat"
  shows "i < length xs \<Longrightarrow> sum_list (map f (xs[i := x])) + f (xs ! i) = sum_list (map f xs) + f x"
proof (induction xs arbitrary: i)
  case Nil
  then show ?case by simp
next
  case (Cons y ys)
  then show ?case by (cases i) (auto simp: Cons.IH)
qed

text \<open>What a worker still holds of the block it has claimed.\<close>

definition outstanding :: "worker \<Rightarrow> nat" where
  "outstanding w = (case w of Moving amount moved \<Rightarrow> unat amount - unat moved | _ \<Rightarrow> 0)"

definition sound_worker :: "worker \<Rightarrow> bool" where
  "sound_worker w = (case w of Moving amount moved \<Rightarrow> moved \<le> amount | _ \<Rightarrow> True)"

definition held :: "load \<Rightarrow> nat" where
  "held s = sum_list (map outstanding (ld_workers s))"

definition load_inv :: "nat \<Rightarrow> load \<Rightarrow> bool" where
  "load_inv budget s \<longleftrightarrow> unat (ld_bytes s) + unat (ld_remaining s) + held s \<le> budget \<and> budget < 2 ^ 64
     \<and> (\<forall>w\<in>set (ld_workers s). sound_worker w)"

lemma held_set_worker:
  "i < length (ld_workers s) \<Longrightarrow> held (set_worker i w s) + outstanding (ld_workers s ! i) = held s + outstanding w"
  by (simp add: held_def set_worker_def sum_list_update_nat)

lemma worker_at_live: "worker_at s i \<noteq> Stopped \<Longrightarrow> i < length (ld_workers s) \<and> worker_at s i = ld_workers s ! i"
  by (simp add: worker_at_def split: if_splits)

lemma set_worker_fields [simp]:
  "ld_bytes (set_worker i w s) = ld_bytes s" "ld_remaining (set_worker i w s) = ld_remaining s"
  "ld_block (set_worker i w s) = ld_block s" "ld_cancelled (set_worker i w s) = ld_cancelled s"
  "ld_workers (set_worker i w s) = (ld_workers s)[i := w]" "ld_error (set_worker i w s) = ld_error s"
  by (simp_all add: set_worker_def)

lemma held_fields [simp]: "held (s\<lparr>ld_bytes := b\<rparr>) = held s" "held (s\<lparr>ld_remaining := r\<rparr>) = held s"
  "held (s\<lparr>ld_error := e\<rparr>) = held s" "held (s\<lparr>ld_cancelled := c\<rparr>) = held s"
  by (simp_all add: held_def)

text \<open>Replacing one worker keeps the invariant when the bytes and what is held do.\<close>

lemma load_inv_set:
  assumes "load_inv budget s" "i < length (ld_workers s)" "sound_worker w"
    and "unat b + unat r + outstanding w \<le> unat (ld_bytes s) + unat (ld_remaining s) + outstanding (ld_workers s ! i)"
  shows "load_inv budget (set_worker i w (s\<lparr>ld_bytes := b, ld_remaining := r, ld_error := e\<rparr>))"
proof -
  let ?t = "s\<lparr>ld_bytes := b, ld_remaining := r, ld_error := e\<rparr>"
  have "held (set_worker i w ?t) + outstanding (ld_workers s ! i) = held s + outstanding w"
    using held_set_worker[of i ?t w] assms(2) by simp
  moreover have "\<forall>v\<in>set ((ld_workers s)[i := w]). sound_worker v"
    using assms(1,3) by (auto simp: load_inv_def dest!: set_update_subset_insert[THEN subsetD])
  ultimately show ?thesis using assms(1,4) by (simp add: load_inv_def)
qed

lemma load_inv_keep:
  assumes "load_inv budget s" "i < length (ld_workers s)" "sound_worker w" "outstanding w \<le> outstanding (ld_workers s ! i)"
  shows "load_inv budget (set_worker i w (s\<lparr>ld_error := e\<rparr>))" "load_inv budget (set_worker i w s)"
proof -
  have "s\<lparr>ld_bytes := ld_bytes s, ld_remaining := ld_remaining s, ld_error := x\<rparr> = s\<lparr>ld_error := x\<rparr>"
    "s\<lparr>ld_error := ld_error s\<rparr> = s" for x by (cases s, simp)+
  then show "load_inv budget (set_worker i w (s\<lparr>ld_error := e\<rparr>))" "load_inv budget (set_worker i w s)"
    using load_inv_set[OF assms(1-3), of "ld_bytes s" "ld_remaining s"] assms(4) by (metis add_le_mono le_refl)+
qed

lemma swap_inv:
  assumes "load_inv budget s" "i < length (ld_workers s)" "ld_workers s ! i = Holding available"
  shows "load_inv budget (claim_swap i available s)"
proof (cases "ld_remaining s = available")
  case True
  let ?amount = "min available (ld_block s)"
  have "unat (available - ?amount) + unat ?amount = unat available"
    by (simp add: unat_sub min_def word_le_nat_alt)
  then have "load_inv budget (set_worker i (if ?amount = 0 then Stopped else Moving ?amount 0)
      (s\<lparr>ld_bytes := ld_bytes s, ld_remaining := available - ?amount, ld_error := ld_error s\<rparr>))"
    by (intro load_inv_set) (use assms True in \<open>simp_all add: sound_worker_def outstanding_def\<close>)
  moreover have "s\<lparr>ld_bytes := ld_bytes s, ld_remaining := r, ld_error := ld_error s\<rparr> = s\<lparr>ld_remaining := r\<rparr>" for r
    by (cases s) simp
  ultimately show ?thesis using True by (simp add: claim_swap_def Let_def)
next
  case False
  then show ?thesis using load_inv_keep(2)[OF assms(1,2), of Claiming]
    by (simp add: claim_swap_def Let_def sound_worker_def outstanding_def)
qed

lemma outstanding_held: "i < length (ld_workers s) \<Longrightarrow> outstanding (ld_workers s ! i) \<le> held s"
  unfolding held_def by (intro member_le_sum_list) auto

lemma move_inv:
  assumes "load_inv budget s" "i < length (ld_workers s)" "ld_workers s ! i = Moving amount moved" "n \<le> amount - moved"
  shows "load_inv budget (set_worker i (Moving amount (moved + n)) (s\<lparr>ld_bytes := ld_bytes s + n\<rparr>))"
proof -
  have le: "moved \<le> amount" using assms(1) nth_mem[OF assms(2)] by (auto simp: load_inv_def sound_worker_def assms(3))
  have room: "unat n \<le> unat amount - unat moved" using assms(4) le by (simp add: word_le_nat_alt unat_sub)
  have "unat amount - unat moved \<le> held s" using outstanding_held[OF assms(2)] by (simp add: assms(3) outstanding_def)
  then have "unat (ld_bytes s) + unat n < 2 ^ 64" using assms(1) room by (simp add: load_inv_def)
  then have bytes: "unat (ld_bytes s + n) = unat (ld_bytes s) + unat n" by (simp add: unat_word_ariths)
  have "unat moved + unat n < 2 ^ 64" using room le unsigned_less[of amount, where ?'a = nat] by (simp add: word_le_nat_alt)
  then have moved: "unat (moved + n) = unat moved + unat n" by (simp add: unat_word_ariths)
  have "load_inv budget (set_worker i (Moving amount (moved + n))
      (s\<lparr>ld_bytes := ld_bytes s + n, ld_remaining := ld_remaining s, ld_error := ld_error s\<rparr>))"
    by (intro load_inv_set)
      (use assms bytes moved room le in \<open>simp_all add: outstanding_def sound_worker_def word_le_nat_alt\<close>)
  moreover have "s\<lparr>ld_bytes := b, ld_remaining := ld_remaining s, ld_error := ld_error s\<rparr> = s\<lparr>ld_bytes := b\<rparr>" for b
    by (cases s) simp
  ultimately show ?thesis by simp
qed

lemma finish_inv:
  assumes "load_inv budget s" "i < length (ld_workers s)" "ld_workers s ! i = Moving amount moved"
  shows "load_inv budget (transfer_end i e s)"
  using load_inv_keep[OF assms(1,2), of Stopped] load_inv_keep(2)[OF assms(1,2), of Looking]
  by (simp add: transfer_end_def sound_worker_def outstanding_def)

lemma live_worker: "worker_at s i = w \<Longrightarrow> w \<noteq> Stopped \<Longrightarrow> i < length (ld_workers s) \<and> ld_workers s ! i = w"
  using worker_at_live[of s i] by auto

lemma load_step_inv:
  assumes "load_inv budget s"
  shows "load_inv budget (load_step s e)"
proof (cases e)
  case (Look i)
  then show ?thesis using assms load_inv_keep(2)[OF assms, of i]
    by (cases "worker_at s i") (simp_all add: sound_worker_def outstanding_def live_worker)
next
  case (Read i)
  then show ?thesis using assms load_inv_keep(2)[OF assms, of i]
    by (cases "worker_at s i") (simp_all add: claim_read_def sound_worker_def outstanding_def live_worker)
next
  case (Swap i)
  then show ?thesis using assms by (cases "worker_at s i") (simp_all add: swap_inv live_worker)
next
  case (Move i n)
  then show ?thesis using assms by (cases "worker_at s i") (simp_all add: move_inv live_worker)
next
  case (Finish i err)
  then show ?thesis using assms by (cases "worker_at s i") (auto simp: live_worker intro: finish_inv)
next
  case Cancel
  then show ?thesis using assms by (simp add: load_inv_def held_def)
qed
interpretation loading: machine load_step "load_inv budget" for budget
  by unfold_locales (rule load_step_inv)

lemma executeLoad_inv: "load_inv (unat budget) (executeLoad budget streams block)"
  using unsigned_less[of budget, where ?'a = nat]
  by (simp add: executeLoad_def load_inv_def held_def outstanding_def sound_worker_def sum_list_replicate)

text \<open>
  However many workers share a load, however their claims and transfers interleave and
  whichever of them fail or are cancelled, the bytes counted as moved, together with what is still
  unclaimed and what the running transfers may still move, never exceed the budget of the phase.
\<close>

theorem load_within_budget:
  shows "let s = foldl load_step (executeLoad budget streams block) events
     in unat (ld_bytes s) + unat (ld_remaining s) + held s \<le> unat budget"
  using loading.run_inv[OF executeLoad_inv, of budget streams block events] by (simp add: load_inv_def Let_def)

section \<open>An end to every load\<close>

text \<open>
  A measure that every effective step lowers. A swap that succeeds lowers the remaining bytes and
  can spoil what the other workers hold; a swap that fails was spoilt by one that succeeded.
\<close>

definition weight :: "u64 \<Rightarrow> worker \<Rightarrow> nat" where
  "weight remaining w = (case w of Looking \<Rightarrow> 8 | Claiming \<Rightarrow> 6 | Holding a \<Rightarrow> if a = remaining then 5 else 7
     | Moving amount moved \<Rightarrow> 9 + (unat amount - unat moved) | Stopped \<Rightarrow> 0)"

definition work_left :: "load \<Rightarrow> nat" where
  "work_left s = (2 * length (ld_workers s) + 6) * unat (ld_remaining s)
     + sum_list (map (weight (ld_remaining s)) (ld_workers s)) + (if ld_cancelled s then 0 else 1)"

lemma work_left_set:
  assumes "i < length (ld_workers s)" "weight (ld_remaining s) w < weight (ld_remaining s) (ld_workers s ! i)"
  shows "work_left (set_worker i w (s\<lparr>ld_bytes := b\<rparr>)) < work_left s" "work_left (set_worker i w (s\<lparr>ld_error := e\<rparr>)) < work_left s"
    "work_left (set_worker i w s) < work_left s"
  using sum_list_update_nat[OF assms(1), of "weight (ld_remaining s)" w] assms(2) by (simp_all add: work_left_def)

lemma weight_change: "weight r w \<le> weight r' w + 2"
  by (simp add: weight_def split: worker.split)

lemma sum_weight_change:
  "sum_list (map (weight r) ws) \<le> sum_list (map (weight r') ws) + 2 * length ws"
proof (induction ws)
  case Nil
  then show ?case by simp
next
  case (Cons w ws)
  then show ?case using weight_change[of r w r'] by simp
qed

lemma swap_work:
  assumes "i < length (ld_workers s)" "ld_workers s ! i = Holding available"
  shows "work_left (claim_swap i available s) < work_left s"
proof (cases "ld_remaining s = available")
  case True
  let ?amount = "min available (ld_block s)" and ?n = "length (ld_workers s)"
  let ?w = "if ?amount = 0 then Stopped else Moving ?amount 0" and ?r = "available - ?amount"
  let ?sum = "\<lambda>r ws. sum_list (map (weight r) ws)"
  have result: "claim_swap i available s = set_worker i ?w (s\<lparr>ld_remaining := ?r\<rparr>)"
    using True by (simp add: claim_swap_def Let_def)
  show ?thesis
  proof (cases "?amount = 0")
    case True
    moreover have "s\<lparr>ld_remaining := available\<rparr> = s" using \<open>ld_remaining s = available\<close> by (cases s) simp
    ultimately show ?thesis unfolding result
      using work_left_set(3)[OF assms(1), of Stopped] assms(2) by (simp add: weight_def)
  next
    case False
    have r: "unat ?r + unat ?amount = unat available" by (simp add: unat_sub min_def word_le_nat_alt)
    have pos: "0 < unat ?amount" using False by (metis gr0I unat_eq_zero)
    have "?sum ?r ((ld_workers s)[i := ?w]) + weight ?r (Holding available) = ?sum ?r (ld_workers s) + weight ?r ?w"
      using sum_list_update_nat[OF assms(1), of "weight ?r" ?w] assms(2) by simp
    then have upd: "?sum ?r ((ld_workers s)[i := ?w]) \<le> ?sum ?r (ld_workers s) + 4 + unat ?amount"
      using False by (simp add: weight_def split: if_splits)
    have mono: "?sum ?r (ld_workers s) \<le> ?sum available (ld_workers s) + 2 * ?n" by (rule sum_weight_change)
    have "(2 * ?n + 6) * unat available = (2 * ?n + 6) * unat ?r + (2 * ?n + 6) * unat ?amount"
      by (simp flip: r add: algebra_simps)
    moreover have "(2 * ?n + 5) * 1 \<le> (2 * ?n + 5) * unat ?amount" using pos by (intro mult_le_mono2) simp
    ultimately show ?thesis unfolding result work_left_def using upd mono True False by (simp add: algebra_simps)
  qed
next
  case False
  then show ?thesis
    using work_left_set(3)[OF assms(1), of Claiming] assms(2) by (simp add: claim_swap_def Let_def weight_def)
qed
lemma finish_work:
  assumes "i < length (ld_workers s)" "ld_workers s ! i = Moving amount moved"
  shows "work_left (transfer_end i e s) < work_left s"
  using work_left_set(2)[OF assms(1), of Stopped] work_left_set(3)[OF assms(1), of Looking] assms(2)
  by (simp add: transfer_end_def weight_def)

lemma move_work:
  assumes "i < length (ld_workers s)" "ld_workers s ! i = Moving amount moved" "0 < n" "n \<le> amount - moved" "moved \<le> amount"
  shows "work_left (set_worker i (Moving amount (moved + n)) (s\<lparr>ld_bytes := b\<rparr>)) < work_left s"
proof (rule work_left_set(1)[OF assms(1)])
  have "unat n \<le> unat amount - unat moved" using assms(4,5) by (simp add: word_le_nat_alt unat_sub)
  moreover from this have "unat moved + unat n < 2 ^ 64"
    using assms(5) unsigned_less[of amount, where ?'a = nat] by (simp add: word_le_nat_alt)
  then have "unat (moved + n) = unat moved + unat n" by (simp add: unat_word_ariths)
  moreover have "0 < unat n" using assms(3) by (simp add: word_less_nat_alt)
  ultimately show "weight (ld_remaining s) (Moving amount (moved + n)) < weight (ld_remaining s) (ld_workers s ! i)"
    using assms(2) by (simp add: weight_def)
qed

lemma load_step_work:
  assumes "load_inv budget s" "load_step s e \<noteq> s"
  shows "work_left (load_step s e) < work_left s"
proof (cases e)
  case (Look i)
  then show ?thesis using assms(2) work_left_set(3)[of i s]
    by (cases "worker_at s i") (simp_all add: weight_def live_worker)
next
  case (Read i)
  then show ?thesis using assms(2) work_left_set(3)[of i s]
    by (cases "worker_at s i") (simp_all add: claim_read_def weight_def live_worker)
next
  case (Swap i)
  then show ?thesis using assms(2) by (cases "worker_at s i") (simp_all add: swap_work live_worker)
next
  case (Move i n)
  have "moved \<le> amount" if "worker_at s i = Moving amount moved" for amount moved
    using assms(1) live_worker[OF that] nth_mem[of i "ld_workers s"] by (auto simp: load_inv_def sound_worker_def)
  then show ?thesis using assms(2) Move
    by (cases "worker_at s i") (auto simp: move_work live_worker split: if_splits)
next
  case (Finish i err)
  then show ?thesis using assms(2) by (cases "worker_at s i") (auto simp: live_worker intro: finish_work)
next
  case Cancel
  then show ?thesis using assms(2) by (cases "ld_cancelled s") (auto simp: work_left_def)
qed

text \<open>The events of a run that each change something.\<close>

fun effective :: "load \<Rightarrow> load_event list \<Rightarrow> bool" where
  "effective s [] = True"
| "effective s (e # es) = (load_step s e \<noteq> s \<and> effective (load_step s e) es)"

lemma effective_bounded: "load_inv budget s \<Longrightarrow> effective s es \<Longrightarrow> length es \<le> work_left s"
proof (induction es arbitrary: s)
  case Nil
  then show ?case by simp
next
  case (Cons e es)
  then have "length es \<le> work_left (load_step s e)" and "work_left (load_step s e) < work_left s"
    using load_step_inv load_step_work by auto
  then show ?case by simp
qed

lemma executeLoad_work:
  "work_left (executeLoad budget streams block) = (2 * nat (max streams 1) + 6) * unat budget + 8 * nat (max streams 1) + 1"
  by (simp add: executeLoad_def work_left_def weight_def sum_list_replicate max_def)

text \<open>As long as a worker is left, some event other than a cancellation changes something.\<close>

lemma stuck_done:
  assumes "\<And>e. e \<noteq> Cancel \<Longrightarrow> load_step s e = s"
  shows "load_done s"
proof -
  have "ld_workers s ! i = Stopped" if i: "i < length (ld_workers s)" for i
  proof (rule ccontr)
    assume live: "ld_workers s ! i \<noteq> Stopped"
    have at: "worker_at s i = ld_workers s ! i" using i by (simp add: worker_at_def)
    define e where "e = (case ld_workers s ! i of Looking \<Rightarrow> Look i | Claiming \<Rightarrow> Read i | Holding _ \<Rightarrow> Swap i
      | Moving _ _ \<Rightarrow> Finish i '''' | Stopped \<Rightarrow> Cancel)"
    have "ld_workers (load_step s e) ! i \<noteq> ld_workers s ! i \<and> e \<noteq> Cancel"
      using i live
      by (cases "ld_workers s ! i") (simp_all add: e_def at claim_read_def claim_swap_def transfer_end_def Let_def)
    then show False using assms[of e] by simp
  qed
  then show ?thesis by (simp add: load_done_def list_all_length)
qed

text \<open>
  (C20) Every load comes to an end. In a run of its workers in which each event does something there
  are at most (2n + 6) times the budget, plus 8n + 1, events for n workers - lost races of the
  compare-and-swap included - and a load that only a cancellation could still change has no worker
  left.
\<close>

theorem load_terminates:
  assumes "effective (executeLoad budget streams block) events"
  shows "length events \<le> (2 * nat (max streams 1) + 6) * unat budget + 8 * nat (max streams 1) + 1
    \<and> ((\<forall>e. e \<noteq> Cancel \<longrightarrow> load_step (foldl load_step (executeLoad budget streams block) events) e
          = foldl load_step (executeLoad budget streams block) events)
       \<longrightarrow> load_done (foldl load_step (executeLoad budget streams block) events))"
  using effective_bounded[OF executeLoad_inv assms] stuck_done by (simp add: executeLoad_work)

theorem load_terminates_witness:
  "effective (executeLoad 1 1 1) [Look 0, Read 0, Swap 0, Move 0 1, Finish 0 '''', Look 0, Read 0]
   \<and> load_done (foldl load_step (executeLoad 1 1 1) [Look 0, Read 0, Swap 0, Move 0 1, Finish 0 '''', Look 0, Read 0])
   \<and> length [Look 0, Read 0, Swap 0, Move 0 1, Finish 0 '''', Look 0, Read 0] \<le> 17"
proof -
  let ?es = "[Look 0, Read 0, Swap 0, Move 0 1, Finish 0 '''', Look 0, Read 0]"
  let ?st = "\<lambda>w r b. \<lparr>ld_remaining = r, ld_block = 1, ld_workers = [w], ld_bytes = b, ld_error = None, ld_cancelled = False\<rparr>"
  have start: "executeLoad 1 1 1 = ?st Looking 1 0" by (simp add: executeLoad_def)
  note ev = worker_at_def claim_read_def claim_swap_def transfer_end_def set_worker_def
  have steps: "load_step (?st Looking r b) (Look 0) = ?st Claiming r b"
    "load_step (?st Claiming 1 b) (Read 0) = ?st (Holding 1) 1 b" "load_step (?st Claiming 0 b) (Read 0) = ?st Stopped 0 b"
    "load_step (?st (Holding 1) 1 b) (Swap 0) = ?st (Moving 1 0) 0 b" "load_step (?st (Moving 1 0) 0 0) (Move 0 1) = ?st (Moving 1 1) 0 1"
    "load_step (?st (Moving 1 1) 0 b) (Finish 0 '''') = ?st Looking 0 b" for r b
    by (simp_all add: ev)
  have eff: "effective (executeLoad 1 1 1) ?es"
    unfolding start effective.simps steps by simp
  moreover have "load_done (foldl load_step (executeLoad 1 1 1) ?es)"
    unfolding start foldl.simps steps by (simp add: load_done_def)
  moreover have "length ?es \<le> 17" using load_terminates[OF eff, THEN conjunct1] by simp
  ultimately show ?thesis by blast
qed
section \<open>Response bytes\<close>

text \<open>
  The allowance of the probes and the upload answers, shared by concurrent drains: each reserves up
  to \<open>maxResponseBody\<close> bytes, and gives back what it did not read. \<open>rb_open\<close> holds the reservations
  of the drains under way.
\<close>

record responses =
  rb_capacity :: u64
  rb_remaining :: u64
  rb_used :: u64
  rb_open :: "u64 list"

abbreviation (input) maxResponseBody :: u64 where "maxResponseBody \<equiv> 4096"

datatype drain_error = Exhausted | TooLarge | ReadFailed string | Unavailable

datatype drain_event = Reserve | Settle nat u64

definition newResponseBudget :: "u64 \<Rightarrow> responses" where
  "newResponseBudget capacity = \<lparr>rb_capacity = capacity, rb_remaining = capacity, rb_used = 0, rb_open = []\<rparr>"

definition drain_reserve :: "responses \<Rightarrow> responses" where
  "drain_reserve b =
     (let reserved = min (rb_remaining b) maxResponseBody
      in if reserved = 0 then b else b\<lparr>rb_remaining := rb_remaining b - reserved, rb_open := reserved # rb_open b\<rparr>)"

definition drain_settle :: "nat \<Rightarrow> u64 \<Rightarrow> responses \<Rightarrow> responses" where
  "drain_settle k count b =
     (let reserved = rb_open b ! k
      in b\<lparr>rb_remaining := rb_remaining b + (reserved - count), rb_used := (if count > 0 then rb_used b + count else rb_used b),
           rb_open := take k (rb_open b) @ drop (Suc k) (rb_open b)\<rparr>)"

text \<open>A reader limited to the reservation never reports more; other settlements do not occur.\<close>

fun drain_step :: "responses \<Rightarrow> drain_event \<Rightarrow> responses" where
  "drain_step b Reserve = drain_reserve b"
| "drain_step b (Settle k count) = (if k < length (rb_open b) \<and> count \<le> rb_open b ! k then drain_settle k count b else b)"

text \<open>
  \<open>drainResponse\<close> of one response: its announced length, or -1, the bytes its body holds, and
  whether reading it fails behind them.
\<close>

record response_body =
  bo_ContentLength :: int
  bo_Bytes :: u64
  bo_Error :: "string option"

definition drained :: "u64 \<Rightarrow> response_body \<Rightarrow> u64 \<times> string option" where
  "drained reserved r =
     (if bo_Bytes r \<ge> reserved then (reserved, None) else (bo_Bytes r, bo_Error r))"

definition drainResponse :: "response_body \<Rightarrow> responses option \<Rightarrow> responses option \<times> drain_error option" where
  "drainResponse r budget =
     (case budget of
        None \<Rightarrow> (None, Some Unavailable)
      | Some b \<Rightarrow>
          let reserved = min (rb_remaining b) maxResponseBody in
          if reserved = 0 then (Some b, Some Exhausted)
          else if bo_ContentLength r > uint reserved then (Some (drain_settle 0 0 (drain_reserve b)), Some TooLarge)
          else case drained reserved r of
            (count, err) \<Rightarrow> (Some (drain_settle 0 count (drain_reserve b)),
               case err of
                 Some e \<Rightarrow> Some (ReadFailed e)
               | None \<Rightarrow> if count = reserved \<and> (bo_ContentLength r < 0 \<or> bo_ContentLength r > uint reserved)
                   then Some TooLarge else None))"

definition responses_inv :: "responses \<Rightarrow> bool" where
  "responses_inv b \<longleftrightarrow> unat (rb_remaining b) + unat (rb_used b) + sum_list (map unat (rb_open b)) = unat (rb_capacity b)"

lemma drain_reserve_inv: "responses_inv b \<Longrightarrow> responses_inv (drain_reserve b)"
  by (simp add: responses_inv_def drain_reserve_def Let_def unat_sub min_def word_le_nat_alt)

lemma sum_list_remove_nth:
  fixes xs :: "nat list"
  shows "k < length xs \<Longrightarrow> sum_list (take k xs) + sum_list (drop (Suc k) xs) + xs ! k = sum_list xs"
  by (metis Cons_nth_drop_Suc append_take_drop_id sum_list.Cons sum_list_append add.assoc add.commute)

lemma drain_settle_inv:
  assumes "responses_inv b" "k < length (rb_open b)" "count \<le> rb_open b ! k"
  shows "responses_inv (drain_settle k count b)"
proof -
  let ?r = "rb_open b ! k" and ?o = "map unat (rb_open b)"
  have rest: "sum_list (take k ?o) + sum_list (drop (Suc k) ?o) + unat ?r = sum_list ?o"
    using sum_list_remove_nth[of k ?o] assms(2) by simp
  have diff: "unat (?r - count) + unat count = unat ?r" using assms(3) by (simp add: unat_sub word_le_nat_alt)
  have cap: "unat (rb_remaining b) + unat (rb_used b) + sum_list ?o < 2 ^ 64"
    using assms(1) unsigned_less[of "rb_capacity b", where ?'a = nat] by (simp add: responses_inv_def)
  have "unat (rb_remaining b + (?r - count)) = unat (rb_remaining b) + unat (?r - count)"
    "unat (rb_used b + count) = unat (rb_used b) + unat count"
    using cap rest diff by (simp_all add: unat_word_ariths)
  moreover have "\<not> 0 < count \<Longrightarrow> unat count = 0" by (simp add: word_less_nat_alt)
  ultimately show ?thesis using assms(1) rest diff
    by (auto simp: responses_inv_def drain_settle_def Let_def take_map drop_map)
qed

interpretation draining: machine drain_step responses_inv
proof
  fix b e
  assume "responses_inv b"
  then show "responses_inv (drain_step b e)" by (cases e) (simp_all add: drain_reserve_inv drain_settle_inv)
qed

lemma responses_start: "responses_inv (newResponseBudget capacity)"
  by (simp add: responses_inv_def newResponseBudget_def)

lemma drain_capacity [simp]: "rb_capacity (drain_step b e) = rb_capacity b"
  by (cases e) (simp_all add: drain_reserve_def drain_settle_def Let_def)

lemma drains_capacity [simp]: "rb_capacity (foldl drain_step b es) = rb_capacity b"
  by (induction es arbitrary: b) simp_all

lemma drains_inv: "responses_inv (foldl drain_step (newResponseBudget capacity) events)"
  by (rule draining.run_inv[OF responses_start])

lemma drains_used: "rb_used (foldl drain_step (newResponseBudget capacity) events) \<le> capacity"
  using drains_inv[of capacity events] by (simp add: responses_inv_def newResponseBudget_def word_le_nat_alt)

text \<open>
  Response bytes are conserved: over any interleaving of drains, what is left, what has been
  read and what the drains under way have reserved add up to the capacity exactly, so no more than
  the capacity is ever read.
\<close>

theorem responses_conserved:
  shows "let b = foldl drain_step (newResponseBudget capacity) events
     in unat (rb_remaining b) + unat (rb_used b) + sum_list (map unat (rb_open b)) = unat capacity
        \<and> rb_used b \<le> capacity"
  using drains_inv[of capacity events] drains_used[of capacity events]
  by (simp add: responses_inv_def Let_def newResponseBudget_def)

lemma drained_le: "fst (drained reserved r) \<le> reserved"
  by (auto simp: drained_def)

text \<open>A drain is one reservation and its settlement.\<close>

lemma drainResponse_steps:
  assumes "drainResponse r (Some b) = (b', e)"
  shows "b' = Some b \<and> e = Some Exhausted \<or> (\<exists>count. b' = Some (foldl drain_step b [Reserve, Settle 0 count]))"
proof (cases "min (rb_remaining b) maxResponseBody = 0")
  case True
  then show ?thesis using assms by (simp add: drainResponse_def)
next
  case False
  define reserved where "reserved = min (rb_remaining b) maxResponseBody"
  have open0: "rb_open (drain_reserve b) = reserved # rb_open b"
    using False by (simp add: drain_reserve_def Let_def reserved_def)
  obtain n err where d: "drained reserved r = (n, err)" by fastforce
  have "b' = Some (drain_settle 0 0 (drain_reserve b)) \<or> b' = Some (drain_settle 0 n (drain_reserve b))"
    using assms False by (auto simp: drainResponse_def reserved_def[symmetric] d Let_def split: if_splits)
  moreover have "n \<le> reserved" using drained_le[of reserved r] d by simp
  moreover have "k \<le> reserved \<Longrightarrow> foldl drain_step b [Reserve, Settle 0 k] = drain_settle 0 k (drain_reserve b)" for k
    by (simp add: open0)
  moreover have "0 \<le> reserved" by simp
  ultimately show ?thesis by metis
qed

section \<open>Generated bodies\<close>

unbundle bit_operations_syntax

text \<open>
  \<open>generatedBody.Read\<close> into a buffer of \<open>n\<close> bytes: \<open>None\<close> at the end, else the count and what
  remains. Adding the complement of \<open>count - 1\<close> subtracts the count.
\<close>

definition body_read :: "nat \<Rightarrow> u64 \<Rightarrow> (u64 \<times> u64) option" where
  "body_read n remaining =
     (if remaining = 0 then None
      else let count = min (word_of_nat n) remaining in Some (count, remaining + NOT (count - 1)))"

text \<open>All the reads of a transfer: the counts the callback saw and what remains.\<close>

fun body_reads :: "nat list \<Rightarrow> u64 \<Rightarrow> u64 list \<times> u64" where
  "body_reads [] remaining = ([], remaining)"
| "body_reads (n # ns) remaining =
     (case body_read n remaining of
        None \<Rightarrow> ([], remaining)
      | Some (count, left) \<Rightarrow> (case body_reads ns left of (counts, rest) \<Rightarrow> (count # counts, rest)))"

definition transferred :: "u64 \<Rightarrow> u64 \<Rightarrow> u64" where
  "transferred amount remaining = amount - remaining"

lemma body_read_sub: "body_read n remaining = Some (count, left) \<Longrightarrow> left = remaining - count \<and> count \<le> remaining"
  by (auto simp: body_read_def Let_def not_eq_complement split: if_splits)

lemma body_reads_left: "snd (body_reads ns remaining) \<le> remaining"
proof (induction ns arbitrary: remaining)
  case Nil
  then show ?case by simp
next
  case (Cons n ns)
  show ?case
  proof (cases "body_read n remaining")
    case (Some p)
    obtain count left where p: "p = (count, left)" by fastforce
    have s: "left = remaining - count" "count \<le> remaining" using body_read_sub[of n remaining count left] Some p by auto
    then have "left \<le> remaining" by (simp add: word_sub_le)
    then have "snd (body_reads ns left) \<le> remaining" using Cons[of left] by (rule order.trans[rotated])
    then show ?thesis by (cases "body_reads ns left") (simp add: Some p)
  qed simp
qed

lemma transferred_le: "transferred amount (snd (body_reads ns amount)) \<le> amount"
  using body_reads_left[of ns amount] by (simp add: transferred_def word_sub_le)
section \<open>One transfer\<close>

text \<open>
  What one request meets: an error before or at the exchange, a status, the counts its body reads
  return, how reading ends, the buffers the transport fills from an upload body, the answer to an
  upload, whether the context has ended, and the time it took.
\<close>

record transfer_env =
  tx_RequestError :: "string option"
  tx_DoError :: "string option"
  tx_Status :: int
  tx_StatusText :: string
  tx_Chunks :: "nat list"
  tx_ReadError :: "string option"
  tx_Buffers :: "nat list"
  tx_Answer :: response_body
  tx_Cancelled :: bool
  tx_Elapsed :: duration

definition no_transfer :: ThroughputResult where
  "no_transfer = \<lparr>tr_BytesTransferred = 0, tr_DurationMS = 0, tr_ThroughputMbps = 0, tr_P75Mbps = 0, tr_CapHit = False,
     tr_TTFBMS = 0, tr_Error = ''''\<rparr>"

abbreviation (input) transferChunk :: nat where "transferChunk \<equiv> 32768"

text \<open>The counts of a reader limited to \<open>amount\<close>, and whether the limit ended it.\<close>

fun limited_reads :: "nat \<Rightarrow> nat list \<Rightarrow> nat list \<times> bool" where
  "limited_reads amount [] = ([], amount = 0)"
| "limited_reads amount (c # cs) =
     (if amount = 0 then ([], True)
      else let n = min c (min transferChunk amount)
           in case limited_reads (amount - n) cs of (ns, full) \<Rightarrow> (n # ns, full))"

definition milliseconds :: "duration \<Rightarrow> real" where
  "milliseconds d = real_of_int (d div Millisecond)"

definition failed_transfer :: "transfer_env \<Rightarrow> u64 \<Rightarrow> string \<Rightarrow> ThroughputResult" where
  "failed_transfer tx moved e = no_transfer\<lparr>tr_BytesTransferred := moved, tr_DurationMS := milliseconds (tx_Elapsed tx),
     tr_Error := e\<rparr>"

definition finished_transfer :: "transfer_env \<Rightarrow> u64 \<Rightarrow> ThroughputResult" where
  "finished_transfer tx moved =
     (let d = max (tx_Elapsed tx) Millisecond
      in no_transfer\<lparr>tr_BytesTransferred := moved, tr_DurationMS := milliseconds d,
           tr_ThroughputMbps := real (unat moved) * 8 / (real_of_int d / 10 ^ 9) / 10 ^ 6\<rparr>)"

definition download_body :: "transfer_env \<Rightarrow> u64 \<Rightarrow> ThroughputResult" where
  "download_body tx amount =
     (case limited_reads (unat amount) (tx_Chunks tx) of
        (counts, full) \<Rightarrow>
          let moved = word_of_nat (sum_list counts) in
          (case (if full then None else tx_ReadError tx) of
             Some e \<Rightarrow> if tx_Cancelled tx then finished_transfer tx moved else failed_transfer tx moved e
           | None \<Rightarrow> finished_transfer tx moved))"

definition upload_answer :: "transfer_env \<Rightarrow> u64 \<Rightarrow> responses option \<Rightarrow> responses option \<times> ThroughputResult" where
  "upload_answer tx moved budget =
     (case drainResponse (tx_Answer tx) budget of
        (budget', Some e) \<Rightarrow> (budget', failed_transfer tx moved (case e of
             Exhausted \<Rightarrow> ''response-byte budget exhausted'' | Unavailable \<Rightarrow> ''response-byte budget unavailable''
           | TooLarge \<Rightarrow> ''endpoint response exceeded bounded allowance'' | ReadFailed m \<Rightarrow> m))
      | (budget', None) \<Rightarrow> (budget', finished_transfer tx moved))"

definition oneTransfer :: "transfer_env \<Rightarrow> string \<Rightarrow> u64 \<Rightarrow> responses option \<Rightarrow> responses option \<times> ThroughputResult" where
  "oneTransfer tx direction amount budget =
     (if amount = 0 then (budget, no_transfer)
      else case tx_RequestError tx of
        Some e \<Rightarrow> (budget, no_transfer\<lparr>tr_Error := e\<rparr>)
      | None \<Rightarrow>
          let download = (direction = ''download'');
              moved = (if download then 0 else transferred amount (snd (body_reads (tx_Buffers tx) amount)))
          in case tx_DoError tx of
               Some e \<Rightarrow> (budget, failed_transfer tx moved e)
             | None \<Rightarrow>
                 if tx_Status tx < 200 \<or> tx_Status tx \<ge> 300
                 then (budget, failed_transfer tx 0 (''endpoint returned '' @ tx_StatusText tx))
                 else if download then (budget, download_body tx amount)
                 else upload_answer tx moved budget)"

lemma limited_reads_sum: "sum_list (fst (limited_reads amount cs)) \<le> amount"
proof (induction cs arbitrary: amount)
  case Nil
  then show ?case by simp
next
  case (Cons c cs)
  let ?n = "min c (min transferChunk amount)"
  have "sum_list (fst (limited_reads (amount - ?n) cs)) \<le> amount - ?n" by (rule Cons.IH)
  then have "?n + sum_list (fst (limited_reads (amount - ?n) cs)) \<le> amount" by linarith
  then show ?case by (cases "limited_reads (amount - ?n) cs") (simp add: Let_def)
qed

lemma transfer_bytes [simp]:
  "tr_BytesTransferred (failed_transfer tx moved e) = moved" "tr_BytesTransferred (finished_transfer tx moved) = moved"
  "tr_BytesTransferred no_transfer = 0" "tr_BytesTransferred (no_transfer\<lparr>tr_Error := e\<rparr>) = 0"
  by (simp_all add: failed_transfer_def finished_transfer_def no_transfer_def Let_def)

lemma download_body_le: "tr_BytesTransferred (download_body tx amount) \<le> amount"
proof -
  obtain counts full where r: "limited_reads (unat amount) (tx_Chunks tx) = (counts, full)" by fastforce
  have "sum_list counts \<le> unat amount" using limited_reads_sum[of "unat amount" "tx_Chunks tx"] r by simp
  moreover from this have "unat (word_of_nat (sum_list counts) :: u64) = sum_list counts"
    using unsigned_less[of amount, where ?'a = nat] by (simp add: unsigned_of_nat take_bit_nat_eq_self)
  ultimately show ?thesis
    by (simp add: download_body_def r Let_def word_le_nat_alt split: option.split)
qed

lemma oneTransfer_le: "tr_BytesTransferred (snd (oneTransfer tx direction amount budget)) \<le> amount"
  using download_body_le transferred_le[of amount "tx_Buffers tx"]
  by (simp add: oneTransfer_def upload_answer_def Let_def split: option.split prod.split)

section \<open>Buckets of a phase\<close>

record phaseCounter =
  cn_started :: time
  cn_streams :: int
  cn_buckets :: "Bucket list"
  cn_bytes :: u64

definition newPhaseCounter :: "time \<Rightarrow> int \<Rightarrow> phaseCounter" where
  "newPhaseCounter now streams = \<lparr>cn_started = now, cn_streams = streams, cn_buckets = [], cn_bytes = 0\<rparr>"

definition empty_bucket :: Bucket where
  "empty_bucket = \<lparr>bk_Index = 0, bk_StartMS = 0, bk_DurationMS = 0, bk_Bytes = 0, bk_Samples = 0, bk_StreamCount = 0,
     bk_Complete = False, bk_ThroughputMbps = 0\<rparr>"

text \<open>The map from indices to buckets, as the list of its values; the indices are distinct.\<close>

fun at_index :: "int \<Rightarrow> Bucket \<Rightarrow> (Bucket \<Rightarrow> Bucket) \<Rightarrow> Bucket list \<Rightarrow> Bucket list" where
  "at_index k fresh f [] = [f fresh]"
| "at_index k fresh f (b # bs) = (if bk_Index b = k then f b # bs else b # at_index k fresh f bs)"

definition counter_add :: "time \<Rightarrow> int \<Rightarrow> phaseCounter \<Rightarrow> phaseCounter" where
  "counter_add now bytes p =
     (if bytes \<le> 0 then p
      else let k = (now - cn_started p) div Second;
               fresh = empty_bucket\<lparr>bk_Index := k, bk_StartMS := k * 1000, bk_StreamCount := cn_streams p\<rparr>
           in p\<lparr>cn_buckets := at_index k fresh (\<lambda>b. b\<lparr>bk_Bytes := bk_Bytes b + word_of_int bytes, bk_Samples := bk_Samples b + 1\<rparr>)
                  (cn_buckets p),
                cn_bytes := cn_bytes p + word_of_int bytes\<rparr>)"

definition bucket_rate :: "Bucket \<Rightarrow> real" where
  "bucket_rate b = real (unat (bk_Bytes b)) * 8 / real_of_int (bk_DurationMS b) / 1000"

definition close_bucket :: "bool \<Rightarrow> duration \<Rightarrow> Bucket \<Rightarrow> Bucket" where
  "close_bucket final elapsed original =
     (let newest = elapsed div Second; k = bk_Index original;
          b = (if k = newest
               then original\<lparr>bk_DurationMS := max (elapsed div Millisecond - k * 1000) 1,
                      bk_Complete := final \<and> max (elapsed div Millisecond - k * 1000) 1 \<ge> 900\<rparr>
               else original\<lparr>bk_DurationMS := 1000, bk_Complete := k < newest\<rparr>)
      in b\<lparr>bk_ThroughputMbps := bucket_rate b\<rparr>)"

definition counter_snapshot :: "bool \<Rightarrow> time \<Rightarrow> phaseCounter \<Rightarrow> Bucket list" where
  "counter_snapshot final now p = sort_key bk_Index (map (close_bucket final (now - cn_started p)) (cn_buckets p))"

text \<open>\<open>combineBuckets\<close>: the buckets of the two directions, index by index.\<close>

definition add_bucket :: "int \<Rightarrow> Bucket \<Rightarrow> (Bucket \<times> nat) list \<Rightarrow> (Bucket \<times> nat) list" where
  "add_bucket streams bucket combined =
     (let merge = (\<lambda>(v, n). (v\<lparr>bk_Index := bk_Index bucket, bk_StartMS := bk_StartMS bucket, bk_StreamCount := streams,
            bk_Bytes := bk_Bytes v + bk_Bytes bucket, bk_Samples := bk_Samples v + bk_Samples bucket,
            bk_DurationMS := max (bk_DurationMS v) (bk_DurationMS bucket),
            bk_Complete := (if n = 0 then True else bk_Complete v) \<and> bk_Complete bucket\<rparr>, n + 1));
          old = List.find (\<lambda>(v, n). bk_Index v = bk_Index bucket) combined
      in case old of
           None \<Rightarrow> combined @ [merge (empty_bucket, 0)]
         | Some _ \<Rightarrow> map (\<lambda>(v, n). if bk_Index v = bk_Index bucket then merge (v, n) else (v, n)) combined)"

definition finish_combined :: "Bucket \<times> nat \<Rightarrow> Bucket" where
  "finish_combined entry =
     (case entry of (v, n) \<Rightarrow>
        let b = v\<lparr>bk_Complete := bk_Complete v \<and> n = 2\<rparr>
        in if bk_DurationMS b > 0 then b\<lparr>bk_ThroughputMbps := bucket_rate b\<rparr> else b)"

definition combineBuckets :: "Bucket list \<Rightarrow> Bucket list \<Rightarrow> int \<Rightarrow> Bucket list" where
  "combineBuckets left right streams =
     sort_key bk_Index (map finish_combined (foldl (\<lambda>acc b. add_bucket streams b acc) [] (left @ right)))"
text \<open>The whole of a word list.\<close>

abbreviation (input) bucket_bytes :: "Bucket list \<Rightarrow> u64" where
  "bucket_bytes bs \<equiv> sum_list (map bk_Bytes bs)"

lemma at_index_bytes:
  assumes "bk_Bytes fresh = 0"
  shows "bucket_bytes (at_index k fresh (\<lambda>b. b\<lparr>bk_Bytes := bk_Bytes b + n, bk_Samples := bk_Samples b + 1\<rparr>) bs) = bucket_bytes bs + n"
  by (induction bs) (simp_all add: assms)

lemma at_index_indices:
  assumes "bk_Index fresh = k" "\<And>b. bk_Index (f b) = bk_Index b"
  shows "map bk_Index (at_index k fresh f bs) = (if k \<in> bk_Index ` set bs then map bk_Index bs else map bk_Index bs @ [k])"
  by (induction bs) (auto simp: assms)

definition counter_inv :: "phaseCounter \<Rightarrow> bool" where
  "counter_inv p \<longleftrightarrow> bucket_bytes (cn_buckets p) = cn_bytes p \<and> distinct (map bk_Index (cn_buckets p))
     \<and> (\<forall>b\<in>set (cn_buckets p). bk_StartMS b = bk_Index b * 1000 \<and> bk_StreamCount b = cn_streams p)"

lemma at_index_all:
  assumes "\<forall>b\<in>set bs. P b" "P (f fresh)" "\<And>b. P b \<Longrightarrow> P (f b)"
  shows "\<forall>b\<in>set (at_index k fresh f bs). P b"
  using assms(1) by (induction bs) (auto simp: assms(2,3))

lemma counter_add_inv: "counter_inv p \<Longrightarrow> counter_inv (counter_add now n p)"
proof -
  assume inv: "counter_inv p"
  define k where "k = (now - cn_started p) div Second"
  define fresh where "fresh = empty_bucket\<lparr>bk_Index := k, bk_StartMS := k * 1000, bk_StreamCount := cn_streams p\<rparr>"
  define f where "f = (\<lambda>b :: Bucket. b\<lparr>bk_Bytes := bk_Bytes b + word_of_int n, bk_Samples := bk_Samples b + 1\<rparr>)"
  have "\<forall>b\<in>set (at_index k fresh f (cn_buckets p)). bk_StartMS b = bk_Index b * 1000 \<and> bk_StreamCount b = cn_streams p"
    by (rule at_index_all) (use inv in \<open>auto simp: counter_inv_def f_def fresh_def\<close>)
  moreover have "bucket_bytes (at_index k fresh f (cn_buckets p)) = bucket_bytes (cn_buckets p) + word_of_int n"
    unfolding f_def by (rule at_index_bytes) (simp add: fresh_def empty_bucket_def)
  moreover have "distinct (map bk_Index (at_index k fresh f (cn_buckets p)))"
  proof -
    have "map bk_Index (at_index k fresh f (cn_buckets p))
        = (if k \<in> bk_Index ` set (cn_buckets p) then map bk_Index (cn_buckets p) else map bk_Index (cn_buckets p) @ [k])"
      by (rule at_index_indices) (simp_all add: f_def fresh_def)
    then show ?thesis using inv by (simp add: counter_inv_def)
  qed
  ultimately show ?thesis using inv
    by (auto simp: counter_add_def counter_inv_def Let_def k_def[symmetric] fresh_def[symmetric] f_def[symmetric])
qed

interpretation counting: machine "\<lambda>p (now, n). counter_add now n p" counter_inv
  by unfold_locales (auto intro: counter_add_inv)

lemma close_bucket_fields [simp]:
  "bk_Index (close_bucket final d b) = bk_Index b" "bk_Bytes (close_bucket final d b) = bk_Bytes b"
  "bk_StartMS (close_bucket final d b) = bk_StartMS b" "bk_StreamCount (close_bucket final d b) = bk_StreamCount b"
  by (simp_all add: close_bucket_def Let_def)

lemma sum_list_sort_key: "sum_list (map f (sort_key g xs)) = (sum_list (map f xs) :: 'a::comm_monoid_add)"
proof -
  have "sum_list (map f (insort_key g x ys)) = f x + sum_list (map f ys)" for x ys
    by (induction ys) (simp_all add: ac_simps)
  then show ?thesis by (induction xs) (simp_all add: sort_key_def)
qed

lemma map_sort_key: "map g (sort_key g xs) = sort (map g xs)"
proof -
  have "map g (insort_key g x ys) = insort (g x) (map g ys)" for x ys by (induction ys) simp_all
  then show ?thesis by (induction xs) (simp_all add: sort_key_def)
qed

text \<open>
  The buckets of a phase account for every byte: whatever was added when, the snapshot is
  sorted by second with one bucket a second, its bytes add up to the byte count of the phase, every
  bucket starts at its second and has a positive duration, and only whole seconds, or at the end a
  last one of 900 ms or more, count as complete.
\<close>

theorem snapshot_accounts:
  shows "let p = foldl (\<lambda>p (now, n). counter_add now n p) (newPhaseCounter started streams) adds;
      bs = counter_snapshot final now p
    in sorted_wrt (<) (map bk_Index bs) \<and> bucket_bytes bs = cn_bytes p
       \<and> list_all (\<lambda>b. bk_StartMS b = bk_Index b * 1000 \<and> bk_DurationMS b > 0
            \<and> (bk_Complete b = (bk_Index b < (now - started) div Second
                 \<or> final \<and> bk_Index b = (now - started) div Second \<and> bk_DurationMS b \<ge> 900))) bs"
proof -
  define p where "p = foldl (\<lambda>p (now, n). counter_add now n p) (newPhaseCounter started streams) adds"
  have inv: "counter_inv p" unfolding p_def
    by (rule counting.run_inv) (simp add: counter_inv_def newPhaseCounter_def)
  have started: "cn_started p = started"
  proof -
    have "cn_started (foldl (\<lambda>p (now, n). counter_add now n p) q adds) = cn_started q" for q
      by (induction adds arbitrary: q) (auto simp: counter_add_def Let_def)
    then show ?thesis by (simp add: p_def newPhaseCounter_def)
  qed
  let ?cs = "map (close_bucket final (now - started)) (cn_buckets p)"
  have idx: "map bk_Index ?cs = map bk_Index (cn_buckets p)" by simp
  have sorted: "sorted_wrt (<) (map bk_Index (sort_key bk_Index ?cs))"
    unfolding map_sort_key idx using inv by (simp add: strict_sorted_iff counter_inv_def)
  have bytes: "bucket_bytes (sort_key bk_Index ?cs) = cn_bytes p"
    using inv by (simp add: sum_list_sort_key counter_inv_def comp_def)
  have "\<forall>b\<in>set (cn_buckets p). bk_DurationMS (close_bucket final (now - started) b) > 0
      \<and> bk_Complete (close_bucket final (now - started) b) = (bk_Index b < (now - started) div Second
                 \<or> final \<and> bk_Index b = (now - started) div Second \<and> bk_DurationMS (close_bucket final (now - started) b) \<ge> 900)"
    by (auto simp: close_bucket_def Let_def less_max_iff_disj)
  then show ?thesis
    using inv sorted bytes by (simp add: p_def[symmetric] counter_snapshot_def started Let_def list_all_iff counter_inv_def)
qed

end
