(* ===== verification/Quality_Runner.thy ===== *)
theory Quality_Runner
  imports Quality_Load Measurement Client
begin

text \<open>
  The quality runner (\<open>internal/qualitytest/runner.go\<close>) above the loads of \<open>Quality_Load\<close>: the
  statistics of probes and buckets, the sizing of every phase from the measured rate, the phases,
  and \<open>Run\<close>, which composes them into a test. A \<open>run_env\<close> is what a run meets: the clock, random
  bytes, what each request does, what each probe measures and when contexts end. The order of the
  probes and of the loads' steps is part of it, so it is arbitrary. The live progress is modelled
  on its own; a run does not depend on it. \<open>strconv.ParseFloat\<close> and URL building are parameters.
\<close>

section \<open>Statistics\<close>

definition run_percentile :: "real list \<Rightarrow> real \<Rightarrow> real" where
  "run_percentile xs pct =
     (if xs = [] then 0
      else let position = pct / 100 * real (length xs - 1);
               lower = nat \<lfloor>position\<rfloor>; upper = nat \<lceil>position\<rceil>
           in if lower = upper then xs ! lower
              else xs ! lower + (position - real lower) * (xs ! upper - xs ! lower))"

definition bucket_counts :: "int \<Rightarrow> int \<Rightarrow> Bucket \<Rightarrow> bool" where
  "bucket_counts first final b \<longleftrightarrow>
     \<not> (\<not> bk_Complete b \<or> bk_DurationMS b < 900 \<or> bk_Bytes b = 0
        \<or> (first \<ge> 0 \<and> (bk_Index b < first \<or> bk_Index b > final)))"

definition bucketPercentile :: "Bucket list \<Rightarrow> int \<Rightarrow> int \<Rightarrow> real \<Rightarrow> real" where
  "bucketPercentile buckets first final pct =
     (let values = filter (\<lambda>v. v > 0) (map bucket_rate (filter (bucket_counts first final) buckets))
      in if values = [] then 0 else round_places (run_percentile (sort values) pct) 3)"

definition mean_delta :: "real list \<Rightarrow> real" where
  "mean_delta values =
     (if length values > 1
      then round_places (sum_list (map (\<lambda>(a, b). \<bar>b - a\<bar>) (zip values (tl values))) / real (length values - 1)) 3
      else 0)"

definition zero_summary :: LatencySummary where
  "zero_summary = \<lparr>ls_Count = 0, ls_Attempts = 0, ls_MinMS = 0, ls_P5MS = 0, ls_P50MS = 0, ls_P90MS = 0, ls_P95MS = 0,
     ls_P99MS = 0, ls_MaxMS = 0, ls_JitterIQRMS = 0, ls_JitterMeanDeltaMS = 0, ls_PacketLossPct = 0,
     ls_PacketLossValid = False, ls_Error = ''''\<rparr>"

definition latencySummary :: "real list \<Rightarrow> nat \<Rightarrow> LatencySummary" where
  "latencySummary values attempts =
     (let loss = (if attempts > 0 then 100 * (real attempts - real (length values)) / real attempts else 0);
          r = zero_summary\<lparr>ls_Count := word_of_nat (length values), ls_Attempts := word_of_nat attempts,
                ls_PacketLossValid := attempts > 0, ls_PacketLossPct := loss\<rparr>;
          ordered = sort values; pct = (\<lambda>p. round_places (run_percentile ordered p) 3)
      in if values = [] then r\<lparr>ls_Error := ''no latency probes succeeded''\<rparr>
         else r\<lparr>ls_MinMS := round_places (hd ordered) 3, ls_MaxMS := round_places (List.last ordered) 3,
                ls_P5MS := pct 5, ls_P50MS := pct 50, ls_P90MS := pct 90, ls_P95MS := pct 95, ls_P99MS := pct 99,
                ls_JitterIQRMS := round_places (run_percentile ordered 75 - run_percentile ordered 25) 3,
                ls_JitterMeanDeltaMS := mean_delta values\<rparr>)"

definition compatibilityLatency :: "LatencySummary \<Rightarrow> string \<Rightarrow> LatencyResult" where
  "compatibilityLatency s target = \<lparr>lr_MinMS = ls_MinMS s, lr_AvgMS = ls_P50MS s, lr_MaxMS = ls_MaxMS s,
     lr_JitterMS = ls_JitterMeanDeltaMS s, lr_PacketLossPct = ls_PacketLossPct s, lr_PacketLossValid = ls_PacketLossValid s,
     lr_ProbesSent = ls_Attempts s, lr_LoadedAvgMS = 0, lr_Target = target, lr_Error = ls_Error s\<rparr>"

definition pathSummary :: "real list \<Rightarrow> nat \<Rightarrow> PathLatency" where
  "pathSummary values attempts =
     (if attempts = 0 then \<lparr>py_Samples = 0, py_Successes = 0, py_P50MS = 0, py_P95MS = 0, py_LossPct = 0\<rparr>
      else let ordered = sort values; pct = (\<lambda>p. if ordered = [] then 0 else round_places (run_percentile ordered p) 3)
           in \<lparr>py_Samples = int attempts, py_Successes = int (length values), py_P50MS = pct 50, py_P95MS = pct 95,
               py_LossPct = 100 * (real attempts - real (length values)) / real attempts\<rparr>)"

section \<open>Probes\<close>

record pathSamples =
  ps_persistent :: "real list"
  ps_fresh :: "real list"
  ps_persistentAttempts :: nat
  ps_freshAttempts :: nat

definition no_paths :: pathSamples where
  "no_paths = \<lparr>ps_persistent = [], ps_fresh = [], ps_persistentAttempts = 0, ps_freshAttempts = 0\<rparr>"

definition addPersistent :: "real \<Rightarrow> bool \<Rightarrow> pathSamples \<Rightarrow> pathSamples" where
  "addPersistent v ok p = p\<lparr>ps_persistentAttempts := ps_persistentAttempts p + 1,
     ps_persistent := (if ok then ps_persistent p @ [v] else ps_persistent p)\<rparr>"

definition addFresh :: "real \<Rightarrow> bool \<Rightarrow> pathSamples \<Rightarrow> pathSamples" where
  "addFresh v ok p = p\<lparr>ps_freshAttempts := ps_freshAttempts p + 1,
     ps_fresh := (if ok then ps_fresh p @ [v] else ps_fresh p)\<rparr>"

definition merge_paths :: "pathSamples \<Rightarrow> pathSamples \<Rightarrow> pathSamples" where
  "merge_paths p other = \<lparr>ps_persistent = ps_persistent p @ ps_persistent other, ps_fresh = ps_fresh p @ ps_fresh other,
     ps_persistentAttempts = ps_persistentAttempts p + ps_persistentAttempts other,
     ps_freshAttempts = ps_freshAttempts p + ps_freshAttempts other\<rparr>"

definition paths_summary :: "pathSamples \<Rightarrow> PathResponsiveness" where
  "paths_summary p = \<lparr>pr_Persistent = pathSummary (ps_persistent p) (ps_persistentAttempts p),
     pr_Fresh = pathSummary (ps_fresh p) (ps_freshAttempts p)\<rparr>"

definition successRatio :: "pathSamples \<Rightarrow> real" where
  "successRatio p =
     (let attempts = ps_persistentAttempts p + ps_freshAttempts p
      in if attempts = 0 then 0 else real (length (ps_persistent p) + length (ps_fresh p)) / real attempts)"

definition freshSuccessRatio :: "pathSamples \<Rightarrow> real" where
  "freshSuccessRatio p =
     (if ps_freshAttempts p = 0 then 0 else real (length (ps_fresh p)) / real (ps_freshAttempts p))"

text \<open>\<open>serverProcessingMS\<close>: the first usable \<open>dur\<close> parameter of the \<open>Server-Timing\<close> headers.\<close>

definition trim_quotes :: "string \<Rightarrow> string" where
  "trim_quotes s = rev (dropWhile (\<lambda>c. c = CHR 0x22) (rev (dropWhile (\<lambda>c. c = CHR 0x22) s)))"

definition timing_parameter :: "(string \<Rightarrow> real option) \<Rightarrow> string \<Rightarrow> real option" where
  "timing_parameter parseFloat parameter =
     (case cut CHR ''='' (trim_space parameter) of
        None \<Rightarrow> None
      | Some (name, raw) \<Rightarrow>
          if to_lower name \<noteq> ''dur'' then None
          else case parseFloat (trim_quotes raw) of
            None \<Rightarrow> None
          | Some d \<Rightarrow> if d \<ge> 0 \<and> d < 60000 then Some d else None)"

definition serverProcessingMS :: "(string \<Rightarrow> real option) \<Rightarrow> string list \<Rightarrow> real" where
  "serverProcessingMS parseFloat values =
     (case List.map_filter (timing_parameter parseFloat)
             (concat (map (\<lambda>item. split_at CHR '';'' item) (concat (map (split_at CHR '','') values)))) of
        [] \<Rightarrow> 0 | d # _ \<Rightarrow> d)"

text \<open>A probe: the measured time, whether it succeeded, and whether the byte allowance stopped it.\<close>

type_synonym probe = "real \<times> bool \<times> bool"

record probe_env =
  pn_Failed :: bool
  pn_Answer :: response_body
  pn_Status :: int
  pn_Elapsed :: duration
  pn_ServerTiming :: "string list"

definition probeOnce :: "(string \<Rightarrow> real option) \<Rightarrow> probe_env \<Rightarrow> responses option \<Rightarrow> responses option \<times> probe" where
  "probeOnce parseFloat pn budget =
     (if pn_Failed pn then (budget, 0, False, False)
      else case drainResponse (pn_Answer pn) budget of
        (budget', e) \<Rightarrow>
          if e = Some Exhausted then (budget', 0, False, True)
          else if e \<noteq> None \<or> pn_Status pn < 200 \<or> pn_Status pn \<ge> 300 then (budget', 0, False, False)
          else (budget', max 0 (real_of_int (pn_Elapsed pn div Microsecond) / 1000
                  - serverProcessingMS parseFloat (pn_ServerTiming pn)), True, False))"

text \<open>One turn of a probe loop: whether the context ended before it, after its probe, before and after its fresh probe.\<close>

record probe_turn =
  tn_ended :: bool
  tn_probe :: probe
  tn_ended_probe :: bool
  tn_skip_fresh :: bool
  tn_fresh :: probe
  tn_ended_fresh :: bool

record probe_run =
  rn_values :: "real list"
  rn_attempts :: nat
  rn_paths :: pathSamples

definition no_probes :: probe_run where
  "no_probes = \<lparr>rn_values = [], rn_attempts = 0, rn_paths = no_paths\<rparr>"

text \<open>What a turn adds, or \<open>None\<close> when it ends the loop; \<open>with_fresh\<close> says if it probes a new connection too.\<close>

definition counted_probe :: "real \<Rightarrow> bool \<Rightarrow> probe_run \<Rightarrow> probe_run" where
  "counted_probe v ok r = r\<lparr>rn_attempts := rn_attempts r + 1, rn_values := (if ok then rn_values r @ [v] else rn_values r),
     rn_paths := addPersistent v ok (rn_paths r)\<rparr>"

definition fresh_probe :: "probe_turn \<Rightarrow> probe_run \<Rightarrow> probe_run" where
  "fresh_probe t r =
     (case tn_fresh t of (v, ok, exhausted) \<Rightarrow>
        if \<not> exhausted \<and> (ok \<or> \<not> tn_ended_fresh t) then r\<lparr>rn_paths := addFresh v ok (rn_paths r)\<rparr> else r)"

definition probe_step :: "(nat \<Rightarrow> probe_turn \<Rightarrow> bool) \<Rightarrow> probe_turn \<Rightarrow> probe_run \<Rightarrow> probe_run option" where
  "probe_step with_fresh t r =
     (case tn_probe t of (v, ok, exhausted) \<Rightarrow>
        if tn_ended t \<or> exhausted \<or> (\<not> ok \<and> tn_ended_probe t) then None
        else let r1 = counted_probe v ok r
             in Some (if with_fresh (rn_attempts r1) t then fresh_probe t r1 else r1))"

fun probe_loop :: "(nat \<Rightarrow> probe_turn \<Rightarrow> bool) \<Rightarrow> probe_turn list \<Rightarrow> probe_run \<Rightarrow> probe_run" where
  "probe_loop with_fresh [] r = r"
| "probe_loop with_fresh (t # ts) r =
     (case probe_step with_fresh t r of None \<Rightarrow> r | Some r' \<Rightarrow> probe_loop with_fresh ts r')"

text \<open>A fixed number of turns: the loop's index is the attempts before it, and every fifth index probes afresh.\<close>

definition collectFixedLatency :: "nat \<Rightarrow> probe_turn list \<Rightarrow> LatencySummary \<times> pathSamples" where
  "collectFixedLatency number turns =
     (let r = probe_loop (\<lambda>attempts _. (attempts - 1) mod 5 = 0) (take number turns) no_probes
      in (latencySummary (rn_values r) (rn_attempts r), rn_paths r))"

definition collectLoadedLatency :: "probe_turn list \<Rightarrow> LatencySummary \<times> pathSamples" where
  "collectLoadedLatency turns =
     (let r = probe_loop (\<lambda>attempts t. attempts mod 5 = 0 \<and> \<not> tn_skip_fresh t) turns no_probes
      in (latencySummary (rn_values r) (rn_attempts r), rn_paths r))"

text \<open>The first connection is diagnosed apart, with \<open>ended\<close> and \<open>ended_probe\<close> as in a turn.\<close>

definition collectBaselineLatency :: "probe_turn \<Rightarrow> probe_turn list \<Rightarrow> LatencySummary \<times> pathSamples" where
  "collectBaselineLatency first turns =
     (case tn_probe first of (v, ok, exhausted) \<Rightarrow>
        if tn_ended first \<or> exhausted \<or> (\<not> ok \<and> tn_ended_probe first) then (latencySummary [] 0, no_paths)
        else case collectFixedLatency (nat MinimumBaselineSamples) turns of
          (baseline, measured) \<Rightarrow> (baseline, merge_paths (addFresh v ok no_paths) measured))"
section \<open>Sizing\<close>

definition warmupRate :: "ThroughputResult \<Rightarrow> real" where
  "warmupRate r =
     (if tr_ThroughputMbps r > 0 then tr_ThroughputMbps r
      else if tr_BytesTransferred r > 0 \<and> tr_DurationMS r > 0
      then real (unat (tr_BytesTransferred r)) * 8 / (tr_DurationMS r / 1000) / 10 ^ 6
      else 0)"

definition seconds_of :: "duration \<Rightarrow> real" where
  "seconds_of d = real_of_int d / 10 ^ 9"

definition adaptiveAllocation :: "real \<Rightarrow> duration \<Rightarrow> u64 \<Rightarrow> u64" where
  "adaptiveAllocation rateMbps window limit =
     (if rateMbps \<le> 0 then limit
      else min limit (max (go_uint64 (rateMbps * 1.5 / 8 * seconds_of window * 10 ^ 6)) (2 ^ 20)))"

definition bidirectionalReserve :: "u64 \<Rightarrow> duration \<Rightarrow> duration \<Rightarrow> u64" where
  "bidirectionalReserve available phaseMaximum bidirectionalWindow =
     (let total = phaseMaximum + bidirectionalWindow in
      if total \<le> 0 then available div 4
      else go_uint64 (real (unat available) * max (real_of_int bidirectionalWindow / real_of_int total) 0.25))"

definition adaptiveLoad :: "real \<Rightarrow> int \<Rightarrow> u64 \<Rightarrow> int \<times> u64" where
  "adaptiveLoad mbps maximum0 budget =
     (let maximum = min (max maximum0 1) 8 in
      if mbps < 2 then (min maximum 2, min budget (512 * 2 ^ 10))
      else if mbps \<le> 400 then (min maximum 6, min budget (4 * 2 ^ 20))
      else (min maximum 8, min budget (8 * 2 ^ 20)))"

definition boundedLoad :: "u64 \<Rightarrow> int \<Rightarrow> u64 \<Rightarrow> int \<times> u64" where
  "boundedLoad budget streams0 block0 =
     (if budget = 0 then (1, 0)
      else let streams = min (min (max streams0 1) 8) (max (uint (budget div (64 * 2 ^ 10))) 1);
               perStream = max (budget div word_of_int streams) 1;
               block = (if block0 = 0 then min perStream (512 * 2 ^ 10) else block0)
           in (streams, min block perStream))"

section \<open>Summaries of a phase\<close>

datatype context_error = Running | Canceled | DeadlineExceeded | OtherError string

definition run_representativeThroughput :: "ThroughputResult \<Rightarrow> real" where
  "run_representativeThroughput r = (if tr_P75Mbps r > 0 then tr_P75Mbps r else tr_ThroughputMbps r)"

definition run_throughputAvailable :: "ThroughputResult \<Rightarrow> bool" where
  "run_throughputAvailable r \<longleftrightarrow> tr_BytesTransferred r > 0 \<and> run_representativeThroughput r > 0"

definition phase_rate :: "ThroughputResult \<Rightarrow> Bucket list \<Rightarrow> StableRegion \<Rightarrow> ThroughputResult" where
  "phase_rate r buckets region =
     (if sr_Stable region
      then r\<lparr>tr_ThroughputMbps := sr_ThroughputMbps region,
             tr_P75Mbps := bucketPercentile buckets (sr_StartBucket region) (sr_EndBucket region) 75\<rparr>
      else if tr_DurationMS r > 0
      then r\<lparr>tr_ThroughputMbps := real (unat (tr_BytesTransferred r)) * 8 / (tr_DurationMS r / 1000) / 10 ^ 6,
             tr_P75Mbps := bucketPercentile buckets (-1) (-1) 75\<rparr>
      else r)"

definition summarizeTransfer :: "ThroughputResult \<Rightarrow> Bucket list \<Rightarrow> duration \<Rightarrow> u64 \<Rightarrow> context_error \<Rightarrow> ThroughputResult" where
  "summarizeTransfer r0 buckets elapsed budget phaseErr =
     (let r1 = r0\<lparr>tr_DurationMS := real_of_int (max (elapsed div Millisecond) 1)\<rparr>;
          r2 = phase_rate r1 buckets (DetectStableRegion buckets DefaultStabilityPolicy);
          r3 = (if tr_P75Mbps r2 \<le> 0 then r2\<lparr>tr_P75Mbps := tr_ThroughputMbps r2\<rparr> else r2);
          r4 = r3\<lparr>tr_CapHit := tr_BytesTransferred r3 \<ge> budget \<or> phaseErr = DeadlineExceeded\<rparr>
      in case phaseErr of
           OtherError e \<Rightarrow> if tr_Error r4 = '''' then r4\<lparr>tr_Error := e\<rparr> else r4
         | _ \<Rightarrow> r4)"

definition no_evidence :: "string \<Rightarrow> int \<Rightarrow> int \<Rightarrow> PhaseEvidence" where
  "no_evidence reason startMS endMS = \<lparr>pe_MinDurationMS = 0, pe_MaxDurationMS = 0, pe_StartMS = startMS, pe_EndMS = endMS,
     pe_Buckets = [], pe_StableRegion = empty_region\<lparr>sr_Reason := reason\<rparr>\<rparr>"

definition latencyEvidence :: "int \<Rightarrow> int \<Rightarrow> string \<Rightarrow> PhaseEvidence" where
  "latencyEvidence startMS endMS reason = no_evidence reason startMS endMS"

definition warmupEvidence :: "ThroughputResult \<Rightarrow> int \<Rightarrow> int \<Rightarrow> PhaseEvidence" where
  "warmupEvidence r startMS endMS =
     (let d = max (endMS - startMS) \<lfloor>tr_DurationMS r\<rfloor>
      in (no_evidence ''calibration_excluded'' startMS endMS)\<lparr>pe_Buckets :=
           [empty_bucket\<lparr>bk_StartMS := startMS, bk_DurationMS := d, bk_Bytes := tr_BytesTransferred r, bk_Samples := 1,
              bk_StreamCount := 1, bk_Complete := d \<ge> 900\<rparr>]\<rparr>)"

section \<open>Grades\<close>

definition bufferbloatGrade :: "real \<Rightarrow> string" where
  "bufferbloatGrade v =
     (if v < 5 then ''A+'' else if v < 30 then ''A'' else if v < 60 then ''B'' else if v < 200 then ''C''
      else if v < 400 then ''D'' else ''F'')"

definition bloat :: "LatencySummary \<Rightarrow> LatencySummary \<Rightarrow> real \<times> string" where
  "bloat baseline loaded =
     (if ls_Count baseline < 3 \<or> ls_Count loaded < 3 then (0, '''')
      else let d0 = max 0 (ls_P90MS loaded - ls_P5MS baseline); delta = (if \<bar>d0\<bar> < 2 then 0 else d0)
           in (round_places delta 3, bufferbloatGrade delta))"

definition grade_rank :: "string \<Rightarrow> int option" where
  "grade_rank g = map_of [(''A+'', 0), (''A'', 1), (''B'', 2), (''C'', 3), (''D'', 4), (''F'', 5)] g"

fun worse_grade_from :: "string \<Rightarrow> int \<Rightarrow> string list \<Rightarrow> string" where
  "worse_grade_from worst worstRank [] = worst"
| "worse_grade_from worst worstRank (v # vs) =
     (case grade_rank v of
        Some rank \<Rightarrow> if rank > worstRank then worse_grade_from v rank vs else worse_grade_from worst worstRank vs
      | None \<Rightarrow> worse_grade_from worst worstRank vs)"

definition worseGrade :: "string list \<Rightarrow> string" where
  "worseGrade values = worse_grade_from '''' (-1) values"

definition primaryDriver :: "Responsiveness \<Rightarrow> string" where
  "primaryDriver r =
     (if rs_UploadGrade r \<noteq> '''' \<and> rs_UploadBloatP90MS r \<ge> rs_DownloadBloatP90MS r \<and> rs_UploadBloatP90MS r \<ge> 5 then ''upload''
      else if rs_DownloadGrade r \<noteq> '''' \<and> rs_DownloadBloatP90MS r \<ge> 5 then ''download'' else '''')"

definition lowerConfidence :: "string \<Rightarrow> string \<Rightarrow> string" where
  "lowerConfidence left right =
     (let rank = (\<lambda>s. case map_of [(''high'', 0), (''medium'', 1), (''low'', 2::int)] s of Some n \<Rightarrow> n | None \<Rightarrow> 0)
      in if rank right > rank left then right else left)"

definition run_phaseMetrics :: "LatencySummary option \<Rightarrow> PhaseMetrics" where
  "run_phaseMetrics summary =
     (case summary of
        None \<Rightarrow> empty_phase
      | Some s \<Rightarrow> \<lparr>pm_P95LatencyMS = ls_P95MS s, pm_LossPct = ls_PacketLossPct s, pm_LatencySamples = uint (ls_Count s),
          pm_LossAvailable = ls_PacketLossValid s\<rparr>)"

definition run_latencyCount :: "LatencySummary option \<Rightarrow> int" where
  "run_latencyCount summary = (case summary of None \<Rightarrow> 0 | Some s \<Rightarrow> uint (ls_Count s))"

definition throughputBytes :: "ThroughputResult option \<Rightarrow> u64" where
  "throughputBytes result = (case result of None \<Rightarrow> 0 | Some r \<Rightarrow> tr_BytesTransferred r)"

definition requiredEvidenceError :: "SpeedTest \<Rightarrow> string option" where
  "requiredEvidenceError t =
     (let r = st_Responsiveness t in
      if tr_Error (st_Download t) \<noteq> '''' then Some (''quality test download phase failed: '' @ tr_Error (st_Download t))
      else if tr_Error (st_Upload t) \<noteq> '''' then Some (''quality test upload phase failed: '' @ tr_Error (st_Upload t))
      else if \<not> run_throughputAvailable (st_Download t) then Some ''quality test download phase produced no usable throughput''
      else if \<not> run_throughputAvailable (st_Upload t) then Some ''quality test upload phase produced no usable throughput''
      else if ls_Count (rs_Baseline r) = 0 then Some ''quality test baseline latency produced no usable samples''
      else if ls_Count (rs_DownloadLoaded r) = 0 then Some ''quality test download latency produced no usable samples''
      else if ls_Count (rs_UploadLoaded r) = 0 then Some ''quality test upload latency produced no usable samples''
      else None)"
section \<open>Phases\<close>

text \<open>
  What a phase meets: the timed steps of its loads, the turns of its probes, the instants of the
  last snapshots and summaries, and how its context ended. Only a phase in both directions has
  steps of a second load.
\<close>

record phase_env =
  ph_Started :: time
  ph_Events :: "(time \<times> load_event) list"
  ph_Snapshot :: time
  ph_Summarized :: time
  ph_UploadStarted :: time
  ph_UploadEvents :: "(time \<times> load_event) list"
  ph_UploadSnapshot :: time
  ph_UploadSummarized :: time
  ph_Turns :: "probe_turn list"
  ph_Error :: context_error
  ph_StartMS :: int
  ph_EndMS :: int

text \<open>Every moved chunk goes to the counter as it moves.\<close>

fun timed_step :: "load \<times> phaseCounter \<Rightarrow> time \<times> load_event \<Rightarrow> load \<times> phaseCounter" where
  "timed_step (s, c) (t, Move i n) =
     (load_step s (Move i n), if load_step s (Move i n) = s then c else counter_add t (uint n) c)"
| "timed_step (s, c) (t, e) = (load_step s e, c)"

definition run_load :: "u64 \<Rightarrow> int \<Rightarrow> u64 \<Rightarrow> time \<Rightarrow> (time \<times> load_event) list \<Rightarrow> load \<times> phaseCounter" where
  "run_load budget streams block started events =
     foldl timed_step (executeLoad budget streams block, newPhaseCounter started streams) events"

definition load_result :: "load \<times> phaseCounter \<Rightarrow> ThroughputResult" where
  "load_result lc = zero_throughput\<lparr>tr_BytesTransferred := cn_bytes (snd lc),
     tr_Error := (case ld_error (fst lc) of None \<Rightarrow> '''' | Some e \<Rightarrow> e)\<rparr>"

definition phase_evidence :: "phase_env \<Rightarrow> duration \<Rightarrow> duration \<Rightarrow> Bucket list \<Rightarrow> StableRegion \<Rightarrow> PhaseEvidence" where
  "phase_evidence ph minimum maximum buckets region = \<lparr>pe_MinDurationMS = minimum div Millisecond,
     pe_MaxDurationMS = maximum div Millisecond, pe_StartMS = ph_StartMS ph, pe_EndMS = ph_EndMS ph,
     pe_Buckets = buckets, pe_StableRegion = region\<rparr>"

definition runSinglePhase ::
    "phase_env \<Rightarrow> u64 \<Rightarrow> int \<Rightarrow> u64 \<Rightarrow> duration \<Rightarrow> duration
     \<Rightarrow> ThroughputResult \<times> PhaseEvidence \<times> LatencySummary \<times> pathSamples" where
  "runSinglePhase ph budget streams0 block0 minimum maximum =
     (let (streams, block) = boundedLoad budget streams0 block0;
          lc = run_load budget streams block (ph_Started ph) (ph_Events ph);
          buckets = counter_snapshot True (ph_Snapshot ph) (snd lc);
          r = summarizeTransfer (load_result lc) buckets (ph_Summarized ph - ph_Started ph) budget (ph_Error ph);
          (latency, paths) = collectLoadedLatency (ph_Turns ph)
      in (r, phase_evidence ph minimum maximum buckets (DetectStableRegion buckets DefaultStabilityPolicy), latency, paths))"

definition runBidirectionalPhase ::
    "phase_env \<Rightarrow> u64 \<Rightarrow> u64 \<Rightarrow> int \<Rightarrow> int \<Rightarrow> u64 \<Rightarrow> u64 \<Rightarrow> duration \<Rightarrow> duration
     \<Rightarrow> ThroughputResult \<times> ThroughputResult \<times> PhaseEvidence \<times> LatencySummary \<times> pathSamples" where
  "runBidirectionalPhase ph downloadBudget uploadBudget downloadStreams0 uploadStreams0 downloadBlock0 uploadBlock0 minimum maximum =
     (let (downloadStreams, downloadBlock) = boundedLoad downloadBudget downloadStreams0 downloadBlock0;
          (uploadStreams, uploadBlock) = boundedLoad uploadBudget uploadStreams0 uploadBlock0;
          down = run_load downloadBudget downloadStreams downloadBlock (ph_Started ph) (ph_Events ph);
          up = run_load uploadBudget uploadStreams uploadBlock (ph_UploadStarted ph) (ph_UploadEvents ph);
          downBuckets = counter_snapshot True (ph_Snapshot ph) (snd down);
          upBuckets = counter_snapshot True (ph_UploadSnapshot ph) (snd up);
          downResult = summarizeTransfer (load_result down) downBuckets (ph_Summarized ph - ph_Started ph) downloadBudget (ph_Error ph);
          upResult = summarizeTransfer (load_result up) upBuckets (ph_UploadSummarized ph - ph_UploadStarted ph) uploadBudget (ph_Error ph);
          (latency, paths) = collectLoadedLatency (ph_Turns ph)
      in (downResult, upResult,
          phase_evidence ph minimum maximum (combineBuckets downBuckets upBuckets (downloadStreams + uploadStreams))
            (DetectBidirectionalStableRegion downBuckets upBuckets DefaultStabilityPolicy),
          latency, paths))"

text \<open>When the phase loops cut a phase short: both conditions are looked at every 250 ms.\<close>

definition single_phase_stable :: "duration \<Rightarrow> time \<Rightarrow> phaseCounter \<Rightarrow> bool" where
  "single_phase_stable minimum now c \<longleftrightarrow>
     now - cn_started c \<ge> minimum \<and> sr_Stable (DetectStableRegion (counter_snapshot False now c) DefaultStabilityPolicy)"

section \<open>A run\<close>

record run_env =
  rv_Now :: time
  rv_Random :: "u8 list option"
  rv_ParseURL :: "string \<Rightarrow> URL option"
  rv_OwnClient :: bool
  rv_DownloadURL :: string
  rv_UploadURL :: string
  rv_ElapsedMS :: "string \<Rightarrow> int"
  rv_BaselineFirst :: probe_turn
  rv_BaselineTurns :: "probe_turn list"
  rv_DownloadWarmup :: transfer_env
  rv_UploadWarmup :: transfer_env
  rv_Drains :: "drain_event list"
  rv_UploadDrain :: responses
  rv_Phase :: "string \<Rightarrow> phase_env"
  rv_EndedEarly :: bool
  rv_CooldownTurns :: "probe_turn list"
  rv_Ended :: bool
  rv_Aborted :: "string option"
  rv_DurationMS :: int

abbreviation (input) DefaultDownloadURL :: string where
  "DefaultDownloadURL \<equiv> ''https://speed.cloudflare.com/__down''"

abbreviation (input) DefaultUploadURL :: string where
  "DefaultUploadURL \<equiv> ''https://speed.cloudflare.com/__up''"

definition defaultString :: "string \<Rightarrow> string \<Rightarrow> string" where
  "defaultString v fallback = (if v = '''' then fallback else v)"

definition validateEndpoint :: "(string \<Rightarrow> URL option) \<Rightarrow> bool \<Rightarrow> string \<Rightarrow> string option" where
  "validateEndpoint parse allowPrivate raw =
     (case parse raw of
        None \<Rightarrow> Some ''endpoint must be an HTTPS URL without user information''
      | Some u \<Rightarrow>
          if url_Scheme u \<noteq> ''https'' \<or> url_Hostname u = '''' \<or> url_User u
          then Some ''endpoint must be an HTTPS URL without user information''
          else if \<not> allowPrivate \<and> ((url_Port u \<noteq> '''' \<and> url_Port u \<noteq> ''443'') \<or> \<not> IsSafePublicHost (url_Hostname u))
          then Some ''endpoint must be a public HTTPS host on port 443'' else None)"

definition endpointHost :: "(string \<Rightarrow> URL option) \<Rightarrow> string \<Rightarrow> string" where
  "endpointHost parse raw = (case parse raw of None \<Rightarrow> '''' | Some u \<Rightarrow> url_Hostname u)"

text \<open>\<open>strconv.FormatInt(n, 36)\<close> of a non-negative number.\<close>

fun digits36 :: "nat \<Rightarrow> string" where
  "digits36 n = (if n < 36 then [if n < 10 then char_of (48 + n) else char_of (87 + n)]
     else digits36 (n div 36) @ digits36 (n mod 36))"

declare digits36.simps [simp del]

definition measurementID :: "u8 list option \<Rightarrow> time \<Rightarrow> string" where
  "measurementID random started = ''m-'' @ (case random of Some v \<Rightarrow> hex_bytes v
     | None \<Rightarrow> if started < 0 then CHR ''-'' # digits36 (nat (- started)) else digits36 (nat started))"

record run_plan =
  rp_DownloadPrimary :: u64
  rp_DownloadBidirectional :: u64
  rp_UploadPrimary :: u64
  rp_UploadBidirectional :: u64
  rp_DownloadLoad :: "int \<times> u64"
  rp_UploadLoad :: "int \<times> u64"
  rp_PhaseMinimum :: duration
  rp_PhaseMaximum :: duration
  rp_Window :: duration

text \<open>The bytes and the time of the phases behind the warm-ups, one direction at a time.\<close>

definition plan_direction :: "int \<Rightarrow> ThroughputResult \<Rightarrow> u64 \<Rightarrow> duration \<Rightarrow> duration \<Rightarrow> u64 \<times> u64 \<times> int \<times> u64" where
  "plan_direction concurrency warmup limit phaseMaximum window =
     (let rate = warmupRate warmup;
          available = adaptiveAllocation rate (phaseMaximum + window) (limit - tr_BytesTransferred warmup);
          reserve = bidirectionalReserve available phaseMaximum window
      in (available - reserve, reserve, adaptiveLoad rate concurrency available))"

definition plan_run :: "SpeedProfileConfig \<Rightarrow> u64 \<Rightarrow> ThroughputResult \<Rightarrow> ThroughputResult \<Rightarrow> run_plan" where
  "plan_run profile bulk downloadWarmup uploadWarmup =
     (let phaseMaximum = max (2 * Second) (pc_MaxDurationSeconds profile * Second * 3 div 10);
          window = max (2 * Second) (pc_MaxDurationSeconds profile * Second div 4);
          (downPrimary, downBidi, downLoad) = plan_direction (pc_MaxConcurrentRequests profile) downloadWarmup bulk phaseMaximum window;
          (upPrimary, upBidi, upLoad) = plan_direction (pc_MaxConcurrentRequests profile) uploadWarmup
            (pc_MaxUploadBytes profile) phaseMaximum window
      in \<lparr>rp_DownloadPrimary = downPrimary, rp_DownloadBidirectional = downBidi, rp_UploadPrimary = upPrimary,
          rp_UploadBidirectional = upBidi, rp_DownloadLoad = downLoad, rp_UploadLoad = upLoad,
          rp_PhaseMinimum = min (pc_MinDurationSeconds profile * Second) phaseMaximum, rp_PhaseMaximum = phaseMaximum,
          rp_Window = window\<rparr>)"
definition zero_responsiveness :: Responsiveness where
  "zero_responsiveness = \<lparr>rs_Baseline = zero_summary, rs_DownloadLoaded = zero_summary, rs_UploadLoaded = zero_summary,
     rs_BidirectionalLoaded = None, rs_Cooldown = None, rs_DownloadBloatP90MS = 0, rs_UploadBloatP90MS = 0,
     rs_BidirectionalBloatP90MS = 0, rs_DownloadGrade = '''', rs_UploadGrade = '''', rs_BidirectionalGrade = '''',
     rs_OverallGrade = '''', rs_PrimaryDriver = '''', rs_ConfidenceLevel = '''', rs_ConfidenceReasons = [], rs_Profile = '''',
     rs_BidirectionalCountsTowardOverall = False, rs_BidirectionalDownload = None, rs_BidirectionalUpload = None,
     rs_TotalDownloadBytes = 0, rs_TotalUploadBytes = 0\<rparr>"

definition zero_traffic :: TrafficContext where
  "zero_traffic = \<lparr>tc_CrossTrafficMbps = 0, tc_Contaminated = False, tc_Metered = False, tc_MeteredAvailable = False,
     tc_OnBattery = False, tc_PowerAvailable = False, tc_BatteryPct = 0, tc_Override = False\<rparr>"

definition zero_budget :: Budget where
  "zero_budget = \<lparr>bg_RequestedDownloadBytes = 0, bg_RequestedUploadBytes = 0, bg_EffectiveDownloadBytes = 0,
     bg_EffectiveUploadBytes = 0, bg_MaxDurationSeconds = 0, bg_MaxConcurrentRequests = 0, bg_PredictedBytes = 0,
     bg_UsedBytes = 0, bg_CapHit = False\<rparr>"

definition zero_test :: SpeedTest where
  "zero_test = \<lparr>st_MeasurementID = '''', st_Profile = '''', st_Timestamp = 0, st_Download = zero_throughput,
     st_Upload = zero_throughput, st_Latency = compatibilityLatency zero_summary '''', st_EndpointHost = '''',
     st_CPUBusyPct = 0, st_DurationMS = 0, st_Responsiveness = zero_responsiveness, st_TrafficContext = zero_traffic,
     st_Budget = zero_budget, st_Phases = [], st_Paths = paths_summary no_paths,
     st_Experience = \<lparr>ex_Available = False, ex_OverallScore = 0, ex_Rating = '''', ex_Home = [], ex_Additional = []\<rparr>,
     st_ExperienceEligible = False, st_ExclusionReason = '''', st_MeasurementConfidence = \<lparr>cf_Level = '''', cf_Reasons = []\<rparr>,
     st_Household = None\<rparr>"

text \<open>\<open>budgetLimited\<close>: a phase that ran out of bytes before its minimum without stabilising.\<close>

definition budget_limited :: "duration \<Rightarrow> string \<Rightarrow> PhaseEvidence \<Rightarrow> bool \<Rightarrow> string list" where
  "budget_limited phaseMinimum name evidence capped =
     (if capped \<and> \<not> sr_Stable (pe_StableRegion evidence) \<and> pe_EndMS evidence - pe_StartMS evidence < phaseMinimum div Millisecond
      then [name @ ''_budget_limited''] else [])"

text \<open>What the phases have measured, before it is judged.\<close>

record measured =
  ms_Baseline :: LatencySummary
  ms_DownloadWarmup :: ThroughputResult
  ms_UploadWarmup :: ThroughputResult
  ms_Download :: "ThroughputResult \<times> PhaseEvidence \<times> LatencySummary"
  ms_Upload :: "ThroughputResult \<times> PhaseEvidence \<times> LatencySummary"
  ms_Bidirectional :: "(ThroughputResult \<times> ThroughputResult \<times> PhaseEvidence \<times> LatencySummary) option"
  ms_Cooldown :: LatencySummary
  ms_Paths :: pathSamples
  ms_PhaseMinimum :: duration

definition response_capacity :: "SpeedProfileConfig \<Rightarrow> u64" where
  "response_capacity profile = min 65536 (pc_MaxDownloadBytes profile div 16)"

definition bulk_bytes :: "SpeedProfileConfig \<Rightarrow> u64" where
  "bulk_bytes profile = pc_MaxDownloadBytes profile - response_capacity profile"

definition download_warmup :: "run_env \<Rightarrow> SpeedProfileConfig \<Rightarrow> ThroughputResult" where
  "download_warmup rv profile =
     snd (oneTransfer (rv_DownloadWarmup rv) ''download'' (min (bulk_bytes profile div 10) (4 * 2 ^ 20)) None)"

definition upload_warmup :: "run_env \<Rightarrow> SpeedProfileConfig \<Rightarrow> ThroughputResult" where
  "upload_warmup rv profile =
     snd (oneTransfer (rv_UploadWarmup rv) ''upload'' (min (pc_MaxUploadBytes profile div 10) (2 * 2 ^ 20)) (Some (rv_UploadDrain rv)))"

definition plan_of :: "run_env \<Rightarrow> SpeedProfileConfig \<Rightarrow> run_plan" where
  "plan_of rv profile = plan_run profile (bulk_bytes profile) (download_warmup rv profile) (upload_warmup rv profile)"

definition download_phase ::
    "run_env \<Rightarrow> SpeedProfileConfig \<Rightarrow> ThroughputResult \<times> PhaseEvidence \<times> LatencySummary \<times> pathSamples" where
  "download_phase rv profile =
     (let plan = plan_of rv profile
      in runSinglePhase (rv_Phase rv ''download'') (rp_DownloadPrimary plan) (fst (rp_DownloadLoad plan))
           (snd (rp_DownloadLoad plan)) (rp_PhaseMinimum plan) (rp_PhaseMaximum plan))"

definition upload_phase ::
    "run_env \<Rightarrow> SpeedProfileConfig \<Rightarrow> ThroughputResult \<times> PhaseEvidence \<times> LatencySummary \<times> pathSamples" where
  "upload_phase rv profile =
     (let plan = plan_of rv profile
      in runSinglePhase (rv_Phase rv ''upload'') (rp_UploadPrimary plan) (fst (rp_UploadLoad plan))
           (snd (rp_UploadLoad plan)) (rp_PhaseMinimum plan) (rp_PhaseMaximum plan))"

definition both_phase ::
    "run_env \<Rightarrow> SpeedProfileConfig
     \<Rightarrow> (ThroughputResult \<times> ThroughputResult \<times> PhaseEvidence \<times> LatencySummary \<times> pathSamples) option" where
  "both_phase rv profile =
     (let plan = plan_of rv profile;
          remainingDownload = min (rp_DownloadBidirectional plan) (bulk_bytes profile
            - tr_BytesTransferred (fst (download_phase rv profile)) - tr_BytesTransferred (download_warmup rv profile));
          remainingUpload = min (rp_UploadBidirectional plan) (pc_MaxUploadBytes profile
            - tr_BytesTransferred (fst (upload_phase rv profile)) - tr_BytesTransferred (upload_warmup rv profile))
      in if remainingDownload \<ge> 128 * 2 ^ 10 \<and> remainingUpload \<ge> 128 * 2 ^ 10 \<and> \<not> rv_EndedEarly rv
         then Some (runBidirectionalPhase (rv_Phase rv ''bidirectional'') remainingDownload remainingUpload
                (min (fst (rp_DownloadLoad plan)) 4) (min (fst (rp_UploadLoad plan)) 4) (snd (rp_DownloadLoad plan))
                (snd (rp_UploadLoad plan)) (min (rp_PhaseMinimum plan) (rp_Window plan)) (rp_Window plan))
         else None)"

definition measure :: "run_env \<Rightarrow> SpeedProfileConfig \<Rightarrow> measured" where
  "measure rv profile =
     (let (baseline, baselinePaths) = collectBaselineLatency (rv_BaselineFirst rv) (rv_BaselineTurns rv);
          (download, downloadEvidence, downloadLatency, downloadPaths) = download_phase rv profile;
          (upload, uploadEvidence, uploadLatency, uploadPaths) = upload_phase rv profile;
          both = both_phase rv profile;
          (cooldown, cooldownPaths) = collectFixedLatency 6 (rv_CooldownTurns rv);
          bothPaths = (case both of Some (_, _, _, _, paths) \<Rightarrow> paths | None \<Rightarrow> no_paths)
      in \<lparr>ms_Baseline = baseline, ms_DownloadWarmup = download_warmup rv profile, ms_UploadWarmup = upload_warmup rv profile,
          ms_Download = (download, downloadEvidence, downloadLatency), ms_Upload = (upload, uploadEvidence, uploadLatency),
          ms_Bidirectional = map_option (\<lambda>(d, u, e, l, _). (d, u, e, l)) both, ms_Cooldown = cooldown,
          ms_Paths = merge_paths (merge_paths (merge_paths baselinePaths (merge_paths downloadPaths bothPaths)) uploadPaths) cooldownPaths,
          ms_PhaseMinimum = rp_PhaseMinimum (plan_of rv profile)\<rparr>)"

definition run_responsiveness :: "run_env \<Rightarrow> u64 \<Rightarrow> measured \<Rightarrow> Responsiveness" where
  "run_responsiveness rv used m =
     (let (download, _, downloadLatency) = ms_Download m; (upload, _, uploadLatency) = ms_Upload m;
          (downBloat, downGrade) = bloat (ms_Baseline m) downloadLatency;
          (upBloat, upGrade) = bloat (ms_Baseline m) uploadLatency;
          (bothBloat, bothGrade) = (case ms_Bidirectional m of Some (_, _, _, l) \<Rightarrow> bloat (ms_Baseline m) l | None \<Rightarrow> (0, ''''));
          bothDown = map_option fst (ms_Bidirectional m); bothUp = map_option (fst \<circ> snd) (ms_Bidirectional m);
          r = zero_responsiveness\<lparr>rs_Baseline := ms_Baseline m, rs_DownloadLoaded := downloadLatency,
                rs_UploadLoaded := uploadLatency, rs_BidirectionalLoaded := map_option (\<lambda>(_, _, _, l). l) (ms_Bidirectional m),
                rs_Cooldown := Some (ms_Cooldown m), rs_DownloadBloatP90MS := downBloat, rs_DownloadGrade := downGrade,
                rs_UploadBloatP90MS := upBloat, rs_UploadGrade := upGrade, rs_BidirectionalBloatP90MS := bothBloat,
                rs_BidirectionalGrade := bothGrade, rs_OverallGrade := worseGrade [downGrade, upGrade],
                rs_Profile := ''standard'', rs_BidirectionalDownload := bothDown, rs_BidirectionalUpload := bothUp,
                rs_TotalDownloadBytes := tr_BytesTransferred (ms_DownloadWarmup m) + tr_BytesTransferred download
                  + throughputBytes bothDown + used,
                rs_TotalUploadBytes := tr_BytesTransferred (ms_UploadWarmup m) + tr_BytesTransferred upload + throughputBytes bothUp\<rparr>
      in r\<lparr>rs_PrimaryDriver := primaryDriver r\<rparr>)"
definition stable_phase :: "PhaseEvidence \<Rightarrow> bool" where
  "stable_phase e = sr_Stable (pe_StableRegion e)"

definition run_phases :: "run_env \<Rightarrow> measured \<Rightarrow> (string \<times> PhaseEvidence) list" where
  "run_phases rv m =
     (let ms = rv_ElapsedMS rv in
      [(''baseline'', latencyEvidence (ms ''baseline_start'') (ms ''baseline_end'') ''latency_only_phase''),
       (''download_warmup'', warmupEvidence (ms_DownloadWarmup m) (ms ''download_warmup_start'') (ms ''download_warmup_end'')),
       (''upload_warmup'', warmupEvidence (ms_UploadWarmup m) (ms ''upload_warmup_start'') (ms ''upload_warmup_end'')),
       (''download'', fst (snd (ms_Download m))), (''upload'', fst (snd (ms_Upload m))),
       (''bidirectional'', case ms_Bidirectional m of
          Some (_, _, e, _) \<Rightarrow> e | None \<Rightarrow> no_evidence ''byte_or_time_budget_exhausted'' 0 0),
       (''cooldown'', latencyEvidence (ms ''cooldown_start'') (ms ''cooldown_end'') ''latency_only_phase'')])"

definition run_experience :: "measured \<Rightarrow> Experience" where
  "run_experience m =
     (let (download, _, downloadLatency) = ms_Download m; (upload, _, uploadLatency) = ms_Upload m
      in ScoreApplications \<lparr>ai_Baseline = run_phaseMetrics (Some (ms_Baseline m)), ai_Download = run_phaseMetrics (Some downloadLatency),
           ai_Upload = run_phaseMetrics (Some uploadLatency),
           ai_Bidirectional = run_phaseMetrics (map_option (\<lambda>(_, _, _, l). l) (ms_Bidirectional m)),
           ai_DownloadP75Mbps = run_representativeThroughput download, ai_UploadP75Mbps = run_representativeThroughput upload,
           ai_DownloadAvailable = run_throughputAvailable download, ai_UploadAvailable = run_throughputAvailable upload\<rparr>)"

definition run_confidence :: "TrafficContext \<Rightarrow> measured \<Rightarrow> Confidence" where
  "run_confidence traffic m =
     (let (download, downloadEvidence, downloadLatency) = ms_Download m; (upload, uploadEvidence, uploadLatency) = ms_Upload m;
          bothLatency = map_option (\<lambda>(_, _, _, l). l) (ms_Bidirectional m);
          bothStable = (case ms_Bidirectional m of Some (_, _, e, _) \<Rightarrow> stable_phase e | None \<Rightarrow> False);
          graded = GradeConfidence \<lparr>ci_BaselineSamples = uint (ls_Count (ms_Baseline m)),
            ci_PhaseSamples = (\<lambda>p. if p = ''download'' then uint (ls_Count downloadLatency)
              else if p = ''upload'' then uint (ls_Count uploadLatency)
              else if p = ''bidirectional'' then run_latencyCount bothLatency else 0),
            ci_StablePhases = (\<lambda>p. if p = ''download'' then stable_phase downloadEvidence
              else if p = ''upload'' then stable_phase uploadEvidence else p = ''bidirectional'' \<and> bothStable),
            ci_ProbeSuccessRatio = successRatio (ms_Paths m), ci_FreshPathSuccessRatio = freshSuccessRatio (ms_Paths m),
            ci_AgentCPUBusyPct = 0, ci_EndpointCV = 0, ci_SourceDisagreementPct = 0, ci_NetworkChanged = False,
            ci_IPFamilyChanged = False\<rparr>;
          c = (if tc_Contaminated traffic
               then graded\<lparr>cf_Level := lowerConfidence (cf_Level graded) ''medium'',
                      cf_Reasons := cf_Reasons graded @ [''cross_traffic_detected'']\<rparr>
               else graded);
          limited = budget_limited (ms_PhaseMinimum m)
      in c\<lparr>cf_Reasons := cf_Reasons c @ limited ''download'' downloadEvidence (tr_CapHit download)
            @ limited ''upload'' uploadEvidence (tr_CapHit upload)
            @ (case ms_Bidirectional m of
                 Some (d, u, e, _) \<Rightarrow> limited ''bidirectional'' e (tr_CapHit d \<or> tr_CapHit u) | None \<Rightarrow> [])\<rparr>)"

definition judge_run :: "run_env \<Rightarrow> SpeedProfileConfig \<Rightarrow> TrafficContext \<Rightarrow> u64 \<Rightarrow> measured \<Rightarrow> SpeedTest" where
  "judge_run rv profile traffic used m =
     (let r = run_responsiveness rv used m; c = run_confidence traffic m;
          host = endpointHost (rv_ParseURL rv) (defaultString (rv_DownloadURL rv) DefaultDownloadURL);
          usedBytes = rs_TotalDownloadBytes r + rs_TotalUploadBytes r
      in zero_test\<lparr>st_MeasurementID := measurementID (rv_Random rv) (rv_Now rv), st_Profile := pc_Name profile,
           st_Timestamp := Unix (rv_Now rv), st_EndpointHost := host, st_TrafficContext := traffic,
           st_ExperienceEligible := pc_CountsTowardExperience profile,
           st_Budget := \<lparr>bg_RequestedDownloadBytes = pc_MaxDownloadBytes profile, bg_RequestedUploadBytes = pc_MaxUploadBytes profile,
             bg_EffectiveDownloadBytes = pc_MaxDownloadBytes profile, bg_EffectiveUploadBytes = pc_MaxUploadBytes profile,
             bg_MaxDurationSeconds = pc_MaxDurationSeconds profile, bg_MaxConcurrentRequests = pc_MaxConcurrentRequests profile,
             bg_PredictedBytes = pc_MaxDownloadBytes profile + pc_MaxUploadBytes profile, bg_UsedBytes = usedBytes,
             bg_CapHit = (usedBytes \<ge> pc_MaxDownloadBytes profile + pc_MaxUploadBytes profile \<or> rv_Ended rv)\<rparr>,
           st_Latency := compatibilityLatency (ms_Baseline m) host, st_Download := fst (ms_Download m),
           st_Upload := fst (ms_Upload m), st_Phases := run_phases rv m,
           st_Responsiveness := r\<lparr>rs_ConfidenceLevel := cf_Level c, rs_ConfidenceReasons := cf_Reasons c\<rparr>,
           st_Paths := paths_summary (ms_Paths m), st_Experience := run_experience m, st_MeasurementConfidence := c,
           st_DurationMS := real_of_int (rv_DurationMS rv)\<rparr>)"

text \<open>
  \<open>Run\<close>; the household test is another engine, the argument \<open>household\<close>. The bytes of the answers
  are what the drains of the whole run have used of their allowance.
\<close>

definition Run ::
    "(run_env \<Rightarrow> SpeedProfileConfig \<Rightarrow> TrafficContext \<Rightarrow> SpeedTest \<times> string option)
     \<Rightarrow> run_env \<Rightarrow> SpeedProfileConfig \<Rightarrow> TrafficContext \<Rightarrow> SpeedTest \<times> string option" where
  "Run household rv profile traffic =
     (if pc_Name profile = ProfileHousehold then household rv profile traffic
      else if \<not> KnownSpeedProfile (pc_Name profile)
      then (zero_test, Some ''quality test profile must be household, saturation, content or capacity'')
      else if pc_MaxDownloadBytes profile < 512 * 2 ^ 10 \<or> pc_MaxUploadBytes profile < 256 * 2 ^ 10
      then (zero_test, Some ''quality test byte budget is too small'')
      else if pc_MaxDurationSeconds profile < 2 \<or> pc_MaxDurationSeconds profile > 120
      then (zero_test, Some ''quality test duration is outside local bounds'')
      else case validateEndpoint (rv_ParseURL rv) (rv_OwnClient rv) (defaultString (rv_DownloadURL rv) DefaultDownloadURL) of
        Some e \<Rightarrow> (zero_test, Some (''download endpoint: '' @ e))
      | None \<Rightarrow>
          (case validateEndpoint (rv_ParseURL rv) (rv_OwnClient rv) (defaultString (rv_UploadURL rv) DefaultUploadURL) of
             Some e \<Rightarrow> (zero_test, Some (''upload endpoint: '' @ e))
           | None \<Rightarrow>
               let used = rb_used (foldl drain_step (newResponseBudget (response_capacity profile)) (rv_Drains rv));
                   t = judge_run rv profile traffic used (measure rv profile)
               in (t, case rv_Aborted rv of
                        Some e \<Rightarrow> Some (''quality test aborted: '' @ e) | None \<Rightarrow> requiredEvidenceError t)))"
section \<open>Bytes within the profile\<close>

lemma load_moves: "load_step s (Move i n) \<noteq> s \<Longrightarrow> 0 < n \<and> ld_bytes (load_step s (Move i n)) = ld_bytes s + n"
  by (cases "worker_at s i") (auto split: if_splits)

lemma load_keeps: "ld_bytes (load_step s e) = ld_bytes s" if "\<And>i n. e \<noteq> Move i n"
  using that by (cases e)
    (auto simp: claim_read_def claim_swap_def transfer_end_def Let_def split: worker.split)

definition counted :: "nat \<Rightarrow> load \<times> phaseCounter \<Rightarrow> bool" where
  "counted budget lc \<longleftrightarrow> load_inv budget (fst lc) \<and> cn_bytes (snd lc) = ld_bytes (fst lc)"

lemma counted_step: "counted budget lc \<Longrightarrow> counted budget (timed_step lc e)"
proof -
  assume inv: "counted budget lc"
  obtain s c where lc: "lc = (s, c)" by fastforce
  obtain t ev where e: "e = (t, ev)" by fastforce
  show ?thesis
  proof (cases "\<exists>i n. ev = Move i n")
    case True
    then obtain i n where ev: "ev = Move i n" by blast
    show ?thesis
    proof (cases "load_step s ev = s")
      case False
      note moved = load_moves[of s i n, folded ev, OF False]
      then have "\<not> uint n \<le> 0" by (simp add: word_less_def)
      then have "cn_bytes (counter_add t (uint n) c) = cn_bytes c + n" by (simp add: counter_add_def Let_def)
      then show ?thesis using inv moved load_step_inv[of budget s ev] False
        by (simp add: counted_def lc e ev del: load_step.simps)
    qed (use inv in \<open>simp add: counted_def lc e ev del: load_step.simps\<close>)
  next
    case False
    then have "timed_step lc e = (load_step s ev, c)" by (cases ev) (simp_all add: lc e)
    then show ?thesis using inv load_keeps[of ev s] load_step_inv[of budget s ev] False by (simp add: counted_def lc)
  qed
qed

interpretation timed: machine timed_step "counted budget" for budget
  by unfold_locales (rule counted_step)

lemma run_load_within: "cn_bytes (snd (run_load budget streams block started events)) \<le> budget"
proof -
  have "counted (unat budget) (run_load budget streams block started events)"
    unfolding run_load_def
    by (rule timed.run_inv) (use executeLoad_inv in \<open>simp add: counted_def newPhaseCounter_def executeLoad_def\<close>)
  then show ?thesis by (simp add: counted_def load_inv_def word_le_nat_alt)
qed

lemma summarizeTransfer_bytes [simp]: "tr_BytesTransferred (summarizeTransfer r bs d budget e) = tr_BytesTransferred r"
  by (simp add: summarizeTransfer_def phase_rate_def Let_def split: context_error.split)

lemma load_result_bytes [simp]: "tr_BytesTransferred (load_result lc) = cn_bytes (snd lc)"
  by (simp add: load_result_def)

lemma runSinglePhase_within: "tr_BytesTransferred (fst (runSinglePhase ph budget streams block minimum maximum)) \<le> budget"
  by (simp add: runSinglePhase_def Let_def run_load_within split: prod.split)

lemma runBidirectionalPhase_within:
  "tr_BytesTransferred (fst (runBidirectionalPhase ph db ub ds us dbl ubl minimum maximum)) \<le> db"
  "tr_BytesTransferred (fst (snd (runBidirectionalPhase ph db ub ds us dbl ubl minimum maximum))) \<le> ub"
  by (simp_all add: runBidirectionalPhase_def Let_def run_load_within split: prod.split)

lemma adaptiveAllocation_le: "adaptiveAllocation rate window limit \<le> limit"
  by (simp add: adaptiveAllocation_def)

lemma go_uint64_nat: "go_uint64 (real n) = word_of_nat n"
  by (simp add: go_uint64_def)

lemma bidirectionalReserve_le:
  assumes "0 \<le> phaseMaximum" "0 \<le> window"
  shows "bidirectionalReserve available phaseMaximum window \<le> available"
proof (cases "phaseMaximum + window \<le> 0")
  case True
  then show ?thesis by (simp add: bidirectionalReserve_def word_le_nat_alt unat_div)
next
  case False
  let ?share = "max (real_of_int window / real_of_int (phaseMaximum + window)) 0.25"
  have "real_of_int window / real_of_int (phaseMaximum + window) \<le> 1"
    using assms False by (simp add: divide_le_eq_1)
  then have share: "0 \<le> ?share" "?share \<le> 1" by simp_all
  have "real (unat available) * ?share \<le> real (unat available) * 1"
    by (rule mult_left_mono[OF share(2) of_nat_0_le_iff])
  then have "go_uint64 (real (unat available) * ?share) \<le> go_uint64 (real (unat available))"
    by (intro go_uint64_mono[OF mult_nonneg_nonneg[OF of_nat_0_le_iff share(1)] _ real_unat_less]) simp
  moreover have "go_uint64 (real (unat available)) = available"
    by (rule go_uint64_nat[THEN trans]) simp
  ultimately show ?thesis using False by (simp add: bidirectionalReserve_def Let_def)
qed

lemma plan_direction_sum:
  assumes "plan_direction concurrency warmup limit phaseMaximum window = (primary, reserve, l)"
    "0 \<le> phaseMaximum" "0 \<le> window" "tr_BytesTransferred warmup \<le> limit"
  shows "unat (tr_BytesTransferred warmup) + unat primary + unat reserve \<le> unat limit"
proof -
  define available where
    "available = adaptiveAllocation (warmupRate warmup) (phaseMaximum + window) (limit - tr_BytesTransferred warmup)"
  have r: "reserve = bidirectionalReserve available phaseMaximum window" "primary = available - reserve"
    using assms(1) by (auto simp: plan_direction_def Let_def available_def)
  have "reserve \<le> available" unfolding r(1) by (rule bidirectionalReserve_le[OF assms(2,3)])
  then have "unat primary + unat reserve = unat available" by (simp add: r(2) unat_sub word_le_nat_alt)
  moreover have "available \<le> limit - tr_BytesTransferred warmup" unfolding available_def by (rule adaptiveAllocation_le)
  then have "unat available + unat (tr_BytesTransferred warmup) \<le> unat limit"
    using assms(4) by (simp add: word_le_nat_alt unat_sub)
  ultimately show ?thesis by simp
qed

lemma plan_direction_within:
  assumes "0 \<le> phaseMaximum" "0 \<le> window" "tr_BytesTransferred warmup \<le> limit"
  shows "unat (tr_BytesTransferred warmup) + unat (fst (plan_direction concurrency warmup limit phaseMaximum window))
    + unat (fst (snd (plan_direction concurrency warmup limit phaseMaximum window))) \<le> unat limit"
  by (rule plan_direction_sum[OF _ assms, of concurrency _ _ "snd (snd (plan_direction concurrency warmup limit phaseMaximum window))"]) simp

lemma plan_run_within:
  assumes "tr_BytesTransferred dw \<le> bulk" "tr_BytesTransferred uw \<le> pc_MaxUploadBytes profile"
  shows "unat (tr_BytesTransferred dw) + unat (rp_DownloadPrimary (plan_run profile bulk dw uw))
      + unat (rp_DownloadBidirectional (plan_run profile bulk dw uw)) \<le> unat bulk"
    and "unat (tr_BytesTransferred uw) + unat (rp_UploadPrimary (plan_run profile bulk dw uw))
      + unat (rp_UploadBidirectional (plan_run profile bulk dw uw)) \<le> unat (pc_MaxUploadBytes profile)"
proof -
  let ?pm = "max (2 * Second) (pc_MaxDurationSeconds profile * Second * 3 div 10)"
  let ?w = "max (2 * Second) (pc_MaxDurationSeconds profile * Second div 4)"
  have "0 \<le> ?pm" "0 \<le> ?w" by simp_all
  note within = plan_direction_within[OF this assms(1), of "pc_MaxConcurrentRequests profile"]
    plan_direction_within[OF this assms(2), of "pc_MaxConcurrentRequests profile"]
  show "unat (tr_BytesTransferred dw) + unat (rp_DownloadPrimary (plan_run profile bulk dw uw))
      + unat (rp_DownloadBidirectional (plan_run profile bulk dw uw)) \<le> unat bulk"
    using within(1) by (simp only: plan_run_def Let_def split_def run_plan.simps)
  show "unat (tr_BytesTransferred uw) + unat (rp_UploadPrimary (plan_run profile bulk dw uw))
      + unat (rp_UploadBidirectional (plan_run profile bulk dw uw)) \<le> unat (pc_MaxUploadBytes profile)"
    using within(2) by (simp only: plan_run_def Let_def split_def run_plan.simps)
qed

lemma both_phase_within:
  assumes "both_phase rv profile = Some x"
  shows "tr_BytesTransferred (fst x) \<le> rp_DownloadBidirectional (plan_of rv profile)"
    "tr_BytesTransferred (fst (snd x)) \<le> rp_UploadBidirectional (plan_of rv profile)"
proof -
  obtain db ub ds us dbl ubl mn mx where x: "x = runBidirectionalPhase (rv_Phase rv ''bidirectional'')
      (min (rp_DownloadBidirectional (plan_of rv profile)) db) (min (rp_UploadBidirectional (plan_of rv profile)) ub) ds us dbl ubl mn mx"
    using assms by (auto simp: both_phase_def Let_def split: if_splits)
  show "tr_BytesTransferred (fst x) \<le> rp_DownloadBidirectional (plan_of rv profile)"
    "tr_BytesTransferred (fst (snd x)) \<le> rp_UploadBidirectional (plan_of rv profile)"
    unfolding x by (rule order.trans[OF runBidirectionalPhase_within(1) min.cobounded1]
        order.trans[OF runBidirectionalPhase_within(2) min.cobounded1])+
qed
lemma reserve_capacity_le: "response_capacity p \<le> pc_MaxDownloadBytes p"
proof -
  have "pc_MaxDownloadBytes p div 16 \<le> pc_MaxDownloadBytes p" by (simp add: word_le_nat_alt unat_div)
  then show ?thesis unfolding response_capacity_def by (rule order.trans[OF min.cobounded2])
qed

lemma div_le_word: "(a :: u64) div 10 \<le> a"
  by (simp add: word_le_nat_alt unat_div)

lemma measure_parts:
  "ms_DownloadWarmup (measure rv p) = download_warmup rv p" "ms_UploadWarmup (measure rv p) = upload_warmup rv p"
  "fst (ms_Download (measure rv p)) = fst (download_phase rv p)" "fst (ms_Upload (measure rv p)) = fst (upload_phase rv p)"
  "ms_Bidirectional (measure rv p) = map_option (\<lambda>(d, u, e, l, _). (d, u, e, l)) (both_phase rv p)"
  by (simp_all add: measure_def Let_def split_def)

lemma warmups_within:
  "tr_BytesTransferred (download_warmup rv p) \<le> bulk_bytes p" "tr_BytesTransferred (upload_warmup rv p) \<le> pc_MaxUploadBytes p"
  unfolding download_warmup_def upload_warmup_def
  by (rule order.trans[OF oneTransfer_le] order.trans[OF min.cobounded1 div_le_word])+

lemma phases_within:
  "tr_BytesTransferred (fst (download_phase rv p)) \<le> rp_DownloadPrimary (plan_of rv p)"
  "tr_BytesTransferred (fst (upload_phase rv p)) \<le> rp_UploadPrimary (plan_of rv p)"
  "throughputBytes (map_option fst (ms_Bidirectional (measure rv p))) \<le> rp_DownloadBidirectional (plan_of rv p)"
  "throughputBytes (map_option (fst \<circ> snd) (ms_Bidirectional (measure rv p))) \<le> rp_UploadBidirectional (plan_of rv p)"
  using both_phase_within[of rv p]
  by (simp_all add: download_phase_def upload_phase_def runSinglePhase_within Let_def measure_parts throughputBytes_def split_def
      split: option.split)

lemma measure_within:
  "unat (tr_BytesTransferred (ms_DownloadWarmup (measure rv p))) + unat (tr_BytesTransferred (fst (ms_Download (measure rv p))))
     + unat (throughputBytes (map_option fst (ms_Bidirectional (measure rv p)))) \<le> unat (bulk_bytes p)"
  "unat (tr_BytesTransferred (ms_UploadWarmup (measure rv p))) + unat (tr_BytesTransferred (fst (ms_Upload (measure rv p))))
     + unat (throughputBytes (map_option (fst \<circ> snd) (ms_Bidirectional (measure rv p)))) \<le> unat (pc_MaxUploadBytes p)"
  using plan_run_within[OF warmups_within[of rv p], folded plan_of_def] phases_within[of rv p]
  unfolding measure_parts(1-4) by (auto simp: word_le_nat_alt)
lemma responsiveness_totals:
  "rs_TotalDownloadBytes (run_responsiveness rv used m) = tr_BytesTransferred (ms_DownloadWarmup m)
     + tr_BytesTransferred (fst (ms_Download m)) + throughputBytes (map_option fst (ms_Bidirectional m)) + used"
  "rs_TotalUploadBytes (run_responsiveness rv used m) = tr_BytesTransferred (ms_UploadWarmup m)
     + tr_BytesTransferred (fst (ms_Upload m)) + throughputBytes (map_option (fst \<circ> snd) (ms_Bidirectional m))"
  by (simp_all add: run_responsiveness_def Let_def split_def)

lemma Run_cases:
  assumes "Run household rv profile traffic = (t, err)" "pc_Name profile \<noteq> ProfileHousehold"
  obtains "t = zero_test" | used where "t = judge_run rv profile traffic used (measure rv profile)" "used \<le> response_capacity profile"
proof (cases "t = zero_test")
  case False
  then have "t = judge_run rv profile traffic
      (rb_used (foldl drain_step (newResponseBudget (response_capacity profile)) (rv_Drains rv))) (measure rv profile)"
    using assms by (auto simp: Run_def Let_def split: if_splits option.splits)
  then show ?thesis using that(2) drains_used by blast
qed (use that(1) in blast)

text \<open>The totals of a judged run are exact sums, and the caps bound them.\<close>

lemma judge_run_fields:
  "rs_TotalDownloadBytes (st_Responsiveness (judge_run rv p traffic used m)) = rs_TotalDownloadBytes (run_responsiveness rv used m)"
  "rs_TotalUploadBytes (st_Responsiveness (judge_run rv p traffic used m)) = rs_TotalUploadBytes (run_responsiveness rv used m)"
  "bg_UsedBytes (st_Budget (judge_run rv p traffic used m))
     = rs_TotalDownloadBytes (run_responsiveness rv used m) + rs_TotalUploadBytes (run_responsiveness rv used m)"
  "st_Download (judge_run rv p traffic used m) = fst (ms_Download m)" "st_Upload (judge_run rv p traffic used m) = fst (ms_Upload m)"
  by (simp_all add: judge_run_def Let_def)

lemma judge_run_within:
  fixes rv :: run_env and p :: SpeedProfileConfig
  assumes "used \<le> response_capacity p"
  defines "m \<equiv> measure rv p"
  shows "unat (rs_TotalDownloadBytes (run_responsiveness rv used m)) = unat (tr_BytesTransferred (ms_DownloadWarmup m))
      + unat (tr_BytesTransferred (fst (ms_Download m))) + unat (throughputBytes (map_option fst (ms_Bidirectional m))) + unat used"
    and "unat (rs_TotalDownloadBytes (run_responsiveness rv used m)) \<le> unat (pc_MaxDownloadBytes p)"
    and "unat (rs_TotalUploadBytes (run_responsiveness rv used m)) = unat (tr_BytesTransferred (ms_UploadWarmup m))
      + unat (tr_BytesTransferred (fst (ms_Upload m))) + unat (throughputBytes (map_option (fst \<circ> snd) (ms_Bidirectional m)))"
    and "unat (rs_TotalUploadBytes (run_responsiveness rv used m)) \<le> unat (pc_MaxUploadBytes p)"
proof -
  have bulk: "unat (bulk_bytes p) + unat (response_capacity p) = unat (pc_MaxDownloadBytes p)"
    using reserve_capacity_le[of p] by (simp add: bulk_bytes_def unat_sub word_le_nat_alt)
  note within = measure_within[of rv p, folded m_def]
  have down: "unat (tr_BytesTransferred (ms_DownloadWarmup m)) + unat (tr_BytesTransferred (fst (ms_Download m)))
      + unat (throughputBytes (map_option fst (ms_Bidirectional m))) + unat used \<le> unat (pc_MaxDownloadBytes p)"
    using within(1) assms(1) bulk by (simp add: word_le_nat_alt)
  then show eq: "unat (rs_TotalDownloadBytes (run_responsiveness rv used m)) = unat (tr_BytesTransferred (ms_DownloadWarmup m))
      + unat (tr_BytesTransferred (fst (ms_Download m))) + unat (throughputBytes (map_option fst (ms_Bidirectional m))) + unat used"
    using unat_u64_less[of "pc_MaxDownloadBytes p"] unfolding responsiveness_totals by (simp add: unat_add_u64)
  show "unat (rs_TotalDownloadBytes (run_responsiveness rv used m)) \<le> unat (pc_MaxDownloadBytes p)" unfolding eq by (rule down)
  show equ: "unat (rs_TotalUploadBytes (run_responsiveness rv used m)) = unat (tr_BytesTransferred (ms_UploadWarmup m))
      + unat (tr_BytesTransferred (fst (ms_Upload m))) + unat (throughputBytes (map_option (fst \<circ> snd) (ms_Bidirectional m)))"
    using within(2) unat_u64_less[of "pc_MaxUploadBytes p"] unfolding responsiveness_totals by (simp add: unat_add_u64)
  show "unat (rs_TotalUploadBytes (run_responsiveness rv used m)) \<le> unat (pc_MaxUploadBytes p)" unfolding equ by (rule within(2))
qed


section \<open>Latency statistics\<close>
text \<open>Interpolation at a position of a sorted list.\<close>

definition at_position :: "real list \<Rightarrow> real \<Rightarrow> real" where
  "at_position xs x =
     (if nat \<lfloor>x\<rfloor> = nat \<lceil>x\<rceil> then xs ! nat \<lfloor>x\<rfloor>
      else xs ! nat \<lfloor>x\<rfloor> + (x - real (nat \<lfloor>x\<rfloor>)) * (xs ! nat \<lceil>x\<rceil> - xs ! nat \<lfloor>x\<rfloor>))"

lemma run_percentile_position: "xs \<noteq> [] \<Longrightarrow> run_percentile xs p = at_position xs (p / 100 * real (length xs - 1))"
  by (simp add: run_percentile_def at_position_def Let_def)

lemma position_indices:
  assumes "0 \<le> x" "x \<le> real n"
  shows "nat \<lfloor>x\<rfloor> \<le> nat \<lceil>x\<rceil>" "nat \<lceil>x\<rceil> \<le> n" "nat \<lceil>x\<rceil> \<le> nat \<lfloor>x\<rfloor> + 1" "real (nat \<lfloor>x\<rfloor>) \<le> x" "x \<le> real (nat \<lceil>x\<rceil>)"
  using assms by (simp_all add: floor_le_ceiling nat_mono ceiling_le_iff) linarith+

lemma at_position_between:
  assumes "sorted xs" "0 \<le> x" "x \<le> real (length xs - 1)" "xs \<noteq> []"
  shows "xs ! nat \<lfloor>x\<rfloor> \<le> at_position xs x" "at_position xs x \<le> xs ! nat \<lceil>x\<rceil>"
proof -
  note ix = position_indices[OF assms(2,3)]
  have len: "nat \<lceil>x\<rceil> < length xs" using ix(2) length_greater_0_conv[of xs] assms(4) by linarith
  have le: "xs ! nat \<lfloor>x\<rfloor> \<le> xs ! nat \<lceil>x\<rceil>" using assms(1) ix(1) len by (simp add: sorted_iff_nth_mono)
  define i k where "i = nat \<lfloor>x\<rfloor>" and "k = nat \<lceil>x\<rceil>"
  have f: "0 \<le> x - real i" "x - real i \<le> 1" using ix unfolding i_def by linarith+
  have g: "xs ! i \<le> xs ! k" using le by (simp add: i_def k_def)
  have a: "0 \<le> (x - real i) * (xs ! k - xs ! i)" by (rule mult_nonneg_nonneg) (use f g in linarith)+
  have b: "(x - real i) * (xs ! k - xs ! i) \<le> 1 * (xs ! k - xs ! i)" by (rule mult_right_mono) (use f g in linarith)+
  show "xs ! nat \<lfloor>x\<rfloor> \<le> at_position xs x" "at_position xs x \<le> xs ! nat \<lceil>x\<rceil>"
    unfolding at_position_def i_def[symmetric] k_def[symmetric] using a b by (auto simp del: of_nat_nat split: if_splits)
qed

lemma at_position_mono:
  assumes "sorted xs" "0 \<le> x" "x \<le> y" "y \<le> real (length xs - 1)" "xs \<noteq> []"
  shows "at_position xs x \<le> at_position xs y"
proof -
  have x: "x \<le> real (length xs - 1)" and y: "0 \<le> y" using assms by linarith+
  note ix = position_indices[OF assms(2) x] and iy = position_indices[OF y assms(4)]
  have len: "nat \<lceil>y\<rceil> < length xs" using iy(2) length_greater_0_conv[of xs] assms(5) by linarith
  have floors: "nat \<lfloor>x\<rfloor> \<le> nat \<lfloor>y\<rfloor>" using assms(3) by (simp add: floor_mono nat_mono)
  show ?thesis
  proof (cases "nat \<lceil>x\<rceil> \<le> nat \<lfloor>y\<rfloor>")
    case True
    then have "xs ! nat \<lceil>x\<rceil> \<le> xs ! nat \<lfloor>y\<rfloor>" using assms(1) iy(1) len by (simp add: sorted_iff_nth_mono)
    then show ?thesis
      using at_position_between(2)[OF assms(1,2) x assms(5)] at_position_between(1)[OF assms(1) y assms(4,5)] by linarith
  next
    case False
    then have fl: "nat \<lfloor>y\<rfloor> = nat \<lfloor>x\<rfloor>" and cx: "nat \<lceil>x\<rceil> = nat \<lfloor>x\<rfloor> + 1" using floors ix(3) by linarith+
    have "real (nat \<lfloor>x\<rfloor>) < y"
    proof (rule ccontr)
      assume "\<not> real (nat \<lfloor>x\<rfloor>) < y"
      then have "x = real (nat \<lfloor>x\<rfloor>)" using assms(3) ix(4) by linarith
      then have "nat \<lceil>x\<rceil> = nat \<lfloor>x\<rfloor>" by (metis ceiling_of_nat floor_of_nat)
      then show False using cx by simp
    qed
    then have cy: "nat \<lceil>y\<rceil> = nat \<lceil>x\<rceil>" using iy fl cx by linarith
    have "xs ! nat \<lfloor>x\<rfloor> \<le> xs ! nat \<lceil>x\<rceil>" using assms(1) ix(1) len cy by (simp add: sorted_iff_nth_mono)
    then have "(x - real (nat \<lfloor>x\<rfloor>)) * (xs ! nat \<lceil>x\<rceil> - xs ! nat \<lfloor>x\<rfloor>) \<le> (y - real (nat \<lfloor>x\<rfloor>)) * (xs ! nat \<lceil>x\<rceil> - xs ! nat \<lfloor>x\<rfloor>)"
      using assms(3) by (intro mult_right_mono) simp_all
    then show ?thesis using cx cy fl by (simp add: at_position_def)
  qed
qed

lemma run_percentile_mono:
  assumes "sorted xs" "0 \<le> p" "p \<le> q" "q \<le> 100"
  shows "run_percentile xs p \<le> run_percentile xs q"
proof (cases "xs = []")
  case False
  let ?n = "real (length xs - 1)"
  have "q / 100 * ?n \<le> 1 * ?n" by (rule mult_right_mono) (use assms in simp_all)
  moreover have "p / 100 * ?n \<le> q / 100 * ?n" by (rule mult_right_mono) (use assms in simp_all)
  ultimately show ?thesis
    unfolding run_percentile_position[OF False] using assms False by (intro at_position_mono) simp_all
qed (simp add: run_percentile_def)

lemma run_percentile_ends:
  assumes "sorted xs" "xs \<noteq> []"
  shows "run_percentile xs 0 = hd xs" "run_percentile xs 100 = List.last xs"
  using assms(2) by (simp_all add: run_percentile_def Let_def hd_conv_nth last_conv_nth)

text \<open>
  A latency summary is consistent: when at most the attempts succeeded, its loss is between
  0 and 100 percent and its counts are those of the probes; with any success its percentiles stand
  in order between the minimum and the maximum and the spread is not negative, and with none it
  carries an error.
\<close>

theorem latencySummary_ordered:
  assumes "length values \<le> attempts" "attempts < 2 ^ 32"
  shows "let s = latencySummary values attempts in
      0 \<le> ls_PacketLossPct s \<and> ls_PacketLossPct s \<le> 100 \<and> unat (ls_Count s) = length values \<and> unat (ls_Attempts s) = attempts
      \<and> (ls_PacketLossValid s \<longleftrightarrow> attempts > 0)
      \<and> (if values = [] then ls_Error s \<noteq> ''''
         else ls_Error s = '''' \<and> sorted [ls_MinMS s, ls_P5MS s, ls_P50MS s, ls_P90MS s, ls_P95MS s, ls_P99MS s, ls_MaxMS s]
            \<and> 0 \<le> ls_JitterIQRMS s)"
proof -
  let ?xs = "sort values"
  have counts: "unat (word_of_nat (length values) :: u32) = length values" "unat (word_of_nat attempts :: u32) = attempts"
    using assms by (simp_all add: unsigned_of_nat take_bit_nat_eq_self)
  have loss: "0 \<le> 100 * (real attempts - real (length values)) / real attempts"
    "100 * (real attempts - real (length values)) / real attempts \<le> 100" if "0 < attempts"
    using assms(1) that by (simp_all add: divide_le_eq)
  have order: "round_places (run_percentile ?xs p) 3 \<le> round_places (run_percentile ?xs q) 3" if "0 \<le> p" "p \<le> q" "q \<le> 100" for p q
    using that by (intro round_places_mono run_percentile_mono) simp_all
  have iqr: "0 \<le> run_percentile ?xs 75 - run_percentile ?xs 25"
    using run_percentile_mono[of ?xs 25 75] by simp
  then have iqr3: "0 \<le> round_places (run_percentile ?xs 75 - run_percentile ?xs 25) 3"
    using round_places_mono[OF iqr, of 3] by simp
  show ?thesis
  proof (cases "values = []")
    case True
    then show ?thesis using counts loss by (simp add: latencySummary_def Let_def zero_summary_def)
  next
    case False
    then have "?xs \<noteq> []" by (metis set_empty set_sort)
    then have ends: "run_percentile ?xs 0 = hd ?xs" "run_percentile ?xs 100 = List.last ?xs"
      using run_percentile_ends[of ?xs] by simp_all
    have "sorted [round_places (hd ?xs) 3, round_places (run_percentile ?xs 5) 3, round_places (run_percentile ?xs 50) 3,
        round_places (run_percentile ?xs 90) 3, round_places (run_percentile ?xs 95) 3, round_places (run_percentile ?xs 99) 3,
        round_places (List.last ?xs) 3]"
      unfolding ends[symmetric] by (simp add: order)
    then show ?thesis using False counts loss iqr3 by (simp add: latencySummary_def Let_def zero_summary_def)
  qed
qed

section \<open>A run in which only the download warm-up moves bytes\<close>

definition demo_profile :: SpeedProfileConfig where
  "demo_profile = \<lparr>pc_Name = ProfileCapacity, pc_Enabled = True, pc_Windows = [], pc_CadenceMinutes = 60,
     pc_MinDurationSeconds = 5, pc_MaxDurationSeconds = 20, pc_MaxDownloadBytes = 2000000, pc_MaxUploadBytes = 1000000,
     pc_MaxConcurrentRequests = 4, pc_MinSpacingMinutes = 0, pc_AllowMetered = False, pc_AllowOnBattery = False,
     pc_CountsTowardExperience = True\<rparr>"

definition demo_turn :: probe_turn where
  "demo_turn = \<lparr>tn_ended = True, tn_probe = (0, False, False), tn_ended_probe = True, tn_skip_fresh = True,
     tn_fresh = (0, False, False), tn_ended_fresh = True\<rparr>"

definition demo_body :: response_body where
  "demo_body = \<lparr>bo_ContentLength = 0, bo_Bytes = 0, bo_Error = None\<rparr>"

definition demo_transfer :: "nat list \<Rightarrow> transfer_env" where
  "demo_transfer chunks = \<lparr>tx_RequestError = None, tx_DoError = (if chunks = [] then Some ''timeout'' else None), tx_Status = 200,
     tx_StatusText = ''200 OK'', tx_Chunks = chunks, tx_ReadError = None, tx_Buffers = [], tx_Answer = demo_body,
     tx_Cancelled = False, tx_Elapsed = Second\<rparr>"

definition demo_phase :: phase_env where
  "demo_phase = \<lparr>ph_Started = 0, ph_Events = [], ph_Snapshot = Second, ph_Summarized = Second, ph_UploadStarted = 0,
     ph_UploadEvents = [], ph_UploadSnapshot = Second, ph_UploadSummarized = Second, ph_Turns = [],
     ph_Error = DeadlineExceeded, ph_StartMS = 0, ph_EndMS = 1000\<rparr>"

definition demo_run :: run_env where
  "demo_run = \<lparr>rv_Now = 0, rv_Random = Some [1, 2], rv_ParseURL = (\<lambda>s. Some (demo_url s)), rv_OwnClient = True,
     rv_DownloadURL = '''', rv_UploadURL = '''', rv_ElapsedMS = (\<lambda>_. 0), rv_BaselineFirst = demo_turn,
     rv_BaselineTurns = [], rv_DownloadWarmup = demo_transfer [1000, 500], rv_UploadWarmup = demo_transfer [],
     rv_Drains = [Reserve, Settle 0 100], rv_UploadDrain = newResponseBudget 65536, rv_Phase = (\<lambda>_. demo_phase),
     rv_EndedEarly = True, rv_CooldownTurns = [], rv_Ended = False, rv_Aborted = None, rv_DurationMS = 1000\<rparr>"

lemma run_load_idle [simp]: "cn_bytes (snd (run_load budget streams block started [])) = 0"
  by (simp add: run_load_def newPhaseCounter_def)

lemma runSinglePhase_idle:
  "ph_Events ph = [] \<Longrightarrow> tr_BytesTransferred (fst (runSinglePhase ph budget streams block minimum maximum)) = 0"
  by (simp add: runSinglePhase_def Let_def split: prod.split)

lemma demo_bytes:
  "tr_BytesTransferred (download_warmup demo_run demo_profile) = 1500"
  "tr_BytesTransferred (fst (download_phase demo_run demo_profile)) = 0" "both_phase demo_run demo_profile = None"
  by (simp_all add: download_warmup_def demo_run_def demo_profile_def demo_transfer_def oneTransfer_def bulk_bytes_def
      response_capacity_def download_body_def finished_transfer_def no_transfer_def download_phase_def
      runSinglePhase_idle demo_phase_def both_phase_def Let_def)


theorem latencySummary_ordered_witness:
  "unat (ls_Count (latencySummary [30, 10, 20] 4)) = 3 \<and> ls_PacketLossPct (latencySummary [30, 10, 20] 4) = 25
   \<and> sorted [ls_MinMS (latencySummary [30, 10, 20] 4), ls_P50MS (latencySummary [30, 10, 20] 4), ls_MaxMS (latencySummary [30, 10, 20] 4)]"
proof -
  have "length [30, 10, 20 :: real] \<le> 4" "(4 :: nat) < 2 ^ 32" by simp_all
  note ordered = latencySummary_ordered[OF this]
  have "ls_PacketLossPct (latencySummary [30, 10, 20] 4) = 25" by (simp add: latencySummary_def Let_def zero_summary_def)
  then show ?thesis using ordered by (simp add: Let_def)
qed

end
