(* ===== verification/Household_Ledger.thy ===== *)
theory Household_Ledger
  imports Quality_Load Household
begin

text \<open>
  The ledger of a household test (\<open>internal/qualitytest/household.go\<close>): the byte budget every
  activity of the household claims its delivery units from, by compare-and-swap, and to which it
  gives back what it did not move. The accesses of the claiming goroutines to the shared counters
  are separate steps in an arbitrary order.
\<close>

section \<open>The ledger\<close>

record householdLedger =
  lg_cap :: u64
  lg_remaining :: u64
  lg_download :: u64
  lg_upload :: u64
  lg_exhausted :: bool

definition newHouseholdLedger :: "u64 \<Rightarrow> householdLedger" where
  "newHouseholdLedger capBytes =
     \<lparr>lg_cap = capBytes, lg_remaining = go_uint64 (real (unat capBytes) * (1 - HouseholdOverheadReserve)),
      lg_download = 0, lg_upload = 0, lg_exhausted = False\<rparr>"

text \<open>\<open>claim\<close> and \<open>settle\<close> by a goroutine that is not disturbed.\<close>

definition claim_unit :: "u64 \<Rightarrow> householdLedger \<Rightarrow> householdLedger \<times> bool" where
  "claim_unit amount l =
     (if lg_remaining l < amount then (l\<lparr>lg_exhausted := True\<rparr>, False)
      else (l\<lparr>lg_remaining := lg_remaining l - amount\<rparr>, True))"

definition refund_unit :: "u64 \<Rightarrow> u64 \<Rightarrow> householdLedger \<Rightarrow> householdLedger" where
  "refund_unit claimed moved l =
     (if moved < claimed then l\<lparr>lg_remaining := lg_remaining l + (claimed - moved)\<rparr> else l)"

definition count_unit :: "u64 \<Rightarrow> bool \<Rightarrow> householdLedger \<Rightarrow> householdLedger" where
  "count_unit moved upload l =
     (if upload then l\<lparr>lg_upload := lg_upload l + moved\<rparr> else l\<lparr>lg_download := lg_download l + moved\<rparr>)"

definition settle_unit :: "u64 \<Rightarrow> u64 \<Rightarrow> bool \<Rightarrow> householdLedger \<Rightarrow> householdLedger" where
  "settle_unit claimed moved upload l = count_unit moved upload (refund_unit claimed moved l)"

section \<open>Goroutines at the ledger\<close>

text \<open>
  Where a goroutine is: with nothing claimed, about to load the counter, about to swap what it has
  loaded, moving a claimed unit, or about to count what it has moved.
\<close>

datatype claimer = Resting | Wanting u64 | Seen u64 u64 | Owning u64 | Counting u64 bool

record ledger_run =
  lr_ledger :: householdLedger
  lr_claimers :: "claimer list"

datatype ledger_event = Want nat u64 | Load nat | Exchange nat | Refund nat u64 bool | Account nat

definition claimer_at :: "ledger_run \<Rightarrow> nat \<Rightarrow> claimer" where
  "claimer_at s i = (if i < length (lr_claimers s) then lr_claimers s ! i else Resting)"

definition move_on :: "nat \<Rightarrow> claimer \<Rightarrow> householdLedger \<Rightarrow> ledger_run \<Rightarrow> ledger_run" where
  "move_on i c l s = \<lparr>lr_ledger = l, lr_claimers = (lr_claimers s)[i := c]\<rparr>"

definition claim_load :: "nat \<Rightarrow> u64 \<Rightarrow> ledger_run \<Rightarrow> ledger_run" where
  "claim_load i amount s =
     (let l = lr_ledger s; current = lg_remaining l
      in if current < amount then move_on i Resting (l\<lparr>lg_exhausted := True\<rparr>) s
         else move_on i (Seen current amount) l s)"

definition claim_exchange :: "nat \<Rightarrow> u64 \<Rightarrow> u64 \<Rightarrow> ledger_run \<Rightarrow> ledger_run" where
  "claim_exchange i current amount s =
     (let l = lr_ledger s
      in if lg_remaining l = current then move_on i (Owning amount) (l\<lparr>lg_remaining := current - amount\<rparr>) s
         else move_on i (Wanting amount) l s)"

text \<open>One access; an event the goroutine is not ready for changes nothing. No transfer moves more than its unit.\<close>

fun ledger_step :: "ledger_run \<Rightarrow> ledger_event \<Rightarrow> ledger_run" where
  "ledger_step s (Want i amount) =
     (if i < length (lr_claimers s) \<and> claimer_at s i = Resting then move_on i (Wanting amount) (lr_ledger s) s else s)"
| "ledger_step s (Load i) = (case claimer_at s i of Wanting amount \<Rightarrow> claim_load i amount s | _ \<Rightarrow> s)"
| "ledger_step s (Exchange i) = (case claimer_at s i of Seen current amount \<Rightarrow> claim_exchange i current amount s | _ \<Rightarrow> s)"
| "ledger_step s (Refund i moved upload) =
     (case claimer_at s i of
        Owning claimed \<Rightarrow>
          if moved \<le> claimed then move_on i (Counting moved upload) (refund_unit claimed moved (lr_ledger s)) s else s
      | _ \<Rightarrow> s)"
| "ledger_step s (Account i) =
     (case claimer_at s i of
        Counting moved upload \<Rightarrow> move_on i Resting (count_unit moved upload (lr_ledger s)) s
      | _ \<Rightarrow> s)"

section \<open>Conservation\<close>

definition owned :: "claimer \<Rightarrow> nat" where
  "owned c = (case c of Owning amount \<Rightarrow> unat amount | Counting moved _ \<Rightarrow> unat moved | _ \<Rightarrow> 0)"

definition owned_all :: "ledger_run \<Rightarrow> nat" where
  "owned_all s = sum_list (map owned (lr_claimers s))"

definition ledger_total :: "householdLedger \<Rightarrow> nat" where
  "ledger_total l = unat (lg_remaining l) + unat (lg_download l) + unat (lg_upload l)"

definition sound_claimer :: "claimer \<Rightarrow> bool" where
  "sound_claimer c = (case c of Seen current amount \<Rightarrow> amount \<le> current | _ \<Rightarrow> True)"

definition ledger_inv :: "nat \<Rightarrow> ledger_run \<Rightarrow> bool" where
  "ledger_inv whole s \<longleftrightarrow> ledger_total (lr_ledger s) + owned_all s = whole \<and> whole < 2 ^ 64
     \<and> (\<forall>c\<in>set (lr_claimers s). sound_claimer c)"

lemma claimer_live: "claimer_at s i = c \<Longrightarrow> c \<noteq> Resting \<Longrightarrow> i < length (lr_claimers s) \<and> lr_claimers s ! i = c"
  by (simp add: claimer_at_def split: if_splits)

lemma owned_move_on:
  "i < length (lr_claimers s) \<Longrightarrow> owned_all (move_on i c l s) + owned (lr_claimers s ! i) = owned_all s + owned c"
  by (simp add: owned_all_def move_on_def sum_list_update_nat)

lemma ledger_inv_move_on:
  assumes "ledger_inv whole s" "i < length (lr_claimers s)" "sound_claimer c"
    and "ledger_total l + owned c = ledger_total (lr_ledger s) + owned (lr_claimers s ! i)"
  shows "ledger_inv whole (move_on i c l s)"
proof -
  have "\<forall>v\<in>set ((lr_claimers s)[i := c]). sound_claimer v"
    using assms(1,3) by (auto simp: ledger_inv_def dest!: set_update_subset_insert[THEN subsetD])
  then show ?thesis using assms(1,4) owned_move_on[OF assms(2), of c l]
    by (simp add: ledger_inv_def) (simp add: move_on_def)
qed

lemma owned_le: "i < length (lr_claimers s) \<Longrightarrow> owned (lr_claimers s ! i) \<le> owned_all s"
  unfolding owned_all_def by (intro member_le_sum_list) auto

lemma exchange_inv:
  assumes "ledger_inv whole s" "i < length (lr_claimers s)" "lr_claimers s ! i = Seen current amount"
  shows "ledger_inv whole (claim_exchange i current amount s)"
proof -
  have "amount \<le> current" using assms nth_mem[OF assms(2)] by (auto simp: ledger_inv_def sound_claimer_def)
  then have "unat (current - amount) + unat amount = unat current" by (simp add: unat_sub word_le_nat_alt)
  then show ?thesis
    by (auto simp: claim_exchange_def Let_def intro!: ledger_inv_move_on[OF assms(1,2)])
      (simp_all add: sound_claimer_def owned_def ledger_total_def assms(3))
qed

lemma refund_inv:
  assumes "ledger_inv whole s" "i < length (lr_claimers s)" "lr_claimers s ! i = Owning claimed" "moved \<le> claimed"
  shows "ledger_inv whole (move_on i (Counting moved upload) (refund_unit claimed moved (lr_ledger s)) s)"
proof (rule ledger_inv_move_on[OF assms(1,2)])
  let ?l = "lr_ledger s"
  have diff: "unat (claimed - moved) + unat moved = unat claimed" using assms(4) by (simp add: unat_sub word_le_nat_alt)
  have "unat (lg_remaining ?l) + unat claimed \<le> whole"
    using owned_le[OF assms(2)] assms(1) by (simp add: assms(3) owned_def ledger_inv_def ledger_total_def)
  then have "unat (lg_remaining ?l + (claimed - moved)) = unat (lg_remaining ?l) + unat (claimed - moved)"
    using diff assms(1) by (intro unat_add_u64) (simp add: ledger_inv_def)
  then show "ledger_total (refund_unit claimed moved ?l) + owned (Counting moved upload) = ledger_total ?l + owned (lr_claimers s ! i)"
    using diff assms(4) by (auto simp: refund_unit_def ledger_total_def owned_def assms(3) word_le_nat_alt word_less_nat_alt)
qed (simp add: sound_claimer_def)

lemma account_inv:
  assumes "ledger_inv whole s" "i < length (lr_claimers s)" "lr_claimers s ! i = Counting moved upload"
  shows "ledger_inv whole (move_on i Resting (count_unit moved upload (lr_ledger s)) s)"
proof (rule ledger_inv_move_on[OF assms(1,2)])
  let ?l = "lr_ledger s"
  have "ledger_total ?l + unat moved < 2 ^ 64"
    using owned_le[OF assms(2)] assms(1) by (simp add: assms(3) owned_def ledger_inv_def)
  then have "unat (lg_download ?l + moved) = unat (lg_download ?l) + unat moved"
    "unat (lg_upload ?l + moved) = unat (lg_upload ?l) + unat moved"
    by (simp_all add: unat_add_u64 ledger_total_def)
  then show "ledger_total (count_unit moved upload ?l) + owned Resting = ledger_total ?l + owned (lr_claimers s ! i)"
    by (simp add: count_unit_def ledger_total_def owned_def assms(3))
qed (simp add: sound_claimer_def)

lemma idle_inv:
  assumes "ledger_inv whole s" "i < length (lr_claimers s)" "owned (lr_claimers s ! i) = 0" "sound_claimer c" "owned c = 0"
    "ledger_total l = ledger_total (lr_ledger s)"
  shows "ledger_inv whole (move_on i c l s)"
  by (rule ledger_inv_move_on[OF assms(1,2,4)]) (simp add: assms)

lemma ledger_step_inv: "ledger_inv whole s \<Longrightarrow> ledger_inv whole (ledger_step s e)"
proof (cases e)
  case (Want i amount)
  then show "ledger_inv whole s \<Longrightarrow> ledger_inv whole (ledger_step s e)"
    by (auto simp: claimer_at_def sound_claimer_def owned_def intro!: idle_inv)
next
  case (Load i)
  then show "ledger_inv whole s \<Longrightarrow> ledger_inv whole (ledger_step s e)"
    by (cases "claimer_at s i")
      (auto simp: claim_load_def Let_def sound_claimer_def owned_def ledger_total_def dest!: claimer_live intro!: idle_inv)
next
  case (Exchange i)
  then show "ledger_inv whole s \<Longrightarrow> ledger_inv whole (ledger_step s e)"
    by (cases "claimer_at s i") (auto dest!: claimer_live intro: exchange_inv)
next
  case (Refund i moved upload)
  then show "ledger_inv whole s \<Longrightarrow> ledger_inv whole (ledger_step s e)"
    by (cases "claimer_at s i") (auto dest!: claimer_live intro: refund_inv)
next
  case (Account i)
  then show "ledger_inv whole s \<Longrightarrow> ledger_inv whole (ledger_step s e)"
    by (cases "claimer_at s i") (auto dest!: claimer_live intro: account_inv)
qed

interpretation claiming: machine ledger_step "ledger_inv whole" for whole
  by unfold_locales (rule ledger_step_inv)

text \<open>The goroutines of a run start with nothing claimed.\<close>

definition start_claims :: "nat \<Rightarrow> householdLedger \<Rightarrow> ledger_run" where
  "start_claims n l = \<lparr>lr_ledger = l, lr_claimers = replicate n Resting\<rparr>"

lemma start_claims_inv: "ledger_total l < 2 ^ 64 \<Longrightarrow> ledger_inv (ledger_total l) (start_claims n l)"
  by (simp add: ledger_inv_def start_claims_def owned_all_def owned_def sound_claimer_def sum_list_replicate)

lemma claims_within:
  assumes "ledger_total l < 2 ^ 64"
  shows "ledger_total (lr_ledger (foldl ledger_step (start_claims n l) events)) \<le> ledger_total l"
  using claiming.run_inv[OF start_claims_inv[OF assms], of n events] by (simp add: ledger_inv_def)

lemma unat_go_uint64: "0 \<le> x \<Longrightarrow> x < 2 ^ 64 \<Longrightarrow> unat (go_uint64 x) = nat \<lfloor>x\<rfloor>"
  by (simp add: go_uint64_def unat_eq_nat_uint uint_word_of_int floor_less_iff)

lemma usable_within:
  fixes capBytes :: u64
  shows "unat (go_uint64 (real (unat capBytes) * (1 - HouseholdOverheadReserve))) * 10 \<le> unat capBytes * 9"
proof -
  let ?x = "real (unat capBytes) * (1 - HouseholdOverheadReserve)"
  have "?x < 2 ^ 64" using real_unat_less[of capBytes] by (simp del: of_nat_unat)
  then have "unat (go_uint64 ?x) = nat \<lfloor>?x\<rfloor>" by (intro unat_go_uint64) (simp_all del: of_nat_unat)
  moreover have "real (nat \<lfloor>?x\<rfloor>) \<le> ?x" by (rule of_nat_floor) (simp del: of_nat_unat)
  ultimately have "real (unat (go_uint64 ?x)) \<le> real (unat capBytes) * 9 / 10" by (simp only:) (simp del: of_nat_unat of_nat_nat)
  then have "real (unat (go_uint64 ?x)) * 10 \<le> real (unat capBytes) * 9" by (simp only: pos_le_divide_eq zero_less_numeral)
  then show ?thesis by (metis of_nat_le_iff of_nat_mult of_nat_numeral)
qed

end
