(* ===== verification/Household_Run.thy ===== *)
theory Household_Run
  imports Household_Ledger Quality_Runner "HOL-Library.Multiset"
begin

text \<open>
  The household engine (\<open>internal/qualitytest/household.go\<close>): how one delivery unit is moved, how an
  activity of each pattern is paced and what it records, and \<open>runHousehold\<close>, which runs a mix of
  activities and judges it. As for \<open>Quality_Runner\<close>, what the requests, the clock and the contexts
  do is an argument; the claims on the shared ledger are the steps of \<open>Household_Ledger\<close>.
\<close>

section \<open>One unit\<close>

abbreviation (input) householdMaxSamples :: nat where "householdMaxSamples \<equiv> 4096"

definition record_unit :: "ActivitySample list \<Rightarrow> ActivitySample \<Rightarrow> ActivitySample list" where
  "record_unit samples s = (if length samples < householdMaxSamples then samples @ [s] else samples)"

record householdTransfer =
  ht_bytes :: u64
  ht_firstByteMS :: int
  ht_err :: "string option"

text \<open>
  What a unit meets beyond \<open>transfer_env\<close>, whose context here is that of the request: the first
  response byte, the error of the request's context and whether the activity's own has ended behind
  the transfer, and the response bytes an upload's answer is drained from.
\<close>

record unit_env =
  un_Transfer :: transfer_env
  un_FirstByteMS :: int
  un_Timeout :: "string option"
  un_Ended :: bool
  un_Responses :: responses

definition download_unit :: "unit_env \<Rightarrow> u64 \<Rightarrow> householdTransfer" where
  "download_unit un amount =
     (case limited_reads (unat amount) (tx_Chunks (un_Transfer un)) of
        (counts, full) \<Rightarrow>
          let unit = (\<lambda>e. \<lparr>ht_bytes = word_of_nat (sum_list counts), ht_firstByteMS = un_FirstByteMS un, ht_err = e\<rparr>);
              read = unit (if un_Ended un then None else un_Timeout un)
          in case (if full then None else tx_ReadError (un_Transfer un)) of
               Some e \<Rightarrow> if tx_Cancelled (un_Transfer un) then read else unit (Some e)
             | None \<Rightarrow> read)"

definition upload_unit :: "unit_env \<Rightarrow> u64 \<Rightarrow> householdTransfer" where
  "upload_unit un moved =
     \<lparr>ht_bytes = moved, ht_firstByteMS = un_FirstByteMS un,
      ht_err = map_option (\<lambda>e. case e of
         Exhausted \<Rightarrow> ''response-byte budget exhausted'' | Unavailable \<Rightarrow> ''response-byte budget unavailable''
       | TooLarge \<Rightarrow> ''endpoint response exceeded bounded allowance'' | ReadFailed m \<Rightarrow> m)
       (snd (drainResponse (tx_Answer (un_Transfer un)) (Some (un_Responses un))))\<rparr>"

definition transfer1 :: "unit_env \<Rightarrow> bool \<Rightarrow> u64 \<Rightarrow> householdTransfer" where
  "transfer1 un upload amount =
     (let tx = un_Transfer un; moved = transferred amount (snd (body_reads (tx_Buffers tx) amount)) in
      case tx_RequestError tx of
        Some e \<Rightarrow> \<lparr>ht_bytes = 0, ht_firstByteMS = 0, ht_err = Some e\<rparr>
      | None \<Rightarrow>
          (case tx_DoError tx of
             Some e \<Rightarrow> \<lparr>ht_bytes = (if upload then moved else 0), ht_firstByteMS = un_FirstByteMS un, ht_err = Some e\<rparr>
           | None \<Rightarrow>
               if tx_Status tx < 200 \<or> tx_Status tx \<ge> 300
               then \<lparr>ht_bytes = 0, ht_firstByteMS = un_FirstByteMS un, ht_err = Some (''endpoint returned '' @ tx_StatusText tx)\<rparr>
               else if upload then upload_unit un moved else download_unit un amount))"

lemma download_unit_le: "ht_bytes (download_unit un amount) \<le> amount"
proof -
  obtain counts full where r: "limited_reads (unat amount) (tx_Chunks (un_Transfer un)) = (counts, full)" by fastforce
  then have "sum_list counts \<le> unat amount" using limited_reads_sum[of "unat amount" "tx_Chunks (un_Transfer un)"] by simp
  moreover from this have "unat (word_of_nat (sum_list counts) :: u64) = sum_list counts"
    using unat_u64_less[of amount] by (simp add: unsigned_of_nat take_bit_nat_eq_self)
  ultimately show ?thesis by (simp add: download_unit_def r Let_def word_le_nat_alt split: option.split)
qed

text \<open>No unit moves more than was claimed for it, so its settlement is a step of the ledger.\<close>

lemma transfer1_le: "ht_bytes (transfer1 un upload amount) \<le> amount"
  using download_unit_le transferred_le[of amount "tx_Buffers (un_Transfer un)"]
  by (simp add: transfer1_def upload_unit_def Let_def split: option.split)

section \<open>Segments\<close>

text \<open>\<open>ms\<close>: milliseconds of the run at an instant.\<close>

definition run_ms :: "time \<Rightarrow> time \<Rightarrow> int" where
  "run_ms started t = (t - started) div Millisecond"

definition failed_unit :: "householdTransfer \<Rightarrow> u64 \<Rightarrow> bool" where
  "failed_unit x unit \<longleftrightarrow> ht_err x \<noteq> None \<or> ht_bytes x < unit"

record segment_turn =
  sg_Ended :: bool
  sg_Slept :: bool
  sg_Claimed :: bool
  sg_Scheduling :: time
  sg_Since :: time
  sg_Starting :: time
  sg_Unit :: unit_env
  sg_EndedBehind :: bool
  sg_Completed :: time
  sg_Recording :: time

text \<open>One turn of the loop: what it records and when the next segment is due.\<close>

definition segment_turn_step :: "ActivityProfile \<Rightarrow> time \<Rightarrow> time \<Rightarrow> segment_turn \<Rightarrow> (ActivitySample \<times> time) option" where
  "segment_turn_step p started scheduled t =
     (if sg_Ended t \<or> \<not> sg_Slept t \<or> \<not> sg_Claimed t \<or> sg_EndedBehind t then None
      else let unit = UnitBytes p False; x = transfer1 (sg_Unit t) False unit;
               coming = scheduled + av_IntervalMS p * Millisecond
           in Some (\<lparr>sa_ScheduledMS = run_ms started (sg_Scheduling t) - (sg_Since t - scheduled) div Millisecond,
                     sa_StartedMS = run_ms started (sg_Starting t), sa_CompletedMS = run_ms started (sg_Recording t),
                     sa_FirstByteMS = ht_firstByteMS x, sa_Bytes = ht_bytes x, sa_Upload = False, sa_Cold = False,
                     sa_Failed = failed_unit x unit\<rparr>,
                    if sg_Completed t > coming then sg_Completed t else coming))"

fun runSegments :: "ActivityProfile \<Rightarrow> time \<Rightarrow> time \<Rightarrow> segment_turn list \<Rightarrow> ActivitySample list" where
  "runSegments p started scheduled [] = []"
| "runSegments p started scheduled (t # ts) =
     (case segment_turn_step p started scheduled t of
        None \<Rightarrow> [] | Some (s, coming) \<Rightarrow> s # runSegments p started coming ts)"

section \<open>Frames and probes\<close>

text \<open>
  Both are paced by an absolute cadence with a bounded number in flight. The state: the next slot,
  the units in flight with their direction and the instant they were due, what has been recorded,
  the units whose end was not recorded, and whether the loop has returned.
\<close>

record paced =
  pa_slot :: int
  pa_pending :: "(bool \<times> int) list"
  pa_records :: "ActivitySample list"
  pa_discarded :: "(bool \<times> int) list"
  pa_stopped :: bool

datatype 'd paced_event = Tick bool duration "bool \<Rightarrow> bool" | Done nat 'd

definition dropped_frame :: "bool \<Rightarrow> int \<Rightarrow> ActivitySample" where
  "dropped_frame upload at_ms = \<lparr>sa_ScheduledMS = at_ms, sa_StartedMS = at_ms, sa_CompletedMS = at_ms, sa_FirstByteMS = 0,
     sa_Bytes = 0, sa_Upload = upload, sa_Cold = False, sa_Failed = True\<rparr>"

definition slot_ms :: "ActivityProfile \<Rightarrow> int \<Rightarrow> int \<Rightarrow> int" where
  "slot_ms p phaseStartMS slot = phaseStartMS + slot * av_IntervalMS p"

definition slot_frames :: "ActivityProfile \<Rightarrow> int \<Rightarrow> bool list \<Rightarrow> int \<Rightarrow> int \<Rightarrow> (bool \<times> int) list" where
  "slot_frames p phaseStartMS directions low high =
     concat (map (\<lambda>slot. map (\<lambda>upload. (upload, slot_ms p phaseStartMS slot)) directions) [low..high - 1])"

definition in_flight :: "bool \<Rightarrow> paced \<Rightarrow> nat" where
  "in_flight upload s = length (filter (\<lambda>(u, _). u = upload) (pa_pending s))"

text \<open>The frames of one slot, one direction after the other, with the outcome of each claim.\<close>

fun start_frames :: "ActivityProfile \<Rightarrow> int \<Rightarrow> (bool \<Rightarrow> bool) \<Rightarrow> bool list \<Rightarrow> paced \<Rightarrow> paced" where
  "start_frames p at_ms claims [] s = s"
| "start_frames p at_ms claims (upload # rest) s =
     (if in_flight upload s \<ge> nat (max (av_InFlight p) 1)
      then start_frames p at_ms claims rest (s\<lparr>pa_records := pa_records s @ [dropped_frame upload at_ms]\<rparr>)
      else if \<not> claims upload then s\<lparr>pa_stopped := True\<rparr>
      else start_frames p at_ms claims rest (s\<lparr>pa_pending := pa_pending s @ [(upload, at_ms)]\<rparr>))"

definition paced_tick :: "ActivityProfile \<Rightarrow> int \<Rightarrow> bool list \<Rightarrow> bool \<Rightarrow> duration \<Rightarrow> (bool \<Rightarrow> bool) \<Rightarrow> paced \<Rightarrow> paced" where
  "paced_tick p phaseStartMS directions ended since claims s =
     (if pa_stopped s then s
      else if ended then s\<lparr>pa_stopped := True\<rparr>
      else let due = since div (av_IntervalMS p * Millisecond);
               missed = map (\<lambda>(upload, t). dropped_frame upload t) (slot_frames p phaseStartMS directions (pa_slot s) due);
               slot = max (pa_slot s) due
           in start_frames p (slot_ms p phaseStartMS slot) claims directions
                (s\<lparr>pa_slot := slot + 1, pa_records := pa_records s @ missed\<rparr>))"

text \<open>The end of a unit in flight: \<open>deliver\<close> is what it records, if it does.\<close>

definition paced_done :: "(bool \<Rightarrow> int \<Rightarrow> 'd \<Rightarrow> ActivitySample option) \<Rightarrow> nat \<Rightarrow> 'd \<Rightarrow> paced \<Rightarrow> paced" where
  "paced_done deliver k d s =
     (if k < length (pa_pending s)
      then case pa_pending s ! k of (upload, at_ms) \<Rightarrow>
        let s' = s\<lparr>pa_pending := take k (pa_pending s) @ drop (Suc k) (pa_pending s)\<rparr>
        in case deliver upload at_ms d of
             Some r \<Rightarrow> s'\<lparr>pa_records := pa_records s' @ [r]\<rparr>
           | None \<Rightarrow> s'\<lparr>pa_discarded := pa_discarded s' @ [(upload, at_ms)]\<rparr>
      else s)"

fun paced_step ::
    "(bool \<Rightarrow> int \<Rightarrow> 'd \<Rightarrow> ActivitySample option) \<Rightarrow> ActivityProfile \<Rightarrow> int \<Rightarrow> bool list \<Rightarrow> paced \<Rightarrow> 'd paced_event \<Rightarrow> paced" where
  "paced_step deliver p phaseStartMS directions s (Tick ended since claims) =
     paced_tick p phaseStartMS directions ended since claims s"
| "paced_step deliver p phaseStartMS directions s (Done k d) = paced_done deliver k d s"

definition paced_start :: paced where
  "paced_start = \<lparr>pa_slot = 0, pa_pending = [], pa_records = [], pa_discarded = [], pa_stopped = False\<rparr>"

record frame_done =
  fd_Starting :: time
  fd_Unit :: unit_env
  fd_EndedBehind :: bool
  fd_Recording :: time

definition frame_delivered :: "ActivityProfile \<Rightarrow> time \<Rightarrow> bool \<Rightarrow> int \<Rightarrow> frame_done \<Rightarrow> ActivitySample option" where
  "frame_delivered p started upload at_ms d =
     (if fd_EndedBehind d then None
      else let unit = UnitBytes p upload; x = transfer1 (fd_Unit d) upload unit
           in Some \<lparr>sa_ScheduledMS = at_ms, sa_StartedMS = run_ms started (fd_Starting d),
                sa_CompletedMS = run_ms started (fd_Recording d), sa_FirstByteMS = ht_firstByteMS x, sa_Bytes = ht_bytes x,
                sa_Upload = upload, sa_Cold = False, sa_Failed = failed_unit x unit\<rparr>)"

definition frame_directions :: "ActivityProfile \<Rightarrow> bool list" where
  "frame_directions p = (if av_UpMbps p > 0 then [False, True] else [False])"

definition runFrames :: "ActivityProfile \<Rightarrow> time \<Rightarrow> bool \<Rightarrow> int \<Rightarrow> frame_done paced_event list \<Rightarrow> paced" where
  "runFrames p started slept phaseStartMS events =
     (if slept then foldl (paced_step (frame_delivered p started) p phaseStartMS (frame_directions p)) paced_start events
      else paced_start)"

record probe_end =
  pd_Starting :: time
  pd_Probe :: probe
  pd_EndedBehind :: bool
  pd_Recording :: time

definition probe_delivered :: "time \<Rightarrow> bool \<Rightarrow> int \<Rightarrow> probe_end \<Rightarrow> ActivitySample option" where
  "probe_delivered started upload at_ms d =
     (case pd_Probe d of (_, ok, exhausted) \<Rightarrow>
        if exhausted \<or> pd_EndedBehind d then None
        else Some \<lparr>sa_ScheduledMS = at_ms, sa_StartedMS = run_ms started (pd_Starting d),
                sa_CompletedMS = run_ms started (pd_Recording d), sa_FirstByteMS = 0, sa_Bytes = 0,
                sa_Upload = upload, sa_Cold = False, sa_Failed = \<not> ok\<rparr>)"

text \<open>A probe claims nothing: it is paid from the response bytes.\<close>

definition free_claims :: "'d paced_event \<Rightarrow> 'd paced_event" where
  "free_claims e = (case e of Tick ended since _ \<Rightarrow> Tick ended since (\<lambda>_. True) | Done k d \<Rightarrow> Done k d)"

definition runProbes :: "ActivityProfile \<Rightarrow> time \<Rightarrow> int \<Rightarrow> probe_end paced_event list \<Rightarrow> paced" where
  "runProbes p started phaseStartMS events =
     foldl (paced_step (probe_delivered started) p phaseStartMS [False]) paced_start (map free_claims events)"

section \<open>Every frame is accounted for\<close>

definition frame_of :: "ActivitySample \<Rightarrow> bool \<times> int" where
  "frame_of r = (sa_Upload r, sa_ScheduledMS r)"

definition accounted :: "paced \<Rightarrow> (bool \<times> int) multiset" where
  "accounted s = mset (map frame_of (pa_records s)) + mset (pa_pending s) + mset (pa_discarded s)"

definition bounded_flight :: "ActivityProfile \<Rightarrow> paced \<Rightarrow> bool" where
  "bounded_flight p s \<longleftrightarrow> (\<forall>upload. in_flight upload s \<le> nat (max (av_InFlight p) 1))"

definition paced_inv :: "ActivityProfile \<Rightarrow> int \<Rightarrow> bool list \<Rightarrow> paced \<Rightarrow> bool" where
  "paced_inv p phaseStartMS directions s \<longleftrightarrow> 0 \<le> pa_slot s \<and> bounded_flight p s
     \<and> (if pa_stopped s then accounted s \<subseteq># mset (slot_frames p phaseStartMS directions 0 (pa_slot s))
        else accounted s = mset (slot_frames p phaseStartMS directions 0 (pa_slot s)))"

lemma accounted_stopped [simp]: "accounted (s\<lparr>pa_stopped := b\<rparr>) = accounted s"
  by (simp add: accounted_def)

lemma frame_of_dropped [simp]: "frame_of (dropped_frame upload t) = (upload, t)"
  by (simp add: frame_of_def dropped_frame_def)

lemma slot_frames_append:
  "a \<le> b \<Longrightarrow> b \<le> c \<Longrightarrow> slot_frames p t ds a c = slot_frames p t ds a b @ slot_frames p t ds b c"
  unfolding slot_frames_def by (cases "b = c") (simp_all add: upto_split1[of a b "c - 1"])

lemma slot_frames_one: "slot_frames p t ds a (a + 1) = map (\<lambda>upload. (upload, slot_ms p t a)) ds"
  by (simp add: slot_frames_def)

lemma slot_frames_none: "b \<le> a \<Longrightarrow> slot_frames p t ds a b = []"
  by (simp add: slot_frames_def)

lemma start_frames_slot [simp]: "pa_slot (start_frames p t claims ds s) = pa_slot s"
  by (induction ds arbitrary: s) simp_all

lemma start_frames_bounded: "bounded_flight p s \<Longrightarrow> bounded_flight p (start_frames p t claims ds s)"
  by (induction ds arbitrary: s) (auto simp: bounded_flight_def in_flight_def)

lemma start_frames_accounted:
  "\<not> pa_stopped s \<Longrightarrow>
     (if pa_stopped (start_frames p t claims ds s)
      then accounted (start_frames p t claims ds s) \<subseteq># accounted s + mset (map (\<lambda>u. (u, t)) ds)
      else accounted (start_frames p t claims ds s) = accounted s + mset (map (\<lambda>u. (u, t)) ds))"
proof (induction ds arbitrary: s)
  case Nil
  then show ?case by simp
next
  case (Cons d ds)
  show ?case
  proof (cases "in_flight d s < nat (max (av_InFlight p) 1) \<and> \<not> claims d")
    case True
    then show ?thesis by (simp add: accounted_def)
  next
    case False
    then obtain s' where s': "start_frames p t claims (d # ds) s = start_frames p t claims ds s'"
      "accounted s' = accounted s + {#(d, t)#}" "\<not> pa_stopped s'"
      using Cons.prems by (cases "in_flight d s < nat (max (av_InFlight p) 1)") (force simp: accounted_def)+
    then show ?thesis using Cons.IH[of s'] by (simp add: s'(1) del: start_frames.simps split: if_splits)
  qed
qed

lemma paced_tick_inv:
  assumes "paced_inv p t ds s"
  shows "paced_inv p t ds (paced_tick p t ds ended since claims s)"
proof (cases "pa_stopped s \<or> ended")
  case True
  then show ?thesis using assms by (auto simp: paced_tick_def paced_inv_def bounded_flight_def in_flight_def split: if_splits)
next
  case False
  define due where "due = since div (av_IntervalMS p * Millisecond)"
  define slot where "slot = max (pa_slot s) due"
  define missed where "missed = slot_frames p t ds (pa_slot s) due"
  define s1 where "s1 = s\<lparr>pa_slot := slot + 1, pa_records := pa_records s @ map (\<lambda>(u, t). dropped_frame u t) missed\<rparr>"
  have s0: "0 \<le> pa_slot s" "bounded_flight p s" "accounted s = mset (slot_frames p t ds 0 (pa_slot s))"
    using assms False by (simp_all add: paced_inv_def)
  have tick: "paced_tick p t ds ended since claims s = start_frames p (slot_ms p t slot) claims ds s1"
    using False by (simp add: paced_tick_def Let_def due_def slot_def missed_def s1_def)
  have "map frame_of (map (\<lambda>(u, t). dropped_frame u t) missed) = missed"
    by (simp add: comp_def case_prod_beta map_idI)
  then have acc: "accounted s1 = accounted s + mset missed" by (simp add: accounted_def s1_def)
  have "missed = slot_frames p t ds (pa_slot s) slot"
    by (auto simp: missed_def slot_def max_def slot_frames_none)
  then have whole: "mset (slot_frames p t ds 0 (slot + 1)) = accounted s1 + mset (map (\<lambda>u. (u, slot_ms p t slot)) ds)"
    using s0 slot_frames_append[of 0 "pa_slot s" slot p t ds] slot_frames_append[of 0 slot "slot + 1" p t ds]
    by (simp add: acc slot_frames_one) (simp add: slot_def max_def)
  have s1: "bounded_flight p s1" "pa_slot s1 = slot + 1" "\<not> pa_stopped s1" "0 \<le> slot"
    using s0(1,2) False by (simp_all add: bounded_flight_def in_flight_def s1_def slot_def)
  then show ?thesis
    using start_frames_accounted[OF s1(3), of p "slot_ms p t slot" claims ds] start_frames_bounded[OF s1(1)]
    unfolding tick paced_inv_def start_frames_slot s1(2) whole by simp
qed

lemma take_drop_nth_mset: "k < length xs \<Longrightarrow> mset (take k xs) + mset (drop (Suc k) xs) + {#xs ! k#} = mset xs"
  by (metis Cons_nth_drop_Suc append_take_drop_id mset.simps(2) mset_append add_mset_add_single union_assoc)

lemma filter_remove_le: "length (filter P (take k xs @ drop (Suc k) xs)) \<le> length (filter P xs)"
proof (cases "k < length xs")
  case True
  show ?thesis by (subst (3) id_take_nth_drop[OF True]) simp
qed simp

text \<open>What a unit records at its end carries its direction and the instant it was due.\<close>

locale delivery =
  fixes deliver :: "bool \<Rightarrow> int \<Rightarrow> 'd \<Rightarrow> ActivitySample option"
  assumes deliver_frame: "deliver upload t d = Some r \<Longrightarrow> frame_of r = (upload, t)"
begin

lemma paced_done_inv:
  assumes "paced_inv p t ds s"
  shows "paced_inv p t ds (paced_done deliver k d s)"
proof (cases "k < length (pa_pending s)")
  case True
  obtain u at_ms where f: "pa_pending s ! k = (u, at_ms)" by fastforce
  define s' where "s' = paced_done deliver k d s"
  have parts: "pa_slot s' = pa_slot s" "pa_stopped s' = pa_stopped s"
    "pa_pending s' = take k (pa_pending s) @ drop (Suc k) (pa_pending s)"
    by (simp_all add: s'_def paced_done_def True f Let_def split: option.split)
  have "accounted s' = accounted s"
    using take_drop_nth_mset[OF True] deliver_frame[of u at_ms d]
    by (cases "deliver u at_ms d") (simp_all add: s'_def paced_done_def True f accounted_def ac_simps Let_def)
  moreover have "bounded_flight p s'"
    using assms filter_remove_le[of _ k "pa_pending s"]
    by (fastforce simp: paced_inv_def bounded_flight_def in_flight_def parts intro: order.trans)
  ultimately show ?thesis using assms parts unfolding s'_def[symmetric] by (simp add: paced_inv_def)
qed (use assms in \<open>simp add: paced_done_def\<close>)

lemma paced_step_inv: "paced_inv p t ds s \<Longrightarrow> paced_inv p t ds (paced_step deliver p t ds s e)"
  by (cases e) (simp_all add: paced_tick_inv paced_done_inv)

lemma paced_run_inv: "paced_inv p t ds s \<Longrightarrow> paced_inv p t ds (foldl (paced_step deliver p t ds) s events)"
  by (induction events arbitrary: s) (simp_all add: paced_step_inv)

end

interpretation frames: delivery "frame_delivered p started"
  by unfold_locales (auto simp: frame_delivered_def frame_of_def Let_def split: if_splits)

interpretation probes: delivery "probe_delivered started"
  by unfold_locales (auto simp: probe_delivered_def frame_of_def split: if_splits prod.splits)

lemma paced_start_inv: "paced_inv p t ds paced_start"
  by (simp add: paced_inv_def paced_start_def accounted_def bounded_flight_def in_flight_def slot_frames_def)


section \<open>Bursts\<close>

record burst_object =
  bj_Ended :: bool
  bj_Claimed :: bool
  bj_Starting :: time
  bj_Unit :: unit_env
  bj_EndedBehind :: bool
  bj_Recording :: time

record burst_turn =
  bu_Cold :: burst_object
  bu_Warm :: "burst_object list"
  bu_Ended :: bool

text \<open>One object of a burst, or \<open>None\<close> when the loop returns at it.\<close>

definition burst_sample :: "time \<Rightarrow> bool \<Rightarrow> u64 \<Rightarrow> burst_object \<Rightarrow> ActivitySample option" where
  "burst_sample started cold amount obj =
     (if \<not> bj_Claimed obj \<or> bj_EndedBehind obj then None
      else let x = transfer1 (bj_Unit obj) False amount; at_ms = run_ms started (bj_Starting obj)
           in Some \<lparr>sa_ScheduledMS = at_ms, sa_StartedMS = at_ms, sa_CompletedMS = run_ms started (bj_Recording obj),
                sa_FirstByteMS = ht_firstByteMS x, sa_Bytes = ht_bytes x, sa_Upload = False, sa_Cold = cold,
                sa_Failed = (ht_err x \<noteq> None)\<rparr>)"

text \<open>The warmed objects: what they record, and whether the loop has returned.\<close>

fun warm_objects :: "time \<Rightarrow> u64 \<Rightarrow> nat \<Rightarrow> burst_object list \<Rightarrow> ActivitySample list \<times> bool" where
  "warm_objects started amount 0 objs = ([], False)"
| "warm_objects started amount (Suc n) [] = ([], False)"
| "warm_objects started amount (Suc n) (obj # objs) =
     (if bj_Ended obj then ([], False)
      else case burst_sample started False amount obj of
        None \<Rightarrow> ([], True)
      | Some s \<Rightarrow> (case warm_objects started amount n objs of (ss, returned) \<Rightarrow> (s # ss, returned)))"

fun runBursts :: "ActivityProfile \<Rightarrow> time \<Rightarrow> burst_turn list \<Rightarrow> ActivitySample list" where
  "runBursts p started [] = []"
| "runBursts p started (t # ts) =
     (if bj_Ended (bu_Cold t) then []
      else case burst_sample started True (av_ColdBytes p) (bu_Cold t) of
        None \<Rightarrow> []
      | Some s \<Rightarrow>
          (case warm_objects started (av_WarmBytes p) (nat (av_WarmObjects p)) (bu_Warm t) of
             (ss, returned) \<Rightarrow> s # ss @ (if returned \<or> bu_Ended t then [] else runBursts p started ts)))"

section \<open>Instances\<close>

record instance_env =
  in_Segments :: "segment_turn list"
  in_Slept :: bool
  in_PhaseStartMS :: int
  in_Frames :: "frame_done paced_event list"
  in_Probes :: "probe_end paced_event list"
  in_Bursts :: "burst_turn list"

definition runInstance :: "ActivityProfile \<Rightarrow> time \<Rightarrow> time \<Rightarrow> instance_env \<Rightarrow> ActivitySample list" where
  "runInstance p started phaseStart ie =
     (let records =
        (if av_Pattern p = PatternSegments then runSegments p started phaseStart (in_Segments ie)
         else if av_Pattern p = PatternFrames
         then pa_records (runFrames p started (in_Slept ie) (in_PhaseStartMS ie) (in_Frames ie))
         else if av_Pattern p = PatternProbes
         then pa_records (runProbes p started (in_PhaseStartMS ie) (in_Probes ie))
         else if av_Pattern p = PatternBursts then runBursts p started (in_Bursts ie)
         else [])
      in foldl record_unit [] records)"

definition aggregateThroughput :: "u64 \<Rightarrow> real \<Rightarrow> ThroughputResult" where
  "aggregateThroughput bytes seconds =
     (let r = zero_throughput\<lparr>tr_BytesTransferred := bytes, tr_DurationMS := seconds * 1000\<rparr>;
          rate = round_places (real (unat bytes) * 8 / seconds / 10 ^ 6) 3
      in if seconds > 0 then r\<lparr>tr_ThroughputMbps := rate, tr_P75Mbps := rate\<rparr> else r)"

text \<open>The counters of the two directions: when each started, what moved when, and when it was read.\<close>

record counters_env =
  ce_DownStarted :: time
  ce_Down :: "(time \<times> int) list"
  ce_DownSnapshot :: time
  ce_UpStarted :: time
  ce_Up :: "(time \<times> int) list"
  ce_UpSnapshot :: time

definition counted_buckets :: "int \<Rightarrow> counters_env \<Rightarrow> Bucket list" where
  "counted_buckets streams ce =
     (let add_all = foldl (\<lambda>c (t, n). counter_add t n c)
      in combineBuckets
           (counter_snapshot True (ce_DownSnapshot ce) (add_all (newPhaseCounter (ce_DownStarted ce) streams) (ce_Down ce)))
           (counter_snapshot True (ce_UpSnapshot ce) (add_all (newPhaseCounter (ce_UpStarted ce) streams) (ce_Up ce))) streams)"

definition run_phaseEvidence :: "string \<Rightarrow> int \<Rightarrow> int \<Rightarrow> Bucket list \<Rightarrow> PhaseEvidence" where
  "run_phaseEvidence reason start_ms end_ms buckets =
     (let e = (no_evidence reason 0 0)\<lparr>pe_Buckets := buckets\<rparr>
      in if buckets = [] then e
         else e\<lparr>pe_StartMS := start_ms - bk_StartMS (List.last buckets) - bk_DurationMS (List.last buckets), pe_EndMS := end_ms\<rparr>)"

section \<open>The household test\<close>

record reference_env =
  re_Instance :: instance_env
  re_PhaseStart :: time
  re_StartMS :: int
  re_EndMS :: int
  re_Counters :: counters_env
  re_EvidenceStartMS :: int
  re_EvidenceEndMS :: int

text \<open>
  What a household run meets beyond a \<open>run_env\<close>. \<open>hv_Claims\<close> are the steps of its goroutines at the
  ledger; each number of \<open>hv_Watched\<close> is how many of them had happened at a tick of the watch loop.
\<close>

record house_env =
  hv_Run :: run_env
  hv_Mix :: HouseholdMix
  hv_MixSource :: string
  hv_PlannedAt :: time
  hv_EndedBeforeReference :: bool
  hv_Reference :: reference_env
  hv_EndedBefore :: bool
  hv_CancelledBefore :: bool
  hv_PhaseStart :: time
  hv_PhaseMS :: int
  hv_PhaseEndMS :: int
  hv_LoadedTurns :: "probe_turn list"
  hv_Instances :: "nat \<Rightarrow> instance_env"
  hv_Counters :: counters_env
  hv_Goroutines :: nat
  hv_Claims :: "ledger_event list"
  hv_Watched :: "nat list"
  hv_Cancelled :: bool
  hv_RunEnded :: bool

definition house_cap :: "SpeedProfileConfig \<Rightarrow> u64" where
  "house_cap profile = pc_MaxDownloadBytes profile + pc_MaxUploadBytes profile"

text \<open>The ledger behind the reserve for probes, and that reserve.\<close>

definition house_ledger :: "SpeedProfileConfig \<Rightarrow> householdLedger \<times> u64" where
  "house_ledger profile =
     (let probeReserve = min (2 ^ 20) (house_cap profile div 100)
      in case claim_unit probeReserve (newHouseholdLedger (house_cap profile)) of
           (l, claimed) \<Rightarrow> (l, if claimed then probeReserve else 0))"

definition ledger_after :: "house_env \<Rightarrow> SpeedProfileConfig \<Rightarrow> nat \<Rightarrow> householdLedger" where
  "ledger_after hv profile k =
     lr_ledger (foldl ledger_step (start_claims (hv_Goroutines hv) (fst (house_ledger profile))) (take k (hv_Claims hv)))"

definition final_ledger :: "house_env \<Rightarrow> SpeedProfileConfig \<Rightarrow> householdLedger" where
  "final_ledger hv profile = ledger_after hv profile (length (hv_Claims hv))"

definition saw_exhausted :: "house_env \<Rightarrow> SpeedProfileConfig \<Rightarrow> bool" where
  "saw_exhausted hv profile = list_ex (\<lambda>k. lg_exhausted (ledger_after hv profile k)) (hv_Watched hv)"

definition probe_bytes :: "house_env \<Rightarrow> SpeedProfileConfig \<Rightarrow> u64" where
  "probe_bytes hv profile =
     rb_used (foldl drain_step (newResponseBudget (snd (house_ledger profile))) (rv_Drains (hv_Run hv)))"

definition go_milliseconds :: "duration \<Rightarrow> int" where
  "go_milliseconds d = (if d < 0 then - ((- d) div Millisecond) else d div Millisecond)"

definition house_plan :: "house_env \<Rightarrow> SpeedProfileConfig \<Rightarrow> HouseholdPlan" where
  "house_plan hv profile =
     PlanHousehold (NormalizeHouseholdMix (hv_Mix hv)) (house_cap profile)
       (go_milliseconds (rv_Now (hv_Run hv) + pc_MaxDurationSeconds profile * Second - hv_PlannedAt hv - 1500 * Millisecond))"

definition runReference :: "house_env \<Rightarrow> ActivityProfile \<Rightarrow> HouseholdActivity" where
  "runReference hv p =
     (let re = hv_Reference hv
      in SummarizeActivity p 1 (runInstance p (rv_Now (hv_Run hv)) (re_PhaseStart re) (re_Instance re))
           (re_StartMS re + av_IntervalMS p) (re_EndMS re))"

definition house_reference :: "house_env \<Rightarrow> SpeedProfileConfig \<Rightarrow> HouseholdActivity option" where
  "house_reference hv profile =
     (if pl_Reference (house_plan hv profile) \<and> \<not> hv_EndedBeforeReference hv
      then map_option (runReference hv) (ReferenceActivity (NormalizeHouseholdMix (hv_Mix hv)))
      else None)"

text \<open>The activities with their numbers and samples; none when the run has ended before them.\<close>

definition house_samples :: "house_env \<Rightarrow> (ActivityProfile \<times> nat \<times> ActivitySample list) list" where
  "house_samples hv =
     (let acts = Activities (NormalizeHouseholdMix (hv_Mix hv))
      in if hv_EndedBefore hv then []
         else map (\<lambda>(i, p, offset). (p, i + 1, runInstance p (rv_Now (hv_Run hv)) (hv_PhaseStart hv + offset * Millisecond)
                (hv_Instances hv i)))
                (zip [0..<length acts] (zip acts (StaggerOffsets acts))))"

definition window_bounds :: "house_env \<Rightarrow> HouseholdPlan \<Rightarrow> int \<times> int" where
  "window_bounds hv plan =
     (if hv_EndedBefore hv then (0, 0)
      else (hv_PhaseMS hv + pl_WarmupMS plan,
            min (hv_PhaseEndMS hv) (hv_PhaseMS hv + pl_WarmupMS plan + pl_ObserveMS plan)))"

definition stop_reason :: "house_env \<Rightarrow> SpeedProfileConfig \<Rightarrow> string" where
  "stop_reason hv profile =
     (if hv_EndedBefore hv then if hv_CancelledBefore hv then StopCancelled else StopInsufficientTime
      else if saw_exhausted hv profile then StopInsufficientBytes
      else if hv_Cancelled hv then StopCancelled
      else if hv_RunEnded hv then StopInsufficientTime
      else if \<not> pl_Sufficient (house_plan hv profile) then pl_Reason (house_plan hv profile)
      else StopEnoughEvidence)"

definition delivered_samples :: "int \<Rightarrow> int \<Rightarrow> (ActivityProfile \<times> nat \<times> ActivitySample list) list \<Rightarrow> ActivitySample list" where
  "delivered_samples low high activities =
     filter (\<lambda>s. \<not> (sa_Failed s \<or> sa_ScheduledMS s < low \<or> sa_ScheduledMS s \<ge> high)) (concat (map (snd \<circ> snd) activities))"

definition bytes_of :: "bool \<Rightarrow> ActivitySample list \<Rightarrow> u64" where
  "bytes_of upload samples = sum_list (map sa_Bytes (filter (\<lambda>s. sa_Upload s = upload) samples))"

text \<open>The format \<open>%.0f\<close>: the nearest integer, halves to even.\<close>

definition half_even :: "real \<Rightarrow> int" where
  "half_even x =
     (if x - of_int \<lfloor>x\<rfloor> < 1 / 2 \<or> (x - of_int \<lfloor>x\<rfloor> = 1 / 2 \<and> even \<lfloor>x\<rfloor>) then \<lfloor>x\<rfloor> else \<lfloor>x\<rfloor> + 1)"

definition idle_spikes :: "string \<Rightarrow> LatencySummary \<Rightarrow> string" where
  "idle_spikes status baseline =
     (if status \<noteq> HouseholdStatusPass \<and> status \<noteq> HouseholdStatusInsufficient
         \<and> uint (ls_Count baseline) \<ge> MinimumBaselineSamples \<and> ls_P95MS baseline - ls_P50MS baseline > 100
      then '' Your connection already shows latency spikes when idle (p95 '' @ itoa (half_even (ls_P95MS baseline))
        @ '' ms against a typical '' @ itoa (half_even (ls_P50MS baseline))
        @ '' ms), usually a Wi-Fi symptom; the mix did not create them.''
      else '''')"

definition house_baseline :: "house_env \<Rightarrow> LatencySummary \<times> pathSamples" where
  "house_baseline hv = collectBaselineLatency (rv_BaselineFirst (hv_Run hv)) (rv_BaselineTurns (hv_Run hv))"

definition house_loaded :: "house_env \<Rightarrow> LatencySummary \<times> pathSamples" where
  "house_loaded hv = (if hv_EndedBefore hv then (zero_summary, no_paths) else collectLoadedLatency (hv_LoadedTurns hv))"

definition house_cooldown :: "house_env \<Rightarrow> LatencySummary \<times> pathSamples" where
  "house_cooldown hv = collectFixedLatency 6 (rv_CooldownTurns (hv_Run hv))"

definition house_stop :: "house_env \<Rightarrow> SpeedProfileConfig \<Rightarrow> string" where
  "house_stop hv profile =
     (let (low, high) = window_bounds hv (house_plan hv profile)
      in if delivered_samples low high (house_samples hv) = [] \<and> ls_Count (fst (house_baseline hv)) = 0
         then StopTransportFailure else stop_reason hv profile)"

definition house_window :: "house_env \<Rightarrow> HouseholdPlan \<Rightarrow> HouseholdWindow" where
  "house_window hv plan =
     (let (low, high) = window_bounds hv plan in
      \<lparr>hw_StartMS = (if hv_EndedBefore hv then 0 else hv_PhaseMS hv),
       hw_EndMS = (if hv_EndedBefore hv then 0 else hv_PhaseEndMS hv),
       hw_WarmupMS = pl_WarmupMS plan, hw_ObservedMS = max (high - low) 0, hw_PlannedMS = pl_ObserveMS plan\<rparr>)"

definition house_bytes :: "house_env \<Rightarrow> SpeedProfileConfig \<Rightarrow> HouseholdLedger" where
  "house_bytes hv profile =
     (let l = final_ledger hv profile; probes = probe_bytes hv profile in
      \<lparr>hl_CapBytes = house_cap profile, hl_PlannedBytes = pl_PlannedBytes (house_plan hv profile),
       hl_UsedBytes = lg_download l + lg_upload l + probes,
       hl_DownloadBytes = lg_download l, hl_UploadBytes = lg_upload l, hl_ProbeBytes = probes\<rparr>)"

definition house_activities :: "house_env \<Rightarrow> HouseholdPlan \<Rightarrow> HouseholdActivity list" where
  "house_activities hv plan =
     (let (low, high) = window_bounds hv plan
      in map (\<lambda>(p, number, samples). SummarizeActivity p (int number) samples low high) (house_samples hv))"

definition house_verdict :: "house_env \<Rightarrow> SpeedProfileConfig \<Rightarrow> HouseholdResult" where
  "house_verdict hv profile =
     (let mix = NormalizeHouseholdMix (hv_Mix hv);
          r = SummarizeHousehold \<lparr>hr_ScenarioVersion = 0, hr_ScorerVersion = 0, hr_Transport = ''https'', hr_Mix = mix,
                hr_MixSource = defaultString (hv_MixSource hv) ''default'', hr_MixRevision = '''', hr_Status = '''',
                hr_Weakest = '''', hr_WeakestScore = 0, hr_Summary = '''', hr_Window = house_window hv (house_plan hv profile),
                hr_Ledger = house_bytes hv profile, hr_StopReason = house_stop hv profile,
                hr_Reference = house_reference hv profile, hr_Activities = house_activities hv (house_plan hv profile)\<rparr>
      in r\<lparr>hr_Summary := hr_Summary r @ idle_spikes (hr_Status r) (fst (house_baseline hv))\<rparr>)"

definition house_responsiveness :: "house_env \<Rightarrow> SpeedProfileConfig \<Rightarrow> Responsiveness" where
  "house_responsiveness hv profile =
     (let baseline = fst (house_baseline hv); loaded = fst (house_loaded hv); bytes = house_bytes hv profile;
          r = zero_responsiveness\<lparr>rs_Baseline := baseline, rs_Cooldown := Some (fst (house_cooldown hv)),
                rs_Profile := ProfileHousehold, rs_TotalDownloadBytes := hl_DownloadBytes bytes + hl_ProbeBytes bytes,
                rs_TotalUploadBytes := hl_UploadBytes bytes\<rparr>;
          (delay, grade) = bloat baseline loaded
      in if ls_Attempts loaded > 0
         then r\<lparr>rs_BidirectionalLoaded := Some loaded, rs_BidirectionalBloatP90MS := delay, rs_BidirectionalGrade := grade,
                rs_OverallGrade := grade, rs_PrimaryDriver := ''household''\<rparr>
         else r)"

definition house_phases :: "house_env \<Rightarrow> SpeedProfileConfig \<Rightarrow> (string \<times> PhaseEvidence) list" where
  "house_phases hv profile =
     (let plan = house_plan hv profile; ms = rv_ElapsedMS (hv_Run hv); re = hv_Reference hv;
          number = int (length (Activities (NormalizeHouseholdMix (hv_Mix hv)))) in
      [(''baseline'', latencyEvidence (ms ''baseline_start'') (ms ''baseline_end'') ''latency_only_phase'')]
      @ (if house_reference hv profile = None then []
         else [(''reference'', run_phaseEvidence ''paced_scenario'' (re_EvidenceStartMS re) (re_EvidenceEndMS re)
                 (counted_buckets 1 (re_Counters re)))])
      @ (if hv_EndedBefore hv then []
         else [(''household'', \<lparr>pe_MinDurationMS = pl_WarmupMS plan + HouseholdMinObserveMS,
                 pe_MaxDurationMS = pl_WarmupMS plan + pl_ObserveMS plan, pe_StartMS = hv_PhaseMS hv,
                 pe_EndMS = hv_PhaseEndMS hv, pe_Buckets = counted_buckets number (hv_Counters hv),
                 pe_StableRegion = empty_region\<lparr>sr_Reason := ''paced_scenario''\<rparr>\<rparr>)])
      @ [(''cooldown'', latencyEvidence (ms ''cooldown_start'') (ms ''cooldown_end'') ''latency_only_phase'')])"

definition house_paths :: "house_env \<Rightarrow> pathSamples" where
  "house_paths hv = merge_paths (merge_paths (snd (house_baseline hv)) (snd (house_loaded hv))) (snd (house_cooldown hv))"

definition house_confidence :: "house_env \<Rightarrow> SpeedProfileConfig \<Rightarrow> TrafficContext \<Rightarrow> Confidence" where
  "house_confidence hv profile traffic =
     (let plan = house_plan hv profile;
          c = HouseholdConfidence \<lparr>hc_BaselineSamples = uint (ls_Count (fst (house_baseline hv))),
                hc_LoadedSamples = uint (ls_Count (fst (house_loaded hv))), hc_ProbeSuccessRatio = successRatio (house_paths hv),
                hc_FreshPathSuccessRatio = freshSuccessRatio (house_paths hv),
                hc_ObservedMS = hw_ObservedMS (house_window hv plan), hc_PlannedMS = pl_ObserveMS plan,
                hc_StopReason = house_stop hv profile,
                hc_UnavailableActivities = int (length (filter (\<lambda>a. \<not> ha_Available a) (house_activities hv plan)))\<rparr>
      in if tc_Contaminated traffic
         then c\<lparr>cf_Level := lowerConfidence (cf_Level c) ''medium'', cf_Reasons := cf_Reasons c @ [''cross_traffic_detected'']\<rparr>
         else c)"

definition house_test :: "house_env \<Rightarrow> SpeedProfileConfig \<Rightarrow> TrafficContext \<Rightarrow> SpeedTest" where
  "house_test hv profile traffic =
     (let rv = hv_Run hv; plan = house_plan hv profile; c = house_confidence hv profile traffic;
          r = house_responsiveness hv profile; verdict = house_verdict hv profile;
          host = endpointHost (rv_ParseURL rv) (defaultString (rv_DownloadURL rv) DefaultDownloadURL);
          (low, high) = window_bounds hv plan; delivered = delivered_samples low high (house_samples hv);
          seconds = real_of_int (hw_ObservedMS (house_window hv plan)) / 1000
      in zero_test\<lparr>st_MeasurementID := measurementID (rv_Random rv) (rv_Now rv), st_Profile := pc_Name profile,
           st_Timestamp := Unix (rv_Now rv), st_EndpointHost := host, st_TrafficContext := traffic,
           st_ExperienceEligible := pc_CountsTowardExperience profile,
           st_Budget := \<lparr>bg_RequestedDownloadBytes = pc_MaxDownloadBytes profile, bg_RequestedUploadBytes = pc_MaxUploadBytes profile,
             bg_EffectiveDownloadBytes = pc_MaxDownloadBytes profile, bg_EffectiveUploadBytes = pc_MaxUploadBytes profile,
             bg_MaxDurationSeconds = pc_MaxDurationSeconds profile, bg_MaxConcurrentRequests = pc_MaxConcurrentRequests profile,
             bg_PredictedBytes = pl_PlannedBytes plan + snd (house_ledger profile),
             bg_UsedBytes = hl_UsedBytes (house_bytes hv profile), bg_CapHit = lg_exhausted (final_ledger hv profile)\<rparr>,
           st_Latency := compatibilityLatency (fst (house_baseline hv)) host,
           st_Download := aggregateThroughput (bytes_of False delivered) seconds,
           st_Upload := aggregateThroughput (bytes_of True delivered) seconds,
           st_Phases := house_phases hv profile,
           st_Responsiveness := r\<lparr>rs_ConfidenceLevel := cf_Level c, rs_ConfidenceReasons := cf_Reasons c\<rparr>,
           st_Household := Some verdict, st_Experience := HouseholdExperience verdict,
           st_Paths := paths_summary (house_paths hv), st_MeasurementConfidence := c,
           st_DurationMS := real_of_int (rv_DurationMS rv)\<rparr>)"

definition runHousehold :: "house_env \<Rightarrow> SpeedProfileConfig \<Rightarrow> TrafficContext \<Rightarrow> SpeedTest \<times> string option" where
  "runHousehold hv profile traffic =
     (let rv = hv_Run hv in
      if pc_MaxDownloadBytes profile < 512 * 2 ^ 10 \<or> pc_MaxUploadBytes profile < 256 * 2 ^ 10
      then (zero_test, Some ''household test byte budget is too small'')
      else if pc_MaxDurationSeconds profile < 8 \<or> pc_MaxDurationSeconds profile > 120
      then (zero_test, Some ''household test duration is outside local bounds'')
      else case validateEndpoint (rv_ParseURL rv) (rv_OwnClient rv) (defaultString (rv_DownloadURL rv) DefaultDownloadURL) of
        Some e \<Rightarrow> (zero_test, Some (''download endpoint: '' @ e))
      | None \<Rightarrow>
          (case validateEndpoint (rv_ParseURL rv) (rv_OwnClient rv) (defaultString (rv_UploadURL rv) DefaultUploadURL) of
             Some e \<Rightarrow> (zero_test, Some (''upload endpoint: '' @ e))
           | None \<Rightarrow>
               (house_test hv profile traffic,
                case rv_Aborted rv of
                  Some e \<Rightarrow> Some (''household test aborted: '' @ e)
                | None \<Rightarrow>
                    if house_stop hv profile = StopTransportFailure
                    then Some ''household test could not reach the measurement endpoint'' else None)))"

text \<open>The runner with this engine for its household profile.\<close>

definition runner_test :: "house_env \<Rightarrow> SpeedProfileConfig \<Rightarrow> TrafficContext \<Rightarrow> SpeedTest \<times> string option" where
  "runner_test hv = Run (\<lambda>rv. runHousehold (hv\<lparr>hv_Run := rv\<rparr>)) (hv_Run hv)"

section \<open>Bytes and verdicts\<close>

lemma SummarizeHousehold_fields [simp]:
  "hr_Ledger (SummarizeHousehold r) = hr_Ledger r" "hr_StopReason (SummarizeHousehold r) = hr_StopReason r"
  "hr_Window (SummarizeHousehold r) = hr_Window r" "hr_Activities (SummarizeHousehold r) = hr_Activities r"
  "hr_Status (SummarizeHousehold r) = household_status r (weakest_activity (hr_Activities r))"
  by (simp_all add: SummarizeHousehold_def Let_def split: option.split)

lemma claim_unit_total:
  "claim_unit amount l = (l', claimed) \<Longrightarrow> ledger_total l' + (if claimed then unat amount else 0) = ledger_total l"
  by (auto simp: claim_unit_def ledger_total_def unat_sub not_less word_le_nat_alt split: if_splits)

lemma house_ledger_total:
  "ledger_total (fst (house_ledger profile)) + unat (snd (house_ledger profile))
     = unat (go_uint64 (real (unat (house_cap profile)) * (1 - HouseholdOverheadReserve)))"
proof -
  define r where "r = min (2 ^ 20) (house_cap profile div 100)"
  obtain l claimed where c: "claim_unit r (newHouseholdLedger (house_cap profile)) = (l, claimed)" by fastforce
  have "house_ledger profile = (l, if claimed then r else 0)"
    unfolding house_ledger_def Let_def r_def[symmetric] c by simp
  then have "ledger_total (fst (house_ledger profile)) + unat (snd (house_ledger profile)) = ledger_total (newHouseholdLedger (house_cap profile))"
    using claim_unit_total[OF c] by (simp split: if_splits)
  then show ?thesis by (simp add: ledger_total_def newHouseholdLedger_def)
qed

lemma house_bytes_within:
  "unat (hl_DownloadBytes (house_bytes hv profile)) + unat (hl_UploadBytes (house_bytes hv profile))
     + unat (hl_ProbeBytes (house_bytes hv profile)) \<le> unat (go_uint64 (real (unat (house_cap profile)) * (1 - HouseholdOverheadReserve)))"
proof -
  let ?l = "fst (house_ledger profile)" and ?u = "unat (go_uint64 (real (unat (house_cap profile)) * (1 - HouseholdOverheadReserve)))"
  have u: "ledger_total ?l + unat (snd (house_ledger profile)) = ?u" by (rule house_ledger_total)
  have "?u < 2 ^ 64" by (rule unat_u64_less)
  then have "ledger_total ?l < 2 ^ 64" using u by linarith
  from claims_within[OF this, of "hv_Goroutines hv" "hv_Claims hv"]
  have claims: "unat (lg_download (final_ledger hv profile)) + unat (lg_upload (final_ledger hv profile)) \<le> ledger_total ?l"
    by (simp add: final_ledger_def ledger_after_def ledger_total_def)
  have "unat (probe_bytes hv profile) \<le> unat (snd (house_ledger profile))"
    using drains_used unfolding probe_bytes_def word_le_nat_alt .
  then show ?thesis using claims u by (simp add: house_bytes_def Let_def)
qed

lemma house_verdict_fields:
  "hr_Ledger (house_verdict hv profile) = house_bytes hv profile" "st_Household (house_test hv profile traffic) = Some (house_verdict hv profile)"
  "st_Household zero_test = None"
  by (simp_all add: house_verdict_def house_test_def zero_test_def Let_def split: prod.split)

lemma house_test_totals:
  "bg_UsedBytes (st_Budget (house_test hv profile traffic)) = hl_UsedBytes (house_bytes hv profile)"
  "rs_TotalDownloadBytes (st_Responsiveness (house_test hv profile traffic))
     = hl_DownloadBytes (house_bytes hv profile) + hl_ProbeBytes (house_bytes hv profile)"
  "rs_TotalUploadBytes (st_Responsiveness (house_test hv profile traffic)) = hl_UploadBytes (house_bytes hv profile)"
  by (simp_all add: house_test_def house_responsiveness_def Let_def split: prod.split)

lemma runHousehold_cases:
  obtains "fst (runHousehold hv profile traffic) = zero_test"
  | "fst (runHousehold hv profile traffic) = house_test hv profile traffic"
  by (cases "fst (runHousehold hv profile traffic) = zero_test")
    (auto simp: runHousehold_def Let_def split: if_splits option.splits)

text \<open>
  (C12) A household test keeps its overhead reserve. However its activities claim, move and give back
  their units, and whatever the probes read, the bytes it reports are the exact sum of the download,
  the upload and the probes, without a wrap-around, and never more than nine tenths of the two
  directions' allowance together; the budget and the totals charge the same bytes.
\<close>

theorem runHousehold_within_ledger:
  shows "let t = fst (runHousehold hv profile traffic) in
     case st_Household t of
       None \<Rightarrow> t = zero_test
     | Some h \<Rightarrow>
         let b = hr_Ledger h in
         unat (hl_UsedBytes b) = unat (hl_DownloadBytes b) + unat (hl_UploadBytes b) + unat (hl_ProbeBytes b)
         \<and> unat (hl_UsedBytes b) * 10 \<le> unat (pc_MaxDownloadBytes profile + pc_MaxUploadBytes profile) * 9
         \<and> bg_UsedBytes (st_Budget t) = hl_UsedBytes b
         \<and> unat (rs_TotalDownloadBytes (st_Responsiveness t)) + unat (rs_TotalUploadBytes (st_Responsiveness t)) = unat (hl_UsedBytes b)"
proof (cases rule: runHousehold_cases[of hv profile traffic])
  case 1
  then show ?thesis by (simp add: house_verdict_fields(3))
next
  case 2
  let ?b = "house_bytes hv profile"
  let ?u = "unat (go_uint64 (real (unat (house_cap profile)) * (1 - HouseholdOverheadReserve)))"
  have below: "unat (hl_DownloadBytes ?b) + unat (hl_UploadBytes ?b) + unat (hl_ProbeBytes ?b) \<le> ?u"
    by (rule house_bytes_within)
  have "?u < 2 ^ 64" by (rule unat_u64_less)
  then have sums: "unat (hl_DownloadBytes ?b + hl_UploadBytes ?b + hl_ProbeBytes ?b)
      = unat (hl_DownloadBytes ?b) + unat (hl_UploadBytes ?b) + unat (hl_ProbeBytes ?b)"
    "unat (hl_DownloadBytes ?b + hl_ProbeBytes ?b) = unat (hl_DownloadBytes ?b) + unat (hl_ProbeBytes ?b)"
    using below by (simp_all add: unat_add_u64)
  have used: "hl_UsedBytes ?b = hl_DownloadBytes ?b + hl_UploadBytes ?b + hl_ProbeBytes ?b"
    by (simp add: house_bytes_def Let_def)
  have "?u * 10 \<le> unat (house_cap profile) * 9" by (rule usable_within)
  then show ?thesis using below
    by (simp add: 2 house_verdict_fields house_test_totals used sums flip: house_cap_def)
qed

lemma plan_fits_sufficient: "plan_fits acts usable available plan = (plan', ok) \<Longrightarrow> pl_Sufficient plan' = pl_Sufficient plan"
  by (auto simp: plan_fits_def Let_def)

lemma shrink_sufficient:
  "shrink_window acts usable available plan = (plan', ok) \<Longrightarrow> pl_Sufficient plan' = pl_Sufficient plan"
proof (induction acts usable available plan rule: shrink_window.induct)
  case (1 acts usable available plan)
  obtain p ok' where p: "plan_fits acts usable available (plan\<lparr>pl_ObserveMS := pl_ObserveMS plan - 1000\<rparr>) = (p, ok')" by fastforce
  show ?case
    using "1.prems" "1.IH"[OF _ p[symmetric] refl] plan_fits_sufficient[OF p]
    by (auto simp: shrink_window.simps[of acts usable available plan] p split: if_splits)
qed

lemma PlanHousehold_reason: "pl_Sufficient (PlanHousehold mix cap available) \<or> pl_Reason (PlanHousehold mix cap available) \<noteq> StopEnoughEvidence"
proof -
  have start: "pl_Sufficient (initial_plan mix)" by (simp add: initial_plan_def Let_def split: option.split)
  show ?thesis
    by (auto simp: PlanHousehold_def Let_def start split: prod.splits dest!: plan_fits_sufficient shrink_sufficient)
qed

lemma stop_enough:
  "stop_reason hv profile = StopEnoughEvidence
     \<Longrightarrow> \<not> hv_EndedBefore hv \<and> \<not> hv_Cancelled hv \<and> \<not> hv_RunEnded hv \<and> \<not> saw_exhausted hv profile \<and> pl_Sufficient (house_plan hv profile)"
  using PlanHousehold_reason by (auto simp: stop_reason_def house_plan_def split: if_splits)


text \<open>
  An upload the endpoint answers with an error is reported to have moved nothing, so the ledger gives
  its whole unit back although the body was sent: what such uploads cost is not charged.
\<close>

lemma rejected_upload_uncounted:
  assumes "tx_RequestError (un_Transfer un) = None" "tx_DoError (un_Transfer un) = None" "tx_Status (un_Transfer un) = 500"
    "tx_Buffers (un_Transfer un) = [1000]"
  shows "transferred 1000 (snd (body_reads (tx_Buffers (un_Transfer un)) 1000)) = 1000" "ht_bytes (transfer1 un True 1000) = 0"
    "settle_unit 1000 (ht_bytes (transfer1 un True 1000)) True l = l\<lparr>lg_remaining := lg_remaining l + 1000\<rparr>"
  using assms by (simp_all add: transfer1_def Let_def settle_unit_def refund_unit_def count_unit_def body_read_def transferred_def)

end
