(* ===== verification/End_To_End.thy ===== *)
theory End_To_End
  imports Service Household_Run
begin

text \<open>
  A speed test from the service down to the transfers: the service reserves an allowance
  (\<open>Service\<close>), \<open>RunTest\<close> splits it between the directions (\<open>Measurement\<close>) and the native runner
  (\<open>Quality_Runner\<close>, \<open>Household_Run\<close>) moves the bytes.
\<close>

text \<open>The options \<open>RunTest\<close> gives the native runner: no client and no endpoints of its own.\<close>

definition engine :: "house_env \<Rightarrow> SpeedProfileConfig \<Rightarrow> TrafficContext \<Rightarrow> HouseholdMix \<Rightarrow> string \<Rightarrow> SpeedTest \<times> string option" where
  "engine hv profile traffic mix source =
     runner_test (hv\<lparr>hv_Mix := mix, hv_MixSource := source,
       hv_Run := (hv_Run hv)\<lparr>rv_OwnClient := False, rv_DownloadURL := '''', rv_UploadURL := ''''\<rparr>\<rparr>) profile traffic"

lemma prepared_job:
  assumes "prepareSpeedTest env trigger name s = (s1, Inr job)"
  defines "envelope \<equiv> pc_MaxDownloadBytes (sj_profile job) + pc_MaxUploadBytes (sj_profile job)"
  shows "sj_reservation job = min envelope (sj_runBytes job)"
  using assms by (auto simp: prepareSpeedTest_def admitSpeedTest_def Let_def split: if_splits option.splits prod.splits)

lemma zero_test_bytes [simp]: "speedTestBytes (native_result b zero_test) = 0"
  by (simp add: speedTestBytes_def Let_def)
    (simp add: zero_test_def zero_throughput_def zero_responsiveness_def zero_budget_def)

lemma scheduled_job:
  assumes "prepareSpeedTest env triggerScheduled name s = (s1, Inr job)"
  defines "config \<equiv> fst (effectiveMeasurementConfig (state_of s))"
  shows "sj_runBytes job = (case RemainingDataBudgetsFor (se_zone env) (se_now env) (sc_DailyDataBudgetMB config)
           (sc_MonthlyDataBudgetMB config) (store_of s) of (daily, monthly) \<Rightarrow> min daily monthly)"
  using assms
  by (auto simp: prepareSpeedTest_def admitSpeedTest_def Let_def store_of_def split: if_splits option.splits prod.splits)

text \<open>Neither the phases' bytes nor the total nor what the budget records exceeds the caps of the runner.\<close>

lemma judged_bytes_within:
  assumes "used \<le> response_capacity p" "unat (pc_MaxDownloadBytes p) + unat (pc_MaxUploadBytes p) < 2 ^ 64"
  shows "unat (speedTestBytes (native_result b (judge_run rv p traffic used (measure rv p))))
    \<le> unat (pc_MaxDownloadBytes p) + unat (pc_MaxUploadBytes p)"
proof -
  note within = judge_run_within[OF assms(1), of rv]
  let ?m = "measure rv p"
  let ?d = "rs_TotalDownloadBytes (run_responsiveness rv used ?m)" and ?u = "rs_TotalUploadBytes (run_responsiveness rv used ?m)"
  have tot: "unat (?d + ?u) = unat ?d + unat ?u" using within(2,4) assms(2) by (simp add: unat_add_u64)
  have moved: "unat (tr_BytesTransferred (fst (ms_Download ?m)) + tr_BytesTransferred (fst (ms_Upload ?m))) \<le> unat ?d + unat ?u"
    using within assms(2) by (simp add: unat_add_u64)
  show ?thesis using tot moved within(2,4)
    by (simp add: speedTestBytes_def Let_def judge_run_fields)
qed


section \<open>A test by hand\<close>

definition demo_counters :: counters_env where
  "demo_counters = \<lparr>ce_DownStarted = 0, ce_Down = [], ce_DownSnapshot = Second, ce_UpStarted = 0, ce_Up = [], ce_UpSnapshot = Second\<rparr>"

definition demo_instance :: instance_env where
  "demo_instance = \<lparr>in_Segments = [], in_Slept = True, in_PhaseStartMS = 0, in_Frames = [], in_Probes = [], in_Bursts = []\<rparr>"

definition demo_house :: house_env where
  "demo_house = \<lparr>hv_Run = demo_run, hv_Mix = DefaultHouseholdMix, hv_MixSource = '''', hv_PlannedAt = 0,
     hv_EndedBeforeReference = False,
     hv_Reference = \<lparr>re_Instance = demo_instance, re_PhaseStart = 0, re_StartMS = 0, re_EndMS = 0,
       re_Counters = demo_counters, re_EvidenceStartMS = 0, re_EvidenceEndMS = 0\<rparr>,
     hv_EndedBefore = False, hv_CancelledBefore = False, hv_PhaseStart = 0, hv_PhaseMS = 0, hv_PhaseEndMS = 0,
     hv_LoadedTurns = [], hv_Instances = (\<lambda>_. demo_instance), hv_Counters = demo_counters, hv_Goroutines = 1,
     hv_Claims = [], hv_Watched = [], hv_Cancelled = False, hv_RunEnded = False\<rparr>"

lemma content_test: "test_profile True DefaultConfig ProfileContent = Some content_profile"
  by (simp add: test_profile_def configured_or_legacy_def configuredSpeedProfile_def DeviceSpeedProfile_def DefaultConfig_def
      legacySpeedProfiles_def content_profile_def saturation_profile_def household_profile_def)

lemma demo_prepared:
  "\<exists>s1 job. prepareSpeedTest (a_service_env 0) triggerManual ProfileContent (a_service up_state pending_db) = (s1, Inr job)
     \<and> sj_profile job = content_profile \<and> sj_runBytes job = pc_MaxDownloadBytes content_profile + pc_MaxUploadBytes content_profile"
proof -
  have state: "Operational up_state" "fst (effectiveMeasurementConfig up_state) = DefaultConfig"
    by (simp_all add: Operational_def up_state_def zero_state_def Claimed_def effectiveMeasurementConfig_def)
  have reserve: "\<exists>st. reserve_test (a_service_env 0) True (pc_MaxDownloadBytes content_profile + pc_MaxUploadBytes content_profile) c x = (st, None)" for c x
    by (auto simp: reserve_test_def ReserveSpeedTestOverdraw_def reserveSpeedTestBytes_def commitLocked_def a_service_env_def
        content_profile_def split: prod.split)
  show ?thesis
    using reserve[of DefaultConfig "(up_state, new_disk)"] state
    by (auto simp: prepareSpeedTest_def admitSpeedTest_def Let_def content_test deferral_reason_def
        speedTestDeferral_def test_traffic_def store_of_def state_of_def a_service_def)
qed


end
