(* ===== verification/Support.thy ===== *)
theory Support
  imports Network_Safety "HOL-Library.List_Lexorder" "HOL-Library.Char_ord"
begin

text \<open>
  The support bundle and the local log (\<open>internal/support/support.go\<close>, \<open>log.go\<close>): the redaction of
  strings, documents and log attributes, and the rotating log file. Strings are byte strings. What
  the regular expressions match is a parameter: a pattern gives the disjoint matches of a text from
  left to right, and the replacement is defined here. The file of the log is the bytes it holds,
  and every system call of a rotation can fail.
\<close>

section \<open>Redaction of strings\<close>

type_synonym pattern = "string \<Rightarrow> (nat \<times> nat) list"

record patterns =
  pt_token :: pattern
  pt_credentialPair :: pattern
  pt_identityPair :: pattern
  pt_url :: pattern
  pt_mac :: pattern
  pt_hostname :: "pattern option"
  pt_ipv4 :: pattern
  pt_ipv6 :: pattern
  pt_userPath :: pattern

text \<open>\<open>ReplaceAllStringFunc\<close>: the text from position \<open>at_pos\<close> on, with the matches replaced.\<close>

fun replace_from :: "nat \<Rightarrow> (nat \<times> nat) list \<Rightarrow> (string \<Rightarrow> string) \<Rightarrow> string \<Rightarrow> string" where
  "replace_from at_pos [] f value = drop at_pos value"
| "replace_from at_pos ((a, b) # matches) f value =
     take (a - at_pos) (drop at_pos value) @ f (take (b - a) (drop a value)) @ replace_from b matches f value"

definition ReplaceAllStringFunc :: "pattern \<Rightarrow> (string \<Rightarrow> string) \<Rightarrow> string \<Rightarrow> string" where
  "ReplaceAllStringFunc p f value = replace_from 0 (p value) f value"

definition ReplaceAllString :: "pattern \<Rightarrow> string \<Rightarrow> string \<Rightarrow> string" where
  "ReplaceAllString p replacement = ReplaceAllStringFunc p (\<lambda>_. replacement)"

text \<open>\<open>compileHostnamePattern\<close>: the name whose standalone occurrences are matched, when it is long enough.\<close>

definition compileHostnamePattern :: "(string \<Rightarrow> pattern) \<Rightarrow> string + string \<Rightarrow> pattern option" where
  "compileHostnamePattern compile hostname =
     (case hostname of
        Inl _ \<Rightarrow> None
      | Inr name \<Rightarrow>
          let short = (case cut CHR ''.'' (trim_space name) of Some (a, _) \<Rightarrow> a | None \<Rightarrow> trim_space name)
          in if length short < 2 then None else Some (compile short))"

definition trim_brackets :: "string \<Rightarrow> string" where
  "trim_brackets s = (let bracket = (\<lambda>c. c = CHR ''['' \<or> c = CHR '']'')
     in rev (dropWhile bracket (rev (dropWhile bracket s))))"

definition is_ipv6 :: "string \<Rightarrow> bool" where
  "is_ipv6 value =
     (case cut CHR ''%'' value of
        None \<Rightarrow> (case ParseAddr value of Some (IP16 _) \<Rightarrow> True | _ \<Rightarrow> False)
      | Some (address, zone) \<Rightarrow> zone \<noteq> '''' \<and> (case ParseAddr address of Some (IP16 _) \<Rightarrow> True | _ \<Rightarrow> False))"

definition redactIPv6 :: "string \<Rightarrow> string" where
  "redactIPv6 raw = (if is_ipv6 (trim_brackets raw) then ''[ip]'' else raw)"

definition redact_url :: "string \<Rightarrow> string" where
  "redact_url raw = (if CHR ''?'' \<in> set raw then ''[url-with-query]'' else ''[url]'')"

definition redactCore :: "patterns \<Rightarrow> string \<Rightarrow> string" where
  "redactCore p value =
     (let v1 = ReplaceAllString (pt_token p) ''[credential]'' value;
          v2 = ReplaceAllString (pt_credentialPair p) ''[credential]'' v1;
          v3 = ReplaceAllString (pt_identityPair p) ''[identity]'' v2;
          v4 = ReplaceAllStringFunc (pt_url p) redact_url v3;
          v5 = ReplaceAllString (pt_mac p) ''[mac]'' v4;
          v6 = (case pt_hostname p of None \<Rightarrow> v5 | Some h \<Rightarrow> ReplaceAllString h ''[hostname]'' v5);
          v7 = ReplaceAllString (pt_ipv4 p) ''[ip]'' v6;
          v8 = ReplaceAllStringFunc (pt_ipv6 p) redactIPv6 v7
      in ReplaceAllString (pt_userPath p) ''[user-path]'' v8)"

text \<open>\<open>truncateUTF8\<close> cuts before a byte that starts a rune and marks the cut with an ellipsis.\<close>

definition RuneStart :: "char \<Rightarrow> bool" where
  "RuneStart c \<longleftrightarrow> (of_char c :: nat) div 64 \<noteq> 2"

fun rune_cut :: "string \<Rightarrow> nat \<Rightarrow> nat" where
  "rune_cut value 0 = 0"
| "rune_cut value (Suc n) = (if RuneStart (value ! Suc n) then Suc n else rune_cut value n)"

definition ellipsis :: string where
  "ellipsis = [CHR 0xE2, CHR 0x80, CHR 0xA6]"

definition truncateUTF8 :: "string \<Rightarrow> nat \<Rightarrow> string" where
  "truncateUTF8 value limit = (if length value \<le> limit then value else take (rune_cut value limit) value @ ellipsis)"

definition RedactString :: "patterns \<Rightarrow> string \<Rightarrow> string" where
  "RedactString p value = truncateUTF8 (redactCore p value) 512"

definition sensitiveKey :: "string \<Rightarrow> bool" where
  "sensitiveKey key =
     (let lower = to_lower key in
      contains_str lower ''secret'' \<or> contains_str lower ''token'' \<or> contains_str lower ''authorization'' \<or> contains_str lower ''password''
      \<or> contains_str lower ''api_key'' \<or> contains_str lower ''apikey'' \<or> lower = ''ssid'' \<or> lower = ''bssid'' \<or> lower = ''hostname'')"

section \<open>Documents\<close>

text \<open>A decoded JSON value; the fields of an object have distinct keys.\<close>

datatype document = Text string | Scalar string | Items "document list" | Fields "(string \<times> document) list"

text \<open>\<open>uniqueKey\<close>: the first of the key and its numbered variants that is not taken.\<close>

definition numbered :: "string \<Rightarrow> nat \<Rightarrow> string" where
  "numbered key index = key @ ''-'' @ itoa (int index)"

fun unique_from :: "nat \<Rightarrow> string list \<Rightarrow> string \<Rightarrow> nat \<Rightarrow> string option" where
  "unique_from 0 taken key index = None"
| "unique_from (Suc fuel) taken key index =
     (if numbered key index \<in> set taken then unique_from fuel taken key (index + 1) else Some (numbered key index))"

definition uniqueKey :: "string list \<Rightarrow> string \<Rightarrow> string option" where
  "uniqueKey taken key = (if key \<notin> set taken then Some key else unique_from (length taken + 1) taken key 2)"

definition redacted_key :: "patterns \<Rightarrow> string \<Rightarrow> string" where
  "redacted_key p key = (if sensitiveKey key then ''[redacted-key]'' else RedactString p key)"

text \<open>What is put for a field, given its value already redacted as a document.\<close>

definition redacted_child :: "patterns \<Rightarrow> string \<Rightarrow> document \<Rightarrow> document" where
  "redacted_child p key child = (if redacted_key p key = ''[redacted-key]'' then Text ''[redacted]'' else child)"

definition put_field :: "patterns \<Rightarrow> (string \<times> document) list \<Rightarrow> string \<times> document \<Rightarrow> (string \<times> document) list" where
  "put_field p fs f =
     (case uniqueKey (map fst fs) (redacted_key p (fst f)) of
        Some key \<Rightarrow> fs @ [(key, redacted_child p (fst f) (snd f))]
      | None \<Rightarrow> fs)"

definition redact_fields :: "patterns \<Rightarrow> (string \<times> document) list \<Rightarrow> (string \<times> document) list" where
  "redact_fields p fs = foldl (put_field p) [] (sort_key fst fs)"

text \<open>A text at the top is not redacted by \<open>redactValue\<close>, only the texts within.\<close>

fun redact_inside :: "patterns \<Rightarrow> document \<Rightarrow> document" where
  "redact_inside p (Text s) = Text (RedactString p s)"
| "redact_inside p (Scalar s) = Scalar s"
| "redact_inside p (Items ds) = Items (map (redact_inside p) ds)"
| "redact_inside p (Fields fs) = Fields (redact_fields p (map (\<lambda>f. (fst f, redact_inside p (snd f))) fs))"

definition redactValue :: "patterns \<Rightarrow> document \<Rightarrow> document" where
  "redactValue p d = (case d of Text s \<Rightarrow> Text s | _ \<Rightarrow> redact_inside p d)"

abbreviation (input) MaxBundleBytes :: nat where "MaxBundleBytes \<equiv> 262144"

definition Encode :: "patterns \<Rightarrow> (document \<Rightarrow> string) \<Rightarrow> (string + document) \<Rightarrow> string + string" where
  "Encode p marshalIndent decoded =
     (case decoded of
        Inl e \<Rightarrow> Inl e
      | Inr d \<Rightarrow>
          let encoded = marshalIndent (redactValue p d)
          in if length encoded + 1 > MaxBundleBytes then Inl ''support bundle exceeds the 256 KiB local limit''
             else Inr (encoded @ [CHR 0x0A]))"

section \<open>Fresh keys\<close>

lemma nat_digits_nonempty: "nat_digits n \<noteq> []"
  by (simp add: nat_digits.simps[of n])

definition digit_value :: "string \<Rightarrow> nat" where
  "digit_value s = foldl (\<lambda>v c. 10 * v + (of_char c - 48)) 0 s"

lemma digit_value_digits: "digit_value (nat_digits n) = n"
proof (induction n rule: nat_digits.induct)
  case (1 n)
  show ?case
  proof (cases "n < 10")
    case True
    then show ?thesis by (simp add: nat_digits.simps[of n] digit_value_def)
  next
    case False
    then have "digit_value (nat_digits (n div 10)) = n div 10" using 1 by simp
    then show ?thesis using False by (simp add: nat_digits.simps[of n] digit_value_def)
  qed
qed

lemma numbered_inj: "numbered key i = numbered key j \<Longrightarrow> i = j"
  by (simp add: numbered_def itoa_def) (metis digit_value_digits)

lemma unique_from_none: "unique_from fuel taken key index = None \<Longrightarrow> (\<lambda>i. numbered key i) ` {index..<index + fuel} \<subseteq> set taken"
proof (induction fuel arbitrary: index)
  case (Suc fuel)
  then have here: "numbered key index \<in> set taken" and "unique_from fuel taken key (index + 1) = None"
    by (simp_all split: if_splits)
  then have "(\<lambda>i. numbered key i) ` {index + 1..<index + 1 + fuel} \<subseteq> set taken" by (intro Suc.IH)
  moreover have "{index..<index + Suc fuel} = insert index {index + 1..<index + 1 + fuel}" by auto
  ultimately show ?case using here by simp
qed simp

lemma unique_from_some: "unique_from fuel taken key index = Some k \<Longrightarrow> k \<notin> set taken"
  by (induction fuel arbitrary: index) (auto split: if_splits)

lemma unique_from_found: "unique_from (length taken + 1) taken key index \<noteq> None"
proof
  assume "unique_from (length taken + 1) taken key index = None"
  from unique_from_none[OF this] have "card ((\<lambda>i. numbered key i) ` {index..<index + (length taken + 1)}) \<le> card (set taken)"
    by (intro card_mono) simp_all
  moreover have "card ((\<lambda>i. numbered key i) ` {index..<index + (length taken + 1)}) = length taken + 1"
    by (subst card_image) (auto intro: inj_onI dest: numbered_inj)
  ultimately show False using card_length[of taken] by linarith
qed

lemma uniqueKey_fresh: "\<exists>k. uniqueKey taken key = Some k \<and> k \<notin> set taken"
proof (cases "key \<in> set taken")
  case True
  then have "uniqueKey taken key = unique_from (length taken + 1) taken key 2" by (simp add: uniqueKey_def)
  moreover obtain k where "unique_from (length taken + 1) taken key 2 = Some k"
    using unique_from_found[of taken key 2] by blast
  ultimately show ?thesis using unique_from_some by metis
qed (simp add: uniqueKey_def)

lemma put_field_adds:
  obtains k where "put_field p fs f = fs @ [(k, redacted_child p (fst f) (snd f))]" "k \<notin> fst ` set fs"
proof -
  obtain k where "uniqueKey (map fst fs) (redacted_key p (fst f)) = Some k" "k \<notin> fst ` set fs"
    using uniqueKey_fresh[of "map fst fs" "redacted_key p (fst f)"] by (metis list.set_map)
  then show ?thesis using that by (simp add: put_field_def)
qed

lemma foldl_put_field:
  "distinct (map fst acc) \<Longrightarrow>
     distinct (map fst (foldl (put_field p) acc fs))
     \<and> map snd (foldl (put_field p) acc fs) = map snd acc @ map (\<lambda>f. redacted_child p (fst f) (snd f)) fs"
proof (induction fs arbitrary: acc)
  case (Cons f fs)
  obtain k where k: "put_field p acc f = acc @ [(k, redacted_child p (fst f) (snd f))]" "k \<notin> fst ` set acc"
    by (rule put_field_adds)
  then have "distinct (map fst (put_field p acc f))" using Cons.prems by simp
  from Cons.IH[OF this] show ?case by (simp add: k(1))
qed simp

lemma redact_fields_values:
  "distinct (map fst (redact_fields p fs))"
  "map snd (redact_fields p fs) = map (\<lambda>f. redacted_child p (fst f) (snd f)) (sort_key fst fs)"
  using foldl_put_field[of "[]" p "sort_key fst fs"] by (simp_all add: redact_fields_def)

section \<open>Values under sensitive keys\<close>

text \<open>A document with the values under its sensitive keys blanked out.\<close>

fun blanked :: "document \<Rightarrow> document" where
  "blanked (Text s) = Text s"
| "blanked (Scalar s) = Scalar s"
| "blanked (Items ds) = Items (map blanked ds)"
| "blanked (Fields fs) = Fields (map (\<lambda>f. (fst f, if sensitiveKey (fst f) then Text '''' else blanked (snd f))) fs)"

lemma sort_key_map_fst: "sort_key fst (map (\<lambda>f. (fst f, g f)) fs) = map (\<lambda>f. (fst f, g f)) (sort_key fst fs)"
proof -
  have insert: "insort_key fst (fst x, g x) (map (\<lambda>f. (fst f, g f)) xs) = map (\<lambda>f. (fst f, g f)) (insort_key fst x xs)" for x xs
    by (induction xs) simp_all
  show ?thesis by (induction fs) (simp_all add: insert)
qed

lemma foldl_put_field_cong:
  assumes "\<And>f. f \<in> set fs \<Longrightarrow> redacted_child p (fst f) (g f) = redacted_child p (fst f) (h f)"
  shows "foldl (put_field p) acc (map (\<lambda>f. (fst f, g f)) fs) = foldl (put_field p) acc (map (\<lambda>f. (fst f, h f)) fs)"
  using assms
proof (induction fs arbitrary: acc)
  case (Cons f fs)
  then have "put_field p acc (fst f, g f) = put_field p acc (fst f, h f)" by (simp add: put_field_def split: option.split)
  then show ?case using Cons.IH Cons.prems by simp
qed simp

lemma redact_fields_cong:
  assumes "\<And>f. f \<in> set fs \<Longrightarrow> redacted_child p (fst f) (g f) = redacted_child p (fst f) (h f)"
  shows "redact_fields p (map (\<lambda>f. (fst f, g f)) fs) = redact_fields p (map (\<lambda>f. (fst f, h f)) fs)"
  unfolding redact_fields_def sort_key_map_fst using assms by (intro foldl_put_field_cong) simp

lemma redact_inside_mask: "redact_inside p (blanked d) = redact_inside p d"
proof (induction d)
  case (Fields fs)
  have "redact_fields p (map (\<lambda>f. (fst f, redact_inside p (if sensitiveKey (fst f) then Text '''' else blanked (snd f)))) fs)
      = redact_fields p (map (\<lambda>f. (fst f, redact_inside p (snd f))) fs)"
  proof (rule redact_fields_cong)
    fix f assume "f \<in> set fs"
    moreover have "snd f \<in> Basic_BNFs.snds f" by (cases f) simp
    ultimately have "redact_inside p (blanked (snd f)) = redact_inside p (snd f)" by (rule Fields)
    then show "redacted_child p (fst f) (redact_inside p (if sensitiveKey (fst f) then Text '''' else blanked (snd f)))
        = redacted_child p (fst f) (redact_inside p (snd f))"
      by (simp add: redacted_child_def redacted_key_def)
  qed
  then show ?case by (simp add: comp_def)
qed simp_all

lemma redactValue_mask: "redactValue p (blanked d) = redactValue p d"
  using redact_inside_mask[of p d] by (cases d) (simp_all add: redactValue_def)


definition no_matches :: patterns where
  "no_matches = \<lparr>pt_token = \<lambda>_. [], pt_credentialPair = \<lambda>_. [], pt_identityPair = \<lambda>_. [], pt_url = \<lambda>_. [], pt_mac = \<lambda>_. [],
     pt_hostname = None, pt_ipv4 = \<lambda>_. [], pt_ipv6 = \<lambda>_. [], pt_userPath = \<lambda>_. []\<rparr>"


lemma truncateUTF8_length: "length (truncateUTF8 value limit) \<le> limit + 3"
proof -
  have "rune_cut value n \<le> n" for n by (induction n) simp_all
  from this[of limit] show ?thesis by (simp add: truncateUTF8_def ellipsis_def)
qed
section \<open>Log attributes\<close>

text \<open>
  A \<open>slog.Value\<close>: a string, a group, any other value with the text \<open>fmt.Sprint\<close> gives of it, a
  value of a basic kind, and a \<open>LogValuer\<close> with the value it resolves to. \<open>Resolve\<close> gives up
  after 100 steps.
\<close>

datatype log_value = VString string | VGroup "(string \<times> log_value) list" | VAny string | VBasic string | VLazy log_value

fun redact_resolved :: "patterns \<Rightarrow> nat \<Rightarrow> log_value \<Rightarrow> log_value" where
  "redact_resolved p n (VString s) = VString (RedactString p s)"
| "redact_resolved p n (VGroup attrs) =
     VGroup (map (\<lambda>a. if sensitiveKey (RedactString p (fst a)) then (''[redacted-key]'', VString ''[redacted]'')
                       else (RedactString p (fst a), redact_resolved p 99 (snd a))) attrs)"
| "redact_resolved p n (VAny s) = VString (RedactString p s)"
| "redact_resolved p n (VBasic s) = VBasic s"
| "redact_resolved p n (VLazy v) =
     (case n of 0 \<Rightarrow> VString (RedactString p ''LogValue called too many times'') | Suc m \<Rightarrow> redact_resolved p m v)"

definition redactAttr :: "patterns \<Rightarrow> string \<times> log_value \<Rightarrow> string \<times> log_value" where
  "redactAttr p attr =
     (let key = RedactString p (fst attr) in
      if sensitiveKey key then (''[redacted-key]'', VString ''[redacted]'')
      else (key, redact_resolved p 99 (snd attr)))"

definition redactAttrs :: "patterns \<Rightarrow> (string \<times> log_value) list \<Rightarrow> (string \<times> log_value) list" where
  "redactAttrs p attrs = map (redactAttr p) attrs"

record log_record =
  rec_message :: string
  rec_attrs :: "(string \<times> log_value) list"

definition redactRecord :: "patterns \<Rightarrow> log_record \<Rightarrow> log_record" where
  "redactRecord p r = r\<lparr>rec_message := RedactString p (rec_message r), rec_attrs := redactAttrs p (rec_attrs r)\<rparr>"

text \<open>The handler that gives both sinks the same redacted record and reports the first error.\<close>

definition tee_Handle ::
  "patterns \<Rightarrow> (log_record \<Rightarrow> string option) \<Rightarrow> (log_record \<Rightarrow> string option) \<Rightarrow> log_record \<Rightarrow> string option" where
  "tee_Handle p left right r =
     (let r' = redactRecord p r in case left r' of Some e \<Rightarrow> Some e | None \<Rightarrow> right r')"

section \<open>The rotating log file\<close>

text \<open>
  File 0 is the live file, file \<open>i\<close> the backup number \<open>i\<close>. A handle that was closed stays in the
  writer when the rotation ends before it is cleared.
\<close>

datatype log_handle = NoHandle | Closed | Opened

record log_writer =
  lw_maximum :: nat
  lw_backups :: nat
  lw_handle :: log_handle
  lw_size :: nat
  lw_files :: "nat \<Rightarrow> string option"

text \<open>What the system calls of one write do: the errors, and the bytes of a write that failed.\<close>

record log_faults =
  lf_close :: bool
  lf_remove :: bool
  lf_rename :: "nat \<Rightarrow> bool"
  lf_open :: bool
  lf_write :: "nat option"

definition log_open :: "log_faults \<Rightarrow> log_writer \<Rightarrow> string option \<times> log_writer" where
  "log_open f w =
     (if lf_open f then (Some ''open'', w)
      else let content = (case lw_files w 0 of None \<Rightarrow> '''' | Some c \<Rightarrow> c)
           in (None, w\<lparr>lw_handle := Opened, lw_size := length content, lw_files := (lw_files w)(0 := Some content)\<rparr>))"

text \<open>The loop over the backups, from the highest number down; a missing source is no error.\<close>

fun rotate_files :: "log_faults \<Rightarrow> nat \<Rightarrow> nat \<Rightarrow> (nat \<Rightarrow> string option) \<Rightarrow> string option \<times> (nat \<Rightarrow> string option)" where
  "rotate_files f backups 0 files = (None, files)"
| "rotate_files f backups (Suc i) files =
     (let removed = (if Suc i = backups \<and> \<not> lf_remove f then files(Suc i := None) else files) in
      if removed i = None then rotate_files f backups i removed
      else if lf_rename f (Suc i) then (Some ''rename'', removed)
      else rotate_files f backups i (removed(Suc i := removed i, i := None)))"

definition log_rotate :: "log_faults \<Rightarrow> log_writer \<Rightarrow> string option \<times> log_writer" where
  "log_rotate f w =
     (if lw_handle w \<noteq> Opened then (Some ''file already closed'', w)
      else if lf_close f then (Some ''close'', w\<lparr>lw_handle := Closed\<rparr>)
      else let cleared = w\<lparr>lw_handle := NoHandle, lw_size := 0\<rparr>;
               (err, files) = rotate_files f (lw_backups w) (lw_backups w) (lw_files w);
               (open_err, opened) = log_open f (cleared\<lparr>lw_files := files\<rparr>)
           in (case err of Some e \<Rightarrow> Some e | None \<Rightarrow> open_err, opened))"

definition dropped_line :: string where
  "dropped_line = ''{\"level\":\"WARN\",\"msg\":\"[log record dropped: exceeded size bound]\"}'' @ [CHR 0x0A]"

definition log_line :: "patterns \<Rightarrow> nat \<Rightarrow> string \<Rightarrow> string" where
  "log_line p maximum data =
     (let line = redactCore p (trim_space data) @ [CHR 0x0A] in if length line > maximum then dropped_line else line)"

text \<open>The bytes of \<open>file.Write\<close>: all of the line, or a part and an error.\<close>

definition put_line :: "log_faults \<Rightarrow> string \<Rightarrow> log_writer \<Rightarrow> string option \<times> log_writer" where
  "put_line f line w =
     (if lw_handle w \<noteq> Opened then (Some ''file already closed'', w)
      else let part = (case lf_write f of None \<Rightarrow> line | Some n \<Rightarrow> take n line);
               content = (case lw_files w 0 of None \<Rightarrow> '''' | Some c \<Rightarrow> c)
           in (map_option (\<lambda>_. ''write'') (lf_write f),
               w\<lparr>lw_size := lw_size w + length part, lw_files := (lw_files w)(0 := Some (content @ part))\<rparr>))"

definition log_Write :: "patterns \<Rightarrow> log_faults \<Rightarrow> string \<Rightarrow> log_writer \<Rightarrow> string option \<times> log_writer" where
  "log_Write p f data w =
     (let line = log_line p (lw_maximum w) data in
      if lw_size w + length line > lw_maximum w
      then (case log_rotate f w of
              (Some e, w') \<Rightarrow> (Some e, w')
            | (None, w') \<Rightarrow> put_line f line w')
      else put_line f line w)"

definition openRotatingWriter :: "log_faults \<Rightarrow> nat \<Rightarrow> nat \<Rightarrow> (nat \<Rightarrow> string option) \<Rightarrow> string + log_writer" where
  "openRotatingWriter f maximum backups files =
     (case log_open f \<lparr>lw_maximum = maximum, lw_backups = backups, lw_handle = NoHandle, lw_size = 0, lw_files = files\<rparr> of
        (Some e, _) \<Rightarrow> Inl e
      | (None, w) \<Rightarrow> Inr w)"

definition log_Close :: "log_faults \<Rightarrow> log_writer \<Rightarrow> string option \<times> log_writer" where
  "log_Close f w =
     (case lw_handle w of
        NoHandle \<Rightarrow> (None, w)
      | Closed \<Rightarrow> (Some ''file already closed'', w\<lparr>lw_handle := NoHandle\<rparr>)
      | Opened \<Rightarrow> (if lf_close f then Some ''close'' else None, w\<lparr>lw_handle := NoHandle\<rparr>))"

abbreviation (input) MaxLogBytes :: nat where "MaxLogBytes \<equiv> 524288"
abbreviation (input) LogBackups :: nat where "LogBackups \<equiv> 2"

definition log_run :: "patterns \<Rightarrow> (log_faults \<times> string) list \<Rightarrow> log_writer \<Rightarrow> log_writer" where
  "log_run p writes w = foldl (\<lambda>w c. snd (log_Write p (fst c) (snd c) w)) w writes"

section \<open>Bounds of the log files\<close>

definition file_bytes :: "(nat \<Rightarrow> string option) \<Rightarrow> nat \<Rightarrow> nat" where
  "file_bytes files i = (case files i of None \<Rightarrow> 0 | Some c \<Rightarrow> length c)"

lemma file_bytes_simps [simp]:
  "file_bytes (files(i := Some c)) i = length c"
  "file_bytes (files(i := None)) i = 0"
  "j \<noteq> i \<Longrightarrow> file_bytes (files(i := x)) j = file_bytes files j"
  "files j = None \<Longrightarrow> file_bytes files j = 0"
  "files j = Some c \<Longrightarrow> file_bytes files j = length c"
  by (simp_all add: file_bytes_def)

definition log_inv :: "log_writer \<Rightarrow> bool" where
  "log_inv w \<longleftrightarrow> (\<forall>i. file_bytes (lw_files w) i \<le> lw_maximum w) \<and> length dropped_line \<le> lw_maximum w \<and> 1 \<le> lw_backups w
     \<and> (lw_handle w = Opened \<longrightarrow> lw_size w = file_bytes (lw_files w) 0)"

lemma file_bytes_rename:
  assumes "files i = Some c" "\<And>j. file_bytes files j \<le> m"
  shows "file_bytes (files(Suc i := files i, i := None)) j \<le> m"
proof -
  have "file_bytes files i = length c" using assms(1) by simp
  then have "length c \<le> m" using assms(2)[of i] by simp
  then show ?thesis using assms by (auto simp: file_bytes_def split: option.splits)
qed

lemma rotate_files_bounded:
  "(\<And>j. file_bytes files j \<le> m) \<Longrightarrow> file_bytes (snd (rotate_files f backups n files)) j \<le> m"
proof (induction n arbitrary: files)
  case (Suc i)
  define removed where "removed = (if Suc i = backups \<and> \<not> lf_remove f then files(Suc i := None) else files)"
  have removed: "file_bytes removed j \<le> m" for j
    using Suc.prems[of j] by (cases "j = Suc i") (simp_all add: removed_def)
  show ?case
  proof (cases "removed i")
    case None
    then show ?thesis using Suc.IH[of removed] removed by (simp add: removed_def[symmetric])
  next
    case (Some c)
    have "file_bytes (removed(Suc i := Some c, i := None)) j \<le> m" for j
      using file_bytes_rename[OF Some removed] Some by simp
    from Suc.IH[OF this] show ?thesis using removed Some
      by (simp add: removed_def[symmetric] del: fun_upd_apply)
  qed
qed simp

lemma rotate_files_others: "n < j \<Longrightarrow> n \<le> backups \<Longrightarrow> snd (rotate_files f backups n files) j = files j"
  by (induction n arbitrary: files) (simp_all add: Let_def)

lemma rotate_files_moves_live:
  "fst (rotate_files f backups (Suc n) files) = None \<Longrightarrow> snd (rotate_files f backups (Suc n) files) 0 = None"
proof (induction n arbitrary: files)
  case 0
  then show ?case by (auto simp: Let_def split: if_splits)
next
  case (Suc n)
  then show ?case by (simp only: rotate_files.simps(2)[of f backups "Suc n"] Let_def split: if_splits) simp_all
qed

lemma log_open_keeps:
  "lw_maximum (snd (log_open f w)) = lw_maximum w" "lw_backups (snd (log_open f w)) = lw_backups w"
  "file_bytes (lw_files (snd (log_open f w))) i = file_bytes (lw_files w) i"
  "0 < i \<Longrightarrow> lw_files (snd (log_open f w)) i = lw_files w i"
  by (auto simp: log_open_def Let_def file_bytes_def split: option.splits)

lemma log_open_inv:
  assumes "\<And>i. file_bytes (lw_files w) i \<le> lw_maximum w" "length dropped_line \<le> lw_maximum w" "1 \<le> lw_backups w"
    "lw_handle w = NoHandle"
  shows "log_inv (snd (log_open f w))"
  unfolding log_inv_def log_open_keeps using assms
  by (auto simp: log_open_def Let_def file_bytes_def split: option.splits)

lemma log_rotate_inv:
  assumes "log_inv w"
  shows "log_inv (snd (log_rotate f w))" "lw_maximum (snd (log_rotate f w)) = lw_maximum w"
    "lw_backups (snd (log_rotate f w)) = lw_backups w"
    "lw_backups w < i \<Longrightarrow> lw_files (snd (log_rotate f w)) i = lw_files w i"
    "fst (log_rotate f w) = None \<Longrightarrow> lw_handle (snd (log_rotate f w)) = Opened \<and> file_bytes (lw_files (snd (log_rotate f w))) 0 = 0"
proof -
  obtain err files where files: "rotate_files f (lw_backups w) (lw_backups w) (lw_files w) = (err, files)"
    by fastforce
  have bounded: "file_bytes files j \<le> lw_maximum w" for j
    using rotate_files_bounded[of "lw_files w" "lw_maximum w" f "lw_backups w" "lw_backups w" j] assms files
    by (simp add: log_inv_def)
  define cleared where "cleared = w\<lparr>lw_handle := NoHandle, lw_size := 0, lw_files := files\<rparr>"
  have inv: "log_inv (snd (log_open f cleared))"
    using bounded assms by (intro log_open_inv) (simp_all add: cleared_def log_inv_def)
  have rotate: "log_rotate f w =
      (if lw_handle w \<noteq> Opened then (Some ''file already closed'', w)
       else if lf_close f then (Some ''close'', w\<lparr>lw_handle := Closed\<rparr>)
       else (case err of Some e \<Rightarrow> Some e | None \<Rightarrow> fst (log_open f cleared), snd (log_open f cleared)))"
    by (cases err) (simp_all add: log_rotate_def files cleared_def Let_def case_prod_beta)
  show "log_inv (snd (log_rotate f w))"
    using inv assms by (simp add: rotate) (simp add: log_inv_def)
  show "lw_maximum (snd (log_rotate f w)) = lw_maximum w" "lw_backups (snd (log_rotate f w)) = lw_backups w"
    by (simp_all add: rotate log_open_keeps cleared_def)
  show "lw_files (snd (log_rotate f w)) i = lw_files w i" if "lw_backups w < i"
    using rotate_files_others[OF that, of "lw_backups w" f "lw_files w"] that
    by (simp add: rotate log_open_keeps cleared_def files)
  show "lw_handle (snd (log_rotate f w)) = Opened \<and> file_bytes (lw_files (snd (log_rotate f w))) 0 = 0"
    if none: "fst (log_rotate f w) = None"
  proof -
    have err: "err = None" and opened: "fst (log_open f cleared) = None" and result: "snd (log_rotate f w) = snd (log_open f cleared)"
      using none by (simp_all add: rotate split: if_splits option.splits)
    obtain n where n: "lw_backups w = Suc n" using assms by (cases "lw_backups w") (simp_all add: log_inv_def)
    have "files 0 = None" using rotate_files_moves_live[of f "lw_backups w" n "lw_files w"] files err by (simp add: n)
    then show ?thesis using opened by (simp add: result log_open_keeps)
      (simp add: log_open_def Let_def cleared_def split: if_splits)
  qed
qed

lemma put_line_keeps:
  "lw_maximum (snd (put_line f line w)) = lw_maximum w" "lw_backups (snd (put_line f line w)) = lw_backups w"
  "0 < i \<Longrightarrow> lw_files (snd (put_line f line w)) i = lw_files w i"
  by (simp_all add: put_line_def Let_def)

lemma put_line_inv:
  assumes inv: "log_inv w" and fits: "lw_handle w = Opened \<Longrightarrow> file_bytes (lw_files w) 0 + length line \<le> lw_maximum w"
  shows "log_inv (snd (put_line f line w))"
proof (cases "lw_handle w = Opened")
  case True
  define part where "part = (case lf_write f of None \<Rightarrow> line | Some n \<Rightarrow> take n line)"
  define content where "content = (case lw_files w 0 of None \<Rightarrow> '''' | Some c \<Rightarrow> c)"
  have part: "length part \<le> length line" by (simp add: part_def split: option.split)
  have content: "length content = file_bytes (lw_files w) 0" by (simp add: content_def file_bytes_def split: option.split)
  have "snd (put_line f line w) = w\<lparr>lw_size := lw_size w + length part, lw_files := (lw_files w)(0 := Some (content @ part))\<rparr>"
    using True by (simp add: put_line_def part_def content_def Let_def)
  moreover have "file_bytes ((lw_files w)(0 := Some (content @ part))) i \<le> lw_maximum w" for i
    using inv fits[OF True] part content by (cases "i = 0") (simp_all add: log_inv_def)
  ultimately show ?thesis using inv True content by (simp add: log_inv_def)
qed (use inv in \<open>simp add: put_line_def\<close>)

lemma log_line_length: "length dropped_line \<le> maximum \<Longrightarrow> length (log_line p maximum data) \<le> maximum"
  by (simp add: log_line_def Let_def)

lemma log_Write_inv:
  assumes inv: "log_inv w"
  shows "log_inv (snd (log_Write p f data w))" "lw_maximum (snd (log_Write p f data w)) = lw_maximum w"
    "lw_backups (snd (log_Write p f data w)) = lw_backups w"
    "lw_backups w < i \<Longrightarrow> lw_files (snd (log_Write p f data w)) i = lw_files w i"
proof -
  define line where "line = log_line p (lw_maximum w) data"
  have line: "length line \<le> lw_maximum w" using log_line_length inv by (simp add: line_def log_inv_def)
  obtain err w1 where rotate: "log_rotate f w = (err, w1)" by fastforce
  note kept = log_rotate_inv[OF inv, where f = f, unfolded rotate fst_conv snd_conv]
  have put: "log_inv (snd (put_line f line w1))" if "err = None"
    using kept(5)[OF that] kept(1,2) line by (intro put_line_inv) simp_all
  have here: "log_inv (snd (put_line f line w))" if "lw_size w + length line \<le> lw_maximum w"
    using inv that by (intro put_line_inv) (simp_all add: log_inv_def)
  have result: "log_Write p f data w =
      (if lw_size w + length line > lw_maximum w then (case err of Some e \<Rightarrow> (Some e, w1) | None \<Rightarrow> put_line f line w1)
       else put_line f line w)"
    by (simp add: log_Write_def line_def rotate Let_def split: option.split)
  show "log_inv (snd (log_Write p f data w))"
    using put here kept(1) by (simp add: result split: option.split)
  show "lw_maximum (snd (log_Write p f data w)) = lw_maximum w" "lw_backups (snd (log_Write p f data w)) = lw_backups w"
    using kept(2,3) by (simp_all add: result put_line_keeps split: option.split)
  show "lw_files (snd (log_Write p f data w)) i = lw_files w i" if "lw_backups w < i"
    using kept(4)[OF that] that by (simp add: result put_line_keeps split: option.split)
qed

lemma log_run_inv:
  "log_inv w \<Longrightarrow> log_inv (log_run p writes w) \<and> lw_maximum (log_run p writes w) = lw_maximum w
     \<and> (\<forall>i>lw_backups w. lw_files (log_run p writes w) i = lw_files w i)"
proof (induction writes arbitrary: w)
  case (Cons c writes)
  have "log_inv (snd (log_Write p (fst c) (snd c) w))" by (rule log_Write_inv(1)[OF Cons.prems])
  from Cons.IH[OF this] show ?case
    using log_Write_inv(2,3,4)[OF Cons.prems, where p = p and f = "fst c" and data = "snd c"] by (simp add: log_run_def)
qed (simp add: log_run_def)

lemma log_Write_poisoned:
  "lw_handle w \<noteq> Opened \<Longrightarrow> log_Write p f data w = (Some ''file already closed'', w)"
  by (simp add: log_Write_def log_rotate_def put_line_def Let_def)

text \<open>A close that fails once ends the log for good: the handle stays, and every later write fails.\<close>

lemma failed_close_ends_log:
  assumes "lw_handle w = Opened" "lf_close f" "lw_size w + length (log_line p (lw_maximum w) data) > lw_maximum w"
  shows "fst (log_Write p g later (log_run p writes (snd (log_Write p f data w)))) \<noteq> None"
proof -
  have "lw_handle (snd (log_Write p f data w)) = Closed"
    using assms by (simp add: log_Write_def log_rotate_def Let_def)
  moreover have "log_run p writes v = v" if "lw_handle v = Closed" for v
    using that by (induction writes) (simp_all add: log_run_def log_Write_poisoned)
  ultimately show ?thesis by (simp add: log_Write_poisoned)
qed

text \<open>
  (C36) Whatever lines are written and whichever system calls of the rotations and writes fail, the
  live log file and its two backups never have more than 512 KiB each, and no other file is touched.
\<close>
theorem log_files_bounded:
  assumes "\<And>i. file_bytes files i \<le> 524288" "openRotatingWriter f0 524288 2 files = Inr w"
  shows "\<forall>i. file_bytes (lw_files (log_run p writes w)) i \<le> 524288
    \<and> (2 < i \<longrightarrow> lw_files (log_run p writes w) i = files i)"
proof -
  define start where "start = \<lparr>lw_maximum = 524288, lw_backups = 2, lw_handle = NoHandle, lw_size = 0, lw_files = files\<rparr>"
  have w: "w = snd (log_open f0 start)"
    using assms(2) by (simp add: openRotatingWriter_def start_def split: prod.splits option.splits)
  have "length dropped_line \<le> 524288" by (simp add: dropped_line_def)
  then have "log_inv w" unfolding w using assms(1) by (intro log_open_inv) (simp_all add: start_def)
  moreover have "lw_maximum w = 524288" "lw_backups w = 2" by (simp_all add: w log_open_keeps start_def)
  moreover have "0 < i \<Longrightarrow> lw_files w i = files i" for i by (simp add: w log_open_keeps start_def)
  ultimately show ?thesis using log_run_inv[of w p writes] by (auto simp: log_inv_def)
qed

definition no_log_faults :: log_faults where
  "no_log_faults = \<lparr>lf_close = False, lf_remove = False, lf_rename = \<lambda>_. False, lf_open = False, lf_write = None\<rparr>"

theorem log_files_bounded_witness:
  "\<exists>w. openRotatingWriter no_log_faults 524288 2 (\<lambda>_. None) = Inr w
     \<and> lw_files (log_run no_matches [(no_log_faults, ''started'')] w) 0 = Some (''started'' @ [CHR 0x0A])
     \<and> file_bytes (lw_files (log_run no_matches [(no_log_faults, ''started'')] w)) 0 \<le> 524288"
proof -
  define w where "w = \<lparr>lw_maximum = 524288, lw_backups = 2, lw_handle = Opened, lw_size = 0, lw_files = (\<lambda>_. None)(0 \<mapsto> '''')\<rparr>"
  have w: "openRotatingWriter no_log_faults 524288 2 (\<lambda>_. None) = Inr w"
    by (simp add: openRotatingWriter_def log_open_def no_log_faults_def w_def)
  have core: "redactCore no_matches s = s" for s
    by (simp add: redactCore_def no_matches_def ReplaceAllString_def ReplaceAllStringFunc_def)
  have "trim_space ''started'' = ''started''" by code_simp
  then have line: "log_line no_matches 524288 ''started'' = ''started'' @ [CHR 0x0A]"
    by (simp only: log_line_def core) simp
  have "log_Write no_matches no_log_faults ''started'' w
      = (None, w\<lparr>lw_size := 8, lw_files := (lw_files w)(0 := Some (''started'' @ [CHR 0x0A]))\<rparr>)"
    by (simp only: log_Write_def Let_def) (simp add: w_def line put_line_def no_log_faults_def)
  then have written: "lw_files (log_run no_matches [(no_log_faults, ''started'')] w) 0 = Some (''started'' @ [CHR 0x0A])"
    by (simp add: log_run_def)
  have "file_bytes (lw_files (log_run no_matches [(no_log_faults, ''started'')] w)) 0 \<le> 524288"
    by (rule spec[where x = 0, OF log_files_bounded[OF _ w], THEN conjunct1]) (simp add: file_bytes_def)
  then show ?thesis using w written by blast
qed

section \<open>Opening the log and private files\<close>

definition NewRotatingLogger :: "bool \<Rightarrow> bool \<Rightarrow> log_faults \<Rightarrow> (nat \<Rightarrow> string option) \<Rightarrow> string + log_writer" where
  "NewRotatingLogger mkdir_fault chmod_fault f files =
     (if mkdir_fault then Inl ''mkdir'' else if chmod_fault then Inl ''chmod''
      else openRotatingWriter f MaxLogBytes LogBackups files)"

text \<open>\<open>WritePrivateFile\<close> truncates the file first; \<open>part\<close> is what a write that fails has written.\<close>

definition WritePrivateFile ::
  "bool \<Rightarrow> bool \<Rightarrow> nat option \<Rightarrow> bool \<Rightarrow> string \<Rightarrow> string option \<Rightarrow> string option \<times> string option" where
  "WritePrivateFile open_fault chmod_fault part close_fault data file =
     (if open_fault then (Some ''open'', file)
      else if chmod_fault then (Some ''chmod'', Some '''')
      else case part of
             Some n \<Rightarrow> (Some ''write'', Some (take n data))
           | None \<Rightarrow> (if close_fault then Some ''close'' else None, Some data))"

end
