(* ===== verification/Text_Lines.thy ===== *)
theory Text_Lines
  imports Pulse_Prelude
begin

text \<open>
  \<open>bufio.Scanner\<close> over lines, as the route parser and the watch of the control interface use it:
  the lines without a carriage return at the end, up to the first that does not fit the buffer; the
  flag says that there was such a line.
\<close>

definition strip_cr :: "string \<Rightarrow> string" where
  "strip_cr line = (if line \<noteq> [] \<and> last line = CHR 0x0D then butlast line else line)"

definition scan_lines :: "nat \<Rightarrow> string \<Rightarrow> string list \<times> bool" where
  "scan_lines buffer content =
     (let pieces = split_at CHR 0x0A content;
          lines = (if last pieces = '''' then butlast pieces else pieces);
          fits = (\<lambda>line. length line < buffer)
      in (map strip_cr (takeWhile fits lines), \<not> list_all fits lines))"

lemma split_at_append: "c \<notin> set a \<Longrightarrow> split_at c (a @ c # b) = a # split_at c b"
  by (induction a) auto

lemma split_at_lines:
  "\<forall>l\<in>set ls. c \<notin> set l \<Longrightarrow> split_at c (concat (map (\<lambda>l. l @ [c]) ls)) = ls @ [[]]"
  by (induction ls) (simp_all add: split_at_append)

lemma scan_lines_written:
  assumes "\<forall>l\<in>set ls. CHR 0x0A \<notin> set l \<and> length l < buffer \<and> (l \<noteq> [] \<longrightarrow> last l \<noteq> CHR 0x0D)"
  shows "scan_lines buffer (concat (map (\<lambda>l. l @ [CHR 0x0A]) ls)) = (ls, False)"
proof -
  have fits: "list_all (\<lambda>l. length l < buffer) ls" using assms by (simp add: list_all_iff)
  have "map strip_cr (takeWhile (\<lambda>l. length l < buffer) ls) = map strip_cr ls"
    using assms by (subst takeWhile_eq_all_conv[THEN iffD2]) simp_all
  moreover have "map strip_cr ls = ls" using assms by (intro map_idI) (auto simp: strip_cr_def)
  moreover have "split_at CHR 0x0A (concat (map (\<lambda>l. l @ [CHR 0x0A]) ls)) = ls @ [[]]"
    using assms by (intro split_at_lines) simp
  ultimately show ?thesis using fits by (simp add: scan_lines_def Let_def)
qed

end
