(* ===== verification/Prober.thy ===== *)
theory Prober
  imports Aggregate Client Text_Lines
begin

text \<open>
  The prober (\<open>internal/prober\<close>): the gateway lookup of each platform, target resolution, the
  latency probe with its TCP fallback, and the DNS and HTTP checks. The diagnostics engine, the
  resolver and the dialler are parameters; a probe returns its sample and what it contacted.
\<close>

section \<open>Texts of addresses\<close>

fun join_with :: "string \<Rightarrow> string list \<Rightarrow> string" where
  "join_with sep [] = ''''"
| "join_with sep [s] = s"
| "join_with sep (s # t # ss) = s @ sep @ join_with sep (t # ss)"

definition hex_digit :: "nat \<Rightarrow> char" where
  "hex_digit n = (if n < 10 then char_of (48 + n) else char_of (87 + n))"

fun hex_digits :: "nat \<Rightarrow> string" where
  "hex_digits n = (if n < 16 then [hex_digit n] else hex_digits (n div 16) @ [hex_digit (n mod 16)])"

declare hex_digits.simps [simp del]

definition v4_text :: "u32 \<Rightarrow> string" where
  "v4_text w = join_with ''.'' (map (\<lambda>i. nat_digits (unat (byte4 w i))) [0, 1, 2, 3])"

text \<open>The longest run of at least two zero groups, the first of equal ones, is written as a double colon.\<close>

definition groups_of :: "128 word \<Rightarrow> nat list" where
  "groups_of w = map (\<lambda>i. unat (drop_bit (112 - 16 * i) w AND 0xFFFF)) [0..<8]"

definition zero_run :: "nat list \<Rightarrow> nat \<Rightarrow> nat" where
  "zero_run gs i = length (takeWhile (\<lambda>g. g = 0) (drop i gs))"

definition longest_run :: "nat list \<Rightarrow> nat \<times> nat" where
  "longest_run gs = foldl (\<lambda>(start, len) i. let r = zero_run gs i in if 2 \<le> r \<and> len < r then (i, r) else (start, len)) (255, 0) [0..<8]"

definition v6_text :: "128 word \<Rightarrow> string" where
  "v6_text w =
     (let gs = groups_of w; (start, len) = longest_run gs; text = (\<lambda>part. join_with '':'' (map hex_digits part))
      in if len = 0 then text gs else text (take start gs) @ ''::'' @ text (drop (start + len) gs))"

definition IP_String :: "IP \<Rightarrow> string" where
  "IP_String ip = (case To4 ip of Some w \<Rightarrow> v4_text w | None \<Rightarrow> (case ip of IP16 w \<Rightarrow> v6_text w | IP4 w \<Rightarrow> v4_text w))"

definition ParseIP :: "string \<Rightarrow> IP option" where
  "ParseIP s = map_option (\<lambda>ip. case ip of IP4 w \<Rightarrow> map_v4 w | IP16 w \<Rightarrow> IP16 w) (ParseAddr s)"

definition JoinHostPort :: "string \<Rightarrow> string \<Rightarrow> string" where
  "JoinHostPort host port = (if CHR '':'' \<in> set host then ''['' @ host @ '']:'' @ port else host @ '':'' @ port)"

section \<open>The default gateway\<close>

text \<open>\<open>strings.Fields\<close>\<close>

fun fields_from :: "string \<Rightarrow> string \<Rightarrow> string list" where
  "fields_from word [] = (if word = [] then [] else [rev word])"
| "fields_from word (c # cs) =
     (if is_space c then (if word = [] then fields_from [] cs else rev word # fields_from [] cs)
      else fields_from (c # word) cs)"

definition fields_of :: "string \<Rightarrow> string list" where
  "fields_of s = fields_from [] s"

text \<open>\<open>hex.DecodeString\<close>\<close>

fun hex_decode :: "string \<Rightarrow> nat list option" where
  "hex_decode [] = Some []"
| "hex_decode [c] = None"
| "hex_decode (a # b # cs) =
     (case (hex_val a, hex_val b, hex_decode cs) of
        (Some x, Some y, Some bytes) \<Rightarrow> Some ((16 * x + y) # bytes)
      | _ \<Rightarrow> None)"

definition leftPad :: "string \<Rightarrow> nat \<Rightarrow> string" where
  "leftPad value len = (if len \<le> length value then value else replicate (len - length value) CHR ''0'' @ value)"

definition route_gateway :: "string \<Rightarrow> string option" where
  "route_gateway line =
     (let fs = fields_of line in
      if length fs < 4 \<or> fs ! 1 \<noteq> ''00000000'' then None
      else (case hex_decode (leftPad (fs ! 3) 4) of
              Some [_, flags] \<Rightarrow>
                if (of_nat flags :: 8 word) AND 2 = 0 then None
                else (case hex_decode (fs ! 2) of
                        Some [b0, b1, b2, b3] \<Rightarrow> Some (v4_text (v4 (of_nat b3) (of_nat b2) (of_nat b1) (of_nat b0)))
                      | _ \<Rightarrow> None)
            | _ \<Rightarrow> None))"

fun first_gateway :: "string list \<Rightarrow> string option" where
  "first_gateway [] = None"
| "first_gateway (line # lines) = (case route_gateway line of Some g \<Rightarrow> Some g | None \<Rightarrow> first_gateway lines)"

definition parseRoute :: "string \<Rightarrow> string + string" where
  "parseRoute content =
     (let (lines, too_long) = scan_lines 65536 content in
      case lines of
        [] \<Rightarrow> Inl ''route table is empty''
      | _ # rest \<Rightarrow>
          (case first_gateway rest of
             Some g \<Rightarrow> Inr g
           | None \<Rightarrow> if too_long then Inl ''read route table'' else Inl ''default gateway unavailable''))"

text \<open>The answer of \<open>route -n get default\<close> on macOS.\<close>

fun gateway_line :: "string list \<Rightarrow> string option" where
  "gateway_line [] = None"
| "gateway_line (line # lines) =
     (case cut CHR '':'' line of
        Some (key, value) \<Rightarrow>
          if trim_space key = ''gateway'' \<and> trim_space value \<noteq> '''' then Some (trim_space value) else gateway_line lines
      | None \<Rightarrow> gateway_line lines)"

definition DefaultGateway_darwin :: "string + string \<Rightarrow> string + string" where
  "DefaultGateway_darwin output =
     (case output of
        Inl e \<Rightarrow> Inl e
      | Inr out \<Rightarrow> (case gateway_line (split_at CHR 0x0A out) of
            Some g \<Rightarrow> Inr g | None \<Rightarrow> Inl ''default gateway unavailable''))"

text \<open>The forwarding table of Windows: the default route with the smallest metric.\<close>

record ipForwardRow =
  ifr_Destination :: u32
  ifr_Mask :: u32
  ifr_NextHop :: u32
  ifr_Metric1 :: u32

definition better_row :: "u32 \<times> u32 \<Rightarrow> ipForwardRow \<Rightarrow> u32 \<times> u32" where
  "better_row b row =
     (if ifr_Destination row = 0 \<and> ifr_Mask row = 0 \<and> ifr_NextHop row \<noteq> 0 \<and> ifr_Metric1 row < snd b
      then (ifr_NextHop row, ifr_Metric1 row) else b)"

definition DefaultGateway_windows :: "ipForwardRow list \<Rightarrow> string + string" where
  "DefaultGateway_windows rows =
     (let best = fst (foldl better_row (0, NOT 0) rows) in
      if best = 0 then Inl ''default gateway unavailable''
      else Inr (v4_text (v4 (byte4 best 3) (byte4 best 2) (byte4 best 1) (byte4 best 0))))"

section \<open>Targets\<close>

record pingTarget =
  pg_label :: string
  pg_address :: string
  pg_tcpAddress :: string
  pg_class :: TargetClass

definition maxLatencyTargets :: nat where "maxLatencyTargets = 8"

definition defaultTCPAddress :: "string \<Rightarrow> string" where
  "defaultTCPAddress address = JoinHostPort address ''443''"

definition target_of :: "string + string \<Rightarrow> URL option \<Rightarrow> string \<Rightarrow> pingTarget option" where
  "target_of gateway controller configured =
     (if configured = ''gateway'' then
        (case gateway of
           Inl _ \<Rightarrow> None
         | Inr g \<Rightarrow> if g = '''' then None else
             Some \<lparr>pg_label = ''gateway'', pg_address = g, pg_tcpAddress = JoinHostPort g ''80'', pg_class = TargetGateway\<rparr>)
      else if configured = ''controller'' then
        (case controller of
           None \<Rightarrow> None
         | Some u \<Rightarrow> if url_Hostname u = '''' then None else
             Some \<lparr>pg_label = ''controller'', pg_address = url_Hostname u,
               pg_tcpAddress = JoinHostPort (url_Hostname u) (if url_Port u = '''' then ''443'' else url_Port u),
               pg_class = TargetController\<rparr>)
      else (case cut_prefix configured ''anchor:'' of
              Some address \<Rightarrow> if address = '''' then None else
                Some \<lparr>pg_label = configured, pg_address = address, pg_tcpAddress = defaultTCPAddress address,
                  pg_class = TargetPublicAnchor\<rparr>
            | None \<Rightarrow>
                Some \<lparr>pg_label = configured, pg_address = configured, pg_tcpAddress = defaultTCPAddress configured,
                  pg_class = TargetCustom\<rparr>))"

fun resolve_from :: "string + string \<Rightarrow> URL option \<Rightarrow> pingTarget list \<Rightarrow> string list \<Rightarrow> pingTarget list" where
  "resolve_from gateway controller results [] = results"
| "resolve_from gateway controller results (c # cs) =
     (case target_of gateway controller c of
        None \<Rightarrow> resolve_from gateway controller results cs
      | Some t \<Rightarrow>
          if pg_label t \<in> pg_label ` set results then resolve_from gateway controller results cs
          else if length results + 1 = maxLatencyTargets then results @ [t]
          else resolve_from gateway controller (results @ [t]) cs)"

definition resolveTargets :: "string + string \<Rightarrow> URL option \<Rightarrow> string list \<Rightarrow> pingTarget list" where
  "resolveTargets gateway controller configured = resolve_from gateway controller [] configured"
section \<open>Latency\<close>

record PingResult =
  lr_Error :: string
  lr_SamplesMS :: "real list"
  lr_AvgMS :: real

text \<open>
  What one probe meets: the clock, the resolver, the ping of the diagnostics engine, and the
  dialler: an attempt answers with the time it took or an error. A dialler set on the engine
  replaces both the public and the plain one.
\<close>

record prober_env =
  pv_now :: time
  pv_lookup :: "string \<Rightarrow> string + IP list"
  pv_ping :: "string \<Rightarrow> PingResult"
  pv_Dial :: "(string \<Rightarrow> string + duration) option"
  pv_plain :: "string \<Rightarrow> string + duration"
  pv_connect :: "IP \<Rightarrow> string \<Rightarrow> string + duration"
  pv_ended :: "IP \<Rightarrow> bool"

datatype contact = Pinged string | DialledPublic string | DialledPlain string | DialledWith string

definition public_only :: "pingTarget \<Rightarrow> bool" where
  "public_only t \<longleftrightarrow> pg_class t = TargetPublicAnchor \<or> pg_class t = TargetCustom"

definition resolvePublicAddress :: "(string \<Rightarrow> string + IP list) \<Rightarrow> string \<Rightarrow> string + string" where
  "resolvePublicAddress lookup host =
     (case ParseIP host of
        Some ip \<Rightarrow> if IsPublicIP (Some ip) then Inr (IP_String ip) else Inl ''private or local target rejected''
      | None \<Rightarrow>
          (case lookup host of
             Inl e \<Rightarrow> Inl e
           | Inr ips \<Rightarrow> (case find (\<lambda>ip. IsPublicIP (Some ip)) ips of
                 Some ip \<Rightarrow> Inr (IP_String ip) | None \<Rightarrow> Inl ''target did not resolve publicly'')))"

definition prober_dial :: "prober_env \<Rightarrow> bool \<Rightarrow> string \<Rightarrow> contact \<times> (string + duration)" where
  "prober_dial env publicOnly address =
     (case pv_Dial env of
        Some dial \<Rightarrow> (DialledWith address, dial address)
      | None \<Rightarrow>
          if publicOnly
          then (DialledPublic address,
                case DialPublicContext (pv_lookup env) (pv_connect env) (pv_ended env) address of
                  Inl _ \<Rightarrow> Inl ''dial'' | Inr elapsed \<Rightarrow> Inr elapsed)
          else (DialledPlain address, pv_plain env address))"

definition failed_sample :: "prober_env \<Rightarrow> pingTarget \<Rightarrow> Sample" where
  "failed_sample env t = \<lparr>am_Timestamp = pv_now env, am_Target = pg_label t, am_RTTMS = Some 0, am_Success = False,
     am_Fallback = ''none'', am_TargetClass = pg_class t, am_ProbeMethod = ProbeICMP\<rparr>"

definition ping_sample :: "prober_env \<Rightarrow> pingTarget \<Rightarrow> PingResult \<Rightarrow> Sample" where
  "ping_sample env t r =
     (failed_sample env t)\<lparr>am_Success := lr_Error r = '''' \<and> lr_SamplesMS r \<noteq> [],
       am_RTTMS := Some (if lr_SamplesMS r \<noteq> [] then hd (lr_SamplesMS r) else if lr_Error r = '''' then lr_AvgMS r else 0)\<rparr>"

text \<open>The probe of a target whose addresses are settled.\<close>

definition probe_resolved :: "prober_env \<Rightarrow> pingTarget \<Rightarrow> Sample \<times> contact list" where
  "probe_resolved env t =
     (let sample = ping_sample env t (pv_ping env (pg_address t)) in
      if am_Success sample \<or> pg_tcpAddress t = '''' then (sample, [Pinged (pg_address t)])
      else let (contact, outcome) = prober_dial env (public_only t) (pg_tcpAddress t)
           in (case outcome of
                 Inl _ \<Rightarrow> sample
               | Inr elapsed \<Rightarrow> sample\<lparr>am_Success := True, am_RTTMS := Some (real_of_int (elapsed div 1000) / 1000),
                   am_ProbeMethod := ProbeTCPConnect, am_Fallback := ''tcp_connect''\<rparr>,
               [Pinged (pg_address t), contact]))"

definition probe_target :: "prober_env \<Rightarrow> pingTarget \<Rightarrow> Sample \<times> contact list" where
  "probe_target env t =
     (if public_only t
      then (case resolvePublicAddress (pv_lookup env) (pg_address t) of
              Inl _ \<Rightarrow> (failed_sample env t, [])
            | Inr address \<Rightarrow> probe_resolved env (t\<lparr>pg_address := address, pg_tcpAddress := JoinHostPort address ''443''\<rparr>))
      else probe_resolved env t)"

text \<open>The targets are probed concurrently, each in its own environment; the samples keep their order.\<close>

definition Latency :: "(nat \<Rightarrow> prober_env) \<Rightarrow> string + string \<Rightarrow> URL option \<Rightarrow> string list \<Rightarrow> (Sample \<times> contact list) list" where
  "Latency env gateway controller configured =
     (let targets = resolveTargets gateway controller configured
      in map (\<lambda>i. probe_target (env i) (targets ! i)) [0..<length targets])"

section \<open>DNS and HTTP\<close>

record DNSRow =
  dr_Resolver :: string
  dr_Domain :: string
  dr_LatencyMS :: int
  dr_WarmLatencyMS :: int
  dr_Status :: string
  dr_Error :: string

definition dns_check :: "int \<Rightarrow> bool \<Rightarrow> DNSRow \<Rightarrow> DNSCheck" where
  "dns_check timestamp suspected row =
     \<lparr>dc_Timestamp = timestamp, dc_Resolver = dr_Resolver row, dc_Domain = dr_Domain row,
      dc_ColdMS = real_of_int (dr_LatencyMS row), dc_WarmMS = real_of_int (dr_WarmLatencyMS row),
      dc_Status = (if dr_Status row = ''NO_ANSWER'' \<or> dr_Status row = '''' then ''ERROR'' else dr_Status row),
      dc_Hijack = suspected, dc_Error = Pulse_Prelude.truncate (dr_Error row) 512\<rparr>"

definition prober_DNS :: "time \<Rightarrow> (string list \<Rightarrow> string list \<Rightarrow> DNSRow list \<times> bool) \<Rightarrow> string list \<Rightarrow> string list \<Rightarrow> DNSCheck list" where
  "prober_DNS now run domains resolvers =
     (let (rows, suspected) = run domains resolvers in map (dns_check (Unix now) suspected) rows)"

record HTTPRow =
  hr_URL :: string
  hr_DNSMS :: int
  hr_ConnectMS :: int
  hr_TLSMS :: int
  hr_TTFBMS :: int
  hr_TotalMS :: int
  hr_HTTPStatus :: int
  hr_TLSValid :: bool
  hr_Error :: string

definition http_check :: "int \<Rightarrow> bool \<Rightarrow> HTTPRow \<Rightarrow> HTTPCheck" where
  "http_check timestamp captive row =
     \<lparr>hk_Timestamp = timestamp, hk_Target = hr_URL row, hk_DNSMS = real_of_int (hr_DNSMS row),
      hk_ConnectMS = real_of_int (hr_ConnectMS row), hk_TLSMS = real_of_int (hr_TLSMS row),
      hk_TTFBMS = real_of_int (hr_TTFBMS row), hk_TotalMS = real_of_int (hr_TotalMS row),
      hk_Status = hr_HTTPStatus row, hk_TLSValid = hr_TLSValid row, hk_Captive = captive,
      hk_Error = Pulse_Prelude.truncate (hr_Error row) 512, hk_TargetClass = TargetCustom, hk_ProbeMethod = ProbeHTTPS\<rparr>"

definition ProbePath :: string where "ProbePath = ''/api/v2/sensors/probe/''"

definition controllerProbeURL :: "lib \<Rightarrow> string \<Rightarrow> string" where
  "controllerProbeURL l controllerURL =
     (case lib_ParseURL l controllerURL of
        None \<Rightarrow> ''''
      | Some u \<Rightarrow> if url_Host u = '''' then ''''
          else lib_URLString l (u\<lparr>url_Path := ProbePath, url_RawPath := '''', url_RawQuery := '''', url_Fragment := ''''\<rparr>))"

text \<open>
  \<open>run_controller\<close> and \<open>run_public\<close> are \<open>RunHTTPCheck\<close> with the options of the two calls; the second
  dials through \<open>DialPublicContext\<close> and says whether it suspects a captive portal.
\<close>

definition prober_HTTP ::
  "time \<Rightarrow> lib \<Rightarrow> (string \<Rightarrow> HTTPRow list) \<Rightarrow> (string list \<Rightarrow> HTTPRow list \<times> bool) \<Rightarrow> bool \<Rightarrow> string \<Rightarrow> string list \<Rightarrow> HTTPCheck list" where
  "prober_HTTP now l run_controller run_public std_transport controllerURL configured =
     (let probeURL = controllerProbeURL l controllerURL;
          own = (if probeURL = '''' then [] else run_controller probeURL);
          (rows, captive) = (if std_transport \<and> configured \<noteq> [] then run_public configured else ([], False))
      in map (http_check (Unix now) captive) (own @ rows))"

section \<open>Targets are bounded\<close>

lemma target_of_label: "target_of gateway controller c = Some t \<Longrightarrow> pg_label t = c"
  by (auto simp: target_of_def split: if_splits sum.splits option.splits)

lemma resolve_from_spec:
  "distinct (map pg_label results) \<Longrightarrow> length results < maxLatencyTargets \<Longrightarrow>
     (let ts = resolve_from gateway controller results cs in
      distinct (map pg_label ts) \<and> length ts \<le> maxLatencyTargets
      \<and> pg_label ` set ts \<subseteq> pg_label ` set results \<union> set cs)"
proof (induction cs arbitrary: results)
  case (Cons c cs)
  show ?case
  proof (cases "target_of gateway controller c")
    case None
    then show ?thesis using Cons.IH[OF Cons.prems] by (auto simp: Let_def)
  next
    case (Some t)
    then have label: "pg_label t = c" by (rule target_of_label)
    show ?thesis
    proof (cases "pg_label t \<in> pg_label ` set results")
      case True
      then show ?thesis using Cons.IH[OF Cons.prems] Some by (auto simp: Let_def)
    next
      case new: False
      then have d: "distinct (map pg_label (results @ [t]))" using Cons.prems by simp
      show ?thesis
      proof (cases "length results + 1 = maxLatencyTargets")
        case True
        then show ?thesis using new Some label d by (auto simp: Let_def)
      next
        case False
        then have "length (results @ [t]) < maxLatencyTargets" using Cons.prems(2) by simp
        from Cons.IH[OF d this] show ?thesis using new Some label False by (auto simp: Let_def)
      qed
    qed
  qed
qed (simp add: Let_def)

lemma resolveTargets_bounded:
  "distinct (map pg_label (resolveTargets gateway controller configured))"
  "length (resolveTargets gateway controller configured) \<le> 8"
  "pg_label ` set (resolveTargets gateway controller configured) \<subseteq> set configured"
  using resolve_from_spec[of "[]" gateway controller configured]
  by (simp_all add: resolveTargets_def Let_def maxLatencyTargets_def)

section \<open>Only public addresses\<close>

lemma resolvePublicAddress_public:
  "resolvePublicAddress lookup host = Inr address \<Longrightarrow> \<exists>ip. address = IP_String ip \<and> IsPublicIP (Some ip)"
  by (auto simp: resolvePublicAddress_def find_Some_iff split: option.splits sum.splits if_splits dest: sym)

lemma probe_resolved_contacts:
  "set (snd (probe_resolved env t)) \<subseteq> {Pinged (pg_address t), fst (prober_dial env (public_only t) (pg_tcpAddress t))}"
  by (auto simp: probe_resolved_def Let_def split: prod.splits sum.splits)

lemma probe_resolved_sample:
  "am_Target (fst (probe_resolved env t)) = pg_label t" "am_TargetClass (fst (probe_resolved env t)) = pg_class t"
  "am_Fallback (fst (probe_resolved env t)) = ''none'' \<or>
     am_Fallback (fst (probe_resolved env t)) = ''tcp_connect'' \<and> am_Success (fst (probe_resolved env t))"
  by (auto simp: probe_resolved_def ping_sample_def failed_sample_def Let_def split: prod.splits sum.splits)

text \<open>
  (C33) A latency round probes at most eight targets with distinct labels, all of them configured,
  and what it contacts for an anchor or a target of the controller's choice, by ping or through the
  guarded dialler, is a public address, whatever the resolver answers.
\<close>
theorem Latency_only_public:
  "length (Latency env gateway controller configured) \<le> 8
   \<and> distinct (map (\<lambda>r. am_Target (fst r)) (Latency env gateway controller configured))
   \<and> (\<forall>r \<in> set (Latency env gateway controller configured).
        am_Target (fst r) \<in> set configured
        \<and> (am_TargetClass (fst r) \<in> {TargetPublicAnchor, TargetCustom} \<longrightarrow>
             (\<forall>c \<in> set (snd r). \<exists>ip. IsPublicIP (Some ip)
                \<and> c \<in> {Pinged (IP_String ip), DialledPublic (JoinHostPort (IP_String ip) ''443''),
                       DialledWith (JoinHostPort (IP_String ip) ''443'')})))"
proof -
  define targets where "targets = resolveTargets gateway controller configured"
  have sample: "am_Target (fst (probe_target e t)) = pg_label t" "am_TargetClass (fst (probe_target e t)) = pg_class t" for e t
    by (auto simp: probe_target_def probe_resolved_sample failed_sample_def split: sum.split)
  have contacts: "\<exists>ip. IsPublicIP (Some ip) \<and> c \<in> {Pinged (IP_String ip), DialledPublic (JoinHostPort (IP_String ip) ''443''),
      DialledWith (JoinHostPort (IP_String ip) ''443'')}"
    if public: "public_only t" and c: "c \<in> set (snd (probe_target e t))" for e t c
  proof -
    obtain address where address: "resolvePublicAddress (pv_lookup e) (pg_address t) = Inr address"
      using c public by (cases "resolvePublicAddress (pv_lookup e) (pg_address t)") (simp_all add: probe_target_def)
    then obtain ip where ip: "address = IP_String ip" "IsPublicIP (Some ip)" using resolvePublicAddress_public by blast
    define u where "u = t\<lparr>pg_address := address, pg_tcpAddress := JoinHostPort address ''443''\<rparr>"
    have "c \<in> set (snd (probe_resolved e u))" using c public address by (simp add: probe_target_def u_def)
    then have "c = Pinged address \<or> c = fst (prober_dial e True (JoinHostPort address ''443''))"
      using probe_resolved_contacts[of e u] public by (auto simp: u_def public_only_def)
    moreover have "fst (prober_dial e True a) \<in> {DialledPublic a, DialledWith a}" for a
      by (simp add: prober_dial_def split: option.split)
    ultimately show ?thesis using ip by fastforce
  qed
  have labels: "map (\<lambda>r. am_Target (fst r)) (Latency env gateway controller configured) = map pg_label targets"
    by (intro nth_equalityI) (simp_all add: Latency_def targets_def Let_def sample)
  have rows: "\<exists>e. \<exists>t \<in> set targets. r = probe_target e t" if r: "r \<in> set (Latency env gateway controller configured)" for r
  proof -
    obtain i where "i < length targets" "r = probe_target (env i) (targets ! i)"
      using r by (auto simp: Latency_def targets_def Let_def)
    then show ?thesis using nth_mem by blast
  qed
  note bounds = resolveTargets_bounded[of gateway controller configured, folded targets_def]
  have "length (Latency env gateway controller configured) \<le> 8" using bounds(2) by (simp add: Latency_def targets_def Let_def)
  moreover have "am_Target (fst r) \<in> set configured" if "r \<in> set (Latency env gateway controller configured)" for r
    using rows[OF that] bounds(3) sample(1) by auto
  moreover have "\<exists>ip. IsPublicIP (Some ip) \<and> c \<in> {Pinged (IP_String ip), DialledPublic (JoinHostPort (IP_String ip) ''443''),
      DialledWith (JoinHostPort (IP_String ip) ''443'')}"
    if r: "r \<in> set (Latency env gateway controller configured)" "am_TargetClass (fst r) \<in> {TargetPublicAnchor, TargetCustom}"
      "c \<in> set (snd r)" for r c
  proof -
    obtain e t where "r = probe_target e t" using rows[OF r(1)] by blast
    then show ?thesis using r(2,3) sample(2)[of e t] by (intro contacts[of t c e]) (auto simp: public_only_def)
  qed
  ultimately show ?thesis unfolding labels using bounds(1) by blast
qed

definition demo_prober :: "nat \<Rightarrow> prober_env" where
  "demo_prober i = \<lparr>pv_now = 0, pv_lookup = \<lambda>_. Inr [IP4 (v4 10 0 0 7), IP4 (v4 1 1 1 1)],
     pv_ping = \<lambda>_. \<lparr>lr_Error = ''timeout'', lr_SamplesMS = [], lr_AvgMS = 0\<rparr>, pv_Dial = None,
     pv_plain = \<lambda>_. Inl ''refused'', pv_connect = \<lambda>_ _. Inr 12000000, pv_ended = \<lambda>_. False\<rparr>"

theorem Latency_only_public_witness:
  "\<exists>r. Latency demo_prober (Inl ''none'') None [''gateway'', ''anchor:one.test''] = [r]
     \<and> snd r = [Pinged ''1.1.1.1'', DialledPublic ''1.1.1.1:443'']
     \<and> (\<exists>ip. IsPublicIP (Some ip) \<and> Pinged ''1.1.1.1'' \<in> {Pinged (IP_String ip)})"
proof -
  have targets: "resolveTargets (Inl ''none'') None [''gateway'', ''anchor:one.test'']
      = [\<lparr>pg_label = ''anchor:one.test'', pg_address = ''one.test'', pg_tcpAddress = ''one.test:443'', pg_class = TargetPublicAnchor\<rparr>]"
    by code_simp
  have home: "\<not> IsPublicIP (Some (IP4 (v4 10 0 0 7)))" by code_simp
  have open_ip: "IsPublicIP (Some (IP4 (v4 1 1 1 1)))" by code_simp
  have shown: "IP_String (IP4 (v4 1 1 1 1)) = ''1.1.1.1''" by code_simp
  have name: "ParseIP ''one.test'' = None" by code_simp
  have address: "resolvePublicAddress (pv_lookup (demo_prober 0)) ''one.test'' = Inr ''1.1.1.1''"
    by (simp add: resolvePublicAddress_def name demo_prober_def home open_ip shown)
  have host: "JoinHostPort ''1.1.1.1'' ''443'' = ''1.1.1.1:443''" by code_simp
  define r where "r = probe_target (demo_prober 0) \<lparr>pg_label = ''anchor:one.test'', pg_address = ''one.test'',
      pg_tcpAddress = ''one.test:443'', pg_class = TargetPublicAnchor\<rparr>"
  have round: "Latency demo_prober (Inl ''none'') None [''gateway'', ''anchor:one.test''] = [r]"
    by (simp add: Latency_def targets r_def)
  have settled: "r = probe_resolved (demo_prober 0) \<lparr>pg_label = ''anchor:one.test'', pg_address = ''1.1.1.1'',
      pg_tcpAddress = ''1.1.1.1:443'', pg_class = TargetPublicAnchor\<rparr>"
    by (simp add: r_def probe_target_def public_only_def address host)
  have contacts: "snd r = [Pinged ''1.1.1.1'', DialledPublic ''1.1.1.1:443'']" and cls: "am_TargetClass (fst r) = TargetPublicAnchor"
    by (simp_all add: settled public_only_def probe_resolved_def ping_sample_def failed_sample_def
        prober_dial_def demo_prober_def split: prod.split sum.split)
  have "\<exists>ip. IsPublicIP (Some ip) \<and> Pinged ''1.1.1.1'' \<in> {Pinged (IP_String ip), DialledPublic (JoinHostPort (IP_String ip) ''443''),
      DialledWith (JoinHostPort (IP_String ip) ''443'')}"
    using Latency_only_public[of demo_prober "Inl ''none''" None "[''gateway'', ''anchor:one.test'']"]
    unfolding round by (simp add: contacts cls)
  then show ?thesis using round contacts by simp
qed

section \<open>Reading a route table\<close>

lemma hex_val_hex_digit: "n < 16 \<Longrightarrow> hex_val (hex_digit n) = Some n"
proof -
  assume "n < 16"
  then consider "n < 10" | "10 \<le> n" "n < 16" by linarith
  then show ?thesis by cases (simp_all add: hex_digit_def hex_val_def)
qed

definition hex_byte :: "nat \<Rightarrow> string" where
  "hex_byte b = [hex_digit (b div 16), hex_digit (b mod 16)]"

lemma hex_decode_bytes: "\<forall>b\<in>set bs. b < 256 \<Longrightarrow> hex_decode (concat (map hex_byte bs)) = Some bs"
proof (induction bs)
  case (Cons b bs)
  then have "b div 16 < 16" "b mod 16 < 16" by (auto simp: less_mult_imp_div_less)
  then show ?case using Cons by (simp add: hex_byte_def hex_val_hex_digit)
qed simp

text \<open>The kernel prints the four bytes of the gateway in the order of a little-endian machine.\<close>

definition route_hex :: "u32 \<Rightarrow> string" where
  "route_hex w = concat (map (\<lambda>i. hex_byte (unat (byte4 w i))) [3, 2, 1, 0])"

lemma byte4_less: "unat (byte4 w i) < 256"
proof -
  have "byte4 w i \<le> 0xFF" unfolding byte4_def by (rule word_and_le1)
  then show ?thesis by (simp add: word_le_nat_alt)
qed

lemma v4_bytes: "v4 (byte4 w 0) (byte4 w 1) (byte4 w 2) (byte4 w 3) = w"
proof (rule bit_word_eqI)
  fix n assume "n < LENGTH(32)"
  then consider "n < 8" | k where "n = k + 8" "k < 8" | k where "n = k + 16" "k < 8" | k where "n = k + 24" "k < 8"
    by (cases "n < 8"; cases "n < 16"; cases "n < 24") (auto dest!: le_Suc_ex simp: not_less add.commute intro: that)
  then show "bit (v4 (byte4 w 0) (byte4 w 1) (byte4 w 2) (byte4 w 3)) n = bit w n"
    by cases (auto simp: v4_def byte4_def byte_mask bit_simps add.commute)
qed

lemma hex_decode_route: "hex_decode (route_hex w) = Some [unat (byte4 w 3), unat (byte4 w 2), unat (byte4 w 1), unat (byte4 w 0)]"
proof -
  have "route_hex w = concat (map hex_byte [unat (byte4 w 3), unat (byte4 w 2), unat (byte4 w 1), unat (byte4 w 0)])"
    by (simp add: route_hex_def)
  then show ?thesis using hex_decode_bytes[of "[unat (byte4 w 3), unat (byte4 w 2), unat (byte4 w 1), unat (byte4 w 0)]"]
    by (simp only:) (simp add: byte4_less)
qed

lemma fields_from_word: "list_all (\<lambda>c. \<not> is_space c) s \<Longrightarrow> fields_from word (s @ cs) = fields_from (rev s @ word) cs"
  by (induction s arbitrary: word) simp_all

lemma fields_from_cell:
  assumes "list_all (\<lambda>c. \<not> is_space c) s" "s \<noteq> []"
  shows "fields_from [] (s @ CHR 0x09 # cs) = s # fields_from [] cs"
  using assms by (simp add: fields_from_word is_space_def)

lemma hex_digit_no_space: "n < 16 \<Longrightarrow> \<not> is_space (hex_digit n)"
proof
  assume n: "n < 16" and s: "is_space (hex_digit n)"
  from hex_val_hex_digit[OF n] have "hex_val (hex_digit n) \<noteq> None" by simp
  moreover from s have "hex_val (hex_digit n) = None" by (auto simp: is_space_def hex_val_def)
  ultimately show False by simp
qed

lemma route_hex_cell: "list_all (\<lambda>c. \<not> is_space c) (route_hex w)" "route_hex w \<noteq> []"
proof -
  have "unat (byte4 w i) div 16 < 16" "unat (byte4 w i) mod 16 < 16" for i
    using byte4_less[of w i] by (auto simp: less_mult_imp_div_less)
  then show "list_all (\<lambda>c. \<not> is_space c) (route_hex w)" by (simp add: route_hex_def hex_byte_def hex_digit_no_space)
qed (simp add: route_hex_def hex_byte_def)

definition route_line :: "string \<Rightarrow> u32 \<Rightarrow> string" where
  "route_line name w = name @ CHR 0x09 # ''00000000'' @ CHR 0x09 # route_hex w @ CHR 0x09 # ''0003'' @ [CHR 0x09, CHR ''0'']"

lemma route_line_fields:
  assumes "list_all (\<lambda>c. \<not> is_space c) name" "name \<noteq> []"
  shows "fields_of (route_line name w) = [name, ''00000000'', route_hex w, ''0003'', ''0'']"
proof -
  have zeros: "list_all (\<lambda>c. \<not> is_space c) ''00000000''" "list_all (\<lambda>c. \<not> is_space c) ''0003''" by (simp_all add: is_space_def)
  show ?thesis
    using fields_from_cell[OF assms] fields_from_cell[OF zeros(1)] fields_from_cell[OF route_hex_cell] fields_from_cell[OF zeros(2)]
    by (simp add: fields_of_def route_line_def is_space_def)
qed

lemma route_gateway_line:
  assumes "list_all (\<lambda>c. \<not> is_space c) name" "name \<noteq> []"
  shows "route_gateway (route_line name w) = Some (v4_text w)"
proof -
  have flags: "hex_decode (leftPad ''0003'' 4) = Some [0, 3]" by code_simp
  have "(3 :: 8 word) AND 2 \<noteq> 0" by simp
  then show ?thesis using v4_bytes[of w]
    by (simp add: route_gateway_def route_line_fields[OF assms] flags hex_decode_route Let_def)
qed

lemma route_hex_length: "length (route_hex w) = 8"
  by (simp add: route_hex_def hex_byte_def)

lemma no_space_no_newline: "list_all (\<lambda>c. \<not> is_space c) s \<Longrightarrow> CHR 0x0A \<notin> set s"
  by (auto simp: list_all_iff is_space_def)

text \<open>
  Reading a route table of the kernel gives back the gateway its default route was printed
  with: for every IPv4 gateway and every interface name, after the header line.
\<close>
theorem parseRoute_reads_back:
  assumes "CHR 0x0A \<notin> set header \<and> (header \<noteq> [] \<longrightarrow> last header \<noteq> CHR 0x0D)" "length header < 65536"
    and "list_all (\<lambda>c. \<not> is_space c) name" "name \<noteq> []" "length name < 256"
  shows "parseRoute (header @ CHR 0x0A # route_line name w @ [CHR 0x0A]) = Inr (IP_String (IP4 w))"
proof -
  have cell: "CHR 0x0A \<notin> set (route_line name w)"
    using no_space_no_newline[OF assms(3)] no_space_no_newline[OF route_hex_cell(1)] by (simp add: route_line_def)
  have strip: "last (route_line name w) \<noteq> CHR 0x0D" by (simp add: route_line_def)
  have "length (route_line name w) < 65536" using assms(5) by (simp add: route_line_def route_hex_length)
  then have "scan_lines 65536 (concat (map (\<lambda>l. l @ [CHR 0x0A]) [header, route_line name w])) = ([header, route_line name w], False)"
    using assms(1,2) cell strip by (intro scan_lines_written) simp
  then show ?thesis
    by (simp add: parseRoute_def route_gateway_line[OF assms(3,4)] IP_String_def)
qed

theorem parseRoute_reads_back_witness:
  "parseRoute (''Iface'' @ CHR 0x0A # route_line ''eth0'' (v4 192 168 1 254) @ [CHR 0x0A]) = Inr (IP_String (IP4 (v4 192 168 1 254)))"
  by (rule parseRoute_reads_back) (simp_all add: is_space_def)

end
