(* ===== verification/Platform_Link.thy ===== *)
theory Platform_Link
  imports Measurement Prober
begin

text \<open>
  What the platforms report of the link (\<open>internal/measurement/link_linux.go\<close>, \<open>link_darwin.go\<close>,
  \<open>link_darwin_cgo.go\<close>, \<open>link_windows.go\<close> and the \<open>counters_*.go\<close>): the readers of the kernel's and
  the tools' texts, the tables of radio numbers, and the local context put together from them. The
  texts themselves, the answers of the wireless libraries and \<open>strconv.ParseFloat\<close> are parameters; a
  number outside the range of \<open>float64\<close> counts as unreadable.
\<close>

section \<open>Numbers\<close>

definition parse_u64 :: "string \<Rightarrow> u64 option" where
  "parse_u64 s = (case parse_digits s of Some n \<Rightarrow> if n < 2 ^ 64 then Some (word_of_int n) else None | None \<Rightarrow> None)"

definition trunc_real :: "real \<Rightarrow> int" where
  "trunc_real x = (if x < 0 then \<lceil>x\<rceil> else \<lfloor>x\<rfloor>)"

type_synonym float_parser = "string \<Rightarrow> real option"

definition or_zero :: "real option \<Rightarrow> real" where
  "or_zero x = (case x of Some v \<Rightarrow> v | None \<Rightarrow> 0)"

definition leadingFloat :: "float_parser \<Rightarrow> string \<Rightarrow> real option" where
  "leadingFloat pf value = (case fields_of value of [] \<Rightarrow> None | f # _ \<Rightarrow> pf f)"

section \<open>Byte counters\<close>

text \<open>Linux: the sum over every interface of \<open>/proc/net/dev\<close> but the loopback, in wrapping arithmetic.\<close>

definition dev_line :: "string \<Rightarrow> u64" where
  "dev_line line =
     (case cut CHR '':'' line of
        None \<Rightarrow> 0
      | Some (name, vals) \<Rightarrow>
          if trim_space name = ''lo'' \<or> length (fields_of vals) < 9 then 0
          else (case (parse_u64 (fields_of vals ! 0), parse_u64 (fields_of vals ! 8)) of
                  (Some received, Some transmitted) \<Rightarrow> received + transmitted
                | _ \<Rightarrow> 0))"

definition totalInterfaceBytes_linux :: "string option \<Rightarrow> string + u64" where
  "totalInterfaceBytes_linux file =
     (case file of
        None \<Rightarrow> Inl ''open /proc/net/dev''
      | Some content \<Rightarrow>
          let (lines, too_long) = scan_lines 65536 content
          in if too_long then Inl ''read interface counters'' else Inr (sum_list (map dev_line lines)))"

text \<open>macOS: the largest sum of an interface over its rows of \<open>netstat -ibn\<close>.\<close>

definition fieldIndex :: "string list \<Rightarrow> string \<Rightarrow> nat option" where
  "fieldIndex header wanted = (if wanted \<in> set header then Some (length (takeWhile (\<lambda>f. f \<noteq> wanted) header)) else None)"

definition netstat_row :: "nat \<Rightarrow> nat \<Rightarrow> nat \<Rightarrow> (string \<rightharpoonup> u64) \<Rightarrow> string \<Rightarrow> (string \<rightharpoonup> u64)" where
  "netstat_row n i out m line =
     (let fs = fields_of line in
      if length fs \<le> max n (max i out) \<or> fs ! n = ''lo0'' then m
      else (case (parse_u64 (fs ! i), parse_u64 (fs ! out)) of
              (Some received, Some transmitted) \<Rightarrow>
                if received + transmitted > (case m (fs ! n) of Some v \<Rightarrow> v | None \<Rightarrow> 0)
                then m(fs ! n \<mapsto> received + transmitted) else m
            | _ \<Rightarrow> m))"

definition row_names :: "nat \<Rightarrow> string list \<Rightarrow> string list" where
  "row_names n lines = remdups (map (\<lambda>fs. fs ! n) (filter (\<lambda>fs. n < length fs) (map fields_of lines)))"

definition totalInterfaceBytes_darwin :: "string + string \<Rightarrow> string + u64" where
  "totalInterfaceBytes_darwin output =
     (case output of
        Inl e \<Rightarrow> Inl e
      | Inr out \<Rightarrow>
          (case split_at CHR 0x0A out of
             first # second # rest \<Rightarrow>
               (case (fieldIndex (fields_of first) ''Name'', fieldIndex (fields_of first) ''Ibytes'', fieldIndex (fields_of first) ''Obytes'') of
                  (Some n, Some i, Some b) \<Rightarrow>
                    let m = foldl (netstat_row n i b) Map.empty (second # rest)
                    in Inr (sum_list (map (\<lambda>k. case m k of Some v \<Rightarrow> v | None \<Rightarrow> 0) (row_names n (second # rest))))
                | _ \<Rightarrow> Inl ''netstat counter columns unavailable'')
           | _ \<Rightarrow> Inl ''netstat returned no counters''))"

text \<open>Windows: the first line of \<open>netstat -e\<close> with a word and two numbers.\<close>

fun first_counters :: "string list \<Rightarrow> u64 option" where
  "first_counters [] = None"
| "first_counters (line # lines) =
     (case fields_of line of
        [_, a, b] \<Rightarrow>
          (case (parse_u64 a, parse_u64 b) of (Some received, Some transmitted) \<Rightarrow> Some (received + transmitted) | _ \<Rightarrow> first_counters lines)
      | _ \<Rightarrow> first_counters lines)"

definition totalInterfaceBytes_windows :: "string + string \<Rightarrow> string + u64" where
  "totalInterfaceBytes_windows output =
     (case output of
        Inl e \<Rightarrow> Inl e
      | Inr out \<Rightarrow> (case first_counters (split_at CHR 0x0A out) of
            Some v \<Rightarrow> Inr v | None \<Rightarrow> Inl ''interface counters unavailable on Windows''))"

section \<open>Channels and frequencies\<close>

definition wifiChannel :: "int \<Rightarrow> int" where
  "wifiChannel frequency =
     (if frequency = 2484 then 14
      else if frequency \<ge> 2412 \<and> frequency \<le> 2472 then (frequency - 2407) div 5
      else if frequency \<ge> 5000 \<and> frequency \<le> 5895 then (frequency - 5000) div 5
      else if frequency \<ge> 5955 \<and> frequency \<le> 7115 then (frequency - 5950) div 5
      else 0)"

definition corewlanBandFrequencyMHz :: "int \<Rightarrow> int \<Rightarrow> int" where
  "corewlanBandFrequencyMHz band channel =
     (if band = 1 then (if channel = 14 then 2484 else if 1 \<le> channel \<and> channel \<le> 13 then 2407 + channel * 5 else 0)
      else if band = 2 then (if channel > 0 then 5000 + channel * 5 else 0)
      else if band = 3 then (if channel > 0 then 5950 + channel * 5 else 0)
      else 0)"

definition corewlanChannelWidthMHz :: "int \<Rightarrow> int" where
  "corewlanChannelWidthMHz width = (if width = 1 then 20 else if width = 2 then 40 else if width = 3 then 80 else if width = 4 then 160 else 0)"

definition corewlanPHYName :: "int \<Rightarrow> string" where
  "corewlanPHYName mode =
     (if mode = 1 then ''802.11a'' else if mode = 2 then ''802.11b'' else if mode = 3 then ''802.11g'' else if mode = 4 then ''802.11n''
      else if mode = 5 then ''802.11ac'' else if mode = 6 then ''802.11ax'' else if mode = 7 then ''802.11be'' else '''')"

definition corewlanSecurityName :: "int \<Rightarrow> string" where
  "corewlanSecurityName s =
     (if s = 0 then ''none'' else if s = 1 then ''wep'' else if s = 2 \<or> s = 3 then ''wpa_personal''
      else if s = 4 \<or> s = 5 then ''wpa2_personal'' else if s = 6 then ''dynamic_wep'' else if s = 7 \<or> s = 8 then ''wpa_enterprise''
      else if s = 9 \<or> s = 10 then ''wpa2_enterprise'' else if s = 11 then ''wpa3_personal'' else if s = 12 then ''wpa3_enterprise''
      else if s = 13 then ''wpa3_transition'' else if s = 14 \<or> s = 15 then ''owe'' else '''')"

definition darwinFrequency :: "int \<Rightarrow> string \<Rightarrow> int" where
  "darwinFrequency channel detail =
     (let lower = to_lower detail in
      if contains_str lower ''6ghz'' \<and> channel > 0 then 5950 + 5 * channel
      else if contains_str lower ''5ghz'' \<and> channel > 0 then 5000 + 5 * channel
      else if channel = 14 then 2484
      else if channel \<ge> 1 \<and> channel \<le> 13 then 2407 + 5 * channel
      else 0)"

fun split_fields :: "(char \<Rightarrow> bool) \<Rightarrow> string \<Rightarrow> string \<Rightarrow> string list" where
  "split_fields sep word [] = (if word = [] then [] else [rev word])"
| "split_fields sep word (c # cs) =
     (if sep c then (if word = [] then split_fields sep [] cs else rev word # split_fields sep [] cs)
      else split_fields sep (c # word) cs)"

fun first_width :: "string list \<Rightarrow> int" where
  "first_width [] = 0"
| "first_width (f # fs) =
     (if has_suffix f ''mhz''
      then (case atoi (trim_suffix f ''mhz'') of Some v \<Rightarrow> if 5 \<le> v \<and> v \<le> 320 then v else first_width fs | None \<Rightarrow> first_width fs)
      else first_width fs)"

definition darwinChannelWidth :: "string \<Rightarrow> int" where
  "darwinChannelWidth detail =
     first_width (split_fields (\<lambda>c. c = CHR '' '' \<or> c = CHR '','' \<or> c = CHR ''('' \<or> c = CHR '')'') [] (to_lower detail))"

definition windowsPHY :: "u32 \<Rightarrow> string" where
  "windowsPHY v =
     (if v = 4 then ''802.11a'' else if v = 5 then ''802.11b'' else if v = 6 then ''802.11g'' else if v = 7 then ''802.11n''
      else if v = 8 then ''802.11ac'' else if v = 10 then ''802.11ax'' else ''unknown'')"

text \<open>A channel of a band has the frequency from which the channel is read back.\<close>

lemma wifi_channel_read_back:
  "band = 1 \<Longrightarrow> 1 \<le> channel \<Longrightarrow> channel \<le> 14 \<Longrightarrow> wifiChannel (corewlanBandFrequencyMHz band channel) = channel"
  "band = 2 \<Longrightarrow> 1 \<le> channel \<Longrightarrow> channel \<le> 179 \<Longrightarrow> wifiChannel (corewlanBandFrequencyMHz band channel) = channel"
  "band = 3 \<Longrightarrow> 1 \<le> channel \<Longrightarrow> channel \<le> 233 \<Longrightarrow> wifiChannel (corewlanBandFrequencyMHz band channel) = channel"
  by (simp_all add: wifiChannel_def corewlanBandFrequencyMHz_def)
section \<open>Linux\<close>

definition no_context :: LocalContext where
  "no_context = \<lparr>xc_InterfaceType = '''', xc_LinkMbps = 0, xc_TXLinkMbps = 0, xc_RXLinkMbps = 0, xc_RSSIDBm = 0, xc_NoiseDBm = 0,
     xc_SNRDB = 0, xc_FrequencyMHz = 0, xc_Channel = 0, xc_ChannelWidthMHz = 0, xc_PHY = '''', xc_Security = '''', xc_SSID = '''',
     xc_Metered = False, xc_OnBattery = False, xc_BatteryPct = 0, xc_ContextAvailable = False, xc_Gateway = '''', xc_NetworkIdentity = '''',
     xc_PowerAvailable = False, xc_MeteredAvailable = False\<rparr>"

definition ethernet_context :: LocalContext where
  "ethernet_context = no_context\<lparr>xc_InterfaceType := ''ethernet'', xc_ContextAvailable := True\<rparr>"

text \<open>The default route: the interface and its gateway, whose bytes are printed in reverse.\<close>

definition hex_pair :: "string \<Rightarrow> nat option" where
  "hex_pair s = (case hex_decode s of Some [b] \<Rightarrow> Some b | _ \<Rightarrow> None)"

fun route_rows :: "string list \<Rightarrow> string \<times> string" where
  "route_rows [] = ('''', '''')"
| "route_rows (line # lines) =
     (let fs = fields_of line in
      if length fs \<ge> 4 \<and> fs ! 1 = ''00000000'' \<and> length (fs ! 2) = 8
      then (case map hex_pair [take 2 (drop 6 (fs ! 2)), take 2 (drop 4 (fs ! 2)), take 2 (drop 2 (fs ! 2)), take 2 (fs ! 2)] of
              [Some a, Some b, Some c, Some d] \<Rightarrow> (fs ! 0, join_with ''.'' (map nat_digits [a, b, c, d]))
            | _ \<Rightarrow> (fs ! 0, ''''))
      else route_rows lines)"

definition linuxDefaultRoute :: "string option \<Rightarrow> string \<times> string" where
  "linuxDefaultRoute file = (case file of None \<Rightarrow> ('''', '''') | Some content \<Rightarrow>
     (case fst (scan_lines 65536 content) of [] \<Rightarrow> ('''', '''') | _ # rest \<Rightarrow> route_rows rest))"

fun wireless_rows :: "float_parser \<Rightarrow> string \<Rightarrow> string list \<Rightarrow> real option" where
  "wireless_rows pf iface [] = None"
| "wireless_rows pf iface (line # lines) =
     (case cut CHR '':'' line of
        None \<Rightarrow> wireless_rows pf iface lines
      | Some (name, vals) \<Rightarrow>
          if trim_space name \<noteq> iface then wireless_rows pf iface lines
          else if length (fields_of vals) < 3 then None
          else pf (trim_suffix (fields_of vals ! 2) ''.''))"

definition linuxWirelessRSSI :: "float_parser \<Rightarrow> string option \<Rightarrow> string \<Rightarrow> real option" where
  "linuxWirelessRSSI pf file iface =
     (case file of None \<Rightarrow> None | Some content \<Rightarrow> wireless_rows pf iface (fst (scan_lines 65536 content)))"

text \<open>The capacities and the mains states that were found; \<open>None\<close> is a file that cannot be read.\<close>

definition linuxBattery :: "float_parser \<Rightarrow> string option list \<Rightarrow> string option list \<Rightarrow> bool \<times> real \<times> bool" where
  "linuxBattery pf capacities mains =
     (case capacities of
        [] \<Rightarrow> (False, 0, True)
      | None # _ \<Rightarrow> (False, 0, False)
      | Some raw # _ \<Rightarrow>
          (case pf (trim_space raw) of
             None \<Rightarrow> (False, 0, False)
           | Some pct \<Rightarrow> (case mains of Some online # _ \<Rightarrow> trim_space online \<noteq> ''1'' | _ \<Rightarrow> True, pct, True)))"

text \<open>The association a wireless interface reports.\<close>

record bss_info =
  bss_Signal :: int
  bss_Frequency :: int
  bss_BSSID :: string
  bss_SSID :: string

record linux_world =
  lx_route :: "string option"
  lx_interfaces :: "(string \<times> bss_info option) list"
  lx_wireless :: "string option"
  lx_speed :: "string option"
  lx_capacities :: "string option list"
  lx_mains :: "string option list"
  lx_nmcli :: "string option"

definition linuxWirelessContext :: "linux_world \<Rightarrow> string \<Rightarrow> bool \<Rightarrow> (LocalContext \<Rightarrow> LocalContext) option" where
  "linuxWirelessContext w name includeSSID =
     (case List.find (\<lambda>i. fst i = name) (lx_interfaces w) of
        Some (_, Some b) \<Rightarrow> Some (\<lambda>out. out\<lparr>xc_InterfaceType := ''wifi'', xc_RSSIDBm := real_of_int (bss_Signal b) / 100,
            xc_Channel := wifiChannel (bss_Frequency b), xc_FrequencyMHz := bss_Frequency b,
            xc_SSID := (if includeSSID then bss_SSID b else ''''), xc_NetworkIdentity := bss_BSSID b\<rparr>)
      | _ \<Rightarrow> None)"

definition linux_metered :: "string option \<Rightarrow> bool \<times> bool" where
  "linux_metered output = (case output of None \<Rightarrow> (False, False) | Some out \<Rightarrow> parseMeteredValue out)"

definition linux_context :: "float_parser \<Rightarrow> linux_world \<Rightarrow> string \<Rightarrow> string \<Rightarrow> bool \<Rightarrow> LocalContext" where
  "linux_context pf w iface gateway includeSSID =
     (let base = ethernet_context\<lparr>xc_Gateway := gateway\<rparr>;
          radio = (case linuxWirelessContext w iface includeSSID of
                     Some f \<Rightarrow> f base
                   | None \<Rightarrow> (case linuxWirelessRSSI pf (lx_wireless w) iface of
                         Some rssi \<Rightarrow> base\<lparr>xc_InterfaceType := ''wifi'', xc_RSSIDBm := rssi\<rparr> | None \<Rightarrow> base));
          linked = (case lx_speed w of Some raw \<Rightarrow> radio\<lparr>xc_LinkMbps := or_zero (pf (trim_space raw))\<rparr> | None \<Rightarrow> radio);
          (battery, pct, known) = linuxBattery pf (lx_capacities w) (lx_mains w)
      in linked\<lparr>xc_OnBattery := battery, xc_BatteryPct := pct, xc_PowerAvailable := known\<rparr>)"

definition platformContext_linux ::
  "float_parser \<Rightarrow> linux_world \<Rightarrow> time \<Rightarrow> bool \<Rightarrow> MeteredCache \<Rightarrow> MeteredCache \<times> LocalContext option" where
  "platformContext_linux pf w now includeSSID cache =
     (let (iface, gateway) = linuxDefaultRoute (lx_route w) in
      if iface = '''' then (cache, None)
      else let out = linux_context pf w iface gateway includeSSID;
               (cache', metered, available) = cachedMetered now (iface @ ''|'' @ xc_NetworkIdentity out) (linux_metered (lx_nmcli w)) cache
           in (cache', Some (out\<lparr>xc_Metered := metered, xc_MeteredAvailable := available\<rparr>)))"

section \<open>macOS\<close>

text \<open>
  The profiler's document: per data type, per interface, the fields of the current network as
  \<open>scalarString\<close> gives their values.
\<close>

type_synonym airport = "(string \<times> string) list list list"

definition scalar_of :: "(string \<times> string) list \<Rightarrow> string \<Rightarrow> string" where
  "scalar_of current key = (case map_of current key of Some v \<Rightarrow> v | None \<Rightarrow> '''')"

definition snr_of :: "real \<Rightarrow> real \<Rightarrow> real" where
  "snr_of rssi noise = (if rssi < 0 \<and> noise < 0 then max (rssi - noise) 0 else 0)"

definition airport_network :: "float_parser \<Rightarrow> bool \<Rightarrow> (string \<times> string) list \<Rightarrow> LocalContext" where
  "airport_network pf includeSSID current =
     (let bssid = scalar_of current ''spairport_network_bssid''; name = scalar_of current ''_name'';
          noisy = scalar_of current ''spairport_signal_noise'';
          signal = (if noisy = '''' then scalar_of current ''spairport_network_signal'' else noisy);
          rssi = or_zero (leadingFloat pf signal);
          noise = (case cut CHR ''/'' signal of Some (_, n) \<Rightarrow> or_zero (leadingFloat pf (trim_space n)) | None \<Rightarrow> 0);
          channelText = scalar_of current ''spairport_network_channel'';
          channel = trunc_real (or_zero (leadingFloat pf channelText));
          rate = or_zero (leadingFloat pf (scalar_of current ''spairport_network_rate''))
      in ethernet_context\<lparr>xc_InterfaceType := ''wifi'',
           xc_NetworkIdentity := (if bssid = '''' \<and> includeSSID then name else bssid),
           xc_SSID := (if includeSSID then name else ''''), xc_RSSIDBm := rssi, xc_NoiseDBm := noise, xc_SNRDB := snr_of rssi noise,
           xc_Channel := channel, xc_FrequencyMHz := darwinFrequency channel channelText, xc_ChannelWidthMHz := darwinChannelWidth channelText,
           xc_LinkMbps := rate, xc_TXLinkMbps := rate, xc_RXLinkMbps := rate,
           xc_PHY := scalar_of current ''spairport_network_phymode'', xc_Security := scalar_of current ''spairport_security_mode''\<rparr>)"

definition parseDarwinAirPort :: "float_parser \<Rightarrow> (string + airport) \<Rightarrow> bool \<Rightarrow> string + LocalContext" where
  "parseDarwinAirPort pf document includeSSID =
     (case document of
        Inl e \<Rightarrow> Inl e
      | Inr [] \<Rightarrow> Inl ''link context unavailable''
      | Inr data \<Rightarrow>
          (case filter (\<lambda>current. current \<noteq> []) (concat data) of
             [] \<Rightarrow> Inr ethernet_context
           | current # _ \<Rightarrow> Inr (airport_network pf includeSSID current)))"

record corewlan_info =
  cw_associated :: bool
  cw_rssi :: int
  cw_noise :: int
  cw_txRate :: real
  cw_channel :: int
  cw_width :: int
  cw_band :: int
  cw_phyMode :: int
  cw_security :: int
  cw_ssid :: string
  cw_bssid :: string

definition coreWLANContext :: "corewlan_info option \<Rightarrow> bool \<Rightarrow> string + LocalContext" where
  "coreWLANContext info includeSSID =
     (case info of
        None \<Rightarrow> Inl ''no powered Wi-Fi interface''
      | Some i \<Rightarrow>
          if \<not> cw_associated i then Inl ''wifi interface not associated''
          else let rssi = (if cw_rssi i < 0 then real_of_int (cw_rssi i) else 0);
                   noise = (if cw_noise i < 0 then real_of_int (cw_noise i) else 0)
               in Inr (ethernet_context\<lparr>xc_InterfaceType := ''wifi'', xc_RSSIDBm := rssi, xc_NoiseDBm := noise, xc_SNRDB := snr_of rssi noise,
                    xc_TXLinkMbps := cw_txRate i, xc_LinkMbps := cw_txRate i, xc_Channel := cw_channel i,
                    xc_ChannelWidthMHz := corewlanChannelWidthMHz (cw_width i),
                    xc_FrequencyMHz := corewlanBandFrequencyMHz (cw_band i) (cw_channel i), xc_PHY := corewlanPHYName (cw_phyMode i),
                    xc_Security := corewlanSecurityName (cw_security i),
                    xc_NetworkIdentity := (if cw_bssid i = '''' \<and> includeSSID then cw_ssid i else cw_bssid i),
                    xc_SSID := (if includeSSID then cw_ssid i else '''')\<rparr>))"

definition trim_set :: "string \<Rightarrow> string \<Rightarrow> string" where
  "trim_set cs s = rev (dropWhile (\<lambda>c. c \<in> set cs) (rev (dropWhile (\<lambda>c. c \<in> set cs) s)))"

fun first_percentage :: "float_parser \<Rightarrow> string list \<Rightarrow> real option" where
  "first_percentage pf [] = None"
| "first_percentage pf (f # fs) =
     (let field = trim_set '';,()'' f in
      if has_suffix field ''%''
      then (case pf (trim_suffix field ''%'') of
              Some v \<Rightarrow> if 0 \<le> v \<and> v \<le> 100 then Some v else first_percentage pf fs | None \<Rightarrow> first_percentage pf fs)
      else first_percentage pf fs)"

definition quoted :: "char \<Rightarrow> string \<Rightarrow> string" where
  "quoted q s = q # s @ [q]"

definition applyDarwinPower :: "float_parser \<Rightarrow> string \<Rightarrow> LocalContext \<Rightarrow> LocalContext" where
  "applyDarwinPower pf output out =
     (let lower = to_lower output;
          out1 = out\<lparr>xc_OnBattery := (contains_str lower (quoted (char_of (39::nat)) ''battery power'')
             \<or> contains_str lower (quoted (char_of (34::nat)) ''battery power''))\<rparr>
      in case first_percentage pf (fields_of output) of Some pct \<Rightarrow> out1\<lparr>xc_BatteryPct := pct\<rparr> | None \<Rightarrow> out1)"

definition platformContext_darwin ::
  "float_parser \<Rightarrow> corewlan_info option \<Rightarrow> (string + airport) \<Rightarrow> string + string \<Rightarrow> string option \<Rightarrow> bool \<Rightarrow> string + LocalContext" where
  "platformContext_darwin pf info document route supply includeSSID =
     (case (case coreWLANContext info includeSSID of Inr out \<Rightarrow> Inr out | Inl _ \<Rightarrow> parseDarwinAirPort pf document includeSSID) of
        Inl e \<Rightarrow> Inl e
      | Inr out \<Rightarrow>
          let out1 = out\<lparr>xc_Gateway := (case DefaultGateway_darwin route of Inr g \<Rightarrow> g | Inl _ \<Rightarrow> '''')\<rparr>
          in Inr (case supply of None \<Rightarrow> out1 | Some text \<Rightarrow> applyDarwinPower pf text (out1\<lparr>xc_PowerAvailable := True\<rparr>)))"

section \<open>Windows\<close>

record wlan_interface =
  wl_connected :: bool
  wl_queried :: bool
  wl_bssid :: string
  wl_ssid :: string
  wl_signal :: u32
  wl_rx :: u32
  wl_tx :: u32
  wl_phy :: u32
  wl_secured :: bool
  wl_onex :: bool
  wl_channel :: "u32 option"

definition windowsSecurity :: "wlan_interface \<Rightarrow> string" where
  "windowsSecurity i = (if \<not> wl_secured i then ''open'' else if wl_onex i then ''enterprise'' else ''secured'')"

definition wlan_context :: "wlan_interface \<Rightarrow> bool \<Rightarrow> LocalContext \<Rightarrow> LocalContext" where
  "wlan_context i includeSSID out =
     (let rx = real (unat (wl_rx i)) / 1000; tx = real (unat (wl_tx i)) / 1000
      in out\<lparr>xc_InterfaceType := ''wifi'', xc_NetworkIdentity := wl_bssid i, xc_SSID := (if includeSSID then wl_ssid i else ''''),
           xc_RSSIDBm := real (unat (wl_signal i)) / 2 - 100, xc_RXLinkMbps := rx, xc_TXLinkMbps := tx, xc_LinkMbps := max rx tx,
           xc_PHY := windowsPHY (wl_phy i), xc_Security := windowsSecurity i,
           xc_Channel := (case wl_channel i of Some c \<Rightarrow> int (unat c) | None \<Rightarrow> xc_Channel out)\<rparr>)"

definition collectWindowsWLAN :: "wlan_interface list \<Rightarrow> bool \<Rightarrow> LocalContext \<Rightarrow> LocalContext" where
  "collectWindowsWLAN interfaces includeSSID out =
     (case List.find (\<lambda>i. wl_connected i \<and> wl_queried i) interfaces of
        None \<Rightarrow> out | Some i \<Rightarrow> wlan_context i includeSSID out)"

definition platformContext_windows ::
  "wlan_interface list \<Rightarrow> ipForwardRow list \<Rightarrow> (u8 \<times> u8) option \<Rightarrow> string option \<Rightarrow> time \<Rightarrow> bool \<Rightarrow> MeteredCache \<Rightarrow> MeteredCache \<times> LocalContext" where
  "platformContext_windows interfaces rows supply cost now includeSSID cache =
     (let base = ethernet_context\<lparr>xc_Gateway := (case DefaultGateway_windows rows of Inr g \<Rightarrow> g | Inl _ \<Rightarrow> '''')\<rparr>;
          radio = collectWindowsWLAN interfaces includeSSID base;
          powered = (case supply of None \<Rightarrow> radio
            | Some (ac, pct) \<Rightarrow> radio\<lparr>xc_PowerAvailable := True, xc_OnBattery := (ac = 0),
                xc_BatteryPct := (if pct \<le> 100 then real (unat pct) else xc_BatteryPct radio)\<rparr>);
          (cache', metered, available) = cachedMetered now (xc_NetworkIdentity powered) (linux_metered cost) cache
      in (cache', powered\<lparr>xc_Metered := metered, xc_MeteredAvailable := available\<rparr>))"

section \<open>Without consent no network name is read\<close>

definition rename_bss :: "string \<Rightarrow> linux_world \<Rightarrow> linux_world" where
  "rename_bss name w = w\<lparr>lx_interfaces := map (\<lambda>i. (fst i, map_option (bss_SSID_update (\<lambda>_. name)) (snd i))) (lx_interfaces w)\<rparr>"

definition rename_airport :: "string \<Rightarrow> airport \<Rightarrow> airport" where
  "rename_airport name = map (map (map (\<lambda>f. if fst f = ''_name'' then (fst f, name) else f)))"

lemma find_map_fst: "List.find (\<lambda>i. fst i = k) (map (\<lambda>i. (fst i, g (snd i))) xs) = map_option (\<lambda>i. (fst i, g (snd i))) (List.find (\<lambda>i. fst i = k) xs)"
  by (induction xs) auto

lemma wireless_rename: "linuxWirelessContext (rename_bss name w) iface False = linuxWirelessContext w iface False"
  unfolding linuxWirelessContext_def rename_bss_def
  by (simp add: find_map_fst split: option.split prod.split)

lemma scalar_rename:
  "key \<noteq> ''_name'' \<Longrightarrow> scalar_of (map (\<lambda>f. if fst f = ''_name'' then (fst f, name) else f) current) key = scalar_of current key"
  by (induction current) (auto simp: scalar_of_def)

lemma airport_rename:
  "airport_network pf False (map (\<lambda>f. if fst f = ''_name'' then (fst f, name) else f) current) = airport_network pf False current"
  by (simp add: airport_network_def scalar_rename Let_def)

lemma parse_rename: "parseDarwinAirPort pf (map_sum id (rename_airport name) document) False = parseDarwinAirPort pf document False"
proof (cases document)
  case (Inr data)
  let ?f = "map (\<lambda>f. if fst f = ''_name'' then (fst f, name) else f)"
  have used: "filter (\<lambda>current. current \<noteq> []) (concat (rename_airport name data)) = map ?f (filter (\<lambda>current. current \<noteq> []) (concat data))"
    by (simp add: rename_airport_def map_concat[symmetric] filter_map comp_def)
  show ?thesis
  proof (cases data)
    case Nil
    then show ?thesis using Inr by (simp add: parseDarwinAirPort_def rename_airport_def)
  next
    case (Cons d ds)
    obtain e es where e: "rename_airport name data = e # es" using Cons by (simp add: rename_airport_def)
    have both: "parseDarwinAirPort pf (Inr xs) False
        = (case filter (\<lambda>current. current \<noteq> []) (concat xs) of [] \<Rightarrow> Inr ethernet_context | current # _ \<Rightarrow> Inr (airport_network pf False current))"
      if "xs = y # ys" for xs y ys
      using that by (simp add: parseDarwinAirPort_def)
    have "parseDarwinAirPort pf (Inr (rename_airport name data)) False = parseDarwinAirPort pf (Inr data) False"
      unfolding both[OF Cons] both[OF e] used by (cases "filter (\<lambda>current. current \<noteq> []) (concat data)") (simp_all add: airport_rename)
    then show ?thesis using Inr by simp
  qed
qed (simp add: parseDarwinAirPort_def)

lemma corewlan_rename: "coreWLANContext (map_option (cw_ssid_update (\<lambda>_. name)) info) False = coreWLANContext info False"
  by (cases info) (simp_all add: coreWLANContext_def Let_def)

lemma wlan_rename: "collectWindowsWLAN (map (wl_ssid_update (\<lambda>_. name)) interfaces) False out = collectWindowsWLAN interfaces False out"
proof -
  have "List.find (\<lambda>i. wl_connected i \<and> wl_queried i) (map (wl_ssid_update (\<lambda>_. name)) interfaces)
      = map_option (wl_ssid_update (\<lambda>_. name)) (List.find (\<lambda>i. wl_connected i \<and> wl_queried i) interfaces)"
    by (induction interfaces) auto
  then show ?thesis
    by (simp add: collectWindowsWLAN_def wlan_context_def windowsSecurity_def Let_def split: option.split)
qed

text \<open>
  (C34) Unless the name of the network is asked for, the local context does not depend on it on any
  platform: the context of a device is the same whatever its network is called.
\<close>
theorem ssid_needs_consent:
  "platformContext_linux pf (rename_bss name w) now False cache = platformContext_linux pf w now False cache
   \<and> platformContext_darwin pf (map_option (cw_ssid_update (\<lambda>_. name)) info) (map_sum id (rename_airport name) document) route supply False
     = platformContext_darwin pf info document route supply False
   \<and> platformContext_windows (map (wl_ssid_update (\<lambda>_. name)) interfaces) rows status cost now False cache
     = platformContext_windows interfaces rows status cost now False cache"
proof (intro conjI)
  have kept: "lx_wireless (rename_bss name w) = lx_wireless w" "lx_speed (rename_bss name w) = lx_speed w"
    "lx_capacities (rename_bss name w) = lx_capacities w" "lx_mains (rename_bss name w) = lx_mains w"
    by (simp_all add: rename_bss_def)
  have context_kept: "linux_context pf (rename_bss name w) iface gateway False = linux_context pf w iface gateway False" for iface gateway
    unfolding linux_context_def wireless_rename kept ..
  have tools: "lx_route (rename_bss name w) = lx_route w" "lx_nmcli (rename_bss name w) = lx_nmcli w"
    by (simp_all add: rename_bss_def)
  show "platformContext_linux pf (rename_bss name w) now False cache = platformContext_linux pf w now False cache"
    unfolding platformContext_linux_def context_kept tools ..
  show "platformContext_darwin pf (map_option (cw_ssid_update (\<lambda>_. name)) info) (map_sum id (rename_airport name) document) route supply False
     = platformContext_darwin pf info document route supply False"
    unfolding platformContext_darwin_def corewlan_rename parse_rename ..
  show "platformContext_windows (map (wl_ssid_update (\<lambda>_. name)) interfaces) rows status cost now False cache
     = platformContext_windows interfaces rows status cost now False cache"
    by (simp add: platformContext_windows_def wlan_rename)
qed

end
