(* ===== verification/Ipc.thy ===== *)
theory Ipc
  imports Text_Lines Protocol_Types
begin

text \<open>
  The local control interface (\<open>internal/ipc/ipc.go\<close>). The life of the server is a machine of
  events: the accept loop of \<open>Serve\<close>, the handlers with the order of their deferred calls, \<open>Close\<close>
  and the drain. One connection carries one request, whose reading, dispatch and answer are
  functions; the JSON codec of the standard library is a parameter.
\<close>

section \<open>Requests and responses\<close>

record Request =
  ir_Method :: string
  ir_Params :: "string option"

record Error =
  ie_Code :: string
  ie_Message :: string

record Response =
  is_OK :: bool
  is_Data :: "string option"
  is_Error :: "Error option"

record ipc_codec =
  ic_EncRequest :: "Request \<Rightarrow> string"
  ic_DecRequest :: "string \<Rightarrow> Request option"
  ic_EncResponse :: "Response \<Rightarrow> string"
  ic_DecResponse :: "string \<Rightarrow> Response option"

definition maxMessageBytes :: nat where "maxMessageBytes = 1048576"
definition maxConcurrentConnections :: nat where "maxConcurrentConnections = 32"
definition maxConcurrentStreams :: nat where "maxConcurrentStreams = 24"

definition newline :: char where "newline = CHR 0x0A"

definition requestTimeout :: "string \<Rightarrow> duration" where
  "requestTimeout meth = (if meth = ''stage_update'' then 7 * Minute else 2 * Minute)"

text \<open>
  Reading the request: the bytes up to a newline, or all that came before the end of the stream, of
  the first \<open>maxMessageBytes + 1\<close>. \<open>broken\<close> says that the connection fails after the bytes it gave.
\<close>

definition read_line :: "bool \<Rightarrow> string \<Rightarrow> string option" where
  "read_line broken input =
     (let avail = take (maxMessageBytes + 1) input in
      if newline \<in> set avail then Some (takeWhile (\<lambda>c. c \<noteq> newline) avail @ [newline])
      else if length avail = maxMessageBytes + 1 \<or> \<not> broken then Some avail else None)"

definition ipc_error :: "string \<Rightarrow> string \<Rightarrow> Error" where
  "ipc_error code message = \<lparr>ie_Code = code, ie_Message = message\<rparr>"

text \<open>\<open>writeResponse\<close>; the data is given as what \<open>json.Marshal\<close> makes of it, an error or a text.\<close>

definition response_of :: "(string + string) option \<Rightarrow> Error option \<Rightarrow> Response" where
  "response_of data err =
     (case data of
        None \<Rightarrow> \<lparr>is_OK = (err = None), is_Data = None, is_Error = err\<rparr>
      | Some (Inl _) \<Rightarrow> \<lparr>is_OK = False, is_Data = None, is_Error = Some (ipc_error ''internal'' ''could not encode response'')\<rparr>
      | Some (Inr text) \<Rightarrow> \<lparr>is_OK = (err = None), is_Data = Some text, is_Error = err\<rparr>)"

definition writeResponse :: "ipc_codec \<Rightarrow> (string + string) option \<Rightarrow> Error option \<Rightarrow> string" where
  "writeResponse C data err = ic_EncResponse C (response_of data err) @ [newline]"

text \<open>
  What a handler answers: data and an error, or a stream of values. What the loop writes of a
  stream: one line per value until a value cannot be encoded, the write fails or the channel ends;
  \<open>ok\<close> counts the writes that succeed.
\<close>

datatype handler_result = Answer "(string + string) option" "Error option" | Streaming "(string + string) list"

fun stream_lines :: "ipc_codec \<Rightarrow> nat \<Rightarrow> (string + string) list \<Rightarrow> string" where
  "stream_lines C ok [] = ''''"
| "stream_lines C ok (v # vs) =
     (case (v, ok) of
        (Inr text, Suc n) \<Rightarrow>
          ic_EncResponse C \<lparr>is_OK = True, is_Data = Some text, is_Error = None\<rparr> @ newline # stream_lines C n vs
      | _ \<Rightarrow> '''')"

text \<open>
  \<open>handle\<close>: the request it gives to the handler, if it comes to that, and what it writes. A stream
  that finds no room is closed and refused.
\<close>

definition ipc_handle ::
  "ipc_codec \<Rightarrow> (Request \<Rightarrow> handler_result) \<Rightarrow> bool \<Rightarrow> nat \<Rightarrow> bool \<Rightarrow> string \<Rightarrow> Request option \<times> string" where
  "ipc_handle C handler room ok broken input =
     (case read_line broken input of
        None \<Rightarrow> (None, writeResponse C None (Some (ipc_error ''bad_request'' ''could not read request'')))
      | Some line \<Rightarrow>
          if length line > maxMessageBytes
          then (None, writeResponse C None (Some (ipc_error ''too_large'' ''request exceeds 1 MiB'')))
          else (case ic_DecRequest C line of
                  None \<Rightarrow> (None, writeResponse C None (Some (ipc_error ''bad_request'' ''invalid request'')))
                | Some r \<Rightarrow>
                    if ir_Method r = ''''
                    then (None, writeResponse C None (Some (ipc_error ''bad_request'' ''invalid request'')))
                    else (Some r, case handler r of
                            Answer data err \<Rightarrow> writeResponse C data err
                          | Streaming values \<Rightarrow>
                              if room then stream_lines C ok values
                              else writeResponse C None (Some (ipc_error ''stream_limit'' ''too many active IPC watch streams'')))))"

section \<open>The client\<close>

datatype call_error = CallFailed string | Rejected Error

text \<open>\<open>Call\<close> after the exchange: the first JSON value of the bytes that came back.\<close>

definition call_result :: "ipc_codec \<Rightarrow> string \<Rightarrow> call_error + string option" where
  "call_result C bytes =
     (case ic_DecResponse C (take (maxMessageBytes + 1) bytes) of
        None \<Rightarrow> Inl (CallFailed ''decode IPC response'')
      | Some r \<Rightarrow>
          if \<not> is_OK r then (case is_Error r of None \<Rightarrow> Inl (CallFailed ''pulsed rejected request'') | Some e \<Rightarrow> Inl (Rejected e))
          else Inr (is_Data r))"

text \<open>\<open>dial\<close> is the exchange: an error of the connection, or the bytes the server wrote.\<close>

definition ipc_Call :: "ipc_codec \<Rightarrow> (string \<Rightarrow> string + string) \<Rightarrow> string \<Rightarrow> (string + string) option \<Rightarrow> call_error + string option" where
  "ipc_Call C dial meth params =
     (case params of
        Some (Inl _) \<Rightarrow> Inl (CallFailed ''encode IPC parameters'')
      | _ \<Rightarrow>
          let raw = (case params of Some (Inr text) \<Rightarrow> Some text | _ \<Rightarrow> None) in
          (case dial (ic_EncRequest C \<lparr>ir_Method = meth, ir_Params = raw\<rparr> @ [newline]) of
             Inl _ \<Rightarrow> Inl (CallFailed ''connect to pulsed'')
           | Inr bytes \<Rightarrow> call_result C bytes))"

datatype watch_end = WatchFailed string | WatchRejected "Error option" | WatchCancelled | WatchEOF

fun watch_lines :: "ipc_codec \<Rightarrow> string list \<Rightarrow> string list \<times> watch_end option" where
  "watch_lines C [] = ([], None)"
| "watch_lines C (line # lines) =
     (case ic_DecResponse C line of
        None \<Rightarrow> ([], Some (WatchFailed ''decode IPC watch''))
      | Some r \<Rightarrow>
          if \<not> is_OK r then ([], Some (WatchRejected (is_Error r)))
          else (case watch_lines C lines of (got, end) \<Rightarrow>
                  ((case is_Data r of None \<Rightarrow> '''' | Some d \<Rightarrow> d) # got, end)))"

definition ipc_Watch :: "ipc_codec \<Rightarrow> bool \<Rightarrow> bool \<Rightarrow> string \<Rightarrow> string list \<times> watch_end" where
  "ipc_Watch C cancelled broken bytes =
     (let (lines, too_long) = scan_lines maxMessageBytes bytes;
          (got, end) = watch_lines C lines
      in (got, case end of Some e \<Rightarrow> e
            | None \<Rightarrow> if cancelled then WatchCancelled
                      else if too_long \<or> broken then WatchFailed ''read IPC watch'' else WatchEOF))"
section \<open>The server\<close>

text \<open>
  A handler works, holds a stream, has returned, and then runs its deferred calls: the connection is
  untracked, the wait group is told, the slot is given back. The accept loop waits for a slot with
  a connection in hand, and admits it only while the server is open.
\<close>

datatype stage = Working | InStream | Ended | Untracked | Told

datatype accept_loop = Idle | Accepting | Waiting nat | Admitted nat | Left

record Server =
  sv_listening :: bool
  sv_cancel :: bool
  sv_cancelled :: bool
  sv_closed :: bool
  sv_connections :: "nat list"
  sv_handlers :: "(nat \<times> stage) list"
  sv_slots :: nat
  sv_streams :: nat
  sv_wg :: nat
  sv_loop :: accept_loop
  sv_drained :: bool

definition new_server :: Server where
  "new_server = \<lparr>sv_listening = False, sv_cancel = False, sv_cancelled = False, sv_closed = False, sv_connections = [],
     sv_handlers = [], sv_slots = 0, sv_streams = 0, sv_wg = 0, sv_loop = Idle, sv_drained = False\<rparr>"

definition set_stage :: "(nat \<times> stage) list \<Rightarrow> nat \<Rightarrow> stage \<Rightarrow> (nat \<times> stage) list" where
  "set_stage hs c st = map (\<lambda>h. if fst h = c then (c, st) else h) hs"

datatype ipc_event =
    Listen_ok | Serve_started | Accept_ok nat | Accept_failed | Slot_taken | Serve_cancelled | Track
  | Stream_opened nat | Handler_returned nat | Untrack nat | Wait_done nat | Slot_released nat
  | Context_done | Close_once | Drain

definition trackConnection :: "Server \<Rightarrow> nat \<Rightarrow> Server option" where
  "trackConnection s c =
     (if \<not> sv_cancel s \<or> sv_closed s then None else Some (s\<lparr>sv_connections := c # sv_connections s\<rparr>))"

definition untrackConnection :: "nat \<Rightarrow> Server \<Rightarrow> Server" where
  "untrackConnection c s = s\<lparr>sv_connections := filter (\<lambda>k. k \<noteq> c) (sv_connections s)\<rparr>"

definition ipc_Listen :: "Server \<Rightarrow> Server option" where
  "ipc_Listen s =
     (if sv_closed s \<or> sv_listening s then None else Some (s\<lparr>sv_listening := True, sv_connections := []\<rparr>))"

definition Server_Close :: "Server \<Rightarrow> Server" where
  "Server_Close s = s\<lparr>sv_closed := True, sv_cancelled := sv_cancelled s \<or> sv_cancel s\<rparr>"

fun ipc_step :: "ipc_event \<Rightarrow> Server \<Rightarrow> Server option" where
  "ipc_step Listen_ok s = (if sv_loop s = Idle then ipc_Listen s else None)"
| "ipc_step Serve_started s =
     (if sv_loop s = Idle \<and> sv_listening s then Some (s\<lparr>sv_cancel := True, sv_loop := Accepting\<rparr>) else None)"
| "ipc_step (Accept_ok c) s =
     (if sv_loop s = Accepting \<and> \<not> sv_closed s \<and> c \<notin> fst ` set (sv_handlers s) then Some (s\<lparr>sv_loop := Waiting c\<rparr>) else None)"
| "ipc_step Accept_failed s = (if sv_loop s = Accepting then Some (s\<lparr>sv_loop := Left\<rparr>) else None)"
| "ipc_step Slot_taken s =
     (case sv_loop s of
        Waiting c \<Rightarrow> if sv_slots s < maxConcurrentConnections
                     then Some (s\<lparr>sv_slots := sv_slots s + 1, sv_loop := Admitted c\<rparr>) else None
      | _ \<Rightarrow> None)"
| "ipc_step Serve_cancelled s =
     (case sv_loop s of Waiting c \<Rightarrow> if sv_cancelled s then Some (s\<lparr>sv_loop := Left\<rparr>) else None | _ \<Rightarrow> None)"
| "ipc_step Track s =
     (case sv_loop s of
        Admitted c \<Rightarrow>
          (case trackConnection s c of
             None \<Rightarrow> Some (s\<lparr>sv_slots := sv_slots s - 1, sv_loop := Left\<rparr>)
           | Some s1 \<Rightarrow> Some (s1\<lparr>sv_wg := sv_wg s1 + 1, sv_handlers := (c, Working) # sv_handlers s1, sv_loop := Accepting\<rparr>))
      | _ \<Rightarrow> None)"
| "ipc_step (Stream_opened c) s =
     (if map_of (sv_handlers s) c = Some Working
      then (if sv_streams s < maxConcurrentStreams
            then Some (s\<lparr>sv_streams := sv_streams s + 1, sv_handlers := set_stage (sv_handlers s) c InStream\<rparr>)
            else Some (s\<lparr>sv_handlers := set_stage (sv_handlers s) c Ended\<rparr>))
      else None)"
| "ipc_step (Handler_returned c) s =
     (case map_of (sv_handlers s) c of
        Some Working \<Rightarrow> Some (s\<lparr>sv_handlers := set_stage (sv_handlers s) c Ended\<rparr>)
      | Some InStream \<Rightarrow> Some (s\<lparr>sv_streams := sv_streams s - 1, sv_handlers := set_stage (sv_handlers s) c Ended\<rparr>)
      | _ \<Rightarrow> None)"
| "ipc_step (Untrack c) s =
     (if map_of (sv_handlers s) c = Some Ended
      then Some (untrackConnection c (s\<lparr>sv_handlers := set_stage (sv_handlers s) c Untracked\<rparr>)) else None)"
| "ipc_step (Wait_done c) s =
     (if map_of (sv_handlers s) c = Some Untracked
      then Some (s\<lparr>sv_wg := sv_wg s - 1, sv_handlers := set_stage (sv_handlers s) c Told\<rparr>) else None)"
| "ipc_step (Slot_released c) s =
     (if map_of (sv_handlers s) c = Some Told
      then Some (s\<lparr>sv_slots := sv_slots s - 1, sv_handlers := filter (\<lambda>h. fst h \<noteq> c) (sv_handlers s)\<rparr>) else None)"
| "ipc_step Context_done s = Some (s\<lparr>sv_cancelled := True\<rparr>)"
| "ipc_step Close_once s = (if sv_closed s then None else Some (Server_Close s))"
| "ipc_step Drain s = (if sv_loop s = Left \<and> sv_wg s = 0 then Some (s\<lparr>sv_drained := True\<rparr>) else None)"

definition ipc_run :: "ipc_event list \<Rightarrow> Server" where
  "ipc_run events = foldl (\<lambda>s e. case ipc_step e s of None \<Rightarrow> s | Some t \<Rightarrow> t) new_server events"

section \<open>Bounds of the server and the drain\<close>

definition in_stage :: "(stage \<Rightarrow> bool) \<Rightarrow> (nat \<times> stage) list \<Rightarrow> nat" where
  "in_stage P hs = length (filter (\<lambda>h. P (snd h)) hs)"

definition tracked_stage :: "stage \<Rightarrow> bool" where
  "tracked_stage st \<longleftrightarrow> st \<in> {Working, InStream, Ended}"

fun in_hand :: "accept_loop \<Rightarrow> nat" where
  "in_hand (Admitted c) = 1"
| "in_hand _ = 0"

fun loop_ok :: "accept_loop \<Rightarrow> nat set \<Rightarrow> bool" where
  "loop_ok (Waiting c) busy = (c \<notin> busy)"
| "loop_ok (Admitted c) busy = (c \<notin> busy)"
| "loop_ok Idle busy = (busy = {})"
| "loop_ok _ busy = True"

definition server_inv :: "Server \<Rightarrow> bool" where
  "server_inv s \<longleftrightarrow> distinct (map fst (sv_handlers s))
     \<and> sv_slots s = length (sv_handlers s) + in_hand (sv_loop s)
     \<and> sv_slots s \<le> maxConcurrentConnections
     \<and> sv_streams s = in_stage (\<lambda>st. st = InStream) (sv_handlers s) \<and> sv_streams s \<le> maxConcurrentStreams
     \<and> sv_wg s = in_stage (\<lambda>st. st \<noteq> Told) (sv_handlers s)
     \<and> set (sv_connections s) = {c. \<exists>st. (c, st) \<in> set (sv_handlers s) \<and> tracked_stage st}
     \<and> loop_ok (sv_loop s) (fst ` set (sv_handlers s))
     \<and> (sv_drained s \<longrightarrow> sv_loop s = Left \<and> sv_wg s = 0)"

lemma server_invD:
  assumes "server_inv s"
  shows "distinct (map fst (sv_handlers s))"
    and "sv_slots s = length (sv_handlers s) + in_hand (sv_loop s)"
    and "sv_slots s \<le> maxConcurrentConnections"
    and "sv_streams s = in_stage (\<lambda>st. st = InStream) (sv_handlers s)"
    and "sv_streams s \<le> maxConcurrentStreams"
    and "sv_wg s = in_stage (\<lambda>st. st \<noteq> Told) (sv_handlers s)"
    and "set (sv_connections s) = {c. \<exists>st. (c, st) \<in> set (sv_handlers s) \<and> tracked_stage st}"
    and "loop_ok (sv_loop s) (fst ` set (sv_handlers s))"
    and "sv_drained s \<longrightarrow> sv_loop s = Left \<and> sv_wg s = 0"
  using assms unfolding server_inv_def by blast+

lemma loop_ok_subset: "loop_ok l busy \<Longrightarrow> rest \<subseteq> busy \<Longrightarrow> loop_ok l rest"
  by (cases l) auto

text \<open>A step of the accept loop alone, which keeps the handlers.\<close>

lemma loop_inv:
  assumes "server_inv s" "sv_handlers t = sv_handlers s" "sv_connections t = sv_connections s" "sv_streams t = sv_streams s"
    "sv_wg t = sv_wg s" "sv_slots t + in_hand (sv_loop s) = sv_slots s + in_hand (sv_loop t)" "sv_slots t \<le> maxConcurrentConnections"
    "loop_ok (sv_loop t) (fst ` set (sv_handlers s))" "sv_drained t \<longrightarrow> sv_loop t = Left \<and> sv_wg t = 0"
  shows "server_inv t"
  using server_invD[OF assms(1)] assms(2-) unfolding server_inv_def by simp

lemma map_fst_set_stage [simp]: "map fst (set_stage hs c st) = map fst hs"
  by (induction hs) (simp_all add: set_stage_def)

lemma length_set_stage [simp]: "length (set_stage hs c st) = length hs"
  by (simp add: set_stage_def)

lemma set_stage_other: "c \<notin> fst ` set hs \<Longrightarrow> set_stage hs c st = hs"
  by (force simp: set_stage_def intro!: map_idI)

lemma in_stage_simps [simp]:
  "in_stage P [] = 0" "in_stage P (h # hs) = (if P (snd h) then 1 else 0) + in_stage P hs"
  by (simp_all add: in_stage_def)

lemma in_stage_set:
  fixes hs :: "(nat \<times> stage) list"
  shows "distinct (map fst hs) \<Longrightarrow> map_of hs c = Some old \<Longrightarrow>
     in_stage P (set_stage hs c st) + (if P old then 1 else 0) = in_stage P hs + (if P st then 1 else 0)"
proof (induction hs)
  case (Cons h hs)
  show ?case
  proof (cases "fst h = c")
    case True
    then have "set_stage hs c st = hs" using Cons.prems(1) by (intro set_stage_other) auto
    then show ?thesis using Cons.prems True by (simp add: set_stage_def)
  next
    case False
    then show ?thesis using Cons by (simp add: set_stage_def split: if_splits)
  qed
qed simp

lemma set_set_stage:
  "distinct (map fst hs) \<Longrightarrow> map_of hs c = Some old \<Longrightarrow>
     (k, st') \<in> set (set_stage hs c st) \<longleftrightarrow> (if k = c then st' = st else (k, st') \<in> set hs)"
  by (auto simp: set_stage_def image_iff dest: map_of_SomeD split: if_splits)

lemma handler_entry: "distinct (map fst hs) \<Longrightarrow> map_of hs c = Some st \<Longrightarrow> (c, st') \<in> set hs \<longleftrightarrow> st' = st"
  by (metis map_of_SomeD map_of_is_SomeI option.inject)

lemma in_stage_remove:
  fixes hs :: "(nat \<times> stage) list"
  shows "distinct (map fst hs) \<Longrightarrow> map_of hs c = Some old \<Longrightarrow>
     in_stage P (filter (\<lambda>h. fst h \<noteq> c) hs) + (if P old then 1 else 0) = in_stage P hs"
proof (induction hs)
  case (Cons h hs)
  show ?case
  proof (cases "fst h = c")
    case True
    then have "c \<notin> fst ` set hs" using Cons.prems(1) by simp
    then have "filter (\<lambda>h. fst h \<noteq> c) hs = hs" by (intro filter_True) (metis image_eqI)
    then show ?thesis using Cons.prems True by simp
  next
    case False
    then show ?thesis using Cons by simp
  qed
qed simp

lemma length_remove:
  fixes hs :: "(nat \<times> stage) list"
  shows "distinct (map fst hs) \<Longrightarrow> map_of hs c = Some old \<Longrightarrow> length (filter (\<lambda>h. fst h \<noteq> c) hs) + 1 = length hs"
  using in_stage_remove[of hs c old "\<lambda>_. True"] by (simp add: in_stage_def)

lemma server_inv_new: "server_inv new_server"
  by (simp add: server_inv_def new_server_def maxConcurrentConnections_def)

text \<open>What a change of stage keeps, when the counters follow it.\<close>

lemma stage_change_inv:
  assumes inv: "server_inv s" and old: "map_of (sv_handlers s) c = Some old"
    and t: "sv_handlers t = set_stage (sv_handlers s) c st" "sv_slots t = sv_slots s" "sv_loop t = sv_loop s" "sv_drained t = sv_drained s"
    and streams: "sv_streams t + (if old = InStream then 1 else 0) = sv_streams s + (if st = InStream then 1 else 0)" "sv_streams t \<le> maxConcurrentStreams"
    and wg: "sv_wg t + (if old \<noteq> Told then 1 else 0) = sv_wg s + (if st \<noteq> Told then 1 else 0)" "sv_wg t \<le> sv_wg s"
    and tracked: "set (sv_connections t) = (if tracked_stage st then insert c (set (sv_connections s)) else set (sv_connections s) - {c})"
  shows "server_inv t"
proof -
  note I = server_invD[OF inv]
  have images: "fst ` set (set_stage (sv_handlers s) c st) = fst ` set (sv_handlers s)"
    by (metis map_fst_set_stage list.set_map)
  have "sv_streams t = in_stage (\<lambda>st. st = InStream) (set_stage (sv_handlers s) c st)"
    using I(4) streams(1) in_stage_set[OF I(1) old, of "\<lambda>st. st = InStream" st] by simp
  moreover have "sv_wg t = in_stage (\<lambda>st. st \<noteq> Told) (set_stage (sv_handlers s) c st)"
    using I(6) wg(1) in_stage_set[OF I(1) old, of "\<lambda>st. st \<noteq> Told" st] by simp
  moreover have "set (sv_connections t) = {k. \<exists>st'. (k, st') \<in> set (set_stage (sv_handlers s) c st) \<and> tracked_stage st'}"
    unfolding tracked I(7) using set_set_stage[OF I(1) old, of _ _ st] by auto
  moreover have "sv_drained t \<longrightarrow> sv_loop t = Left \<and> sv_wg t = 0" using I(9) wg(2) unfolding t by linarith
  ultimately show ?thesis unfolding server_inv_def using I(1,2,3,8) streams(2) by (simp add: t images)
qed

lemma tracked_handler:
  assumes "server_inv s" "map_of (sv_handlers s) c = Some st"
  shows "c \<in> set (sv_connections s) \<longleftrightarrow> tracked_stage st"
  unfolding server_invD(7)[OF assms(1)] using handler_entry[OF server_invD(1)[OF assms(1)] assms(2)] by simp

lemma slot_release_inv:
  assumes inv: "server_inv s" and old: "map_of (sv_handlers s) c = Some Told"
  shows "server_inv (s\<lparr>sv_slots := sv_slots s - 1, sv_handlers := filter (\<lambda>h. fst h \<noteq> c) (sv_handlers s)\<rparr>)"
proof -
  note I = server_invD[OF inv]
  have len: "length (filter (\<lambda>h. fst h \<noteq> c) (sv_handlers s)) + 1 = length (sv_handlers s)" by (rule length_remove[OF I(1) old])
  have counts: "in_stage P (filter (\<lambda>h. fst h \<noteq> c) (sv_handlers s)) + (if P Told then 1 else 0) = in_stage P (sv_handlers s)" for P
    by (rule in_stage_remove[OF I(1) old])
  have slots: "sv_slots s - 1 = length (filter (\<lambda>h. fst h \<noteq> c) (sv_handlers s)) + in_hand (sv_loop s)"
    "sv_slots s - 1 \<le> maxConcurrentConnections"
    using I(2,3) len by linarith+
  have conns: "set (sv_connections s) = {k. \<exists>st. (k, st) \<in> set (filter (\<lambda>h. fst h \<noteq> c) (sv_handlers s)) \<and> tracked_stage st}"
    unfolding I(7) using handler_entry[OF I(1) old] by (auto simp: tracked_stage_def)
  have loop: "loop_ok (sv_loop s) (fst ` set (filter (\<lambda>h. fst h \<noteq> c) (sv_handlers s)))"
    by (rule loop_ok_subset[OF I(8)]) auto
  have now: "sv_streams s = in_stage (\<lambda>st. st = InStream) (filter (\<lambda>h. fst h \<noteq> c) (sv_handlers s))"
    "sv_wg s = in_stage (\<lambda>st. st \<noteq> Told) (filter (\<lambda>h. fst h \<noteq> c) (sv_handlers s))"
    using I(4,6) counts[of "\<lambda>st. st = InStream"] counts[of "\<lambda>st. st \<noteq> Told"] by simp_all
  have d: "distinct (map fst (filter (\<lambda>h. fst h \<noteq> c) (sv_handlers s)))" using I(1) by (rule distinct_map_filter)
  show ?thesis unfolding server_inv_def using slots conns loop now d I(5,9) by simp
qed

lemma track_inv:
  assumes inv: "server_inv s" and loop: "sv_loop s = Admitted c"
  shows "server_inv (s\<lparr>sv_connections := c # sv_connections s, sv_wg := sv_wg s + 1,
    sv_handlers := (c, Working) # sv_handlers s, sv_loop := Accepting\<rparr>)"
proof -
  note I = server_invD[OF inv]
  have "set (c # sv_connections s) = {k. \<exists>st. (k, st) \<in> set ((c, Working) # sv_handlers s) \<and> tracked_stage st}"
    using I(7) by (auto simp: tracked_stage_def)
  then show ?thesis unfolding server_inv_def using I(1-6,8,9) loop by simp
qed

lemma ipc_step_inv:
  assumes inv: "server_inv s" and step: "ipc_step e s = Some t"
  shows "server_inv t"
proof (cases e)
  case Listen_ok
  then have t: "t = s\<lparr>sv_listening := True, sv_connections := []\<rparr>" and idle: "sv_loop s = Idle"
    using step by (auto simp: ipc_Listen_def split: if_splits)
  then have none: "sv_handlers s = []" using server_invD(8)[OF inv] by simp
  then have "sv_connections s = []" using server_invD(7)[OF inv] by simp
  then show ?thesis using server_invD[OF inv] idle by (intro loop_inv[OF inv]) (simp_all add: t none)
next
  case Serve_started
  then show ?thesis using step server_invD[OF inv] by (intro loop_inv[OF inv]) (auto split: if_splits)
next
  case (Accept_ok c)
  then show ?thesis using step server_invD[OF inv] by (intro loop_inv[OF inv]) (auto split: if_splits)
next
  case Accept_failed
  then show ?thesis using step server_invD[OF inv] by (intro loop_inv[OF inv]) (auto split: if_splits)
next
  case Slot_taken
  then obtain c where "sv_loop s = Waiting c" "sv_slots s < maxConcurrentConnections"
      "t = s\<lparr>sv_slots := sv_slots s + 1, sv_loop := Admitted c\<rparr>"
    using step by (auto split: accept_loop.splits if_splits)
  then show ?thesis using server_invD(8,9)[OF inv] by (intro loop_inv[OF inv]) simp_all
next
  case Serve_cancelled
  then obtain c where "sv_loop s = Waiting c" "t = s\<lparr>sv_loop := Left\<rparr>"
    using step by (auto split: accept_loop.splits if_splits)
  then show ?thesis using server_invD(3,9)[OF inv] by (intro loop_inv[OF inv]) simp_all
next
  case Track
  then obtain c where c: "sv_loop s = Admitted c" using step by (auto split: accept_loop.splits)
  show ?thesis
  proof (cases "trackConnection s c")
    case None
    then have "t = s\<lparr>sv_slots := sv_slots s - 1, sv_loop := Left\<rparr>" using step Track c by simp
    then show ?thesis using server_invD(2,3,9)[OF inv] c by (intro loop_inv[OF inv]) simp_all
  next
    case (Some s1)
    then have "s1 = s\<lparr>sv_connections := c # sv_connections s\<rparr>" by (simp add: trackConnection_def split: if_splits)
    then show ?thesis using step Track c Some track_inv[OF inv c] by simp
  qed
next
  case (Stream_opened c)
  then have old: "map_of (sv_handlers s) c = Some Working" using step by (auto split: if_splits)
  then have "c \<in> set (sv_connections s)" using tracked_handler[OF inv] by (simp add: tracked_stage_def)
  then show ?thesis using step Stream_opened old server_invD(5)[OF inv]
    by (auto intro!: stage_change_inv[OF inv old] simp: tracked_stage_def split: if_splits)
next
  case (Handler_returned c)
  then obtain old where old: "map_of (sv_handlers s) c = Some old" "old = Working \<or> old = InStream"
    and t: "t = s\<lparr>sv_streams := sv_streams s - (if old = InStream then 1 else 0), sv_handlers := set_stage (sv_handlers s) c Ended\<rparr>"
    using step by (auto split: option.splits stage.splits)
  have "old = InStream \<Longrightarrow> 0 < sv_streams s"
    using server_invD(4)[OF inv] in_stage_set[OF server_invD(1)[OF inv] old(1), of "\<lambda>st. st = InStream" Ended] by auto
  moreover have "c \<in> set (sv_connections s)" using tracked_handler[OF inv old(1)] old(2) by (auto simp: tracked_stage_def)
  ultimately show ?thesis using old(2) server_invD(5)[OF inv]
    by (auto intro!: stage_change_inv[OF inv old(1)] simp: t tracked_stage_def)
next
  case (Untrack c)
  then have old: "map_of (sv_handlers s) c = Some Ended" using step by (auto split: if_splits)
  then show ?thesis using step Untrack server_invD(5)[OF inv]
    by (auto intro!: stage_change_inv[OF inv old] simp: tracked_stage_def untrackConnection_def)
next
  case (Wait_done c)
  then have old: "map_of (sv_handlers s) c = Some Untracked" using step by (auto split: if_splits)
  have "0 < sv_wg s"
    using server_invD(6)[OF inv] in_stage_set[OF server_invD(1)[OF inv] old, of "\<lambda>st. st \<noteq> Told" Told] by simp
  moreover have "c \<notin> set (sv_connections s)" using tracked_handler[OF inv old] by (simp add: tracked_stage_def)
  ultimately show ?thesis using step Wait_done old server_invD(5)[OF inv]
    by (auto intro!: stage_change_inv[OF inv old] simp: tracked_stage_def)
next
  case (Slot_released c)
  then show ?thesis using slot_release_inv[OF inv] step by (auto split: if_splits)
qed (use step server_invD[OF inv] in \<open>auto intro!: loop_inv[OF inv] simp: Server_Close_def split: if_splits\<close>)

lemma ipc_run_inv: "server_inv (ipc_run events)"
proof -
  have "server_inv s \<Longrightarrow> server_inv (foldl (\<lambda>s e. case ipc_step e s of None \<Rightarrow> s | Some t \<Rightarrow> t) s events)" for s
    by (induction events arbitrary: s) (auto intro: ipc_step_inv split: option.splits)
  then show ?thesis using server_inv_new by (simp add: ipc_run_def)
qed

text \<open>
  (C30) Whatever the order of its events, the server has at most 32 handlers and 24 streams at a
  time, tracks exactly the connections whose handlers have not run their deferred calls, and once it
  reports that it has drained, every handler has returned and none is started again.
\<close>
theorem server_drains:
  "length (sv_handlers (ipc_run events)) \<le> 32
   \<and> in_stage (\<lambda>st. st = InStream) (sv_handlers (ipc_run events)) \<le> 24
   \<and> set (sv_connections (ipc_run events)) = {c. \<exists>st. (c, st) \<in> set (sv_handlers (ipc_run events)) \<and> tracked_stage st}
   \<and> (sv_drained (ipc_run events) \<longrightarrow>
        sv_connections (ipc_run (events @ later)) = [] \<and> in_stage tracked_stage (sv_handlers (ipc_run (events @ later))) = 0)"
proof -
  have stays: "sv_drained s \<Longrightarrow> ipc_step e s = Some t \<Longrightarrow> sv_drained t" for e s t
    by (cases e) (auto simp: ipc_Listen_def Server_Close_def trackConnection_def untrackConnection_def
        split: if_splits option.splits accept_loop.splits stage.splits)
  have kept: "sv_drained (ipc_run (events @ later))" if "sv_drained (ipc_run events)"
    using that unfolding ipc_run_def foldl_append
    by (induction later rule: rev_induct) (auto intro: stays split: option.splits)
  have empty: "sv_connections s = [] \<and> in_stage tracked_stage (sv_handlers s) = 0" if "server_inv s" "sv_drained s" for s
  proof -
    have "in_stage (\<lambda>st. st \<noteq> Told) (sv_handlers s) = 0" using that by (simp add: server_inv_def)
    then have "\<forall>h \<in> set (sv_handlers s). snd h = Told" by (auto simp: in_stage_def filter_empty_conv)
    then show ?thesis using that(1)
      by (fastforce simp: server_inv_def tracked_stage_def in_stage_def filter_empty_conv set_empty[symmetric] simp del: set_empty)
  qed
  have "length (sv_handlers (ipc_run events)) \<le> sv_slots (ipc_run events)" "sv_slots (ipc_run events) \<le> 32"
    using ipc_run_inv[of events] by (simp_all add: server_inv_def maxConcurrentConnections_def)
  then show ?thesis
    using ipc_run_inv[of events] empty[OF ipc_run_inv] kept by (auto simp: server_inv_def maxConcurrentStreams_def)
qed

definition one_call :: "ipc_event list" where
  "one_call = [Listen_ok, Serve_started, Accept_ok 7, Slot_taken, Track, Stream_opened 7, Close_once, Accept_failed,
     Handler_returned 7, Untrack 7, Wait_done 7, Drain]"

theorem server_drains_witness:
  "sv_drained (ipc_run one_call) \<and> sv_connections (ipc_run (one_call @ [Accept_ok 8])) = []"
proof -
  have "sv_drained (ipc_run one_call)" by code_simp
  then show ?thesis using server_drains[of one_call "[Accept_ok 8]"] by blast
qed
section \<open>A call reaches the handler, and its answer the caller\<close>

lemma takeWhile_written: "newline \<notin> set s \<Longrightarrow> takeWhile (\<lambda>c. c \<noteq> newline) (s @ newline # rest) = s"
  by (induction s) auto

lemma read_line_request:
  assumes "newline \<notin> set s" "length s < maxMessageBytes"
  shows "read_line broken (s @ [newline]) = Some (s @ [newline])"
proof -
  have "take (maxMessageBytes + 1) (s @ [newline]) = s @ [newline]" using assms(2) by simp
  then show ?thesis using takeWhile_written[OF assms(1), of "[]"] by (simp add: read_line_def Let_def)
qed

text \<open>
  (C31) A call that is sent over the control connection runs the handler on exactly the request it
  was made with, and returns the handler's data, or its error: the framing, the limits and the codec
  lose nothing, for every request and answer within a message of 1 MiB.
\<close>
theorem Call_answers:
  fixes C :: ipc_codec and meth :: string and params :: "string option"
  defines "r \<equiv> \<lparr>ir_Method = meth, ir_Params = params\<rparr>"
  assumes "meth \<noteq> ''''" "handler r = Answer (map_option Inr data) err"
    and "newline \<notin> set (ic_EncRequest C r)" "length (ic_EncRequest C r) < maxMessageBytes"
    and "ic_DecRequest C (ic_EncRequest C r @ [newline]) = Some r"
    and "length (ic_EncResponse C (response_of (map_option Inr data) err)) \<le> maxMessageBytes"
    and "ic_DecResponse C (ic_EncResponse C (response_of (map_option Inr data) err) @ [newline]) = Some (response_of (map_option Inr data) err)"
  shows "fst (ipc_handle C handler room ok broken (ic_EncRequest C r @ [newline])) = Some r
    \<and> ipc_Call C (\<lambda>sent. Inr (snd (ipc_handle C handler room ok broken sent))) meth (map_option Inr params)
      = (case err of None \<Rightarrow> Inr data | Some e \<Rightarrow> Inl (Rejected e))"
proof -
  have handled: "ipc_handle C handler room ok broken (ic_EncRequest C r @ [newline]) = (Some r, writeResponse C (map_option Inr data) err)"
    using assms(2-6) by (simp add: ipc_handle_def read_line_request r_def)
  have raw: "(case map_option Inr params of Some (Inr text) \<Rightarrow> Some text | _ \<Rightarrow> None) = params"
    by (cases params) simp_all
  have "call_result C (writeResponse C (map_option Inr data) err) = (case err of None \<Rightarrow> Inr data | Some e \<Rightarrow> Inl (Rejected e))"
    using assms(7,8) by (cases data; cases err) (simp_all add: call_result_def writeResponse_def response_of_def)
  moreover have "ipc_Call C (\<lambda>sent. Inr (snd (ipc_handle C handler room ok broken sent))) meth (map_option Inr params)
      = call_result C (writeResponse C (map_option Inr data) err)"
    using handled by (cases params) (simp_all add: ipc_Call_def r_def)
  ultimately show ?thesis using handled by simp
qed

text \<open>A codec for requests without parameters and answers without errors.\<close>

definition plain_codec :: ipc_codec where
  "plain_codec = \<lparr>ic_EncRequest = ir_Method, ic_DecRequest = \<lambda>s. Some \<lparr>ir_Method = butlast s, ir_Params = None\<rparr>,
     ic_EncResponse = \<lambda>r. case is_Data r of None \<Rightarrow> '''' | Some d \<Rightarrow> d,
     ic_DecResponse = \<lambda>s. Some \<lparr>is_OK = True, is_Data = Some (butlast s), is_Error = None\<rparr>\<rparr>"

theorem Call_answers_witness:
  "ipc_Call plain_codec (\<lambda>sent. Inr (snd (ipc_handle plain_codec (\<lambda>_. Answer (Some (Inr ''running'')) None) True 0 False sent)))
     ''status'' None = Inr (Some ''running'')"
  using Call_answers[of "''status''" "\<lambda>_. Answer (Some (Inr ''running'')) None" None "Some ''running''" None plain_codec True 0 False]
  by (simp add: plain_codec_def response_of_def newline_def maxMessageBytes_def)

section \<open>A watch receives the values of its stream\<close>

definition value_response :: "string \<Rightarrow> Response" where
  "value_response text = \<lparr>is_OK = True, is_Data = Some text, is_Error = None\<rparr>"

lemma stream_lines_written:
  "length vs \<le> ok \<Longrightarrow>
     stream_lines C ok (map Inr vs) = concat (map (\<lambda>l. l @ [newline]) (map (\<lambda>v. ic_EncResponse C (value_response v)) vs))"
proof (induction vs arbitrary: ok)
  case (Cons v rest)
  then show ?case by (cases ok) (simp_all add: value_response_def)
qed simp

lemma watch_lines_values:
  "\<forall>v\<in>set vs. ic_DecResponse C (ic_EncResponse C (value_response v)) = Some (value_response v) \<Longrightarrow>
     watch_lines C (map (\<lambda>v. ic_EncResponse C (value_response v)) vs) = (vs, None)"
  by (induction vs) (simp_all add: value_response_def)

lemma Watch_receives:
  assumes "length vs \<le> ok" and "\<forall>v\<in>set vs. let text = ic_EncResponse C (value_response v) in
      ic_DecResponse C text = Some (value_response v) \<and> newline \<notin> set text \<and> length text < maxMessageBytes
      \<and> (text \<noteq> [] \<longrightarrow> last text \<noteq> CHR 0x0D)"
  shows "ipc_Watch C False False (stream_lines C ok (map Inr vs)) = (vs, WatchEOF)"
proof -
  let ?lines = "map (\<lambda>v. ic_EncResponse C (value_response v)) vs"
  have "scan_lines maxMessageBytes (concat (map (\<lambda>l. l @ [CHR 0x0A]) ?lines)) = (?lines, False)"
    using assms(2) by (intro scan_lines_written) (simp add: Let_def newline_def)
  moreover have "watch_lines C ?lines = (vs, None)" using assms(2) by (intro watch_lines_values) (simp add: Let_def)
  ultimately show ?thesis
    by (simp add: ipc_Watch_def stream_lines_written[OF assms(1)] newline_def)
qed
section \<open>The socket of the server\<close>

text \<open>\<open>listenLocal\<close> and \<open>cleanupLocal\<close> on Unix: what stands at the path, and the calls that can fail.\<close>

datatype path_kind = Absent | Socket | OtherFile | Unknown

record socket_faults =
  sf_mkdir :: bool
  sf_chmod_dir :: bool
  sf_remove :: bool
  sf_listen :: bool
  sf_chmod :: bool

definition listenLocal :: "socket_faults \<Rightarrow> path_kind \<Rightarrow> path_kind \<times> string option" where
  "listenLocal f at_path =
     (if sf_mkdir f then (at_path, Some ''create IPC directory'')
      else if sf_chmod_dir f then (at_path, Some ''secure IPC directory'')
      else if at_path = Unknown then (at_path, Some ''inspect IPC path'')
      else if at_path = OtherFile then (at_path, Some ''refusing to replace non-socket IPC path'')
      else if at_path = Socket \<and> sf_remove f then (at_path, Some ''remove stale IPC socket'')
      else if sf_listen f then (Absent, Some ''listen on IPC socket'')
      else if sf_chmod f then (Absent, Some ''secure IPC socket'')
      else (Socket, None))"

definition cleanupLocal :: "bool \<Rightarrow> path_kind \<Rightarrow> path_kind \<times> string option" where
  "cleanupLocal fault at_path =
     (if at_path = Absent then (Absent, None) else if fault then (at_path, Some ''remove'') else (Absent, None))"

lemma listenLocal_keeps_files: "fst (listenLocal f OtherFile) = OtherFile"
  by (simp add: listenLocal_def)

end
