(* ===== verification/Service_Run.thy ===== *)
theory Service_Run
  imports Ipc
begin

text \<open>
  The run and the shutdown of the service (\<open>Run\<close>, \<open>Close\<close> and the drains of
  \<open>internal/service/service.go\<close>) over the control server of \<open>Ipc\<close>: when the telemetry is flushed
  and when the spool, the server and the log may be closed. A worker is a goroutine of the
  service's wait group that uses them; the timer that stops the run loop after an update uses none
  and is left out. Calls that fail are outcomes of a step.
\<close>

section \<open>State\<close>

text \<open>A drain that timed out goes on in the background until what it waits for has ended.\<close>

datatype drain = WorkersDrain | HandlersDrain

datatype phase = NotStarted | Running | Draining | Flushing | Returned

record run_state =
  rn_server :: Server
  rn_workers :: nat
  rn_phase :: phase
  rn_unsafe :: "drain list"
  rn_flushed :: bool
  rn_closed :: bool

definition new_run :: run_state where
  "new_run = \<lparr>rn_server = new_server, rn_workers = 0, rn_phase = NotStarted, rn_unsafe = [], rn_flushed = False, rn_closed = False\<rparr>"

section \<open>Steps\<close>

text \<open>
  The scheduler starts workers while the run loop runs, and a worker may start another. \<open>Run_left\<close>
  is the end of the run loop: the server is closed and \<open>Serve\<close> has returned, with a drain that timed
  out or not. The deferred function then waits for the workers, flushes when nothing is left behind,
  and \<open>Close\<close> refuses while a drain is pending.
\<close>

datatype run_event =
    Run_listened | Server_event ipc_event | Worker_started | Worker_ended | Run_left bool | Workers_done | Workers_timeout
  | Flushed_all | Drain_ended drain | Close_called

definition Run_listen :: "run_state \<Rightarrow> run_state option" where
  "Run_listen r =
     (if rn_phase r = NotStarted \<and> \<not> rn_closed r
      then (case ipc_step Listen_ok (rn_server r) of
              None \<Rightarrow> None
            | Some s \<Rightarrow> Some (r\<lparr>rn_server := s, rn_phase := Running\<rparr>))
      else None)"

definition trackUnsafeDrain :: "drain \<Rightarrow> run_state \<Rightarrow> run_state" where
  "trackUnsafeDrain d r = r\<lparr>rn_unsafe := d # rn_unsafe r\<rparr>"

definition trackIPCDrain :: "bool \<Rightarrow> run_state \<Rightarrow> run_state" where
  "trackIPCDrain timed_out r = (if timed_out then trackUnsafeDrain HandlersDrain r else r)"

definition drain_over :: "drain \<Rightarrow> run_state \<Rightarrow> bool" where
  "drain_over d r = (case d of WorkersDrain \<Rightarrow> rn_workers r = 0 | HandlersDrain \<Rightarrow> sv_drained (rn_server r))"

text \<open>\<open>Close\<close>: refused while a drain is pending, otherwise every resource is closed.\<close>

definition Service_Close :: "run_state \<Rightarrow> run_state option" where
  "Service_Close r =
     (if rn_unsafe r \<noteq> [] then None
      else Some (r\<lparr>rn_closed := True,
                   rn_server := (if sv_closed (rn_server r) then rn_server r else Server_Close (rn_server r))\<rparr>))"

fun run_step :: "run_event \<Rightarrow> run_state \<Rightarrow> run_state option" where
  "run_step Run_listened r = Run_listen r"
| "run_step (Server_event e) r =
     (if rn_phase r = NotStarted \<or> e = Listen_ok then None
      else map_option (\<lambda>s. r\<lparr>rn_server := s\<rparr>) (ipc_step e (rn_server r)))"
| "run_step Worker_started r =
     (if rn_phase r = Running \<or> 0 < rn_workers r then Some (r\<lparr>rn_workers := rn_workers r + 1\<rparr>) else None)"
| "run_step Worker_ended r = (if 0 < rn_workers r then Some (r\<lparr>rn_workers := rn_workers r - 1\<rparr>) else None)"
| "run_step (Run_left timed_out) r =
     (if rn_phase r = Running \<and> sv_closed (rn_server r) \<and> sv_loop (rn_server r) = Left \<and> (timed_out \<or> sv_drained (rn_server r))
      then Some (trackIPCDrain timed_out (r\<lparr>rn_phase := Draining\<rparr>)) else None)"
| "run_step Workers_done r =
     (if rn_phase r = Draining \<and> rn_workers r = 0
      then Some (r\<lparr>rn_phase := (if rn_unsafe r = [] then Flushing else Returned)\<rparr>) else None)"
| "run_step Workers_timeout r =
     (if rn_phase r = Draining then Some (trackUnsafeDrain WorkersDrain (r\<lparr>rn_phase := Returned\<rparr>)) else None)"
| "run_step Flushed_all r =
     (if rn_phase r = Flushing then Some (r\<lparr>rn_phase := Returned, rn_flushed := True\<rparr>) else None)"
| "run_step (Drain_ended d) r =
     (if d \<in> set (rn_unsafe r) \<and> drain_over d r then Some (r\<lparr>rn_unsafe := remove1 d (rn_unsafe r)\<rparr>) else None)"
| "run_step Close_called r =
     (if rn_phase r = NotStarted \<or> rn_phase r = Returned then Service_Close r else None)"

definition service_run :: "run_event list \<Rightarrow> run_state" where
  "service_run events = foldl (\<lambda>r e. case run_step e r of None \<Rightarrow> r | Some r' \<Rightarrow> r') new_run events"

section \<open>No resource is closed under work\<close>

text \<open>After the run loop, what is still going on has its pending drain.\<close>

definition run_inv :: "run_state \<Rightarrow> bool" where
  "run_inv r \<longleftrightarrow> server_inv (rn_server r)
     \<and> (rn_phase r = NotStarted \<longrightarrow> rn_workers r = 0 \<and> rn_unsafe r = [] \<and> sv_handlers (rn_server r) = []
         \<and> sv_loop (rn_server r) = Idle \<and> \<not> sv_listening (rn_server r))
     \<and> (rn_phase r \<notin> {NotStarted, Running} \<longrightarrow> HandlersDrain \<notin> set (rn_unsafe r) \<longrightarrow> sv_drained (rn_server r))
     \<and> (rn_phase r \<in> {Flushing, Returned} \<longrightarrow> WorkersDrain \<notin> set (rn_unsafe r) \<longrightarrow> rn_workers r = 0)
     \<and> (rn_phase r = Flushing \<longrightarrow> rn_unsafe r = [])
     \<and> (rn_flushed r \<longrightarrow> rn_phase r = Returned \<and> rn_unsafe r = [])
     \<and> (rn_closed r \<longrightarrow> rn_phase r \<in> {NotStarted, Returned} \<and> rn_unsafe r = [])"

lemma ipc_step_drained: "sv_drained s \<Longrightarrow> ipc_step e s = Some t \<Longrightarrow> sv_drained t"
  by (cases e) (auto simp: ipc_Listen_def Server_Close_def trackConnection_def untrackConnection_def
      split: if_splits option.splits accept_loop.splits stage.splits)

lemma run_inv_new: "run_inv new_run"
  using server_inv_new by (simp add: run_inv_def new_run_def) (simp add: new_server_def)

lemma run_step_inv:
  assumes inv: "run_inv r" and step: "run_step e r = Some r'"
  shows "run_inv r'"
proof (cases e)
  case Run_listened
  then obtain t where t: "ipc_step Listen_ok (rn_server r) = Some t" "r' = r\<lparr>rn_server := t, rn_phase := Running\<rparr>"
      "rn_phase r = NotStarted" "\<not> rn_closed r"
    using step by (auto simp: Run_listen_def simp del: ipc_step.simps split: if_splits option.splits)
  have server: "server_inv t" using ipc_step_inv[OF _ t(1)] inv by (simp add: run_inv_def)
  then show ?thesis using inv t(2-4) by (simp add: run_inv_def)
next
  case (Server_event ev)
  then obtain t where t: "ipc_step ev (rn_server r) = Some t" "r' = r\<lparr>rn_server := t\<rparr>" "rn_phase r \<noteq> NotStarted"
    using step by (auto simp del: ipc_step.simps split: if_splits)
  have server: "server_inv t" using ipc_step_inv[OF _ t(1)] inv by (simp add: run_inv_def)
  have "sv_drained (rn_server r) \<Longrightarrow> sv_drained t" using ipc_step_drained t(1) by blast
  then show ?thesis using inv t(2,3) server by (simp add: run_inv_def)
next
  case Worker_started
  then have "r' = r\<lparr>rn_workers := rn_workers r + 1\<rparr>" "rn_phase r = Running \<or> 0 < rn_workers r"
    using step by (simp_all split: if_splits)
  then show ?thesis using inv by (cases "rn_phase r") (auto simp: run_inv_def)
next
  case Worker_ended
  then have "r' = r\<lparr>rn_workers := rn_workers r - 1\<rparr>" "0 < rn_workers r" using step by (simp_all split: if_splits)
  then show ?thesis using inv by (cases "rn_phase r") (auto simp: run_inv_def)
next
  case (Run_left timed_out)
  then have "r' = trackIPCDrain timed_out (r\<lparr>rn_phase := Draining\<rparr>)" "rn_phase r = Running" "timed_out \<or> sv_drained (rn_server r)"
    using step by (simp_all split: if_splits)
  then show ?thesis using inv by (auto simp: run_inv_def trackIPCDrain_def trackUnsafeDrain_def)
next
  case Workers_done
  then have "r' = r\<lparr>rn_phase := (if rn_unsafe r = [] then Flushing else Returned)\<rparr>" "rn_phase r = Draining" "rn_workers r = 0"
    using step by (simp_all split: if_splits)
  then show ?thesis using inv by (simp add: run_inv_def)
next
  case Workers_timeout
  then have "r' = trackUnsafeDrain WorkersDrain (r\<lparr>rn_phase := Returned\<rparr>)" "rn_phase r = Draining"
    using step by (simp_all split: if_splits)
  then show ?thesis using inv by (simp add: run_inv_def trackUnsafeDrain_def)
next
  case Flushed_all
  then have "r' = r\<lparr>rn_phase := Returned, rn_flushed := True\<rparr>" "rn_phase r = Flushing"
    using step by (simp_all split: if_splits)
  then show ?thesis using inv by (simp add: run_inv_def)
next
  case (Drain_ended d)
  then have d: "drain_over d r" "r' = r\<lparr>rn_unsafe := remove1 d (rn_unsafe r)\<rparr>" using step by (auto split: if_splits)
  have gone: "k \<notin> set (remove1 d (rn_unsafe r)) \<Longrightarrow> k \<notin> set (rn_unsafe r) \<or> k = d" for k
    by (metis in_set_remove1)
  have ended: "d \<in> set (rn_unsafe r)" using step Drain_ended by (simp split: if_splits)
  then have "rn_unsafe r \<noteq> []" by auto
  then have quiet: "\<not> rn_flushed r" "\<not> rn_closed r" "rn_phase r \<noteq> Flushing" "rn_phase r \<noteq> NotStarted"
    using inv unfolding run_inv_def by blast+
  show ?thesis
  proof (cases d)
    case WorkersDrain
    then have "rn_workers r = 0" "HandlersDrain \<notin> set (rn_unsafe r') \<Longrightarrow> HandlersDrain \<notin> set (rn_unsafe r)"
      using d gone[of HandlersDrain] by (auto simp: drain_over_def)
    then show ?thesis using inv quiet d(2) unfolding run_inv_def by simp
  next
    case HandlersDrain
    then have "sv_drained (rn_server r)" "WorkersDrain \<notin> set (rn_unsafe r') \<Longrightarrow> WorkersDrain \<notin> set (rn_unsafe r)"
      using d gone[of WorkersDrain] by (auto simp: drain_over_def)
    then show ?thesis using inv quiet d(2) unfolding run_inv_def by simp
  qed
next
  case Close_called
  then have r': "rn_unsafe r = []" "rn_phase r = NotStarted \<or> rn_phase r = Returned"
      "r' = r\<lparr>rn_closed := True, rn_server := (if sv_closed (rn_server r) then rn_server r else Server_Close (rn_server r))\<rparr>"
    using step by (simp_all add: Service_Close_def split: if_splits)
  have "server_inv (Server_Close (rn_server r))" if "\<not> sv_closed (rn_server r)"
    using inv that ipc_step_inv[of "rn_server r" Close_once] by (simp add: run_inv_def)
  then show ?thesis using inv r'(1,2) unfolding r'(3) run_inv_def by (auto simp: Server_Close_def)
qed

lemma service_run_inv: "run_inv (service_run events)"
proof -
  have "run_inv r \<Longrightarrow> run_inv (foldl (\<lambda>r e. case run_step e r of None \<Rightarrow> r | Some r' \<Rightarrow> r') r events)" for r
    by (induction events arbitrary: r) (auto intro: run_step_inv split: option.splits)
  then show ?thesis using run_inv_new by (simp add: service_run_def)
qed

lemma drained_no_work:
  assumes "server_inv s" "sv_drained s"
  shows "in_stage tracked_stage (sv_handlers s) = 0"
proof -
  have "in_stage (\<lambda>st. st \<noteq> Told) (sv_handlers s) = 0" using server_invD(6,9)[OF assms(1)] assms(2) by simp
  then show ?thesis by (auto simp: in_stage_def filter_empty_conv tracked_stage_def)
qed

text \<open>
  (C29) The telemetry is flushed at shutdown, and the spool and the log are closed, only when no
  worker runs and no handler of the control interface is at work, in every order of the events:
  whatever has outlived a drain timeout keeps the resources open until it has ended.
\<close>
theorem closed_after_work:
  assumes "rn_closed (service_run events) \<or> rn_phase (service_run events) = Flushing"
  shows "rn_workers (service_run events) = 0
    \<and> in_stage tracked_stage (sv_handlers (rn_server (service_run events))) = 0"
proof -
  define r where "r = service_run events"
  have inv: "run_inv r" by (simp add: r_def service_run_inv)
  have server: "server_inv (rn_server r)" using inv by (simp add: run_inv_def)
  show ?thesis
  proof (cases "rn_phase r = NotStarted")
    case True
    then show ?thesis using inv by (simp add: run_inv_def r_def[symmetric])
  next
    case False
    then have "rn_phase r \<in> {Flushing, Returned}" "rn_unsafe r = []"
      using assms inv by (auto simp: run_inv_def r_def[symmetric])
    then have "rn_workers r = 0" "sv_drained (rn_server r)" using inv by (auto simp: run_inv_def)
    then show ?thesis using drained_no_work[OF server] by (simp add: r_def)
  qed
qed

definition slow_stop :: "run_event list" where
  "slow_stop = [Run_listened, Server_event Serve_started, Worker_started, Server_event (Accept_ok 1), Server_event Slot_taken,
     Server_event Track, Server_event Close_once, Server_event Accept_failed, Run_left True, Workers_timeout, Close_called]"

definition slow_end :: "run_event list" where
  "slow_end = [Worker_ended, Server_event (Handler_returned 1), Server_event (Untrack 1), Server_event (Wait_done 1),
     Server_event Drain, Drain_ended HandlersDrain, Drain_ended WorkersDrain, Close_called]"

theorem closed_after_work_witness:
  "\<not> rn_closed (service_run slow_stop) \<and> rn_closed (service_run (slow_stop @ slow_end))
   \<and> rn_workers (service_run (slow_stop @ slow_end)) = 0"
proof -
  have closed: "rn_closed (service_run (slow_stop @ slow_end))" by code_simp
  have "\<not> rn_closed (service_run slow_stop)" by code_simp
  then show ?thesis using closed closed_after_work[of "slow_stop @ slow_end"] by simp
qed

end
