(* ===== verification/Service_View.thy ===== *)
theory Service_View
  imports Update_Service Support "HOL-Library.Sublist"
begin

text \<open>
  What the service shows of itself (\<open>internal/service/service.go\<close>): the watchers of live updates, the
  status answer, and the support bundle with its categories of errors. The channel of a watcher has
  room for one update; a broadcast never waits.
\<close>

section \<open>Live updates\<close>

record UpdateProgress =
  uq_Version :: string
  uq_DownloadedBytes :: int
  uq_TotalBytes :: int
  uq_Done :: bool

record LiveUpdate =
  lu_State :: string
  lu_Samples :: "Sample list"
  lu_Upload :: Snapshot
  lu_Captive :: bool
  lu_SpeedProgress :: "SpeedTestProgress option"
  lu_UpdateProgress :: "UpdateProgress option"
  lu_ConfigVersion :: int
  lu_Version :: string

definition plain_update :: "time \<Rightarrow> Service \<Rightarrow> LiveUpdate" where
  "plain_update now s = \<lparr>lu_State = lifecycle now s, lu_Samples = [], lu_Upload = up_snapshot (up_of s), lu_Captive = sv_captive s,
     lu_SpeedProgress = None, lu_UpdateProgress = None, lu_ConfigVersion = 0, lu_Version = ''''\<rparr>"

definition live_update :: "update_env \<Rightarrow> time \<Rightarrow> Service \<Rightarrow> LiveUpdate" where
  "live_update ue now s =
     (plain_update now s)\<lparr>lu_ConfigVersion := ps_ConfigVersion (state_of s), lu_Version := serviceVersion ue,
       lu_Samples := drop (length (Live (sv_agg s)) - 8) (Live (sv_agg s))\<rparr>"

definition speed_update :: "time \<Rightarrow> SpeedTestProgress \<Rightarrow> Service \<Rightarrow> LiveUpdate" where
  "speed_update now progress s = (plain_update now s)\<lparr>lu_SpeedProgress := Some progress\<rparr>"

definition staging_update :: "time \<Rightarrow> int \<Rightarrow> int \<Rightarrow> Updates \<Rightarrow> LiveUpdate" where
  "staging_update now downloaded whole u =
     (plain_update now (uv_service u))\<lparr>lu_UpdateProgress := Some
        \<lparr>uq_Version = (case us_Available (uv_status u) of Some av \<Rightarrow> ua_Version (av_Artifact av) | None \<Rightarrow> ''''),
         uq_DownloadedBytes = downloaded, uq_TotalBytes = whole, uq_Done = (whole > 0 \<and> downloaded \<ge> whole)\<rparr>\<rparr>"

text \<open>The progress shown while the traffic check before a test runs.\<close>

definition traffic_check :: "string \<Rightarrow> duration \<Rightarrow> SpeedTestProgress" where
  "traffic_check profileName since =
     \<lparr>sg_MeasurementID = ''preflight'', sg_Profile = profileName, sg_Phase = ''traffic_check'', sg_ElapsedMS = since div Millisecond,
      sg_DownloadMbps = 0, sg_UploadMbps = 0, sg_DownloadBytes = 0, sg_UploadBytes = 0, sg_RTTMS = 0, sg_BaselineP50MS = 0,
      sg_Done = False\<rparr>"

section \<open>Watchers\<close>

text \<open>
  A watcher with its channel: the buffered value, whether it is still in the map, what its reader
  has taken, and how many broadcasts there had been when it subscribed.
\<close>

record 'u watcher =
  wc_id :: nat
  wc_from :: nat
  wc_got :: "'u list"
  wc_buffer :: "'u list"
  wc_open :: bool

record 'u watchers =
  wt_next :: nat
  wt_list :: "'u watcher list"
  wt_log :: "'u list"

definition no_watchers :: "'u watchers" where
  "no_watchers = \<lparr>wt_next = 0, wt_list = [], wt_log = []\<rparr>"

definition on_watcher :: "('u watcher \<Rightarrow> 'u watcher) \<Rightarrow> nat \<Rightarrow> 'u watchers \<Rightarrow> 'u watchers" where
  "on_watcher f k t = t\<lparr>wt_list := map (\<lambda>w. if wc_id w = k then f w else w) (wt_list t)\<rparr>"

definition subscribe :: "'u watchers \<Rightarrow> 'u watchers" where
  "subscribe t = t\<lparr>wt_next := wt_next t + 1,
     wt_list := \<lparr>wc_id = wt_next t + 1, wc_from = length (wt_log t), wc_got = [], wc_buffer = [], wc_open = True\<rparr> # wt_list t\<rparr>"

definition unsubscribe :: "nat \<Rightarrow> 'u watchers \<Rightarrow> 'u watchers" where
  "unsubscribe = on_watcher (\<lambda>w. w\<lparr>wc_open := False\<rparr>)"

definition offer_update :: "'u \<Rightarrow> 'u watcher \<Rightarrow> 'u watcher" where
  "offer_update u w = (if wc_open w \<and> wc_buffer w = [] then w\<lparr>wc_buffer := [u]\<rparr> else w)"

definition broadcast :: "'u \<Rightarrow> 'u watchers \<Rightarrow> 'u watchers" where
  "broadcast u t = t\<lparr>wt_log := wt_log t @ [u], wt_list := map (offer_update u) (wt_list t)\<rparr>"

definition receive :: "nat \<Rightarrow> 'u watchers \<Rightarrow> 'u watchers" where
  "receive = on_watcher (\<lambda>w. w\<lparr>wc_got := wc_got w @ wc_buffer w, wc_buffer := []\<rparr>)"

datatype 'u watch_event = Subscribed | Unsubscribed nat | Broadcast 'u | Received nat

fun watch_step :: "'u watchers \<Rightarrow> 'u watch_event \<Rightarrow> 'u watchers" where
  "watch_step t Subscribed = subscribe t"
| "watch_step t (Unsubscribed k) = unsubscribe k t"
| "watch_step t (Broadcast u) = broadcast u t"
| "watch_step t (Received k) = receive k t"

definition watch_run :: "'u watch_event list \<Rightarrow> 'u watchers" where
  "watch_run events = foldl watch_step no_watchers events"

definition in_order :: "'u list \<Rightarrow> 'u watcher \<Rightarrow> bool" where
  "in_order past w \<longleftrightarrow> wc_from w \<le> length past \<and> length (wc_buffer w) \<le> 1 \<and> subseq (wc_got w @ wc_buffer w) (drop (wc_from w) past)"

definition watch_inv :: "'u watchers \<Rightarrow> bool" where
  "watch_inv t \<longleftrightarrow> list_all (in_order (wt_log t)) (wt_list t) \<and> distinct (map wc_id (wt_list t))
     \<and> list_all (\<lambda>w. wc_id w \<le> wt_next t) (wt_list t)"

lemma in_order_offer: "in_order past w \<Longrightarrow> in_order (past @ [u]) (offer_update u w)"
  by (auto simp: in_order_def offer_update_def intro: subseq_append_iff[THEN iffD2] list_emb_append2 list_emb_append_mono)

lemma watch_inv_map:
  assumes "watch_inv t" "wt_list t' = map f (wt_list t)" "wt_next t' = wt_next t"
    and "\<And>w. wc_id (f w) = wc_id w" "\<And>w. in_order (wt_log t) w \<Longrightarrow> in_order (wt_log t') (f w)"
  shows "watch_inv t'"
proof -
  have "wc_id \<circ> f = wc_id" using assms(4) by auto
  then show ?thesis using assms by (simp add: watch_inv_def list_all_iff)
qed

lemma watch_step_inv: "watch_inv t \<Longrightarrow> watch_inv (watch_step t e)"
proof (cases e)
  case Subscribed
  assume inv: "watch_inv t"
  then have "wt_next t + 1 \<notin> wc_id ` set (wt_list t)" by (auto simp: watch_inv_def list_all_iff)
  then show ?thesis using inv Subscribed by (auto simp: watch_inv_def subscribe_def in_order_def list_all_iff)
next
  case (Unsubscribed k)
  then show "watch_inv t \<Longrightarrow> watch_inv (watch_step t e)"
    by (elim watch_inv_map[where f = "\<lambda>w. if wc_id w = k then w\<lparr>wc_open := False\<rparr> else w"]) (auto simp: unsubscribe_def on_watcher_def in_order_def)
next
  case (Broadcast u)
  then show "watch_inv t \<Longrightarrow> watch_inv (watch_step t e)"
    by (elim watch_inv_map[where f = "offer_update u"]) (auto simp: broadcast_def offer_update_def in_order_offer[unfolded offer_update_def])
next
  case (Received k)
  then show "watch_inv t \<Longrightarrow> watch_inv (watch_step t e)"
    by (elim watch_inv_map[where f = "\<lambda>w. if wc_id w = k then w\<lparr>wc_got := wc_got w @ wc_buffer w, wc_buffer := []\<rparr> else w"])
      (auto simp: receive_def on_watcher_def in_order_def)
qed

text \<open>
  Every watcher receives updates in the order they were broadcast after it subscribed, none twice;
  at most one waits in its channel, and the identifiers of the watchers stay distinct.
\<close>
lemma watchers_in_order: "watch_inv (watch_run events)"
proof -
  have "watch_inv t \<Longrightarrow> watch_inv (foldl watch_step t events)" for t :: "'a watchers"
    by (induction events arbitrary: t) (simp_all add: watch_step_inv)
  then show ?thesis by (simp add: watch_run_def) (simp add: watch_inv_def no_watchers_def)
qed
section \<open>Status\<close>

record Status =
  ss_Version :: string
  ss_State :: string
  ss_Mode :: string
  ss_Connected :: bool
  ss_SensorID :: string
  ss_SiteID :: string
  ss_ControllerURL :: string
  ss_ConfigVersion :: int
  ss_SSIDConsent :: bool
  ss_SSIDPurgePending :: bool
  ss_PrivacyPurgeAction :: string
  ss_SSIDRequested :: bool
  ss_PausedUntil :: time
  ss_RevokedAt :: time
  ss_Spool :: Stats
  ss_Upload :: Snapshot
  ss_UptimeSeconds :: int
  ss_Live :: "Sample list"
  ss_Captive :: bool
  ss_LastSpeedTest :: time
  ss_NextSpeedTest :: time
  ss_LastSpeedTests :: "string \<rightharpoonup> time"
  ss_NextSpeedTests :: "string \<rightharpoonup> time"
  ss_SpeedProfiles :: "SpeedProfileConfig list"
  ss_ManualTestEnvelopes :: "string \<rightharpoonup> u64"
  ss_HouseholdMix :: HouseholdMix
  ss_HouseholdMixSource :: string
  ss_HouseholdAvailable :: bool
  ss_DataBudgetBytes :: u64
  ss_DataBudgetLimit :: u64
  ss_MonthlyBudgetBytes :: u64
  ss_MonthlyBudgetLimit :: u64
  ss_UpdateMethod :: string
  ss_UpdateChannel :: string
  ss_UpdateChannelLocked :: bool

definition last_run_of :: "State \<Rightarrow> string \<Rightarrow> time" where
  "last_run_of current name = (case ps_LastSpeedTests current name of Some t \<Rightarrow> t | None \<Rightarrow> zero_time)"

definition scheduled_profile :: "SpeedProfileConfig \<Rightarrow> bool" where
  "scheduled_profile p \<longleftrightarrow> pc_Enabled p \<and> pc_Windows p \<noteq> [] \<and> pc_Windows p \<noteq> [''never'']"

definition next_test_of :: "service_env \<Rightarrow> time \<Rightarrow> State \<Rightarrow> SpeedProfileConfig \<Rightarrow> time" where
  "next_test_of env since current p =
     (let coming = NextSpeedProfile (se_zone env) (se_digest env) (se_now env) (last_run_of current (pc_Name p)) (pc_Windows p)
            (pc_CadenceMinutes p) (ps_SensorUID current @ '':'' @ pc_Name p)
      in max coming (since + 5 * Minute))"

definition budget_limit :: "int \<Rightarrow> u64" where
  "budget_limit mb = push_bit 20 (word_of_int (max mb 0))"

definition envelopes :: "SpeedProfileConfig list \<Rightarrow> string \<rightharpoonup> u64" where
  "envelopes profiles = foldl (\<lambda>m p. case DeviceSpeedProfile (pc_Name p) of
      Some own \<Rightarrow> m(pc_Name p \<mapsto> pc_MaxDownloadBytes own + pc_MaxUploadBytes own) | None \<Rightarrow> m) Map.empty profiles"

definition service_Status :: "update_lib \<Rightarrow> update_env \<Rightarrow> bool \<Rightarrow> string + Stats \<Rightarrow> Updates \<Rightarrow> string + Status" where
  "service_Status l ue includeLive stats u =
     (let s = uv_service u; env = ue_env ue; now = se_now env; current = state_of s;
          effective = fst (effectiveMeasurementConfig current);
          budgets = RemainingDataBudgetsFor (se_zone env) now (sc_DailyDataBudgetMB effective) (sc_MonthlyDataBudgetMB effective) (store_of s);
          (channel, _, locked) = resolveUpdateSource ue (ps_UpdateChannel current); apt = (InstallMethod l = ''apt'');
          mix = EffectiveHouseholdMix (ps_HouseholdMix current) (sc_HouseholdMix effective);
          primary = defaultSpeedProfile effective;
          planned = filter scheduled_profile (sc_SpeedProfiles effective);
          nexts = foldl (\<lambda>m p. m(pc_Name p \<mapsto> next_test_of env (sv_started s) current p)) Map.empty planned
      in case stats of
           Inl e \<Rightarrow> Inl e
         | Inr sx \<Rightarrow> Inr
             \<lparr>ss_Version = serviceVersion ue, ss_State = lifecycle now s, ss_Mode = ps_Mode current, ss_Connected = Claimed current,
              ss_SensorID = ps_SensorID current, ss_SiteID = ps_SiteID current, ss_ControllerURL = ps_ControllerURL current,
              ss_ConfigVersion = ps_ConfigVersion current, ss_SSIDConsent = ps_SSIDConsent current,
              ss_SSIDPurgePending = ps_SSIDPurgePending current, ss_PrivacyPurgeAction = ps_PrivacyPurgeAction current,
              ss_SSIDRequested = sc_SendSSID effective, ss_PausedUntil = ps_PausedUntil current, ss_RevokedAt = ps_RevokedAt current,
              ss_Spool = sx, ss_Upload = up_snapshot (up_of s), ss_UptimeSeconds = (now - sv_started s) div Second,
              ss_Live = (if includeLive then Live (sv_agg s) else []), ss_Captive = sv_captive s,
              ss_LastSpeedTest = last_run_of current primary,
              ss_NextSpeedTest = (case nexts primary of Some t \<Rightarrow> t | None \<Rightarrow> zero_time),
              ss_LastSpeedTests = ps_LastSpeedTests current, ss_NextSpeedTests = nexts, ss_SpeedProfiles = sc_SpeedProfiles effective,
              ss_ManualTestEnvelopes = envelopes (sc_SpeedProfiles effective), ss_HouseholdMix = fst mix, ss_HouseholdMixSource = snd mix,
              ss_HouseholdAvailable = (configuredSpeedProfile effective ProfileHousehold \<noteq> None),
              ss_DataBudgetBytes = fst budgets, ss_DataBudgetLimit = budget_limit (sc_DailyDataBudgetMB effective),
              ss_MonthlyBudgetBytes = snd budgets, ss_MonthlyBudgetLimit = budget_limit (sc_MonthlyDataBudgetMB effective),
              ss_UpdateMethod = InstallMethod l, ss_UpdateChannel = (if apt then '''' else channel), ss_UpdateChannelLocked = (apt \<or> locked)\<rparr>)"

lemma next_tests_dom:
  "dom (foldl (\<lambda>m p. m(pc_Name p \<mapsto> f p)) m ps) = dom m \<union> pc_Name ` set ps"
  by (induction ps arbitrary: m) auto

lemma next_tests_ran:
  "\<forall>t \<in> ran m. P t \<Longrightarrow> \<forall>p. P (f p) \<Longrightarrow> \<forall>t \<in> ran (foldl (\<lambda>m p. m(pc_Name p \<mapsto> f p)) m ps). P t"
proof (induction ps arbitrary: m)
  case (Cons p ps)
  then have "\<forall>t \<in> ran (m(pc_Name p \<mapsto> f p)). P t" using ran_map_upd_Some by (auto simp: ran_def)
  then show ?case using Cons by simp
qed simp

text \<open>
  The status announces a next test for exactly the enabled profiles with a schedule, and never one
  in the first five minutes of the service, in which the scheduler starts none.
\<close>
lemma Status_next_tests:
  assumes "service_Status l ue includeLive stats u = Inr st"
  shows "dom (ss_NextSpeedTests st) = pc_Name ` {p \<in> set (ss_SpeedProfiles st). scheduled_profile p}"
    and "\<forall>t \<in> ran (ss_NextSpeedTests st). sv_started (uv_service u) + 5 * Minute \<le> t"
proof -
  define s where "s = uv_service u"
  define config where "config = fst (effectiveMeasurementConfig (state_of s))"
  have st: "ss_SpeedProfiles st = sc_SpeedProfiles config"
    "ss_NextSpeedTests st = foldl (\<lambda>m p. m(pc_Name p \<mapsto> next_test_of (ue_env ue) (sv_started s) (state_of s) p)) Map.empty
       (filter scheduled_profile (sc_SpeedProfiles config))"
    using assms by (auto simp: service_Status_def Let_def s_def config_def split: sum.splits prod.splits)
  show "dom (ss_NextSpeedTests st) = pc_Name ` {p \<in> set (ss_SpeedProfiles st). scheduled_profile p}"
    by (simp add: st next_tests_dom)
  show "\<forall>t \<in> ran (ss_NextSpeedTests st). sv_started (uv_service u) + 5 * Minute \<le> t"
    unfolding st(2) by (rule next_tests_ran) (simp_all add: next_test_of_def s_def)
qed
section \<open>The support bundle\<close>

definition supportErrorCategory :: "string \<Rightarrow> string" where
  "supportErrorCategory value =
     (let lower = to_lower value in
      if contains_str lower ''timeout'' \<or> contains_str lower ''deadline'' then ''timeout''
      else if contains_str lower ''dns'' \<or> contains_str lower ''resolve'' then ''dns''
      else if contains_str lower ''tls'' \<or> contains_str lower ''certificate'' then ''tls''
      else if contains_str lower ''refused'' then ''connection_refused''
      else if contains_str lower ''network'' \<or> contains_str lower ''unreachable'' then ''network_unreachable''
      else ''other'')"

definition number :: "int \<Rightarrow> document" where
  "number n = Scalar (itoa n)"

definition truth :: "bool \<Rightarrow> document" where
  "truth b = Scalar (if b then ''true'' else ''false'')"

definition profile_summary :: "SpeedProfileConfig \<Rightarrow> document" where
  "profile_summary p = Fields
     [(''name'', Text (pc_Name p)), (''enabled'', truth (pc_Enabled p)), (''window_count'', number (int (length (pc_Windows p)))),
      (''cadence_minutes'', number (pc_CadenceMinutes p)), (''min_duration_seconds'', number (pc_MinDurationSeconds p)),
      (''max_duration_seconds'', number (pc_MaxDurationSeconds p)), (''max_download_bytes'', number (uint (pc_MaxDownloadBytes p))),
      (''max_upload_bytes'', number (uint (pc_MaxUploadBytes p))), (''max_concurrent_requests'', number (pc_MaxConcurrentRequests p))]"

definition supportConfigSummary :: "SensorConfig \<Rightarrow> document" where
  "supportConfigSummary config = Fields
     [(''contract_version'', number (sc_ContractVersion config)), (''probe_interval_seconds'', number (sc_ProbeIntervalSeconds config)),
      (''upload_interval_seconds'', number (sc_UploadIntervalSeconds config)),
      (''probe_target_count'', number (int (length (sc_ProbeTargets config)))),
      (''dns_target_count'', number (int (length (sc_DNSDomains config)))), (''http_target_count'', number (int (length (sc_HTTPTargets config)))),
      (''daily_data_budget_mb'', number (sc_DailyDataBudgetMB config)), (''monthly_data_budget_mb'', number (sc_MonthlyDataBudgetMB config)),
      (''network_identity_enabled'', truth (sc_SendNetworkIdentity config)),
      (''speed_profiles'', Items (map profile_summary (sc_SpeedProfiles config)))]"

definition text_field :: "document \<Rightarrow> string \<Rightarrow> string option" where
  "text_field d key = (case d of Fields fs \<Rightarrow> (case map_of fs key of Some (Text s) \<Rightarrow> Some s | _ \<Rightarrow> None) | _ \<Rightarrow> None)"

text \<open>
  What the bundle counts of a record: its kind, the type of an event, the category of its error.
  \<open>decode\<close> is \<open>json.Unmarshal\<close> into an object, which may fail.
\<close>

definition record_event_type :: "(string \<Rightarrow> document option) \<Rightarrow> HistoryRecord \<Rightarrow> string option" where
  "record_event_type decode r =
     (case decode (hy_Data r) of
        None \<Rightarrow> None
      | Some d \<Rightarrow>
          if hy_Kind r = KindEvent
          then (case text_field d ''type'' of Some t \<Rightarrow> if length t \<le> 64 then Some t else None | None \<Rightarrow> None) else None)"

definition record_category :: "(string \<Rightarrow> document option) \<Rightarrow> HistoryRecord \<Rightarrow> string option" where
  "record_category decode r =
     (case decode (hy_Data r) of
        None \<Rightarrow> None
      | Some d \<Rightarrow> (case text_field d ''error'' of
            Some e \<Rightarrow> if e \<noteq> '''' then Some (supportErrorCategory e) else None | None \<Rightarrow> None))"

definition counts_of :: "string list \<Rightarrow> document" where
  "counts_of keys = Fields (map (\<lambda>k. (k, number (int (count_list keys k)))) (remdups keys))"

definition upload_summary :: "(time \<Rightarrow> string) \<Rightarrow> Snapshot \<Rightarrow> document" where
  "upload_summary show_time sn = Fields
     (concat (map (\<lambda>(k, t). if IsZero t then [] else [(k, Text (show_time t))])
        [(''last_success'', sn_LastSuccess sn), (''last_attempt'', sn_LastAttempt sn), (''next_attempt'', sn_NextAttempt sn)])
      @ (if sn_LastError sn = '''' then [] else [(''last_error'', Text (supportErrorCategory (sn_LastError sn)))])
      @ [(''failures'', number (sn_Failures sn)), (''uploaded_bytes'', number (sn_UploadedBytes sn))])"

definition spool_summary :: "Stats \<Rightarrow> document" where
  "spool_summary sx = Fields
     [(''records'', number (sx_Records sx)), (''bytes'', number (sx_Bytes sx)), (''payload_bytes'', number (sx_PayloadBytes sx)),
      (''payload_limit_bytes'', number (sx_PayloadLimitBytes sx)), (''storage_bytes'', number (sx_StorageBytes sx)),
      (''dropped'', number (sx_Dropped sx))]"

definition bundle_document ::
  "(string \<Rightarrow> document option) \<Rightarrow> (time \<Rightarrow> string) \<Rightarrow> string \<times> string \<Rightarrow> time \<Rightarrow> Status \<Rightarrow> SensorConfig \<Rightarrow> UpdateStatus \<Rightarrow> HistoryRecord list \<Rightarrow> document" where
  "bundle_document decode show_time platform now st config us records = Fields
     [(''schema_version'', number 1), (''generated_at'', Text (show_time now)), (''app_version'', Text (ss_Version st)),
      (''platform'', Fields [(''os'', Text (fst platform)), (''arch'', Text (snd platform))]),
      (''service'', Fields [(''state'', Text (ss_State st)), (''mode'', Text (ss_Mode st)), (''uptime_seconds'', number (ss_UptimeSeconds st)),
         (''captive'', truth (ss_Captive st))]),
      (''config'', supportConfigSummary config), (''spool'', spool_summary (ss_Spool st)), (''upload'', upload_summary show_time (ss_Upload st)),
      (''update_status'', Fields [(''current_version'', Text (us_CurrentVersion us)), (''available_version'', Text (us_AvailableVersion us)),
         (''staged'', truth (us_StagedPath us \<noteq> '''')), (''restarting'', truth (us_Restarting us)), (''checked_at'', Text (show_time (us_CheckedAt us)))]),
      (''recent_record_counts'', counts_of (map hy_Kind records)),
      (''recent_state_transitions'', counts_of (List.map_filter (record_event_type decode) records)),
      (''probe_error_categories'', counts_of (List.map_filter (record_category decode) records))]"

definition handle_support_bundle ::
  "patterns \<Rightarrow> (document \<Rightarrow> string) \<Rightarrow> (string \<Rightarrow> document option) \<Rightarrow> (time \<Rightarrow> string) \<Rightarrow> string \<times> string \<Rightarrow>
   update_lib \<Rightarrow> update_env \<Rightarrow> string + Stats \<Rightarrow> Updates \<Rightarrow> ipc_error + document" where
  "handle_support_bundle p marshalIndent decode show_time platform l ue stats u =
     (let s = uv_service u; env = ue_env ue in
      case service_Status l ue False stats u of
        Inl e \<Rightarrow> Inl (internalError e)
      | Inr st \<Rightarrow>
          (case History (se_spool_faults env) (se_now env - 24 * Hour) 10000 (spool_of s) of
             Inl e \<Rightarrow> Inl (internalError e)
           | Inr records \<Rightarrow>
               let d = bundle_document decode show_time platform (se_now env) st (fst (effectiveMeasurementConfig (state_of s))) (uv_status u) records
               in (case Encode p marshalIndent (Inr d) of Inl e \<Rightarrow> Inl (internalError e) | Inr _ \<Rightarrow> Inr (redactValue p d))))"

lemma supportErrorCategory_range:
  "supportErrorCategory e \<in> {''timeout'', ''dns'', ''tls'', ''connection_refused'', ''network_unreachable'', ''other''}"
  by (simp add: supportErrorCategory_def Let_def)

definition record_view :: "(string \<Rightarrow> document option) \<Rightarrow> HistoryRecord \<Rightarrow> string \<times> string option \<times> string option" where
  "record_view decode r = (hy_Kind r, record_event_type decode r, record_category decode r)"

text \<open>
  Of the records in the spool, a bundle depends on nothing but how many there are of each kind, of
  each event type and of each category of errors: no address, name or error text of a record can
  reach it, with or without the redaction.
\<close>
lemma bundle_hides_records:
  assumes "map (record_view decode) records = map (record_view decode) others"
  shows "bundle_document decode show_time platform now st config us records
    = bundle_document decode show_time platform now st config us others"
proof -
  have fields: "map (g \<circ> record_view decode) records = map (g \<circ> record_view decode) others" for g :: "_ \<Rightarrow> 'a"
    using arg_cong[OF assms, of "map g"] by simp
  have views: "hy_Kind = fst \<circ> record_view decode" "record_event_type decode = (fst \<circ> snd) \<circ> record_view decode"
    "record_category decode = (snd \<circ> snd) \<circ> record_view decode"
    by (auto simp: record_view_def)
  have filtered: "List.map_filter (g \<circ> record_view decode) records = List.map_filter (g \<circ> record_view decode) others"
    for g :: "_ \<Rightarrow> string option"
  proof -
    have "List.map_filter (g \<circ> record_view decode) rs = List.map_filter g (map (record_view decode) rs)" for rs
      by (induction rs) (simp_all add: map_filter_simps split: option.split)
    then show ?thesis using assms by simp
  qed
  have "map hy_Kind records = map hy_Kind others" using fields[of fst] by (simp add: views(1))
  then show ?thesis
    using filtered[of "fst \<circ> snd"] filtered[of "snd \<circ> snd"] unfolding views(2,3)[symmetric]
    by (simp add: bundle_document_def)
qed

end
