(* ===== verification/Progress.thy ===== *)
theory Progress
  imports Quality_Score Protocol_Types
begin

text \<open>
  The live progress of a test (\<open>progressEmitter\<close> of \<open>internal/qualitytest/runner.go\<close> and the calls of
  \<open>household.go\<close>): the snapshot, the rates between two readings, the totals over the phases, and the
  throttled sending. What was sent is collected. Byte counts wrap at 64 bits as in the code; every
  call is given the time it reads first and the time \<open>emitLocked\<close> reads.
\<close>

section \<open>The emitter\<close>

record progressEmitter =
  pe_started :: time
  pe_snapshot :: SpeedTestProgress
  pe_lastSent :: time
  pe_lastDownloadBytes :: u64
  pe_lastUploadBytes :: u64
  pe_baseDownload :: u64
  pe_baseUpload :: u64
  pe_lastRateAt :: time
  pe_sent :: "SpeedTestProgress list"

definition newProgressEmitter :: "bool \<Rightarrow> string \<Rightarrow> string \<Rightarrow> time \<Rightarrow> progressEmitter option" where
  "newProgressEmitter listening measurement profile started =
     (if \<not> listening then None
      else Some \<lparr>pe_started = started,
        pe_snapshot = \<lparr>sg_MeasurementID = measurement, sg_Profile = profile, sg_Phase = '''', sg_ElapsedMS = 0, sg_DownloadMbps = 0,
          sg_UploadMbps = 0, sg_DownloadBytes = 0, sg_UploadBytes = 0, sg_RTTMS = 0, sg_BaselineP50MS = 0, sg_Done = False\<rparr>,
        pe_lastSent = zero_time, pe_lastDownloadBytes = 0, pe_lastUploadBytes = 0, pe_baseDownload = 0, pe_baseUpload = 0,
        pe_lastRateAt = started, pe_sent = []\<rparr>)"

definition emitLocked :: "bool \<Rightarrow> time \<Rightarrow> progressEmitter \<Rightarrow> progressEmitter" where
  "emitLocked force now p =
     (if \<not> force \<and> now - pe_lastSent p < 150 * Millisecond then p
      else let snapshot = (pe_snapshot p)\<lparr>sg_ElapsedMS := (now - pe_started p) div Millisecond\<rparr>
           in p\<lparr>pe_lastSent := now, pe_snapshot := snapshot, pe_sent := pe_sent p @ [snapshot]\<rparr>)"

definition emit_phase :: "string \<Rightarrow> time \<Rightarrow> time \<Rightarrow> progressEmitter \<Rightarrow> progressEmitter" where
  "emit_phase name now later p =
     (let snapshot = (pe_snapshot p)\<lparr>sg_Phase := name, sg_DownloadMbps := 0, sg_UploadMbps := 0\<rparr>
      in emitLocked True later (p\<lparr>pe_snapshot := snapshot, pe_baseDownload := sg_DownloadBytes snapshot,
           pe_baseUpload := sg_UploadBytes snapshot, pe_lastDownloadBytes := 0, pe_lastUploadBytes := 0, pe_lastRateAt := now\<rparr>))"

definition emit_baseline :: "real \<Rightarrow> time \<Rightarrow> progressEmitter \<Rightarrow> progressEmitter" where
  "emit_baseline p50 later p = emitLocked True later (p\<lparr>pe_snapshot := (pe_snapshot p)\<lparr>sg_BaselineP50MS := p50\<rparr>\<rparr>)"

definition emit_rtt :: "real \<Rightarrow> time \<Rightarrow> progressEmitter \<Rightarrow> progressEmitter" where
  "emit_rtt rtt later p = emitLocked False later (p\<lparr>pe_snapshot := (pe_snapshot p)\<lparr>sg_RTTMS := round_places rtt 3\<rparr>\<rparr>)"

definition rate_mbps :: "u64 \<Rightarrow> u64 \<Rightarrow> duration \<Rightarrow> real" where
  "rate_mbps bytes before elapsed =
     round_places (real (unat (bytes - before)) * 8 / (real_of_int elapsed / real_of_int Second) / 1000000) 2"

definition emit_rates :: "u64 \<Rightarrow> u64 \<Rightarrow> time \<Rightarrow> time \<Rightarrow> progressEmitter \<Rightarrow> progressEmitter" where
  "emit_rates downloadBytes uploadBytes now later p =
     (let elapsed = now - pe_lastRateAt p;
          q = (if elapsed \<ge> 50 * Millisecond
               then p\<lparr>pe_snapshot := (pe_snapshot p)\<lparr>sg_DownloadMbps := rate_mbps downloadBytes (pe_lastDownloadBytes p) elapsed,
                        sg_UploadMbps := rate_mbps uploadBytes (pe_lastUploadBytes p) elapsed\<rparr>,
                      pe_lastDownloadBytes := downloadBytes, pe_lastUploadBytes := uploadBytes, pe_lastRateAt := now\<rparr>
               else p)
      in emitLocked False later (q\<lparr>pe_snapshot := (pe_snapshot q)\<lparr>sg_DownloadBytes := pe_baseDownload q + downloadBytes,
           sg_UploadBytes := pe_baseUpload q + uploadBytes\<rparr>\<rparr>))"

definition emit_done :: "real \<Rightarrow> real \<Rightarrow> time \<Rightarrow> progressEmitter \<Rightarrow> progressEmitter" where
  "emit_done download upload later p =
     emitLocked True later (p\<lparr>pe_snapshot := (pe_snapshot p)\<lparr>sg_Phase := ''done'', sg_Done := True,
       sg_DownloadMbps := download, sg_UploadMbps := upload\<rparr>\<rparr>)"

text \<open>\<open>warmupRateStream\<close>: the chunks of a calibration transfer, summed and shown in its direction.\<close>

fun warmup_stream :: "bool \<Rightarrow> u64 \<Rightarrow> (u64 \<times> time \<times> time) list \<Rightarrow> progressEmitter \<Rightarrow> progressEmitter" where
  "warmup_stream download sofar [] p = p"
| "warmup_stream download sofar ((count, now, later) # cs) p =
     (let bytes = sofar + count
      in warmup_stream download bytes cs (emit_rates (if download then bytes else 0) (if download then 0 else bytes) now later p))"

section \<open>Totals over the phases\<close>

text \<open>A phase with the byte counts it reported, each since the phase began.\<close>

type_synonym reading = "u64 \<times> u64 \<times> time \<times> time"

definition emit_readings :: "reading list \<Rightarrow> progressEmitter \<Rightarrow> progressEmitter" where
  "emit_readings readings p = fold (\<lambda>(d, u, now, later). emit_rates d u now later) readings p"

definition emit_run :: "(string \<times> time \<times> time \<times> reading list) list \<Rightarrow> progressEmitter \<Rightarrow> progressEmitter" where
  "emit_run phases p = fold (\<lambda>(name, now, later, readings) p. emit_readings readings (emit_phase name now later p)) phases p"

definition last_bytes :: "(u64 \<times> u64 \<times> time \<times> time \<Rightarrow> u64) \<Rightarrow> reading list \<Rightarrow> u64" where
  "last_bytes f readings = (if readings = [] then 0 else f (last readings))"

lemma emitLocked_keeps [simp]:
  "sg_DownloadBytes (pe_snapshot (emitLocked force now p)) = sg_DownloadBytes (pe_snapshot p)"
  "sg_UploadBytes (pe_snapshot (emitLocked force now p)) = sg_UploadBytes (pe_snapshot p)"
  "pe_baseDownload (emitLocked force now p) = pe_baseDownload p" "pe_baseUpload (emitLocked force now p) = pe_baseUpload p"
  by (simp_all add: emitLocked_def Let_def)

lemma emit_rates_bytes [simp]:
  "sg_DownloadBytes (pe_snapshot (emit_rates d u now later p)) = pe_baseDownload p + d"
  "sg_UploadBytes (pe_snapshot (emit_rates d u now later p)) = pe_baseUpload p + u"
  "pe_baseDownload (emit_rates d u now later p) = pe_baseDownload p" "pe_baseUpload (emit_rates d u now later p) = pe_baseUpload p"
  by (simp_all add: emit_rates_def Let_def)

lemma emit_readings_Nil: "emit_readings [] p = p"
  by (simp add: emit_readings_def)

lemma emit_readings_Cons: "emit_readings ((d, u, now, later) # rs) p = emit_readings rs (emit_rates d u now later p)"
  by (simp add: emit_readings_def)

lemma emit_readings_bytes:
  "pe_baseDownload (emit_readings rs p) = pe_baseDownload p" "pe_baseUpload (emit_readings rs p) = pe_baseUpload p"
  "rs \<noteq> [] \<Longrightarrow> sg_DownloadBytes (pe_snapshot (emit_readings rs p)) = pe_baseDownload p + fst (last rs)"
  "rs \<noteq> [] \<Longrightarrow> sg_UploadBytes (pe_snapshot (emit_readings rs p)) = pe_baseUpload p + fst (snd (last rs))"
  by (induction rs arbitrary: p) (auto simp: emit_readings_Nil emit_readings_Cons)

lemma emit_phase_bytes [simp]:
  "pe_baseDownload (emit_phase name now later p) = sg_DownloadBytes (pe_snapshot p)"
  "pe_baseUpload (emit_phase name now later p) = sg_UploadBytes (pe_snapshot p)"
  "sg_DownloadBytes (pe_snapshot (emit_phase name now later p)) = sg_DownloadBytes (pe_snapshot p)"
  "sg_UploadBytes (pe_snapshot (emit_phase name now later p)) = sg_UploadBytes (pe_snapshot p)"
  by (simp_all add: emit_phase_def Let_def)

text \<open>
  The totals shown are the sums over the phases of what each phase last reported, when every phase
  reports the bytes since its own beginning, as the phases of the saturation test do.
\<close>
lemma progress_totals:
  "sg_DownloadBytes (pe_snapshot (emit_run phases p))
     = sg_DownloadBytes (pe_snapshot p) + sum_list (map (\<lambda>(_, _, _, rs). last_bytes fst rs) phases)
   \<and> sg_UploadBytes (pe_snapshot (emit_run phases p))
     = sg_UploadBytes (pe_snapshot p) + sum_list (map (\<lambda>(_, _, _, rs). last_bytes (\<lambda>r. fst (snd r)) rs) phases)"
proof (induction phases arbitrary: p)
  case (Cons ph phases)
  obtain name now later rs where ph: "ph = (name, now, later, rs)" by (cases ph)
  define q where "q = emit_readings rs (emit_phase name now later p)"
  have q: "sg_DownloadBytes (pe_snapshot q) = sg_DownloadBytes (pe_snapshot p) + last_bytes fst rs"
    "sg_UploadBytes (pe_snapshot q) = sg_UploadBytes (pe_snapshot p) + last_bytes (\<lambda>r. fst (snd r)) rs"
    unfolding q_def by (cases "rs = []"; simp add: last_bytes_def emit_readings_bytes emit_readings_Nil)+
  have run: "emit_run (ph # phases) p = emit_run phases q" by (simp add: emit_run_def ph q_def)
  show ?case unfolding run using Cons.IH[of q] by (simp only: q ph list.map sum_list.Cons prod.case add.assoc)
qed (simp add: emit_run_def)

section \<open>The household test reports the bytes of its run\<close>

text \<open>
  The reference and the household phase both report the counters of the ledger, which the whole run
  shares: after a reference that moved \<open>ref\<close> bytes, the first reading of the household phase is
  already \<open>ref\<close>, and the reference's bytes are shown twice.
\<close>

definition household_progress :: "u64 \<Rightarrow> u64 \<Rightarrow> time \<Rightarrow> progressEmitter \<Rightarrow> progressEmitter" where
  "household_progress ref rest now p =
     emit_run [(''reference'', now, now, [(ref, 0, now + 250 * Millisecond, now + 250 * Millisecond)]),
               (''household'', now + Second, now + Second, [(ref + rest, 0, now + 1250 * Millisecond, now + 1250 * Millisecond)])] p"

lemma reference_shown_twice:
  "sg_DownloadBytes (pe_snapshot (household_progress ref rest now p)) = sg_DownloadBytes (pe_snapshot p) + 2 * ref + rest"
  using progress_totals[of "[(''reference'', now, now, [(ref, 0, now + 250 * Millisecond, now + 250 * Millisecond)]),
      (''household'', now + Second, now + Second, [(ref + rest, 0, now + 1250 * Millisecond, now + 1250 * Millisecond)])]" p]
  by (simp add: household_progress_def last_bytes_def)

text \<open>Between two updates that are not forced there are at least 150 milliseconds.\<close>

lemma emit_throttled:
  "pe_sent (emitLocked False now p) \<noteq> pe_sent p \<Longrightarrow> now - pe_lastSent p \<ge> 150 * Millisecond \<and> pe_lastSent (emitLocked False now p) = now"
  by (auto simp: emitLocked_def Let_def split: if_splits)

end
