(* ===== verification/Activation.thy ===== *)
theory Activation
  imports Update
begin

text \<open>
  How a staged update takes the place of the running program (\<open>internal/update/activate_unix.go\<close>,
  \<open>desktop_linux.go\<close>, \<open>desktop_darwin.go\<close>): the moves of files, the health check and the rollback, and
  the scripts that run after the old service has gone. Files are contents by path; permissions are
  not kept. Any call may fail, and a machine that stops has the files it would have if every later
  call failed, so a theorem over all faults also speaks of crashes. What the health checks and the
  tools report is arbitrary.
\<close>

section \<open>Moves\<close>

definition new_path :: "string \<Rightarrow> string" where "new_path p = p @ ''.pulse-new''"
definition previous_path :: "string \<Rightarrow> string" where "previous_path p = p @ ''.pulse-previous''"
definition failed_path :: "string \<Rightarrow> string" where "failed_path p = p @ ''.pulse-failed''"

lemma swap_paths [simp]:
  "new_path p \<noteq> p" "previous_path p \<noteq> p" "failed_path p \<noteq> p" "p \<noteq> new_path p" "p \<noteq> previous_path p" "p \<noteq> failed_path p"
  "new_path p \<noteq> previous_path p" "previous_path p \<noteq> new_path p" "new_path p \<noteq> failed_path p" "failed_path p \<noteq> new_path p"
  "previous_path p \<noteq> failed_path p" "failed_path p \<noteq> previous_path p"
  by (simp_all add: new_path_def previous_path_def failed_path_def)

definition remove_file :: "bool \<Rightarrow> string \<Rightarrow> files \<Rightarrow> files" where
  "remove_file fault p fs = (if fault then fs else fs(p := None))"

definition rename_file :: "bool \<Rightarrow> string \<Rightarrow> string \<Rightarrow> files \<Rightarrow> files \<times> bool" where
  "rename_file fault a b fs = (if fault \<or> fs a = None then (fs, False) else ((fs(a := None))(b := fs a), True))"

record copy_faults =
  cf_open :: bool
  cf_create :: bool
  cf_part :: "nat option"
  cf_sync :: bool
  cf_close :: bool
  cf_remove :: bool

text \<open>\<open>cf_part\<close> is how much was written when the copying fails.\<close>

definition copyExecutable :: "copy_faults \<Rightarrow> string \<Rightarrow> string \<Rightarrow> files \<Rightarrow> files \<times> string option" where
  "copyExecutable f source destination fs =
     (case fs source of
        None \<Rightarrow> (fs, Some ''open staged executable'')
      | Some data \<Rightarrow>
          if cf_open f then (fs, Some ''open staged executable'')
          else if cf_create f then (fs, Some ''create replacement executable'')
          else let written = fs(destination \<mapsto> (case cf_part f of Some n \<Rightarrow> take n data | None \<Rightarrow> data)) in
               if cf_part f \<noteq> None \<or> cf_sync f \<or> cf_close f
               then (remove_file (cf_remove f) destination written, Some ''write replacement executable'')
               else (written, None))"

section \<open>The replacement of a headless program\<close>

record swap_faults =
  sf_stat :: bool
  sf_copy :: copy_faults
  sf_remove_previous :: bool
  sf_archive :: bool
  sf_remove_new :: bool
  sf_place :: bool
  sf_restore :: bool
  sf_healthy :: bool
  sf_remove_failed :: bool
  sf_set_aside :: bool
  sf_rollback :: bool
  sf_sync_dir :: bool

text \<open>The moves from the archiving to the health check, which the unix and the Windows code share.\<close>

definition swap_in :: "swap_faults \<Rightarrow> string \<Rightarrow> files \<Rightarrow> files \<times> string option" where
  "swap_in f executable fs =
     (let fs1 = remove_file (sf_remove_previous f) (previous_path executable) fs in
      case rename_file (sf_archive f) executable (previous_path executable) fs1 of
        (fs2, False) \<Rightarrow> (remove_file (sf_remove_new f) (new_path executable) fs2, Some ''archive active executable'')
      | (fs2, True) \<Rightarrow>
          (case rename_file (sf_place f) (new_path executable) executable fs2 of
             (fs3, False) \<Rightarrow> (fst (rename_file (sf_restore f) (previous_path executable) executable fs3), Some ''activate staged executable'')
           | (fs3, True) \<Rightarrow>
               if sf_healthy f then (fs3, None)
               else let fs4 = remove_file (sf_remove_failed f) (failed_path executable) fs3;
                        fs5 = fst (rename_file (sf_set_aside f) executable (failed_path executable) fs4);
                        fs6 = fst (rename_file (sf_rollback f) (previous_path executable) executable fs5)
                    in (fs6, Some ''new executable health check failed'')))"

definition Activate_unix :: "update_lib \<Rightarrow> swap_faults \<Rightarrow> string \<Rightarrow> string \<Rightarrow> files \<Rightarrow> files \<times> update_error option" where
  "Activate_unix l f staged executable fs =
     (if InstallMethod l = ''apt'' then (fs, Some PackageManaged)
      else if \<not> has_prefix executable ''/'' then (fs, Some (UpdateFailed ''update executable path must be absolute''))
      else if sf_stat f \<or> fs executable = None then (fs, Some (UpdateFailed ''inspect active executable''))
      else case copyExecutable (sf_copy f) staged (new_path executable) fs of
             (fs1, Some e) \<Rightarrow> (fs1, Some (UpdateFailed e))
           | (fs1, None) \<Rightarrow>
               (case swap_in f executable fs1 of
                  (fs2, Some e) \<Rightarrow> (fs2, Some (UpdateFailed e))
                | (fs2, None) \<Rightarrow> (fs2, if sf_sync_dir f then Some (UpdateFailed ''sync directory'') else None)))"

lemma copy_elsewhere: "p \<noteq> destination \<Longrightarrow> fst (copyExecutable f source destination fs) p = fs p"
  by (auto simp: copyExecutable_def remove_file_def Let_def split: option.split)

lemma copy_written: "snd (copyExecutable f source destination fs) = None \<Longrightarrow> fst (copyExecutable f source destination fs) destination = fs source
    \<and> fs source \<noteq> None"
  by (auto simp: copyExecutable_def Let_def split: option.splits if_splits)

lemmas swap_simps = swap_in_def rename_file_def remove_file_def Let_def

lemma swap_keeps_old:
  "fs executable = Some old \<Longrightarrow>
     fst (swap_in f executable fs) executable = Some old \<or> fst (swap_in f executable fs) (previous_path executable) = Some old"
  by (auto simp: swap_simps split: if_splits)

lemma swap_done:
  "snd (swap_in f executable fs) = None \<Longrightarrow> fs executable = Some old \<Longrightarrow>
     fst (swap_in f executable fs) executable = fs (new_path executable) \<and> fs (new_path executable) \<noteq> None
     \<and> fst (swap_in f executable fs) (previous_path executable) = Some old \<and> sf_healthy f"
  by (auto simp: swap_simps split: if_splits)

lemma swap_rolled_back:
  "snd (swap_in f executable fs) \<noteq> None \<Longrightarrow> fs executable = Some old \<Longrightarrow> \<not> sf_restore f \<Longrightarrow> \<not> sf_rollback f \<Longrightarrow>
     fst (swap_in f executable fs) executable = Some old"
  by (auto simp: swap_simps split: if_splits)

lemma activation_result:
  assumes "fs executable = Some old"
  shows "let (fs', result) = Activate_unix l f staged executable fs in
     (fs' executable = Some old \<or> fs' (previous_path executable) = Some old)
     \<and> (result = None \<longrightarrow> fs' executable = fs staged \<and> fs staged \<noteq> None \<and> fs' (previous_path executable) = Some old \<and> sf_healthy f)
     \<and> (result \<noteq> None \<longrightarrow> \<not> sf_restore f \<longrightarrow> \<not> sf_rollback f \<longrightarrow> \<not> sf_sync_dir f \<longrightarrow> fs' executable = Some old)"
proof -
  let ?c = "copyExecutable (sf_copy f) staged (new_path executable) fs"
  have kept: "fst ?c executable = Some old" using assms by (simp add: copy_elsewhere)
  show ?thesis
  proof (cases "snd ?c")
    case (Some e)
    then show ?thesis using kept assms by (cases ?c) (auto simp: Activate_unix_def)
  next
    case None
    let ?s = "swap_in f executable (fst ?c)"
    have "fst ?c (new_path executable) = fs staged" "fs staged \<noteq> None" using copy_written[OF None] by auto
    then show ?thesis
      using assms None swap_keeps_old[of "fst ?c" executable old f, OF kept] swap_done[of f executable "fst ?c" old, OF _ kept] swap_rolled_back[of f executable "fst ?c" old, OF _ kept]
      by (cases ?c; cases ?s; cases "snd ?s") (auto simp: Activate_unix_def)
  qed
qed

text \<open>
  (C18) Whatever fails while a program is replaced, and wherever the machine stops, the old program
  is still there, at its path or beside it. A replacement that succeeds has put the staged program
  there, which has passed its health check, and keeps the old one; one that fails has put the old
  program back, unless moving it back or the final sync failed.
\<close>
theorem activation_keeps_old_program:
  assumes "fs executable = Some old"
  shows "let (fs', result) = Activate_unix l f staged executable fs in
     (fs' executable = Some old \<or> fs' (previous_path executable) = Some old)
     \<and> (result = None \<longrightarrow> fs' executable = fs staged \<and> fs staged \<noteq> None \<and> fs' (previous_path executable) = Some old \<and> sf_healthy f)
     \<and> (result \<noteq> None \<longrightarrow> \<not> sf_restore f \<longrightarrow> \<not> sf_rollback f \<longrightarrow> \<not> sf_sync_dir f \<longrightarrow> fs' executable = Some old)"
  using activation_result[of fs executable old l f staged] assms by simp

definition no_copy_faults :: copy_faults where
  "no_copy_faults = \<lparr>cf_open = False, cf_create = False, cf_part = None, cf_sync = False, cf_close = False, cf_remove = False\<rparr>"

definition no_swap_faults :: "bool \<Rightarrow> swap_faults" where
  "no_swap_faults healthy = \<lparr>sf_stat = False, sf_copy = no_copy_faults, sf_remove_previous = False, sf_archive = False, sf_remove_new = False,
     sf_place = False, sf_restore = False, sf_healthy = healthy, sf_remove_failed = False, sf_set_aside = False, sf_rollback = False,
     sf_sync_dir = False\<rparr>"

lemma activation_keeps_old_program_witness:
  "(let l = undefined\<lparr>ul_installMethod := ''self''\<rparr>; fs = [''/opt/pulse'' \<mapsto> ''v1'', ''/var/staged'' \<mapsto> ''v2''];
        (fs', result) = Activate_unix l (no_swap_faults False) ''/var/staged'' ''/opt/pulse'' fs in
     result = Some (UpdateFailed ''new executable health check failed'') \<and> fs' ''/opt/pulse'' = Some ''v1'')"
proof -
  let ?l = "undefined\<lparr>ul_installMethod := ''self''\<rparr> :: update_lib"
  let ?fs = "[''/opt/pulse'' \<mapsto> ''v1'', ''/var/staged'' \<mapsto> ''v2''] :: files"
  let ?r = "Activate_unix ?l (no_swap_faults False) ''/var/staged'' ''/opt/pulse'' ?fs"
  have failed: "snd ?r = Some (UpdateFailed ''new executable health check failed'')"
    by (simp add: Activate_unix_def no_swap_faults_def no_copy_faults_def copyExecutable_def swap_simps InstallMethod_def
        new_path_def previous_path_def failed_path_def has_prefix_def)
  have "?fs ''/opt/pulse'' = Some ''v1''" by simp
  from activation_keeps_old_program[of ?fs "''/opt/pulse''" "''v1''" ?l "no_swap_faults False" "''/var/staged''", OF this] failed
  have "fst ?r ''/opt/pulse'' = Some ''v1''" by (cases ?r) (simp add: no_swap_faults_def)
  then show ?thesis using failed by (cases ?r) simp
qed

text \<open>Between the two moves there is no program at the path.\<close>

lemma activation_gap:
  "fs executable = Some old \<Longrightarrow> fs staged = Some new \<Longrightarrow> has_prefix executable ''/'' \<Longrightarrow> InstallMethod l \<noteq> ''apt'' \<Longrightarrow>
     fst (Activate_unix l ((no_swap_faults True)\<lparr>sf_place := True, sf_restore := True\<rparr>) staged executable fs) executable = None"
  by (simp add: Activate_unix_def no_swap_faults_def no_copy_faults_def copyExecutable_def swap_simps)

text \<open>The path of a program whose file was unlinked while it ran, as \<open>/proc/self/exe\<close> gives it.\<close>

definition InstalledExecutable :: "string + string \<Rightarrow> string + string" where
  "InstalledExecutable executable = map_sum id (\<lambda>p. trim_suffix p '' (deleted)'') executable"

section \<open>The desktop program on Linux\<close>

text \<open>
  The script that follows: it waits for the old service to go, stops the old tray, starts the
  replaced program, and polls it; if the program does not become healthy, it moves the old one back.
  A poll sees whether the service runs, whether its health check passes, whether it still runs, and
  whether it runs when it is asked again.
\<close>

datatype relaunch = Terminate | LaunchService "string option" | LaunchDesktop "string option"

type_synonym polls = "nat \<Rightarrow> bool \<times> bool \<times> bool \<times> bool"

fun poll_service :: "polls \<Rightarrow> nat \<Rightarrow> nat \<Rightarrow> bool" where
  "poll_service see i 0 = False"
| "poll_service see i (Suc n) =
     (case see i of (runs, healthy, still, again) \<Rightarrow>
        if runs \<and> healthy \<and> still then True else if \<not> again then False else poll_service see (i + 1) n)"

record script_faults =
  rf_remove :: bool
  rf_aside :: bool
  rf_back :: bool

definition unixRelaunchScript ::
  "script_faults \<Rightarrow> bool \<Rightarrow> polls \<Rightarrow> nat \<Rightarrow> string \<Rightarrow> files \<Rightarrow> files \<times> relaunch list \<times> nat" where
  "unixRelaunchScript f tray see limit target fs =
     (let started = (if tray then [Terminate] else []) @ [LaunchService (fs target)] in
      if poll_service see 0 limit then (fs, started @ [LaunchDesktop (fs target)], 0)
      else case rename_file (rf_aside f) target (failed_path target) (remove_file (rf_remove f) (failed_path target) fs) of
             (fs1, False) \<Rightarrow> (fs1, started @ [Terminate], 1)
           | (fs1, True) \<Rightarrow>
               (case rename_file (rf_back f) (previous_path target) target fs1 of
                  (fs2, False) \<Rightarrow> (fs2, started @ [Terminate], 1)
                | (fs2, True) \<Rightarrow> (fs2, started @ [Terminate, LaunchService (fs2 target), LaunchDesktop (fs2 target)], 1)))"

definition relaunch_limit :: nat where "relaunch_limit = 30"

definition ActivateDesktop_linux ::
  "update_lib \<Rightarrow> swap_faults \<Rightarrow> bool \<Rightarrow> string \<Rightarrow> string \<Rightarrow> files \<Rightarrow> files \<times> update_error option" where
  "ActivateDesktop_linux l f start_fault appImage staged fs =
     (if InstallMethod l = ''apt'' then (fs, Some PackageManaged)
      else if appImage = '''' then (fs, Some (UpdateFailed ''desktop updates for deb installs are applied by the system package manager''))
      else case Activate_unix l f staged appImage fs of
             (fs1, Some e) \<Rightarrow> (fs1, Some e)
           | (fs1, None) \<Rightarrow> (fs1, if start_fault then Some (UpdateFailed ''start'') else None))"

lemma poll_seen:
  "poll_service see i n \<Longrightarrow> \<exists>j \<ge> i. j < i + n \<and> (case see j of (runs, healthy, still, _) \<Rightarrow> runs \<and> healthy \<and> still)"
proof (induction n arbitrary: i)
  case (Suc n)
  show ?case
  proof (cases "case see i of (runs, healthy, still, _) \<Rightarrow> runs \<and> healthy \<and> still")
    case True
    then show ?thesis by auto
  next
    case False
    then have "poll_service see (i + 1) n" using Suc.prems by (auto split: prod.splits if_splits)
    from Suc.IH[OF this] show ?thesis by (metis Suc_eq_plus1 Suc_leD add_Suc add_Suc_right)
  qed
qed simp

lemma relaunch_healthy:
  "unixRelaunchScript f tray see limit target fs = (fs', actions, 0) \<Longrightarrow> fs' = fs \<and> poll_service see 0 limit
     \<and> last actions = LaunchDesktop (fs target)"
  by (auto simp: unixRelaunchScript_def Let_def split: if_splits prod.splits bool.splits)

lemma relaunch_rolled_back:
  "unixRelaunchScript f tray see limit target fs = (fs', actions, 1) \<Longrightarrow> fs target \<noteq> None \<Longrightarrow> fs (previous_path target) = Some old \<Longrightarrow>
     \<not> rf_aside f \<Longrightarrow> \<not> rf_back f \<Longrightarrow>
     fs' target = Some old \<and> (\<exists>before. actions = before @ [Terminate, LaunchService (Some old), LaunchDesktop (Some old)])"
  by (auto simp: unixRelaunchScript_def rename_file_def remove_file_def Let_def split: if_splits)

lemma relaunch_code: "snd (snd (unixRelaunchScript f tray see limit target fs)) \<in> {0, 1}"
  by (auto simp: unixRelaunchScript_def Let_def split: prod.splits bool.splits)

text \<open>
  A desktop update that was activated on Linux ends with a running program that is one of the two:
  the staged one, after a poll found it running and healthy, or the old one, put back, as long as
  the two moves back succeed.
\<close>
lemma desktop_update_or_old_program:
  assumes old: "fs appImage = Some old"
    and active: "ActivateDesktop_linux l f start_fault appImage staged fs = (fs1, None)"
    and script: "unixRelaunchScript g tray see relaunch_limit appImage fs1 = (fs2, actions, code)"
    and movable: "\<not> rf_aside g" "\<not> rf_back g"
  shows "(code = 0 \<and> fs2 appImage = fs staged \<and> last actions = LaunchDesktop (fs staged)
      \<and> (\<exists>i < relaunch_limit. case see i of (runs, healthy, still, _) \<Rightarrow> runs \<and> healthy \<and> still))
    \<or> (code = 1 \<and> fs2 appImage = Some old \<and> (\<exists>before. actions = before @ [Terminate, LaunchService (Some old), LaunchDesktop (Some old)]))"
proof -
  have unix: "Activate_unix l f staged appImage fs = (fs1, None)"
    using active by (auto simp: ActivateDesktop_linux_def split: if_splits prod.splits option.splits)
  have placed: "fs1 appImage = fs staged" "fs staged \<noteq> None" "fs1 (previous_path appImage) = Some old"
    using activation_result[of fs appImage old l f staged, OF old] unix by auto
  have "code = 0 \<or> code = 1" using relaunch_code[of g tray see relaunch_limit appImage fs1] script by auto
  then show ?thesis
  proof
    assume zero: "code = 0"
    from relaunch_healthy[OF script[unfolded zero]] poll_seen[of see 0 relaunch_limit] placed show ?thesis
      by (auto simp: zero)
  next
    assume one: "code = 1"
    from relaunch_rolled_back[OF script[unfolded one] _ placed(3) movable] placed show ?thesis by (simp add: one)
  qed
qed

section \<open>The application bundle on macOS\<close>

text \<open>A bundle is one file here. Paths are clean ones.\<close>

definition dir_of :: "string \<Rightarrow> string" where
  "dir_of p =
     (let d = dropWhile (\<lambda>c. c \<noteq> CHR ''/'') (rev p); e = dropWhile (\<lambda>c. c = CHR ''/'') d in
      if d = [] then ''.'' else if e = [] then ''/'' else rev e)"

definition base_of :: "string \<Rightarrow> string" where
  "base_of p = rev (takeWhile (\<lambda>c. c \<noteq> CHR ''/'') (rev p))"

lemma dir_shorter: "dir_of p \<noteq> p \<Longrightarrow> length (dir_of p) < length p \<or> dir_of p = ''.''"
proof -
  assume moved: "dir_of p \<noteq> p"
  let ?d = "dropWhile (\<lambda>c. c \<noteq> CHR ''/'') (rev p)"
  let ?e = "dropWhile (\<lambda>c. c = CHR ''/'') ?d"
  have d: "length ?d \<le> length p" using length_dropWhile_le[of _ "rev p"] by simp
  show ?thesis
  proof (cases "?d = []")
    case False
    then obtain cs where cs: "?d = CHR ''/'' # cs" using hd_dropWhile[OF False] by (cases ?d) simp_all
    have e: "length ?e \<le> length cs" by (simp add: cs length_dropWhile_le)
    show ?thesis
    proof (cases "?e = []")
      case True
      have "dir_of p = ''/''" unfolding dir_of_def Let_def using True \<open>?d \<noteq> []\<close> by (simp only: if_False if_True simp_thms)
      moreover have "p \<noteq> ''/''" using moved calculation by auto
      moreover have "p \<noteq> [c]" if "c \<noteq> CHR ''/''" for c using cs that by auto
      moreover have "p \<noteq> []" using cs by auto
      ultimately have "length p \<noteq> 0" "length p \<noteq> 1" by (auto simp: length_Suc_conv)
      then have "1 < length p" by linarith
      then show ?thesis using \<open>dir_of p = ''/''\<close> by simp
    next
      case False
      have "dir_of p = rev ?e" unfolding dir_of_def Let_def using False \<open>?d \<noteq> []\<close> by (simp only: if_False simp_thms)
      moreover have "length ?e < length p" using e d cs by simp
      ultimately show ?thesis by simp
    qed
  qed (simp add: dir_of_def)
qed

function enclosing :: "string \<Rightarrow> string option" where
  "enclosing p = (if p = dir_of p then None else if has_suffix (to_lower p) ''.app'' then Some p else enclosing (dir_of p))"
  by pat_completeness auto
termination
proof (relation "measure (\<lambda>p. if p = [] then 2 else length p + (if p = ''.'' then 0 else 1))")
  fix p :: string
  assume moved: "p \<noteq> dir_of p"
  have "dir_of p \<noteq> []" by (auto simp: dir_of_def Let_def)
  moreover have "p \<noteq> ''.''" using moved by (auto simp: dir_of_def)
  ultimately show "(dir_of p, p) \<in> measure (\<lambda>p. if p = [] then 2 else length p + (if p = ''.'' then 0 else 1))"
    using dir_shorter[of p] moved by (cases p) auto
qed simp

declare enclosing.simps [simp del]

definition enclosingAppBundle :: "(string \<Rightarrow> string) \<Rightarrow> string \<Rightarrow> string + string" where
  "enclosingAppBundle clean executable =
     (case enclosing (clean executable) of
        Some p \<Rightarrow> Inr p | None \<Rightarrow> Inl ''running executable is not inside a macOS app bundle'')"

fun team_line :: "string list \<Rightarrow> string option" where
  "team_line [] = None"
| "team_line (line # lines) =
     (case cut_prefix (trim_space line) ''TeamIdentifier='' of
        Some team \<Rightarrow> if team \<noteq> '''' \<and> team \<noteq> ''not set'' then Some team else team_line lines
      | None \<Rightarrow> team_line lines)"

definition parseMacTeamIdentifier :: "string \<Rightarrow> string + string" where
  "parseMacTeamIdentifier output =
     (case team_line (split_at CHR 0x0A output) of Some team \<Rightarrow> Inr team | None \<Rightarrow> Inl ''code signature has no TeamIdentifier'')"

text \<open>
  What the disk image holds, and what the tools make of a bundle's contents. \<open>mb_ditto\<close> copies over
  what a leftover bundle has and gives the result, or what it has left when it fails.
\<close>

record mac_world =
  mb_temp :: bool
  mb_attach :: bool
  mb_entries :: "(string \<times> bool \<times> string) list option"
  mb_ditto :: "string option \<Rightarrow> string \<Rightarrow> string option + string"
  mb_codesign :: "string \<Rightarrow> bool"
  mb_spctl :: "string \<Rightarrow> bool"
  mb_describe :: "string \<Rightarrow> string option"
  mb_version :: "string \<Rightarrow> bool"
  mb_remove_left :: bool
  mb_remove_new :: bool
  mb_start :: bool

definition macTeamIdentifier :: "mac_world \<Rightarrow> string option \<Rightarrow> string + string" where
  "macTeamIdentifier w bundle =
     (case bundle of None \<Rightarrow> Inl ''inspect code signature''
      | Some contents \<Rightarrow> (case mb_describe w contents of None \<Rightarrow> Inl ''inspect code signature'' | Some out \<Rightarrow> parseMacTeamIdentifier out))"

definition mac_reject :: "mac_world \<Rightarrow> string \<Rightarrow> string option \<Rightarrow> string \<Rightarrow> string option" where
  "mac_reject w staged installed executable =
     (if \<not> mb_codesign w staged then Some ''verify staged macOS app''
      else if \<not> mb_spctl w staged then Some ''assess staged macOS app trust''
      else case macTeamIdentifier w installed of
             Inl _ \<Rightarrow> Some ''read installed macOS signer''
           | Inr current \<Rightarrow>
               (case macTeamIdentifier w (Some staged) of
                  Inl _ \<Rightarrow> Some ''read staged macOS signer''
                | Inr team \<Rightarrow>
                    if current \<noteq> team then Some ''staged macOS signer Team ID does not match installed Team ID''
                    else if \<not> mb_version w staged then Some ''staged macOS app health check failed''
                    else None))"

definition ActivateDesktop_darwin :: "mac_world \<Rightarrow> (string \<Rightarrow> string) \<Rightarrow> string \<Rightarrow> string \<Rightarrow> files \<Rightarrow> files \<times> string option" where
  "ActivateDesktop_darwin w clean staged executable fs =
     (if \<not> has_suffix (to_lower staged) ''.dmg'' then (fs, Some ''macOS desktop update is not a DMG'')
      else case enclosingAppBundle clean executable of
             Inl e \<Rightarrow> (fs, Some e)
           | Inr bundle \<Rightarrow>
               if mb_temp w then (fs, Some ''create DMG mount point'')
               else if mb_attach w then (fs, Some ''mount Pulse DMG'')
               else (case mb_entries w of
                       None \<Rightarrow> (fs, Some ''read directory'')
                     | Some entries \<Rightarrow>
                         (case List.find (\<lambda>(name, folder, _). folder \<and> has_suffix name ''.app'') entries of
                            None \<Rightarrow> (fs, Some ''downloaded DMG contains no application bundle'')
                          | Some (_, _, source) \<Rightarrow>
                              let fs1 = remove_file (mb_remove_left w) (new_path bundle) fs in
                              (case mb_ditto w (fs1 (new_path bundle)) source of
                                 Inl part \<Rightarrow> (fs1(new_path bundle := part), Some ''stage macOS app'')
                               | Inr contents \<Rightarrow>
                                   let fs2 = fs1(new_path bundle \<mapsto> contents) in
                                   (case mac_reject w contents (fs2 bundle) executable of
                                      Some e \<Rightarrow> (remove_file (mb_remove_new w) (new_path bundle) fs2, Some e)
                                    | None \<Rightarrow> (fs2, if mb_start w then Some ''start'' else None))))))"

text \<open>
  The swap helper is only started for a bundle that is signed, trusted, of the same team as the
  installed one and able to tell its version; nothing but the new bundle has been touched.
\<close>
lemma mac_bundle_checked:
  "ActivateDesktop_darwin w clean staged executable fs = (fs', None) \<Longrightarrow>
     \<exists>bundle contents team. enclosingAppBundle clean executable = Inr bundle \<and> fs' = (remove_file (mb_remove_left w) (new_path bundle) fs)(new_path bundle \<mapsto> contents)
       \<and> mb_codesign w contents \<and> mb_spctl w contents \<and> mb_version w contents
       \<and> macTeamIdentifier w (Some contents) = Inr team \<and> macTeamIdentifier w (fs bundle) = Inr team"
  by (auto simp: ActivateDesktop_darwin_def mac_reject_def Let_def remove_file_def split: if_splits sum.splits option.splits prod.splits)

text \<open>\<open>mv\<close> of a bundle onto one that is still there moves it inside.\<close>

definition move_bundle :: "bool \<Rightarrow> string \<Rightarrow> string \<Rightarrow> files \<Rightarrow> files \<times> bool" where
  "move_bundle fault a b fs =
     (if fault \<or> fs a = None then (fs, False)
      else ((fs(a := None))((if fs b = None then b else b @ ''/'' @ base_of a) := fs a), True))"

record mac_script =
  ms_remove_old :: bool
  ms_archive :: bool
  ms_place :: bool
  ms_restore :: bool
  ms_remove_failed :: bool
  ms_aside :: bool
  ms_back :: bool
  ms_tray :: bool
  ms_tray_stays :: bool
  ms_same_holder :: bool

definition macSwapScript ::
  "mac_script \<Rightarrow> polls \<Rightarrow> nat \<Rightarrow> string \<Rightarrow> string \<Rightarrow> files \<Rightarrow> files \<times> relaunch list \<times> nat" where
  "macSwapScript f see limit bundle staged fs =
     (let old = previous_path bundle;
          recover = (\<lambda>fs. (if fs old \<noteq> None \<and> fs bundle = None then fst (move_bundle (ms_restore f) old bundle fs) else fs, [], 1));
          fs1 = remove_file (ms_remove_old f) old fs
      in case move_bundle (ms_archive f) bundle old fs1 of
           (fs2, False) \<Rightarrow> recover fs2
         | (fs2, True) \<Rightarrow>
             (case move_bundle (ms_place f) staged bundle fs2 of
                (fs3, False) \<Rightarrow> recover fs3
              | (fs3, True) \<Rightarrow>
                  let started = [LaunchService (fs3 bundle)] in
                  if poll_service see 0 limit
                  then (fs3, started @ [LaunchDesktop (fs3 bundle)]
                          @ (if ms_tray f \<and> ms_tray_stays f \<and> ms_same_holder f then [Terminate, LaunchDesktop (fs3 bundle)] else []), 0)
                  else (case move_bundle (ms_aside f) bundle (failed_path bundle) (remove_file (ms_remove_failed f) (failed_path bundle) fs3) of
                          (fs4, False) \<Rightarrow> (fs4, started @ [Terminate], 1)
                        | (fs4, True) \<Rightarrow>
                            (case move_bundle (ms_back f) old bundle fs4 of
                               (fs5, False) \<Rightarrow> (fs5, started @ [Terminate], 1)
                             | (fs5, True) \<Rightarrow> (fs5, started @ [Terminate, LaunchService (fs5 bundle), LaunchDesktop (fs5 bundle)], 1)))))"

text \<open>
  After the swap the bundle is the staged one, seen healthy, or the old one, when leftovers can be
  removed and the moves back succeed.
\<close>
lemma mac_update_or_old_program:
  assumes there: "fs bundle = Some old" "fs (new_path bundle) = Some contents"
    and movable: "\<not> ms_remove_old f" "\<not> ms_remove_failed f" "\<not> ms_restore f" "\<not> ms_aside f" "\<not> ms_back f"
    and script: "macSwapScript f see limit bundle (new_path bundle) fs = (fs', actions, code)"
  shows "(code = 0 \<and> fs' bundle = Some contents \<and> poll_service see 0 limit) \<or> (code = 1 \<and> fs' bundle = Some old)"
  using script there movable
  by (auto simp: macSwapScript_def move_bundle_def remove_file_def Let_def split: if_splits)

end
