(* ===== verification/Activation_Windows.thy ===== *)
theory Activation_Windows
  imports Activation
begin

text \<open>
  Replacing the program on Windows (\<open>internal/update/activate_windows.go\<close>, \<open>desktop_windows.go\<close>), where a
  running executable cannot be moved: the service starts a helper and goes, and the helper waits for
  it, replaces the program or runs the installer, checks its health, and rolls back. Paths of Windows
  (\<open>filepath\<close>), the signatures of files and what processes do are parameters.
\<close>

section \<open>The headless program\<close>

datatype process_handle = NoSuchProcess | OpenRefused | Opened
datatype wait_outcome = WaitFailed | WaitTimeout | WaitEnded

definition waitForProcess :: "process_handle \<Rightarrow> wait_outcome \<Rightarrow> string option" where
  "waitForProcess handle outcome =
     (case handle of
        NoSuchProcess \<Rightarrow> None
      | OpenRefused \<Rightarrow> Some ''open update parent process''
      | Opened \<Rightarrow> (case outcome of
            WaitFailed \<Rightarrow> Some ''wait for update parent''
          | WaitTimeout \<Rightarrow> Some ''timed out waiting for the old service to stop''
          | WaitEnded \<Rightarrow> None))"

definition parse_pid :: "string \<Rightarrow> int option" where
  "parse_pid s = (case parse_digits s of Some n \<Rightarrow> if 0 < n \<and> n < 2 ^ 32 then Some n else None | None \<Rightarrow> None)"

definition copyWindowsExecutable :: "copy_faults \<Rightarrow> string \<Rightarrow> string \<Rightarrow> files \<Rightarrow> files \<times> string option" where
  "copyWindowsExecutable f source destination fs =
     (case fs source of
        None \<Rightarrow> (fs, Some ''open'')
      | Some data \<Rightarrow>
          if cf_open f then (fs, Some ''open'')
          else if cf_create f then (fs, Some ''create'')
          else (fs(destination \<mapsto> (case cf_part f of Some n \<Rightarrow> take n data | None \<Rightarrow> data)),
                if cf_part f \<noteq> None \<or> cf_sync f \<or> cf_close f then Some ''write'' else None))"

text \<open>The service manager is asked ten times; the last resort is to run the program itself.\<close>

datatype win_start = ByServiceManager | RunDirectly "string option" | StartService "string option" | StartDesktop "string option"

definition restartWindowsService :: "(nat \<Rightarrow> bool) \<Rightarrow> string option \<Rightarrow> win_start list" where
  "restartWindowsService manager program = (if list_ex manager [0..<10] then [ByServiceManager] else [RunDirectly program])"

record win_world =
  ww_Clean :: "string \<Rightarrow> string"
  ww_IsAbs :: "string \<Rightarrow> bool"
  ww_Base :: "string \<Rightarrow> string"
  ww_IsValid :: "string \<Rightarrow> bool"
  ww_handle :: process_handle
  ww_wait :: wait_outcome
  ww_self :: "string option"
  ww_copy :: copy_faults
  ww_swap :: swap_faults
  ww_manager :: "nat \<Rightarrow> bool"

definition Activate_windows :: "win_world \<Rightarrow> string \<Rightarrow> bool \<Rightarrow> string \<Rightarrow> string \<Rightarrow> string + string list" where
  "Activate_windows w pid start_fault staged executable =
     (if \<not> ww_IsAbs w staged \<or> \<not> ww_IsAbs w executable then Inl ''update paths must be absolute on Windows''
      else if start_fault then Inl ''start Windows update helper''
      else Inr [staged, ''apply-update'', pid, executable])"

definition apply_staged :: "win_world \<Rightarrow> string \<Rightarrow> string \<Rightarrow> files \<Rightarrow> files \<times> win_start list \<times> string option" where
  "apply_staged w staged active fs =
     (case copyWindowsExecutable (ww_copy w) staged (new_path active) fs of
        (fs1, Some e) \<Rightarrow> (fs1, [], Some e)
      | (fs1, None) \<Rightarrow>
          (case swap_in (ww_swap w) active fs1 of
             (fs2, Some e) \<Rightarrow> (fs2, [], Some e)
           | (fs2, None) \<Rightarrow> (fs2, restartWindowsService (ww_manager w) (fs2 active), None)))"

definition ApplyPending :: "win_world \<Rightarrow> string list \<Rightarrow> files \<Rightarrow> files \<times> win_start list \<times> string option" where
  "ApplyPending w args fs =
     (case args of
        [pid, target] \<Rightarrow>
          (if parse_pid pid = None then (fs, [], Some ''invalid Windows update parent PID'')
           else if \<not> ww_IsAbs w (ww_Clean w target) then (fs, [], Some ''update target must be absolute on Windows'')
           else (case waitForProcess (ww_handle w) (ww_wait w) of
                   Some e \<Rightarrow> (fs, [], Some e)
                 | None \<Rightarrow>
                     (case ww_self w of
                        None \<Rightarrow> (fs, [], Some ''locate staged updater'')
                      | Some staged \<Rightarrow> apply_staged w staged (ww_Clean w target) fs)))
      | _ \<Rightarrow> (fs, [], Some ''invalid Windows update helper arguments''))"

lemma windows_copy_elsewhere: "p \<noteq> destination \<Longrightarrow> fst (copyWindowsExecutable f source destination fs) p = fs p"
  by (auto simp: copyWindowsExecutable_def split: option.split)

lemma windows_copy_written:
  "snd (copyWindowsExecutable f source destination fs) = None \<Longrightarrow>
     fst (copyWindowsExecutable f source destination fs) destination = fs source \<and> fs source \<noteq> None"
  by (auto simp: copyWindowsExecutable_def split: option.splits if_splits)

lemma ApplyPending_cases:
  obtains e where "ApplyPending w args fs = (fs, [], Some e)"
  | pid target staged where "args = [pid, target]" "ww_self w = Some staged" "ApplyPending w args fs = apply_staged w staged (ww_Clean w target) fs"
proof -
  have "(\<exists>e. ApplyPending w args fs = (fs, [], Some e))
      \<or> (\<exists>pid target staged. args = [pid, target] \<and> ww_self w = Some staged \<and> ApplyPending w args fs = apply_staged w staged (ww_Clean w target) fs)"
    by (auto simp: ApplyPending_def split: list.split option.split)
  then show ?thesis using that by blast
qed

lemma apply_staged_outcome:
  assumes old: "fs active = Some old" and result: "apply_staged w staged active fs = (fs', starts, result)"
  shows "fs' active = Some old \<or> fs' (previous_path active) = Some old"
    and "result = None \<Longrightarrow> fs' active = fs staged \<and> fs staged \<noteq> None \<and> sf_healthy (ww_swap w)
      \<and> starts = restartWindowsService (ww_manager w) (fs staged)"
    and "result \<noteq> None \<Longrightarrow> starts = [] \<and> (\<not> sf_restore (ww_swap w) \<longrightarrow> \<not> sf_rollback (ww_swap w) \<longrightarrow> fs' active = Some old)"
proof -
  let ?c = "copyWindowsExecutable (ww_copy w) staged (new_path active) fs"
  let ?s = "swap_in (ww_swap w) active (fst ?c)"
  have kept: "fst ?c active = Some old" using old by (simp add: windows_copy_elsewhere)
  have "(fs' active = Some old \<or> fs' (previous_path active) = Some old)
      \<and> (result = None \<longrightarrow> fs' active = fs staged \<and> fs staged \<noteq> None \<and> sf_healthy (ww_swap w)
          \<and> starts = restartWindowsService (ww_manager w) (fs staged))
      \<and> (result \<noteq> None \<longrightarrow> starts = [] \<and> (\<not> sf_restore (ww_swap w) \<longrightarrow> \<not> sf_rollback (ww_swap w) \<longrightarrow> fs' active = Some old))"
  proof (cases "snd ?c")
    case (Some e)
    then show ?thesis using result kept by (cases ?c) (auto simp: apply_staged_def)
  next
    case None
    have "fst ?c (new_path active) = fs staged" "fs staged \<noteq> None" using windows_copy_written[OF None] by auto
    then show ?thesis
      using result None swap_keeps_old[of "fst ?c" active old "ww_swap w", OF kept]
        swap_done[of "ww_swap w" active "fst ?c" old, OF _ kept] swap_rolled_back[of "ww_swap w" active "fst ?c" old, OF _ kept]
      by (cases ?c; cases ?s; cases "snd ?s") (auto simp: apply_staged_def)
  qed
  then show "fs' active = Some old \<or> fs' (previous_path active) = Some old"
    and "result = None \<Longrightarrow> fs' active = fs staged \<and> fs staged \<noteq> None \<and> sf_healthy (ww_swap w)
      \<and> starts = restartWindowsService (ww_manager w) (fs staged)"
    and "result \<noteq> None \<Longrightarrow> starts = [] \<and> (\<not> sf_restore (ww_swap w) \<longrightarrow> \<not> sf_rollback (ww_swap w) \<longrightarrow> fs' active = Some old)"
    by blast+
qed

text \<open>
  A helper that fails starts nothing, not even after it has put the old program back: the service
  it waited for is gone and stays stopped.
\<close>
lemma failed_helper_starts_nothing: "ApplyPending w args fs = (fs', starts, Some e) \<Longrightarrow> starts = []"
  by (cases rule: ApplyPending_cases[of w args fs]) (auto simp: apply_staged_def split: prod.splits option.splits)

section \<open>The desktop program\<close>

text \<open>\<open>verifyWindowsPublisher\<close>: the script wants two valid signatures of the same publisher.\<close>

record authenticode =
  ac_Valid :: bool
  ac_Subject :: string

type_synonym signatures = "string \<Rightarrow> authenticode option"

definition publisher_ok :: "signatures \<Rightarrow> string option \<Rightarrow> string option \<Rightarrow> bool" where
  "publisher_ok sig staged current =
     (case (Option.bind staged sig, Option.bind current sig) of
        (Some s, Some c) \<Rightarrow> ac_Valid s \<and> ac_Valid c \<and> trim_space (ac_Subject s) \<noteq> '''' \<and> ac_Subject s = ac_Subject c
      | _ \<Rightarrow> False)"

definition verifyWindowsPublisher :: "signatures \<Rightarrow> bool \<Rightarrow> string option \<Rightarrow> string option \<Rightarrow> string option" where
  "verifyWindowsPublisher sig fault staged current =
     (if fault \<or> \<not> publisher_ok sig staged current then Some ''verify Windows update publisher'' else None)"

record desktop_world = win_world +
  dt_sig :: signatures
  dt_verify :: bool
  dt_start :: bool
  dt_release :: bool
  dt_remove_previous :: bool
  dt_install :: "files \<Rightarrow> files \<times> bool"
  dt_polls :: "((process_handle \<times> wait_outcome) \<times> bool \<times> (process_handle \<times> wait_outcome)) list"
  dt_kill :: bool
  dt_exit :: "process_handle \<times> wait_outcome"
  dt_reap :: bool
  dt_restore :: script_faults
  dt_stat :: bool
  dt_old_service :: bool
  dt_old_desktop :: bool

definition ActivateDesktop_windows ::
  "desktop_world \<Rightarrow> string \<Rightarrow> string \<Rightarrow> string \<Rightarrow> string \<Rightarrow> string \<Rightarrow> files \<Rightarrow> files \<times> (string + string list)" where
  "ActivateDesktop_windows w pid helper staged executable version fs =
     (let name = to_lower (ww_Base w staged) in
      if \<not> has_suffix name ''.exe'' \<or> \<not> contains_str name ''setup''
      then (fs, Inl ''desktop update is not a signed Windows setup executable'')
      else case verifyWindowsPublisher (dt_sig w) (dt_verify w) (fs staged) (fs executable) of
             Some e \<Rightarrow> (fs, Inl e)
           | None \<Rightarrow>
               (case copyWindowsExecutable (ww_copy w) executable helper fs of
                  (fs1, Some _) \<Rightarrow> (fs1, Inl ''stage Windows update helper'')
                | (fs1, None) \<Rightarrow>
                    if dt_start w then (fs1, Inl ''start Windows desktop update helper'')
                    else if dt_release w then (fs1, Inl ''release'')
                    else (fs1, Inr [helper, ''--desktop-update-helper'', pid, staged, executable, version])))"

definition windowsProcessRunning :: "process_handle \<times> wait_outcome \<Rightarrow> bool option" where
  "windowsProcessRunning seen =
     (case seen of (NoSuchProcess, _) \<Rightarrow> Some False | (OpenRefused, _) \<Rightarrow> None
      | (Opened, WaitFailed) \<Rightarrow> None | (Opened, WaitTimeout) \<Rightarrow> Some True | (Opened, WaitEnded) \<Rightarrow> Some False)"

text \<open>The polls before the deadline.\<close>

fun waitForDesktopHealth :: "((process_handle \<times> wait_outcome) \<times> bool \<times> (process_handle \<times> wait_outcome)) list \<Rightarrow> string option" where
  "waitForDesktopHealth [] = Some ''local IPC did not become healthy''"
| "waitForDesktopHealth ((before, healthy, again) # polls) =
     (case windowsProcessRunning before of
        None \<Rightarrow> Some ''inspect replacement service process''
      | Some False \<Rightarrow> Some ''replacement service exited before becoming healthy''
      | Some True \<Rightarrow>
          if healthy
          then (case windowsProcessRunning again of
                  None \<Rightarrow> Some ''recheck replacement service process''
                | Some True \<Rightarrow> None
                | Some False \<Rightarrow> Some ''replacement service exited during its health check'')
          else waitForDesktopHealth polls)"

definition restoreWindowsDesktop :: "script_faults \<Rightarrow> bool \<Rightarrow> string \<Rightarrow> string \<Rightarrow> files \<Rightarrow> files" where
  "restoreWindowsDesktop f stat_fault active previous fs =
     (let fs1 = remove_file (rf_remove f) (failed_path active) fs;
          fs2 = (if stat_fault \<or> fs1 active = None then fs1 else fst (rename_file (rf_aside f) active (failed_path active) fs1))
      in fst (rename_file (rf_back f) previous active fs2))"

definition restart_old :: "desktop_world \<Rightarrow> string option \<Rightarrow> win_start list" where
  "restart_old w program = (if dt_old_service w then [] else [StartService program]) @ (if dt_old_desktop w then [] else [StartDesktop program])"

definition install_desktop :: "desktop_world \<Rightarrow> string \<Rightarrow> files \<Rightarrow> files \<times> win_start list \<times> string option" where
  "install_desktop w active fs =
     (let previous = previous_path active; put_back = restoreWindowsDesktop (dt_restore w) (dt_stat w) active previous in
      case copyWindowsExecutable (ww_copy w) active previous (remove_file (dt_remove_previous w) previous fs) of
        (fs1, Some _) \<Rightarrow> (fs1, [], Some ''retain previous Windows desktop executable'')
      | (fs1, None) \<Rightarrow>
          (case dt_install w fs1 of
             (fs2, True) \<Rightarrow> (put_back fs2, [], Some ''install Windows desktop update'')
           | (fs2, False) \<Rightarrow>
               if dt_start w
               then let fs3 = put_back fs2 in (fs3, restart_old w (fs3 active), Some ''start updated Windows service'')
               else (case waitForDesktopHealth (dt_polls w) of
                       None \<Rightarrow> if dt_old_desktop w then (fs2, [StartService (fs2 active)], Some ''start desktop'')
                               else (fs2, [StartService (fs2 active), StartDesktop (fs2 active)], None)
                     | Some _ \<Rightarrow>
                         (case waitForProcess (fst (dt_exit w)) (snd (dt_exit w)) of
                            Some _ \<Rightarrow> (fs2, [StartService (fs2 active)], Some ''updated Windows desktop failed local health'')
                          | None \<Rightarrow>
                              let fs3 = put_back fs2
                              in (fs3, StartService (fs2 active) # restart_old w (fs3 active), Some ''updated Windows desktop failed local health'')))))"

definition ApplyDesktopPending :: "desktop_world \<Rightarrow> string list \<Rightarrow> files \<Rightarrow> files \<times> win_start list \<times> string option" where
  "ApplyDesktopPending w args fs =
     (case args of
        [pid, path, target, version] \<Rightarrow>
          (let staged = ww_Clean w path; active = ww_Clean w target in
           if parse_pid pid = None then (fs, [], Some ''invalid Windows desktop update parent PID'')
           else if \<not> ww_IsAbs w staged \<or> \<not> ww_IsAbs w active then (fs, [], Some ''windows desktop update paths must be absolute'')
           else if \<not> ww_IsValid w (canonicalVersion version) then (fs, [], Some ''windows desktop update expected version is invalid'')
           else (case waitForProcess (ww_handle w) (ww_wait w) of
                   Some e \<Rightarrow> (fs, [], Some e)
                 | None \<Rightarrow>
                     (case ww_self w of
                        None \<Rightarrow> (fs, [], Some ''locate Windows desktop update helper'')
                      | Some helper \<Rightarrow>
                          (case verifyWindowsPublisher (dt_sig w) (dt_verify w) (fs staged) (fs helper) of
                             Some e \<Rightarrow> (fs, [], Some e)
                           | None \<Rightarrow> install_desktop w active fs))))
      | _ \<Rightarrow> (fs, [], Some ''invalid Windows desktop update helper arguments''))"

lemma restored:
  "fs previous = Some old \<Longrightarrow> previous = previous_path active \<Longrightarrow> \<not> rf_back f \<Longrightarrow> restoreWindowsDesktop f stat_fault active previous fs active = Some old"
  by (simp add: restoreWindowsDesktop_def rename_file_def remove_file_def Let_def)

text \<open>
  An installer that leaves the retained executable alone is either seen healthy, or the executable
  the helper retained is put back and started again, if it could be moved, the replaced service could
  be stopped, and the old programs could be started.
\<close>
lemma desktop_installed_or_restored:
  assumes old: "fs active = Some old" and kept: "\<And>fs. fst (dt_install w fs) (previous_path active) = fs (previous_path active)"
    and movable: "\<not> rf_back (dt_restore w)" "waitForProcess (fst (dt_exit w)) (snd (dt_exit w)) = None"
    and starts: "\<not> dt_old_service w" "\<not> dt_old_desktop w"
    and result: "install_desktop w active fs = (fs', started, result)"
  shows "(result = None \<and> waitForDesktopHealth (dt_polls w) = None \<and> started = [StartService (fs' active), StartDesktop (fs' active)])
    \<or> (result = Some ''retain previous Windows desktop executable'' \<and> fs' active = Some old)
    \<or> (result = Some ''install Windows desktop update'' \<and> fs' active = Some old \<and> started = [])
    \<or> (result \<noteq> None \<and> fs' active = Some old \<and> (\<exists>before. started = before @ [StartService (Some old), StartDesktop (Some old)]))"
proof -
  let ?p = "previous_path active"
  let ?c = "copyWindowsExecutable (ww_copy w) active ?p (remove_file (dt_remove_previous w) ?p fs)"
  have active_kept: "fst ?c active = Some old" using old by (simp add: windows_copy_elsewhere remove_file_def)
  show ?thesis
  proof (cases "snd ?c")
    case (Some e)
    then show ?thesis using result active_kept by (cases ?c) (auto simp: install_desktop_def Let_def)
  next
    case None
    then obtain fs1 where c: "?c = (fs1, None)" by (cases ?c) simp
    obtain fs2 failed where i: "dt_install w fs1 = (fs2, failed)" by (cases "dt_install w fs1")
    have "fs1 ?p = Some old" using windows_copy_written[OF None] old c by (simp add: remove_file_def split: if_splits)
    then have "fs2 ?p = Some old" using kept[of fs1] i by simp
    then have there: "restoreWindowsDesktop (dt_restore w) (dt_stat w) active ?p fs2 active = Some old"
      by (intro restored) (simp_all add: movable)
    have unfolded: "install_desktop w active fs = (if failed then (restoreWindowsDesktop (dt_restore w) (dt_stat w) active ?p fs2, [], Some ''install Windows desktop update'')
        else if dt_start w then (restoreWindowsDesktop (dt_restore w) (dt_stat w) active ?p fs2, [StartService (Some old), StartDesktop (Some old)], Some ''start updated Windows service'')
        else (case waitForDesktopHealth (dt_polls w) of
           None \<Rightarrow> (fs2, [StartService (fs2 active), StartDesktop (fs2 active)], None)
         | Some _ \<Rightarrow> (restoreWindowsDesktop (dt_restore w) (dt_stat w) active ?p fs2,
             [StartService (fs2 active), StartService (Some old), StartDesktop (Some old)], Some ''updated Windows desktop failed local health'')))"
      unfolding install_desktop_def Let_def c by (cases failed) (simp_all add: i there movable starts restart_old_def split: option.split)
    have pair: "fs' = fst (install_desktop w active fs)" "started = fst (snd (install_desktop w active fs))"
      "result = snd (snd (install_desktop w active fs))" using result by simp_all
    show ?thesis
    proof (cases failed)
      case True
      then show ?thesis unfolding pair unfolded by (simp add: there)
    next
      case installed: False
      show ?thesis
      proof (cases "dt_start w")
        case True
        with installed show ?thesis unfolding pair unfolded by (simp add: there)
      next
        case False
        with installed show ?thesis unfolding pair unfolded by (cases "waitForDesktopHealth (dt_polls w)") (simp_all add: there)
      qed
    qed
  qed
qed

text \<open>Nothing is installed that is not signed by the publisher of the helper, the program it was copied from.\<close>

lemma unsigned_not_installed:
  "ApplyDesktopPending w [pid, path, target, version] fs = (fs', started, result) \<Longrightarrow> \<not> publisher_ok (dt_sig w) (fs (ww_Clean w path)) helper_program
     \<Longrightarrow> ww_self w = Some helper \<Longrightarrow> fs helper = helper_program \<Longrightarrow> fs' = fs \<and> started = [] \<and> result \<noteq> None"
  by (cases "waitForProcess (ww_handle w) (ww_wait w)") (auto simp: ApplyDesktopPending_def verifyWindowsPublisher_def Let_def split: if_splits, metis)

end
