(* ===== verification/Command_Line.thy ===== *)
theory Command_Line
  imports Service_View Ipc
begin

text \<open>
  The command line (\<open>cmd/axon-pulse\<close>): the flags as the standard library parses them, one function per
  command, and what each sends to the service, prints and returns. The exchange with the service, the
  JSON codec, the paths of the platform and the texts of usage are parameters. A printed line is an
  element of a list; the usage of a flag set is printed where the library prints it.
\<close>

section \<open>Durations\<close>

text \<open>\<open>time.ParseDuration\<close>. A fraction is added exactly, where the code uses floating point.\<close>

fun leading_int :: "int \<Rightarrow> string \<Rightarrow> (int \<times> string) option" where
  "leading_int x [] = Some (x, [])"
| "leading_int x (c # cs) =
     (if \<not> is_digit c then Some (x, c # cs)
      else if x > 2 ^ 63 div 10 then None
      else let y = x * 10 + int (of_char c) - 48 in if y > 2 ^ 63 then None else leading_int y cs)"

fun leading_fraction :: "int \<Rightarrow> int \<Rightarrow> bool \<Rightarrow> string \<Rightarrow> int \<times> int \<times> string" where
  "leading_fraction x scale overflow [] = (x, scale, [])"
| "leading_fraction x scale overflow (c # cs) =
     (if \<not> is_digit c then (x, scale, c # cs)
      else if overflow \<or> x > (2 ^ 63 - 1) div 10 then leading_fraction x scale True cs
      else let y = x * 10 + int (of_char c) - 48
           in if y > 2 ^ 63 then leading_fraction x scale True cs else leading_fraction y (scale * 10) False cs)"

definition duration_unit :: "string \<Rightarrow> int option" where
  "duration_unit u =
     (if u = ''ns'' then Some 1
      else if u = ''us'' \<or> u = map char_of [194::nat, 181, 115] \<or> u = map char_of [206::nat, 188, 115] then Some 1000
      else if u = ''ms'' then Some Millisecond else if u = ''s'' then Some Second
      else if u = ''m'' then Some Minute else if u = ''h'' then Some Hour else None)"

abbreviation numeric :: "char \<Rightarrow> bool" where "numeric c \<equiv> c = CHR ''.'' \<or> is_digit c"

definition duration_term :: "string \<Rightarrow> (int \<times> string) option" where
  "duration_term s =
     (case leading_int 0 s of
        None \<Rightarrow> None
      | Some (v, r) \<Rightarrow>
          let pre = length r < length s; dotted = (r \<noteq> [] \<and> hd r = CHR ''.'');
              (f, scale, t) = (if dotted then leading_fraction 0 1 False (tl r) else (0, 1, r));
              post = (dotted \<and> length t < length (tl r));
              u = takeWhile (\<lambda>c. \<not> numeric c) t
          in if \<not> pre \<and> \<not> post then None
             else (case duration_unit u of
                     None \<Rightarrow> None
                   | Some unit \<Rightarrow>
                       if v > 2 ^ 63 div unit then None
                       else let w = v * unit + (if f > 0 then f * unit div scale else 0)
                            in if w > 2 ^ 63 then None else Some (w, dropWhile (\<lambda>c. \<not> numeric c) t)))"

lemma leading_int_length: "leading_int x s = Some (v, r) \<Longrightarrow> length r \<le> length s"
  by (induction x s rule: leading_int.induct) (auto simp: Let_def split: if_splits)

lemma leading_fraction_length: "leading_fraction x scale overflow s = (f, k, t) \<Longrightarrow> length t \<le> length s"
  by (induction x scale overflow s rule: leading_fraction.induct) (auto simp: Let_def split: if_splits)

lemma drop_unit:
  assumes "duration_unit (takeWhile p t) = Some n"
  shows "length (dropWhile p t) < length t"
proof -
  have "takeWhile p t \<noteq> []" using assms by (auto simp: duration_unit_def)
  then show ?thesis by (cases t) (auto simp: le_imp_less_Suc length_dropWhile_le split: if_splits)
qed

lemma duration_term_shorter:
  assumes "duration_term s = Some (w, r')"
  shows "length r' < length s"
proof -
  obtain v r where lead: "leading_int 0 s = Some (v, r)" using assms by (auto simp: duration_term_def split: option.splits)
  define t where "t = snd (snd (if r \<noteq> [] \<and> hd r = CHR ''.'' then leading_fraction 0 1 False (tl r) else (0, 1, r)))"
  have "length t \<le> length r"
    using leading_fraction_length[of 0 1 False "tl r"] unfolding t_def
    by (cases "leading_fraction 0 1 False (tl r)") (auto intro: order_trans)
  moreover have "\<exists>n. duration_unit (takeWhile (\<lambda>c. \<not> numeric c) t) = Some n \<and> r' = dropWhile (\<lambda>c. \<not> numeric c) t"
    using assms by (auto simp: duration_term_def lead t_def Let_def split: option.splits if_splits prod.splits)
  ultimately show ?thesis using leading_int_length[OF lead] drop_unit by (metis order.strict_trans2 order_trans)
qed

function duration_terms :: "int \<Rightarrow> string \<Rightarrow> int option" where
  "duration_terms d s =
     (if s = [] then Some d
      else if \<not> numeric (hd s) then None
      else case duration_term s of
             None \<Rightarrow> None
           | Some (w, r) \<Rightarrow> if d + w > 2 ^ 63 then None else duration_terms (d + w) r)"
  by pat_completeness auto
termination by (relation "measure (\<lambda>(d, s). length s)") (auto dest: duration_term_shorter)

declare duration_terms.simps [simp del]

definition ParseDuration :: "string \<Rightarrow> int option" where
  "ParseDuration s =
     (let (neg, t) = (case s of c # cs \<Rightarrow> if c = CHR ''-'' then (True, cs) else if c = CHR ''+'' then (False, cs) else (False, s) | [] \<Rightarrow> (False, s))
      in if t = ''0'' then Some 0 else if t = [] then None
         else case duration_terms 0 t of
                None \<Rightarrow> None
              | Some d \<Rightarrow> if neg then Some (- d) else if d > 2 ^ 63 - 1 then None else Some d)"

section \<open>Flags\<close>

datatype flag_kind = StringFlag | BoolFlag | DurationFlag
datatype flag_setting = Text string | Switch bool | Lasting int

definition ParseBool :: "string \<Rightarrow> bool option" where
  "ParseBool s =
     (if s \<in> set [''1'', ''t'', ''T'', ''TRUE'', ''true'', ''True''] then Some True
      else if s \<in> set [''0'', ''f'', ''F'', ''FALSE'', ''false'', ''False''] then Some False else None)"

definition set_flag :: "flag_kind \<Rightarrow> string \<Rightarrow> flag_setting option" where
  "set_flag kind v =
     (case kind of StringFlag \<Rightarrow> Some (Text v)
      | BoolFlag \<Rightarrow> map_option Switch (ParseBool v)
      | DurationFlag \<Rightarrow> map_option Lasting (ParseDuration v))"

datatype flag_error = HelpWanted | FlagError string

type_synonym flag_set = "string \<rightharpoonup> flag_kind"
type_synonym settings = "string \<rightharpoonup> flag_setting"

definition flag_name :: "string \<Rightarrow> string" where
  "flag_name s = (if take 2 s = ''--'' then drop 2 s else drop 1 s)"

definition split_value :: "string \<Rightarrow> string \<times> string option" where
  "split_value name =
     (case name of [] \<Rightarrow> ([], None)
      | c # cs \<Rightarrow> if CHR ''='' \<in> set cs then (c # takeWhile (\<lambda>c. c \<noteq> CHR ''='') cs, Some (tl (dropWhile (\<lambda>c. c \<noteq> CHR ''='') cs)))
                  else (name, None))"

text \<open>
  \<open>FlagSet.Parse\<close>: up to the first argument that is no flag, or past a lone \<open>--\<close>. A flag of a kind
  other than \<open>bool\<close> without a value takes the next argument.
\<close>

fun parse_flags :: "flag_set \<Rightarrow> settings \<Rightarrow> string list \<Rightarrow> flag_error + settings \<times> string list" where
  "parse_flags flags m [] = Inr (m, [])"
| "parse_flags flags m (s # args) =
     (if length s < 2 \<or> hd s \<noteq> CHR ''-'' then Inr (m, s # args)
      else if s = ''--'' then Inr (m, args)
      else let raw = flag_name s; (name, given) = split_value raw in
           if raw = [] \<or> hd raw = CHR ''-'' \<or> hd raw = CHR ''='' then Inl (FlagError (''bad flag syntax: '' @ s))
           else case flags name of
                  None \<Rightarrow> if name = ''help'' \<or> name = ''h'' then Inl HelpWanted
                          else Inl (FlagError (''flag provided but not defined: -'' @ name))
                | Some kind \<Rightarrow>
                    (case given of
                       Some v \<Rightarrow> (case set_flag kind v of
                                    None \<Rightarrow> Inl (FlagError (''invalid value for flag -'' @ name))
                                  | Some x \<Rightarrow> parse_flags flags (m(name \<mapsto> x)) args)
                     | None \<Rightarrow>
                         if kind = BoolFlag then parse_flags flags (m(name \<mapsto> Switch True)) args
                         else (case args of
                                 [] \<Rightarrow> Inl (FlagError (''flag needs an argument: -'' @ name))
                               | v # rest \<Rightarrow> (case set_flag kind v of
                                                None \<Rightarrow> Inl (FlagError (''invalid value for flag -'' @ name))
                                              | Some x \<Rightarrow> parse_flags flags (m(name \<mapsto> x)) rest))))"

definition text_flag :: "settings \<Rightarrow> string \<Rightarrow> string \<Rightarrow> string" where
  "text_flag m name dflt = (case m name of Some (Text v) \<Rightarrow> v | _ \<Rightarrow> dflt)"

definition switch_flag :: "settings \<Rightarrow> string \<Rightarrow> bool \<Rightarrow> bool" where
  "switch_flag m name dflt = (case m name of Some (Switch b) \<Rightarrow> b | _ \<Rightarrow> dflt)"

definition lasting_flag :: "settings \<Rightarrow> string \<Rightarrow> int \<Rightarrow> int" where
  "lasting_flag m name dflt = (case m name of Some (Lasting d) \<Rightarrow> d | _ \<Rightarrow> dflt)"

text \<open>What is left are the last arguments.\<close>

lemma parse_flags_suffix_step:
  assumes shorter: "\<And>more m. length more < length (s # args) \<Longrightarrow> parse_flags flags m more = Inr (m', rest) \<Longrightarrow> \<exists>before. more = before @ rest"
    and parsed: "parse_flags flags m (s # args) = Inr (m', rest)"
  shows "\<exists>before. s # args = before @ rest"
proof -
  obtain name given where split: "split_value (flag_name s) = (name, given)" by (cases "split_value (flag_name s)")
  have one: "\<exists>before. s # args = before @ rest" if "\<exists>before. args = before @ rest" using that by (metis append_Cons)
  have two: "\<exists>before. s # v # more = before @ rest" if "\<exists>before. more = before @ rest" for v more using that by (metis append_Cons)
  show ?thesis
  proof (cases "length s < 2 \<or> hd s \<noteq> CHR ''-'' \<or> s = ''--''")
    case True
    then show ?thesis using parsed one by (auto split: if_splits)
  next
    case False
    let ?raw = "flag_name s"
    have raw: "\<not> (?raw = [] \<or> hd ?raw = CHR ''-'' \<or> hd ?raw = CHR ''='')" using parsed False by (auto simp: Let_def split)
    obtain kind where kind: "flags name = Some kind" using parsed False raw by (cases "flags name") (auto simp: Let_def split split: if_splits)
    show ?thesis
    proof (cases given)
      case (Some v)
      obtain x where x: "set_flag kind v = Some x"
        using parsed False raw kind Some by (cases "set_flag kind v") (auto simp: Let_def split)
      have "parse_flags flags (m(name \<mapsto> x)) args = Inr (m', rest)" using parsed False raw kind Some x by (simp add: Let_def split)
      then show ?thesis using one shorter by simp
    next
      case None
      show ?thesis
      proof (cases "kind = BoolFlag")
        case True
        have "parse_flags flags (m(name \<mapsto> Switch True)) args = Inr (m', rest)" using parsed False raw kind None True by (simp add: Let_def split)
        then show ?thesis using one shorter by simp
      next
        case other: False
        obtain v more where args: "args = v # more" using parsed False raw kind None other by (cases args) (auto simp: Let_def split)
        obtain x where x: "set_flag kind v = Some x"
          using parsed False raw kind None other args by (cases "set_flag kind v") (auto simp: Let_def split)
        have "parse_flags flags (m(name \<mapsto> x)) more = Inr (m', rest)" using parsed False raw kind None other args x by (simp add: Let_def split)
        then show ?thesis unfolding args using two shorter[of more] args by simp
      qed
    qed
  qed
qed

lemma parse_flags_suffix: "parse_flags flags m args = Inr (m', rest) \<Longrightarrow> \<exists>before. args = before @ rest"
proof (induction "length args" arbitrary: m args rule: less_induct)
  case less
  show ?case
  proof (cases args)
    case Nil
    then show ?thesis using less.prems by simp
  next
    case (Cons s more)
    show ?thesis unfolding Cons using parse_flags_suffix_step[OF _ less.prems[unfolded Cons]] less.hyps Cons by simp
  qed
qed

section \<open>Commands\<close>

datatype cli_params = NoParams | TextParams "(string \<times> string) list" | BoolParams "(string \<times> bool) list" | IntParams "(string \<times> int) list"

record cli_request =
  ck_Socket :: string
  ck_Method :: string
  ck_Params :: cli_params

record cli_env =
  ce_StateDirEnv :: string
  ce_SocketEnv :: string
  ce_GOOS :: string
  ce_Privileged :: bool
  ce_UserConfigDir :: "string + string"
  ce_Clean :: "string \<Rightarrow> string"
  ce_Join :: "string \<Rightarrow> string \<Rightarrow> string"
  ce_defaultSocketPath :: "string \<Rightarrow> string"
  ce_Exchange :: "cli_request \<Rightarrow> call_error + string option"
  ce_DecStatus :: "string option \<Rightarrow> Status option"
  ce_DecUpdate :: "string option \<Rightarrow> UpdateStatus option"
  ce_DecMap :: "string option \<Rightarrow> string option"
  ce_JSON :: "Status \<Rightarrow> string option"
  ce_Indent :: "string option \<Rightarrow> string option"
  ce_Write :: "string \<Rightarrow> string \<Rightarrow> string option"
  ce_Journal :: "string list \<Rightarrow> string option"
  ce_Quote :: "string \<Rightarrow> string"
  ce_Usage :: string
  ce_FlagUsage :: "string \<Rightarrow> string"
  ce_Version :: string
  ce_ApplyPending :: "string list \<Rightarrow> string option"
  ce_Stdin :: "string option"

record cli_result =
  cx_Code :: nat
  cx_Calls :: "cli_request list"
  cx_Stdout :: "string list"
  cx_Stderr :: "string list"

definition cli_exit :: "nat \<Rightarrow> string list \<Rightarrow> string list \<Rightarrow> cli_result" where
  "cli_exit code out err = \<lparr>cx_Code = code, cx_Calls = [], cx_Stdout = out, cx_Stderr = err\<rparr>"

abbreviation (input) pulse :: "string \<Rightarrow> string" where "pulse message \<equiv> ''axon-pulse: '' @ message"

definition DefaultDir :: "cli_env \<Rightarrow> string + string" where
  "DefaultDir env =
     (if ce_StateDirEnv env \<noteq> '''' then Inr (ce_Clean env (ce_StateDirEnv env))
      else if ce_GOOS env = ''linux'' \<and> ce_Privileged env then Inr ''/var/lib/axon-pulse''
      else case ce_UserConfigDir env of
             Inl e \<Rightarrow> Inl (''find user config directory: '' @ e)
           | Inr dir \<Rightarrow> Inr (ce_Join env dir ''axon-pulse''))"

definition SocketPath :: "cli_env \<Rightarrow> string \<Rightarrow> string" where
  "SocketPath env dir = (if ce_SocketEnv env \<noteq> '''' then ce_SocketEnv env else ce_defaultSocketPath env dir)"

definition cli_paths :: "cli_env \<Rightarrow> string \<Rightarrow> string \<Rightarrow> string + string \<times> string" where
  "cli_paths env configuredDir configuredSocket =
     (case (if configuredDir = '''' then DefaultDir env else Inr configuredDir) of
        Inl e \<Rightarrow> Inl e
      | Inr dir \<Rightarrow> Inr (dir, if configuredSocket = '''' then SocketPath env dir else configuredSocket))"

text \<open>\<open>call\<close> and what the command does with the answer.\<close>

definition call_text :: "call_error \<Rightarrow> string" where
  "call_text e = (case e of Rejected r \<Rightarrow> pulse (ie_Message r @ '' ('' @ ie_Code r @ '')'') | CallFailed t \<Rightarrow> pulse t)"

definition cli_call ::
  "cli_env \<Rightarrow> settings \<Rightarrow> string \<Rightarrow> cli_params \<Rightarrow> (string option \<Rightarrow> 'a option) \<Rightarrow> ('a \<Rightarrow> cli_result) \<Rightarrow> cli_result" where
  "cli_call env m meth params dec show_result =
     (case cli_paths env (text_flag m ''state-dir'' '''') (text_flag m ''socket'' '''') of
        Inl e \<Rightarrow> cli_exit 1 [] [pulse e]
      | Inr (_, socket) \<Rightarrow>
          let c = \<lparr>ck_Socket = socket, ck_Method = meth, ck_Params = params\<rparr> in
          (case ce_Exchange env c of
             Inl e \<Rightarrow> (cli_exit 1 [] [call_text e])\<lparr>cx_Calls := [c]\<rparr>
           | Inr data \<Rightarrow>
               (case dec data of
                  None \<Rightarrow> (cli_exit 1 [] [pulse ''decode IPC data''])\<lparr>cx_Calls := [c]\<rparr>
                | Some x \<Rightarrow> (show_result x)\<lparr>cx_Calls := [c]\<rparr>)))"

definition with_flags :: "cli_env \<Rightarrow> string \<Rightarrow> flag_set \<Rightarrow> string list \<Rightarrow> (settings \<Rightarrow> string list \<Rightarrow> cli_result) \<Rightarrow> cli_result" where
  "with_flags env name flags args command =
     (case parse_flags flags Map.empty args of
        Inl HelpWanted \<Rightarrow> cli_exit 2 [] [ce_FlagUsage env name]
      | Inl (FlagError e) \<Rightarrow> cli_exit 2 [] [e, ce_FlagUsage env name]
      | Inr (m, rest) \<Rightarrow> command m rest)"

definition socket_flags :: flag_set where
  "socket_flags = [''socket'' \<mapsto> StringFlag, ''state-dir'' \<mapsto> StringFlag]"

definition readClaimToken :: "string option \<Rightarrow> string + string" where
  "readClaimToken input =
     (case input of
        None \<Rightarrow> Inl ''could not read claim token from standard input''
      | Some s \<Rightarrow>
          let data = take 163 s; token = trim_space data in
          if length data > 162 \<or> token = '''' \<or> length token > 160 \<or> CHR 0x0D \<in> set token \<or> CHR 0x0A \<in> set token
          then Inl ''standard input must contain one claim token of at most 160 bytes'' else Inr token)"

definition cli_connect :: "cli_env \<Rightarrow> string list \<Rightarrow> cli_result" where
  "cli_connect env args =
     with_flags env ''connect'' (socket_flags(''url'' \<mapsto> StringFlag, ''token'' \<mapsto> StringFlag, ''token-stdin'' \<mapsto> BoolFlag)) args (\<lambda>m rest.
       let controller = text_flag m ''url'' ''''; token = text_flag m ''token'' ''''; piped = switch_flag m ''token-stdin'' False in
       if controller = '''' \<or> (token = '''' \<and> \<not> piped)
       then cli_exit 2 [] [pulse ''connect requires --url and either --token or --token-stdin'']
       else if piped \<and> token \<noteq> '''' then cli_exit 2 [] [pulse ''--token and --token-stdin cannot be used together'']
       else case (if piped then readClaimToken (ce_Stdin env) else Inr token) of
              Inl e \<Rightarrow> cli_exit 2 [] [pulse e]
            | Inr t \<Rightarrow> cli_call env m ''connect'' (TextParams [(''url'', controller), (''token'', t)]) (ce_DecStatus env)
                (\<lambda>st. cli_exit 0 [''Connected to '' @ ss_ControllerURL st @ '' (sensor '' @ ss_SensorID st @ ''). State: '' @ ss_State st] []))"

definition channel_line :: "UpdateStatus \<Rightarrow> string" where
  "channel_line r =
     ''Update stream: '' @ us_Channel r
     @ (if us_CheckError r \<noteq> '''' then ''. Check failed: '' @ us_CheckError r
        else if us_AvailableVersion r \<noteq> ''''
        then ''. Version '' @ us_AvailableVersion r
          @ '' is available; the service will install it on its next automatic check, or run the update from the app.''
        else ''. Version '' @ us_CurrentVersion r @ '' is up to date.'')"

definition updateChannel :: "cli_env \<Rightarrow> string list \<Rightarrow> cli_result" where
  "updateChannel env args =
     with_flags env ''channel'' socket_flags args (\<lambda>m rest.
       case rest of
         [] \<Rightarrow> cli_call env m ''status'' (BoolParams [(''live'', False)]) (ce_DecStatus env)
                (\<lambda>st. cli_exit 0
                   [if ss_UpdateMethod st = ''apt'' then ''Updates are managed by APT; select the stream in your APT package sources''
                    else if ss_UpdateChannelLocked st then ''Update stream: fixed by AXON_PULSE_UPDATE_INDEX_URL in the service environment''
                    else ''Update stream: '' @ ss_UpdateChannel st] [])
       | channel # others \<Rightarrow>
           if others \<noteq> [] \<or> \<not> ValidUpdateChannel channel then cli_exit 2 [] [pulse ''channel accepts main, beta, or alpha'']
           else cli_call env m ''set_update_channel'' (TextParams [(''channel'', channel)]) (ce_DecUpdate env)
                  (\<lambda>r. cli_exit 0 [channel_line r] []))"

definition writeJSON :: "string option \<Rightarrow> cli_result" where
  "writeJSON encoded = (case encoded of None \<Rightarrow> cli_exit 1 [] [pulse ''json''] | Some s \<Rightarrow> cli_exit 0 [s] [])"

definition cli_status :: "cli_env \<Rightarrow> string list \<Rightarrow> cli_result" where
  "cli_status env args =
     with_flags env ''status'' (socket_flags(''live'' \<mapsto> BoolFlag)) args (\<lambda>m rest.
       cli_call env m ''status'' (BoolParams [(''live'', switch_flag m ''live'' False)]) (ce_DecStatus env) (\<lambda>st. writeJSON (ce_JSON env st)))"

definition runTest :: "cli_env \<Rightarrow> string list \<Rightarrow> cli_result" where
  "runTest env args =
     with_flags env ''test'' (socket_flags(''override'' \<mapsto> BoolFlag, ''profile'' \<mapsto> StringFlag)) args (\<lambda>m rest.
       let profile = text_flag m ''profile'' '''' in
       if profile \<noteq> '''' \<and> \<not> KnownSpeedProfile profile
       then cli_exit 2 [] [pulse ''--profile must be household, saturation, content or capacity'']
       else cli_call env m ''test'' (TextParams [(''profile'', profile)]) (ce_DecMap env) (\<lambda>r. writeJSON (Some r)))"

definition cli_setMode :: "cli_env \<Rightarrow> string list \<Rightarrow> cli_result" where
  "cli_setMode env args =
     with_flags env ''mode'' socket_flags args (\<lambda>m rest.
       case rest of
         [mode] \<Rightarrow>
           if mode \<noteq> ModeStandalone \<and> mode \<noteq> ModeConnected then cli_exit 2 [] [pulse ''mode requires standalone or connected'']
           else cli_call env m ''set_mode'' (TextParams [(''mode'', mode)]) (ce_DecStatus env)
                  (\<lambda>st. cli_exit 0 [''Mode: '' @ ss_Mode st @ ''. State: '' @ ss_State st] [])
       | _ \<Rightarrow> cli_exit 2 [] [pulse ''mode requires standalone or connected''])"

definition cli_pause :: "cli_env \<Rightarrow> string list \<Rightarrow> cli_result" where
  "cli_pause env args =
     with_flags env ''pause'' (socket_flags(''for'' \<mapsto> DurationFlag)) args (\<lambda>m rest.
       let d = lasting_flag m ''for'' Hour in
       if d < 0 \<or> d > 7 * 24 * Hour then cli_exit 2 [] [pulse ''--for must be between 0 and 168h'']
       else cli_call env m ''pause'' (IntParams [(''seconds'', d div Second)]) (ce_DecStatus env)
              (\<lambda>st. cli_exit 0 [''State: '' @ ss_State st] []))"

definition cli_resume :: "cli_env \<Rightarrow> string list \<Rightarrow> cli_result" where
  "cli_resume env args = cli_pause env ([''--for'', ''0''] @ args)"

definition cli_disconnect :: "cli_env \<Rightarrow> string list \<Rightarrow> cli_result" where
  "cli_disconnect env args =
     with_flags env ''disconnect'' socket_flags args (\<lambda>m rest.
       cli_call env m ''disconnect'' NoParams (\<lambda>_. Some ())
         (\<lambda>_. cli_exit 0 [''Axon controller credentials and queued data were removed; Pulse is now local-only.''] []))"

definition cli_logs :: "cli_env \<Rightarrow> string list \<Rightarrow> cli_result" where
  "cli_logs env args =
     (if ce_GOOS env \<noteq> ''linux'' then cli_exit 1 [] [pulse ''logs is currently available on Linux'']
      else with_flags env ''logs'' [''follow'' \<mapsto> BoolFlag] args (\<lambda>m rest.
        case ce_Journal env ([''-u'', ''axon-pulse.service'', ''--no-pager'', ''-n'', ''100'']
               @ (if switch_flag m ''follow'' True then [''-f''] else [])) of
          Some e \<Rightarrow> cli_exit 1 [] [pulse e] | None \<Rightarrow> cli_exit 0 [] []))"

definition supportBundle :: "cli_env \<Rightarrow> string list \<Rightarrow> cli_result" where
  "supportBundle env args =
     with_flags env ''support-bundle'' (socket_flags(''out'' \<mapsto> StringFlag)) args (\<lambda>m rest.
       cli_call env m ''support_bundle'' NoParams (\<lambda>raw. Some raw)
         (\<lambda>raw. case ce_Indent env raw of
            None \<Rightarrow> cli_exit 1 [] [pulse ''encode support bundle'']
          | Some formatted \<Rightarrow>
              let path = ce_Clean env (text_flag m ''out'' ''axon-pulse-support.json'') in
              (case ce_Write env path (formatted @ [newline]) of
                 Some e \<Rightarrow> cli_exit 1 [] [pulse (''write support bundle: '' @ e)]
               | None \<Rightarrow> cli_exit 0 [path] [])))"

text \<open>
  \<open>runService\<close>: the outcomes of opening, running and closing the service, and the installed package it
  restarts into. A restart that succeeds replaces the process and does not return.
\<close>

record run_outcome =
  rs_Open :: "string option"
  rs_Run :: "string option"
  rs_Close :: "string option"
  rs_PackageRestart :: "string option"
  rs_Reexec :: string

definition runService :: "cli_env \<Rightarrow> run_outcome \<Rightarrow> string list \<Rightarrow> cli_result" where
  "runService env w args =
     with_flags env ''run'' (socket_flags(''windows-service'' \<mapsto> BoolFlag)) args (\<lambda>m rest.
       case cli_paths env (text_flag m ''state-dir'' '''') (text_flag m ''socket'' '''') of
         Inl e \<Rightarrow> cli_exit 1 [] [pulse e]
       | Inr _ \<Rightarrow>
           (case rs_Open w of
              Some e \<Rightarrow> cli_exit 1 [] [pulse e]
            | None \<Rightarrow>
                let errors = List.map_filter id [rs_Run w, rs_Close w]; printed = (if errors = [] then [] else [pulse (join_lines errors)]) in
                (case rs_PackageRestart w of
                   Some path \<Rightarrow> cli_exit 1 [] (printed @ [pulse (''restart into upgraded package failed: '' @ rs_Reexec w)])
                 | None \<Rightarrow> cli_exit (if errors = [] then 0 else 1) [] printed)))"

definition cli_run :: "cli_env \<Rightarrow> run_outcome \<Rightarrow> string list \<Rightarrow> cli_result" where
  "cli_run env w args =
     (case args of
        [] \<Rightarrow> cli_exit 2 [] [ce_Usage env]
      | command # rest \<Rightarrow>
          if command = ''apply-update''
          then (case ce_ApplyPending env rest of Some e \<Rightarrow> cli_exit 1 [] [pulse e] | None \<Rightarrow> cli_exit 0 [] [])
          else if command \<in> set [''version'', ''--version'', ''-version''] then cli_exit 0 [ce_Version env] []
          else if command \<in> set [''help'', ''--help'', ''-h''] then cli_exit 0 [ce_Usage env] []
          else if command = ''run'' then runService env w rest
          else if command = ''connect'' then cli_connect env rest
          else if command = ''local'' then cli_setMode env (rest @ [''standalone''])
          else if command = ''mode'' then cli_setMode env rest
          else if command = ''channel'' then updateChannel env rest
          else if command = ''status'' then cli_status env rest
          else if command = ''test'' then runTest env rest
          else if command = ''pause'' then cli_pause env rest
          else if command = ''resume'' then cli_resume env rest
          else if command = ''disconnect'' then cli_disconnect env rest
          else if command = ''logs'' then cli_logs env rest
          else if command = ''support-bundle'' then supportBundle env rest
          else cli_exit 2 [] [pulse (''unknown command '' @ ce_Quote env command), '''', ce_Usage env])"

section \<open>What is sent\<close>

definition valid_request :: "cli_request \<Rightarrow> bool" where
  "valid_request c =
     (case ck_Params c of
        TextParams [(k, a)] \<Rightarrow>
          (ck_Method c = ''set_mode'' \<and> k = ''mode'' \<and> (a = ModeStandalone \<or> a = ModeConnected))
          \<or> (ck_Method c = ''set_update_channel'' \<and> k = ''channel'' \<and> ValidUpdateChannel a)
          \<or> (ck_Method c = ''test'' \<and> k = ''profile'' \<and> (a = '''' \<or> KnownSpeedProfile a))
      | TextParams [(k, a), (l, b)] \<Rightarrow> ck_Method c = ''connect'' \<and> k = ''url'' \<and> l = ''token'' \<and> a \<noteq> '''' \<and> b \<noteq> ''''
      | IntParams [(k, n)] \<Rightarrow> ck_Method c = ''pause'' \<and> k = ''seconds'' \<and> 0 \<le> n \<and> n \<le> 604800
      | BoolParams [(k, b)] \<Rightarrow> ck_Method c = ''status'' \<and> k = ''live''
      | NoParams \<Rightarrow> ck_Method c = ''disconnect'' \<or> ck_Method c = ''support_bundle''
      | _ \<Rightarrow> False)"

text \<open>At most one request, a valid one; none on a usage error; and it was answered when the command succeeds.\<close>

definition sound_result :: "cli_env \<Rightarrow> cli_result \<Rightarrow> bool" where
  "sound_result env r \<longleftrightarrow>
     length (cx_Calls r) \<le> 1 \<and> list_all valid_request (cx_Calls r) \<and> (cx_Code r = 2 \<longrightarrow> cx_Calls r = [])
     \<and> (cx_Code r = 0 \<longrightarrow> list_all (\<lambda>c. case ce_Exchange env c of Inl _ \<Rightarrow> False | Inr _ \<Rightarrow> True) (cx_Calls r))
     \<and> cx_Code r \<in> {0, 1, 2}"

lemma sound_exit [simp]: "sound_result env (cli_exit code out err) \<longleftrightarrow> code \<in> {0, 1, 2}"
  by (auto simp: sound_result_def cli_exit_def)

lemma cli_exit_code [simp]: "cx_Code (cli_exit code out err) = code"
  by (simp add: cli_exit_def)

lemma sound_call:
  assumes "\<And>x. cx_Code (show_result x) \<in> {0, 1}" "\<And>socket. valid_request \<lparr>ck_Socket = socket, ck_Method = meth, ck_Params = params\<rparr>"
  shows "sound_result env (cli_call env m meth params dec show_result)"
proof -
  have codes: "cx_Code (show_result x) = 0 \<or> cx_Code (show_result x) = Suc 0" "cx_Code (show_result x) \<noteq> 2" for x
    using assms(1)[of x] by auto
  show ?thesis
    unfolding cli_call_def Let_def
    by (simp add: sound_result_def cli_exit_def assms(2) codes split: sum.split option.split prod.split)
qed

lemma sound_flags:
  assumes "\<And>m rest. sound_result env (command m rest)"
  shows "sound_result env (with_flags env name flags args command)"
  by (simp add: with_flags_def assms split: sum.split flag_error.split prod.split)

lemmas request_simps = valid_request_def

lemma claim_token_nonempty: "readClaimToken input = Inr t \<Longrightarrow> t \<noteq> ''''"
  by (auto simp: readClaimToken_def Let_def split: option.splits if_splits)

lemma sound_connect_call:
  "u \<noteq> '''' \<Longrightarrow> t \<noteq> '''' \<Longrightarrow> (\<And>x. cx_Code (f x) = 0) \<Longrightarrow> sound_result env (cli_call env m ''connect'' (TextParams [(''url'', u), (''token'', t)]) dec f)"
  by (rule sound_call) (simp_all add: request_simps)

lemma sound_connect_choice:
  assumes "\<And>x. cx_Code (f x) = 0"
  shows "sound_result env
     (if u = '''' \<or> (token = '''' \<and> \<not> piped) then cli_exit 2 [] e1
      else if piped \<and> token \<noteq> '''' then cli_exit 2 [] e2
      else case (if piped then readClaimToken input else Inr token) of
             Inl e \<Rightarrow> cli_exit 2 [] (e3 e)
           | Inr t \<Rightarrow> cli_call env m ''connect'' (TextParams [(''url'', u), (''token'', t)]) dec f)"
  using claim_token_nonempty[of input]
  by (cases "readClaimToken input"; cases piped; cases "u = ''''"; cases "token = ''''") (simp_all add: sound_connect_call assms)

lemma sound_connect: "sound_result env (cli_connect env args)"
  unfolding cli_connect_def Let_def by (rule sound_flags, rule sound_connect_choice) simp

lemma sound_channel: "sound_result env (updateChannel env args)"
  unfolding updateChannel_def
  by (intro sound_flags) (auto intro!: sound_call simp: request_simps split: list.split)

lemma sound_status: "sound_result env (cli_status env args)"
  unfolding cli_status_def
  by (intro sound_flags sound_call) (auto simp: request_simps writeJSON_def split: option.split)

lemma sound_test: "sound_result env (runTest env args)"
  unfolding runTest_def Let_def
  by (intro sound_flags) (auto intro!: sound_call simp: request_simps writeJSON_def)

lemma sound_mode: "sound_result env (cli_setMode env args)"
  unfolding cli_setMode_def
  by (intro sound_flags) (auto intro!: sound_call simp: request_simps split: list.split)

lemma sound_pause: "sound_result env (cli_pause env args)"
  unfolding cli_pause_def Let_def
proof (intro sound_flags)
  fix m :: settings and rest :: "string list"
  show "sound_result env (if lasting_flag m ''for'' Hour < 0 \<or> lasting_flag m ''for'' Hour > 7 * 24 * Hour
      then cli_exit 2 [] [pulse ''--for must be between 0 and 168h'']
      else cli_call env m ''pause'' (IntParams [(''seconds'', lasting_flag m ''for'' Hour div Second)]) (ce_DecStatus env)
             (\<lambda>st. cli_exit 0 [''State: '' @ ss_State st] []))"
  proof (cases "lasting_flag m ''for'' Hour < 0 \<or> lasting_flag m ''for'' Hour > 7 * 24 * Hour")
    case False
    then have "0 \<le> lasting_flag m ''for'' Hour div Second" "lasting_flag m ''for'' Hour div Second \<le> 604800" by linarith+
    with False show ?thesis by (auto intro!: sound_call simp: request_simps)
  qed simp
qed

lemma sound_others:
  "sound_result env (cli_disconnect env args)" "sound_result env (cli_logs env args)" "sound_result env (supportBundle env args)"
  "sound_result env (runService env w args)"
proof -
  show "sound_result env (cli_disconnect env args)"
    unfolding cli_disconnect_def by (intro sound_flags sound_call) (auto simp: request_simps)
  show "sound_result env (cli_logs env args)"
    unfolding cli_logs_def by (auto intro!: sound_flags split: option.split)
  show "sound_result env (supportBundle env args)"
    unfolding supportBundle_def Let_def by (intro sound_flags sound_call) (auto simp: request_simps split: option.split)
  show "sound_result env (runService env w args)"
    unfolding runService_def Let_def by (intro sound_flags) (auto split: option.split sum.split prod.split)
qed

lemmas sound_commands = sound_connect sound_channel sound_status sound_test sound_mode sound_pause sound_others

lemma sound_run: "sound_result env (cli_run env w args)"
  by (auto simp: cli_run_def sound_commands cli_resume_def split: list.split option.split)

text \<open>\<open>local\<close> never asks for anything but the standalone mode: the mode is the last argument.\<close>

lemma local_standalone:
  assumes "c \<in> set (cx_Calls (cli_setMode env (args @ [''standalone''])))"
  shows "ck_Method c = ''set_mode'' \<and> ck_Params c = TextParams [(''mode'', ModeStandalone)]"
proof -
  obtain m rest where parsed: "parse_flags socket_flags Map.empty (args @ [''standalone'']) = Inr (m, rest)"
    using assms by (auto simp: cli_setMode_def with_flags_def cli_exit_def split: sum.splits flag_error.splits)
  obtain mode where mode: "rest = [mode]" "c \<in> set (cx_Calls (cli_call env m ''set_mode'' (TextParams [(''mode'', mode)]) (ce_DecStatus env)
      (\<lambda>st. cli_exit 0 [''Mode: '' @ ss_Mode st @ ''. State: '' @ ss_State st] [])))"
    using assms by (auto simp: cli_setMode_def with_flags_def parsed cli_exit_def split: list.splits if_splits)
  obtain before where "args @ [''standalone''] = before @ [mode]" using parse_flags_suffix[OF parsed] mode(1) by auto
  then have "mode = ModeStandalone" by simp
  then show ?thesis using mode(2) by (auto simp: cli_call_def cli_exit_def Let_def split: sum.splits option.splits)
qed

text \<open>
  (C32) Whatever the arguments, a command sends at most one request, and only one the service accepts
  in form: a known mode, stream or profile, a pause between nothing and a week, a controller with a
  token. A usage error sends nothing, a command that succeeds had its request answered, and \<open>local\<close>
  never asks for the connected mode.
\<close>
theorem cli_requests_valid:
  "length (cx_Calls (cli_run env w args)) \<le> 1
   \<and> list_all valid_request (cx_Calls (cli_run env w args))
   \<and> (cx_Code (cli_run env w args) = 2 \<longrightarrow> cx_Calls (cli_run env w args) = [])
   \<and> (cx_Code (cli_run env w args) = 0 \<longrightarrow>
        list_all (\<lambda>c. case ce_Exchange env c of Inl _ \<Rightarrow> False | Inr _ \<Rightarrow> True) (cx_Calls (cli_run env w args)))
   \<and> list_all (\<lambda>c. ck_Params c = TextParams [(''mode'', ModeStandalone)]) (cx_Calls (cli_run env w (''local'' # rest)))"
proof -
  have "cli_run env w (''local'' # rest) = cli_setMode env (rest @ [''standalone''])" by (simp add: cli_run_def)
  then show ?thesis
    using sound_run[of env w args] local_standalone[of _ env rest] by (auto simp: sound_result_def list_all_iff)
qed

text \<open>An environment in which the service answers every request.\<close>

definition demo_cli :: cli_env where
  "demo_cli = \<lparr>ce_StateDirEnv = '''', ce_SocketEnv = ''/run/pulse.sock'', ce_GOOS = ''linux'', ce_Privileged = True,
     ce_UserConfigDir = Inr ''/home'', ce_Clean = id, ce_Join = (\<lambda>a b. a @ ''/'' @ b), ce_defaultSocketPath = id,
     ce_Exchange = (\<lambda>_. Inr None), ce_DecStatus = (\<lambda>_. None), ce_DecUpdate = (\<lambda>_. None), ce_DecMap = (\<lambda>_. Some ''''),
     ce_JSON = (\<lambda>_. None), ce_Indent = id, ce_Write = (\<lambda>_ _. None), ce_Journal = (\<lambda>_. None), ce_Quote = id, ce_Usage = '''',
     ce_FlagUsage = id, ce_Version = '''', ce_ApplyPending = (\<lambda>_. None), ce_Stdin = None\<rparr>"

lemma cli_requests_valid_witness:
  "let r = cli_run demo_cli undefined [''test'', ''--profile'', ''household''] in
     cx_Code r = 0 \<and> cx_Calls r = [\<lparr>ck_Socket = ''/run/pulse.sock'', ck_Method = ''test'', ck_Params = TextParams [(''profile'', ''household'')]\<rparr>]
     \<and> list_all valid_request (cx_Calls r)"
proof -
  let ?r = "cli_run demo_cli undefined [''test'', ''--profile'', ''household'']"
  have parsed: "parse_flags (socket_flags(''override'' \<mapsto> BoolFlag, ''profile'' \<mapsto> StringFlag)) Map.empty [''--profile'', ''household'']
      = Inr ([''profile'' \<mapsto> Text ''household''], [])"
    by (simp add: flag_name_def split_value_def set_flag_def)
  have "?r = (cli_exit 0 [''''] [])\<lparr>cx_Calls := [\<lparr>ck_Socket = ''/run/pulse.sock'', ck_Method = ''test'', ck_Params = TextParams [(''profile'', ''household'')]\<rparr>]\<rparr>"
    by (simp add: cli_run_def runTest_def with_flags_def parsed text_flag_def KnownSpeedProfile_def cli_call_def cli_paths_def DefaultDir_def
        SocketPath_def demo_cli_def writeJSON_def del: parse_flags.simps)
  then have "cx_Code ?r = 0 \<and> cx_Calls ?r = [\<lparr>ck_Socket = ''/run/pulse.sock'', ck_Method = ''test'', ck_Params = TextParams [(''profile'', ''household'')]\<rparr>]"
    by (simp add: cli_exit_def)
  then show ?thesis using cli_requests_valid[of demo_cli undefined "[''test'', ''--profile'', ''household'']" "[]"] by (simp add: Let_def)
qed

section \<open>Claim tokens\<close>

definition printed :: "cli_result \<Rightarrow> nat \<times> string list \<times> string list" where
  "printed r = (cx_Code r, cx_Stdout r, cx_Stderr r)"

lemma stdin_fields:
  "ce_Stdin (env\<lparr>ce_Stdin := input\<rparr>) = input" "ce_DecStatus (env\<lparr>ce_Stdin := input\<rparr>) = ce_DecStatus env"
  by simp_all

lemma cli_paths_stdin: "cli_paths (env\<lparr>ce_Stdin := input\<rparr>) dir socket = cli_paths env dir socket"
  by (cases "ce_UserConfigDir env") (simp_all add: cli_paths_def DefaultDir_def SocketPath_def)

lemma cli_call_stdin: "cli_call (env\<lparr>ce_Stdin := input\<rparr>) m meth params dec f = cli_call env m meth params dec f"
  unfolding cli_call_def cli_paths_stdin by (simp cong: sum.case_cong option.case_cong prod.case_cong)

lemma cli_call_alike:
  "(\<And>socket. ce_Exchange env \<lparr>ck_Socket = socket, ck_Method = meth, ck_Params = p\<rparr> = ce_Exchange env \<lparr>ck_Socket = socket, ck_Method = meth, ck_Params = q\<rparr>) \<Longrightarrow>
     printed (cli_call env m meth p dec f) = printed (cli_call env m meth q dec f)"
  by (simp add: cli_call_def printed_def Let_def split: sum.split option.split prod.split)

lemma token_choice_alike:
  assumes "readClaimToken (Some a) = Inr s" "readClaimToken (Some b) = Inr t" "printed (send s) = printed (send t)"
  shows "printed (if wrong then e1 else if both then e2 else case (if piped then readClaimToken (Some a) else Inr token) of Inl e \<Rightarrow> e3 e | Inr x \<Rightarrow> send x)
    = printed (if wrong then e1 else if both then e2 else case (if piped then readClaimToken (Some b) else Inr token) of Inl e \<Rightarrow> e3 e | Inr x \<Rightarrow> send x)"
  using assms by simp

lemma with_flags_alike:
  "(\<And>m rest. printed (f m rest) = printed (g m rest)) \<Longrightarrow> ce_FlagUsage env name = ce_FlagUsage env' name \<Longrightarrow>
     printed (with_flags env name flags args f) = printed (with_flags env' name flags args g)"
  by (simp add: with_flags_def split: sum.split flag_error.split prod.split)

text \<open>
  What \<open>connect\<close> prints does not depend on a token that is piped in, when the service answers two
  tokens alike.
\<close>
lemma connect_hides_token:
  assumes tokens: "readClaimToken (Some a) = Inr s" "readClaimToken (Some b) = Inr t"
    and alike: "\<And>socket url. ce_Exchange env \<lparr>ck_Socket = socket, ck_Method = ''connect'', ck_Params = TextParams [(''url'', url), (''token'', s)]\<rparr>
      = ce_Exchange env \<lparr>ck_Socket = socket, ck_Method = ''connect'', ck_Params = TextParams [(''url'', url), (''token'', t)]\<rparr>"
  shows "printed (cli_connect (env\<lparr>ce_Stdin := Some a\<rparr>) args) = printed (cli_connect (env\<lparr>ce_Stdin := Some b\<rparr>) args)"
proof -
  have same: "printed (cli_call env m ''connect'' (TextParams [(''url'', u), (''token'', s)]) dec f)
      = printed (cli_call env m ''connect'' (TextParams [(''url'', u), (''token'', t)]) dec f)" for m u dec f
    by (rule cli_call_alike) (rule alike)
  show ?thesis
    unfolding cli_connect_def Let_def cli_call_stdin stdin_fields
    by (rule with_flags_alike, rule token_choice_alike[OF tokens], rule same) simp
qed

section \<open>Pausing\<close>

text \<open>A pause that is shorter than a second is sent as none, which the service takes for a resumption.\<close>

lemma short_pause_resumes:
  assumes "ce_SocketEnv env = ''/run/pulse.sock''" "ce_StateDirEnv env = ''/var/lib/pulse''"
  shows "map ck_Params (cx_Calls (cli_run env w [''pause'', ''--for'', ''500ms''])) = [IntParams [(''seconds'', 0)]]"
    and "map ck_Params (cx_Calls (cli_run env w [''resume''])) = [IntParams [(''seconds'', 0)]]"
proof -
  have half: "ParseDuration ''500ms'' = Some (500 * Millisecond)"
    by (simp add: ParseDuration_def duration_terms.simps duration_term_def duration_unit_def is_digit_def)
  have zero: "ParseDuration ''0'' = Some 0" by (simp add: ParseDuration_def)
  have parsed: "parse_flags (socket_flags(''for'' \<mapsto> DurationFlag)) Map.empty [''--for'', ''500ms''] = Inr ([''for'' \<mapsto> Lasting (500 * Millisecond)], [])"
    "parse_flags (socket_flags(''for'' \<mapsto> DurationFlag)) Map.empty [''--for'', ''0''] = Inr ([''for'' \<mapsto> Lasting 0], [])"
    by (simp_all add: flag_name_def split_value_def set_flag_def half zero)
  show "map ck_Params (cx_Calls (cli_run env w [''pause'', ''--for'', ''500ms''])) = [IntParams [(''seconds'', 0)]]"
    by (simp add: cli_run_def cli_pause_def with_flags_def parsed lasting_flag_def text_flag_def cli_call_def cli_paths_def DefaultDir_def
        SocketPath_def assms cli_exit_def Let_def del: parse_flags.simps split: sum.split option.split)
  show "map ck_Params (cx_Calls (cli_run env w [''resume''])) = [IntParams [(''seconds'', 0)]]"
    by (simp add: cli_run_def cli_resume_def cli_pause_def with_flags_def parsed lasting_flag_def text_flag_def cli_call_def cli_paths_def
        DefaultDir_def SocketPath_def assms cli_exit_def Let_def del: parse_flags.simps split: sum.split option.split)
qed

section \<open>The Windows service\<close>

text \<open>\<open>Execute\<close>: what the service manager asks, and the end of the run; the states reported, and the exit.\<close>

datatype svc_event = RunEnded "string option" | Interrogate | StopAsked | OtherRequest
datatype svc_state = StartPending | SvcRunning | StopPending

definition run_exit :: "string option \<Rightarrow> bool \<times> nat" where
  "run_exit err = (if err = None then (False, 0) else (True, 1))"

fun await_run :: "svc_event list \<Rightarrow> (bool \<times> nat) option" where
  "await_run [] = None"
| "await_run (RunEnded err # es) = Some (run_exit err)"
| "await_run (e # es) = await_run es"

fun svc_loop :: "svc_event list \<Rightarrow> svc_state list \<times> (bool \<times> nat) option" where
  "svc_loop [] = ([], None)"
| "svc_loop (RunEnded err # es) = ([], Some (run_exit err))"
| "svc_loop (Interrogate # es) = (case svc_loop es of (states, end) \<Rightarrow> (SvcRunning # states, end))"
| "svc_loop (StopAsked # es) = ([StopPending], await_run es)"
| "svc_loop (OtherRequest # es) = svc_loop es"

definition Execute :: "svc_event list \<Rightarrow> svc_state list \<times> (bool \<times> nat) option" where
  "Execute events = (case svc_loop events of (states, end) \<Rightarrow> ([StartPending, SvcRunning] @ states, end))"

text \<open>The service only ends after the run has, and reports stopping at most once, last.\<close>

lemma svc_ends_with_run: "snd (svc_loop es) = Some r \<Longrightarrow> \<exists>err. RunEnded err \<in> set es \<and> r = run_exit err"
proof (induction es rule: svc_loop.induct)
  case (4 es)
  have "await_run xs = Some r \<Longrightarrow> \<exists>err. RunEnded err \<in> set xs \<and> r = run_exit err" for xs
    by (induction xs rule: await_run.induct) auto
  then show ?case using 4 by auto
qed (auto split: prod.splits)

end
