(* ===== verification/Desktop.thy ===== *)
theory Desktop
  imports Command_Line Activation
begin

text \<open>
  The desktop program (\<open>desktop/\<close>) below its windows: what it does with its arguments, the health check
  an update is judged by, the calls to the service, the claim links, the watch of the service, and
  what the tray shows. Windows, dialogs and the tray itself are left out.
\<close>

section \<open>Versions\<close>

definition normalizedVersion :: "string \<Rightarrow> string" where
  "normalizedVersion version = (case cut_prefix (trim_space version) ''v'' of Some v \<Rightarrow> v | None \<Rightarrow> trim_space version)"

definition DesktopVersion :: "string \<Rightarrow> string" where
  "DesktopVersion build = (if build = '''' then ''0.0.0-dev'' else build)"

definition desktopBuildMismatch :: "string \<Rightarrow> string \<Rightarrow> bool" where
  "desktopBuildMismatch build running =
     (let gui = normalizedVersion build; served = normalizedVersion running in
      if gui = '''' \<or> served = '''' \<or> contains_str gui ''dev'' \<or> contains_str served ''dev'' then False else gui \<noteq> served)"

definition localHealthCheck :: "cli_env \<Rightarrow> (string option \<Rightarrow> string option) \<Rightarrow> string \<Rightarrow> string \<Rightarrow> string option" where
  "localHealthCheck env version_of build expected =
     (if expected \<noteq> '''' \<and> normalizedVersion (DesktopVersion build) \<noteq> normalizedVersion expected
      then Some ''desktop build version does not match expected update''
      else case DefaultDir env of
             Inl e \<Rightarrow> Some e
           | Inr dir \<Rightarrow>
               (case ce_Exchange env \<lparr>ck_Socket = SocketPath env dir, ck_Method = ''status'', ck_Params = NoParams\<rparr> of
                  Inl _ \<Rightarrow> Some ''local service health check''
                | Inr data \<Rightarrow>
                    (case version_of data of
                       None \<Rightarrow> Some ''local service health check''
                     | Some version \<Rightarrow>
                         if version = '''' then Some ''local service health response omitted its version''
                         else if expected \<noteq> '''' \<and> normalizedVersion version \<noteq> normalizedVersion expected
                         then Some ''local service version does not match expected update'' else None)))"

text \<open>An update is only found healthy when the program and the service that answers are of its version.\<close>

lemma healthy_version:
  "localHealthCheck env version_of build expected = None \<Longrightarrow> expected \<noteq> '''' \<Longrightarrow>
     normalizedVersion (DesktopVersion build) = normalizedVersion expected
     \<and> (\<exists>dir data version. ce_Exchange env \<lparr>ck_Socket = SocketPath env dir, ck_Method = ''status'', ck_Params = NoParams\<rparr> = Inr data
          \<and> version_of data = Some version \<and> normalizedVersion version = normalizedVersion expected)"
  by (auto simp: localHealthCheck_def split: if_splits sum.splits option.splits)

section \<open>Arguments\<close>

datatype desktop_start = UpdateHelper "string list" | HealthCheck string | PrintVersion | RunEmbedded | RunWindow "string list"

definition desktop_main :: "string list \<Rightarrow> desktop_start" where
  "desktop_main args =
     (case args of
        [] \<Rightarrow> RunWindow []
      | first # rest \<Rightarrow>
          if first = ''--desktop-update-helper'' then UpdateHelper rest
          else if first = ''--health-check'' then HealthCheck (case rest of [] \<Rightarrow> '''' | v # _ \<Rightarrow> v)
          else if first = ''version'' \<or> first = ''--version'' then PrintVersion
          else if first = ''--service'' then RunEmbedded
          else RunWindow (filter (\<lambda>a. has_prefix a ''axon-pulse://'') args))"

text \<open>A window makes sure that a service runs.\<close>

definition ensureService :: "bool \<Rightarrow> string + string \<Rightarrow> string list option" where
  "ensureService answered executable =
     (if answered then None else case InstalledExecutable executable of Inl _ \<Rightarrow> None | Inr path \<Rightarrow> Some [path, ''--service''])"

definition runEmbedded :: "run_outcome \<Rightarrow> string list" where
  "runEmbedded w =
     (case rs_Open w of
        Some e \<Rightarrow> [e]
      | None \<Rightarrow> List.map_filter id [rs_Run w, rs_Close w] @ (case rs_PackageRestart w of None \<Rightarrow> [] | Some _ \<Rightarrow> [rs_Reexec w]))"

section \<open>Calls\<close>

datatype desktop_value = DText string | DInt int | DBool bool | DTexts "string list" | DNull | DRaw string

datatype desktop_command = AskStatus | AskHistory int | AskSpeedTestHistory int | AskSupportBundle | DoConnect string string
  | DoPause int | DoSetMode string | DoSSIDConsent bool | DoRunTest string | DoSetHouseholdMix "string option" | DoDisconnect
  | DoCheckUpdate | DoSetUpdateChannel string | DoStageUpdate

fun desktop_request :: "desktop_command \<Rightarrow> string \<times> (string \<times> desktop_value) list option" where
  "desktop_request AskStatus = (''status'', Some [(''live'', DBool True)])"
| "desktop_request (AskHistory hours) = (''history'', Some [(''hours'', DInt hours)])"
| "desktop_request (AskSpeedTestHistory hours) = (''history'', Some [(''hours'', DInt hours), (''kinds'', DTexts [''speed_test''])])"
| "desktop_request AskSupportBundle = (''support_bundle'', None)"
| "desktop_request (DoConnect controller token) = (''connect'', Some [(''url'', DText controller), (''token'', DText token)])"
| "desktop_request (DoPause seconds) = (''pause'', Some [(''seconds'', DInt seconds)])"
| "desktop_request (DoSetMode mode) = (''set_mode'', Some [(''mode'', DText mode)])"
| "desktop_request (DoSSIDConsent enabled) = (''ssid_consent'', Some [(''enabled'', DBool enabled)])"
| "desktop_request (DoRunTest profile) = (''test'', Some [(''profile'', DText profile)])"
| "desktop_request (DoSetHouseholdMix mix) = (''set_household_mix'', Some [(''mix'', case mix of None \<Rightarrow> DNull | Some m \<Rightarrow> DRaw m)])"
| "desktop_request DoDisconnect = (''disconnect'', None)"
| "desktop_request DoCheckUpdate = (''check_update'', None)"
| "desktop_request (DoSetUpdateChannel channel) = (''set_update_channel'', Some [(''channel'', DText channel)])"
| "desktop_request DoStageUpdate = (''stage_update'', None)"

definition desktop_timeout :: "string \<Rightarrow> duration" where
  "desktop_timeout meth = (if meth = ''stage_update'' then 7 * Minute else 2 * Minute)"

text \<open>The desktop waits as long as the server works on a request.\<close>

lemma desktop_waits_for_handler: "desktop_timeout meth = requestTimeout meth"
  by (simp add: desktop_timeout_def requestTimeout_def)

section \<open>Claim links\<close>

text \<open>
  The claim of a link is kept until the sensor is connected or the standalone mode is chosen. A call
  notes the generation of the claim when it starts, and clears the claim only if no link has come in
  since. A history variable counts the links.
\<close>

record desktop =
  dk_claim :: "(string \<times> string) option"
  dk_claimGen :: u64
  dk_calls :: "(nat \<times> desktop_command \<times> u64) list"
  dk_links :: nat

definition new_desktop :: desktop where
  "new_desktop = \<lparr>dk_claim = None, dk_claimGen = 0, dk_calls = [], dk_links = 0\<rparr>"

record link_lib =
  ll_Parse :: "string \<Rightarrow> URL option"
  ll_Query :: "URL \<Rightarrow> string \<Rightarrow> string"

definition claim_of_link :: "link_lib \<Rightarrow> string \<Rightarrow> string + string \<times> string" where
  "claim_of_link l raw =
     (case ll_Parse l raw of
        None \<Rightarrow> Inl ''invalid Axon Pulse claim link''
      | Some parsed \<Rightarrow>
          if url_Scheme parsed \<noteq> ''axon-pulse'' \<or> url_Host parsed \<noteq> ''claim'' then Inl ''invalid Axon Pulse claim link''
          else let controller = trim_space (ll_Query l parsed ''url''); token = trim_space (ll_Query l parsed ''token'') in
               if controller = '''' \<or> \<not> has_prefix token ''spt_'' then Inl ''claim link is missing its controller or invite token''
               else Inr (controller, token))"

definition SetClaimURL :: "link_lib \<Rightarrow> string \<Rightarrow> desktop \<Rightarrow> desktop \<times> string option" where
  "SetClaimURL l raw s =
     (case claim_of_link l raw of
        Inl e \<Rightarrow> (s, Some e)
      | Inr claim \<Rightarrow> (s\<lparr>dk_claim := Some claim, dk_claimGen := dk_claimGen s + 1, dk_links := dk_links s + 1\<rparr>, None))"

definition clearClaimAt :: "u64 \<Rightarrow> desktop \<Rightarrow> desktop" where
  "clearClaimAt generation s = (if dk_claimGen s = generation then s\<lparr>dk_claim := None\<rparr> else s)"

fun clears_claim :: "desktop_command \<Rightarrow> bool" where
  "clears_claim (DoConnect controller token) = True"
| "clears_claim (DoSetMode mode) = (mode = ''standalone'')"
| "clears_claim c = False"

datatype desktop_event = Link string | Start nat desktop_command | Return nat bool

text \<open>A call has a number of its own; \<open>Return\<close> says whether it succeeded.\<close>

definition desktop_step :: "link_lib \<Rightarrow> desktop \<Rightarrow> desktop_event \<Rightarrow> desktop" where
  "desktop_step l s e =
     (case e of
        Link raw \<Rightarrow> fst (SetClaimURL l raw s)
      | Start n c \<Rightarrow> s\<lparr>dk_calls := dk_calls s @ [(n, c, dk_claimGen s)]\<rparr>
      | Return n ok \<Rightarrow>
          (case List.find (\<lambda>call. fst call = n) (dk_calls s) of
             None \<Rightarrow> s
           | Some call \<Rightarrow>
               let s1 = s\<lparr>dk_calls := remove1 call (dk_calls s)\<rparr>
               in if ok \<and> clears_claim (fst (snd call)) then clearClaimAt (snd (snd call)) s1 else s1))"

definition desktop_run :: "link_lib \<Rightarrow> desktop_event list \<Rightarrow> desktop \<Rightarrow> desktop" where
  "desktop_run l es s = foldl (desktop_step l) s es"

text \<open>A generation noted by a call is the number of links at some earlier time.\<close>

definition earlier :: "nat \<Rightarrow> u64 \<Rightarrow> bool" where
  "earlier n g \<longleftrightarrow> (\<exists>k \<le> n. g = of_nat k)"

definition desktop_inv :: "desktop \<Rightarrow> bool" where
  "desktop_inv s \<longleftrightarrow> dk_claimGen s = of_nat (dk_links s) \<and> (\<forall>call \<in> set (dk_calls s). earlier (dk_links s) (snd (snd call)))"

lemma earlier_Suc: "earlier n g \<Longrightarrow> earlier (Suc n) g"
  by (auto simp: earlier_def intro: le_SucI)

lemma earlier_now [simp]: "earlier n (of_nat n)"
  by (auto simp: earlier_def)

lemma earlier_differs:
  assumes "earlier n g" "n < 2 ^ 64 - 1"
  shows "g \<noteq> of_nat (Suc n)"
proof -
  obtain k where k: "k \<le> n" "g = of_nat k" using assms(1) by (auto simp: earlier_def)
  have "unat (of_nat k :: u64) = k" "unat (of_nat (Suc n) :: u64) = Suc n"
    using assms(2) k(1) by (auto simp only: unat_of_nat intro!: mod_less) (simp_all add: take_bit_nat_eq_self)
  then show ?thesis using k by (metis Suc_n_not_le_n)
qed

lemma clearClaimAt_inv: "desktop_inv s \<Longrightarrow> desktop_inv (clearClaimAt g s)"
  by (simp add: clearClaimAt_def desktop_inv_def)

lemma desktop_step_inv:
  assumes inv: "desktop_inv s"
  shows "desktop_inv (desktop_step l s e)"
proof (cases e)
  case (Link raw)
  have "\<forall>call \<in> set (dk_calls s). earlier (Suc (dk_links s)) (snd (snd call))"
    using inv earlier_Suc unfolding desktop_inv_def by blast
  then show ?thesis using inv Link
    by (cases "claim_of_link l raw") (simp_all add: desktop_step_def SetClaimURL_def desktop_inv_def)
next
  case (Start n c)
  then show ?thesis using inv by (auto simp: desktop_step_def desktop_inv_def)
next
  case (Return n ok)
  have fewer: "desktop_inv (s\<lparr>dk_calls := remove1 call (dk_calls s)\<rparr>)" for call
    using inv set_remove1_subset[of call "dk_calls s"] by (auto simp: desktop_inv_def)
  show ?thesis
    by (cases "List.find (\<lambda>call. fst call = n) (dk_calls s)") (simp_all add: desktop_step_def Return Let_def inv fewer clearClaimAt_inv)
qed

interpretation claims: machine "desktop_step l" desktop_inv for l
  by unfold_locales (rule desktop_step_inv)

lemma old_calls_keep_claim:
  assumes "\<forall>(n, c, g) \<in> set (dk_calls s). g \<noteq> dk_claimGen s" "\<forall>e \<in> set es. \<exists>n ok. e = Return n ok"
  shows "dk_claim (desktop_run l es s) = dk_claim s"
  using assms
proof (induction es arbitrary: s)
  case (Cons e es)
  then obtain n ok where e: "e = Return n ok" by auto
  have kept: "dk_claim (desktop_step l s e) = dk_claim s \<and> dk_claimGen (desktop_step l s e) = dk_claimGen s
      \<and> set (dk_calls (desktop_step l s e)) \<subseteq> set (dk_calls s)"
  proof (cases "List.find (\<lambda>call. fst call = n) (dk_calls s)")
    case (Some call)
    then have "call \<in> set (dk_calls s)" by (auto simp: find_Some_iff)
    then have "snd (snd call) \<noteq> dk_claimGen s" using Cons.prems(1) by (cases call) auto
    then show ?thesis using Some e set_remove1_subset[of call "dk_calls s"]
      by (auto simp: desktop_step_def clearClaimAt_def Let_def)
  qed (simp add: desktop_step_def e)
  then have "\<forall>(n, c, g) \<in> set (dk_calls (desktop_step l s e)). g \<noteq> dk_claimGen (desktop_step l s e)" using Cons.prems(1) by auto
  then show ?case using Cons.IH[of "desktop_step l s e"] Cons.prems(2) kept by (simp add: desktop_run_def)
qed (simp add: desktop_run_def)

text \<open>
  A claim that comes in while calls are under way is not cleared by them, whatever they were and
  however they end, as long as fewer than \<open>2 ^ 64\<close> links have come in.
\<close>
lemma fresh_claim_survives:
  assumes "dk_links (desktop_run l before new_desktop) < 2 ^ 64 - 1" "claim_of_link l raw = Inr claim"
    and "\<forall>e \<in> set later. \<exists>n ok. e = Return n ok"
  shows "dk_claim (desktop_run l (before @ Link raw # later) new_desktop) = Some claim"
proof -
  let ?s = "desktop_run l before new_desktop"
  have "desktop_inv new_desktop" by (simp add: desktop_inv_def new_desktop_def)
  then have inv: "desktop_inv ?s" unfolding desktop_run_def by (rule claims.run_inv)
  let ?t = "desktop_step l ?s (Link raw)"
  have t: "dk_claim ?t = Some claim" "dk_claimGen ?t = dk_claimGen ?s + 1" "dk_calls ?t = dk_calls ?s"
    by (simp_all add: desktop_step_def SetClaimURL_def assms(2))
  have next_gen: "dk_claimGen ?t = of_nat (Suc (dk_links ?s))" using inv t(2) by (simp add: desktop_inv_def)
  have "snd (snd call) \<noteq> of_nat (Suc (dk_links ?s))" if "call \<in> set (dk_calls ?s)" for call
    using earlier_differs[OF _ assms(1)] inv that by (auto simp only: desktop_inv_def)
  then have "\<forall>(n, c, g) \<in> set (dk_calls ?t). g \<noteq> dk_claimGen ?t" unfolding next_gen t(3) by force
  then have "dk_claim (desktop_run l later ?t) = dk_claim ?t" by (rule old_calls_keep_claim) (rule assms(3))
  then show ?thesis using t by (simp add: desktop_run_def)
qed

section \<open>Start at login\<close>

text \<open>
  The marker file remembers that starting at login was switched on once. \<open>au_marker\<close> is \<open>None\<close> when it
  cannot be inspected; the manager may be missing, and its calls and the writes may fail.
\<close>

record autostart =
  au_enabled :: bool
  au_marker :: "bool option"

record autostart_faults =
  af_manager :: bool
  af_query :: bool
  af_enable :: bool
  af_disable :: bool
  af_mkdir :: bool
  af_write :: bool

definition initializeAutostart :: "autostart_faults \<Rightarrow> autostart \<Rightarrow> autostart \<times> string option" where
  "initializeAutostart f a =
     (case au_marker a of
        None \<Rightarrow> (a, Some ''stat'')
      | Some True \<Rightarrow> (a, None)
      | Some False \<Rightarrow>
          if \<not> af_manager f then (a, Some ''start at login is unavailable'')
          else if af_query f then (a, Some ''query'')
          else if \<not> au_enabled a \<and> af_enable f then (a, Some ''enable'')
          else let a1 = a\<lparr>au_enabled := True\<rparr> in
               if af_mkdir f then (a1, Some ''mkdir'') else if af_write f then (a1, Some ''write'')
               else (a1\<lparr>au_marker := Some True\<rparr>, None))"

definition AutostartStatus :: "autostart_faults \<Rightarrow> autostart \<Rightarrow> string + bool" where
  "AutostartStatus f a =
     (if \<not> af_manager f then Inl ''start at login is unavailable'' else if af_query f then Inl ''query'' else Inr (au_enabled a))"

definition SetAutostart :: "autostart_faults \<Rightarrow> bool \<Rightarrow> autostart \<Rightarrow> autostart \<times> string option" where
  "SetAutostart f enabled a =
     (if \<not> af_manager f then (a, Some ''start at login is unavailable'')
      else if (if enabled then af_enable f else af_disable f) then (a, Some ''set'')
      else (a\<lparr>au_enabled := enabled\<rparr>, None))"

text \<open>Once it has been set up, a choice of the user is not undone by a later start.\<close>

lemma autostart_choice_kept:
  assumes "initializeAutostart f a = (a1, None)" "SetAutostart g enabled a1 = (a2, None)"
  shows "fst (initializeAutostart h a2) = a2 \<and> au_enabled a2 = enabled"
proof -
  have "au_marker a1 = Some True"
    using assms(1) by (auto simp: initializeAutostart_def Let_def split: option.splits bool.splits if_splits)
  then show ?thesis using assms(2) by (auto simp: initializeAutostart_def SetAutostart_def split: if_splits)
qed

section \<open>Watching the service\<close>

text \<open>
  A round of \<open>Watch\<close>: the updates that came in, each decoded or not, and the error the stream ended
  with. The rounds end with the context.
\<close>

datatype shown = Update string | ServiceUnavailable string

type_synonym watch_round = "string option list \<times> string option"

definition watch_round :: "nat \<Rightarrow> watch_round \<Rightarrow> nat \<times> shown list" where
  "watch_round failures r =
     (let counted = (if fst r = [] then failures else 0); values = map Update (List.map_filter id (fst r)) in
      case snd r of
        None \<Rightarrow> (counted, values)
      | Some e \<Rightarrow> (counted + 1, values @ (if counted + 1 \<ge> 2 then [ServiceUnavailable e] else [])))"

fun desktop_watch :: "nat \<Rightarrow> watch_round list \<Rightarrow> shown list" where
  "desktop_watch failures [] = []"
| "desktop_watch failures (r # rs) = (case watch_round failures r of (n, out) \<Rightarrow> out @ desktop_watch n rs)"

text \<open>A service that answers in every second round is never shown as unavailable.\<close>

fun no_two_failures :: "watch_round list \<Rightarrow> bool" where
  "no_two_failures (a # b # rs) \<longleftrightarrow> (snd a = None \<or> snd b = None \<or> fst b \<noteq> []) \<and> no_two_failures (b # rs)"
| "no_two_failures _ \<longleftrightarrow> True"

definition heard :: "watch_round list \<Rightarrow> bool" where
  "heard rs \<longleftrightarrow> (case rs of [] \<Rightarrow> True | r # _ \<Rightarrow> snd r = None \<or> fst r \<noteq> [])"

lemma watch_round_blip:
  assumes "snd r = None \<longrightarrow> fst r \<noteq> []" "failures = 0 \<or> (failures = 1 \<and> (snd r = None \<or> fst r \<noteq> []))"
  shows "ServiceUnavailable e \<notin> set (snd (watch_round failures r))"
    and "fst (watch_round failures r) = (if snd r = None then 0 else 1)"
  using assms by (auto simp: watch_round_def Let_def split: option.split)

lemma blip_not_shown:
  "no_two_failures rs \<Longrightarrow> \<forall>r \<in> set rs. snd r = None \<longrightarrow> fst r \<noteq> [] \<Longrightarrow> failures = 0 \<or> (failures = 1 \<and> heard rs) \<Longrightarrow>
     ServiceUnavailable e \<notin> set (desktop_watch failures rs)"
proof (induction rs arbitrary: failures)
  case (Cons r rs)
  have now: "snd r = None \<longrightarrow> fst r \<noteq> []" "failures = 0 \<or> (failures = 1 \<and> (snd r = None \<or> fst r \<noteq> []))"
    using Cons.prems(2,3) by (auto simp: heard_def)
  have later: "no_two_failures rs \<and> (snd r = None \<or> heard rs)" using Cons.prems(1) by (cases rs) (auto simp: heard_def)
  have "ServiceUnavailable e \<notin> set (desktop_watch (fst (watch_round failures r)) rs)"
    by (rule Cons.IH) (use later Cons.prems(2) in \<open>auto simp: watch_round_blip(2)[OF now]\<close>)
  then show ?case using watch_round_blip(1)[OF now] by (cases "watch_round failures r") simp
qed simp

section \<open>The tray\<close>

record traySample =
  ty_Success :: bool
  ty_RTTMS :: real

record trayStatus =
  tr_State :: string
  tr_Samples :: "traySample list"
  tr_Live :: "traySample list"
  tr_LastSuccess :: time

record trayView =
  tv_state :: string
  tv_label :: string
  tv_lastUpload :: string

definition tray_condition :: "trayStatus \<Rightarrow> string \<times> string" where
  "tray_condition status =
     (if tr_State status = ''active''
      then let samples = (if tr_Samples status = [] then tr_Live status else tr_Samples status);
               recent = drop (length samples - 10) samples in
           if samples = [] then (''needs_attention'', ''Checking'')
           else if length (filter (\<lambda>s. \<not> ty_Success s) recent) \<ge> 2 \<or> list_ex (\<lambda>s. ty_Success s \<and> ty_RTTMS s \<ge> 180) recent
           then (''degraded'', ''Degraded'') else (''healthy'', ''Healthy'')
      else if tr_State status = ''offline'' \<or> tr_State status = ''service_unavailable'' then (''offline'', ''Offline'')
      else if tr_State status = ''paused'' then (''paused'', ''Paused'')
      else (''needs_attention'', ''Needs attention''))"

definition trayViewFor :: "(time \<Rightarrow> string) \<Rightarrow> trayStatus \<Rightarrow> trayView" where
  "trayViewFor show_time status =
     \<lparr>tv_state = fst (tray_condition status), tv_label = snd (tray_condition status),
      tv_lastUpload = (if tr_LastSuccess status = zero_time then ''No successful upload yet'' else ''Last upload: '' @ show_time (tr_LastSuccess status))\<rparr>"

text \<open>The tray offers to resume exactly while the service says that it is paused.\<close>

lemma tray_paused: "tv_state (trayViewFor show_time status) = ''paused'' \<longleftrightarrow> tr_State status = ''paused''"
  by (auto simp: trayViewFor_def tray_condition_def Let_def)

section \<open>Opening the desktop again\<close>

text \<open>The command that waits for the old desktop, or that there is none; the path it opens.\<close>

definition prepareDesktopRelaunch_darwin :: "(string \<Rightarrow> string) \<Rightarrow> string + string \<Rightarrow> bool \<Rightarrow> string \<Rightarrow> string + string" where
  "prepareDesktopRelaunch_darwin clean executable start_fault bundle =
     (case (if has_suffix (to_lower (clean bundle)) ''.app'' then Inr bundle
            else case executable of Inl e \<Rightarrow> Inl e | Inr path \<Rightarrow> enclosingAppBundle clean path) of
        Inl e \<Rightarrow> Inl e
      | Inr target \<Rightarrow> if start_fault then Inl ''start'' else Inr target)"

definition prepareDesktopRelaunch_linux :: "string + string \<Rightarrow> (string \<Rightarrow> (bool \<times> bool) option) \<Rightarrow> bool \<Rightarrow> string + string" where
  "prepareDesktopRelaunch_linux executable stat start_fault =
     (case InstalledExecutable executable of
        Inl e \<Rightarrow> Inl e
      | Inr path \<Rightarrow>
          (case stat path of
             None \<Rightarrow> Inl ''stat''
           | Some (folder, runnable) \<Rightarrow>
               if folder \<or> \<not> runnable then Inl ''installed Pulse executable is not runnable''
               else if start_fault then Inl ''start'' else Inr path))"

text \<open>\<open>desktopRelaunchScript\<close>: whether the owner still runs, at each look; after thirty waits it gives up.\<close>

fun relaunch_wait :: "nat \<Rightarrow> bool list \<Rightarrow> bool" where
  "relaunch_wait waits [] = True"
| "relaunch_wait waits (runs # rest) = (if \<not> runs then True else if waits \<ge> 30 then False else relaunch_wait (waits + 1) rest)"

lemma relaunch_after_owner: "length looks > 30 \<Longrightarrow> relaunch_wait 0 looks \<Longrightarrow> \<exists>i \<le> 30. \<not> looks ! i"
proof -
  have "relaunch_wait n looks \<Longrightarrow> n + length looks > 30 \<Longrightarrow> n \<le> 30 \<Longrightarrow> \<exists>i. n + i \<le> 30 \<and> i < length looks \<and> \<not> looks ! i" for n
  proof (induction n looks rule: relaunch_wait.induct)
    case (2 n runs rest)
    show ?case
    proof (cases runs)
      case True
      then have "n < 30" "relaunch_wait (n + 1) rest" using 2(2) by (auto split: if_splits)
      then obtain i where "n + 1 + i \<le> 30" "i < length rest" "\<not> rest ! i" using 2(1) 2(3) True by auto
      then show ?thesis by (intro exI[of _ "Suc i"]) simp
    next
      case False
      then show ?thesis using 2(4) by (intro exI[of _ 0]) simp
    qed
  qed simp
  from this[of 0] show "length looks > 30 \<Longrightarrow> relaunch_wait 0 looks \<Longrightarrow> \<exists>i \<le> 30. \<not> looks ! i" by auto
qed

end
